(* ===== verification/Prelude.thy ===== *)
theory Prelude
  imports Main "HOL-Library.Multiset" "HOL-Library.Product_Lexorder"
    "HOL-Library.List_Lexorder" "HOL-Library.Char_ord"
begin

text \<open>
  Shared material of the development: the collections the component proofs use, generic
  lemmas on lists and options, the model of Go's \<open>sort.Slice\<close>, and the map iteration
  order.

  \<open>sort.Slice\<close> does not promise a stable order. \<open>slice_sort\<close> is the insertion sort the
  library runs on short slices; the locale \<open>key_order\<close> shows, for a comparison that orders by
  a key, that the result is ordered and that every other ordered permutation has the same
  sequence of keys, so nothing proved about keys depends on how ties are broken.
\<close>

named_theorems go_simps \<open>equations that unfold the model of the Go library\<close>
named_theorems norm_simps \<open>normalisation functions: idempotence and fixed points\<close>

subsection \<open>Lists\<close>

lemma dropWhile_idem: "dropWhile P (dropWhile P xs) = dropWhile P xs"
  by (induction xs) auto

lemma dropWhile_map_inv: "(\<And>x. P (f x) = P x) \<Longrightarrow> dropWhile P (map f xs) = map f (dropWhile P xs)"
  by (induction xs) auto

definition trim_by :: "('a \<Rightarrow> bool) \<Rightarrow> 'a list \<Rightarrow> 'a list" where
  "trim_by P xs = rev (dropWhile P (rev (dropWhile P xs)))"

lemma trim_by_Nil [simp]: "trim_by P [] = []"
  by (simp add: trim_by_def)

lemma dropWhile_hd_id: "xs = [] \<or> \<not> P (hd xs) \<Longrightarrow> dropWhile P xs = xs"
  by (cases xs) auto

lemma trim_by_id: "xs = [] \<or> (\<not> P (hd xs) \<and> \<not> P (last xs)) \<Longrightarrow> trim_by P xs = xs"
  by (auto simp: trim_by_def dropWhile_hd_id hd_rev)

lemma dropWhile_rev_hd: "dropWhile P xs = xs \<Longrightarrow> dropWhile P (rev (dropWhile P (rev xs))) = rev (dropWhile P (rev xs))"
proof (induction xs)
  case (Cons a as)
  then have na: "\<not> P a" by (metis dropWhile.simps(2) dropWhile_eq_self_iff list.sel(1) list.distinct(1))
  then have "dropWhile P (rev as @ [a]) = dropWhile P (rev as) @ [a]"
    by (induction "rev as" arbitrary: as rule: list.induct) (simp_all add: dropWhile_append3)
  then show ?case using na by simp
qed simp

lemma trim_by_idem: "trim_by P (trim_by P xs) = trim_by P xs"
proof -
  let ?a = "dropWhile P xs"
  have "dropWhile P (rev (dropWhile P (rev ?a))) = rev (dropWhile P (rev ?a))"
    by (rule dropWhile_rev_hd) (rule dropWhile_idem)
  then show ?thesis by (simp add: trim_by_def dropWhile_idem)
qed

lemma trim_by_map: "(\<And>x. P (f x) = P x) \<Longrightarrow> trim_by P (map f xs) = map f (trim_by P xs)"
  by (simp add: trim_by_def dropWhile_map_inv rev_map)

lemma set_trim_by: "set (trim_by P xs) \<subseteq> set xs"
  by (auto simp: trim_by_def dest!: set_dropWhileD)

lemma trim_by_hd: "trim_by P xs \<noteq> [] \<Longrightarrow> \<not> P (hd (trim_by P xs))"
  by (metis dropWhile_rev_hd dropWhile_idem hd_dropWhile trim_by_def)

lemma trim_by_last: "trim_by P xs \<noteq> [] \<Longrightarrow> \<not> P (last (trim_by P xs))"
  by (metis hd_dropWhile last_rev rev_is_Nil_conv trim_by_def)

subsection \<open>\<open>sort.Slice\<close>\<close>

fun slice_insort :: "('a \<Rightarrow> 'a \<Rightarrow> bool) \<Rightarrow> 'a \<Rightarrow> 'a list \<Rightarrow> 'a list" where
  "slice_insort lt x [] = [x]"
| "slice_insort lt x (y # ys) = (if lt y x then y # slice_insort lt x ys else x # y # ys)"

fun slice_sort :: "('a \<Rightarrow> 'a \<Rightarrow> bool) \<Rightarrow> 'a list \<Rightarrow> 'a list" where
  "slice_sort lt [] = []"
| "slice_sort lt (x # xs) = slice_insort lt x (slice_sort lt xs)"

lemma mset_slice_insort: "mset (slice_insort lt x xs) = add_mset x (mset xs)"
  by (induction xs) auto

lemma mset_slice_sort [simp]: "mset (slice_sort lt xs) = mset xs"
  by (induction xs) (auto simp: mset_slice_insort)

lemma set_slice_sort [simp]: "set (slice_sort lt xs) = set xs"
  by (rule mset_eq_setD) simp

lemma length_slice_sort [simp]: "length (slice_sort lt xs) = length xs"
  by (rule mset_eq_length) simp

lemma distinct_slice_sort [simp]: "distinct (slice_sort lt xs) = distinct xs"
  by (rule mset_eq_imp_distinct_iff) simp

lemma slice_sort_Nil_iff [simp]: "slice_sort lt xs = [] \<longleftrightarrow> xs = []"
  using length_slice_sort [of lt xs] by (metis length_0_conv)

text \<open>The contract of \<open>sort.Slice\<close> for a comparison that orders by a key.\<close>

locale key_order =
  fixes lt :: "'a \<Rightarrow> 'a \<Rightarrow> bool" and key :: "'a \<Rightarrow> 'k::linorder"
  assumes less_key: "lt x y \<longleftrightarrow> key x < key y"
begin

lemma insort_keys: "map key (slice_insort lt x ys) = insort (key x) (map key ys)"
  by (induction ys) (auto simp: less_key not_less)

lemma sort_keys: "map key (slice_sort lt xs) = sort (map key xs)"
  by (induction xs) (auto simp: insort_keys)

lemma ordered: "sorted (map key (slice_sort lt xs))"
  by (simp add: sort_keys)

lemma ordered_wrt: "sorted_wrt (\<lambda>x y. \<not> lt y x) (slice_sort lt xs)"
  using ordered [of xs] by (simp add: less_key sorted_map not_less)

lemma keys_unique:
  assumes "mset ys = mset xs" and "sorted_wrt (\<lambda>x y. \<not> lt y x) ys"
  shows "map key ys = map key (slice_sort lt xs)"
proof -
  from assms(2) have "sorted (map key ys)"
    by (simp add: less_key sorted_map not_less)
  moreover have "mset (map key ys) = mset (map key xs)"
    using assms(1) by simp
  ultimately show ?thesis
    by (metis sort_keys properties_for_sort)
qed

lemma injective_unique:
  assumes "mset ys = mset xs" and "sorted_wrt (\<lambda>x y. \<not> lt y x) ys"
    and "inj_on key (set xs)"
  shows "ys = slice_sort lt xs"
proof -
  have "map key ys = map key (slice_sort lt xs)"
    using assms(1,2) by (rule keys_unique)
  moreover have "set ys = set xs" using assms(1) by (rule mset_eq_setD)
  ultimately show ?thesis
    using assms(3) by (metis inj_on_map_eq_map set_slice_sort sup.idem)
qed

end

text \<open>Sorting strings with \<open>sort.Strings\<close>: the comparison is the order itself.\<close>

interpretation str_order: key_order "(<) :: 'a::linorder \<Rightarrow> 'a \<Rightarrow> bool" "\<lambda>x. x"
  by unfold_locales simp

lemma slice_sort_less: "slice_sort (<) xs = sort (xs :: 'a::linorder list)"
  using str_order.sort_keys [of xs] by simp

subsection \<open>Options and association by a key\<close>

lemma case_option_None_iff:
  "(case x of None \<Rightarrow> False | Some y \<Rightarrow> P y) \<longleftrightarrow> (\<exists>y. x = Some y \<and> P y)"
  by (cases x) auto

text \<open>
  Go visits the keys of a map in an unspecified order. Where the code ranges over a map, the
  order is an argument of the model: a list of the keys without repetition.
\<close>

definition map_order :: "'k list \<Rightarrow> ('k \<rightharpoonup> 'v) \<Rightarrow> bool" where
  "map_order ks m \<longleftrightarrow> distinct ks \<and> set ks = dom m"

lemma map_order_mset_unique:
  "map_order ks m \<Longrightarrow> map_order ks' m \<Longrightarrow> mset ks = mset ks'"
  by (auto simp: map_order_def set_eq_iff_mset_eq_distinct [symmetric])


subsection \<open>Counting by a key\<close>

lemma sum_by_key:
  assumes "finite A" and "k ` set xs \<subseteq> A"
  shows "(\<Sum>i\<in>A. length (filter (\<lambda>x. k x = i) xs)) = length xs"
  using assms(2)
proof (induction xs)
  case (Cons x xs)
  have "(\<Sum>i\<in>A. length (filter (\<lambda>y. k y = i) (x # xs))) =
      (\<Sum>i\<in>A. (if k x = i then 1 else 0) + length (filter (\<lambda>y. k y = i) xs))"
    by (rule sum.cong) auto
  also have "\<dots> = 1 + length xs" using Cons assms(1) by (simp add: sum.distrib)
  finally show ?case by simp
qed simp

lemma sum_list_slice_sort:
  fixes g :: "'a \<Rightarrow> 'b::comm_monoid_add"
  shows "sum_list (map g (slice_sort lt xs)) = sum_list (map g xs)"
  by (metis mset_map mset_slice_sort sum_mset_sum_list)

end
