(* ===== verification/GoStrings.thy ===== *)
theory GoStrings
  imports Prelude
begin

text \<open>
  The parts of Go's \<open>strings\<close>, \<open>strconv\<close> and \<open>fmt\<close> the program uses, on byte strings. A Go
  string is a sequence of bytes, which is what the type \<open>string\<close> (a list of 8-bit characters)
  is. Case mapping and white space are those of the ASCII range: bytes from 128 on are left as
  they are, so the Unicode case tables are outside the model. The order of strings is the
  bytewise lexicographic one of Go's \<open><\<close>.
\<close>

subsection \<open>Case and white space\<close>

definition lower_char :: "char \<Rightarrow> char" where
  "lower_char c = (let n = (of_char c :: nat) in if 65 \<le> n \<and> n \<le> 90 then char_of (n + 32) else c)"

definition to_lower :: "string \<Rightarrow> string" where
  "to_lower s = map lower_char s"

definition is_space :: "char \<Rightarrow> bool" where
  "is_space c = (let n = (of_char c :: nat) in n = 32 \<or> (9 \<le> n \<and> n \<le> 13))"

definition trim_space :: "string \<Rightarrow> string" where
  "trim_space s = trim_by is_space s"

definition trim_set :: "string \<Rightarrow> string \<Rightarrow> string" where
  "trim_set s cutset = trim_by (\<lambda>c. c \<in> set cutset) s"

definition equal_fold :: "string \<Rightarrow> string \<Rightarrow> bool" where
  "equal_fold s t \<longleftrightarrow> to_lower s = to_lower t"

text \<open>The same on the bits of a character, for evaluation.\<close>

lemma lower_char_code [code]:
  "lower_char (Char b0 b1 b2 b3 b4 b5 b6 b7) =
     (if \<not> b7 \<and> b6 \<and> \<not> b5 \<and> (b0 \<or> b1 \<or> b2 \<or> b3 \<or> b4) \<and> \<not> (b4 \<and> b3 \<and> (b2 \<or> b1 \<and> b0))
      then Char b0 b1 b2 b3 b4 True b6 b7 else Char b0 b1 b2 b3 b4 b5 b6 b7)"
  by (cases b0; cases b1; cases b2; cases b3; cases b4; cases b5; cases b6; cases b7)
     (simp_all add: lower_char_def Let_def char_of_def bit_0)

lemma is_space_code [code]:
  "is_space (Char b0 b1 b2 b3 b4 b5 b6 b7) =
     (\<not> b7 \<and> \<not> b6 \<and> \<not> b4 \<and>
      ((b5 \<and> \<not> b3 \<and> \<not> b2 \<and> \<not> b1 \<and> \<not> b0) \<or>
       (\<not> b5 \<and> b3 \<and> (if b2 then \<not> b1 else b1 \<or> b0))))"
  by (cases b0; cases b1; cases b2; cases b3; cases b4; cases b5; cases b6; cases b7)
     (simp_all add: is_space_def Let_def)

lemma lower_char_idem [simp]: "lower_char (lower_char c) = lower_char c"
  by (simp add: lower_char_def Let_def)

text \<open>Lowering neither changes nor produces a character that is not a letter.\<close>

lemma of_char_lower:
  "(of_char (lower_char c) :: nat) =
     (let n = of_char c in if 65 \<le> n \<and> n \<le> 90 then n + 32 else n)"
proof (cases "65 \<le> (of_char c :: nat) \<and> (of_char c :: nat) \<le> 90")
  case True
  then have "((of_char c :: nat) + 32) mod 256 = of_char c + 32" by simp
  with True show ?thesis by (simp add: lower_char_def Let_def)
qed (auto simp: lower_char_def Let_def)

definition is_letter :: "char \<Rightarrow> bool" where
  "is_letter c = (let n = (of_char c :: nat) in (65 \<le> n \<and> n \<le> 90) \<or> (97 \<le> n \<and> n \<le> 122))"

lemma lower_char_other: "\<not> is_letter d \<Longrightarrow> lower_char c = d \<longleftrightarrow> c = d"
proof -
  assume d: "\<not> is_letter d"
  have "lower_char c = d \<longleftrightarrow> (of_char (lower_char c) :: nat) = of_char d"
    by (simp only: of_char_eq_iff)
  also have "\<dots> \<longleftrightarrow> (of_char c :: nat) = of_char d"
    using d by (auto simp: of_char_lower is_letter_def Let_def)
  finally show ?thesis by (simp only: of_char_eq_iff)
qed

lemma set_to_lower_other: "\<not> is_letter d \<Longrightarrow> d \<in> set (to_lower s) \<longleftrightarrow> d \<in> set s"
  using lower_char_other [of d] by (force simp: to_lower_def)

lemma not_letters [simp]:
  "\<not> is_letter (CHR '':'')" "\<not> is_letter (CHR ''/'')" "\<not> is_letter (CHR 0x5C)"
  "\<not> is_letter (CHR ''|'')" "\<not> is_letter (CHR ''.'')" "\<not> is_letter (CHR '' '')"
  by code_simp+

lemma is_space_lower [simp]: "is_space (lower_char c) = is_space c"
  by (simp add: lower_char_def is_space_def Let_def)

lemma to_lower_idem [simp, norm_simps]: "to_lower (to_lower s) = to_lower s"
  by (simp add: to_lower_def)

lemma to_lower_Nil [simp]: "to_lower [] = []"
  by (simp add: to_lower_def)

lemma to_lower_eq_Nil [simp]: "to_lower s = [] \<longleftrightarrow> s = []"
  by (simp add: to_lower_def)

lemma to_lower_append: "to_lower (s @ t) = to_lower s @ to_lower t"
  by (simp add: to_lower_def)

lemma length_to_lower [simp]: "length (to_lower s) = length s"
  by (simp add: to_lower_def)

lemma trim_space_Nil [simp]: "trim_space [] = []"
  by (simp add: trim_space_def)

lemma trim_space_idem [simp, norm_simps]: "trim_space (trim_space s) = trim_space s"
  by (simp add: trim_space_def trim_by_idem)

lemma trim_space_lower [norm_simps]: "trim_space (to_lower s) = to_lower (trim_space s)"
  by (simp add: trim_space_def to_lower_def trim_by_map)

lemma trim_space_trim_lower [simp]: "trim_space (to_lower (trim_space s)) = to_lower (trim_space s)"
  by (simp add: trim_space_lower)

lemma trim_set_idem [simp, norm_simps]: "trim_set (trim_set s cs) cs = trim_set s cs"
  by (simp add: trim_set_def trim_by_idem)

lemma equal_fold_refl [simp]: "equal_fold s s"
  by (simp add: equal_fold_def)

lemma equal_fold_sym: "equal_fold s t = equal_fold t s"
  by (auto simp: equal_fold_def)

subsection \<open>Prefixes, suffixes, substrings\<close>

fun has_prefix :: "string \<Rightarrow> string \<Rightarrow> bool" where
  "has_prefix s [] = True"
| "has_prefix [] (p # ps) = False"
| "has_prefix (c # cs) (p # ps) = (c = p \<and> has_prefix cs ps)"

definition has_suffix :: "string \<Rightarrow> string \<Rightarrow> bool" where
  "has_suffix s t = has_prefix (rev s) (rev t)"

fun contains :: "string \<Rightarrow> string \<Rightarrow> bool" where
  "contains [] p = (p = [])"
| "contains (c # cs) p = (has_prefix (c # cs) p \<or> contains cs p)"

definition trim_prefix :: "string \<Rightarrow> string \<Rightarrow> string" where
  "trim_prefix s p = (if has_prefix s p then drop (length p) s else s)"

definition trim_suffix :: "string \<Rightarrow> string \<Rightarrow> string" where
  "trim_suffix s p = (if has_suffix s p then take (length s - length p) s else s)"

lemma has_prefix_iff: "has_prefix s p \<longleftrightarrow> (\<exists>t. s = p @ t)"
  by (induction s p rule: has_prefix.induct) auto

lemma has_suffix_iff: "has_suffix s p \<longleftrightarrow> (\<exists>t. s = t @ p)"
proof -
  have "has_suffix s p \<longleftrightarrow> (\<exists>t. rev s = rev p @ t)"
    by (simp add: has_suffix_def has_prefix_iff)
  also have "\<dots> \<longleftrightarrow> (\<exists>t. s = t @ p)"
    by (metis rev_append rev_rev_ident)
  finally show ?thesis .
qed

lemma contains_iff: "contains s p \<longleftrightarrow> (\<exists>a b. s = a @ p @ b)"
proof (induction s)
  case (Cons c cs)
  have "(\<exists>a b. c # cs = a @ p @ b) \<longleftrightarrow> (\<exists>b. c # cs = p @ b) \<or> (\<exists>a b. cs = a @ p @ b)"
    by (metis append_Cons append_Nil append_eq_Cons_conv)
  then show ?case by (simp add: Cons.IH has_prefix_iff)
qed auto

lemma has_prefix_refl [simp]: "has_prefix s s"
  by (simp add: has_prefix_iff)

lemma has_prefix_append [simp]: "has_prefix (p @ s) p"
  by (simp add: has_prefix_iff)

lemma has_prefix_trans: "has_prefix a b \<Longrightarrow> has_prefix b c \<Longrightarrow> has_prefix a c"
  by (auto simp: has_prefix_iff)

lemma trim_prefix_append [simp]: "trim_prefix (p @ s) p = s"
  by (simp add: trim_prefix_def)

lemma contains_lower: "contains s p \<Longrightarrow> contains (to_lower s) (to_lower p)"
  unfolding contains_iff to_lower_append by (metis to_lower_append)

text \<open>The slice \<open>s[i:j]\<close>.\<close>

definition substr :: "string \<Rightarrow> nat \<Rightarrow> nat \<Rightarrow> string" where
  "substr s i j = take (j - i) (drop i s)"

lemma substr_all [simp]: "substr s 0 (length s) = s"
  by (simp add: substr_def)

lemma length_substr: "j \<le> length s \<Longrightarrow> length (substr s i j) = j - i"
  by (simp add: substr_def)

subsection \<open>Splitting, joining, replacing\<close>

fun split_on :: "char \<Rightarrow> string \<Rightarrow> string list" where
  "split_on c [] = [[]]"
| "split_on c (x # xs) =
     (if x = c then [] # split_on c xs
      else (case split_on c xs of [] \<Rightarrow> [[x]] | w # ws \<Rightarrow> (x # w) # ws))"

fun join :: "string \<Rightarrow> string list \<Rightarrow> string" where
  "join sep [] = []"
| "join sep [s] = s"
| "join sep (s # ss) = s @ sep @ join sep ss"

definition replace_char :: "char \<Rightarrow> string \<Rightarrow> string \<Rightarrow> string" where
  "replace_char c new s = concat (map (\<lambda>x. if x = c then new else [x]) s)"

text \<open>\<open>strings.Index\<close>.\<close>

fun index_of :: "string \<Rightarrow> string \<Rightarrow> nat option" where
  "index_of [] p = (if p = [] then Some 0 else None)"
| "index_of (c # cs) p = (if has_prefix (c # cs) p then Some 0 else map_option Suc (index_of cs p))"

lemma index_of_None: "index_of s p = None \<longleftrightarrow> \<not> contains s p"
  by (induction s p rule: index_of.induct) auto

text \<open>\<open>strings.ReplaceAll\<close> for a non-empty old string.\<close>

function replace_all :: "string \<Rightarrow> string \<Rightarrow> string \<Rightarrow> string" where
  "replace_all old new [] = []"
| "replace_all old new (c # cs) =
     (if old \<noteq> [] \<and> has_prefix (c # cs) old then new @ replace_all old new (drop (length old) (c # cs))
      else c # replace_all old new cs)"
  by pat_completeness auto
termination
  by (relation "measure (\<lambda>(old, new, s). length s)") (auto simp: Suc_le_eq)

definition slashes :: "string \<Rightarrow> string" where
  "slashes s = map (\<lambda>c. if c = CHR 0x5C then CHR ''/'' else c) s"

lemma split_on_not_Nil [simp]: "split_on c s \<noteq> []"
  by (induction s) (auto split: list.splits)

lemma split_on_no_sep: "w \<in> set (split_on c s) \<Longrightarrow> c \<notin> set w"
proof (induction s arbitrary: w)
  case (Cons x xs)
  show ?case
  proof (cases "split_on c xs")
    case (Cons v vs)
    with Cons.prems Cons.IH show ?thesis by (fastforce split: if_splits)
  qed simp
qed simp

lemma join_Cons: "ss \<noteq> [] \<Longrightarrow> join sep (s # ss) = s @ sep @ join sep ss"
  by (cases ss) auto

lemma join_split_on: "join [c] (split_on c s) = s"
proof (induction s)
  case (Cons x xs)
  obtain v vs where "split_on c xs = v # vs" by (cases "split_on c xs") auto
  with Cons.IH show ?case by (cases vs) (auto simp: join_Cons)
qed simp

lemma split_on_no_char: "c \<notin> set s \<Longrightarrow> split_on c s = [s]"
  by (induction s) auto

lemma split_on_append: "c \<notin> set w \<Longrightarrow> split_on c (w @ c # s) = w # split_on c s"
  by (induction w) auto

lemma split_on_append_sep: "split_on c (a @ c # b) = split_on c a @ split_on c b"
proof (induction a)
  case (Cons x xs)
  obtain v vs where "split_on c xs = v # vs" by (cases "split_on c xs") auto
  with Cons.IH show ?case by auto
qed simp

lemma join_append:
  "as \<noteq> [] \<Longrightarrow> bs \<noteq> [] \<Longrightarrow> join sep (as @ bs) = join sep as @ sep @ join sep bs"
proof (induction as)
  case (Cons a as)
  then show ?case by (cases as) (auto simp: join_Cons)
qed simp

lemma split_on_prefix_iff:
  "x = y \<or> has_prefix x (y @ [c]) \<longleftrightarrow> (\<exists>rest. split_on c x = split_on c y @ rest)"
proof
  assume "x = y \<or> has_prefix x (y @ [c])"
  then show "\<exists>rest. split_on c x = split_on c y @ rest"
    by (auto simp: has_prefix_iff split_on_append_sep)
next
  assume "\<exists>rest. split_on c x = split_on c y @ rest"
  then obtain rest where r: "split_on c x = split_on c y @ rest" by blast
  show "x = y \<or> has_prefix x (y @ [c])"
  proof (cases "rest = []")
    case True
    then show ?thesis using r join_split_on by (metis append_Nil2)
  next
    case False
    have "x = join [c] (split_on c y @ rest)" using r join_split_on by metis
    also have "\<dots> = y @ c # join [c] rest" using False by (simp add: join_append join_split_on)
    finally show ?thesis by (simp add: has_prefix_iff)
  qed
qed

lemma split_on_join:
  "ss \<noteq> [] \<Longrightarrow> (\<And>w. w \<in> set ss \<Longrightarrow> c \<notin> set w) \<Longrightarrow> split_on c (join [c] ss) = ss"
proof (induction ss rule: induct_list012)
  case (3 a b ss)
  then show ?case by (simp add: split_on_append)
qed (auto simp: split_on_no_char)

lemma slashes_idem [simp, norm_simps]: "slashes (slashes s) = slashes s"
  by (simp add: slashes_def)

lemma slashes_Nil [simp]: "slashes [] = []"
  by (simp add: slashes_def)

lemma slashes_no_backslash: "CHR 0x5C \<notin> set (slashes s)"
  by (auto simp: slashes_def)

lemma lower_char_slash: "lower_char (if c = CHR 0x5C then CHR ''/'' else c) =
    (if lower_char c = CHR 0x5C then CHR ''/'' else lower_char c)"
  using lower_char_other [of "CHR 0x5C" c] lower_char_other [of "CHR ''/''" "CHR ''/''"]
  by (cases "c = CHR 0x5C") auto

lemma is_space_slash [simp]: "is_space (if c = CHR 0x5C then CHR ''/'' else c) = is_space c"
  by (auto simp: is_space_def Let_def)

lemma slashes_lower: "slashes (to_lower s) = to_lower (slashes s)"
  by (simp add: slashes_def to_lower_def lower_char_slash)

lemma trim_space_slashes: "trim_space (slashes s) = slashes (trim_space s)"
  by (simp add: trim_space_def slashes_def trim_by_map)

subsection \<open>Numbers and quoting\<close>

definition digit_char :: "nat \<Rightarrow> char" where
  "digit_char d = char_of (48 + d)"

fun string_of_nat :: "nat \<Rightarrow> string" where
  "string_of_nat n =
     (if n < 10 then [digit_char n] else string_of_nat (n div 10) @ [digit_char (n mod 10)])"

declare string_of_nat.simps [simp del]

definition itoa :: "int \<Rightarrow> string" where
  "itoa i = (if i < 0 then CHR ''-'' # string_of_nat (nat (- i)) else string_of_nat (nat i))"

definition hex_digit :: "nat \<Rightarrow> char" where
  "hex_digit d = (if d < 10 then char_of (48 + d) else char_of (87 + d))"

text \<open>The \<open>%q\<close> verb on the ASCII range (\<open>strconv.Quote\<close>).\<close>

definition quote_char :: "char \<Rightarrow> string" where
  "quote_char c =
     (let n = (of_char c :: nat) in
      if c = CHR 0x22 \<or> c = CHR 0x5C then [CHR 0x5C, c]
      else if n = 7 then [CHR 0x5C, CHR ''a'']
      else if n = 8 then [CHR 0x5C, CHR ''b'']
      else if n = 12 then [CHR 0x5C, CHR ''f'']
      else if n = 10 then [CHR 0x5C, CHR ''n'']
      else if n = 13 then [CHR 0x5C, CHR ''r'']
      else if n = 9 then [CHR 0x5C, CHR ''t'']
      else if n = 11 then [CHR 0x5C, CHR ''v'']
      else if n < 32 \<or> n = 127 then [CHR 0x5C, CHR ''x'', hex_digit (n div 16), hex_digit (n mod 16)]
      else [c])"

definition quote :: "string \<Rightarrow> string" where
  "quote s = [CHR 0x22] @ concat (map quote_char s) @ [CHR 0x22]"

subsection \<open>Normalisers\<close>

text \<open>
  The program compares hosts, shares, paths and rule ids after normalising them. Each of these
  functions is idempotent; what follows from that is proved once.
\<close>

locale normaliser =
  fixes norm :: "string \<Rightarrow> string"
  assumes norm_idem: "norm (norm s) = norm s"
    and norm_Nil: "norm [] = []"
begin

lemma norm_fixed_iff: "norm s = s \<longleftrightarrow> (\<exists>t. s = norm t)"
  by (metis norm_idem)

lemma map_norm_idem: "map norm (map norm ss) = map norm ss"
  by (simp add: norm_idem)

lemma norm_eq_left: "norm (norm s) = norm t \<longleftrightarrow> norm s = norm t"
  by (simp add: norm_idem)

end

lemma lower_trim_idem [norm_simps]:
  "to_lower (trim_space (to_lower (trim_space s))) = to_lower (trim_space s)"
  by (simp add: trim_space_lower)

lemma lower_slash_trim_idem [norm_simps]:
  "to_lower (slashes (trim_space (to_lower (slashes (trim_space s))))) = to_lower (slashes (trim_space s))"
  by (simp add: trim_space_lower slashes_lower trim_space_slashes)

lemma length_split_on: "length (split_on c s) = count_list s c + 1"
  by (induction s) (auto split: list.splits)

lemma replace_all_absent: "\<not> contains s old \<Longrightarrow> old \<noteq> [] \<Longrightarrow> replace_all old new s = s"
  by (induction old new s rule: replace_all.induct) auto

lemma contains_first: "contains s p \<Longrightarrow> p \<noteq> [] \<Longrightarrow> hd p \<in> set s"
  by (cases p) (auto simp: contains_iff)

lemma count_list_take_le: "count_list (take n s) c \<le> count_list s c"
  by (metis append_take_drop_id count_list_append le_add1)

lemma trim_space_subset: "set (trim_space s) \<subseteq> set s"
  by (simp add: trim_space_def set_trim_by)

end
