(* ===== verification/GoPath.thy ===== *)
theory GoPath
  imports GoStrings
begin

text \<open>
  Go's \<open>path/filepath\<close> on Unix, where the separator is the slash and \<open>ToSlash\<close> changes nothing:
  \<open>Clean\<close>, \<open>Base\<close>, \<open>Dir\<close> and \<open>Ext\<close>.
\<close>

definition to_slash :: "string \<Rightarrow> string" where
  "to_slash s = s"

text \<open>
  \<open>Clean\<close> reads the path one element at a time: empty elements and dots are dropped, and a
  double dot removes the element before it, if there is one to remove. The stack holds the
  elements kept so far, the last one first.
\<close>

fun clean_step :: "bool \<Rightarrow> string list \<Rightarrow> string \<Rightarrow> string list" where
  "clean_step rooted stack e =
     (if e = [] \<or> e = ''.'' then stack
      else if e = ''..'' then
        (case stack of
          [] \<Rightarrow> if rooted then [] else [''..'']
        | t # ts \<Rightarrow> if t = ''..'' then ''..'' # stack else ts)
      else e # stack)"

definition path_clean :: "string \<Rightarrow> string" where
  "path_clean path =
     (if path = [] then ''.''
      else
        let rooted = (hd path = CHR ''/'');
            body = join ''/'' (rev (foldl (clean_step rooted) [] (split_on CHR ''/'' path)))
        in if rooted then CHR ''/'' # body else if body = [] then ''.'' else body)"

definition after_last_slash :: "string \<Rightarrow> string" where
  "after_last_slash path = rev (takeWhile (\<lambda>c. c \<noteq> CHR ''/'') (rev path))"

definition path_base :: "string \<Rightarrow> string" where
  "path_base path =
     (if path = [] then ''.''
      else
        let p = rev (dropWhile (\<lambda>c. c = CHR ''/'') (rev path)); b = after_last_slash p
        in if b = [] then ''/'' else b)"

definition path_dir :: "string \<Rightarrow> string" where
  "path_dir path = path_clean (rev (dropWhile (\<lambda>c. c \<noteq> CHR ''/'') (rev path)))"

text \<open>\<open>Ext\<close>: the suffix from the last dot of the last element.\<close>

definition path_ext :: "string \<Rightarrow> string" where
  "path_ext path =
     (let e = after_last_slash path
      in if CHR ''.'' \<in> set e
         then CHR ''.'' # rev (takeWhile (\<lambda>c. c \<noteq> CHR ''.'') (rev e)) else [])"

subsection \<open>Elements of a cleaned path\<close>

definition plain_element :: "string \<Rightarrow> bool" where
  "plain_element e \<longleftrightarrow> e \<noteq> [] \<and> e \<noteq> ''.'' \<and> e \<noteq> ''..'' \<and> CHR ''/'' \<notin> set e"

text \<open>The stack of a relative path: double dots at the bottom, plain elements above them.\<close>

fun clean_stack :: "bool \<Rightarrow> string list \<Rightarrow> bool" where
  "clean_stack rooted [] = True"
| "clean_stack rooted (e # es) =
     ((plain_element e \<and> clean_stack rooted es) \<or> (\<not> rooted \<and> e = ''..'' \<and> set es \<subseteq> {''..''}))"

lemma clean_stack_dots: "\<not> rooted \<Longrightarrow> set es \<subseteq> {''..''} \<Longrightarrow> clean_stack rooted es"
  by (induction es) auto

lemma clean_step_stack:
  "clean_stack rooted st \<Longrightarrow> CHR ''/'' \<notin> set e \<Longrightarrow> clean_stack rooted (clean_step rooted st e)"
proof (cases "e = [] \<or> e = ''.''")
  case False
  assume st: "clean_stack rooted st" and e: "CHR ''/'' \<notin> set e"
  show ?thesis
  proof (cases "e = ''..''")
    case True
    show ?thesis
    proof (cases st)
      case (Cons t ts)
      with st True show ?thesis
        by (auto simp: plain_element_def intro: clean_stack_dots)
    qed (use True in auto)
  qed (use False e st in \<open>auto simp: plain_element_def\<close>)
qed auto

lemma clean_foldl_stack:
  "clean_stack rooted st \<Longrightarrow> (\<And>e. e \<in> set es \<Longrightarrow> CHR ''/'' \<notin> set e) \<Longrightarrow>
   clean_stack rooted (foldl (clean_step rooted) st es)"
proof (induction es arbitrary: st)
  case (Cons e es)
  then show ?case using clean_step_stack [of rooted st e] by (simp del: clean_step.simps)
qed simp

lemma clean_stack_elements:
  "clean_stack rooted st \<Longrightarrow> e \<in> set st \<Longrightarrow> e \<noteq> [] \<and> e \<noteq> ''.'' \<and> CHR ''/'' \<notin> set e"
  by (induction st) (auto simp: plain_element_def)

lemma clean_foldl_keep:
  "clean_stack rooted (rev es) \<Longrightarrow> foldl (clean_step rooted) [] es = rev es"
proof (induction es rule: rev_induct)
  case (snoc e es)
  then have st: "clean_stack rooted (rev es)"
    using clean_stack_dots [of rooted "rev es"] by (cases rooted) (auto simp del: clean_step.simps)
  have "foldl (clean_step rooted) [] es = rev es"
    using st by (rule snoc.IH)
  moreover have "clean_step rooted (rev es) e = e # rev es"
    using snoc.prems by (cases "rev es") (auto simp: plain_element_def)
  ultimately show ?case by (simp del: clean_step.simps)
qed simp

lemma split_rooted: "split_on CHR ''/'' (CHR ''/'' # s) = [] # split_on CHR ''/'' s"
  by simp

lemma clean_elements:
  "clean_stack rooted (foldl (clean_step rooted) [] (split_on CHR ''/'' path))"
  by (rule clean_foldl_stack) (auto dest: split_on_no_sep)

lemma clean_join_again:
  assumes "clean_stack rooted st" and "st \<noteq> []"
  shows "foldl (clean_step rooted) [] (split_on CHR ''/'' (join ''/'' (rev st))) = st"
proof -
  have "split_on CHR ''/'' (join [CHR ''/''] (rev st)) = rev st"
    using assms clean_stack_elements [OF assms(1)] by (intro split_on_join) auto
  then show ?thesis
    using clean_foldl_keep [of rooted "rev st"] assms(1) by simp
qed

lemma join_hd:
  assumes "ss \<noteq> []" and "\<And>w. w \<in> set ss \<Longrightarrow> w \<noteq> [] \<and> c \<notin> set w"
  shows "join [c] ss \<noteq> []" and "hd (join [c] ss) \<noteq> c"
proof -
  obtain w ws where ss: "ss = w # ws" using assms(1) by (cases ss) auto
  with assms(2) have w: "w \<noteq> []" "c \<notin> set w" by auto
  have "join [c] ss = w @ (if ws = [] then [] else c # join [c] ws)"
    using ss by (cases ws) auto
  then show "join [c] ss \<noteq> []" and "hd (join [c] ss) \<noteq> c"
    using w by (auto simp: hd_append)
qed

lemma path_clean_rooted:
  "path_clean (CHR ''/'' # s) = CHR ''/'' # join ''/'' (rev (foldl (clean_step True) [] (split_on CHR ''/'' s)))"
  by (simp add: path_clean_def Let_def)

lemma path_clean_idem [simp, norm_simps]: "path_clean (path_clean p) = path_clean p"
proof (cases "p = []")
  case True
  have "path_clean ''.'' = ''.''" by code_simp
  then show ?thesis using True by (simp add: path_clean_def)
next
  case ne: False
  define r where "r = (hd p = CHR ''/'')"
  define st where "st = foldl (clean_step r) [] (split_on CHR ''/'' p)"
  have cs: "clean_stack r st" unfolding st_def by (rule clean_elements)
  have eq: "path_clean p = (if r then CHR ''/'' # join ''/'' (rev st)
      else if join ''/'' (rev st) = [] then ''.'' else join ''/'' (rev st))"
    using ne by (simp add: path_clean_def Let_def r_def st_def)
  show ?thesis
  proof (cases "st = []")
    case True
    have "path_clean ''.'' = ''.''" and "path_clean ''/'' = ''/''" by code_simp+
    then show ?thesis using True eq by auto
  next
    case False
    have el: "w \<noteq> [] \<and> CHR ''/'' \<notin> set w" if "w \<in> set (rev st)" for w
      using clean_stack_elements [OF cs, of w] that by simp
    have j: "join ''/'' (rev st) \<noteq> []" "hd (join ''/'' (rev st)) \<noteq> CHR ''/''"
      using join_hd [of "rev st" "CHR ''/''"] False el by auto
    show ?thesis
    proof (cases r)
      case True
      then show ?thesis
        using eq clean_join_again [OF cs False] by (simp add: path_clean_rooted)
    next
      case nr: False
      then have e: "path_clean p = join ''/'' (rev st)" using eq j(1) by simp
      have cj: "foldl (clean_step False) [] (split_on CHR ''/'' (join ''/'' (rev st))) = st"
        using clean_join_again [OF cs False] nr by simp
      show ?thesis
        unfolding e using j cj by (simp add: path_clean_def Let_def)
    qed
  qed
qed

lemma path_clean_not_Nil [simp]: "path_clean p \<noteq> []"
  by (simp add: path_clean_def Let_def)

end
