(* ===== verification/Planner.thy ===== *)
theory Planner
  imports GoPath
begin

text \<open>
  The package \<open>internal/planner\<close>: scores of hosts, shares and files, the include and exclude
  filters, and the ordered plan. Scores are Go \<open>int\<close>s; the score bounds proved below show that
  no addition leaves the range of a machine integer, so they are mathematical integers here.
\<close>

record PlannedTarget =
  pt_Host :: string
  pt_Share :: string
  pt_Path :: string
  pt_Priority :: int
  pt_Reason :: string
  pt_Source :: string

record FilterOptions =
  fo_IncludeShares :: "string list"
  fo_ExcludeShares :: "string list"
  fo_IncludePaths :: "string list"
  fo_ExcludePaths :: "string list"
  fo_MaxDepth :: int

record HostInput =
  hi_Host :: string
  hi_Source :: string

record ShareInput =
  si_Host :: string
  si_Share :: string
  si_Source :: string
  si_PrioritizeADShares :: bool

record FileInput =
  fi_Host :: string
  fi_Share :: string
  fi_Path :: string
  fi_Extension :: string
  fi_Source :: string
  fi_PrioritizeADShares :: bool

subsection \<open>Scores\<close>

fun containsAny :: "string \<Rightarrow> string list \<Rightarrow> bool" where
  "containsAny value [] = False"
| "containsAny value (part # parts) =
     (let part' = to_lower (trim_space part)
      in if part' = [] then containsAny value parts
         else if contains value part' then True
         else containsAny value parts)"

definition normalizedSource :: "string \<Rightarrow> string" where
  "normalizedSource value = to_lower (trim_space value)"

definition normalizePlanExtension :: "string \<Rightarrow> string" where
  "normalizePlanExtension value =
     (let v = to_lower (trim_space value)
      in if v = [] then [] else if has_prefix v ''.'' then v else CHR ''.'' # v)"

declare containsAny.simps [simp del]

text \<open>
  A score grows together with the list of its reasons. A \<open>switch\<close> of the code whose cases add to
  the score is a list of cases: the first one whose condition holds is taken.
\<close>

type_synonym scored = "int \<times> string list"

definition bump :: "int \<Rightarrow> string \<Rightarrow> scored \<Rightarrow> scored" where
  "bump n reason s = (fst s + n, snd s @ [reason])"

fun switch :: "(bool \<times> int \<times> string) list \<Rightarrow> scored \<Rightarrow> scored" where
  "switch [] s = s"
| "switch ((c, n, reason) # cases) s = (if c then bump n reason s else switch cases s)"

definition scoreHost :: "HostInput \<Rightarrow> scored" where
  "scoreHost input =
     (let source = normalizedSource (hi_Source input);
          host = to_lower (trim_space (hi_Host input));
          s0 = (10, [''base host priority'']);
          s1 = switch
            [(source = ''cli'', 25, ''explicit CLI target''),
             (source = ''file'', 15, ''target supplied from file''),
             (source = ''ldap'', 10, ''discovered from LDAP'')] s0;
          s2 = switch
            [(contains (to_lower (hi_Source input)) ''dfs'', 35, ''DFS-related discovery source'')] s1
      in switch
           [(containsAny host [''fs'', ''files'', ''file'', ''nas'', ''storage''],
             20, ''hostname suggests file storage role''),
            (containsAny host [''dc'', ''domain'', ''ad''],
             10, ''hostname suggests directory services role'')] s2)"

definition scoreShare :: "ShareInput \<Rightarrow> scored" where
  "scoreShare input =
     (let share = to_lower (trim_space (si_Share input));
          s0 = (10, [''base share priority'']);
          s1 = (if si_PrioritizeADShares input then switch
                  [(share = ''sysvol'', 100, ''SYSVOL is high-value for policy and config review''),
                   (share = ''netlogon'', 95, ''NETLOGON commonly contains scripts and deployment material'')] s0
                else s0);
          s2 = switch
            [(containsAny share
                [''finance'', ''fin'', ''payroll'', ''hr'', ''personnel'', ''legal'', ''contracts''],
              45, ''share name suggests business-sensitive content''),
             (containsAny share
                [''admin'', ''ops'', ''it'', ''scripts'', ''deploy'', ''config'', ''backup'', ''export'', ''archive''],
              30, ''share name suggests operational or sensitive material'')] s1
      in switch
           [(contains (to_lower (si_Source input)) ''dfs'', 35, ''DFS-discovered enterprise share'')] s2)"

definition scoreFile :: "FileInput \<Rightarrow> scored" where
  "scoreFile input =
     (let path = to_lower (to_slash (trim_space (fi_Path input)));
          ext = normalizePlanExtension (fi_Extension input);
          share = to_lower (trim_space (fi_Share input));
          s0 = (10, [''base file priority'']);
          s1 = (if fi_PrioritizeADShares input then
                  switch
                    [(containsAny path [''policies/'', ''/policies/''], 30, ''path is under Policies''),
                     (containsAny path [''preferences/'', ''/preferences/''], 28, ''path is under Preferences''),
                     (containsAny path [''scripts/'', ''/scripts/''], 24, ''path is under Scripts'')]
                    (switch
                      [(share = ''sysvol'', 35, ''file is under SYSVOL''),
                       (share = ''netlogon'', 30, ''file is under NETLOGON'')] s0)
                else s0);
          s2 = switch
            [(containsAny path [''secret'', ''password'', ''passwd'', ''token'', ''key'', ''cred'', ''vpn''],
              55, ''path suggests credential or secret material''),
             (containsAny path
                [''config'', ''settings'', ''unattend'', ''sysprep'', ''groups.xml'', ''registry.xml'', ''scripts.ini''],
              40, ''path suggests configuration or policy review material''),
             (containsAny path [''backup'', ''export'', ''dump'', ''archive'', ''snapshot''],
              28, ''path suggests backup or export material''),
             (containsAny path
                [''finance'', ''payroll'', ''hr'', ''employee'', ''invoice'', ''customer'', ''contract''],
              35, ''path suggests business-sensitive content''),
             (containsAny path [''admin'', ''ops'', ''deploy'', ''bootstrap'', ''provision'', ''script''],
              22, ''path suggests administrative or deployment content'')] s1;
          s3 = switch
            [(ext \<in> set [''.key'', ''.pem'', ''.p12'', ''.pfx'', ''.jks''],
              55, ''extension suggests key or certificate material''),
             (ext \<in> set [''.env'', ''.config'', ''.conf'', ''.ini'', ''.json'', ''.toml'', ''.xml'',
                          ''.yaml'', ''.yml'', ''.tfvars''],
              35, ''extension suggests configuration content''),
             (ext \<in> set [''.ps1'', ''.psm1'', ''.sh'', ''.py'', ''.cmd'', ''.bat''],
              24, ''extension suggests script content''),
             (ext \<in> set [''.sql'', ''.db'', ''.sqlite'', ''.sqlite3'', ''.bak'', ''.csv'', ''.tsv'',
                          ''.xls'', ''.xlsx''],
              18, ''extension suggests export, backup, or database content'')] s2
      in switch
           [(contains (to_lower (fi_Source input)) ''dfs'', 10, ''discovered through DFS-related source'')] s3)"

definition PriorityBand :: "int \<Rightarrow> string" where
  "PriorityBand value =
     (if value \<ge> 120 then ''critical''
      else if value \<ge> 80 then ''high''
      else if value \<ge> 40 then ''medium''
      else ''low'')"

subsection \<open>Filters\<close>

definition normalizePlanPath :: "string \<Rightarrow> string" where
  "normalizePlanPath path =
     (let p = to_slash (trim_space path); q = trim_prefix p ''./''
      in trim_set q ''/'')"

definition hasPathPrefix :: "string \<Rightarrow> string \<Rightarrow> bool" where
  "hasPathPrefix path0 prefix0 =
     (let path = normalizePlanPath path0; prefix = normalizePlanPath prefix0
      in if path = [] \<or> prefix = [] then False
         else path = prefix \<or> has_prefix path (prefix @ ''/''))"

definition pathDepth :: "string \<Rightarrow> int" where
  "pathDepth path0 =
     (let path = normalizePlanPath path0
      in if path = [] then 0
         else
           let dir = trim_set (to_slash (path_dir path)) ''/''
           in if dir = ''.'' \<or> dir = [] then 0 else int (length (split_on CHR ''/'' dir)))"

definition shareAllowed :: "string \<Rightarrow> FilterOptions \<Rightarrow> bool" where
  "shareAllowed name filters =
     (let share = to_lower (trim_space name)
      in if share = [] then False
         else if fo_IncludeShares filters \<noteq> [] \<and>
              \<not> (\<exists>allowed \<in> set (fo_IncludeShares filters). share = to_lower (trim_space allowed))
         then False
         else \<not> (\<exists>blocked \<in> set (fo_ExcludeShares filters). share = to_lower (trim_space blocked)))"

definition pathAllowed :: "string \<Rightarrow> FilterOptions \<Rightarrow> bool" where
  "pathAllowed path filters =
     (let normalized = normalizePlanPath path
      in if normalized = [] then False
         else if fo_MaxDepth filters > 0 \<and> pathDepth normalized > fo_MaxDepth filters then False
         else if \<exists>blocked \<in> set (fo_ExcludePaths filters). hasPathPrefix normalized blocked then False
         else if fo_IncludePaths filters = [] then True
         else (\<exists>allowed \<in> set (fo_IncludePaths filters). hasPathPrefix normalized allowed))"

subsection \<open>The plan\<close>

text \<open>
  The reasons of a plan entry, each once up to case. The map \<open>seen\<close> of the code is the list
  of the lower-case reasons seen so far.
\<close>

fun joinReasons_loop :: "string list \<Rightarrow> string list \<Rightarrow> string list" where
  "joinReasons_loop seen [] = []"
| "joinReasons_loop seen (reason # reasons) =
     (let r = trim_space reason; key = to_lower r
      in if r = [] \<or> key \<in> set seen then joinReasons_loop seen reasons
         else r # joinReasons_loop (key # seen) reasons)"

definition joinReasons :: "string list \<Rightarrow> string" where
  "joinReasons reasons = join ''; '' (joinReasons_loop [] reasons)"

definition planned_less :: "PlannedTarget \<Rightarrow> PlannedTarget \<Rightarrow> bool" where
  "planned_less a b =
     (if pt_Priority a = pt_Priority b then
        (if pt_Host a = pt_Host b then
           (if pt_Share a = pt_Share b then pt_Path a < pt_Path b
            else pt_Share a < pt_Share b)
         else pt_Host a < pt_Host b)
      else pt_Priority a > pt_Priority b)"

definition sortPlanned :: "PlannedTarget list \<Rightarrow> PlannedTarget list" where
  "sortPlanned items = slice_sort planned_less items"

definition plannedHost :: "HostInput \<Rightarrow> PlannedTarget" where
  "plannedHost input =
     (let (score, reasons) = scoreHost input
      in \<lparr>pt_Host = trim_space (hi_Host input), pt_Share = [], pt_Path = [], pt_Priority = score,
          pt_Reason = joinReasons reasons, pt_Source = trim_space (hi_Source input)\<rparr>)"

definition PlanHosts :: "HostInput list \<Rightarrow> PlannedTarget list" where
  "PlanHosts inputs = sortPlanned (map plannedHost inputs)"

definition plannedShare :: "ShareInput \<Rightarrow> PlannedTarget" where
  "plannedShare input =
     (let (score, reasons) = scoreShare input
      in \<lparr>pt_Host = trim_space (si_Host input), pt_Share = trim_space (si_Share input), pt_Path = [],
          pt_Priority = score, pt_Reason = joinReasons reasons, pt_Source = trim_space (si_Source input)\<rparr>)"

definition PlanShares :: "ShareInput list \<Rightarrow> FilterOptions \<Rightarrow> PlannedTarget list" where
  "PlanShares inputs filters =
     sortPlanned (map plannedShare (filter (\<lambda>i. shareAllowed (si_Share i) filters) inputs))"

definition plannedFile :: "FileInput \<Rightarrow> PlannedTarget" where
  "plannedFile input =
     (let (score, reasons) = scoreFile input
      in \<lparr>pt_Host = trim_space (fi_Host input), pt_Share = trim_space (fi_Share input),
          pt_Path = trim_space (fi_Path input), pt_Priority = score,
          pt_Reason = joinReasons reasons, pt_Source = trim_space (fi_Source input)\<rparr>)"

definition PlanFiles :: "FileInput list \<Rightarrow> FilterOptions \<Rightarrow> PlannedTarget list" where
  "PlanFiles inputs filters =
     sortPlanned (map plannedFile
       (filter (\<lambda>i. shareAllowed (fi_Share i) filters \<and> pathAllowed (fi_Path i) filters) inputs))"

subsection \<open>Bounds of the scores\<close>

definition within :: "int \<Rightarrow> int \<Rightarrow> scored \<Rightarrow> bool" where
  "within l h s \<longleftrightarrow> l \<le> fst s \<and> fst s \<le> h"

text \<open>The least and the greatest a \<open>switch\<close> can add.\<close>

definition points :: "(bool \<times> int \<times> string) list \<Rightarrow> int list" where
  "points cs = map (\<lambda>c. fst (snd c)) cs"

lemma points_simps [simp]: "points [] = []" "points ((c, n, r) # cs) = n # points cs"
  by (simp_all add: points_def)

lemma switch_within:
  "within l h s \<Longrightarrow> (\<forall>n \<in> set (points cs). 0 \<le> n \<and> n \<le> m) \<Longrightarrow> 0 \<le> m \<Longrightarrow> within l (h + m) (switch cs s)"
  by (induction cs s rule: switch.induct) (auto simp: within_def bump_def)

lemma scoreHost_within: "within 10 90 (scoreHost i)"
proof -
  have "within 10 (((10 + 25) + 35) + 20) (scoreHost i)"
    unfolding scoreHost_def Let_def
    by (intro switch_within) (simp_all add: within_def)
  then show ?thesis by simp
qed

lemma switch_skip: "\<forall>c \<in> set cs. \<not> fst c \<Longrightarrow> switch cs s = s"
  by (induction cs s rule: switch.induct) auto

lemma scoreShare_ad:
  assumes "si_PrioritizeADShares i" and "to_lower (trim_space (si_Share i)) \<in> {''sysvol'', ''netlogon''}"
  shows "within 105 190 (scoreShare i)"
proof -
  have "within 105 ((110 + 45) + 35) (scoreShare i)"
    unfolding scoreShare_def Let_def if_P [OF assms(1)]
    by (intro switch_within) (use assms(2) in \<open>auto simp: within_def bump_def\<close>)
  then show ?thesis by simp
qed

lemma scoreShare_other:
  assumes "to_lower (trim_space (si_Share i)) \<notin> {''sysvol'', ''netlogon''}"
  shows "within 10 90 (scoreShare i)"
proof -
  have "within 10 ((10 + 45) + 35) (scoreShare i)"
    unfolding scoreShare_def Let_def
    by (intro switch_within) (use assms in \<open>auto simp: within_def switch_skip\<close>)
  then show ?thesis by simp
qed

lemma scoreShare_within_off:
  assumes "\<not> si_PrioritizeADShares i"
  shows "within 10 90 (scoreShare i)"
proof -
  have "within 10 ((10 + 45) + 35) (scoreShare i)"
    unfolding scoreShare_def Let_def
    by (intro switch_within) (use assms in \<open>auto simp: within_def\<close>)
  then show ?thesis by simp
qed

lemma scoreFile_within: "within 10 195 (scoreFile i)"
proof -
  have "within 10 ((((10 + 35 + 30) + 55) + 55) + 10) (scoreFile i)"
    unfolding scoreFile_def Let_def
    by (intro switch_within) (simp_all add: within_def bump_def)
  then show ?thesis by simp
qed

subsection \<open>The order of the plan\<close>

definition planned_key :: "PlannedTarget \<Rightarrow> int \<times> string \<times> string \<times> string" where
  "planned_key t = (- pt_Priority t, pt_Host t, pt_Share t, pt_Path t)"

interpretation planned: key_order planned_less planned_key
  by unfold_locales (auto simp: planned_less_def planned_key_def less_prod_def)

lemma sortPlanned_priority:
  assumes "i < j" and "j < length (sortPlanned ts)"
  shows "pt_Priority (sortPlanned ts ! j) \<le> pt_Priority (sortPlanned ts ! i)"
proof -
  have "\<not> planned_less (sortPlanned ts ! j) (sortPlanned ts ! i)"
    using planned.ordered_wrt [of ts] assms by (simp add: sortPlanned_def sorted_wrt_iff_nth_less)
  then show ?thesis by (auto simp: planned_less_def split: if_splits)
qed


subsection \<open>Path prefixes follow directory boundaries\<close>

text \<open>The elements of a path as the planner normalises it.\<close>

definition plan_elements :: "string \<Rightarrow> string list" where
  "plan_elements p = split_on CHR ''/'' (normalizePlanPath p)"

lemma plan_elements_inj: "plan_elements p = plan_elements q \<Longrightarrow> normalizePlanPath p = normalizePlanPath q"
  unfolding plan_elements_def by (metis join_split_on)

lemma hasPathPrefix_elements:
  "hasPathPrefix path prefix \<longleftrightarrow>
     normalizePlanPath path \<noteq> [] \<and> normalizePlanPath prefix \<noteq> [] \<and>
     (\<exists>rest. plan_elements path = plan_elements prefix @ rest)"
  using split_on_prefix_iff [of "normalizePlanPath path" "normalizePlanPath prefix" "CHR ''/''"]
  by (auto simp: hasPathPrefix_def plan_elements_def Let_def)

lemma hasPathPrefix_trans:
  "hasPathPrefix a b \<Longrightarrow> hasPathPrefix b c \<Longrightarrow> hasPathPrefix a c"
  by (auto simp: hasPathPrefix_elements)

lemma hasPathPrefix_antisym:
  "hasPathPrefix a b \<Longrightarrow> hasPathPrefix b a \<Longrightarrow> normalizePlanPath a = normalizePlanPath b"
  by (auto simp: hasPathPrefix_elements intro: plan_elements_inj)

subsection \<open>The depth of a path\<close>

lemma trim_set_id:
  "hd s \<notin> set cs \<Longrightarrow> last s \<notin> set cs \<Longrightarrow> trim_set s cs = s"
  unfolding trim_set_def by (rule trim_by_id) simp

lemma join_last:
  assumes "ss \<noteq> []" and "\<And>w. w \<in> set ss \<Longrightarrow> w \<noteq> [] \<and> c \<notin> set w"
  shows "last (join [c] ss) \<noteq> c"
  using assms
proof (induction ss rule: induct_list012)
  case (2 w)
  then have "w \<noteq> []" "c \<notin> set w" by auto
  then show ?case by (metis join.simps(2) last_in_set)
next
  case (3 a b ss)
  then have "last (join [c] (b # ss)) \<noteq> c" by simp
  moreover have "join [c] (b # ss) \<noteq> []"
    using join_hd(1) [of "b # ss" c] 3(4) by auto
  ultimately show ?case by simp
qed simp

lemma plain_elements_nonempty: "\<forall>e \<in> set es. plain_element e \<Longrightarrow> w \<in> set es \<Longrightarrow> w \<noteq> [] \<and> CHR ''/'' \<notin> set w"
  by (auto simp: plain_element_def)

lemma clean_stack_plain: "\<forall>e \<in> set es. plain_element e \<Longrightarrow> clean_stack rooted es"
  by (induction es) auto

text \<open>Cleaning leaves a path of plain elements alone, with or without a slash at its end.\<close>

lemma path_clean_plain:
  assumes "es \<noteq> []" and "\<forall>e \<in> set es. plain_element e"
  shows "path_clean (join ''/'' es @ [CHR ''/'']) = join ''/'' es"
proof -
  have ne: "join ''/'' es \<noteq> []" and hd: "hd (join ''/'' es) \<noteq> CHR ''/''"
    using join_hd [OF assms(1), of "CHR ''/''"] plain_elements_nonempty [OF assms(2)] by auto
  have "split_on CHR ''/'' (join ''/'' es @ CHR ''/'' # []) = es @ [[]]"
    unfolding split_on_append_sep
    using split_on_join [OF assms(1), of "CHR ''/''"] plain_elements_nonempty [OF assms(2)] by simp
  moreover have "foldl (clean_step False) [] es = rev es"
    by (rule clean_foldl_keep) (simp add: clean_stack_plain assms(2))
  ultimately show ?thesis
    using ne hd by (simp add: path_clean_def Let_def hd_append)
qed

lemma path_dir_plain:
  assumes "es \<noteq> []" and "\<forall>e \<in> set (es @ [f]). plain_element e"
  shows "path_dir (join ''/'' (es @ [f])) = join ''/'' es"
proof -
  have f: "CHR ''/'' \<notin> set f" using assms(2) by (simp add: plain_element_def)
  have "join ''/'' (es @ [f]) = join ''/'' es @ ''/'' @ f"
    using assms(1) by (simp add: join_append)
  moreover have "dropWhile (\<lambda>c. c \<noteq> CHR ''/'') (rev f @ CHR ''/'' # xs) = CHR ''/'' # xs" for xs
    using f by (subst dropWhile_append2) auto
  ultimately show ?thesis
    using path_clean_plain [OF assms(1)] assms(2) by (simp add: path_dir_def)
qed

lemma path_dir_single: "CHR ''/'' \<notin> set f \<Longrightarrow> path_dir f = ''.''"
proof -
  assume "CHR ''/'' \<notin> set f"
  then have "dropWhile (\<lambda>c. c \<noteq> CHR ''/'') (rev f) = []" by auto
  then show ?thesis by (simp add: path_dir_def path_clean_def)
qed

lemma normalizePlanPath_plain:
  assumes "es \<noteq> []" and "\<forall>e \<in> set es. plain_element e"
    and "trim_space (join ''/'' es) = join ''/'' es"
  shows "normalizePlanPath (join ''/'' es) = join ''/'' es"
proof -
  have el: "\<And>w. w \<in> set es \<Longrightarrow> w \<noteq> [] \<and> CHR ''/'' \<notin> set w"
    using plain_elements_nonempty [OF assms(2)] .
  have "\<not> has_prefix (join ''/'' es) ''./''"
  proof
    assume "has_prefix (join ''/'' es) ''./''"
    then have "has_prefix (join ''/'' es) (''.'' @ ''/'')" by simp
    then obtain rest where "split_on CHR ''/'' (join ''/'' es) = split_on CHR ''/'' ''.'' @ rest"
      using split_on_prefix_iff [of "join ''/'' es" "''.''" "CHR ''/''"] by auto
    then have "''.'' \<in> set es"
      using split_on_join [OF assms(1), of "CHR ''/''"] el by auto
    then show False using assms(2) by (auto simp: plain_element_def)
  qed
  moreover have "hd (join ''/'' es) \<noteq> CHR ''/''" "last (join ''/'' es) \<noteq> CHR ''/''"
    using join_hd(2) [OF assms(1), of "CHR ''/''"] join_last [OF assms(1), of "CHR ''/''"] el by auto
  ultimately show ?thesis
    using assms(3) by (simp add: normalizePlanPath_def to_slash_def trim_prefix_def trim_set_id)
qed

lemma pathDepth_plain:
  assumes "\<forall>e \<in> set (ds @ [f]). plain_element e"
    and "trim_space (join ''/'' (ds @ [f])) = join ''/'' (ds @ [f])"
  shows "pathDepth (join ''/'' (ds @ [f])) = int (length ds)"
proof -
  let ?p = "join ''/'' (ds @ [f])"
  have n: "normalizePlanPath ?p = ?p"
    using normalizePlanPath_plain [OF _ assms] by simp
  have el: "\<And>w. w \<in> set (ds @ [f]) \<Longrightarrow> w \<noteq> [] \<and> CHR ''/'' \<notin> set w"
    using plain_elements_nonempty [OF assms(1)] .
  then have ne: "?p \<noteq> []" using join_hd(1) [of "ds @ [f]" "CHR ''/''"] by auto
  show ?thesis
  proof (cases "ds = []")
    case True
    then have "path_dir ?p = ''.''" using el by (auto intro: path_dir_single)
    moreover have "trim_set ''.'' ''/'' = ''.''" by code_simp
    ultimately show ?thesis using n ne True by (simp add: pathDepth_def Let_def to_slash_def)
  next
    case False
    have d: "path_dir ?p = join ''/'' ds" using path_dir_plain [OF False assms(1)] .
    have j: "join ''/'' ds \<noteq> []" "hd (join ''/'' ds) \<noteq> CHR ''/''" "last (join ''/'' ds) \<noteq> CHR ''/''"
      using join_hd [OF False, of "CHR ''/''"] join_last [OF False, of "CHR ''/''"] el by auto
    have sp: "split_on CHR ''/'' (join ''/'' ds) = ds"
      using split_on_join [OF False, of "CHR ''/''"] el by auto
    have "join ''/'' ds \<noteq> ''.''"
    proof
      assume "join ''/'' ds = ''.''"
      then have "ds = split_on CHR ''/'' ''.''" using sp by simp
      also have "\<dots> = [''.'']" by simp
      finally show False using assms(1) by (simp add: plain_element_def)
    qed
    then show ?thesis
      using n ne d j sp by (simp add: pathDepth_def Let_def to_slash_def trim_set_id)
  qed
qed

subsection \<open>The reasons of an entry\<close>

lemma joinReasons_loop_keys:
  "set (map to_lower (joinReasons_loop seen rs)) =
     {to_lower (trim_space r) | r. r \<in> set rs \<and> trim_space r \<noteq> []} - set seen"
  by (induction seen rs rule: joinReasons_loop.induct) (auto simp: Let_def)

lemma joinReasons_loop_distinct: "distinct (map to_lower (joinReasons_loop seen rs))"
proof (induction seen rs rule: joinReasons_loop.induct)
  case (2 seen r rs)
  show ?case
  proof (cases "trim_space r = [] \<or> to_lower (trim_space r) \<in> set seen")
    case True
    then show ?thesis using 2(1) by (auto simp: Let_def)
  next
    case False
    then have "to_lower (trim_space r) \<notin>
        set (map to_lower (joinReasons_loop (to_lower (trim_space r) # seen) rs))"
      unfolding joinReasons_loop_keys by simp
    then show ?thesis using False 2(2) by (auto simp: Let_def)
  qed
qed simp

subsection \<open>Properties\<close>

text \<open>
  The file plan holds exactly one entry for every input whose share and path pass the
  filters, and is ordered by falling priority, then host, share and path.
\<close>

theorem PlanFiles_exact:
  "mset (PlanFiles inputs f) =
     image_mset plannedFile
       (filter_mset (\<lambda>i. shareAllowed (fi_Share i) f \<and> pathAllowed (fi_Path i) f) (mset inputs))
   \<and> sorted (map planned_key (PlanFiles inputs f))"
  by (simp add: PlanFiles_def sortPlanned_def planned.ordered)

text \<open>
  A file below an excluded directory is never planned, whatever the include filters say, and
  the comparison follows directory boundaries: the elements of an excluded path are not a prefix
  of the elements of a planned one.
\<close>

theorem PlanFiles_excluded:
  assumes "t \<in> set (PlanFiles inputs f)" and "b \<in> set (fo_ExcludePaths f)" and "normalizePlanPath b \<noteq> []"
  shows "\<exists>i \<in> set inputs. t = plannedFile i \<and>
    (\<nexists>rest. plan_elements (normalizePlanPath (fi_Path i)) = plan_elements b @ rest)"
proof -
  obtain i where i: "i \<in> set inputs" "t = plannedFile i" "pathAllowed (fi_Path i) f"
    using assms(1) by (auto simp: PlanFiles_def sortPlanned_def)
  have nb: "\<not> hasPathPrefix (normalizePlanPath (fi_Path i)) b"
    using i(3) assms(2) by (auto simp: pathAllowed_def Let_def split: if_splits)
  have "False" if "plan_elements (normalizePlanPath (fi_Path i)) = plan_elements b @ rest" for rest
  proof (cases "normalizePlanPath (normalizePlanPath (fi_Path i)) = []")
    case True
    then have "plan_elements b = [[]]"
      using that by (cases "split_on CHR ''/'' (normalizePlanPath b)") (auto simp: plan_elements_def)
    then show False
      using assms(3) join_split_on [of "CHR ''/''" "normalizePlanPath b"] by (simp add: plan_elements_def)
  next
    case False
    then show False using nb that assms(3) by (auto simp: hasPathPrefix_elements)
  qed
  then show ?thesis using i by blast
qed

definition demo_files :: "FileInput list" where
  "demo_files =
     [\<lparr>fi_Host = ''fs1'', fi_Share = ''Data'', fi_Path = ''secret/x.txt'', fi_Extension = ''txt'',
       fi_Source = ''cli'', fi_PrioritizeADShares = False\<rparr>,
      \<lparr>fi_Host = ''fs1'', fi_Share = ''Data'', fi_Path = ''secrets/y.txt'', fi_Extension = ''txt'',
       fi_Source = ''cli'', fi_PrioritizeADShares = False\<rparr>]"

definition demo_filters :: FilterOptions where
  "demo_filters = \<lparr>fo_IncludeShares = [], fo_ExcludeShares = [''ADMIN$''], fo_IncludePaths = [],
     fo_ExcludePaths = [''secret/''], fo_MaxDepth = 0\<rparr>"

lemma demo_plan: "map pt_Path (PlanFiles demo_files demo_filters) = [''secrets/y.txt'']"
  by code_simp

theorem PlanFiles_excluded_witness:
  "\<exists>t. t \<in> set (PlanFiles demo_files demo_filters) \<and>
    (\<exists>i \<in> set demo_files. t = plannedFile i \<and>
      (\<nexists>rest. plan_elements (normalizePlanPath (fi_Path i)) = plan_elements ''secret/'' @ rest))"
proof -
  obtain t where t: "t \<in> set (PlanFiles demo_files demo_filters)"
    using demo_plan by (cases "PlanFiles demo_files demo_filters") auto
  have b: "''secret/'' \<in> set (fo_ExcludePaths demo_filters)" by (simp add: demo_filters_def)
  have n: "normalizePlanPath ''secret/'' \<noteq> []" by code_simp
  show ?thesis using PlanFiles_excluded [OF t b n] t by blast
qed

definition ad_share :: "string \<Rightarrow> bool" where
  "ad_share s \<longleftrightarrow> to_lower (trim_space s) \<in> {''sysvol'', ''netlogon''}"

text \<open>
  When AD shares are prioritised, no other share comes before a SYSVOL or NETLOGON share in the
  plan: an entry after a position that holds another share is not one of the two.
\<close>

theorem PlanShares_ad_first:
  assumes "\<And>i. i \<in> set inputs \<Longrightarrow> si_PrioritizeADShares i"
    and "m < n" and "n < length (PlanShares inputs f)"
    and "ad_share (pt_Share (PlanShares inputs f ! n))"
  shows "ad_share (pt_Share (PlanShares inputs f ! m))"
proof (rule ccontr)
  let ?P = "PlanShares inputs f"
  assume no: "\<not> ad_share (pt_Share (?P ! m))"
  have origin: "\<exists>i \<in> set inputs. ?P ! k = plannedShare i" if "k < length ?P" for k
    using nth_mem [OF that] by (auto simp: PlanShares_def sortPlanned_def)
  obtain a b where a: "a \<in> set inputs" "?P ! n = plannedShare a"
    and b: "b \<in> set inputs" "?P ! m = plannedShare b"
    using origin [of n] origin [of m] assms(2,3) by auto
  have "105 \<le> pt_Priority (?P ! n)"
    using scoreShare_ad [of a] assms(1,4) a
    by (auto simp: plannedShare_def ad_share_def within_def split: prod.splits)
  moreover have "pt_Priority (?P ! m) \<le> 90"
    using scoreShare_other [of b] no b
    by (auto simp: plannedShare_def ad_share_def within_def split: prod.splits)
  moreover have "pt_Priority (?P ! n) \<le> pt_Priority (?P ! m)"
    using sortPlanned_priority assms(2,3) by (simp add: PlanShares_def)
  ultimately show False by simp
qed

definition demo_shares :: "ShareInput list" where
  "demo_shares = map (\<lambda>s. \<lparr>si_Host = ''dc1'', si_Share = s, si_Source = ''ldap'', si_PrioritizeADShares = True\<rparr>)
     [''Finance'', ''NETLOGON'', ''Public'', ''SYSVOL'']"

lemma demo_share_plan:
  "map pt_Share (PlanShares demo_shares demo_filters) = [''SYSVOL'', ''NETLOGON'', ''Finance'', ''Public'']"
  by code_simp

theorem PlanShares_ad_first_witness:
  "ad_share (pt_Share (PlanShares demo_shares demo_filters ! 1)) \<and>
   ad_share (pt_Share (PlanShares demo_shares demo_filters ! 0))"
proof -
  let ?P = "PlanShares demo_shares demo_filters"
  have l: "length ?P = 4" using arg_cong [OF demo_share_plan, of length] by simp
  have "pt_Share (?P ! 1) = map pt_Share ?P ! 1" using l by simp
  also have "\<dots> = ''NETLOGON''" by (simp add: demo_share_plan)
  finally have n: "ad_share (pt_Share (?P ! 1))" by (simp add: ad_share_def) code_simp
  have p: "si_PrioritizeADShares i" if "i \<in> set demo_shares" for i
    using that by (auto simp: demo_shares_def)
  show ?thesis using n PlanShares_ad_first [OF p, where m = 0 and n = 1 and f = demo_filters] l by simp
qed

text \<open>
  Every host, share and file score lies in a fixed range, so adding up the points never leaves
  the range of a machine integer.
\<close>

theorem score_bounds:
  "fst (scoreHost h) \<in> {10..90} \<and> fst (scoreShare s) \<in> {10..190} \<and> fst (scoreFile i) \<in> {10..195}"
proof -
  have "within 10 190 (scoreShare s)"
    using scoreShare_other [of s] scoreShare_ad [of s]
      scoreShare_within_off [of s] unfolding within_def by force
  then show ?thesis
    using scoreHost_within [of h] scoreFile_within [of i] by (simp add: within_def)
qed

text \<open>
  The depth of a path of plain elements is the number of directories above its last element,
  which is what the depth limit of the filters counts.
\<close>

theorem pathDepth_directories:
  assumes "\<forall>e \<in> set (ds @ [f]). plain_element e"
    and "trim_space (join ''/'' (ds @ [f])) = join ''/'' (ds @ [f])"
  shows "pathDepth (join ''/'' (ds @ [f])) = int (length ds)"
  by (rule pathDepth_plain [OF assms])

theorem pathDepth_directories_witness: "pathDepth ''a/b/c.txt'' = 2"
proof -
  have "\<forall>e \<in> set ([''a'', ''b''] @ [''c.txt'']). plain_element e" by (simp add: plain_element_def)
  moreover have "trim_space (join ''/'' ([''a'', ''b''] @ [''c.txt''])) = join ''/'' ([''a'', ''b''] @ [''c.txt''])"
    by code_simp
  ultimately show ?thesis using pathDepth_directories [of "[''a'', ''b'']" "''c.txt''"] by simp
qed

text \<open>
  The reasons that reach a plan entry are those given, without blank ones and each once up to
  case.
\<close>

theorem joinReasons_once:
  "\<exists>out. joinReasons reasons = join ''; '' out \<and> distinct (map to_lower out) \<and>
     set (map to_lower out) = {to_lower (trim_space r) | r. r \<in> set reasons \<and> trim_space r \<noteq> []}"
  using joinReasons_loop_keys [of "[]" reasons] joinReasons_loop_distinct [of "[]" reasons]
  by (intro exI [of _ "joinReasons_loop [] reasons"]) (simp add: joinReasons_def)

end
