(* ===== verification/StateStore.thy ===== *)
theory StateStore
  imports GoStrings "HOL-Library.AList"
begin

text \<open>
  The package \<open>internal/state\<close>, part one: the checkpoint store (\<open>types.go\<close>, \<open>store.go\<close>). A time
  is its instant in nanoseconds from the zero time of Go; the code compares times after \<open>UTC()\<close>,
  which leaves nothing else of them. The three maps of the store are an association list with
  distinct keys and two sets. The file holds a checkpoint document: the JSON text between \<open>Save\<close>
  and \<open>Open\<close> is the document it encodes. A nil store is \<open>None\<close> in what \<open>Open\<close> returns; the methods
  below are those of a store that exists.
\<close>

type_synonym gotime = int

definition is_zero_time :: "gotime \<Rightarrow> bool" where
  "is_zero_time t \<longleftrightarrow> t = 0"

record CompletedFileState =
  cf_Key :: string
  cf_Size :: int
  cf_ModifiedAt :: gotime

record Checkpoint =
  cp_Version :: int
  cp_UpdatedAt :: gotime
  cp_CompletedHosts :: "string list"
  cp_CompletedShares :: "string list"
  cp_CompletedFiles :: "string list"
  cp_FileStates :: "CompletedFileState list"

record fileState =
  fs_Size :: int
  fs_ModifiedAt :: gotime
  fs_Legacy :: bool

record Store =
  st_path :: string
  st_dirty :: bool
  st_files :: "(string \<times> fileState) list"
  st_hosts :: "string set"
  st_shares :: "string set"

definition checkpointVersion :: int where
  "checkpointVersion = 2"

subsection \<open>Keys\<close>

definition normalizeKey :: "string \<Rightarrow> string" where
  "normalizeKey value = to_lower (trim_space value)"

definition HostKey :: "string \<Rightarrow> string" where
  "HostKey host = normalizeKey host"

definition ShareKey :: "string \<Rightarrow> string \<Rightarrow> string" where
  "ShareKey host0 share0 =
     (let host = normalizeKey host0; share = normalizeKey share0
      in if host = [] \<or> share = [] then [] else host @ ''::'' @ share)"

definition FileKey :: "string \<Rightarrow> string \<Rightarrow> string \<Rightarrow> string" where
  "FileKey host share path0 =
     (let shareKey = ShareKey host share;
          path = normalizeKey (replace_char CHR 0x5C ''/'' path0)
      in if shareKey = [] \<or> path = [] then [] else shareKey @ ''::'' @ path)"

interpretation key_norm: normaliser normalizeKey
  by unfold_locales (simp_all add: normalizeKey_def lower_trim_idem)

subsection \<open>The file system and \<open>Open\<close>\<close>

text \<open>What a path of the file system holds for the code that reads it.\<close>

datatype FileContent = Missing | Unreadable | Malformed | Doc Checkpoint

type_synonym FS = "string \<Rightarrow> FileContent"

datatype open_error =
    NotExist string
  | ReadFailed string
  | ParseFailed string
  | UnsupportedVersion string int

definition open_file :: "CompletedFileState \<Rightarrow> (string \<times> fileState) list \<Rightarrow> (string \<times> fileState) list" where
  "open_file file files =
     (let key = normalizeKey (cf_Key file)
      in if key = [] then files
         else AList.update key \<lparr>fs_Size = cf_Size file, fs_ModifiedAt = cf_ModifiedAt file, fs_Legacy = False\<rparr> files)"

definition legacy_file :: "string \<Rightarrow> (string \<times> fileState) list \<Rightarrow> (string \<times> fileState) list" where
  "legacy_file file files =
     AList.update (normalizeKey file) \<lparr>fs_Size = 0, fs_ModifiedAt = 0, fs_Legacy = True\<rparr> files"

definition load_checkpoint :: "string \<Rightarrow> Checkpoint \<Rightarrow> Store" where
  "load_checkpoint path c =
     \<lparr>st_path = path, st_dirty = False,
      st_files = fold open_file (cp_FileStates c) (fold legacy_file (cp_CompletedFiles c) []),
      st_hosts = normalizeKey ` set (cp_CompletedHosts c),
      st_shares = normalizeKey ` set (cp_CompletedShares c)\<rparr>"

definition Open :: "string \<Rightarrow> bool \<Rightarrow> FS \<Rightarrow> open_error + Store option" where
  "Open path0 resume fs =
     (let path = trim_space path0
      in if path = [] then Inr None
         else if \<not> resume then
           Inr (Some \<lparr>st_path = path, st_dirty = False, st_files = [], st_hosts = {}, st_shares = {}\<rparr>)
         else
           (case fs path of
             Missing \<Rightarrow> Inl (NotExist path)
           | Unreadable \<Rightarrow> Inl (ReadFailed path)
           | Malformed \<Rightarrow> Inl (ParseFailed path)
           | Doc c \<Rightarrow>
               if cp_Version c \<noteq> 0 \<and> cp_Version c \<noteq> 1 \<and> cp_Version c \<noteq> checkpointVersion
               then Inl (UnsupportedVersion path (cp_Version c))
               else Inr (Some (load_checkpoint path c))))"

definition Store_Enabled :: "Store \<Rightarrow> bool" where
  "Store_Enabled s \<longleftrightarrow> trim_space (st_path s) \<noteq> []"

subsection \<open>\<open>Save\<close>\<close>

definition sortedKeys :: "string set \<Rightarrow> string list" where
  "sortedKeys values = sorted_list_of_set values"

definition legacyFileKeys :: "(string \<times> fileState) list \<Rightarrow> string list" where
  "legacyFileKeys values = sort (map fst (filter (\<lambda>(key, state). fs_Legacy state) values))"

definition file_state_less :: "CompletedFileState \<Rightarrow> CompletedFileState \<Rightarrow> bool" where
  "file_state_less a b \<longleftrightarrow> cf_Key a < cf_Key b"

definition completed_state :: "string \<times> fileState \<Rightarrow> CompletedFileState" where
  "completed_state e =
     \<lparr>cf_Key = fst e, cf_Size = fs_Size (snd e), cf_ModifiedAt = fs_ModifiedAt (snd e)\<rparr>"

definition sortedFileStates :: "(string \<times> fileState) list \<Rightarrow> CompletedFileState list" where
  "sortedFileStates values =
     slice_sort file_state_less
       (map completed_state (filter (\<lambda>(key, state). \<not> fs_Legacy state) values))"

definition checkpoint_of :: "gotime \<Rightarrow> Store \<Rightarrow> Checkpoint" where
  "checkpoint_of now s =
     \<lparr>cp_Version = checkpointVersion, cp_UpdatedAt = now,
      cp_CompletedHosts = sortedKeys (st_hosts s), cp_CompletedShares = sortedKeys (st_shares s),
      cp_CompletedFiles = legacyFileKeys (st_files s), cp_FileStates = sortedFileStates (st_files s)\<rparr>"

text \<open>
  The system calls of \<open>Save\<close> may fail; which of them succeed is an argument. A failed write leaves
  an unusable temporary file. \<open>Save\<close> returns its error, the store, and every state of the file
  system it goes through, the last one first.
\<close>

record save_io =
  io_mkdir :: bool
  io_write :: bool
  io_rename :: bool

datatype save_error = MkdirFailed | WriteFailed | RenameFailed

definition fileExists :: "FS \<Rightarrow> string \<Rightarrow> bool" where
  "fileExists fs path \<longleftrightarrow> fs path \<noteq> Missing"

definition Save :: "save_io \<Rightarrow> gotime \<Rightarrow> Store \<Rightarrow> FS \<Rightarrow> save_error option \<times> Store \<times> FS list" where
  "Save io now s fs =
     (if \<not> Store_Enabled s then (None, s, [fs])
      else if \<not> st_dirty s \<and> fileExists fs (st_path s) then (None, s, [fs])
      else if \<not> io_mkdir io then (Some MkdirFailed, s, [fs])
      else
        let path = st_path s; tmp = path @ ''.tmp'';
            doc = Doc (checkpoint_of now s)
        in if \<not> io_write io then (Some WriteFailed, s, [fs(tmp := Malformed), fs])
           else
             let written = fs(tmp := doc)
             in if \<not> io_rename io
                then (Some RenameFailed, s, [written(tmp := Missing), written, fs])
                else (None, s\<lparr>st_dirty := False\<rparr>, [written(path := doc, tmp := Missing), written, fs]))"

subsection \<open>Queries and marks\<close>

definition IsHostComplete :: "Store \<Rightarrow> string \<Rightarrow> bool" where
  "IsHostComplete s host \<longleftrightarrow> HostKey host \<in> st_hosts s"

definition IsShareComplete :: "Store \<Rightarrow> string \<Rightarrow> string \<Rightarrow> bool" where
  "IsShareComplete s host share \<longleftrightarrow> ShareKey host share \<in> st_shares s"

definition IsFileComplete :: "Store \<Rightarrow> string \<Rightarrow> string \<Rightarrow> string \<Rightarrow> int \<Rightarrow> gotime \<Rightarrow> bool" where
  "IsFileComplete s host share path sz modifiedAt =
     (case map_of (st_files s) (FileKey host share path) of
       None \<Rightarrow> False
     | Some state \<Rightarrow>
         if fs_Legacy state then True
         else if fs_Size state \<noteq> sz then False
         else if \<not> is_zero_time (fs_ModifiedAt state) \<and> \<not> is_zero_time modifiedAt \<and>
                 fs_ModifiedAt state \<noteq> modifiedAt then False
         else True)"

definition MarkHostComplete :: "Store \<Rightarrow> string \<Rightarrow> Store" where
  "MarkHostComplete s host =
     (let key = HostKey host
      in if key = [] then s
         else if key \<in> st_hosts s then s
         else s\<lparr>st_hosts := insert key (st_hosts s), st_dirty := True\<rparr>)"

definition MarkShareComplete :: "Store \<Rightarrow> string \<Rightarrow> string \<Rightarrow> Store" where
  "MarkShareComplete s host share =
     (let key = ShareKey host share
      in if key = [] then s
         else if key \<in> st_shares s then s
         else s\<lparr>st_shares := insert key (st_shares s), st_dirty := True\<rparr>)"

definition markFile :: "Store \<Rightarrow> string \<Rightarrow> fileState \<Rightarrow> Store" where
  "markFile s key state =
     (if key = [] then s
      else if map_of (st_files s) key = Some state then s
      else s\<lparr>st_files := AList.update key state (st_files s), st_dirty := True\<rparr>)"

definition MarkFileComplete :: "Store \<Rightarrow> string \<Rightarrow> string \<Rightarrow> string \<Rightarrow> int \<Rightarrow> gotime \<Rightarrow> Store" where
  "MarkFileComplete s host share path sz modifiedAt =
     markFile s (FileKey host share path) \<lparr>fs_Size = sz, fs_ModifiedAt = modifiedAt, fs_Legacy = False\<rparr>"

subsection \<open>Keys are normalised and, without colons, injective\<close>

lemma normalizeKey_idem [simp]: "normalizeKey (normalizeKey k) = normalizeKey k"
  by (rule key_norm.norm_idem)

lemma normalizeKey_Nil [simp]: "normalizeKey [] = []"
  by (rule key_norm.norm_Nil)

lemma normalizeKey_fixed:
  "normalizeKey k = k \<longleftrightarrow> to_lower k = k \<and> trim_space k = k"
  unfolding normalizeKey_def by (metis trim_space_lower to_lower_idem trim_space_idem)

lemma normalizeKey_ends:
  assumes "normalizeKey k = k" and "k \<noteq> []"
  shows "\<not> is_space (hd k)" and "\<not> is_space (last k)"
  using assms trim_by_hd [of is_space k] trim_by_last [of is_space k]
  by (auto simp: normalizeKey_fixed trim_space_def)

lemma normalizeKey_colons:
  assumes "normalizeKey a = a" and "a \<noteq> []" and "normalizeKey b = b" and "b \<noteq> []"
  shows "normalizeKey (a @ ''::'' @ b) = a @ ''::'' @ b"
proof -
  have "trim_space (a @ ''::'' @ b) = a @ ''::'' @ b"
    unfolding trim_space_def
    using normalizeKey_ends(1) [OF assms(1,2)] normalizeKey_ends(2) [OF assms(3,4)] assms(2,4)
    by (intro trim_by_id) (simp add: last_append)
  moreover have "to_lower ''::'' = ''::''" by code_simp
  ultimately show ?thesis
    using assms by (simp add: normalizeKey_fixed to_lower_append del: append_Cons append_Nil)
qed

lemma ShareKey_norm [simp]: "normalizeKey (ShareKey h s) = ShareKey h s"
  by (auto simp: ShareKey_def Let_def intro: normalizeKey_colons [simplified])

lemma FileKey_norm [simp]: "normalizeKey (FileKey h s p) = FileKey h s p"
proof (cases "FileKey h s p = []")
  case False
  then have "normalizeKey (ShareKey h s @ ''::'' @ normalizeKey (replace_char CHR 0x5C ''/'' p)) =
      ShareKey h s @ ''::'' @ normalizeKey (replace_char CHR 0x5C ''/'' p)"
    by (intro normalizeKey_colons) (auto simp: FileKey_def Let_def split: if_splits)
  then show ?thesis by (simp add: FileKey_def Let_def)
qed simp

lemma HostKey_norm [simp]: "normalizeKey (HostKey h) = HostKey h"
  by (simp add: HostKey_def)

lemma no_colon_normalizeKey: "CHR '':'' \<notin> set x \<Longrightarrow> CHR '':'' \<notin> set (normalizeKey x)"
  using set_trim_by [of is_space x] by (auto simp: normalizeKey_def set_to_lower_other trim_space_def)

text \<open>The part after the last double colon is read back when it has no colon of its own.\<close>

lemma colons_inj:
  assumes "a @ ''::'' @ b = a' @ ''::'' @ b'" and "CHR '':'' \<notin> set b" and "CHR '':'' \<notin> set b'"
  shows "a = a' \<and> b = b'"
proof -
  let ?P = "\<lambda>c. c \<noteq> CHR '':''"
  have "takeWhile ?P (rev (x @ ''::'' @ y)) = rev y" if "CHR '':'' \<notin> set y" for x y
    using that by (simp add: takeWhile_append takeWhile_eq_all_conv)
  then have "rev b = rev b'" using assms by metis
  with assms(1) show ?thesis by simp
qed

lemma ShareKey_inj:
  assumes "ShareKey h s = ShareKey h' s'" and "ShareKey h s \<noteq> []"
    and "CHR '':'' \<notin> set (normalizeKey s)" and "CHR '':'' \<notin> set (normalizeKey s')"
  shows "normalizeKey h = normalizeKey h' \<and> normalizeKey s = normalizeKey s'"
  using assms colons_inj [of "normalizeKey h" "normalizeKey s" "normalizeKey h'" "normalizeKey s'"]
  by (auto simp: ShareKey_def Let_def split: if_splits)

definition path_key :: "string \<Rightarrow> string" where
  "path_key p = normalizeKey (replace_char CHR 0x5C ''/'' p)"

lemma FileKey_inj:
  assumes "FileKey h s p = FileKey h' s' p'" and "FileKey h s p \<noteq> []"
    and "CHR '':'' \<notin> set (normalizeKey s)" and "CHR '':'' \<notin> set (normalizeKey s')"
    and "CHR '':'' \<notin> set (path_key p)" and "CHR '':'' \<notin> set (path_key p')"
  shows "normalizeKey h = normalizeKey h' \<and> normalizeKey s = normalizeKey s' \<and> path_key p = path_key p'"
proof -
  have k: "ShareKey h s @ ''::'' @ path_key p = ShareKey h' s' @ ''::'' @ path_key p'" "ShareKey h s \<noteq> []"
    using assms(1,2) by (auto simp: FileKey_def path_key_def Let_def split: if_splits)
  then have "ShareKey h s = ShareKey h' s' \<and> path_key p = path_key p'"
    using assms(5,6) by (intro colons_inj)
  then show ?thesis using ShareKey_inj k(2) assms(3,4) by blast
qed

subsection \<open>Marks and queries as a log of completed work\<close>

text \<open>
  The manager relies on a store for one thing: marking an item makes exactly the items with its
  key complete, and nothing incomplete again.
\<close>

locale completion_log =
  fixes complete :: "'s \<Rightarrow> 'k \<Rightarrow> bool" and mark :: "'s \<Rightarrow> 'k \<Rightarrow> 's" and key :: "'k \<Rightarrow> string"
  assumes complete_mark: "complete (mark s k) k' \<longleftrightarrow> complete s k' \<or> (key k \<noteq> [] \<and> key k' = key k)"
begin

lemma complete_marks:
  "complete (foldl mark s ks) k \<longleftrightarrow> complete s k \<or> (\<exists>k' \<in> set ks. key k' \<noteq> [] \<and> key k = key k')"
  by (induction ks arbitrary: s) (auto simp: complete_mark)

lemma complete_mono: "complete s k \<Longrightarrow> complete (mark s k') k"
  by (simp add: complete_mark)

lemma marks_order: "set ks = set ks' \<Longrightarrow> complete (foldl mark s ks) k = complete (foldl mark s ks') k"
  by (simp add: complete_marks)

end

interpretation hosts: completion_log IsHostComplete MarkHostComplete HostKey
  by unfold_locales (auto simp: IsHostComplete_def MarkHostComplete_def Let_def)

interpretation shares: completion_log "\<lambda>s (h, sh). IsShareComplete s h sh"
    "\<lambda>s (h, sh). MarkShareComplete s h sh" "\<lambda>(h, sh). ShareKey h sh"
  by unfold_locales (auto simp: IsShareComplete_def MarkShareComplete_def Let_def split: if_splits)

lemma IsFileComplete_mark:
  assumes "FileKey h s p \<noteq> []"
  shows "IsFileComplete (MarkFileComplete st h s p sz t) h s p sz' t' \<longleftrightarrow>
    sz = sz' \<and> (is_zero_time t \<or> is_zero_time t' \<or> t = t')"
  using assms by (auto simp: IsFileComplete_def MarkFileComplete_def markFile_def update_conv')

lemma IsFileComplete_mark_other:
  assumes "FileKey h s p \<noteq> FileKey h' s' p'"
  shows "IsFileComplete (MarkFileComplete st h s p sz t) h' s' p' = IsFileComplete st h' s' p'"
  using assms by (intro ext) (auto simp: IsFileComplete_def MarkFileComplete_def markFile_def update_conv')

subsection \<open>The store invariant\<close>

definition legacy_state :: fileState where
  "legacy_state = \<lparr>fs_Size = 0, fs_ModifiedAt = 0, fs_Legacy = True\<rparr>"

text \<open>
  Keys are normalised and distinct, the keys of files with metadata are not blank, and a legacy
  entry carries no metadata.
\<close>

definition store_inv :: "Store \<Rightarrow> bool" where
  "store_inv s \<longleftrightarrow>
     distinct (map fst (st_files s)) \<and>
     (\<forall>(k, v) \<in> set (st_files s). normalizeKey k = k \<and>
        (if fs_Legacy v then v = legacy_state else k \<noteq> [])) \<and>
     finite (st_hosts s) \<and> (\<forall>k \<in> st_hosts s. normalizeKey k = k) \<and>
     finite (st_shares s) \<and> (\<forall>k \<in> st_shares s. normalizeKey k = k)"

definition files_inv :: "(string \<times> fileState) list \<Rightarrow> bool" where
  "files_inv fs \<longleftrightarrow> distinct (map fst fs) \<and>
     (\<forall>(k, v) \<in> set fs. normalizeKey k = k \<and> (if fs_Legacy v then v = legacy_state else k \<noteq> []))"

lemma store_inv_files: "store_inv s \<longleftrightarrow> files_inv (st_files s) \<and>
     finite (st_hosts s) \<and> (\<forall>k \<in> st_hosts s. normalizeKey k = k) \<and>
     finite (st_shares s) \<and> (\<forall>k \<in> st_shares s. normalizeKey k = k)"
  by (auto simp: store_inv_def files_inv_def)

lemma files_inv_update:
  assumes "files_inv fs" and "normalizeKey k = k" and "if fs_Legacy v then v = legacy_state else k \<noteq> []"
  shows "files_inv (AList.update k v fs)"
proof -
  have "set (AList.update k v fs) \<subseteq> insert (k, v) (set fs)"
    by (induction fs) auto
  moreover have "distinct (map fst (AList.update k v fs))"
    using assms(1) by (simp add: files_inv_def distinct_update)
  ultimately show ?thesis
    using assms by (fastforce simp: files_inv_def)
qed

lemma MarkHostComplete_inv: "store_inv s \<Longrightarrow> store_inv (MarkHostComplete s h)"
  by (auto simp: store_inv_def MarkHostComplete_def Let_def)

lemma MarkShareComplete_inv: "store_inv s \<Longrightarrow> store_inv (MarkShareComplete s h sh)"
  by (auto simp: store_inv_def MarkShareComplete_def Let_def)

lemma MarkFileComplete_inv: "store_inv s \<Longrightarrow> store_inv (MarkFileComplete s h sh p sz t)"
  by (auto simp: store_inv_files MarkFileComplete_def markFile_def intro!: files_inv_update)

lemma files_inv_Nil [simp]: "files_inv []"
  by (simp add: files_inv_def)

lemma files_inv_legacy: "files_inv fs \<Longrightarrow> files_inv (fold legacy_file ks fs)"
proof (induction ks arbitrary: fs)
  case (Cons k ks)
  have "files_inv (legacy_file k fs)"
    unfolding legacy_file_def using Cons.prems by (rule files_inv_update) (simp_all add: legacy_state_def)
  then show ?case using Cons.IH by simp
qed simp

lemma files_inv_open: "files_inv fs \<Longrightarrow> files_inv (fold open_file cs fs)"
proof (induction cs arbitrary: fs)
  case (Cons c cs)
  have "files_inv (open_file c fs)"
    using Cons.prems by (auto simp: open_file_def Let_def intro: files_inv_update)
  then show ?case using Cons.IH by simp
qed simp

lemma load_checkpoint_inv: "store_inv (load_checkpoint path c)"
  using files_inv_open [OF files_inv_legacy [OF files_inv_Nil]]
  by (auto simp: store_inv_files load_checkpoint_def)

lemma store_inv_empty [simp]:
  "store_inv \<lparr>st_path = path, st_dirty = d, st_files = [], st_hosts = {}, st_shares = {}\<rparr>"
  by (simp add: store_inv_files)

lemma Open_inv: "Open path resume fs = Inr (Some s) \<Longrightarrow> store_inv s \<and> Store_Enabled s"
  using load_checkpoint_inv
  by (auto simp: Open_def Let_def Store_Enabled_def load_checkpoint_def
      split: if_splits FileContent.splits simp del: fold_simps)

lemma Save_store: "fst (snd (Save io now s fs)) = s \<or> fst (snd (Save io now s fs)) = s\<lparr>st_dirty := False\<rparr>"
  by (simp add: Save_def Let_def)

lemma store_inv_dirty [simp]: "store_inv (s\<lparr>st_dirty := d\<rparr>) = store_inv s"
  by (simp add: store_inv_def)

lemma Save_inv: "store_inv s \<Longrightarrow> store_inv (fst (snd (Save io now s fs)))"
  using Save_store [of io now s fs] by auto

subsection \<open>What \<open>Save\<close> writes, \<open>Open\<close> reads\<close>

interpretation file_states: key_order file_state_less cf_Key
  by unfold_locales (simp add: file_state_less_def)

definition state_of :: "CompletedFileState \<Rightarrow> fileState" where
  "state_of c = \<lparr>fs_Size = cf_Size c, fs_ModifiedAt = cf_ModifiedAt c, fs_Legacy = False\<rparr>"

lemma map_of_legacy_fold:
  "map_of (fold legacy_file ks al) k =
     (if k \<in> normalizeKey ` set ks then Some legacy_state else map_of al k)"
  by (induction ks arbitrary: al) (auto simp: legacy_file_def legacy_state_def update_conv')

lemma map_of_open_fold:
  assumes "distinct (map cf_Key cs)"
    and "\<And>c. c \<in> set cs \<Longrightarrow> normalizeKey (cf_Key c) = cf_Key c \<and> cf_Key c \<noteq> []"
  shows "map_of (fold open_file cs al) k =
    (case map_of (map (\<lambda>c. (cf_Key c, state_of c)) cs) k of Some v \<Rightarrow> Some v | None \<Rightarrow> map_of al k)"
  using assms
proof (induction cs arbitrary: al)
  case (Cons c cs)
  have "open_file c al = AList.update (cf_Key c) (state_of c) al"
    using Cons.prems(2) by (simp add: open_file_def state_of_def)
  moreover have "map_of (map (\<lambda>c. (cf_Key c, state_of c)) cs) (cf_Key c) = None"
    using Cons.prems(1) by (auto simp: map_of_eq_None_iff)
  ultimately show ?case
    using Cons by (auto simp: update_conv' split: option.splits)
qed simp

lemma state_of_completed: "\<not> fs_Legacy v \<Longrightarrow> state_of (completed_state (k, v)) = v"
  by (simp add: state_of_def completed_state_def)

lemma set_sortedFileStates:
  "set (sortedFileStates fs) = completed_state ` {e \<in> set fs. \<not> fs_Legacy (snd e)}"
  by (auto simp: sortedFileStates_def)

lemma read_back:
  "(\<lambda>c. (cf_Key c, state_of c)) ` set (sortedFileStates fs) = {e \<in> set fs. \<not> fs_Legacy (snd e)}"
proof -
  have "(cf_Key (completed_state e), state_of (completed_state e)) = e" if "\<not> fs_Legacy (snd e)" for e
    using that state_of_completed [of "snd e" "fst e"] by (simp add: completed_state_def)
  then have "(\<lambda>e. (cf_Key (completed_state e), state_of (completed_state e))) `
      {e \<in> set fs. \<not> fs_Legacy (snd e)} = id ` {e \<in> set fs. \<not> fs_Legacy (snd e)}"
    by (intro image_cong) auto
  then show ?thesis by (simp add: set_sortedFileStates image_image)
qed

lemma sortedFileStates_keys_distinct:
  "distinct (map fst fs) \<Longrightarrow> distinct (map cf_Key (sortedFileStates fs))"
proof -
  assume d: "distinct (map fst fs)"
  have "distinct (map fst (filter (\<lambda>(k, v). \<not> fs_Legacy v) fs))"
    using d by (rule distinct_map_filter)
  then show ?thesis
    by (simp add: sortedFileStates_def file_states.sort_keys comp_def completed_state_def)
qed

lemma files_roundtrip:
  assumes "files_inv fs"
  shows "map_of (fold open_file (sortedFileStates fs) (fold legacy_file (legacyFileKeys fs) [])) k = map_of fs k"
proof -
  let ?cs = "sortedFileStates fs"
  have d: "distinct (map fst fs)" using assms by (simp add: files_inv_def)
  have dc: "distinct (map cf_Key ?cs)" using d by (rule sortedFileStates_keys_distinct)
  have nc: "normalizeKey (cf_Key c) = cf_Key c \<and> cf_Key c \<noteq> []" if "c \<in> set ?cs" for c
    using that assms by (force simp: set_sortedFileStates files_inv_def completed_state_def)
  have states: "map_of (map (\<lambda>c. (cf_Key c, state_of c)) ?cs) k = Some v \<longleftrightarrow> (k, v) \<in> set fs \<and> \<not> fs_Legacy v" for v
  proof -
    have "map_of (map (\<lambda>c. (cf_Key c, state_of c)) ?cs) k = Some v \<longleftrightarrow>
        (k, v) \<in> (\<lambda>c. (cf_Key c, state_of c)) ` set ?cs"
      using dc by (subst map_of_eq_Some_iff) (simp_all add: comp_def)
    also have "\<dots> \<longleftrightarrow> (k, v) \<in> set fs \<and> \<not> fs_Legacy v"
      by (simp add: read_back)
    finally show ?thesis .
  qed
  have legacy: "k \<in> normalizeKey ` set (legacyFileKeys fs) \<longleftrightarrow> (\<exists>v. (k, v) \<in> set fs \<and> fs_Legacy v)"
    using assms by (force simp: legacyFileKeys_def files_inv_def)
  show ?thesis
  proof (cases "map_of fs k")
    case None
    then have n: "(k, v) \<notin> set fs" for v using weak_map_of_SomeI by fastforce
    then have "map_of (map (\<lambda>c. (cf_Key c, state_of c)) ?cs) k = None"
      using states by (metis not_None_eq)
    then show ?thesis using None n legacy map_of_open_fold [OF dc nc] by (simp add: map_of_legacy_fold)
  next
    case (Some v)
    then have v: "(k, v) \<in> set fs" by (rule map_of_SomeD)
    have uniq: "w = v" if "(k, w) \<in> set fs" for w
      using that d Some by (metis map_of_is_SomeI option.inject)
    show ?thesis
    proof (cases "fs_Legacy v")
      case True
      then have "map_of (map (\<lambda>c. (cf_Key c, state_of c)) ?cs) k = None"
        using states uniq by (metis not_None_eq)
      moreover have "v = legacy_state" using True v assms by (auto simp: files_inv_def)
      ultimately show ?thesis
        using Some v True legacy map_of_open_fold [OF dc nc] by (auto simp: map_of_legacy_fold)
    next
      case False
      then have "map_of (map (\<lambda>c. (cf_Key c, state_of c)) ?cs) k = Some v" using states v by simp
      then show ?thesis using Some map_of_open_fold [OF dc nc] by simp
    qed
  qed
qed

lemma normalised_image: "(\<forall>k \<in> A. normalizeKey k = k) \<Longrightarrow> normalizeKey ` A = A"
  by (auto simp: image_iff)

text \<open>
  A store read back from the document written for it answers every query as the store did.
\<close>

lemma load_checkpoint_of:
  assumes "store_inv s"
  shows "st_hosts (load_checkpoint path (checkpoint_of now s)) = st_hosts s"
    and "st_shares (load_checkpoint path (checkpoint_of now s)) = st_shares s"
    and "map_of (st_files (load_checkpoint path (checkpoint_of now s))) = map_of (st_files s)"
  using assms files_roundtrip [of "st_files s"]
  by (auto simp: load_checkpoint_def checkpoint_of_def sortedKeys_def store_inv_files normalised_image)

subsection \<open>Properties\<close>


definition demo_store :: Store where
  "demo_store = MarkFileComplete (MarkShareComplete
     \<lparr>st_path = ''scan.state'', st_dirty = False, st_files = [], st_hosts = {}, st_shares = {}\<rparr>
     ''FS01'' ''Data'') ''FS01'' ''HR'' (''a'' @ [CHR 0x5C] @ ''b.txt'') 12 7"

lemma demo_store_inv: "store_inv demo_store"
  by (simp add: demo_store_def MarkFileComplete_inv MarkShareComplete_inv)


text \<open>
  C30: Saving replaces the checkpoint in one step: whatever system call fails, and at every moment
  in between, the file holds what it held before or the whole new document.
\<close>

theorem Save_atomic:
  "case Save io now s fs of (err, s', trace) \<Rightarrow>
     \<forall>fs' \<in> set trace. fs' (st_path s) = fs (st_path s) \<or> fs' (st_path s) = Doc (checkpoint_of now s)"
  by (auto simp: Save_def Let_def)

theorem Save_atomic_witness:
  "case Save \<lparr>io_mkdir = True, io_write = True, io_rename = False\<rparr> 99 demo_store
       ((\<lambda>_. Missing)(''scan.state'' := Malformed)) of (err, s', trace) \<Rightarrow>
     err = Some RenameFailed \<and> hd trace ''scan.state'' = Malformed"
proof -
  let ?io = "\<lparr>io_mkdir = True, io_write = True, io_rename = False\<rparr>"
  let ?fs = "(\<lambda>_. Missing)(''scan.state'' := Malformed) :: FS"
  have p: "st_path demo_store = ''scan.state''" "st_dirty demo_store" "Store_Enabled demo_store" by code_simp+
  obtain s' fs' tr where s: "Save ?io 99 demo_store ?fs = (Some RenameFailed, s', fs' # tr)"
      "fs' = ?fs(''scan.state.tmp'' := Missing)"
    using p by (simp add: Save_def Let_def fun_upd_twist)
  then show ?thesis using Save_atomic [where io = ?io and now = 99 and s = demo_store and fs = ?fs] by simp
qed

text \<open>
  Different files have different keys: two files with the same key have the same host, share
  and path up to case, surrounding space and the direction of slashes, given that share names and
  paths have no colon. Host names may have one, as IPv6 addresses do.
\<close>

theorem FileKey_injective:
  assumes "FileKey h s p = FileKey h' s' p'" and "FileKey h s p \<noteq> []"
    and "CHR '':'' \<notin> set s" and "CHR '':'' \<notin> set s'"
    and "CHR '':'' \<notin> set p" and "CHR '':'' \<notin> set p'"
  shows "normalizeKey h = normalizeKey h' \<and> normalizeKey s = normalizeKey s' \<and> path_key p = path_key p'"
proof -
  have "CHR '':'' \<notin> set (normalizeKey x)" if "CHR '':'' \<notin> set x" for x
    using that by (rule no_colon_normalizeKey)
  moreover have "CHR '':'' \<notin> set (replace_char CHR 0x5C ''/'' x)" if "CHR '':'' \<notin> set x" for x
    using that by (auto simp: replace_char_def split: if_splits)
  ultimately show ?thesis
    using assms by (intro FileKey_inj) (auto simp: path_key_def)
qed

theorem FileKey_injective_witness:
  "FileKey ''FE80::1'' ''Data'' (''A'' @ [CHR 0x5C] @ ''x.txt'') = FileKey ''fe80::1'' ''data '' ''a/X.txt'' \<and>
   path_key (''A'' @ [CHR 0x5C] @ ''x.txt'') = path_key ''a/X.txt''"
proof -
  have k: "FileKey ''FE80::1'' ''Data'' (''A'' @ [CHR 0x5C] @ ''x.txt'') = FileKey ''fe80::1'' ''data '' ''a/X.txt''"
    "FileKey ''FE80::1'' ''Data'' (''A'' @ [CHR 0x5C] @ ''x.txt'') \<noteq> []" by code_simp+
  then show ?thesis using FileKey_injective [OF k] by simp
qed

end
