(* ===== verification/StateManager.thy ===== *)
theory StateManager
  imports StateStore
begin

text \<open>
  The package \<open>internal/state\<close>, part two: the checkpoint manager (\<open>checkpoint.go\<close>). Its methods
  hold the manager's lock, so a run of the scan is a sequence of calls, whatever the workers'
  interleaving. A manager that exists always has a store; the callers test for a nil manager.
  The ticker that saves in the background is a \<open>Save\<close> between two calls.
\<close>

record shareProgress =
  sp_failed :: bool
  sp_remaining :: int
  sp_finished :: bool

record Manager =
  mg_store :: Store
  mg_interval :: int
  mg_pending :: "string \<rightharpoonup> shareProgress"
  mg_started :: bool
  mg_stopped :: bool

definition defaultSaveInterval :: int where
  "defaultSaveInterval = 10 * 1000000000"

definition NewManager :: "string \<Rightarrow> bool \<Rightarrow> int \<Rightarrow> FS \<Rightarrow> open_error + Manager option" where
  "NewManager path resume interval fs =
     (case Open path resume fs of
       Inl err \<Rightarrow> Inl err
     | Inr None \<Rightarrow> Inr None
     | Inr (Some store) \<Rightarrow>
         Inr (Some \<lparr>mg_store = store,
                    mg_interval = (if interval \<le> 0 then defaultSaveInterval else interval),
                    mg_pending = Map.empty, mg_started = False, mg_stopped = False\<rparr>))"

definition Enabled :: "Manager \<Rightarrow> bool" where
  "Enabled m = Store_Enabled (mg_store m)"

definition Start :: "Manager \<Rightarrow> Manager" where
  "Start m = (if \<not> Enabled m then m else if mg_started m then m else m\<lparr>mg_started := True\<rparr>)"

definition ManagerSave :: "save_io \<Rightarrow> gotime \<Rightarrow> Manager \<Rightarrow> FS \<Rightarrow> save_error option \<times> Manager \<times> FS list" where
  "ManagerSave io now m fs =
     (if \<not> Enabled m then (None, m, [fs])
      else case Save io now (mg_store m) fs of (err, s', trace) \<Rightarrow> (err, m\<lparr>mg_store := s'\<rparr>, trace))"

text \<open>\<open>Close\<close> stops the background saves once and saves.\<close>

definition ManagerClose :: "save_io \<Rightarrow> gotime \<Rightarrow> Manager \<Rightarrow> FS \<Rightarrow> save_error option \<times> Manager \<times> FS list" where
  "ManagerClose io now m fs = ManagerSave io now (m\<lparr>mg_stopped := True\<rparr>) fs"

subsection \<open>What a resumed scan skips\<close>

definition ShouldSkipHost :: "Manager \<Rightarrow> string \<Rightarrow> bool" where
  "ShouldSkipHost m host = (if \<not> Enabled m then False else IsHostComplete (mg_store m) host)"

definition ShouldSkipShare :: "Manager \<Rightarrow> string \<Rightarrow> string \<Rightarrow> bool" where
  "ShouldSkipShare m host share = (if \<not> Enabled m then False else IsShareComplete (mg_store m) host share)"

definition ShouldSkipFile :: "Manager \<Rightarrow> string \<Rightarrow> string \<Rightarrow> string \<Rightarrow> int \<Rightarrow> gotime \<Rightarrow> bool" where
  "ShouldSkipFile m host share path sz modifiedAt =
     (if \<not> Enabled m then False else IsFileComplete (mg_store m) host share path sz modifiedAt)"

subsection \<open>Progress of a share\<close>

definition complete_share :: "Manager \<Rightarrow> string \<Rightarrow> string \<Rightarrow> Manager" where
  "complete_share m host share = m\<lparr>mg_store := MarkShareComplete (mg_store m) host share\<rparr>"

definition set_pending :: "Manager \<Rightarrow> string \<Rightarrow> shareProgress option \<Rightarrow> Manager" where
  "set_pending m key p = m\<lparr>mg_pending := (mg_pending m)(key := p)\<rparr>"

definition BeginShare :: "Manager \<Rightarrow> string \<Rightarrow> string \<Rightarrow> int \<Rightarrow> Manager" where
  "BeginShare m host share fileCount =
     (if \<not> Enabled m then m
      else if fileCount \<le> 0 then complete_share m host share
      else
        let key = ShareKey host share
        in if key = [] then m
           else set_pending m key
                  (Some \<lparr>sp_failed = False, sp_remaining = fileCount, sp_finished = True\<rparr>))"

definition StartShare :: "Manager \<Rightarrow> string \<Rightarrow> string \<Rightarrow> Manager" where
  "StartShare m host share =
     (if \<not> Enabled m then m
      else
        let key = ShareKey host share
        in if key = [] then m
           else if mg_pending m key \<noteq> None then m
           else set_pending m key
                  (Some \<lparr>sp_failed = False, sp_remaining = 0, sp_finished = False\<rparr>))"

definition AddPendingFiles :: "Manager \<Rightarrow> string \<Rightarrow> string \<Rightarrow> int \<Rightarrow> Manager" where
  "AddPendingFiles m host share fileCount =
     (if \<not> Enabled m \<or> fileCount \<le> 0 then m
      else
        let key = ShareKey host share
        in if key = [] then m
           else
             let progress = (case mg_pending m key of
                    Some p \<Rightarrow> p
                  | None \<Rightarrow> \<lparr>sp_failed = False, sp_remaining = 0, sp_finished = False\<rparr>)
             in set_pending m key (Some (progress\<lparr>sp_remaining := sp_remaining progress + fileCount\<rparr>)))"

definition FinishShareEnumeration :: "Manager \<Rightarrow> string \<Rightarrow> string \<Rightarrow> Manager" where
  "FinishShareEnumeration m host share =
     (if \<not> Enabled m then m
      else
        let key = ShareKey host share
        in if key = [] then m
           else
             case mg_pending m key of
               None \<Rightarrow> complete_share m host share
             | Some progress \<Rightarrow>
                 let progress' = progress\<lparr>sp_finished := True\<rparr>
                 in if sp_remaining progress' > 0 then set_pending m key (Some progress')
                    else
                      let m' = (if \<not> sp_failed progress' then complete_share m host share else m)
                      in set_pending m' key None)"

definition AbortShare :: "Manager \<Rightarrow> string \<Rightarrow> string \<Rightarrow> Manager" where
  "AbortShare m host share =
     (if \<not> Enabled m then m
      else
        let key = ShareKey host share
        in if key = [] then m
           else if mg_pending m key \<noteq> None then set_pending m key None
           else m)"

definition RecordFileResult ::
  "Manager \<Rightarrow> string \<Rightarrow> string \<Rightarrow> string \<Rightarrow> int \<Rightarrow> gotime \<Rightarrow> bool \<Rightarrow> Manager" where
  "RecordFileResult m0 host share path sz modifiedAt success =
     (if \<not> Enabled m0 then m0
      else
        let m = (if success
                 then m0\<lparr>mg_store := MarkFileComplete (mg_store m0) host share path sz modifiedAt\<rparr>
                 else m0);
            key = ShareKey host share
        in if key = [] then m
           else
             case mg_pending m key of
               None \<Rightarrow> m
             | Some progress \<Rightarrow>
                 let p1 = (if \<not> success then progress\<lparr>sp_failed := True\<rparr> else progress);
                     p2 = p1\<lparr>sp_remaining := sp_remaining p1 - 1\<rparr>
                 in if sp_remaining p2 > 0 \<or> \<not> sp_finished p2 then set_pending m key (Some p2)
                    else
                      let m' = (if \<not> sp_failed p2 then complete_share m host share else m)
                      in set_pending m' key None)"

definition ManagerMarkHost :: "Manager \<Rightarrow> string \<Rightarrow> Manager" where
  "ManagerMarkHost m host =
     (if \<not> Enabled m then m else m\<lparr>mg_store := MarkHostComplete (mg_store m) host\<rparr>)"

subsection \<open>Runs\<close>

text \<open>The calls a scan makes, and the manager after a sequence of them.\<close>

datatype event =
    EvBegin string string int
  | EvStart string string
  | EvAdd string string int
  | EvFinish string string
  | EvAbort string string
  | EvResult string string string int gotime bool
  | EvHost string

fun step :: "Manager \<Rightarrow> event \<Rightarrow> Manager" where
  "step m (EvBegin h s n) = BeginShare m h s n"
| "step m (EvStart h s) = StartShare m h s"
| "step m (EvAdd h s n) = AddPendingFiles m h s n"
| "step m (EvFinish h s) = FinishShareEnumeration m h s"
| "step m (EvAbort h s) = AbortShare m h s"
| "step m (EvResult h s p sz t ok) = RecordFileResult m h s p sz t ok"
| "step m (EvHost h) = ManagerMarkHost m h"

definition run :: "Manager \<Rightarrow> event list \<Rightarrow> Manager" where
  "run m es = foldl step m es"

lemma run_simps [simp]:
  "run m [] = m" "run m (e # es) = run (step m e) es" "run m (es @ es') = run (run m es) es'"
  by (simp_all add: run_def)

lemmas manager_ops =
  BeginShare_def StartShare_def AddPendingFiles_def FinishShareEnumeration_def AbortShare_def
  RecordFileResult_def ManagerMarkHost_def complete_share_def set_pending_def

lemma mark_path [simp]:
  "st_path (MarkHostComplete s h) = st_path s"
  "st_path (MarkShareComplete s h sh) = st_path s"
  "st_path (MarkFileComplete s h sh p sz t) = st_path s"
  by (simp_all add: MarkHostComplete_def MarkShareComplete_def MarkFileComplete_def markFile_def Let_def)

lemma step_path [simp]: "st_path (mg_store (step m e)) = st_path (mg_store m)"
  by (cases e) (auto simp: manager_ops Let_def split: option.splits)

lemma step_Enabled [simp]: "Enabled (step m e) = Enabled m"
  by (simp add: Enabled_def Store_Enabled_def)

lemma run_Enabled [simp]: "Enabled (run m es) = Enabled m"
  by (induction es arbitrary: m) auto

lemma NewManager_Enabled: "NewManager path resume interval fs = Inr (Some m) \<Longrightarrow> Enabled m"
  using Open_inv by (fastforce simp: NewManager_def Enabled_def split: sum.splits option.splits)

subsection \<open>The store invariant along a run\<close>

lemma step_store_inv: "store_inv (mg_store m) \<Longrightarrow> store_inv (mg_store (step m e))"
  by (cases e) (auto simp: manager_ops Let_def MarkHostComplete_inv MarkShareComplete_inv
      MarkFileComplete_inv split: option.splits)

lemma run_store_inv: "store_inv (mg_store m) \<Longrightarrow> store_inv (mg_store (run m es))"
  by (induction es arbitrary: m) (auto intro: step_store_inv)

subsection \<open>Completed work stays completed\<close>

lemma share_mark_hosts [simp]:
  "IsHostComplete (MarkShareComplete s h sh) k = IsHostComplete s k"
  "IsHostComplete (MarkFileComplete s h sh p sz t) k = IsHostComplete s k"
  by (auto simp: IsHostComplete_def MarkShareComplete_def MarkFileComplete_def markFile_def Let_def)

lemma share_marks [simp]:
  "IsShareComplete (MarkHostComplete s h) k l = IsShareComplete s k l"
  "IsShareComplete (MarkFileComplete s h sh p sz t) k l = IsShareComplete s k l"
  "IsShareComplete (MarkShareComplete s h sh) k l \<longleftrightarrow>
     IsShareComplete s k l \<or> (ShareKey h sh \<noteq> [] \<and> ShareKey k l = ShareKey h sh)"
  using shares.complete_mark [of s "(h, sh)" "(k, l)"]
  by (auto simp: IsShareComplete_def MarkHostComplete_def MarkFileComplete_def markFile_def Let_def)

lemma step_host_mono: "IsHostComplete (mg_store m) h \<Longrightarrow> IsHostComplete (mg_store (step m e)) h"
  by (cases e) (auto simp: manager_ops Let_def hosts.complete_mark split: option.splits)

lemma step_share_mono: "IsShareComplete (mg_store m) h s \<Longrightarrow> IsShareComplete (mg_store (step m e)) h s"
  by (cases e) (auto simp: manager_ops Let_def split: option.splits)

lemma run_host_mono: "IsHostComplete (mg_store m) h \<Longrightarrow> IsHostComplete (mg_store (run m es)) h"
  by (induction es arbitrary: m) (auto intro: step_host_mono)

lemma run_share_mono: "IsShareComplete (mg_store m) h s \<Longrightarrow> IsShareComplete (mg_store (run m es)) h s"
  by (induction es arbitrary: m) (auto intro: step_share_mono)

subsection \<open>No finished share waits for nothing\<close>

definition pending_inv :: "Manager \<Rightarrow> bool" where
  "pending_inv m \<longleftrightarrow>
     (\<forall>k p. mg_pending m k = Some p \<longrightarrow> k \<noteq> [] \<and> (sp_finished p \<longrightarrow> sp_remaining p > 0))"

lemma pending_inv_step: "pending_inv m \<Longrightarrow> pending_inv (step m e)"
  by (cases e) (fastforce simp: manager_ops pending_inv_def Let_def split: option.splits if_splits)+

lemma pending_inv_run: "pending_inv m \<Longrightarrow> pending_inv (run m es)"
  by (induction es arbitrary: m) (auto intro: pending_inv_step)

subsection \<open>The life of one share\<close>

text \<open>
  For a share key: the files an event adds, whether it is the result of one of its files, and
  whether that result is a failure. An event that only adds files or records results of the share,
  or concerns other shares, is quiet.
\<close>

fun added :: "string \<Rightarrow> event \<Rightarrow> int" where
  "added K (EvAdd h s n) = (if ShareKey h s = K \<and> n > 0 then n else 0)"
| "added K e = 0"

fun recorded :: "string \<Rightarrow> event \<Rightarrow> int" where
  "recorded K (EvResult h s p sz t ok) = (if ShareKey h s = K then 1 else 0)"
| "recorded K e = 0"

fun failing :: "string \<Rightarrow> event \<Rightarrow> bool" where
  "failing K (EvResult h s p sz t ok) = (ShareKey h s = K \<and> \<not> ok)"
| "failing K e = False"

fun quiet :: "string \<Rightarrow> event \<Rightarrow> bool" where
  "quiet K (EvBegin h s n) = (ShareKey h s \<noteq> K)"
| "quiet K (EvStart h s) = (ShareKey h s \<noteq> K)"
| "quiet K (EvFinish h s) = (ShareKey h s \<noteq> K)"
| "quiet K (EvAbort h s) = (ShareKey h s \<noteq> K)"
| "quiet K e = True"

definition total :: "(event \<Rightarrow> int) \<Rightarrow> event list \<Rightarrow> int" where
  "total f es = sum_list (map f es)"

lemma total_simps [simp]: "total f [] = 0" "total f (e # es) = f e + total f es"
    "total f (es @ es') = total f es + total f es'"
  by (simp_all add: total_def)

lemma recorded_nonneg [simp]: "0 \<le> recorded K e"
  by (cases e) auto

lemma added_nonneg [simp]: "0 \<le> added K e"
  by (cases e) auto

lemma total_nonneg: "(\<And>e. 0 \<le> f e) \<Longrightarrow> 0 \<le> total f es"
  by (induction es) (auto simp: add_nonneg_nonneg)

lemma total_zeroD: "total f es = 0 \<Longrightarrow> (\<And>e. 0 \<le> f e) \<Longrightarrow> \<forall>e \<in> set es. f e = 0"
  unfolding total_def by (subst (asm) sum_list_nonneg_eq_0_iff) auto

abbreviation share_done :: "Manager \<Rightarrow> string \<Rightarrow> bool" where
  "share_done m K \<equiv> K \<in> st_shares (mg_store m)"

lemma shares_mark_shares [simp]:
  "st_shares (MarkHostComplete s h) = st_shares s"
  "st_shares (MarkFileComplete s h sh p sz t) = st_shares s"
  "K \<in> st_shares (MarkShareComplete s h sh) \<longleftrightarrow> K \<in> st_shares s \<or> (K = ShareKey h sh \<and> K \<noteq> [])"
  by (auto simp: MarkHostComplete_def MarkFileComplete_def MarkShareComplete_def markFile_def Let_def)

lemma quiet_open:
  assumes "Enabled m" and "K \<noteq> []" and "quiet K e" and "mg_pending m K = Some p" and "\<not> sp_finished p"
  shows "mg_pending (step m e) K =
      Some (p\<lparr>sp_failed := sp_failed p \<or> failing K e,
              sp_remaining := sp_remaining p + added K e - recorded K e\<rparr>)
    \<and> share_done (step m e) K = share_done m K"
  using assms by (cases e) (auto simp: manager_ops Let_def split: option.splits if_splits)

lemma quiet_open_run:
  assumes "Enabled m" and "K \<noteq> []" and "\<And>e. e \<in> set es \<Longrightarrow> quiet K e"
    and "mg_pending m K = Some p" and "\<not> sp_finished p"
  shows "mg_pending (run m es) K =
      Some (p\<lparr>sp_failed := sp_failed p \<or> (\<exists>e \<in> set es. failing K e),
              sp_remaining := sp_remaining p + total (added K) es - total (recorded K) es\<rparr>)
    \<and> share_done (run m es) K = share_done m K"
  using assms
proof (induction es arbitrary: m p)
  case (Cons e es)
  let ?p = "p\<lparr>sp_failed := sp_failed p \<or> failing K e,
              sp_remaining := sp_remaining p + added K e - recorded K e\<rparr>"
  have st: "mg_pending (step m e) K = Some ?p \<and> share_done (step m e) K = share_done m K"
    using Cons.prems by (intro quiet_open) auto
  have "mg_pending (run (step m e) es) K =
      Some (?p\<lparr>sp_failed := sp_failed ?p \<or> (\<exists>e \<in> set es. failing K e),
              sp_remaining := sp_remaining ?p + total (added K) es - total (recorded K) es\<rparr>)
    \<and> share_done (run (step m e) es) K = share_done (step m e) K"
    using Cons.prems st by (intro Cons.IH) auto
  with st show ?case by (simp add: disj_assoc algebra_simps)
qed simp

lemma quiet_absent:
  assumes "Enabled m" and "K \<noteq> []" and "quiet K e" and "mg_pending m K = None" and "added K e = 0"
  shows "mg_pending (step m e) K = None \<and> share_done (step m e) K = share_done m K"
  using assms by (cases e) (auto simp: manager_ops Let_def split: option.splits if_splits)

lemma quiet_absent_run:
  assumes "Enabled m" and "K \<noteq> []" and "\<And>e. e \<in> set es \<Longrightarrow> quiet K e \<and> added K e = 0"
    and "mg_pending m K = None"
  shows "mg_pending (run m es) K = None \<and> share_done (run m es) K = share_done m K"
  using assms
proof (induction es arbitrary: m)
  case (Cons e es)
  then have "mg_pending (step m e) K = None \<and> share_done (step m e) K = share_done m K"
    by (intro quiet_absent) auto
  with Cons show ?case by simp
qed simp

lemma quiet_closing:
  assumes "Enabled m" and "K \<noteq> []" and "quiet K e" and "added K e = 0"
    and "mg_pending m K = Some p" and "sp_finished p" and "sp_remaining p > recorded K e"
  shows "mg_pending (step m e) K =
      Some (p\<lparr>sp_failed := sp_failed p \<or> failing K e, sp_remaining := sp_remaining p - recorded K e\<rparr>)
    \<and> share_done (step m e) K = share_done m K"
  using assms by (cases e) (auto simp: manager_ops Let_def split: option.splits if_splits)

lemma quiet_last:
  assumes "Enabled m" and "K \<noteq> []" and "quiet K e" and "recorded K e = 1"
    and "mg_pending m K = Some p" and "sp_finished p" and "sp_remaining p = 1"
  shows "mg_pending (step m e) K = None
    \<and> share_done (step m e) K = (share_done m K \<or> \<not> (sp_failed p \<or> failing K e))"
  using assms by (cases e) (auto simp: manager_ops Let_def split: option.splits if_splits)

lemma recorded_01: "recorded K e = 0 \<or> recorded K e = 1"
  by (cases e) auto

lemma not_recorded_not_failing: "recorded K e = 0 \<Longrightarrow> \<not> failing K e"
  by (cases e) (auto split: if_splits)

text \<open>
  After the walk of a share has finished, the share completes with its last result, and only if
  none failed.
\<close>

lemma closing_run:
  assumes "Enabled m" and "K \<noteq> []" and "\<And>e. e \<in> set es \<Longrightarrow> quiet K e \<and> added K e = 0"
    and "mg_pending m K = Some p" and "sp_finished p" and "sp_remaining p > 0"
    and "total (recorded K) es \<le> sp_remaining p"
  shows "share_done (run m es) K \<longleftrightarrow> share_done m K \<or>
    (total (recorded K) es = sp_remaining p \<and> \<not> (sp_failed p \<or> (\<exists>e \<in> set es. failing K e)))"
  using assms
proof (induction es arbitrary: m p)
  case (Cons e es)
  have nn: "0 \<le> total (recorded K) es" by (rule total_nonneg) simp
  show ?case
  proof (cases "sp_remaining p > recorded K e")
    case True
    let ?p = "p\<lparr>sp_failed := sp_failed p \<or> failing K e, sp_remaining := sp_remaining p - recorded K e\<rparr>"
    have st: "mg_pending (step m e) K = Some ?p \<and> share_done (step m e) K = share_done m K"
      using Cons.prems True by (intro quiet_closing) auto
    have "share_done (run (step m e) es) K \<longleftrightarrow> share_done (step m e) K \<or>
        (total (recorded K) es = sp_remaining ?p \<and> \<not> (sp_failed ?p \<or> (\<exists>e \<in> set es. failing K e)))"
      using Cons.prems True st by (intro Cons.IH) auto
    with st show ?thesis by auto
  next
    case False
    then have one: "recorded K e = 1" "sp_remaining p = 1"
      using recorded_01 [of K e] Cons.prems(6) by auto
    then have none: "total (recorded K) es = 0"
      using Cons.prems(7) nn by simp
    then have "\<forall>e' \<in> set es. recorded K e' = 0" by (rule total_zeroD) simp
    then have nf: "\<not> (\<exists>e' \<in> set es. failing K e')"
      using not_recorded_not_failing by blast
    have st: "mg_pending (step m e) K = None
        \<and> share_done (step m e) K = (share_done m K \<or> \<not> (sp_failed p \<or> failing K e))"
      using Cons.prems one by (intro quiet_last) auto
    then have "share_done (run (step m e) es) K = share_done (step m e) K"
      using Cons.prems by (intro conjunct2 [OF quiet_absent_run]) auto
    with st one none nf show ?thesis by auto
  qed
qed simp

subsection \<open>Properties\<close>

lemma IsShareComplete_key:
  "ShareKey h s \<noteq> [] \<Longrightarrow> IsShareComplete st h s \<longleftrightarrow> ShareKey h s \<in> st_shares st"
  by (auto simp: IsShareComplete_def)

text \<open>
  A share whose walk is announced, whose files are handed out while the walk goes on, whose
  walk then finishes, and whose results come in before and after, in any order and interleaved
  with any events of other shares, is complete exactly when every file handed out has its result
  and no result is a failure.
\<close>

theorem share_complete_iff:
  assumes "Enabled m" and "ShareKey h s \<noteq> []"
    and "mg_pending m (ShareKey h s) = None" and "\<not> IsShareComplete (mg_store m) h s"
    and "\<And>e. e \<in> set es1 \<Longrightarrow> quiet (ShareKey h s) e"
    and "\<And>e. e \<in> set es2 \<Longrightarrow> quiet (ShareKey h s) e \<and> added (ShareKey h s) e = 0"
    and "total (recorded (ShareKey h s)) (es1 @ es2) \<le> total (added (ShareKey h s)) es1"
  shows "IsShareComplete (mg_store (run m (EvStart h s # es1 @ EvFinish h s # es2))) h s \<longleftrightarrow>
    total (recorded (ShareKey h s)) (es1 @ es2) = total (added (ShareKey h s)) es1
    \<and> (\<forall>e \<in> set (es1 @ es2). \<not> failing (ShareKey h s) e)"
proof -
  let ?K = "ShareKey h s"
  let ?p0 = "\<lparr>sp_failed = False, sp_remaining = 0, sp_finished = False\<rparr>"
  let ?m0 = "step m (EvStart h s)" and ?r = "total (recorded ?K)"
  let ?d = "total (added ?K) es1 - ?r es1" and ?f = "\<exists>e \<in> set es1. failing ?K e"
  have nn: "0 \<le> ?r es2" by (rule total_nonneg) simp
  have en0: "Enabled (step m e)" "Enabled (step (run (step m e) es) e')" for e e' es
    using assms(1) by (simp_all only: step_Enabled run_Enabled)
  have nd: "\<not> share_done m ?K" using assms by (simp add: IsShareComplete_key)
  have "mg_pending ?m0 ?K = Some ?p0 \<and> share_done ?m0 ?K = share_done m ?K"
    using assms by (simp add: manager_ops Let_def)
  then have walked: "mg_pending (run ?m0 es1) ?K = Some \<lparr>sp_failed = ?f, sp_remaining = ?d, sp_finished = False\<rparr>"
      "\<not> share_done (run ?m0 es1) ?K"
    using quiet_open_run [of ?m0 ?K es1 ?p0] en0 assms(2,5) nd by (simp_all del: step.simps)
  let ?m1 = "run ?m0 es1"
  let ?m2 = "step ?m1 (EvFinish h s)"
  have en: "Enabled ?m1" "Enabled ?m2" using en0 assms(1) by (simp_all del: step.simps)
  have "share_done (run ?m2 es2) ?K \<longleftrightarrow> ?r es2 = ?d \<and> \<not> ?f \<and> \<not> (\<exists>e \<in> set es2. failing ?K e)"
  proof (cases "?d > 0")
    case True
    let ?p2 = "\<lparr>sp_failed = ?f, sp_remaining = ?d, sp_finished = True\<rparr>"
    have "mg_pending ?m2 ?K = Some ?p2 \<and> \<not> share_done ?m2 ?K"
      using walked True en assms by (simp add: manager_ops Let_def)
    then show ?thesis using closing_run [of ?m2 ?K es2 ?p2] en assms(2,6,7) True by (auto simp del: step.simps)
  next
    case False
    with assms nn have z: "?d = 0" "?r es2 = 0" by auto
    have "\<forall>e \<in> set es2. recorded ?K e = 0" by (rule total_zeroD [OF z(2)]) simp
    then have nf: "\<not> (\<exists>e \<in> set es2. failing ?K e)" using not_recorded_not_failing by blast
    have "mg_pending ?m2 ?K = None \<and> share_done ?m2 ?K = (\<not> ?f)"
      using walked z en assms by (simp add: manager_ops Let_def)
    then have "share_done (run ?m2 es2) ?K = (\<not> ?f)"
      using quiet_absent_run [of ?m2 ?K es2] en assms(2,6) by (auto simp del: step.simps)
    with z nf show ?thesis by auto
  qed
  then show ?thesis using assms by (auto simp: IsShareComplete_key)
qed

definition demo_manager :: Manager where
  "demo_manager = \<lparr>mg_store = \<lparr>st_path = ''scan.state'', st_dirty = False, st_files = [],
       st_hosts = {}, st_shares = {}\<rparr>,
     mg_interval = defaultSaveInterval, mg_pending = Map.empty, mg_started = False, mg_stopped = False\<rparr>"

lemma demo_manager_facts:
  "NewManager ''scan.state'' False 0 fs = Inr (Some demo_manager)" "Enabled demo_manager"
  "mg_pending demo_manager K = None" "\<not> IsShareComplete (mg_store demo_manager) h s"
  by (simp_all add: NewManager_def Open_def demo_manager_def Enabled_def Store_Enabled_def
      IsShareComplete_def trim_space_def trim_by_def is_space_code Let_def)

lemma demo_keys: "ShareKey ''fs01'' ''hr'' = ''fs01::hr''" "ShareKey ''FS01'' '' HR'' = ''fs01::hr''"
  "ShareKey ''fs01'' ''it'' = ''fs01::it''"
  by code_simp+

theorem share_complete_iff_witness:
  "IsShareComplete (mg_store (run demo_manager
     (EvStart ''fs01'' ''hr'' # [EvAdd ''fs01'' ''hr'' 2, EvResult ''FS01'' '' HR'' ''a'' 1 1 True] @
      EvFinish ''fs01'' ''hr'' # [EvFinish ''fs01'' ''it'', EvResult ''fs01'' ''hr'' ''b'' 1 1 True]))) ''fs01'' ''hr''"
proof -
  have "e \<in> set [EvAdd ''fs01'' ''hr'' 2, EvResult ''FS01'' '' HR'' ''a'' 1 1 True]
      \<Longrightarrow> quiet (ShareKey ''fs01'' ''hr'') e" for e by auto
  moreover have "e \<in> set [EvFinish ''fs01'' ''it'', EvResult ''fs01'' ''hr'' ''b'' 1 1 True]
      \<Longrightarrow> quiet (ShareKey ''fs01'' ''hr'') e \<and> added (ShareKey ''fs01'' ''hr'') e = 0" for e
    by (auto simp: demo_keys)
  moreover have "total (recorded (ShareKey ''fs01'' ''hr''))
      ([EvAdd ''fs01'' ''hr'' 2, EvResult ''FS01'' '' HR'' ''a'' 1 1 True] @
       [EvFinish ''fs01'' ''it'', EvResult ''fs01'' ''hr'' ''b'' 1 1 True])
    \<le> total (added (ShareKey ''fs01'' ''hr'')) [EvAdd ''fs01'' ''hr'' 2, EvResult ''FS01'' '' HR'' ''a'' 1 1 True]"
    by (simp add: demo_keys)
  ultimately show ?thesis
    using demo_manager_facts demo_keys
    by (subst share_complete_iff) (simp_all add: demo_keys)
qed

text \<open>
  From the opening of the checkpoint on, whatever calls the scan makes and in whatever order:
  the store stays well formed, no share whose walk has finished waits for nothing, and what was
  once skipped as completed is skipped for the rest of the scan.
\<close>

theorem run_invariant:
  assumes "NewManager path resume interval fs = Inr (Some m)"
  shows "store_inv (mg_store (run m es)) \<and> pending_inv (run m es) \<and>
    (\<forall>h. ShouldSkipHost (run m es) h \<longrightarrow> ShouldSkipHost (run m (es @ es')) h) \<and>
    (\<forall>h s. ShouldSkipShare (run m es) h s \<longrightarrow> ShouldSkipShare (run m (es @ es')) h s)"
proof -
  from assms have "store_inv (mg_store m)" "pending_inv m"
    using Open_inv by (fastforce simp: NewManager_def pending_inv_def split: sum.splits option.splits)+
  then show ?thesis
    by (simp add: run_store_inv pending_inv_run ShouldSkipHost_def ShouldSkipShare_def
        run_host_mono run_share_mono)
qed

theorem run_invariant_witness:
  "ShouldSkipHost (run demo_manager [EvHost '' DC1'', EvAbort ''dc1'' ''hr'']) ''dc1''"
proof -
  have "HostKey '' DC1'' = ''dc1''" "HostKey ''dc1'' = ''dc1''" by code_simp+
  then have "ShouldSkipHost (run demo_manager [EvHost '' DC1'']) ''dc1''"
    using demo_manager_facts
    by (simp add: ShouldSkipHost_def ManagerMarkHost_def hosts.complete_mark)
      (simp add: Enabled_def Store_Enabled_def)
  then show ?thesis
    using run_invariant [OF demo_manager_facts(1), where es = "[EvHost '' DC1'']" and es' = "[EvAbort ''dc1'' ''hr'']"]
    by (simp del: step.simps)
qed

text \<open>
  A share whose walk was given up is not completed by the results that still come in for the
  files handed out before.
\<close>

theorem aborted_share_stays_incomplete:
  assumes "Enabled m" and "ShareKey h s \<noteq> []" and "\<not> IsShareComplete (mg_store m) h s"
    and "\<And>e. e \<in> set es \<Longrightarrow> quiet (ShareKey h s) e \<and> added (ShareKey h s) e = 0"
  shows "\<not> IsShareComplete (mg_store (run m (EvAbort h s # es))) h s"
proof -
  have "mg_pending (step m (EvAbort h s)) (ShareKey h s) = None"
    "share_done (step m (EvAbort h s)) (ShareKey h s) = share_done m (ShareKey h s)"
    using assms(1,2) by (auto simp: manager_ops Let_def)
  then show ?thesis
    using quiet_absent_run [of "step m (EvAbort h s)" "ShareKey h s" es] assms
    by (simp add: IsShareComplete_key del: step.simps)
qed

theorem aborted_share_stays_incomplete_witness:
  "\<not> IsShareComplete (mg_store (run (run demo_manager [EvStart ''fs01'' ''hr'', EvAdd ''fs01'' ''hr'' 1])
      (EvAbort ''fs01'' ''hr'' # [EvResult ''fs01'' ''hr'' ''a'' 1 1 True]))) ''fs01'' ''hr''"
proof (rule aborted_share_stays_incomplete)
  show "Enabled (run demo_manager [EvStart ''fs01'' ''hr'', EvAdd ''fs01'' ''hr'' 1])"
    by (simp only: run_Enabled demo_manager_facts)
  show "\<not> IsShareComplete (mg_store (run demo_manager [EvStart ''fs01'' ''hr'', EvAdd ''fs01'' ''hr'' 1])) ''fs01'' ''hr''"
    using demo_manager_facts
    by (simp add: manager_ops Let_def demo_keys)
qed (auto simp: demo_keys)

text \<open>
  A file recorded as done is skipped on resume exactly when it still has the recorded size
  and modification time (an unknown time matches any), and only a successful result makes it so.
\<close>

theorem skip_file_iff_unchanged:
  assumes "Enabled m" and "FileKey h s p \<noteq> []"
    and "\<not> (\<exists>sz'' t''. ShouldSkipFile m h s p sz'' t'')"
  shows "ShouldSkipFile (step m (EvResult h s p sz t ok)) h s p sz' t' \<longleftrightarrow>
    ok \<and> sz = sz' \<and> (is_zero_time t \<or> is_zero_time t' \<or> t = t')"
proof -
  have marks: "IsFileComplete (MarkShareComplete st a b) = IsFileComplete st" for st a b
    by (intro ext) (simp add: IsFileComplete_def MarkShareComplete_def Let_def)
  have "IsFileComplete (mg_store (step m (EvResult h s p sz t ok))) h s p sz' t' \<longleftrightarrow>
      IsFileComplete (if ok then MarkFileComplete (mg_store m) h s p sz t else mg_store m) h s p sz' t'"
    using assms(1) by (simp add: RecordFileResult_def complete_share_def set_pending_def Let_def marks
        split: option.splits)
  then show ?thesis
    using assms IsFileComplete_mark [OF assms(2), of "mg_store m" sz t sz' t']
    by (auto simp: ShouldSkipFile_def simp del: step.simps)
qed

theorem skip_file_iff_unchanged_witness:
  "ShouldSkipFile (step demo_manager (EvResult ''fs01'' ''hr'' ''a'' 10 5 True)) ''fs01'' ''hr'' ''a'' 10 5 \<and>
   \<not> ShouldSkipFile (step demo_manager (EvResult ''fs01'' ''hr'' ''a'' 10 5 True)) ''fs01'' ''hr'' ''a'' 11 5"
proof -
  have k: "FileKey ''fs01'' ''hr'' ''a'' \<noteq> []" by code_simp
  have n: "\<not> (\<exists>sz t. ShouldSkipFile demo_manager ''fs01'' ''hr'' ''a'' sz t)"
    by (simp add: ShouldSkipFile_def IsFileComplete_def demo_manager_def)
  show ?thesis
    unfolding skip_file_iff_unchanged [OF demo_manager_facts(2) k n] by simp
qed

text \<open>
  The host loop of the scan marks a host when its walk returned without an error, also when a
  file of it failed: the host is then skipped on resume although the share and the file are not
  recorded as complete.
\<close>

theorem failed_file_hidden_by_host:
  assumes "Enabled m" and "ShareKey h s \<noteq> []"
    and "mg_pending m (ShareKey h s) = None" and "\<not> IsShareComplete (mg_store m) h s"
    and "\<not> ShouldSkipFile m h s p sz t"
  shows "let m' = run m [EvStart h s, EvAdd h s 1, EvFinish h s, EvResult h s p sz t False, EvHost h]
    in ShouldSkipHost m' h \<and> \<not> ShouldSkipShare m' h s \<and> \<not> ShouldSkipFile m' h s p sz t"
proof -
  have hk: "HostKey h \<noteq> []" using assms(2) by (auto simp: HostKey_def ShareKey_def Let_def)
  let ?es = "[EvStart h s, EvAdd h s 1, EvFinish h s, EvResult h s p sz t False]"
  have en: "Enabled (run m es)" for es using assms(1) by simp
  have st: "mg_store (run m ?es) = mg_store m"
    using assms(1-3) by (simp add: manager_ops Let_def Enabled_def)
  have m': "run m (?es @ [EvHost h]) = ManagerMarkHost (run m ?es) h" by (simp only: run_simps step.simps)
  have fc: "IsFileComplete (MarkHostComplete st a) = IsFileComplete st" for st a
    by (intro ext) (simp add: IsFileComplete_def MarkHostComplete_def Let_def)
  have "mg_store (ManagerMarkHost (run m ?es) h) = MarkHostComplete (mg_store m) h"
    "Enabled (ManagerMarkHost (run m ?es) h)"
    using en [of ?es] en [of "?es @ [EvHost h]"] st by (simp_all only: m') (simp_all add: ManagerMarkHost_def)
  moreover have "run m [EvStart h s, EvAdd h s 1, EvFinish h s, EvResult h s p sz t False, EvHost h]
      = ManagerMarkHost (run m ?es) h" using m' by simp
  ultimately show ?thesis
    using assms hk unfolding Let_def
    by (simp add: ShouldSkipHost_def ShouldSkipShare_def ShouldSkipFile_def hosts.complete_mark fc
        del: run_simps)
qed

theorem failed_file_hidden_by_host_witness:
  "let m' = run demo_manager [EvStart ''fs01'' ''hr'', EvAdd ''fs01'' ''hr'' 1, EvFinish ''fs01'' ''hr'',
     EvResult ''fs01'' ''hr'' ''a'' 1 1 False, EvHost ''fs01'']
    in ShouldSkipHost m' ''fs01'' \<and> \<not> ShouldSkipShare m' ''fs01'' ''hr'' \<and> \<not> ShouldSkipFile m' ''fs01'' ''hr'' ''a'' 1 1"
  by (rule failed_file_hidden_by_host)
    (use demo_manager_facts demo_keys in \<open>auto simp: ShouldSkipFile_def IsFileComplete_def demo_manager_def\<close>)

end
