(* ===== verification/Rules.thy ===== *)
theory Rules
  imports GoPath
begin

text \<open>
  The package \<open>internal/rules\<close>, part one: the rule schema (\<open>schema.go\<close>), the validator
  (\<open>validator.go\<close>) and the loader (\<open>loader.go\<close>). The regular expression engine is a parameter: which
  expressions it rejects, with the message, and the successive matches of an expression in an
  input, as pairs of offsets. A compiled
  rule keeps the expression it was compiled from. The YAML decoder is another parameter: a loaded
  document is its keys and its decoded fields, a rule node its keys and what decoding it into a
  rule with defaults gives.
\<close>

record regex_engine =
  rx_error :: "string \<Rightarrow> string option"
  rx_all_index :: "string \<Rightarrow> string \<Rightarrow> (nat \<times> nat) list"

text \<open>\<open>FindAllString\<close> with a limit.\<close>

definition rx_find_all :: "regex_engine \<Rightarrow> string \<Rightarrow> string \<Rightarrow> nat \<Rightarrow> string list" where
  "rx_find_all re expr input n = map (\<lambda>(i, j). substr input i j) (take n (rx_all_index re expr input))"

record Rule =
  r_ID :: string
  r_Name :: string
  r_Description :: string
  r_Type :: string
  r_Pattern :: string
  r_CaseSensitive :: bool
  r_Severity :: string
  r_Confidence :: string
  r_Explanation :: string
  r_Remediation :: string
  r_Tags :: "string list"
  r_Category :: string
  r_Enabled :: bool
  r_IncludePaths :: "string list"
  r_ExcludePaths :: "string list"
  r_FileExtensions :: "string list"
  r_MaxFileSize :: int
  r_Action :: string
  r_SourceFile :: string
  r_FileName :: string
  r_index :: int
  r_unknown :: "string list"
  r_compiled :: "string option"

record RuleFile =
  rf_Version :: int
  rf_Name :: string
  rf_Description :: string
  rf_Rules :: "Rule list"
  rf_SourceFile :: string

record Candidate =
  c_Path :: string
  c_Name :: string
  c_Extension :: string
  c_Content :: string
  c_Size :: int
  c_IsDir :: bool

record MatchResult =
  mr_Rule :: Rule
  mr_Matched :: "string list"

record ValidationIssue =
  vi_File :: string
  vi_RuleID :: string
  vi_Message :: string

definition RuleTypeContent :: string where "RuleTypeContent = ''content''"
definition RuleTypeFilename :: string where "RuleTypeFilename = ''filename''"
definition RuleTypeExtension :: string where "RuleTypeExtension = ''extension''"
definition ActionReport :: string where "ActionReport = ''report''"
definition ActionSkip :: string where "ActionSkip = ''skip''"
definition ActionPrioritize :: string where "ActionPrioritize = ''prioritize''"

lemmas rule_constants =
  RuleTypeContent_def RuleTypeFilename_def RuleTypeExtension_def
  ActionReport_def ActionSkip_def ActionPrioritize_def

definition NormalizePath :: "string \<Rightarrow> string" where
  "NormalizePath path = (let clean = path_clean path in to_slash clean)"

definition normalizeExtension :: "string \<Rightarrow> string" where
  "normalizeExtension ext =
     (if ext = [] then []
      else to_lower (if \<not> has_prefix ext ''.'' then ''.'' @ ext else ext))"

subsection \<open>The validator\<close>

definition validRuleType :: "string \<Rightarrow> bool" where
  "validRuleType ruleType \<longleftrightarrow> ruleType \<in> {RuleTypeContent, RuleTypeFilename, RuleTypeExtension}"

definition validSeverity :: "string \<Rightarrow> bool" where
  "validSeverity severity \<longleftrightarrow> severity \<in> {''low'', ''medium'', ''high'', ''critical''}"

definition validAction :: "string \<Rightarrow> bool" where
  "validAction action \<longleftrightarrow> action \<in> {ActionReport, ActionSkip, ActionPrioritize}"

definition validConfidence :: "string \<Rightarrow> bool" where
  "validConfidence confidence \<longleftrightarrow> confidence \<in> {'''', ''low'', ''medium'', ''high''}"

definition rule_issue :: "Rule \<Rightarrow> string \<Rightarrow> ValidationIssue" where
  "rule_issue rule message =
     \<lparr>vi_File = r_SourceFile rule, vi_RuleID = r_ID rule, vi_Message = message\<rparr>"

definition rule_expr :: "Rule \<Rightarrow> string" where
  "rule_expr rule = (if \<not> r_CaseSensitive rule then ''(?i)'' @ r_Pattern rule else r_Pattern rule)"

text \<open>The issues of the fields, before the pattern is compiled.\<close>

definition field_issues :: "Rule \<Rightarrow> ValidationIssue list" where
  "field_issues rule =
     (if trim_space (r_ID rule) = []
      then [\<lparr>vi_File = r_SourceFile rule, vi_RuleID = [], vi_Message = ''missing id''\<rparr>] else []) @
     (if length (r_unknown rule) > 0
      then [rule_issue rule ''rule contains unsupported fields and was rejected''] else []) @
     (if trim_space (r_Name rule) = [] then [rule_issue rule ''missing name''] else []) @
     (if trim_space (r_Pattern rule) = [] then [rule_issue rule ''missing pattern''] else []) @
     (if trim_space (r_Category rule) = [] then [rule_issue rule ''missing category''] else []) @
     (if \<not> validRuleType (r_Type rule) then [rule_issue rule (''invalid type '' @ quote (r_Type rule))] else []) @
     (if \<not> validSeverity (r_Severity rule)
      then [rule_issue rule (''invalid severity '' @ quote (r_Severity rule))] else []) @
     (if \<not> validConfidence (r_Confidence rule)
      then [rule_issue rule (''invalid confidence '' @ quote (r_Confidence rule))] else []) @
     (if \<not> validAction (r_Action rule)
      then [rule_issue rule (''invalid action '' @ quote (r_Action rule))] else []) @
     (if r_MaxFileSize rule < 0 then [rule_issue rule ''max_file_size cannot be negative''] else []) @
     (if list_ex (\<lambda>ext. trim_space ext = []) (r_FileExtensions rule)
      then [rule_issue rule ''file_extensions cannot contain empty values''] else [])"

text \<open>\<open>validateRule\<close> returns the issues and the rule, whose compiled expression it sets.\<close>

definition validateRule :: "regex_engine \<Rightarrow> Rule \<Rightarrow> ValidationIssue list \<times> Rule" where
  "validateRule re rule =
     (let issues = field_issues rule
      in if length issues > 0 then (issues, rule)
         else
           let expr = rule_expr rule
           in case rx_error re expr of
                Some err \<Rightarrow>
                  ([rule_issue rule (''bad regex pattern '' @ quote (r_Pattern rule) @ '': '' @ err)], rule)
              | None \<Rightarrow> ([], rule\<lparr>r_compiled := Some expr\<rparr>))"

type_synonym validation = "Rule list \<times> ValidationIssue list \<times> (string \<rightharpoonup> string)"

definition validate_step :: "regex_engine \<Rightarrow> validation \<Rightarrow> Rule \<Rightarrow> validation" where
  "validate_step re acc rule = (case acc of (validRules, issues, seen) \<Rightarrow>
     (case validateRule re rule of (ruleIssues, ruleCopy) \<Rightarrow>
        if length ruleIssues > 0 then (validRules, issues @ ruleIssues, seen)
        else
          case seen (r_ID ruleCopy) of
            Some firstFile \<Rightarrow>
              (validRules,
               issues @ [\<lparr>vi_File = r_SourceFile ruleCopy, vi_RuleID = r_ID ruleCopy,
                          vi_Message = ''duplicate id already loaded from '' @ firstFile\<rparr>], seen)
          | None \<Rightarrow>
              (validRules @ [ruleCopy], issues, seen(r_ID ruleCopy \<mapsto> r_SourceFile ruleCopy))))"

definition validate_file :: "regex_engine \<Rightarrow> validation \<Rightarrow> RuleFile \<Rightarrow> validation" where
  "validate_file re acc ruleFile =
     (if rf_Version ruleFile \<noteq> 1 then
        (case acc of (validRules, issues, seen) \<Rightarrow>
           (validRules,
            issues @ [\<lparr>vi_File = rf_SourceFile ruleFile, vi_RuleID = [],
                       vi_Message = ''unsupported version '' @ itoa (rf_Version ruleFile)\<rparr>], seen))
      else foldl (validate_step re) acc (rf_Rules ruleFile))"

definition ValidateRuleFiles :: "regex_engine \<Rightarrow> RuleFile list \<Rightarrow> Rule list \<times> ValidationIssue list" where
  "ValidateRuleFiles re files =
     (case foldl (validate_file re) ([], [], Map.empty) files of (validRules, issues, seen) \<Rightarrow>
        (validRules, issues))"

subsection \<open>The loader\<close>

text \<open>
  A YAML node: whether it is a mapping, the values of its children (keys and values alternate),
  and for a rule node what decoding it into a given rule yields.
\<close>

record yaml_node =
  yn_mapping :: bool
  yn_content :: "string list"

record rule_node =
  rn_node :: yaml_node
  rn_decode :: "Rule \<Rightarrow> string + Rule"

record raw_file =
  raw_Version :: int
  raw_Name :: string
  raw_Description :: string
  raw_Rules :: "rule_node list"

datatype rule_document =
    ReadError string
  | ParseError string
  | EmptyDocument
  | Document yaml_node "string + raw_file"

definition topLevelKeys :: "string list" where
  "topLevelKeys = [''version'', ''name'', ''description'', ''rules'']"

definition ruleKeys :: "string list" where
  "ruleKeys = [''id'', ''name'', ''description'', ''type'', ''pattern'', ''case_sensitive'', ''severity'',
     ''confidence'', ''explanation'', ''remediation'', ''tags'', ''category'', ''enabled'',
     ''include_paths'', ''exclude_paths'', ''file_extensions'', ''max_file_size'', ''action'']"

fun unknown_pairs :: "string list \<Rightarrow> string list \<Rightarrow> string list" where
  "unknown_pairs allowed (k # v # rest) =
     (if k \<in> set allowed then unknown_pairs allowed rest else k # unknown_pairs allowed rest)"
| "unknown_pairs allowed _ = []"

definition unknownKeys :: "yaml_node \<Rightarrow> string list \<Rightarrow> string list" where
  "unknownKeys node allowed = (if \<not> yn_mapping node then [] else unknown_pairs allowed (yn_content node))"

definition warnUnknownKeys :: "string \<Rightarrow> string \<Rightarrow> yaml_node \<Rightarrow> string list \<Rightarrow> ValidationIssue list" where
  "warnUnknownKeys path ruleID node allowed =
     map (\<lambda>field. \<lparr>vi_File = path, vi_RuleID = ruleID,
        vi_Message = ''unsupported field '' @ quote field\<rparr>) (unknownKeys node allowed)"

definition default_rule :: "string \<Rightarrow> int \<Rightarrow> Rule" where
  "default_rule path idx =
     \<lparr>r_ID = [], r_Name = [], r_Description = [], r_Type = [], r_Pattern = [], r_CaseSensitive = False,
      r_Severity = ''medium'', r_Confidence = [], r_Explanation = [], r_Remediation = [], r_Tags = [],
      r_Category = [], r_Enabled = True, r_IncludePaths = [], r_ExcludePaths = [], r_FileExtensions = [],
      r_MaxFileSize = 0, r_Action = ActionReport, r_SourceFile = path, r_FileName = path_base path,
      r_index = idx, r_unknown = [], r_compiled = None\<rparr>"

fun load_rules :: "string \<Rightarrow> int \<Rightarrow> rule_node list \<Rightarrow> Rule list \<times> ValidationIssue list" where
  "load_rules path idx [] = ([], [])"
| "load_rules path idx (node # nodes) =
     (let unknownFields = unknownKeys (rn_node node) ruleKeys;
          ruleIssues = map (\<lambda>field. \<lparr>vi_File = path, vi_RuleID = [],
             vi_Message = ''unsupported field '' @ quote field\<rparr>) unknownFields
      in case load_rules path (idx + 1) nodes of (rules, issues) \<Rightarrow>
           (case rn_decode node (default_rule path idx) of
              Inl err \<Rightarrow>
                (rules, ruleIssues @ [\<lparr>vi_File = path, vi_RuleID = [],
                   vi_Message = ''decode rule at index '' @ itoa idx @ '': '' @ err\<rparr>] @ issues)
            | Inr rule \<Rightarrow>
                (rule\<lparr>r_SourceFile := path, r_FileName := path_base path, r_index := idx,
                      r_unknown := unknownFields\<rparr> # rules, ruleIssues @ issues)))"

text \<open>\<open>loadRuleFile\<close>: the file or an error, and in both cases the issues.\<close>

definition loadRuleFile :: "string \<Rightarrow> rule_document \<Rightarrow> (string + RuleFile) \<times> ValidationIssue list" where
  "loadRuleFile path data =
     (case data of
       ReadError err \<Rightarrow> (Inl (''read file: '' @ err), [])
     | ParseError err \<Rightarrow> (Inl (''parse yaml: '' @ err), [])
     | EmptyDocument \<Rightarrow> (Inl ''empty yaml document'', [])
     | Document doc decoded \<Rightarrow>
         let issues = warnUnknownKeys path [] doc topLevelKeys
         in case decoded of
              Inl err \<Rightarrow> (Inl (''decode rule file: '' @ err), issues)
            | Inr raw \<Rightarrow>
                (case load_rules path 0 (raw_Rules raw) of (rules, ruleIssues) \<Rightarrow>
                   (Inr \<lparr>rf_Version = (if raw_Version raw = 0 then 1 else raw_Version raw),
                         rf_Name = raw_Name raw, rf_Description = raw_Description raw,
                         rf_Rules = rules, rf_SourceFile = path\<rparr>, issues @ ruleIssues)))"

text \<open>What the file system answers for a root: \<open>os.Stat\<close>, and the entries of the walk.\<close>

datatype walk_entry = WalkError string | WalkDirectory string | WalkFile string rule_document

datatype root_status = RootMissing | RootStatError string | RootNotDirectory | RootDirectory "walk_entry list"

type_synonym load_acc = "RuleFile list \<times> ValidationIssue list"

definition load_entry :: "string \<Rightarrow> load_acc \<Rightarrow> walk_entry \<Rightarrow> load_acc" where
  "load_entry root acc entry = (case acc of (files, issues) \<Rightarrow>
     (case entry of
        WalkError err \<Rightarrow> (files, issues @ [\<lparr>vi_File = root, vi_RuleID = [], vi_Message = err\<rparr>])
      | WalkDirectory path \<Rightarrow> (files, issues)
      | WalkFile path data \<Rightarrow>
          let ext = to_lower (path_ext path)
          in if ext \<noteq> ''.yml'' \<and> ext \<noteq> ''.yaml'' then (files, issues)
             else
               case loadRuleFile path data of
                 (Inl err, fileIssues) \<Rightarrow>
                   (files, issues @ fileIssues @ [\<lparr>vi_File = path, vi_RuleID = [], vi_Message = err\<rparr>])
               | (Inr ruleFile, fileIssues) \<Rightarrow> (files @ [ruleFile], issues @ fileIssues)))"

fun load_roots :: "(string \<Rightarrow> root_status) \<Rightarrow> load_acc \<Rightarrow> string list \<Rightarrow> string + load_acc" where
  "load_roots stat acc [] = Inr acc"
| "load_roots stat acc (root # roots) =
     (if trim_space root = [] then load_roots stat acc roots
      else
        case stat root of
          RootMissing \<Rightarrow> load_roots stat acc roots
        | RootStatError err \<Rightarrow> Inl (''stat '' @ root @ '': '' @ err)
        | RootNotDirectory \<Rightarrow> Inl (root @ '' is not a directory'')
        | RootDirectory entries \<Rightarrow> load_roots stat (foldl (load_entry root) acc entries) roots)"

definition rule_file_less :: "RuleFile \<Rightarrow> RuleFile \<Rightarrow> bool" where
  "rule_file_less a b \<longleftrightarrow> rf_SourceFile a < rf_SourceFile b"

definition LoadRuleFiles ::
  "(string \<Rightarrow> root_status) \<Rightarrow> string list \<Rightarrow> string + RuleFile list \<times> ValidationIssue list" where
  "LoadRuleFiles stat paths =
     (case load_roots stat ([], []) paths of
        Inl err \<Rightarrow> Inl err
      | Inr (files, issues) \<Rightarrow> Inr (slice_sort rule_file_less files, issues))"

interpretation rule_files: key_order rule_file_less rf_SourceFile
  by unfold_locales (simp add: rule_file_less_def)

subsection \<open>What the validator accepts\<close>

definition accepts :: "regex_engine \<Rightarrow> Rule \<Rightarrow> bool" where
  "accepts re rule \<longleftrightarrow> fst (validateRule re rule) = []"

definition well_formed_rule :: "regex_engine \<Rightarrow> Rule \<Rightarrow> bool" where
  "well_formed_rule re rule \<longleftrightarrow>
     trim_space (r_ID rule) \<noteq> [] \<and> r_unknown rule = [] \<and> trim_space (r_Name rule) \<noteq> [] \<and>
     trim_space (r_Pattern rule) \<noteq> [] \<and> trim_space (r_Category rule) \<noteq> [] \<and>
     validRuleType (r_Type rule) \<and> validSeverity (r_Severity rule) \<and>
     validConfidence (r_Confidence rule) \<and> validAction (r_Action rule) \<and> 0 \<le> r_MaxFileSize rule \<and>
     (\<forall>ext \<in> set (r_FileExtensions rule). trim_space ext \<noteq> []) \<and>
     rx_error re (rule_expr rule) = None"

lemma field_issues_Nil:
  "field_issues rule = [] \<longleftrightarrow>
     trim_space (r_ID rule) \<noteq> [] \<and> r_unknown rule = [] \<and> trim_space (r_Name rule) \<noteq> [] \<and>
     trim_space (r_Pattern rule) \<noteq> [] \<and> trim_space (r_Category rule) \<noteq> [] \<and>
     validRuleType (r_Type rule) \<and> validSeverity (r_Severity rule) \<and>
     validConfidence (r_Confidence rule) \<and> validAction (r_Action rule) \<and> 0 \<le> r_MaxFileSize rule \<and>
     (\<forall>ext \<in> set (r_FileExtensions rule). trim_space ext \<noteq> [])"
  by (simp add: field_issues_def list_ex_iff not_less del: append_assoc)

lemma accepts_iff: "accepts re rule \<longleftrightarrow> well_formed_rule re rule"
  by (simp add: accepts_def well_formed_rule_def validateRule_def field_issues_Nil Let_def split: option.splits)

lemma validateRule_accepted:
  "accepts re rule \<Longrightarrow> validateRule re rule = ([], rule\<lparr>r_compiled := Some (rule_expr rule)\<rparr>)"
  by (auto simp: accepts_def validateRule_def Let_def split: option.splits if_splits)

lemma field_issues_file: "vi \<in> set (field_issues rule) \<Longrightarrow> vi_File vi = r_SourceFile rule"
  by (auto simp: field_issues_def rule_issue_def split: if_splits)

lemma validateRule_rejected:
  "\<not> accepts re rule \<Longrightarrow> fst (validateRule re rule) \<noteq> [] \<and>
     (\<forall>vi \<in> set (fst (validateRule re rule)). vi_File vi = r_SourceFile rule)"
  using field_issues_file
  by (auto simp: accepts_def validateRule_def Let_def rule_issue_def split: option.splits)

subsection \<open>The rules of the accepted files, first id first\<close>

fun first_ids :: "string set \<Rightarrow> Rule list \<Rightarrow> Rule list" where
  "first_ids seen [] = []"
| "first_ids seen (r # rs) =
     (if r_ID r \<in> seen then first_ids seen rs else r # first_ids (insert (r_ID r) seen) rs)"

definition candidate_rules :: "regex_engine \<Rightarrow> RuleFile list \<Rightarrow> Rule list" where
  "candidate_rules re files =
     filter (accepts re) (concat (map rf_Rules (filter (\<lambda>f. rf_Version f = 1) files)))"

definition compiled_rule :: "Rule \<Rightarrow> Rule" where
  "compiled_rule rule = rule\<lparr>r_compiled := Some (rule_expr rule)\<rparr>"

lemma compiled_ID [simp]: "r_ID (compiled_rule r) = r_ID r"
  by (simp add: compiled_rule_def)

lemma first_ids_ids: "r_ID ` set (first_ids seen rs) = r_ID ` set rs - seen"
  by (induction rs arbitrary: seen) auto

lemma first_ids_distinct: "distinct (map r_ID (first_ids seen rs))"
proof (induction rs arbitrary: seen)
  case (Cons r rs)
  then show ?case using first_ids_ids [of "insert (r_ID r) seen" rs] by auto
qed simp

lemma first_ids_subset: "set (first_ids seen rs) \<subseteq> set rs"
  by (induction rs arbitrary: seen) auto

lemma first_ids_append:
  "first_ids seen (rs @ rs') = first_ids seen rs @ first_ids (seen \<union> r_ID ` set rs) rs'"
  by (induction rs arbitrary: seen) (auto simp: insert_absorb)

lemma validate_step_cases:
  "validate_step re (v, i, seen) rule =
     (if \<not> accepts re rule then (v, i @ fst (validateRule re rule), seen)
      else case seen (r_ID rule) of
             Some f \<Rightarrow> (v, i @ [\<lparr>vi_File = r_SourceFile rule, vi_RuleID = r_ID rule,
                vi_Message = ''duplicate id already loaded from '' @ f\<rparr>], seen)
           | None \<Rightarrow> (v @ [compiled_rule rule], i, seen(r_ID rule \<mapsto> r_SourceFile rule)))"
  by (auto simp: validate_step_def compiled_rule_def validateRule_accepted accepts_def
      split: prod.splits option.splits)

lemma fold_validate_step:
  "\<exists>i' seen'. foldl (validate_step re) (v, i, seen) rs =
      (v @ map compiled_rule (first_ids (dom seen) (filter (accepts re) rs)), i @ i', seen')
    \<and> dom seen' = dom seen \<union> r_ID ` set (filter (accepts re) rs)
    \<and> (\<forall>r \<in> set rs. \<not> accepts re r \<longrightarrow> (\<exists>vi \<in> set i'. vi_File vi = r_SourceFile r))"
proof (induction rs arbitrary: v i seen)
  case (Cons r rs)
  obtain v1 i1 seen1 where s: "validate_step re (v, i, seen) r = (v1, i1, seen1)" by (metis prod_cases3)
  obtain i' seen' where f: "foldl (validate_step re) (v1, i1, seen1) rs =
      (v1 @ map compiled_rule (first_ids (dom seen1) (filter (accepts re) rs)), i1 @ i', seen')"
    "dom seen' = dom seen1 \<union> r_ID ` set (filter (accepts re) rs)"
    "\<forall>r \<in> set rs. \<not> accepts re r \<longrightarrow> (\<exists>vi \<in> set i'. vi_File vi = r_SourceFile r)"
    using Cons.IH by metis
  consider (rejected) "\<not> accepts re r" | (dup) "accepts re r" "r_ID r \<in> dom seen"
    | (new) "accepts re r" "seen (r_ID r) = None" by blast
  then show ?case
  proof cases
    case rejected
    obtain vi where "vi \<in> set (fst (validateRule re r))" "vi_File vi = r_SourceFile r"
      using validateRule_rejected [OF rejected] by (metis list.set_intros(1) neq_Nil_conv)
    with rejected s f show ?thesis
      by (intro exI [of _ "fst (validateRule re r) @ i'"] exI [of _ seen'])
        (auto simp: validate_step_cases)
  next
    case dup
    with s f show ?thesis by (auto simp: validate_step_cases insert_absorb)
  next
    case new
    with s f show ?thesis by (auto simp: validate_step_cases domIff)
  qed
qed simp

lemma validate_file_v1: "rf_Version f = 1 \<Longrightarrow> validate_file re acc f = foldl (validate_step re) acc (rf_Rules f)"
  by (simp add: validate_file_def)

lemma validate_file_other:
  "rf_Version f \<noteq> 1 \<Longrightarrow> validate_file re (v, i, seen) f =
     (v, i @ [\<lparr>vi_File = rf_SourceFile f, vi_RuleID = [],
        vi_Message = ''unsupported version '' @ itoa (rf_Version f)\<rparr>], seen)"
  by (simp add: validate_file_def)

lemma fold_validate_file:
  "\<exists>i' seen'. foldl (validate_file re) (v, i, seen) fs =
      (v @ map compiled_rule (first_ids (dom seen) (candidate_rules re fs)), i @ i', seen')
    \<and> (\<forall>f \<in> set fs. rf_Version f \<noteq> 1 \<longrightarrow> (\<exists>vi \<in> set i'. vi_File vi = rf_SourceFile f))
    \<and> (\<forall>f \<in> set fs. rf_Version f = 1 \<longrightarrow> (\<forall>r \<in> set (rf_Rules f). \<not> accepts re r \<longrightarrow>
         (\<exists>vi \<in> set i'. vi_File vi = r_SourceFile r)))"
proof (induction fs arbitrary: v i seen)
  case (Cons f fs)
  show ?case
  proof (cases "rf_Version f = 1")
    case True
    obtain i1 seen1 where one: "foldl (validate_step re) (v, i, seen) (rf_Rules f) =
        (v @ map compiled_rule (first_ids (dom seen) (filter (accepts re) (rf_Rules f))), i @ i1, seen1)"
      "dom seen1 = dom seen \<union> r_ID ` set (filter (accepts re) (rf_Rules f))"
      "\<forall>r \<in> set (rf_Rules f). \<not> accepts re r \<longrightarrow> (\<exists>vi \<in> set i1. vi_File vi = r_SourceFile r)"
      using fold_validate_step by metis
    from Cons.IH [of "v @ map compiled_rule (first_ids (dom seen) (filter (accepts re) (rf_Rules f)))"
        "i @ i1" seen1]
    obtain i2 seen2 where two: "foldl (validate_file re)
        (v @ map compiled_rule (first_ids (dom seen) (filter (accepts re) (rf_Rules f))), i @ i1, seen1) fs =
        ((v @ map compiled_rule (first_ids (dom seen) (filter (accepts re) (rf_Rules f))))
           @ map compiled_rule (first_ids (dom seen1) (candidate_rules re fs)), (i @ i1) @ i2, seen2)"
      "\<forall>f \<in> set fs. rf_Version f \<noteq> 1 \<longrightarrow> (\<exists>vi \<in> set i2. vi_File vi = rf_SourceFile f)"
      "\<forall>f \<in> set fs. rf_Version f = 1 \<longrightarrow> (\<forall>r \<in> set (rf_Rules f). \<not> accepts re r \<longrightarrow>
         (\<exists>vi \<in> set i2. vi_File vi = r_SourceFile r))"
      by blast
    have c: "candidate_rules re (f # fs) = filter (accepts re) (rf_Rules f) @ candidate_rules re fs"
      using True by (simp add: candidate_rules_def)
    show ?thesis
    proof (intro exI conjI)
      show "foldl (validate_file re) (v, i, seen) (f # fs) =
          (v @ map compiled_rule (first_ids (dom seen) (candidate_rules re (f # fs))), i @ (i1 @ i2), seen2)"
        by (simp add: c validate_file_v1 [OF True] one(1,2) two(1) first_ids_append)
      show "\<forall>f \<in> set (f # fs). rf_Version f \<noteq> 1 \<longrightarrow> (\<exists>vi \<in> set (i1 @ i2). vi_File vi = rf_SourceFile f)"
        using two(2) True by auto
      show "\<forall>f \<in> set (f # fs). rf_Version f = 1 \<longrightarrow> (\<forall>r \<in> set (rf_Rules f). \<not> accepts re r \<longrightarrow>
          (\<exists>vi \<in> set (i1 @ i2). vi_File vi = r_SourceFile r))"
      proof (intro ballI impI)
        fix f' r
        assume a: "f' \<in> set (f # fs)" "rf_Version f' = 1" "r \<in> set (rf_Rules f')" "\<not> accepts re r"
        show "\<exists>vi \<in> set (i1 @ i2). vi_File vi = r_SourceFile r"
        proof (cases "f' = f")
          case True
          with a one(3) show ?thesis by auto
        next
          case False
          with a two(3) show ?thesis by auto
        qed
      qed
    qed
  next
    case False
    then have "candidate_rules re (f # fs) = candidate_rules re fs" by (simp add: candidate_rules_def)
    moreover obtain i2 seen2 where "foldl (validate_file re)
        (v, i @ [\<lparr>vi_File = rf_SourceFile f, vi_RuleID = [],
           vi_Message = ''unsupported version '' @ itoa (rf_Version f)\<rparr>], seen) fs =
        (v @ map compiled_rule (first_ids (dom seen) (candidate_rules re fs)),
         (i @ [\<lparr>vi_File = rf_SourceFile f, vi_RuleID = [],
           vi_Message = ''unsupported version '' @ itoa (rf_Version f)\<rparr>]) @ i2, seen2)"
      "\<forall>f \<in> set fs. rf_Version f \<noteq> 1 \<longrightarrow> (\<exists>vi \<in> set i2. vi_File vi = rf_SourceFile f)"
      "\<forall>f \<in> set fs. rf_Version f = 1 \<longrightarrow> (\<forall>r \<in> set (rf_Rules f). \<not> accepts re r \<longrightarrow>
         (\<exists>vi \<in> set i2. vi_File vi = r_SourceFile r))"
      using Cons.IH by metis
    ultimately show ?thesis
      using False
      by (intro exI [of _ "[\<lparr>vi_File = rf_SourceFile f, vi_RuleID = [],
           vi_Message = ''unsupported version '' @ itoa (rf_Version f)\<rparr>] @ i2"] exI [of _ seen2])
        (auto simp: validate_file_other)
  qed
qed (simp add: candidate_rules_def)

text \<open>
  C31: The validated rules are the well-formed rules of the files of version 1, in order, the
  first of every id, each compiled; so no two have the same id. Every file of another version and
  every rule that is not well formed is reported with its file.
\<close>

theorem ValidateRuleFiles_exact:
  "case ValidateRuleFiles re files of (valid, issues) \<Rightarrow>
     valid = map compiled_rule (first_ids {} (candidate_rules re files)) \<and>
     distinct (map r_ID valid) \<and>
     (\<forall>f \<in> set files. rf_Version f \<noteq> 1 \<longrightarrow> (\<exists>vi \<in> set issues. vi_File vi = rf_SourceFile f)) \<and>
     (\<forall>f \<in> set files. rf_Version f = 1 \<longrightarrow> (\<forall>r \<in> set (rf_Rules f).
        if well_formed_rule re r then \<exists>r' \<in> set valid. r_ID r' = r_ID r
        else \<exists>vi \<in> set issues. vi_File vi = r_SourceFile r))"
proof -
  obtain i s where f: "foldl (validate_file re) ([], [], Map.empty) files =
      (map compiled_rule (first_ids {} (candidate_rules re files)), i, s)"
    and v: "\<forall>f \<in> set files. rf_Version f \<noteq> 1 \<longrightarrow> (\<exists>vi \<in> set i. vi_File vi = rf_SourceFile f)"
    and r: "\<forall>f \<in> set files. rf_Version f = 1 \<longrightarrow> (\<forall>r \<in> set (rf_Rules f). \<not> accepts re r \<longrightarrow>
         (\<exists>vi \<in> set i. vi_File vi = r_SourceFile r))"
    using fold_validate_file [of re "[]" "[]" Map.empty files] by auto
  have e: "ValidateRuleFiles re files = (map compiled_rule (first_ids {} (candidate_rules re files)), i)"
    by (simp add: ValidateRuleFiles_def f)
  have d: "distinct (map r_ID (map compiled_rule (first_ids {} (candidate_rules re files))))"
    using first_ids_distinct by (simp add: comp_def)
  have k: "\<exists>r' \<in> set (map compiled_rule (first_ids {} (candidate_rules re files))). r_ID r' = r_ID r"
    if "f \<in> set files" "rf_Version f = 1" "r \<in> set (rf_Rules f)" "accepts re r" for f r
  proof -
    have "r \<in> set (candidate_rules re files)" using that by (auto simp: candidate_rules_def)
    then have "r_ID r \<in> r_ID ` set (first_ids {} (candidate_rules re files))" by (simp add: first_ids_ids)
    then show ?thesis by force
  qed
  show ?thesis unfolding e using d v r k by (auto simp: accepts_iff)
qed

lemma ValidateRuleFiles_valid:
  "fst (ValidateRuleFiles re files) = map compiled_rule (first_ids {} (candidate_rules re files))"
  using fold_validate_file [of re "[]" "[]" Map.empty files]
  by (auto simp: ValidateRuleFiles_def split: prod.splits)

definition demo_engine :: regex_engine where
  "demo_engine = \<lparr>rx_error = (\<lambda>e. if contains e ''('' \<and> \<not> contains e '')'' then Some ''missing )'' else None),
     rx_all_index = (\<lambda>e s. let p = trim_prefix e ''(?i)'' in if has_prefix s p then [(0, length p)] else [])\<rparr>"

definition demo_rule :: "string \<Rightarrow> string \<Rightarrow> string \<Rightarrow> Rule" where
  "demo_rule i p file = (default_rule file 0)\<lparr>r_ID := i, r_Name := ''n'', r_Pattern := p,
     r_Category := ''credentials'', r_Type := RuleTypeContent\<rparr>"

definition demo_file :: RuleFile where
  "demo_file = \<lparr>rf_Version = 1, rf_Name = [], rf_Description = [],
     rf_Rules = [demo_rule ''a'' ''x'' ''r.yml'', demo_rule ''a'' ''y'' ''r.yml'', demo_rule '' '' ''z'' ''r.yml''],
     rf_SourceFile = ''r.yml''\<rparr>"

theorem ValidateRuleFiles_exact_witness:
  "map r_Pattern (fst (ValidateRuleFiles demo_engine [demo_file])) = [''x''] \<and>
   (\<exists>vi \<in> set (snd (ValidateRuleFiles demo_engine [demo_file])). vi_File vi = ''r.yml'')"
proof -
  have w: "\<not> well_formed_rule demo_engine (demo_rule '' '' ''z'' ''r.yml'')"
    "map r_Pattern (map compiled_rule (first_ids {} (candidate_rules demo_engine [demo_file]))) = [''x'']"
    by code_simp+
  have m: "demo_rule '' '' ''z'' ''r.yml'' \<in> set (rf_Rules demo_file)" "rf_Version demo_file = 1"
    "r_SourceFile (demo_rule '' '' ''z'' ''r.yml'') = ''r.yml''"
    by (simp_all add: demo_file_def) (simp add: demo_rule_def default_rule_def)
  show ?thesis
    using ValidateRuleFiles_exact [of demo_engine "[demo_file]"] w m
    by (auto split: prod.splits)
qed

lemma load_rules_node:
  "load_rules path idx nodes = (rules, issues) \<Longrightarrow> r \<in> set rules \<Longrightarrow>
     \<exists>node \<in> set nodes. \<exists>i dec. rn_decode node (default_rule path i) = Inr dec \<and>
       r = dec\<lparr>r_SourceFile := path, r_FileName := path_base path, r_index := i,
               r_unknown := unknownKeys (rn_node node) ruleKeys\<rparr>"
proof (induction path idx nodes arbitrary: rules issues rule: load_rules.induct)
  case (2 path idx node nodes)
  obtain rules' issues' where "load_rules path (idx + 1) nodes = (rules', issues')" by fastforce
  with 2 show ?case by (fastforce simp: Let_def split: sum.splits)
qed simp

text \<open>
  An accepted rule of a loaded file is what decoding some node of its document over the
  defaults gives, with the file's path, and that node has known fields only: a rule with an
  unsupported field is never accepted.
\<close>

theorem accepted_rule_known_fields:
  assumes "loadRuleFile path data = (Inr f, issues)" and "r \<in> set (fst (ValidateRuleFiles re [f]))"
  shows "\<exists>doc raw node i dec. data = Document doc (Inr raw) \<and> node \<in> set (raw_Rules raw) \<and>
    unknownKeys (rn_node node) ruleKeys = [] \<and> rn_decode node (default_rule path i) = Inr dec \<and>
    r = compiled_rule (dec\<lparr>r_SourceFile := path, r_FileName := path_base path, r_index := i, r_unknown := []\<rparr>)"
proof -
  obtain doc raw where d: "data = Document doc (Inr raw)"
    and f: "rf_Rules f = fst (load_rules path 0 (raw_Rules raw))"
    using assms(1) by (auto simp: loadRuleFile_def Let_def split: rule_document.splits sum.splits prod.splits)
  have "r \<in> compiled_rule ` set (first_ids {} (candidate_rules re [f]))"
    using assms(2) ValidateRuleFiles_valid [of re "[f]"] by simp
  then obtain r0 where r: "r = compiled_rule r0" "r0 \<in> set (candidate_rules re [f])"
    using first_ids_subset by blast
  then have r0: "r0 \<in> set (rf_Rules f)" "r_unknown r0 = []"
    by (auto simp: candidate_rules_def accepts_iff well_formed_rule_def split: if_splits)
  from r0(1) obtain node i dec where "node \<in> set (raw_Rules raw)"
    "rn_decode node (default_rule path i) = Inr dec"
    "r0 = dec\<lparr>r_SourceFile := path, r_FileName := path_base path, r_index := i,
               r_unknown := unknownKeys (rn_node node) ruleKeys\<rparr>"
    using load_rules_node f by (metis prod.collapse)
  with d r(1) r0(2) show ?thesis
    by (intro exI [of _ doc] exI [of _ raw] exI [of _ node] exI [of _ i] exI [of _ dec]) simp
qed

definition demo_document :: rule_document where
  "demo_document = Document \<lparr>yn_mapping = True, yn_content = [''version'', ''1'', ''rules'', []]\<rparr>
     (Inr \<lparr>raw_Version = 0, raw_Name = [], raw_Description = [], raw_Rules =
        [\<lparr>rn_node = \<lparr>yn_mapping = True, yn_content = [''id'', ''a'', ''regex'', ''x'']\<rparr>,
          rn_decode = (\<lambda>r. Inr (demo_rule ''a'' ''x'' ''r.yml''))\<rparr>,
         \<lparr>rn_node = \<lparr>yn_mapping = True, yn_content = [''id'', ''b'', ''pattern'', ''y'']\<rparr>,
          rn_decode = (\<lambda>r. Inr (demo_rule ''b'' ''y'' ''r.yml''))\<rparr>]\<rparr>)"

theorem accepted_rule_known_fields_witness:
  "\<exists>f issues. loadRuleFile ''r.yml'' demo_document = (Inr f, issues) \<and>
     map r_ID (fst (ValidateRuleFiles demo_engine [f])) = [''b''] \<and>
     (\<exists>r \<in> set (fst (ValidateRuleFiles demo_engine [f])). r_SourceFile r = ''r.yml'' \<and> r_unknown r = [])"
proof -
  obtain f issues where l: "loadRuleFile ''r.yml'' demo_document = (Inr f, issues)"
    by (simp add: demo_document_def loadRuleFile_def Let_def split: prod.splits)
  have "map_sum id (\<lambda>f. map r_ID (fst (ValidateRuleFiles demo_engine [f])))
      (fst (loadRuleFile ''r.yml'' demo_document)) = Inr [''b'']" by code_simp
  with l have ids: "map r_ID (fst (ValidateRuleFiles demo_engine [f])) = [''b'']" by simp
  then obtain r where r: "r \<in> set (fst (ValidateRuleFiles demo_engine [f]))" by fastforce
  then have "r_SourceFile r = ''r.yml'' \<and> r_unknown r = []"
    using accepted_rule_known_fields [OF l r] by (auto simp: compiled_rule_def)
  with l ids r show ?thesis by (intro exI [of _ f] exI [of _ issues] conjI bexI [of _ r]) auto
qed

end
