(* ===== verification/RuleManager.thy ===== *)
theory RuleManager
  imports Rules
begin

text \<open>
  The package \<open>internal/rules\<close>, part two: the rule manager (\<open>manager.go\<close>). A reload filters the
  validated rules by the options, sorts them into buckets by type and action, and the scanner asks
  it which rules exclude or match a candidate. The slices of a rule are shared by its copies:
  \<open>normalizeRule\<close> writes the normalised extensions through that slice, so the copies of the rule
  that the manager keeps in \<open>files\<close> and \<open>allRules\<close> see them as well.
\<close>

record ManagerOptions =
  mo_EnabledRuleIDs :: "string list"
  mo_DisabledRuleIDs :: "string list"
  mo_IncludeTags :: "string list"
  mo_ExcludeTags :: "string list"
  mo_MinSeverity :: string

record RuleManager =
  rm_paths :: "string list"
  rm_opts :: ManagerOptions
  rm_files :: "RuleFile list"
  rm_allRules :: "Rule list"
  rm_enabledRules :: "Rule list"
  rm_issues :: "ValidationIssue list"
  rm_contentRules :: "Rule list"
  rm_filenameRules :: "Rule list"
  rm_extensionRules :: "Rule list"
  rm_skipRules :: "Rule list"

subsection \<open>The filter\<close>

definition containsString :: "string list \<Rightarrow> string \<Rightarrow> bool" where
  "containsString items target = list_ex (\<lambda>item. item = target) items"

definition intersects :: "string list \<Rightarrow> string list \<Rightarrow> bool" where
  "intersects left right = list_ex (\<lambda>l. list_ex (\<lambda>r. equal_fold l r) right) left"

definition tagsAllowed :: "string list \<Rightarrow> string list \<Rightarrow> string list \<Rightarrow> bool" where
  "tagsAllowed ruleTags includeTags excludeTags =
     (if intersects ruleTags excludeTags then False
      else if length includeTags = 0 then True
      else intersects ruleTags includeTags)"

definition severityRank :: "string \<Rightarrow> int" where
  "severityRank severity =
     (if severity = ''info'' then 0
      else if severity = ''low'' then 1
      else if severity = ''medium'' then 2
      else if severity = ''high'' then 3
      else if severity = ''critical'' then 4
      else -1)"

definition meetsMinSeverity :: "Rule \<Rightarrow> string \<Rightarrow> bool" where
  "meetsMinSeverity rule minimum =
     (if minimum = [] \<or> r_Action rule = ActionSkip then True
      else severityRank (r_Severity rule) \<ge> severityRank minimum)"

definition normalizeRule :: "Rule \<Rightarrow> Rule" where
  "normalizeRule rule =
     rule\<lparr>r_SourceFile := path_clean (r_SourceFile rule),
          r_FileExtensions := map normalizeExtension (r_FileExtensions rule)\<rparr>"

fun filterEnabledRules :: "Rule list \<Rightarrow> ManagerOptions \<Rightarrow> Rule list" where
  "filterEnabledRules [] opts = []"
| "filterEnabledRules (rule # rules) opts =
     (if containsString (mo_DisabledRuleIDs opts) (r_ID rule) then filterEnabledRules rules opts
      else if \<not> r_Enabled rule \<and> \<not> containsString (mo_EnabledRuleIDs opts) (r_ID rule)
      then filterEnabledRules rules opts
      else if \<not> tagsAllowed (r_Tags rule) (mo_IncludeTags opts) (mo_ExcludeTags opts)
      then filterEnabledRules rules opts
      else if \<not> meetsMinSeverity rule (mo_MinSeverity opts) then filterEnabledRules rules opts
      else normalizeRule rule # filterEnabledRules rules opts)"

subsection \<open>Reload\<close>

text \<open>
  What the shared slices look like after the filter has run: the rules it enabled have their
  extensions normalised in place.
\<close>

definition shared_write :: "ManagerOptions \<Rightarrow> Rule \<Rightarrow> Rule" where
  "shared_write opts rule =
     (if filterEnabledRules [rule] opts = [] then rule
      else rule\<lparr>r_FileExtensions := map normalizeExtension (r_FileExtensions rule)\<rparr>)"

fun shared_rules ::
  "regex_engine \<Rightarrow> ManagerOptions \<Rightarrow> string list \<Rightarrow> Rule list \<Rightarrow> Rule list \<times> string list" where
  "shared_rules re opts seen [] = ([], seen)"
| "shared_rules re opts seen (rule # rules) =
     (if fst (validateRule re rule) \<noteq> [] \<or> r_ID rule \<in> set seen
      then (case shared_rules re opts seen rules of (rs, seen') \<Rightarrow> (rule # rs, seen'))
      else (case shared_rules re opts (r_ID rule # seen) rules of (rs, seen') \<Rightarrow>
              (shared_write opts rule # rs, seen')))"

fun shared_files :: "regex_engine \<Rightarrow> ManagerOptions \<Rightarrow> string list \<Rightarrow> RuleFile list \<Rightarrow> RuleFile list" where
  "shared_files re opts seen [] = []"
| "shared_files re opts seen (f # fs) =
     (if rf_Version f \<noteq> 1 then f # shared_files re opts seen fs
      else case shared_rules re opts seen (rf_Rules f) of (rs, seen') \<Rightarrow>
             f\<lparr>rf_Rules := rs\<rparr> # shared_files re opts seen' fs)"

definition bucket_step :: "RuleManager \<Rightarrow> Rule \<Rightarrow> RuleManager" where
  "bucket_step m rule =
     (let m1 = (if r_Type rule = RuleTypeContent then m\<lparr>rm_contentRules := rm_contentRules m @ [rule]\<rparr>
                else if r_Type rule = RuleTypeFilename then m\<lparr>rm_filenameRules := rm_filenameRules m @ [rule]\<rparr>
                else if r_Type rule = RuleTypeExtension then m\<lparr>rm_extensionRules := rm_extensionRules m @ [rule]\<rparr>
                else m)
      in if r_Action rule = ActionSkip then m1\<lparr>rm_skipRules := rm_skipRules m1 @ [rule]\<rparr> else m1)"

text \<open>\<open>Reload\<close>: an error leaves the manager as it is.\<close>

definition Reload ::
  "regex_engine \<Rightarrow> (string \<Rightarrow> root_status) \<Rightarrow> RuleManager \<Rightarrow>
     (string + ValidationIssue list) \<times> RuleManager" where
  "Reload re stat m =
     (case LoadRuleFiles stat (rm_paths m) of
        Inl err \<Rightarrow> (Inl err, m)
      | Inr (files, loadIssues) \<Rightarrow>
          (case ValidateRuleFiles re files of (validRules, validationIssues) \<Rightarrow>
             let issues = loadIssues @ validationIssues;
                 enabledRules = filterEnabledRules validRules (rm_opts m);
                 m1 = m\<lparr>rm_files := shared_files re (rm_opts m) [] files,
                        rm_allRules := map (shared_write (rm_opts m)) validRules,
                        rm_enabledRules := enabledRules,
                        rm_issues := issues,
                        rm_contentRules := [], rm_filenameRules := [],
                        rm_extensionRules := [], rm_skipRules := []\<rparr>
             in (Inr issues, foldl bucket_step m1 enabledRules)))"

definition empty_manager :: "string list \<Rightarrow> ManagerOptions \<Rightarrow> RuleManager" where
  "empty_manager paths opts =
     \<lparr>rm_paths = paths, rm_opts = opts, rm_files = [], rm_allRules = [], rm_enabledRules = [],
      rm_issues = [], rm_contentRules = [], rm_filenameRules = [], rm_extensionRules = [], rm_skipRules = []\<rparr>"

datatype load_failure = LoadFailed string | InvalidRules "ValidationIssue list"

text \<open>\<open>LoadManager\<close>: the manager or the failure, and in both cases the issues it reports.\<close>

definition LoadManager ::
  "regex_engine \<Rightarrow> (string \<Rightarrow> root_status) \<Rightarrow> string list \<Rightarrow> bool \<Rightarrow> ManagerOptions \<Rightarrow>
     (load_failure + RuleManager) \<times> ValidationIssue list" where
  "LoadManager re stat paths failOnInvalid opts =
     (case Reload re stat (empty_manager paths opts) of
        (Inl err, m) \<Rightarrow> (Inl (LoadFailed err), [])
      | (Inr issues, m) \<Rightarrow>
          if failOnInvalid \<and> length issues > 0 then (Inl (InvalidRules issues), issues)
          else (Inr m, issues))"

definition Validate :: "RuleManager \<Rightarrow> ValidationIssue list" where "Validate m = rm_issues m"
definition RuleFiles :: "RuleManager \<Rightarrow> RuleFile list" where "RuleFiles m = rm_files m"
definition ManagerRules :: "RuleManager \<Rightarrow> Rule list" where "ManagerRules m = rm_allRules m"
definition EnabledRules :: "RuleManager \<Rightarrow> Rule list" where "EnabledRules m = rm_enabledRules m"

definition RulesByType :: "RuleManager \<Rightarrow> string \<Rightarrow> Rule list" where
  "RulesByType m ruleType =
     (if ruleType = RuleTypeContent then rm_contentRules m
      else if ruleType = RuleTypeFilename then rm_filenameRules m
      else if ruleType = RuleTypeExtension then rm_extensionRules m
      else [])"

subsection \<open>Matching\<close>

definition matchExtensionList :: "string \<Rightarrow> string list \<Rightarrow> bool" where
  "matchExtensionList candidateExt ruleExts =
     (let normalized = normalizeExtension candidateExt
      in list_ex (\<lambda>ext. normalized = normalizeExtension ext) ruleExts)"

definition path_containsAny :: "string \<Rightarrow> string list \<Rightarrow> bool" where
  "path_containsAny value0 patterns =
     (let value = to_lower (NormalizePath value0)
      in list_ex (\<lambda>pattern. contains value (to_lower (to_slash pattern))) patterns)"

definition ruleEligible :: "Rule \<Rightarrow> Candidate \<Rightarrow> bool" where
  "ruleEligible rule candidate =
     (if r_MaxFileSize rule > 0 \<and> c_Size candidate > r_MaxFileSize rule then False
      else if length (r_FileExtensions rule) > 0 \<and>
              \<not> matchExtensionList (c_Extension candidate) (r_FileExtensions rule) then False
      else if length (r_IncludePaths rule) > 0 \<and>
              \<not> path_containsAny (c_Path candidate) (r_IncludePaths rule) then False
      else if length (r_ExcludePaths rule) > 0 \<and>
              path_containsAny (c_Path candidate) (r_ExcludePaths rule) then False
      else if r_Type rule = RuleTypeContent \<and> c_IsDir candidate then False
      else True)"

definition candidateValue :: "string \<Rightarrow> Candidate \<Rightarrow> string" where
  "candidateValue ruleType candidate =
     (if ruleType = RuleTypeContent then c_Content candidate
      else if ruleType = RuleTypeFilename then c_Name candidate
      else if ruleType = RuleTypeExtension then normalizeExtension (c_Extension candidate)
      else [])"

definition matchRule :: "regex_engine \<Rightarrow> Rule \<Rightarrow> Candidate \<Rightarrow> bool \<times> string list" where
  "matchRule re rule candidate =
     (let input = candidateValue (r_Type rule) candidate
      in if input = [] then (False, [])
         else case r_compiled rule of
                None \<Rightarrow> (False, [])
              | Some expr \<Rightarrow>
                  let found = rx_find_all re expr input 5
                  in if length found = 0 then (False, []) else (True, found))"

fun exclude_loop :: "regex_engine \<Rightarrow> Rule list \<Rightarrow> Candidate \<Rightarrow> Rule option" where
  "exclude_loop re [] candidate = None"
| "exclude_loop re (rule # rules) candidate =
     (if \<not> ruleEligible rule candidate then exclude_loop re rules candidate
      else if fst (matchRule re rule candidate) then Some rule
      else exclude_loop re rules candidate)"

definition ShouldExclude :: "regex_engine \<Rightarrow> RuleManager \<Rightarrow> Candidate \<Rightarrow> bool \<times> Rule option" where
  "ShouldExclude re m candidate =
     (case exclude_loop re (rm_skipRules m) candidate of
        Some rule \<Rightarrow> (True, Some rule)
      | None \<Rightarrow> (False, None))"

fun collectMatches :: "regex_engine \<Rightarrow> Rule list \<Rightarrow> Candidate \<Rightarrow> MatchResult list" where
  "collectMatches re [] candidate = []"
| "collectMatches re (rule # ruleSet) candidate =
     (if r_Action rule = ActionSkip then collectMatches re ruleSet candidate
      else if \<not> ruleEligible rule candidate then collectMatches re ruleSet candidate
      else case matchRule re rule candidate of
             (True, values) \<Rightarrow>
               \<lparr>mr_Rule = rule, mr_Matched = values\<rparr> # collectMatches re ruleSet candidate
           | (False, _) \<Rightarrow> collectMatches re ruleSet candidate)"

definition MatchFilename :: "regex_engine \<Rightarrow> RuleManager \<Rightarrow> Candidate \<Rightarrow> MatchResult list" where
  "MatchFilename re m candidate =
     collectMatches re (rm_filenameRules m) candidate @ collectMatches re (rm_extensionRules m) candidate"

definition MatchContent :: "regex_engine \<Rightarrow> RuleManager \<Rightarrow> Candidate \<Rightarrow> MatchResult list" where
  "MatchContent re m candidate = collectMatches re (rm_contentRules m) candidate"

subsection \<open>The filter and the buckets\<close>

definition rule_enabled :: "ManagerOptions \<Rightarrow> Rule \<Rightarrow> bool" where
  "rule_enabled opts rule \<longleftrightarrow>
     r_ID rule \<notin> set (mo_DisabledRuleIDs opts) \<and>
     (r_Enabled rule \<or> r_ID rule \<in> set (mo_EnabledRuleIDs opts)) \<and>
     \<not> (\<exists>t \<in> set (r_Tags rule). \<exists>x \<in> set (mo_ExcludeTags opts). equal_fold t x) \<and>
     (mo_IncludeTags opts = [] \<or> (\<exists>t \<in> set (r_Tags rule). \<exists>i \<in> set (mo_IncludeTags opts). equal_fold t i)) \<and>
     (mo_MinSeverity opts = [] \<or> r_Action rule = ActionSkip \<or>
        severityRank (mo_MinSeverity opts) \<le> severityRank (r_Severity rule))"

lemma filterEnabledRules_eq:
  "filterEnabledRules rules opts = map normalizeRule (filter (rule_enabled opts) rules)"
  by (induction rules)
    (auto simp: rule_enabled_def containsString_def tagsAllowed_def intersects_def meetsMinSeverity_def list_ex_iff)

lemma normalizeExtension_idem [simp]: "normalizeExtension (normalizeExtension e) = normalizeExtension e"
proof -
  have "has_prefix (to_lower (CHR ''.'' # s)) ''.''" for s
    by (cases s) (simp_all add: to_lower_def lower_char_def Let_def)
  then show ?thesis
    by (cases e) (auto simp: normalizeExtension_def to_lower_def lower_char_def Let_def)
qed

lemma normalizeRule_fields [simp]:
  "r_ID (normalizeRule r) = r_ID r" "r_Type (normalizeRule r) = r_Type r"
  "r_Action (normalizeRule r) = r_Action r" "r_compiled (normalizeRule r) = r_compiled r"
  "r_Severity (normalizeRule r) = r_Severity r" "r_Tags (normalizeRule r) = r_Tags r"
  "r_Enabled (normalizeRule r) = r_Enabled r"
  by (simp_all add: normalizeRule_def)

lemma ruleEligible_normalize [simp]: "ruleEligible (normalizeRule r) c = ruleEligible r c"
  by (simp add: ruleEligible_def normalizeRule_def matchExtensionList_def list_ex_iff Let_def)

lemma matchRule_normalize [simp]: "matchRule re (normalizeRule r) c = matchRule re r c"
  by (simp add: matchRule_def Let_def)

lemma rule_types_distinct [simp]:
  "RuleTypeFilename \<noteq> RuleTypeContent" "RuleTypeExtension \<noteq> RuleTypeContent"
  "RuleTypeExtension \<noteq> RuleTypeFilename" "RuleTypeContent \<noteq> RuleTypeFilename"
  "RuleTypeContent \<noteq> RuleTypeExtension" "RuleTypeFilename \<noteq> RuleTypeExtension"
  by (simp_all add: rule_constants)

lemma bucket_step_eq:
  "bucket_step m r =
     m\<lparr>rm_contentRules := rm_contentRules m @ (if r_Type r = RuleTypeContent then [r] else []),
       rm_filenameRules := rm_filenameRules m @ (if r_Type r = RuleTypeFilename then [r] else []),
       rm_extensionRules := rm_extensionRules m @ (if r_Type r = RuleTypeExtension then [r] else []),
       rm_skipRules := rm_skipRules m @ (if r_Action r = ActionSkip then [r] else [])\<rparr>"
  by (cases "r_Action r = ActionSkip"; cases "r_Type r = RuleTypeContent"; cases "r_Type r = RuleTypeFilename";
      cases "r_Type r = RuleTypeExtension")
    (simp_all add: bucket_step_def Let_def)

lemma filter_Cons_append: "filter P (x # xs) = (if P x then [x] else []) @ filter P xs"
  by simp

lemma bucket_fold:
  "foldl bucket_step m rs =
     m\<lparr>rm_contentRules := rm_contentRules m @ filter (\<lambda>r. r_Type r = RuleTypeContent) rs,
       rm_filenameRules := rm_filenameRules m @ filter (\<lambda>r. r_Type r = RuleTypeFilename) rs,
       rm_extensionRules := rm_extensionRules m @ filter (\<lambda>r. r_Type r = RuleTypeExtension) rs,
       rm_skipRules := rm_skipRules m @ filter (\<lambda>r. r_Action r = ActionSkip) rs\<rparr>"
proof (induction rs arbitrary: m)
  case (Cons r rs)
  show ?case
    by (simp only: foldl_Cons Cons.IH, simp only: bucket_step_eq filter_Cons_append) simp
qed simp

text \<open>
  After a reload the manager's enabled rules are the validated rules the options let through,
  normalised, in order; each type has its own bucket, every enabled rule is in exactly one of
  them, and the skip bucket holds the rules whose action is skip. A failed reload changes nothing.
\<close>

theorem Reload_buckets:
  "case Reload re stat m of
     (Inl err, m') \<Rightarrow> m' = m
   | (Inr issues, m') \<Rightarrow>
       (\<exists>files loadIssues. LoadRuleFiles stat (rm_paths m) = Inr (files, loadIssues) \<and>
          rm_enabledRules m' =
            map normalizeRule (filter (rule_enabled (rm_opts m)) (fst (ValidateRuleFiles re files))) \<and>
          issues = loadIssues @ snd (ValidateRuleFiles re files)) \<and>
       RulesByType m' RuleTypeContent = filter (\<lambda>r. r_Type r = RuleTypeContent) (rm_enabledRules m') \<and>
       RulesByType m' RuleTypeFilename = filter (\<lambda>r. r_Type r = RuleTypeFilename) (rm_enabledRules m') \<and>
       RulesByType m' RuleTypeExtension = filter (\<lambda>r. r_Type r = RuleTypeExtension) (rm_enabledRules m') \<and>
       mset (rm_contentRules m') + mset (rm_filenameRules m') + mset (rm_extensionRules m') =
         mset (rm_enabledRules m') \<and>
       rm_skipRules m' = filter (\<lambda>r. r_Action r = ActionSkip) (rm_enabledRules m') \<and>
       distinct (map r_ID (rm_enabledRules m'))"
proof (cases "LoadRuleFiles stat (rm_paths m)")
  case (Inr p)
  obtain files li where p: "p = (files, li)" by force
  obtain valid vi where v: "ValidateRuleFiles re files = (valid, vi)" by force
  define en where "en = map normalizeRule (filter (rule_enabled (rm_opts m)) valid)"
  have valid: "valid = map compiled_rule (first_ids {} (candidate_rules re files))"
    using ValidateRuleFiles_valid [of re files] v by simp
  then have dv: "distinct (map r_ID valid)" using first_ids_distinct by (simp add: comp_def)
  then have d: "distinct (map r_ID en)"
    by (simp add: en_def comp_def distinct_map_filter)
  have types: "r_Type r \<in> {RuleTypeContent, RuleTypeFilename, RuleTypeExtension}" if r: "r \<in> set en" for r
  proof -
    obtain r0 where "r0 \<in> set (first_ids {} (candidate_rules re files))" "r_Type r = r_Type r0"
      using r by (auto simp: en_def valid compiled_rule_def)
    then have "well_formed_rule re r0"
      using first_ids_subset by (fastforce simp: candidate_rules_def accepts_iff)
    with \<open>r_Type r = r_Type r0\<close> show ?thesis by (simp add: well_formed_rule_def validRuleType_def)
  qed
  have parts: "mset (filter (\<lambda>r. r_Type r = RuleTypeContent) en) + mset (filter (\<lambda>r. r_Type r = RuleTypeFilename) en)
      + mset (filter (\<lambda>r. r_Type r = RuleTypeExtension) en) = mset en"
    using types
  proof (induction en)
    case (Cons r rs)
    then show ?case by (auto simp: rule_constants)
  qed simp
  show ?thesis
    using d parts
    by (simp add: Reload_def Inr p v filterEnabledRules_eq bucket_fold RulesByType_def en_def [symmetric] Let_def)
qed (simp add: Reload_def)

subsection \<open>Exclusion and matches\<close>

lemma exclude_loop_spec:
  "exclude_loop re rules c = find (\<lambda>r. ruleEligible r c \<and> fst (matchRule re r c)) rules"
  by (induction rules) auto

lemma collectMatches_eq:
  "collectMatches re rules c =
     map (\<lambda>r. \<lparr>mr_Rule = r, mr_Matched = snd (matchRule re r c)\<rparr>)
       (filter (\<lambda>r. r_Action r \<noteq> ActionSkip \<and> ruleEligible r c \<and> fst (matchRule re r c)) rules)"
  by (induction rules) (auto split: prod.splits bool.splits)

lemma matchRule_values: "fst (matchRule re r c) \<Longrightarrow> snd (matchRule re r c) \<noteq> []"
  by (auto simp: matchRule_def Let_def split: option.splits if_splits)

text \<open>
  A rule is reported for a candidate exactly when it is an enabled rule of the surface, its
  action is not skip, its guards admit the candidate and its pattern finds something there; the
  report then carries at least one match. A skip rule is never reported.
\<close>

theorem matches_exact:
  "mr \<in> set (MatchFilename re m c @ MatchContent re m c) \<longleftrightarrow>
     mr_Rule mr \<in> set (rm_filenameRules m) \<union> set (rm_extensionRules m) \<union> set (rm_contentRules m) \<and>
     r_Action (mr_Rule mr) \<noteq> ActionSkip \<and> ruleEligible (mr_Rule mr) c \<and>
     matchRule re (mr_Rule mr) c = (True, mr_Matched mr) \<and> mr_Matched mr \<noteq> []"
proof -
  have "mr \<in> set (collectMatches re rules c) \<longleftrightarrow>
      mr_Rule mr \<in> set rules \<and> r_Action (mr_Rule mr) \<noteq> ActionSkip \<and> ruleEligible (mr_Rule mr) c \<and>
      matchRule re (mr_Rule mr) c = (True, mr_Matched mr) \<and> mr_Matched mr \<noteq> []" for rules
  proof -
    have "matchRule re r c = (True, snd (matchRule re r c)) \<longleftrightarrow> fst (matchRule re r c)" for r
      by (metis fst_conv prod.collapse)
    then show ?thesis
      using matchRule_values [of re _ c] by (cases mr) (auto simp: collectMatches_eq image_iff; force)
  qed
  then show ?thesis by (auto simp: MatchFilename_def MatchContent_def)
qed

text \<open>
  A candidate is excluded exactly when some enabled skip rule admits it and matches, and the
  rule given is the first of them. A candidate with no content is excluded by filename and
  extension rules only.
\<close>

theorem ShouldExclude_first:
  "case ShouldExclude re m c of
     (True, r) \<Rightarrow> \<exists>i < length (rm_skipRules m). r = Some (rm_skipRules m ! i) \<and>
        ruleEligible (rm_skipRules m ! i) c \<and> fst (matchRule re (rm_skipRules m ! i) c) \<and>
        (\<forall>j < i. \<not> (ruleEligible (rm_skipRules m ! j) c \<and> fst (matchRule re (rm_skipRules m ! j) c))) \<and>
        (c_Content c = [] \<longrightarrow> r_Type (rm_skipRules m ! i) \<in> {RuleTypeFilename, RuleTypeExtension})
   | (False, r) \<Rightarrow> r = None \<and>
        \<not> (\<exists>s \<in> set (rm_skipRules m). ruleEligible s c \<and> fst (matchRule re s c))"
proof -
  have "r_Type s \<in> {RuleTypeFilename, RuleTypeExtension}"
    if "fst (matchRule re s c)" "c_Content c = []" for s
    using that by (auto simp: matchRule_def candidateValue_def Let_def split: if_splits)
  then show ?thesis
    by (auto simp: ShouldExclude_def exclude_loop_spec find_None_iff find_Some_iff split: option.splits bool.splits)
qed

definition skip_rules :: "Rule list" where
  "skip_rules = [(demo_rule ''s1'' ''y'' ''r.yml'')\<lparr>r_Type := RuleTypeFilename, r_Action := ActionSkip\<rparr>,
     (demo_rule ''s2'' ''.bak'' ''r.yml'')\<lparr>r_Type := RuleTypeExtension, r_Action := ActionSkip,
        r_compiled := Some ''.bak''\<rparr>]"

definition skip_demo :: RuleManager where
  "skip_demo = (empty_manager [] \<lparr>mo_EnabledRuleIDs = [], mo_DisabledRuleIDs = [], mo_IncludeTags = [],
       mo_ExcludeTags = [], mo_MinSeverity = []\<rparr>)\<lparr>rm_skipRules := skip_rules\<rparr>"

definition skip_candidate :: Candidate where
  "skip_candidate = \<lparr>c_Path = ''d/x.bak'', c_Name = ''x.bak'', c_Extension = ''BAK'', c_Content = [],
     c_Size = 3, c_IsDir = False\<rparr>"

theorem ShouldExclude_first_witness:
  "\<exists>r. ShouldExclude demo_engine skip_demo skip_candidate = (True, Some r) \<and>
     r_Type r \<in> {RuleTypeFilename, RuleTypeExtension}"
proof -
  have "rx_find_all demo_engine ''.bak'' ''.bak'' 5 = [''.bak'']" by code_simp
  moreover have "normalizeExtension ''BAK'' = ''.bak''" by code_simp
  ultimately have "exclude_loop demo_engine skip_rules skip_candidate = Some (skip_rules ! 1)"
    by (simp add: skip_rules_def skip_candidate_def demo_rule_def default_rule_def ruleEligible_def
        matchRule_def candidateValue_def Let_def)
  then have r: "ShouldExclude demo_engine skip_demo skip_candidate = (True, Some (skip_rules ! 1))"
    by (simp add: ShouldExclude_def skip_demo_def)
  have "r_Type (skip_rules ! 1) \<in> {RuleTypeFilename, RuleTypeExtension}"
    using ShouldExclude_first [where re = demo_engine and m = skip_demo and c = skip_candidate] r by (auto simp: skip_candidate_def)
  with r show ?thesis by blast
qed

end
