(* ===== verification/ValueQuality.thy ===== *)
theory ValueQuality
  imports Complex_Main GoStrings
begin

text \<open>
  The quality of extracted values: \<open>scanner/value_quality.go\<close> and the placeholder test of
  \<open>scanner/content_validation.go\<close>. Text is ASCII, so a rune is a byte. The entropy is the exact
  real the floating-point loop approximates; the comparisons with the thresholds are decided on
  integers, and the equivalence of the two is proved.
\<close>

record valueQuality =
  vq_Score :: int
  vq_Label :: string
  vq_Reason :: string
  vq_Weak :: bool
  vq_Strong :: bool

definition no_quality :: valueQuality where
  "no_quality = \<lparr>vq_Score = 0, vq_Label = [], vq_Reason = [], vq_Weak = False, vq_Strong = False\<rparr>"

definition weakValueBases :: "string list" where
  "weakValueBases = [''changeme'', ''default'', ''demo'', ''dummy'', ''example'', ''fake'', ''letmein'',
     ''password'', ''placeholder'', ''qwerty'', ''sample'', ''secret'', ''test'', ''token'', ''welcome'']"

definition placeholderValueTokens :: "string list" where
  "placeholderValueTokens = [''changeme'', ''placeholder'', ''replace_me'', ''replace-me'', ''replace_this'',
     ''replace-this'', ''your_password'', ''your-password'', ''your_username'', ''your-username'',
     ''your_server'', ''your-server'', ''your_database'', ''your-database'', ''example_password'',
     ''example_secret'', ''example_token'', ''<password>'', ''<secret>'', ''<token>'', ''<username>'',
     ''<server>'', ''<database>'']"

definition containsAnyToken :: "string \<Rightarrow> string list \<Rightarrow> bool" where
  "containsAnyToken value parts = list_ex (\<lambda>part. contains value part) parts"

definition firstNonEmptyString :: "string list \<Rightarrow> string" where
  "firstNonEmptyString values =
     (case find (\<lambda>value. trim_space value \<noteq> []) values of Some value \<Rightarrow> value | None \<Rightarrow> [])"

definition quotes :: string where "quotes = [CHR 0x22, CHR 0x27]"

definition isPlaceholderSecretValue :: "string \<Rightarrow> bool" where
  "isPlaceholderSecretValue value0 =
     (let value = to_lower (trim_space (trim_set value0 quotes)) in
      if value = [] then True
      else if has_prefix value ''<'' \<and> has_suffix value ''>'' then True
      else if has_prefix value ''${'' \<and> has_suffix value ''}'' then True
      else if has_prefix value ''{'' \<and> has_suffix value ''}'' then True
      else if value \<in> set [''password'', ''secret'', ''token'', ''username'', ''server'', ''database''] then True
      else list_ex (\<lambda>token. contains value token) placeholderValueTokens)"

definition digit_char_p :: "char \<Rightarrow> bool" where
  "digit_char_p c \<longleftrightarrow> c \<in> set ''0123456789''"

definition is_upper :: "char \<Rightarrow> bool" where
  "is_upper c \<longleftrightarrow> is_letter c \<and> lower_char c \<noteq> c"

definition is_lower :: "char \<Rightarrow> bool" where
  "is_lower c \<longleftrightarrow> is_letter c \<and> lower_char c = c"

definition collapseAlphaNum :: "string \<Rightarrow> string" where
  "collapseAlphaNum value = map lower_char (filter (\<lambda>r. is_letter r \<or> digit_char_p r) value)"

definition digitsOnly :: "string \<Rightarrow> bool" where
  "digitsOnly value = (if value = [] then False else list_all digit_char_p value)"

definition allowsWeakNumericSuffix :: "string \<Rightarrow> bool" where
  "allowsWeakNumericSuffix base \<longleftrightarrow>
     base \<in> set [''changeme'', ''default'', ''demo'', ''dummy'', ''example'', ''fake'', ''placeholder'',
       ''sample'', ''test'']"

definition isCommonWeakValue :: "string \<Rightarrow> bool" where
  "isCommonWeakValue value =
     (let normalized = to_lower (trim_space (trim_set value quotes)) in
      if normalized = [] then True
      else
        let collapsed = collapseAlphaNum normalized in
        if collapsed = [] then True
        else list_ex (\<lambda>base. collapsed = base \<or>
               (allowsWeakNumericSuffix base \<and> has_prefix collapsed base \<and>
                digitsOnly (trim_prefix collapsed base))) weakValueBases)"

definition characterClassCount :: "string \<Rightarrow> int" where
  "characterClassCount value =
     (let hasLower = list_ex is_lower value;
          hasUpper = list_ex (\<lambda>r. \<not> is_lower r \<and> is_upper r) value;
          hasDigit = list_ex (\<lambda>r. \<not> is_lower r \<and> \<not> is_upper r \<and> digit_char_p r) value;
          hasSymbol = list_ex (\<lambda>r. \<not> is_lower r \<and> \<not> is_upper r \<and> \<not> digit_char_p r) value
      in int (length (filter (\<lambda>present. present) [hasLower, hasUpper, hasDigit, hasSymbol])))"

definition uniqueRuneCount :: "string \<Rightarrow> int" where
  "uniqueRuneCount value = int (length (remdups value))"

subsection \<open>Entropy\<close>

definition frequencies :: "string \<Rightarrow> nat list" where
  "frequencies value = map (count_list value) (remdups value)"

definition shannonEntropy :: "string \<Rightarrow> real" where
  "shannonEntropy value =
     (if value = [] then 0
      else let total = real (length value)
           in - sum_list (map (\<lambda>count. (real count / total) * log 2 (real count / total)) (frequencies value)))"

text \<open>The entropy compared with \<open>a / b\<close>, on integers.\<close>

definition entropy_below :: "string \<Rightarrow> nat \<Rightarrow> nat \<Rightarrow> bool" where
  "entropy_below value a b =
     (let n = length value in
      if n = 0 then 0 < a
      else (int n ^ n) ^ b < 2 ^ (a * n) * (foldr (\<lambda>c acc. int c ^ c * acc) (frequencies value) 1) ^ b)"

lemma sum_count_list: "sum_list (map (count_list xs) (remdups xs)) = length xs"
proof -
  have "sum_list (map (count_list xs) (remdups xs)) = (\<Sum>x \<in> set xs. count_list xs x)"
    by (simp add: sum_list_distinct_conv_sum_set)
  then show ?thesis by (simp add: sum_count_set)
qed

lemma frequencies_sum: "sum_list (frequencies value) = length value"
  by (simp add: frequencies_def sum_count_list)

lemma frequencies_pos: "c \<in> set (frequencies value) \<Longrightarrow> 0 < c"
  by (auto simp: frequencies_def) (metis count_list_0_iff gr0I)

lemma entropy_logs:
  assumes "value \<noteq> []"
  shows "real (length value) * shannonEntropy value =
    log 2 (real (length value ^ length value)) -
    log 2 (real (foldr (\<lambda>c acc. c ^ c * acc) (frequencies value) 1))"
proof -
  let ?n = "length value"
  have n: "0 < real ?n" using assms by simp
  have fp: "\<forall>c \<in> set (frequencies value). 0 < c" using frequencies_pos by blast
  have prod: "0 < foldr (\<lambda>c acc. c ^ c * acc) cs (1::nat)
      \<and> log 2 (real (foldr (\<lambda>c acc. c ^ c * acc) cs 1)) = sum_list (map (\<lambda>c. real c * log 2 (real c)) cs)"
    if "\<forall>c \<in> set cs. 0 < c" for cs
    using that by (induction cs) (auto simp: log_mult log_nat_power)
  have parts: "sum_list (map (\<lambda>c. real c / real ?n * log 2 (real c / real ?n)) cs) =
      (sum_list (map (\<lambda>c. real c * log 2 (real c)) cs) - real (sum_list cs) * log 2 (real ?n)) / real ?n"
    if "\<forall>c \<in> set cs. 0 < c" for cs
    using that n by (induction cs) (auto simp: log_divide field_simps)
  have "shannonEntropy value = - ((sum_list (map (\<lambda>c. real c * log 2 (real c)) (frequencies value))
      - real ?n * log 2 (real ?n)) / real ?n)"
    using assms parts [of "frequencies value"] fp
    by (simp add: shannonEntropy_def frequencies_sum Let_def)
  then show ?thesis
    using n prod [of "frequencies value"] fp
    by (auto simp: log_nat_power field_simps)
qed

lemma int_self_powers:
  "int (foldr (\<lambda>c. (*) (c ^ c)) cs (Suc 0)) = foldr (\<lambda>c. (*) (int c ^ c)) cs 1"
  by (induction cs) simp_all

lemma entropy_below_iff:
  assumes "0 < b"
  shows "entropy_below value a b \<longleftrightarrow> shannonEntropy value < real a / real b"
proof (cases "value = []")
  case False
  let ?n = "length value"
  let ?p = "foldr (\<lambda>c acc. c ^ c * acc) (frequencies value) (1::nat)"
  have pos: "0 < foldr (\<lambda>c acc. c ^ c * acc) cs (1::nat)" if "\<forall>c \<in> set cs. 0 < c" for cs
    using that by (induction cs) auto
  have pp: "0 < ?p" using pos frequencies_pos by blast
  have n: "0 < real ?n" using False by simp
  have "shannonEntropy value < real a / real b \<longleftrightarrow>
      real b * (real ?n * shannonEntropy value) < real (a * ?n)"
    using assms n by (simp add: field_simps)
  also have "\<dots> \<longleftrightarrow> real b * log 2 (real (?n ^ ?n)) < real (a * ?n) + real b * log 2 (real ?p)"
    by (simp only: entropy_logs [OF False] right_diff_distrib diff_less_eq)
  also have "\<dots> \<longleftrightarrow> log 2 (real ((?n ^ ?n) ^ b)) < log 2 (real (2 ^ (a * ?n) * ?p ^ b))"
    using False pp by (simp add: log_mult log_nat_power)
  also have "\<dots> \<longleftrightarrow> (?n ^ ?n) ^ b < 2 ^ (a * ?n) * ?p ^ b"
    using False pp by (subst log_less_cancel_iff) (simp_all only: of_nat_less_iff, auto)
  also have "\<dots> \<longleftrightarrow> int ((?n ^ ?n) ^ b) < int (2 ^ (a * ?n) * ?p ^ b)"
    by (simp only: of_nat_less_iff)
  finally show ?thesis
    using False by (simp add: entropy_below_def int_self_powers Let_def)
next
  case True
  with assms show ?thesis by (simp add: entropy_below_def shannonEntropy_def zero_less_divide_iff)
qed

subsection \<open>The assessment\<close>

definition assessSensitiveValueQuality :: "string \<Rightarrow> valueQuality" where
  "assessSensitiveValueQuality value =
     (let trimmed = trim_space (trim_set value quotes) in
      if trimmed = [] then
        \<lparr>vq_Score = 0, vq_Label = ''low'', vq_Reason = ''value was empty after trimming'',
         vq_Weak = True, vq_Strong = False\<rparr>
      else if isPlaceholderSecretValue trimmed \<or> isCommonWeakValue trimmed then
        \<lparr>vq_Score = 1, vq_Label = ''low'',
         vq_Reason = ''value looks like a placeholder or common sample credential'',
         vq_Weak = True, vq_Strong = False\<rparr>
      else if length trimmed < 8 then
        \<lparr>vq_Score = 2, vq_Label = ''low'',
         vq_Reason = ''value is shorter than a plausible credential or secret'',
         vq_Weak = True, vq_Strong = False\<rparr>
      else
        let entropy = shannonEntropy trimmed;
            classes = characterClassCount trimmed;
            uniq = uniqueRuneCount trimmed
        in if uniq \<le> 2 then
             \<lparr>vq_Score = 2, vq_Label = ''low'', vq_Reason = ''value has too little variation to look usable'',
              vq_Weak = True, vq_Strong = False\<rparr>
           else if entropy < 18 / 10 \<or> (entropy < 24 / 10 \<and> classes < 2) then
             \<lparr>vq_Score = 3, vq_Label = ''low'',
              vq_Reason = ''value has low entropy and limited character diversity'',
              vq_Weak = True, vq_Strong = False\<rparr>
           else if length trimmed \<ge> 14 \<and> uniq \<ge> 6 \<and> (classes \<ge> 3 \<or> entropy \<ge> 32 / 10) then
             \<lparr>vq_Score = 18, vq_Label = ''high'',
              vq_Reason = ''value is long and has strong entropy or character diversity'',
              vq_Weak = False, vq_Strong = True\<rparr>
           else if length trimmed \<ge> 10 \<and> uniq \<ge> 5 \<and> (classes \<ge> 2 \<or> entropy \<ge> 27 / 10) then
             \<lparr>vq_Score = 12, vq_Label = ''medium'',
              vq_Reason = ''value has plausible length and diversity for a real credential or secret'',
              vq_Weak = False, vq_Strong = False\<rparr>
           else
             \<lparr>vq_Score = 8, vq_Label = ''medium'',
              vq_Reason = ''value looks plausible, but only has moderate strength indicators'',
              vq_Weak = False, vq_Strong = False\<rparr>)"

text \<open>The same with the comparisons on integers, for evaluation.\<close>

definition quality_of_trimmed :: "string \<Rightarrow> valueQuality" where
  "quality_of_trimmed trimmed =
     (if trimmed = [] then
        \<lparr>vq_Score = 0, vq_Label = ''low'', vq_Reason = ''value was empty after trimming'',
         vq_Weak = True, vq_Strong = False\<rparr>
      else if isPlaceholderSecretValue trimmed \<or> isCommonWeakValue trimmed then
        \<lparr>vq_Score = 1, vq_Label = ''low'',
         vq_Reason = ''value looks like a placeholder or common sample credential'',
         vq_Weak = True, vq_Strong = False\<rparr>
      else if length trimmed < 8 then
        \<lparr>vq_Score = 2, vq_Label = ''low'',
         vq_Reason = ''value is shorter than a plausible credential or secret'',
         vq_Weak = True, vq_Strong = False\<rparr>
      else
        let classes = characterClassCount trimmed;
            uniq = uniqueRuneCount trimmed
        in if uniq \<le> 2 then
             \<lparr>vq_Score = 2, vq_Label = ''low'', vq_Reason = ''value has too little variation to look usable'',
              vq_Weak = True, vq_Strong = False\<rparr>
           else if entropy_below trimmed 9 5 \<or> (classes < 2 \<and> entropy_below trimmed 12 5) then
             \<lparr>vq_Score = 3, vq_Label = ''low'',
              vq_Reason = ''value has low entropy and limited character diversity'',
              vq_Weak = True, vq_Strong = False\<rparr>
           else if length trimmed \<ge> 14 \<and> uniq \<ge> 6 \<and> (classes \<ge> 3 \<or> \<not> entropy_below trimmed 16 5) then
             \<lparr>vq_Score = 18, vq_Label = ''high'',
              vq_Reason = ''value is long and has strong entropy or character diversity'',
              vq_Weak = False, vq_Strong = True\<rparr>
           else if length trimmed \<ge> 10 \<and> uniq \<ge> 5 \<and> (classes \<ge> 2 \<or> \<not> entropy_below trimmed 27 10) then
             \<lparr>vq_Score = 12, vq_Label = ''medium'',
              vq_Reason = ''value has plausible length and diversity for a real credential or secret'',
              vq_Weak = False, vq_Strong = False\<rparr>
           else
             \<lparr>vq_Score = 8, vq_Label = ''medium'',
              vq_Reason = ''value looks plausible, but only has moderate strength indicators'',
              vq_Weak = False, vq_Strong = False\<rparr>)"

lemma assessSensitiveValueQuality_code [code]:
  "assessSensitiveValueQuality value = quality_of_trimmed (trim_space (trim_set value quotes))"
proof -
  have e: "entropy_below v 9 5 \<longleftrightarrow> shannonEntropy v < 18 / 10" "entropy_below v 12 5 \<longleftrightarrow> shannonEntropy v < 24 / 10"
    "\<not> entropy_below v 16 5 \<longleftrightarrow> shannonEntropy v \<ge> 32 / 10" "\<not> entropy_below v 27 10 \<longleftrightarrow> shannonEntropy v \<ge> 27 / 10"
    for v
    by (simp_all add: entropy_below_iff not_less)
  show ?thesis
    unfolding assessSensitiveValueQuality_def quality_of_trimmed_def Let_def e
    by (simp only: conj_commute [of "characterClassCount _ < 2"])
qed

definition assess_step :: "valueQuality \<times> int \<Rightarrow> string \<Rightarrow> valueQuality \<times> int" where
  "assess_step acc raw = (case acc of (best, weakCount) \<Rightarrow>
     let quality = assessSensitiveValueQuality raw;
         weakCount' = (if vq_Weak quality then weakCount + 1 else weakCount)
     in (if vq_Score quality > vq_Score best then quality else best, weakCount'))"

definition assessExtractedValuesQuality :: "string list \<Rightarrow> valueQuality" where
  "assessExtractedValuesQuality values =
     (if length values = 0 then no_quality
      else
        case foldl assess_step (no_quality, 0) values of (best, weakCount) \<Rightarrow>
          if vq_Score best = 0 \<and> weakCount = int (length values) then
            \<lparr>vq_Score = 2, vq_Label = ''low'',
             vq_Reason = ''content matched, but the nearby values look placeholder-like or weak'',
             vq_Weak = True, vq_Strong = False\<rparr>
          else if weakCount = int (length values) \<and> vq_Score best \<le> 4 then
            best\<lparr>vq_Weak := True, vq_Label := ''low'',
                 vq_Reason := (if trim_space (vq_Reason best) = []
                   then ''content matched, but the nearby values look placeholder-like or weak''
                   else vq_Reason best)\<rparr>
          else best)"

definition minInt :: "int \<Rightarrow> int \<Rightarrow> int" where "minInt a b = (if a < b then a else b)"
definition maxInt :: "int \<Rightarrow> int \<Rightarrow> int" where "maxInt a b = (if a > b then a else b)"

definition looksLikeConnectionMaterial :: "string \<Rightarrow> bool" where
  "looksLikeConnectionMaterial value =
     (let lower = to_lower (trim_space value)
      in containsAnyToken lower
           [''server='', ''host='', ''data source='', ''datasource='', ''initial catalog='', ''database='',
            ''uid='', ''user id='', ''username='', ''pwd='', ''password='', ''jdbc:'', ''dsn='', ''driver=''])"

subsection \<open>What the assessment promises\<close>

definition quality_ok :: "valueQuality \<Rightarrow> bool" where
  "quality_ok q \<longleftrightarrow>
     0 \<le> vq_Score q \<and> vq_Score q \<le> 18 \<and>
     (vq_Weak q \<longrightarrow> vq_Score q \<le> 4 \<and> vq_Label q = ''low'' \<and> \<not> vq_Strong q) \<and>
     (vq_Strong q \<longrightarrow> 14 \<le> vq_Score q \<and> vq_Label q = ''high'')"

lemma assessSensitiveValueQuality_cases:
  "assessSensitiveValueQuality v \<in>
     {q. vq_Weak q \<and> vq_Score q \<in> {0, 1, 2, 3} \<and> vq_Label q = ''low'' \<and> \<not> vq_Strong q \<and> vq_Reason q \<noteq> []} \<union>
     {q. \<not> vq_Weak q \<and> vq_Strong q \<and> vq_Score q = 18 \<and> vq_Label q = ''high''} \<union>
     {q. \<not> vq_Weak q \<and> \<not> vq_Strong q \<and> vq_Score q \<in> {8, 12} \<and> vq_Label q = ''medium''}"
  unfolding assessSensitiveValueQuality_code quality_of_trimmed_def Let_def
  by (simp split: if_split)

lemma assessSensitiveValueQuality_ok: "quality_ok (assessSensitiveValueQuality v)"
  using assessSensitiveValueQuality_cases [of v] by (auto simp: quality_ok_def)

lemma weak_iff_low_score: "vq_Weak (assessSensitiveValueQuality v) \<longleftrightarrow> vq_Score (assessSensitiveValueQuality v) < 8"
  using assessSensitiveValueQuality_cases [of v] by auto

lemma weak_facts:
  "vq_Weak (assessSensitiveValueQuality v) \<Longrightarrow> 0 \<le> vq_Score (assessSensitiveValueQuality v) \<and>
     vq_Score (assessSensitiveValueQuality v) \<le> 3 \<and> \<not> vq_Strong (assessSensitiveValueQuality v)"
  using assessSensitiveValueQuality_cases [of v] by auto

lemma strong_iff_top_score: "vq_Strong (assessSensitiveValueQuality v) \<longleftrightarrow> vq_Score (assessSensitiveValueQuality v) = 18"
  and score_at_most_18: "vq_Score (assessSensitiveValueQuality v) \<le> 18"
  using assessSensitiveValueQuality_cases [of v] by auto

text \<open>The loop keeps the best value and counts the weak ones.\<close>

lemma assess_fold:
  assumes "best \<in> insert no_quality (range assessSensitiveValueQuality)"
  shows "case foldl assess_step (best, k) raws of (b, k') \<Rightarrow>
     b \<in> insert best (assessSensitiveValueQuality ` set raws) \<and>
     (\<forall>v \<in> set raws. vq_Score (assessSensitiveValueQuality v) \<le> vq_Score b) \<and> vq_Score best \<le> vq_Score b \<and>
     k' = k + int (length (filter (\<lambda>v. vq_Weak (assessSensitiveValueQuality v)) raws))"
  using assms
proof (induction raws arbitrary: best k)
  case (Cons v vs)
  let ?q = "assessSensitiveValueQuality v"
  let ?b = "if vq_Score ?q > vq_Score best then ?q else best"
  have "?b \<in> insert no_quality (range assessSensitiveValueQuality)" using Cons.prems by auto
  from Cons.IH [OF this, of "if vq_Weak ?q then k + 1 else k"] show ?case
    by (auto simp: assess_step_def Let_def split: prod.splits if_splits)
qed simp

lemma filter_all_iff: "length (filter P xs) = length xs \<longleftrightarrow> (\<forall>x \<in> set xs. P x)"
  by (metis filter_id_conv length_filter_less less_irrefl)

lemma extracted_verdict:
  "let q = assessExtractedValuesQuality raws in
     (vq_Weak q \<longleftrightarrow> raws \<noteq> [] \<and> (\<forall>v \<in> set raws. vq_Weak (assessSensitiveValueQuality v))) \<and>
     (vq_Strong q \<longleftrightarrow> (\<exists>v \<in> set raws. vq_Strong (assessSensitiveValueQuality v))) \<and> quality_ok q"
proof (cases "raws = []")
  case False
  obtain b k where f: "foldl assess_step (no_quality, 0) raws = (b, k)" by force
  have b: "b \<in> insert no_quality (assessSensitiveValueQuality ` set raws)"
    and mx: "\<forall>v \<in> set raws. vq_Score (assessSensitiveValueQuality v) \<le> vq_Score b"
    and k: "k = int (length raws) \<longleftrightarrow> (\<forall>v \<in> set raws. vq_Weak (assessSensitiveValueQuality v))"
    using assess_fold [of no_quality raws 0] f by (simp_all add: filter_all_iff)
  show ?thesis
  proof (cases "\<forall>v \<in> set raws. vq_Weak (assessSensitiveValueQuality v)")
    case True
    then have weak: "vq_Score b \<le> 3 \<and> \<not> vq_Strong b \<and> 0 \<le> vq_Score b
        \<and> (\<forall>v \<in> set raws. \<not> vq_Strong (assessSensitiveValueQuality v))"
      using b weak_facts by (auto simp: no_quality_def)
    then show ?thesis
      using False f k True by (auto simp: assessExtractedValuesQuality_def quality_ok_def Let_def)
  next
    case nw: False
    then obtain v where v: "v \<in> set raws" "8 \<le> vq_Score (assessSensitiveValueQuality v)"
      by (meson not_less weak_iff_low_score)
    then have s: "8 \<le> vq_Score b" using mx by force
    then obtain w where w: "w \<in> set raws" "b = assessSensitiveValueQuality w"
      using b by (auto simp: no_quality_def)
    have q: "assessExtractedValuesQuality raws = b"
      using False f k nw s by (simp add: assessExtractedValuesQuality_def)
    have "\<not> vq_Weak b" using weak_iff_low_score [of w] s w by simp
    moreover have "vq_Strong b \<longleftrightarrow> (\<exists>v \<in> set raws. vq_Strong (assessSensitiveValueQuality v))"
      using mx w strong_iff_top_score score_at_most_18 by (metis order_antisym)
    ultimately show ?thesis
      using q nw w assessSensitiveValueQuality_ok [of w] by simp
  qed
qed (simp add: assessExtractedValuesQuality_def no_quality_def quality_ok_def)

text \<open>
  The assessment of the values extracted from a match: it is weak exactly when every one of
  them is (and there is one), strong exactly when one of them is; its score is between 0 and 18, at
  most 4 when weak and 18 when strong.
\<close>

theorem assessExtractedValuesQuality_verdict:
  "let q = assessExtractedValuesQuality raws in
     (vq_Weak q \<longleftrightarrow> raws \<noteq> [] \<and> (\<forall>v \<in> set raws. vq_Weak (assessSensitiveValueQuality v))) \<and>
     (vq_Strong q \<longleftrightarrow> (\<exists>v \<in> set raws. vq_Strong (assessSensitiveValueQuality v))) \<and> quality_ok q"
  by (rule extracted_verdict)


theorem assessExtractedValuesQuality_verdict_witness:
  "vq_Weak (assessExtractedValuesQuality [''changeme'', ''test1'']) \<and>
   \<not> vq_Strong (assessExtractedValuesQuality [''changeme'', ''test1''])"
proof -
  have "\<forall>v \<in> set [''changeme'', ''test1'']. vq_Weak (assessSensitiveValueQuality v)"
    "\<not> (\<exists>v \<in> set [''changeme'', ''test1'']. vq_Strong (assessSensitiveValueQuality v))"
    by code_simp+
  then show ?thesis
    using assessExtractedValuesQuality_verdict [of "[''changeme'', ''test1'']"] by (simp add: Let_def)
qed

end
