(* ===== verification/Regex.thy ===== *)
theory Regex
  imports GoStrings
begin

text \<open>
  The part of Go's \<open>regexp\<close> the program's own expressions use, on ASCII text: a backtracking matcher
  that lists the ways an expression matches from a position in the order of the leftmost-first
  semantics, with the submatches. The first of the list is the match Go returns. Positions are byte
  offsets.
\<close>

datatype regex =
    Sym "char \<Rightarrow> bool"
  | Eps
  | Seq regex regex
  | Alt regex regex
  | Rep nat "nat option" regex
  | Group nat regex
  | LineBegin
  | LineEnd
  | TextBegin
  | TextEnd
  | WordBoundary

type_synonym captures = "(nat \<times> nat \<times> nat) list"
type_synonym rx_state = "nat \<times> captures"

definition word_char :: "char \<Rightarrow> bool" where
  "word_char c \<longleftrightarrow> is_letter c \<or> c \<in> set ''0123456789_''"

definition word_at :: "string \<Rightarrow> nat \<Rightarrow> bool" where
  "word_at s i \<longleftrightarrow> i < length s \<and> word_char (s ! i)"

text \<open>Between \<open>lo\<close> and \<open>hi\<close> rounds, as many as possible first, each of them making progress.\<close>

fun rounds :: "nat \<Rightarrow> (rx_state \<Rightarrow> rx_state list) \<Rightarrow> nat \<Rightarrow> nat option \<Rightarrow> rx_state \<Rightarrow> rx_state list" where
  "rounds 0 f lo hi st = (if lo = 0 then [st] else [])"
| "rounds (Suc fuel) f lo hi st =
     (if hi = Some 0 then (if lo = 0 then [st] else [])
      else
        concat (map (\<lambda>st'. if fst st' > fst st
                           then rounds fuel f (lo - 1) (map_option (\<lambda>h. h - 1) hi) st' else [])
                  (f st))
        @ (if lo = 0 then [st] else []))"

fun rx_match :: "regex \<Rightarrow> string \<Rightarrow> rx_state \<Rightarrow> rx_state list" where
  "rx_match (Sym p) s (i, c) = (if i < length s \<and> p (s ! i) then [(i + 1, c)] else [])"
| "rx_match Eps s (i, c) = [(i, c)]"
| "rx_match (Seq a b) s st = concat (map (rx_match b s) (rx_match a s st))"
| "rx_match (Alt a b) s st = rx_match a s st @ rx_match b s st"
| "rx_match (Rep lo hi a) s st = rounds (length s + 1) (rx_match a s) lo hi st"
| "rx_match (Group n a) s (i, c) = map (\<lambda>(j, c'). (j, (n, i, j) # c')) (rx_match a s (i, c))"
| "rx_match LineBegin s (i, c) = (if i = 0 \<or> s ! (i - 1) = CHR 0x0A then [(i, c)] else [])"
| "rx_match LineEnd s (i, c) = (if i \<ge> length s \<or> s ! i = CHR 0x0A then [(i, c)] else [])"
| "rx_match TextBegin s (i, c) = (if i = 0 then [(i, c)] else [])"
| "rx_match TextEnd s (i, c) = (if i \<ge> length s then [(i, c)] else [])"
| "rx_match WordBoundary s (i, c) =
     (if (i > 0 \<and> word_at s (i - 1)) \<noteq> word_at s i then [(i, c)] else [])"

record rx_found =
  rf_start :: nat
  rf_end :: nat
  rf_groups :: captures

definition match_from :: "regex \<Rightarrow> string \<Rightarrow> nat \<Rightarrow> rx_found option" where
  "match_from r s i =
     (case rx_match r s (i, []) of [] \<Rightarrow> None
      | (j, c) # _ \<Rightarrow> Some \<lparr>rf_start = i, rf_end = j, rf_groups = c\<rparr>)"

text \<open>\<open>FindStringSubmatchIndex\<close>: the leftmost match.\<close>

fun find_up :: "nat \<Rightarrow> regex \<Rightarrow> string \<Rightarrow> nat \<Rightarrow> rx_found option" where
  "find_up 0 r s i = None"
| "find_up (Suc n) r s i =
     (case match_from r s i of Some m \<Rightarrow> Some m | None \<Rightarrow> find_up n r s (i + 1))"

definition rx_find :: "regex \<Rightarrow> string \<Rightarrow> nat \<Rightarrow> rx_found option" where
  "rx_find r s from = find_up (length s + 1 - from) r s from"

text \<open>\<open>FindAllStringSubmatchIndex\<close>: the matches from left to right, without overlap.\<close>

fun find_all_loop :: "nat \<Rightarrow> regex \<Rightarrow> string \<Rightarrow> nat \<Rightarrow> rx_found list" where
  "find_all_loop 0 r s from = []"
| "find_all_loop (Suc fuel) r s from =
     (case rx_find r s from of
        None \<Rightarrow> []
      | Some m \<Rightarrow> m # find_all_loop fuel r s (if rf_end m > rf_start m then rf_end m else rf_end m + 1))"

definition rx_findall :: "regex \<Rightarrow> string \<Rightarrow> rx_found list" where
  "rx_findall r s = find_all_loop (length s + 2) r s 0"

text \<open>A submatch, the empty string when the group took no part.\<close>

definition group_text :: "string \<Rightarrow> rx_found \<Rightarrow> nat \<Rightarrow> string" where
  "group_text s m n = (case map_of (rf_groups m) n of None \<Rightarrow> [] | Some (i, j) \<Rightarrow> substr s i j)"

definition match_text :: "string \<Rightarrow> rx_found \<Rightarrow> string" where
  "match_text s m = substr s (rf_start m) (rf_end m)"

text \<open>\<open>ReplaceAllStringFunc\<close> and \<open>ReplaceAllString\<close>, the replacement a function of the match.\<close>

fun replace_matches :: "(rx_found \<Rightarrow> string) \<Rightarrow> string \<Rightarrow> nat \<Rightarrow> rx_found list \<Rightarrow> string" where
  "replace_matches f s pos [] = drop pos s"
| "replace_matches f s pos (m # ms) = substr s pos (rf_start m) @ f m @ replace_matches f s (rf_end m) ms"

definition rx_replace :: "regex \<Rightarrow> (rx_found \<Rightarrow> string) \<Rightarrow> string \<Rightarrow> string" where
  "rx_replace r f s = replace_matches f s 0 (rx_findall r s)"

definition rx_matches :: "regex \<Rightarrow> string \<Rightarrow> bool" where
  "rx_matches r s = (rx_find r s 0 \<noteq> None)"

subsection \<open>Building expressions\<close>

fun seq :: "regex list \<Rightarrow> regex" where
  "seq [] = Eps" | "seq [r] = r" | "seq (r # rs) = Seq r (seq rs)"

fun alt :: "regex list \<Rightarrow> regex" where
  "alt [] = Sym (\<lambda>c. False)" | "alt [r] = r" | "alt (r # rs) = Alt r (alt rs)"

text \<open>Under the flag \<open>(?i)\<close>: a literal, a set of characters, its complement.\<close>

definition lit :: "string \<Rightarrow> regex" where
  "lit s = seq (map (\<lambda>x. Sym (\<lambda>c. lower_char c = lower_char x)) s)"

definition one_of :: "string \<Rightarrow> regex" where
  "one_of s = Sym (\<lambda>c. c \<in> set s)"

definition none_of :: "string \<Rightarrow> regex" where
  "none_of s = Sym (\<lambda>c. c \<notin> set s)"

definition opt :: "regex \<Rightarrow> regex" where "opt r = Rep 0 (Some 1) r"
definition star :: "regex \<Rightarrow> regex" where "star r = Rep 0 None r"
definition plus1 :: "regex \<Rightarrow> regex" where "plus1 r = Rep 1 None r"

text \<open>\<open>\s\<close>: tab, newline, form feed, carriage return, space.\<close>

definition space_chars :: string where
  "space_chars = [CHR 0x09, CHR 0x0A, CHR 0x0C, CHR 0x0D, CHR 0x20]"

definition rx_space :: regex where "rx_space = one_of space_chars"

subsection \<open>What a match is\<close>

lemma rounds_bounds:
  assumes "\<And>st st'. fst st \<le> n \<Longrightarrow> st' \<in> set (f st) \<Longrightarrow> fst st \<le> fst st' \<and> fst st' \<le> n"
    and "fst st \<le> n" and "st' \<in> set (rounds fuel f lo hi st)"
  shows "fst st \<le> fst st' \<and> fst st' \<le> n"
  using assms(2,3)
proof (induction fuel arbitrary: lo hi st)
  case (Suc fuel)
  show ?case
  proof (cases "st' = st")
    case False
    have "st' \<in> set (concat (map (\<lambda>st'. if fst st' > fst st
          then rounds fuel f (lo - 1) (map_option (\<lambda>h. h - 1) hi) st' else []) (f st)))"
      using Suc.prems(2) False by (cases "hi = Some 0"; cases "lo = 0") simp_all
    then obtain st1 where st1: "st1 \<in> set (f st)"
      "st' \<in> set (rounds fuel f (lo - 1) (map_option (\<lambda>h. h - 1) hi) st1)"
      by (auto split: if_splits)
    have b: "fst st \<le> fst st1 \<and> fst st1 \<le> n" using assms(1) Suc.prems(1) st1(1) by blast
    then have "fst st1 \<le> fst st' \<and> fst st' \<le> n" using Suc.IH st1(2) by blast
    with b show ?thesis by simp
  qed (use Suc.prems in simp)
qed (auto split: if_splits)

lemma rx_match_bounds:
  "fst st \<le> length s \<Longrightarrow> st' \<in> set (rx_match r s st) \<Longrightarrow> fst st \<le> fst st' \<and> fst st' \<le> length s"
proof (induction r arbitrary: st st')
  case (Seq a b)
  from Seq.prems(2) obtain st1 where st1: "st1 \<in> set (rx_match a s st)" "st' \<in> set (rx_match b s st1)" by auto
  have b1: "fst st \<le> fst st1 \<and> fst st1 \<le> length s" using Seq.IH(1) Seq.prems(1) st1(1) by blast
  then have "fst st1 \<le> fst st' \<and> fst st' \<le> length s" using Seq.IH(2) st1(2) by blast
  with b1 show ?case by simp
next
  case (Rep lo hi r)
  have "st' \<in> set (rounds (length s + 1) (rx_match r s) lo hi st)" using Rep.prems(2) by (simp only: rx_match.simps)
  moreover have "fst st1 \<le> fst st2 \<and> fst st2 \<le> length s"
    if "fst st1 \<le> length s" "st2 \<in> set (rx_match r s st1)" for st1 st2
    using Rep.IH [OF that] .
  ultimately show ?case using rounds_bounds [of "length s" "rx_match r s" st st'] Rep.prems(1) by blast
next
  case (Group n r)
  obtain i c where st: "st = (i, c)" by force
  from Group.prems(2) obtain j c' where j: "(j, c') \<in> set (rx_match r s (i, c))" "fst st' = j"
    unfolding st rx_match.simps by (auto simp del: rx_match.simps)
  show ?case using Group.IH [OF _ j(1)] Group.prems(1) j(2) unfolding st by simp
next
  case (Sym p) then show ?case by (cases st) (auto split: if_splits)
next
  case Eps then show ?case by (cases st) auto
next
  case (Alt a b)
  from Alt.prems(2) have "st' \<in> set (rx_match a s st) \<or> st' \<in> set (rx_match b s st)" by simp
  then show ?case using Alt.IH Alt.prems(1) by blast
next
  case LineBegin then show ?case by (cases st) (auto split: if_splits)
next
  case LineEnd then show ?case by (cases st) (auto split: if_splits)
next
  case TextBegin then show ?case by (cases st) (auto split: if_splits)
next
  case TextEnd then show ?case by (cases st) (auto split: if_splits)
next
  case WordBoundary then show ?case by (cases st) (auto split: if_splits)
qed

lemma match_from_bounds:
  "match_from r s i = Some m \<Longrightarrow> i \<le> length s \<Longrightarrow> rf_start m = i \<and> i \<le> rf_end m \<and> rf_end m \<le> length s"
  using rx_match_bounds [of "(i, [])" s _ r]
  by (fastforce simp: match_from_def split: list.splits)

lemma rx_find_bounds:
  assumes "rx_find r s from = Some m"
  shows "from \<le> rf_start m \<and> rf_start m \<le> rf_end m \<and> rf_end m \<le> length s"
proof -
  have "from \<le> rf_start m \<and> rf_start m \<le> rf_end m \<and> rf_end m \<le> length s"
    if "find_up n r s i = Some m" "i + n \<le> length s + 1" "from \<le> i" for n i
    using that
  proof (induction n arbitrary: i)
    case (Suc n)
    then show ?case
      using match_from_bounds [of r s i m] by (fastforce split: option.splits)
  qed simp
  then show ?thesis
    using assms by (cases "from \<le> length s + 1") (auto simp: rx_find_def)
qed


end
