(* ===== verification/ContentText.thy ===== *)
theory ContentText
  imports ValueQuality Regex Rules
begin

text \<open>
  The text side of the content scanner: the program's own expressions and what it does with them
  (\<open>scanner/content.go\<close>), the suppression of weak matches (\<open>scanner/content_validation.go\<close>) and the
  quality of connection strings (\<open>scanner/value_quality.go\<close>). Text is ASCII, so runes, bytes and
  offsets coincide.
\<close>

subsection \<open>The expressions\<close>

definition secret_labels :: "regex list" where
  "secret_labels = [lit ''password'', lit ''passord'', lit ''passwd'', lit ''pwd'', lit ''secret'', lit ''token'',
     seq [lit ''api'', opt (one_of ''_-''), lit ''key''], seq [lit ''access'', opt (one_of ''_-''), lit ''key''],
     seq [lit ''secret'', opt (one_of ''_-''), lit ''key''], seq [lit ''client'', opt (one_of ''_-''), lit ''secret'']]"

definition assignmentSecretRegex :: regex where
  "assignmentSecretRegex = seq
     [WordBoundary,
      Group 1 (alt (secret_labels @
        [seq [lit ''connection'', star rx_space, lit ''string''],
         seq [lit ''conn'', opt (lit ''ection''), opt (one_of ''_-''), lit ''string'']])),
      WordBoundary,
      Group 2 (seq [star rx_space, one_of '':='', star rx_space]),
      Group 3 (opt (one_of quotes)),
      Group 4 (plus1 (none_of (quotes @ [CHR 0x0D, CHR 0x0A, CHR '';'']))),
      opt (one_of quotes)]"

definition xmlSecretRegex :: regex where
  "xmlSecretRegex = seq
     [lit ''<'',
      Group 1 (alt [lit ''password'', lit ''passord'', lit ''passwd'', lit ''pwd'', lit ''secret'', lit ''token'',
        lit ''apikey'', lit ''clientsecret'']),
      lit ''>'', Group 2 (plus1 (none_of ''<'')), lit ''</'', plus1 (none_of ''>''), lit ''>'']"

definition xmlAddValueRegex :: regex where
  "xmlAddValueRegex = seq
     [lit ''<add'', WordBoundary, star (none_of ''>''), WordBoundary, alt [lit ''key'', lit ''name''],
      star rx_space, lit ''='', star rx_space, one_of quotes,
      Group 1 (Rep 1 (Some 64) (none_of quotes)), one_of quotes, star (none_of ''>''), WordBoundary,
      lit ''value'', star rx_space, lit ''='', star rx_space, one_of quotes,
      Group 2 (plus1 (none_of quotes)), one_of quotes, star (none_of ''>''), opt (lit ''/''), lit ''>'']"

definition xmlSecretAttrRegex :: regex where
  "xmlSecretAttrRegex = seq
     [lit ''<'', plus1 (none_of ''>''), WordBoundary, Group 1 (alt secret_labels),
      star rx_space, lit ''='', star rx_space, one_of quotes, Group 2 (plus1 (none_of quotes)), one_of quotes,
      star (none_of ''>''), opt (lit ''/''), lit ''>'']"

definition identityLineRegex :: regex where
  "identityLineRegex = seq
     [WordBoundary,
      alt [seq [lit ''user'', opt (lit ''name'')], lit ''login'', lit ''account'', lit ''email'', lit ''upn'',
        lit ''domain'', lit ''domene'', lit ''domain administrator'', lit ''domene administrator''],
      WordBoundary]"

definition label_char :: "char \<Rightarrow> bool" where
  "label_char c \<longleftrightarrow> is_letter c \<or> digit_char_p c \<or> c \<in> set ''._@-''"

definition genericPairRegex :: regex where
  "genericPairRegex = seq
     [LineBegin, star rx_space,
      Group 1 (alt [seq [Sym is_letter, Rep 1 (Some 32) (Sym label_char)],
        lit ''domain administrator'', lit ''domene administrator'']),
      Group 2 (seq [star rx_space, one_of '':='', star rx_space]),
      Group 3 (Rep 4 (Some 64) (none_of (space_chars @ quotes @ '';''))), star rx_space, LineEnd]"

definition credentialContextLabelRegex :: regex where
  "credentialContextLabelRegex = seq
     [TextBegin,
      alt [seq [lit ''user'', opt (lit ''name'')], lit ''login'', lit ''account'', lit ''email'', lit ''upn'',
        seq [lit ''admin'', opt (lit ''istrator'')], lit ''domain administrator'', lit ''domene administrator'',
        seq [lit ''db'', opt (one_of ''_-''), lit ''user''], seq [lit ''service'', opt (one_of ''_-''), lit ''account'']],
      TextEnd]"

definition alias_tail :: regex where
  "alias_tail = plus1 (Sym (\<lambda>c. is_letter c \<or> digit_char_p c \<or> c \<in> set ''._-''))"

definition accountAliasLabelRegex :: regex where
  "accountAliasLabelRegex = seq
     [TextBegin,
      alt [seq [lit ''svc'', opt (one_of ''_-''), alias_tail], seq [lit ''app'', opt (one_of ''_-''), alias_tail],
        seq [lit ''sql'', opt (one_of ''_-''), alias_tail], seq [lit ''adm'', opt (one_of ''_-''), alias_tail],
        seq [star (Sym (\<lambda>c. is_letter c \<or> digit_char_p c \<or> c \<in> set ''._-'')), lit ''admin'']],
      TextEnd]"

definition genericResourceLabelRegex :: regex where
  "genericResourceLabelRegex = seq
     [TextBegin,
      alt [lit ''msg'', lit ''message'', lit ''text'', lit ''label'', lit ''caption'', lit ''title'',
        lit ''description'', lit ''desc'', lit ''prompt'', lit ''error'', lit ''info'', lit ''hint'', lit ''notice'',
        lit ''status'', seq [lit ''default'', opt (alt [lit ''server'', lit ''host'', lit ''url''])], lit ''server'',
        lit ''host'', lit ''url'', lit ''uri'', lit ''path'', lit ''dir'', lit ''directory'', lit ''file'', lit ''folder''],
      star (one_of ''0123456789._-''), TextEnd]"

definition disallowedGenericPairLabels :: "string list" where
  "disallowedGenericPairLabels =
     [''http'', ''https'', ''ftp'', ''ftps'', ''smb'', ''ldap'', ''ldaps'', ''ssh'', ''file'']"

subsection \<open>Labels and pairs\<close>

record genericPairMatch =
  gp_Label :: string
  gp_Sep :: string
  gp_Value :: string

definition isPasswordLabel :: "string \<Rightarrow> bool" where
  "isPasswordLabel label \<longleftrightarrow>
     to_lower (trim_space label) \<in> set [''password'', ''passord'', ''passwd'', ''pwd'', ''databasepassword'']"

definition isSecretLabel :: "string \<Rightarrow> bool" where
  "isSecretLabel label0 =
     (let label = to_lower (trim_space label0)
      in isPasswordLabel label \<or>
         label \<in> set [''secret'', ''token'', ''apikey'', ''api_key'', ''accesskey'', ''access_key'', ''secretkey'',
           ''secret_key'', ''clientsecret'', ''client_secret''])"

definition isCredentialContextLabel :: "string \<Rightarrow> bool" where
  "isCredentialContextLabel label0 =
     (let label = trim_space label0
      in if label = [] then False else rx_matches credentialContextLabelRegex label)"

definition genericPairLooksLikeURI :: "string \<Rightarrow> string \<Rightarrow> bool" where
  "genericPairLooksLikeURI label value =
     (if to_lower (trim_space label) \<in> set disallowedGenericPairLabels
      then has_prefix (trim_space value) ''//'' else False)"

definition parseGenericPairLine :: "string \<Rightarrow> genericPairMatch option" where
  "parseGenericPairLine line0 =
     (let line = trim_space line0 in
      case rx_find genericPairRegex line 0 of
        None \<Rightarrow> None
      | Some m \<Rightarrow>
          let label = trim_space (group_text line m 1);
              value = trim_space (group_text line m 3)
          in if genericPairLooksLikeURI label value then None
             else if rx_matches genericResourceLabelRegex (to_lower label) then None
             else if \<not> isCredentialContextLabel label \<and>
                     (\<not> rx_matches accountAliasLabelRegex label \<or>
                      vq_Weak (assessSensitiveValueQuality value)) then None
             else Some \<lparr>gp_Label = label, gp_Sep = group_text line m 2, gp_Value = value\<rparr>)"

definition parseXMLAddValueLine :: "string \<Rightarrow> (string \<times> string) option" where
  "parseXMLAddValueLine line0 =
     (let line = trim_space line0 in
      case rx_find xmlAddValueRegex line 0 of
        None \<Rightarrow> None
      | Some m \<Rightarrow> Some (trim_space (group_text line m 1), trim_space (group_text line m 2)))"

definition extractedSensitiveValues :: "string \<Rightarrow> string list" where
  "extractedSensitiveValues blob =
     map (\<lambda>m. group_text blob m 4) (rx_findall assignmentSecretRegex blob) @
     map (\<lambda>m. group_text blob m 2) (rx_findall xmlSecretRegex blob) @
     map (\<lambda>m. group_text blob m 2)
       (filter (\<lambda>m. isSecretLabel (group_text blob m 1)) (rx_findall xmlAddValueRegex blob)) @
     map (\<lambda>m. group_text blob m 2) (rx_findall xmlSecretAttrRegex blob) @
     List.map_filter (\<lambda>line. map_option gp_Value (parseGenericPairLine line)) (split_on CHR 0x0A blob)"

subsection \<open>Connection strings and weak matches\<close>

definition assessConnectionStringQuality :: "string \<Rightarrow> valueQuality" where
  "assessConnectionStringQuality blob =
     (let lower = to_lower (trim_space blob) in
      if lower = [] then no_quality
      else if \<not> looksLikeConnectionMaterial lower then no_quality
      else
        let values = extractedSensitiveValues blob in
        if length values = 0 then
          \<lparr>vq_Score = 4, vq_Label = ''low'',
           vq_Reason = ''connection-like content was present, but no usable authentication value was extracted'',
           vq_Weak = True, vq_Strong = False\<rparr>
        else
          let quality = assessExtractedValuesQuality values in
          if vq_Strong quality then
            quality\<lparr>vq_Score := maxInt (vq_Score quality) 16,
              vq_Reason := ''connection string contains structural database fields and a strong non-placeholder authentication value''\<rparr>
          else if vq_Weak quality then
            quality\<lparr>vq_Score := minInt (vq_Score quality) 4,
              vq_Reason := ''connection-like content was present, but the extracted authentication value looks placeholder-like or weak''\<rparr>
          else
            quality\<lparr>vq_Score := maxInt (vq_Score quality) 10, vq_Label := ''medium'',
              vq_Reason := ''connection string contains structural database fields and a plausible authentication value''\<rparr>)"

definition weakContentSuppression :: "string \<Rightarrow> string \<Rightarrow> string \<Rightarrow> string \<Rightarrow> bool \<times> string" where
  "weakContentSuppression ruleID category matchedText ctx =
     (let blob = trim_space (firstNonEmptyString [ctx, matchedText]) in
      if blob = [] then (False, [])
      else if ruleID = ''content.database_connection_string_indicators'' then
        (if vq_Weak (assessConnectionStringQuality blob)
         then (True, ''connection string values look placeholder-like or weak'') else (False, []))
      else if to_lower (trim_space category) \<in> set [''credentials'', ''infrastructure''] then
        (if vq_Weak (assessExtractedValuesQuality (extractedSensitiveValues blob))
         then (True, ''sensitive values look placeholder-like or low quality'') else (False, []))
      else (False, []))"

definition shouldSuppressWeakContentMatch :: "string \<Rightarrow> string \<Rightarrow> string \<Rightarrow> string \<Rightarrow> bool" where
  "shouldSuppressWeakContentMatch ruleID category matchedText ctx =
     fst (weakContentSuppression ruleID category matchedText ctx)"

definition hasMeaningfulConnectionStringEvidence :: "string \<Rightarrow> bool" where
  "hasMeaningfulConnectionStringEvidence blob =
     (let quality = assessConnectionStringQuality blob in \<not> vq_Weak quality \<and> vq_Score quality \<ge> 10)"

definition hasMeaningfulSensitiveValue :: "string \<Rightarrow> bool" where
  "hasMeaningfulSensitiveValue blob =
     (let quality = assessExtractedValuesQuality (extractedSensitiveValues blob)
      in \<not> vq_Weak quality \<and> vq_Score quality \<ge> 8)"

definition hasPlaceholderOnlyValue :: "string \<Rightarrow> bool" where
  "hasPlaceholderOnlyValue blob = vq_Weak (assessExtractedValuesQuality (extractedSensitiveValues blob))"

subsection \<open>Context of a match\<close>

record contentMatchDetails =
  md_match :: string
  md_matchedText :: string
  md_matchedTextRedacted :: string
  md_snippet :: string
  md_context :: string
  md_contextRedacted :: string
  md_potentialAccount :: string
  md_lineNumber :: int

definition clampIndex :: "int \<Rightarrow> int \<Rightarrow> int" where
  "clampIndex value maxValue = (if value < 0 then 0 else if value > maxValue then maxValue else value)"

definition limitRunes :: "string \<Rightarrow> int \<Rightarrow> string" where
  "limitRunes value maxCount =
     (if maxCount \<le> 0 then value
      else if int (length value) \<le> maxCount then value
      else take (nat maxCount) value @ ''...'')"

definition normalizedIndex :: "string \<Rightarrow> int \<Rightarrow> int" where
  "normalizedIndex content idx0 =
     (let idx = clampIndex idx0 (int (length content))
      in int (length (filter (\<lambda>c. c \<noteq> CHR 0x0D) (take (nat idx) content))))"

definition identity_check :: "string list \<Rightarrow> int \<Rightarrow> string" where
  "identity_check lines idx =
     (if idx < 0 \<or> idx \<ge> int (length lines) then []
      else
        let line = trim_space (lines ! nat idx) in
        if line = [] then []
        else
          case parseGenericPairLine line of
            Some m \<Rightarrow> gp_Label m
          | None \<Rightarrow>
              let fallback = (if \<not> rx_matches identityLineRegex line then [] else line) in
              (case parseXMLAddValueLine line of
                 Some (label, value) \<Rightarrow>
                   if isCredentialContextLabel label then
                     (if trim_space value \<noteq> [] then label @ ''='' @ value else label)
                   else fallback
               | None \<Rightarrow> fallback))"

fun first_nonempty :: "string list \<Rightarrow> string" where
  "first_nonempty [] = []"
| "first_nonempty (s # ss) = (if s \<noteq> [] then s else first_nonempty ss)"

definition nearbyIdentityLine :: "string list \<Rightarrow> int \<Rightarrow> string" where
  "nearbyIdentityLine lines lineIndex =
     (if length lines = 0 then []
      else first_nonempty (map (identity_check lines)
        [lineIndex, lineIndex - 1, lineIndex + 1, lineIndex - 2, lineIndex + 2, lineIndex - 3, lineIndex + 3]))"

definition newline :: string where "newline = [CHR 0x0A]"
definition carriage_return :: string where "carriage_return = [CHR 0x0D]"

definition captureMatchContext :: "string \<Rightarrow> int \<Rightarrow> int \<Rightarrow> string \<times> int \<times> string" where
  "captureMatchContext content start0 end0 =
     (let normalized = replace_all carriage_return newline
            (replace_all (carriage_return @ newline) newline content);
          start = clampIndex (normalizedIndex content start0) (int (length normalized));
          lines = split_on CHR 0x0A normalized;
          lineIndex0 = int (count_list (take (nat start) normalized) CHR 0x0A);
          lineIndex = (if lineIndex0 \<ge> int (length lines) then int (length lines) - 1 else lineIndex0);
          contextStart = max 0 (lineIndex - 1);
          contextEnd = min (int (length lines)) (lineIndex + 2);
          context0 = trim_space (join newline
            (take (nat (contextEnd - contextStart)) (drop (nat contextStart) lines)));
          ctx = (if context0 = [] \<and> lineIndex \<ge> 0 \<and> lineIndex < int (length lines)
                 then trim_space (lines ! nat lineIndex) else context0)
      in (ctx, lineIndex + 1, nearbyIdentityLine lines lineIndex))"

definition flattenSnippet :: "string \<Rightarrow> int \<Rightarrow> string" where
  "flattenSnippet content maxBytes =
     limitRunes (replace_all carriage_return [] (replace_all newline [CHR 0x5C, CHR ''n''] content)) maxBytes"

subsection \<open>Redaction\<close>

definition stars :: string where "stars = ''********''"

text \<open>\<open>strings.Replace(s, old, new, 1)\<close> for a non-empty old string.\<close>

fun replace_first :: "string \<Rightarrow> string \<Rightarrow> string \<Rightarrow> string" where
  "replace_first old new [] = []"
| "replace_first old new (c # cs) =
     (if has_prefix (c # cs) old then new @ drop (length old) (c # cs) else c # replace_first old new cs)"

definition redactXMLAttributeAssignments :: "string \<Rightarrow> string" where
  "redactXMLAttributeAssignments text0 =
     (let text1 = rx_replace xmlAddValueRegex (\<lambda>m.
            let value = match_text text0 m in
            case rx_find xmlAddValueRegex value 0 of
              None \<Rightarrow> value
            | Some k \<Rightarrow>
                if \<not> isSecretLabel (trim_space (group_text value k 1)) then value
                else replace_first (group_text value k 2) stars value) text0
      in rx_replace xmlSecretAttrRegex (\<lambda>m.
            let value = match_text text1 m in
            case rx_find xmlSecretAttrRegex value 0 of
              None \<Rightarrow> value
            | Some k \<Rightarrow> replace_first (group_text value k 2) stars value) text1)"

definition redactGenericPairLines :: "string \<Rightarrow> string" where
  "redactGenericPairLines txt =
     join newline (map (\<lambda>line.
        case parseGenericPairLine line of
          None \<Rightarrow> line
        | Some m \<Rightarrow> gp_Label m @ gp_Sep m @ stars) (split_on CHR 0x0A txt))"

definition redactSensitiveText :: "string \<Rightarrow> string" where
  "redactSensitiveText txt =
     (if trim_space txt = [] then []
      else
        let redacted1 = rx_replace assignmentSecretRegex
              (\<lambda>m. group_text txt m 1 @ group_text txt m 2 @ group_text txt m 3 @ stars) txt;
            redacted2 = rx_replace xmlSecretRegex
              (\<lambda>m. ''<'' @ group_text redacted1 m 1 @ ''>'' @ stars @ ''</'' @ group_text redacted1 m 1 @ ''>'')
              redacted1;
            redacted3 = redactXMLAttributeAssignments redacted2
        in redactGenericPairLines redacted3)"

subsection \<open>The match of a rule in a text\<close>

definition xmlAssignmentRange :: "string \<Rightarrow> (string \<Rightarrow> bool) \<Rightarrow> (nat \<times> nat) option" where
  "xmlAssignmentRange content allowLabel =
     (case find (\<lambda>m. allowLabel (trim_space (group_text content m 1))) (rx_findall xmlAddValueRegex content) of
        Some m \<Rightarrow> Some (rf_start m, rf_end m)
      | None \<Rightarrow>
          (case find (\<lambda>m. allowLabel (trim_space (group_text content m 1))) (rx_findall xmlSecretAttrRegex content) of
             Some m \<Rightarrow> Some (rf_start m, rf_end m)
           | None \<Rightarrow> None))"

definition noteStyleRule :: string where
  "noteStyleRule = ''content.note_style_credential_pair_indicators''"

definition contentMatchRange :: "regex_engine \<Rightarrow> string \<Rightarrow> string \<Rightarrow> string \<Rightarrow> (nat \<times> nat) option" where
  "contentMatchRange re ruleID expr content =
     (let direct =
        (if ruleID = noteStyleRule
         then find (\<lambda>(i, j). parseGenericPairLine (substr content i j) \<noteq> None) (rx_all_index re expr content)
         else (case rx_all_index re expr content of [] \<Rightarrow> None | r # _ \<Rightarrow> Some r))
      in case direct of
           Some r \<Rightarrow> Some r
         | None \<Rightarrow>
             if ruleID = ''content.password_assignment_indicators'' then xmlAssignmentRange content isPasswordLabel
             else if ruleID = ''content.secret_assignment_indicators'' then xmlAssignmentRange content isSecretLabel
             else None)"

text \<open>The rule's expression is compiled when it is first used; a rule that does not compile has no match.\<close>

definition buildContentMatchDetails :: "regex_engine \<Rightarrow> Rule \<Rightarrow> string \<Rightarrow> int \<Rightarrow> contentMatchDetails option" where
  "buildContentMatchDetails re rule content snippetBytes =
     (if rx_error re (rule_expr rule) \<noteq> None then None
      else
        case contentMatchRange re (r_ID rule) (rule_expr rule) content of
          None \<Rightarrow> None
        | Some (i, j) \<Rightarrow>
            let m = substr content i j in
            if r_ID rule = noteStyleRule \<and> parseGenericPairLine m = None then None
            else
              case captureMatchContext content (int i) (int j) of
                (ctx, lineNumber, potentialAccount) \<Rightarrow>
                  let redactedMatch = redactSensitiveText m;
                      redactedContext = redactSensitiveText ctx
                  in Some \<lparr>md_match = m, md_matchedText = m, md_matchedTextRedacted = redactedMatch,
                           md_snippet = flattenSnippet ctx snippetBytes,
                           md_context = limitRunes ctx 320,
                           md_contextRedacted = limitRunes redactedContext 320,
                           md_potentialAccount = limitRunes potentialAccount 160,
                           md_lineNumber = lineNumber\<rparr>)"

subsection \<open>Properties\<close>

lemma limitRunes_length: "0 < n \<Longrightarrow> int (length (limitRunes s n)) \<le> n + 3"
  by (simp add: limitRunes_def)

lemma clampIndex_bounds: "0 \<le> m \<Longrightarrow> 0 \<le> clampIndex v m \<and> clampIndex v m \<le> m"
  by (simp add: clampIndex_def)

lemma line_index_in_range: "count_list (take n s) c < length (split_on c s)"
  by (simp add: length_split_on le_imp_less_Suc count_list_take_le)

text \<open>
  The context of a match: the line number is that of a line of the text, whatever the offsets
  passed in; in a text without carriage returns it is one more than the number of newlines before
  the match, and the context has no white space around it.
\<close>

theorem captureMatchContext_line:
  "case captureMatchContext content start e of (ctx, line, account) \<Rightarrow>
     1 \<le> line \<and>
     (CHR 0x0D \<notin> set content \<longrightarrow>
        line \<le> int (length (split_on CHR 0x0A content)) \<and>
        line = 1 + int (count_list (take (nat (clampIndex start (int (length content)))) content) CHR 0x0A) \<and>
        trim_space ctx = ctx)"
proof -
  let ?norm = "replace_all carriage_return newline (replace_all (carriage_return @ newline) newline content)"
  let ?s = "clampIndex (normalizedIndex content start) (int (length ?norm))"
  have ix: "count_list (take (nat ?s) ?norm) CHR 0x0A < length (split_on CHR 0x0A ?norm)"
    by (rule line_index_in_range)
  have plain: "?norm = content \<and> ?s = clampIndex start (int (length content))" if "CHR 0x0D \<notin> set content"
  proof -
    have "\<not> contains content (carriage_return @ newline)" "\<not> contains content carriage_return"
      using that contains_first [of content "carriage_return @ newline"] contains_first [of content carriage_return]
      by (auto simp: carriage_return_def)
    then have n: "?norm = content" by (simp add: replace_all_absent carriage_return_def)
    have "filter (\<lambda>c. c \<noteq> CHR 0x0D) (take k content) = take k content" for k
      using that by (auto simp: filter_id_conv dest: in_set_takeD)
    then have "normalizedIndex content start = int (length (take (nat (clampIndex start (int (length content)))) content))"
      by (simp add: normalizedIndex_def Let_def)
    then have "?s = clampIndex start (int (length content))"
      using n clampIndex_bounds [of "int (length content)" start] by (simp add: clampIndex_def)
    with n show ?thesis by simp
  qed
  have line: "fst (snd (captureMatchContext content start e)) = 1 + int (count_list (take (nat ?s) ?norm) CHR 0x0A)"
  proof -
    have nb: "(int (length (split_on CHR 0x0A ?norm)) \<le> int (count_list (take (nat ?s) ?norm) CHR 0x0A)) = False"
      using ix by simp
    show ?thesis unfolding captureMatchContext_def Let_def by (simp only: nb if_False fst_conv snd_conv add.commute)
  qed
  have ctx: "trim_space (fst (captureMatchContext content start e)) = fst (captureMatchContext content start e)"
    unfolding captureMatchContext_def Let_def by (simp only: fst_conv trim_space_idem split: if_split) simp
  show ?thesis
  proof (cases "captureMatchContext content start e")
    case (fields ctx l account)
    have "1 \<le> l" "trim_space ctx = ctx" using line ctx fields by simp_all
    moreover have "l \<le> int (length (split_on CHR 0x0A content)) \<and>
        l = 1 + int (count_list (take (nat (clampIndex start (int (length content)))) content) CHR 0x0A)"
      if "CHR 0x0D \<notin> set content"
    proof -
      from plain [OF that] have p1: "?norm = content" and p2: "?s = clampIndex start (int (length content))"
        by blast+
      show ?thesis using line ix unfolding p2 unfolding p1 unfolding fields by simp
    qed
    ultimately show ?thesis unfolding fields prod.case by blast
  qed
qed

theorem captureMatchContext_line_witness:
  "fst (snd (captureMatchContext (''a'' @ newline @ ''b=c'') 2 5)) = 2"
proof -
  have "CHR 0x0D \<notin> set (''a'' @ newline @ ''b=c'')"
    "count_list (take (nat (clampIndex 2 (int (length (''a'' @ newline @ ''b=c''))))) (''a'' @ newline @ ''b=c'')) CHR 0x0A = 1"
    by code_simp+
  then show ?thesis
    using captureMatchContext_line [where content = "''a'' @ newline @ ''b=c''" and start = 2 and e = 5]
    by (auto split: prod.splits)
qed

lemma connection_quality_weak:
  "vq_Weak (assessConnectionStringQuality blob) \<longleftrightarrow>
     looksLikeConnectionMaterial (to_lower (trim_space blob)) \<and>
     (\<forall>v \<in> set (extractedSensitiveValues blob). vq_Weak (assessSensitiveValueQuality v))"
proof -
  define vs where "vs = extractedSensitiveValues blob"
  define q where "q = assessExtractedValuesQuality vs"
  have none: "\<not> looksLikeConnectionMaterial []" by code_simp
  have w: "vq_Weak q \<longleftrightarrow> vs \<noteq> [] \<and> (\<forall>v \<in> set vs. vq_Weak (assessSensitiveValueQuality v))"
    and s: "vq_Strong q \<Longrightarrow> \<not> vq_Weak q"
    using extracted_verdict [of vs] unfolding Let_def q_def [symmetric] quality_ok_def by blast+
  have nw: "\<not> vq_Weak no_quality" by (simp add: no_quality_def)
  show ?thesis
  proof (cases "looksLikeConnectionMaterial (to_lower (trim_space blob))")
    case True
    then have ne: "to_lower (trim_space blob) \<noteq> []" using none by metis
    have "vq_Weak (assessConnectionStringQuality blob) \<longleftrightarrow> vs = [] \<or> vq_Weak q"
      unfolding assessConnectionStringQuality_def Let_def vs_def [symmetric] q_def [symmetric]
      using True ne s by (cases "vs = []"; cases "vq_Strong q"; cases "vq_Weak q") simp_all
    then show ?thesis using True w unfolding vs_def by auto
  next
    case False
    then show ?thesis by (simp add: assessConnectionStringQuality_def nw Let_def)
  qed
qed

text \<open>
  C32: A content match is suppressed exactly when its text is not blank and either it is a
  connection string and every value found in it is weak (or none is found), or its category is
  credentials or infrastructure, a value is found in it and every one is weak. A match with a
  value that is not weak is never suppressed.
\<close>

theorem suppression_exact:
  "let blob = trim_space (firstNonEmptyString [ctx, matchedText]);
       allWeak = (\<forall>v \<in> set (extractedSensitiveValues blob). vq_Weak (assessSensitiveValueQuality v))
   in shouldSuppressWeakContentMatch ruleID category matchedText ctx \<longleftrightarrow>
        blob \<noteq> [] \<and> allWeak \<and>
        (if ruleID = ''content.database_connection_string_indicators''
         then looksLikeConnectionMaterial (to_lower blob)
         else to_lower (trim_space category) \<in> {''credentials'', ''infrastructure''} \<and>
              extractedSensitiveValues blob \<noteq> [])"
proof -
  have w: "vq_Weak (assessExtractedValuesQuality vs) \<longleftrightarrow>
      vs \<noteq> [] \<and> (\<forall>v \<in> set vs. vq_Weak (assessSensitiveValueQuality v))" for vs
    using extracted_verdict [of vs] by (simp add: Let_def)
  show ?thesis
    by (simp add: shouldSuppressWeakContentMatch_def weakContentSuppression_def connection_quality_weak w Let_def)
qed

theorem suppression_exact_witness:
  "\<not> shouldSuppressWeakContentMatch ''content.password_assignment_indicators'' ''credentials'' ''password=x'' '' ''
     \<longleftrightarrow> \<not> vq_Weak (assessSensitiveValueQuality ''x'')"
proof -
  have "trim_space (firstNonEmptyString ['' '', ''password=x'']) = ''password=x''"
    "extractedSensitiveValues ''password=x'' = [''x'']" "to_lower (trim_space ''credentials'') = ''credentials''"
    by code_simp+
  then show ?thesis
    using suppression_exact [where ctx = "'' ''" and matchedText = "''password=x''" and category = "''credentials''"
        and ruleID = "''content.password_assignment_indicators''"]
    by simp
qed

end
