(* ===== verification/Findings.thy ===== *)
theory Findings
  imports ContentText
begin

text \<open>
  The findings of the scanner: their data (\<open>scanner/results.go\<close>), the triage
  (\<open>scanner/triage.go\<close>), the quality of a finding's value (\<open>scanner/value_quality.go\<close>) and the
  construction of a finding from the match of a rule.
\<close>

record SupportingSignal =
  ss_SignalType :: string
  ss_RuleID :: string
  ss_RuleName :: string
  ss_Match :: string
  ss_Confidence :: string
  ss_Weight :: int
  ss_Reason :: string

record ConfidenceBreakdown =
  cb_BaseScore :: int
  cb_FinalScore :: int
  cb_ContentSignalStrength :: int
  cb_HeuristicSignalContribution :: int
  cb_ValueQualityScore :: int
  cb_ValueQualityLabel :: string
  cb_ValueQualityReason :: string
  cb_CorrelationContribution :: int
  cb_PathContextContribution :: int
  cb_TriageAdjustment :: int

record findingEvidence =
  ev_SignalType :: string
  ev_Match :: string
  ev_MatchedText :: string
  ev_MatchedTextRedacted :: string
  ev_Snippet :: string
  ev_Context :: string
  ev_ContextRedacted :: string
  ev_PotentialAccount :: string
  ev_LineNumber :: int

record Finding =
  f_RuleID :: string
  f_RuleName :: string
  f_Severity :: string
  f_Confidence :: string
  f_RuleConfidence :: string
  f_ConfidenceScore :: int
  f_ConfidenceReasons :: "string list"
  f_Category :: string
  f_TriageClass :: string
  f_Actionable :: bool
  f_Correlated :: bool
  f_ConfidenceBreakdown :: ConfidenceBreakdown
  f_Priority :: int
  f_PriorityReason :: string
  f_SharePriority :: int
  f_SharePriorityReason :: string
  f_FilePath :: string
  f_Share :: string
  f_ShareDescription :: string
  f_ShareType :: string
  f_Host :: string
  f_Source :: string
  f_ArchivePath :: string
  f_ArchiveMemberPath :: string
  f_ArchiveLocalInspect :: bool
  f_DatabaseFilePath :: string
  f_DatabaseTable :: string
  f_DatabaseColumn :: string
  f_DatabaseRowContext :: string
  f_DFSNamespacePath :: string
  f_DFSLinkPath :: string
  f_SignalType :: string
  f_Match :: string
  f_MatchedText :: string
  f_MatchedTextRedacted :: string
  f_Snippet :: string
  f_Context :: string
  f_ContextRedacted :: string
  f_PotentialAccount :: string
  f_LineNumber :: int
  f_MatchReason :: string
  f_RuleExplanation :: string
  f_RuleRemediation :: string
  f_FromSYSVOL :: bool
  f_FromNETLOGON :: bool
  f_MatchedRuleIDs :: "string list"
  f_MatchedSignalTypes :: "string list"
  f_SupportingSignals :: "SupportingSignal list"
  f_Tags :: "string list"

record SuppressedFinding =
  sf_Host :: string
  sf_Share :: string
  sf_FilePath :: string
  sf_RuleID :: string
  sf_Category :: string
  sf_Reason :: string

record FileMetadata =
  m_FilePath :: string
  m_Share :: string
  m_ShareDescription :: string
  m_ShareType :: string
  m_Host :: string
  m_Source :: string
  m_ArchivePath :: string
  m_ArchiveMemberPath :: string
  m_ArchiveLocalInspect :: bool
  m_Priority :: int
  m_PriorityReason :: string
  m_DFSNamespacePath :: string
  m_DFSLinkPath :: string
  m_Size :: int
  m_ModifiedAt :: int
  m_IsDir :: bool
  m_Name :: string
  m_Extension :: string
  m_SharePriority :: int
  m_SharePriorityReason :: string
  m_FromSYSVOL :: bool
  m_FromNETLOGON :: bool

record Evaluation =
  e_Skipped :: bool
  e_SkipReason :: string
  e_NeedContent :: bool
  e_ContentRead :: bool
  e_Findings :: "Finding list"

definition no_breakdown :: ConfidenceBreakdown where
  "no_breakdown = \<lparr>cb_BaseScore = 0, cb_FinalScore = 0, cb_ContentSignalStrength = 0,
     cb_HeuristicSignalContribution = 0, cb_ValueQualityScore = 0, cb_ValueQualityLabel = [],
     cb_ValueQualityReason = [], cb_CorrelationContribution = 0, cb_PathContextContribution = 0,
     cb_TriageAdjustment = 0\<rparr>"

text \<open>The zero value of the struct.\<close>

definition zero_finding :: Finding where
  "zero_finding = \<lparr>f_RuleID = [], f_RuleName = [], f_Severity = [], f_Confidence = [], f_RuleConfidence = [],
     f_ConfidenceScore = 0, f_ConfidenceReasons = [], f_Category = [], f_TriageClass = [], f_Actionable = False,
     f_Correlated = False, f_ConfidenceBreakdown = no_breakdown, f_Priority = 0, f_PriorityReason = [],
     f_SharePriority = 0, f_SharePriorityReason = [], f_FilePath = [], f_Share = [], f_ShareDescription = [],
     f_ShareType = [], f_Host = [], f_Source = [], f_ArchivePath = [], f_ArchiveMemberPath = [],
     f_ArchiveLocalInspect = False, f_DatabaseFilePath = [], f_DatabaseTable = [], f_DatabaseColumn = [],
     f_DatabaseRowContext = [], f_DFSNamespacePath = [], f_DFSLinkPath = [], f_SignalType = [], f_Match = [],
     f_MatchedText = [], f_MatchedTextRedacted = [], f_Snippet = [], f_Context = [], f_ContextRedacted = [],
     f_PotentialAccount = [], f_LineNumber = 0, f_MatchReason = [], f_RuleExplanation = [],
     f_RuleRemediation = [], f_FromSYSVOL = False, f_FromNETLOGON = False, f_MatchedRuleIDs = [],
     f_MatchedSignalTypes = [], f_SupportingSignals = [], f_Tags = []\<rparr>"

definition Normalized :: "FileMetadata \<Rightarrow> FileMetadata" where
  "Normalized m =
     (let out1 = m\<lparr>m_FilePath := NormalizePath (m_FilePath m)\<rparr>;
          out2 = (if m_Name out1 = [] then out1\<lparr>m_Name := path_base (m_FilePath out1)\<rparr> else out1)
      in if m_Extension out2 = [] then out2\<lparr>m_Extension := path_ext (m_Name out2)\<rparr> else out2)"

subsection \<open>Signals\<close>

definition hasSignalType :: "Finding \<Rightarrow> string \<Rightarrow> bool" where
  "hasSignalType f signalType0 =
     (let signalType = trim_space signalType0 in
      if signalType = [] then False
      else list_ex (\<lambda>candidate. equal_fold (trim_space candidate) signalType) (f_MatchedSignalTypes f) \<or>
           equal_fold (trim_space (f_SignalType f)) signalType \<or>
           list_ex (\<lambda>signal. equal_fold (trim_space (ss_SignalType signal)) signalType) (f_SupportingSignals f))"

definition findingPrimarySignal :: "Finding \<Rightarrow> string" where
  "findingPrimarySignal f =
     (if trim_space (f_SignalType f) \<noteq> [] then trim_space (f_SignalType f)
      else case f_MatchedSignalTypes f of s # _ \<Rightarrow> trim_space s | [] \<Rightarrow> [])"

definition baseSignalWeight :: "string \<Rightarrow> int" where
  "baseSignalWeight signalType =
     (if signalType = ''validated'' then 40
      else if signalType = ''content'' then 32
      else if signalType = ''filename'' then 18
      else if signalType = ''extension'' then 10
      else if signalType = ''path'' then 12
      else if signalType = ''share_priority'' then 10
      else if signalType = ''planner_priority'' then 12
      else 0)"

subsection \<open>The quality of a finding's value\<close>

definition assessFindingValueQuality :: "Finding \<Rightarrow> valueQuality" where
  "assessFindingValueQuality f =
     (let blob = firstNonEmptyString [f_Context f, f_MatchedText f, f_Match f] in
      if hasSignalType f ''validated'' then
        (let structured =
           (if to_lower (trim_space (f_Category f)) \<in>
                 set [''database-access'', ''credentials'', ''crypto'', ''deployment'']
            then \<lparr>vq_Score = 18, vq_Label = ''high'',
                   vq_Reason = ''structured or validated evidence includes access details or secret-like material'',
                   vq_Weak = False, vq_Strong = True\<rparr>
            else \<lparr>vq_Score = 14, vq_Label = ''high'',
                   vq_Reason = ''structured or validated evidence was derived from parseable file content'',
                   vq_Weak = False, vq_Strong = True\<rparr>)
         in if looksLikeConnectionMaterial blob
            then (let quality = assessConnectionStringQuality blob
                  in if vq_Score quality \<ge> 14 then quality else structured)
            else structured)
      else if hasSignalType f ''content'' then
        (if looksLikeConnectionMaterial blob then assessConnectionStringQuality blob
         else
           let quality = assessExtractedValuesQuality (extractedSensitiveValues blob)
           in if vq_Score quality > 0 then quality
              else \<lparr>vq_Score = 8, vq_Label = ''medium'', vq_Reason = ''content evidence was captured from the file body'',
                    vq_Weak = False, vq_Strong = False\<rparr>)
      else if hasSignalType f ''filename'' \<or> hasSignalType f ''extension'' then
        \<lparr>vq_Score = 0, vq_Label = ''low'',
         vq_Reason = ''confidence comes from metadata and context rather than extracted value quality'',
         vq_Weak = False, vq_Strong = False\<rparr>
      else no_quality)"

definition valueQualityAssessment :: "Finding \<Rightarrow> int \<times> string \<times> string" where
  "valueQualityAssessment f =
     (let quality = assessFindingValueQuality f in (vq_Score quality, vq_Label quality, vq_Reason quality))"

subsection \<open>Triage\<close>

definition findingSeverityRank :: "string \<Rightarrow> int" where
  "findingSeverityRank value =
     (let v = to_lower (trim_space value) in
      if v = ''critical'' then 4
      else if v = ''high'' then 3
      else if v = ''medium'' then 2
      else if v = ''low'' then 1
      else 0)"

definition confidenceRank :: "string \<Rightarrow> int" where
  "confidenceRank value =
     (let v = to_lower (trim_space value) in
      if v = ''high'' then 3 else if v = ''medium'' then 2 else if v = ''low'' then 1 else 0)"

definition confidenceLevelForScore :: "int \<Rightarrow> string" where
  "confidenceLevelForScore score =
     (if score \<ge> 70 then ''high'' else if score \<ge> 35 then ''medium'' else ''low'')"

definition appendUniqueReason :: "string list \<Rightarrow> string \<Rightarrow> string list" where
  "appendUniqueReason values reason0 =
     (let reason = trim_space reason0 in
      if reason = [] then values
      else if list_ex (\<lambda>value. equal_fold (trim_space value) reason) values then values
      else values @ [reason])"

definition isDirectExploitArtifact :: "Finding \<Rightarrow> bool" where
  "isDirectExploitArtifact f \<longleftrightarrow>
     to_lower (trim_space (f_RuleID f)) \<in> set
       [''filename.private_key_artifacts'', ''filename.secret_store_artifacts'',
        ''filename.windows_hive_artifacts'', ''filename.ad_database_backup_artifacts'',
        ''filename.windows_hive_backup_artifacts'']"

definition isValidatedArtifactIdentityOnly :: "Finding \<Rightarrow> bool" where
  "isValidatedArtifactIdentityOnly f =
     (let ruleID = to_lower (trim_space (f_RuleID f)) in
      has_prefix ruleID ''backupinspect.path.'' \<or>
      has_prefix ruleID ''browsercredinspect.'' \<or>
      has_prefix ruleID ''dbinspect.artifact.'' \<or>
      has_prefix ruleID ''dbinspect.infrastructure.'' \<or>
      has_prefix ruleID ''wincredinspect.path.'' \<or>
      ruleID = ''awsinspect.path.credentials'' \<or>
      ruleID = ''awsinspect.path.config'')"

definition hasUsablePrimaryEvidence :: "Finding \<Rightarrow> bool" where
  "hasUsablePrimaryEvidence f =
     (let quality = assessFindingValueQuality f in
      if vq_Weak quality then False
      else
        let signal = to_lower (trim_space (findingPrimarySignal f)) in
        if signal = ''content'' then True
        else if signal = ''validated'' then \<not> isValidatedArtifactIdentityOnly f
        else False)"

definition hasStrongEvidence :: "Finding \<Rightarrow> bool" where
  "hasStrongEvidence f =
     (if equal_fold (trim_space (findingPrimarySignal f)) ''correlation'' then True
      else if hasUsablePrimaryEvidence f then True
      else isDirectExploitArtifact f)"

definition isConfigOnlyFinding :: "Finding \<Rightarrow> bool" where
  "isConfigOnlyFinding f =
     (if \<not> equal_fold (trim_space (f_Category f)) ''configuration'' then False
      else \<not> hasStrongEvidence f)"

definition isWeakReviewFinding :: "Finding \<Rightarrow> bool" where
  "isWeakReviewFinding f = (\<not> hasStrongEvidence f)"

definition triageActionable :: string where "triageActionable = ''actionable''"
definition triageConfigOnly :: string where "triageConfigOnly = ''config-only''"
definition triageWeakReview :: string where "triageWeakReview = ''weak-review''"

definition triageClassForFinding :: "Finding \<Rightarrow> string" where
  "triageClassForFinding f =
     (if isConfigOnlyFinding f then triageConfigOnly
      else if isWeakReviewFinding f then triageWeakReview
      else triageActionable)"

definition configOnlyReason :: string where
  "configOnlyReason = ''configuration artifact was identified without actionable evidence''"

definition weakReviewReason :: string where
  "weakReviewReason = ''heuristic review signal did not include actionable evidence''"

definition applyTriageMetadata :: "Finding \<Rightarrow> Finding" where
  "applyTriageMetadata f0 =
     (let f1 = f0\<lparr>f_Correlated := length (f_MatchedSignalTypes f0) > 1 \<or> length (f_MatchedRuleIDs f0) > 1\<rparr>;
          f2 = f1\<lparr>f_TriageClass := triageClassForFinding f1\<rparr>;
          f = f2\<lparr>f_Actionable := f_TriageClass f2 = triageActionable\<rparr>
      in if f_TriageClass f = triageConfigOnly then
           f\<lparr>f_Severity := (if findingSeverityRank (f_Severity f) > findingSeverityRank ''low'' then ''low'' else f_Severity f),
             f_ConfidenceScore := (if f_ConfidenceScore f > 24 then 24 else f_ConfidenceScore f),
             f_Confidence := ''low'',
             f_ConfidenceReasons := appendUniqueReason (f_ConfidenceReasons f) configOnlyReason\<rparr>
         else if f_TriageClass f = triageWeakReview then
           f\<lparr>f_Severity := (if findingSeverityRank (f_Severity f) > findingSeverityRank ''medium'' then ''medium'' else f_Severity f),
             f_ConfidenceScore := (if f_ConfidenceScore f > 34 then 34 else f_ConfidenceScore f),
             f_Confidence := (if trim_space (f_Confidence f) = [] \<or>
                  confidenceRank (f_Confidence f) > confidenceRank ''medium'' then ''medium'' else f_Confidence f),
             f_ConfidenceReasons := appendUniqueReason (f_ConfidenceReasons f) weakReviewReason\<rparr>
         else if trim_space (f_Confidence f) = [] \<and> f_ConfidenceScore f > 0 then
           f\<lparr>f_Confidence := confidenceLevelForScore (f_ConfidenceScore f)\<rparr>
         else f)"

subsection \<open>Findings from rules\<close>

definition signalTypeForRule :: "string \<Rightarrow> string" where
  "signalTypeForRule ruleType =
     (if ruleType = RuleTypeContent then ''content''
      else if ruleType = RuleTypeExtension then ''extension''
      else if ruleType = RuleTypeFilename then ''filename''
      else ''metadata'')"

definition dquote :: string where "dquote = [CHR 0x22]"

definition signalReasonForRule :: "Rule \<Rightarrow> string \<Rightarrow> string" where
  "signalReasonForRule rule match0 =
     (let m = trim_space match0;
          description = trim_space (r_Description rule);
          reason = (if description = [] then trim_space (r_Name rule) else description);
          surface = (if r_Type rule = RuleTypeContent then ''content''
            else if r_Type rule = RuleTypeExtension then ''extension'' else ''filename'')
      in if m \<noteq> [] then surface @ '' rule matched '' @ dquote @ m @ dquote @ '' for '' @ reason
         else surface @ '' rule matched for '' @ reason)"

definition matchReason :: "Rule \<Rightarrow> string \<Rightarrow> FileMetadata \<Rightarrow> string" where
  "matchReason rule match0 meta =
     (let (surface, ctx) =
        (if r_Type rule = RuleTypeContent then (''file contents'', ''contained text that matches the rule'')
         else if r_Type rule = RuleTypeFilename then
           (''filename'', ''matched a heuristic naming pattern covered by the rule'')
         else if r_Type rule = RuleTypeExtension then
           (''file extension'', ''matched an extension-based heuristic covered by the rule'')
         else (''file metadata'', ''matched the configured rule''));
          description = trim_space (r_Description rule);
          reason = (if description = [] then r_Name rule else description);
          m1 = trim_space match0;
          m = (if length m1 > 80 then take 77 m1 @ ''...'' else m1)
      in if m = [] then surface @ '' '' @ ctx @ '' for '' @ reason @ ''.''
         else surface @ '' '' @ ctx @ '' with match '' @ dquote @ m @ dquote @ '' for '' @ reason @ ''.'')"

definition heuristicEvidence :: "string \<Rightarrow> string \<Rightarrow> findingEvidence" where
  "heuristicEvidence ruleType m =
     \<lparr>ev_SignalType = signalTypeForRule ruleType, ev_Match = m, ev_MatchedText = m, ev_MatchedTextRedacted = m,
      ev_Snippet = [], ev_Context = [], ev_ContextRedacted = [], ev_PotentialAccount = [], ev_LineNumber = 0\<rparr>"

definition newFinding :: "Rule \<Rightarrow> FileMetadata \<Rightarrow> findingEvidence \<Rightarrow> Finding" where
  "newFinding rule meta ev =
     (let tags = r_Tags rule
            @ (if m_FromSYSVOL meta then [''ad-share:sysvol''] else [])
            @ (if m_FromNETLOGON meta then [''ad-share:netlogon''] else [])
            @ (if contains (to_lower (m_Source meta)) ''dfs'' then [''source:dfs''] else []);
          signalType = (if trim_space (ev_SignalType ev) \<noteq> [] then trim_space (ev_SignalType ev)
                        else signalTypeForRule (r_Type rule));
          signal = \<lparr>ss_SignalType = signalType, ss_RuleID = r_ID rule, ss_RuleName = r_Name rule,
            ss_Match = ev_Match ev, ss_Confidence = trim_space (r_Confidence rule),
            ss_Weight = baseSignalWeight signalType, ss_Reason = signalReasonForRule rule (ev_Match ev)\<rparr>
      in applyTriageMetadata (zero_finding\<lparr>
           f_RuleID := r_ID rule, f_RuleName := r_Name rule, f_Severity := r_Severity rule,
           f_Confidence := r_Confidence rule, f_RuleConfidence := r_Confidence rule,
           f_Category := r_Category rule, f_Priority := m_Priority meta,
           f_PriorityReason := m_PriorityReason meta, f_SharePriority := m_SharePriority meta,
           f_SharePriorityReason := m_SharePriorityReason meta, f_FilePath := m_FilePath meta,
           f_Share := m_Share meta, f_ShareDescription := m_ShareDescription meta,
           f_ShareType := m_ShareType meta, f_Host := m_Host meta, f_Source := m_Source meta,
           f_ArchivePath := m_ArchivePath meta, f_ArchiveMemberPath := m_ArchiveMemberPath meta,
           f_ArchiveLocalInspect := m_ArchiveLocalInspect meta,
           f_DFSNamespacePath := m_DFSNamespacePath meta, f_DFSLinkPath := m_DFSLinkPath meta,
           f_SignalType := signalType, f_Match := ev_Match ev, f_MatchedText := ev_MatchedText ev,
           f_MatchedTextRedacted := ev_MatchedTextRedacted ev, f_Snippet := ev_Snippet ev,
           f_Context := ev_Context ev, f_ContextRedacted := ev_ContextRedacted ev,
           f_PotentialAccount := ev_PotentialAccount ev, f_LineNumber := ev_LineNumber ev,
           f_MatchReason := matchReason rule (ev_Match ev) meta,
           f_RuleExplanation := trim_space (r_Explanation rule),
           f_RuleRemediation := trim_space (r_Remediation rule),
           f_FromSYSVOL := m_FromSYSVOL meta, f_FromNETLOGON := m_FromNETLOGON meta,
           f_MatchedRuleIDs := [r_ID rule], f_MatchedSignalTypes := [signalType],
           f_SupportingSignals := [signal], f_Tags := tags\<rparr>))"

text \<open>\<open>uniqueSorted\<close>: the first spelling of every value, up to case and white space, sorted.\<close>

fun unique_values :: "string list \<Rightarrow> string list \<Rightarrow> string list" where
  "unique_values seen [] = []"
| "unique_values seen (value # rest) =
     (let trimmed = trim_space value in
      if trimmed = [] then unique_values seen rest
      else
        let key = to_lower trimmed in
        if key \<in> set seen then unique_values seen rest
        else trimmed # unique_values (key # seen) rest)"

definition uniqueSorted :: "string list \<Rightarrow> string list" where
  "uniqueSorted values = (if length values = 0 then [] else sort (unique_values [] values))"

subsection \<open>Triage caps\<close>

text \<open>The fields the triage class depends on; triage changes none of them.\<close>

definition same_evidence :: "Finding \<Rightarrow> Finding \<Rightarrow> bool" where
  "same_evidence f g \<longleftrightarrow>
     f_SignalType f = f_SignalType g \<and> f_MatchedSignalTypes f = f_MatchedSignalTypes g \<and>
     f_SupportingSignals f = f_SupportingSignals g \<and> f_Context f = f_Context g \<and>
     f_MatchedText f = f_MatchedText g \<and> f_Match f = f_Match g \<and> f_Category f = f_Category g \<and>
     f_RuleID f = f_RuleID g"

lemma quality_same_evidence: "same_evidence f g \<Longrightarrow> assessFindingValueQuality f = assessFindingValueQuality g"
  by (simp only: same_evidence_def assessFindingValueQuality_def hasSignalType_def)

lemma strong_same_evidence: "same_evidence f g \<Longrightarrow> hasStrongEvidence f = hasStrongEvidence g"
  unfolding hasStrongEvidence_def hasUsablePrimaryEvidence_def
  by (simp only: quality_same_evidence)
    (simp only: same_evidence_def findingPrimarySignal_def isDirectExploitArtifact_def
      isValidatedArtifactIdentityOnly_def)

lemma class_same_evidence: "same_evidence f g \<Longrightarrow> triageClassForFinding f = triageClassForFinding g"
  unfolding triageClassForFinding_def isConfigOnlyFinding_def isWeakReviewFinding_def
  by (simp only: strong_same_evidence) (simp only: same_evidence_def)

lemma triage_classes:
  "triageClassForFinding f =
     (if hasStrongEvidence f then triageActionable
      else if equal_fold (trim_space (f_Category f)) ''configuration'' then triageConfigOnly
      else triageWeakReview)"
  by (simp add: triageClassForFinding_def isConfigOnlyFinding_def isWeakReviewFinding_def)

lemma triage_class_names [simp]:
  "triageActionable \<noteq> triageConfigOnly" "triageActionable \<noteq> triageWeakReview"
  "triageConfigOnly \<noteq> triageWeakReview" "triageConfigOnly \<noteq> triageActionable"
  "triageWeakReview \<noteq> triageActionable" "triageWeakReview \<noteq> triageConfigOnly"
  by (simp_all add: triageActionable_def triageConfigOnly_def triageWeakReview_def)

text \<open>The triage as one record update.\<close>

definition triaged_severity :: "string \<Rightarrow> string \<Rightarrow> string" where
  "triaged_severity c s =
     (if c = triageConfigOnly \<and> findingSeverityRank s > 1 then ''low''
      else if c = triageWeakReview \<and> findingSeverityRank s > 2 then ''medium'' else s)"

definition triaged_score :: "string \<Rightarrow> int \<Rightarrow> int" where
  "triaged_score c n =
     (if c = triageConfigOnly then min 24 n else if c = triageWeakReview then min 34 n else n)"

definition triaged_confidence :: "string \<Rightarrow> int \<Rightarrow> string \<Rightarrow> string" where
  "triaged_confidence c n conf =
     (if c = triageConfigOnly then ''low''
      else if c = triageWeakReview then (if trim_space conf = [] \<or> confidenceRank conf > 2 then ''medium'' else conf)
      else if trim_space conf = [] \<and> n > 0 then confidenceLevelForScore n else conf)"

definition triaged_reasons :: "string \<Rightarrow> string list \<Rightarrow> string list" where
  "triaged_reasons c rs =
     (if c = triageConfigOnly then appendUniqueReason rs configOnlyReason
      else if c = triageWeakReview then appendUniqueReason rs weakReviewReason else rs)"

lemma severity_constants [simp]:
  "findingSeverityRank ''low'' = 1" "findingSeverityRank ''medium'' = 2"
  "confidenceRank ''medium'' = 2" "confidenceRank ''low'' = 1" "confidenceRank ''high'' = 3"
  "trim_space ''low'' = ''low''" "trim_space ''medium'' = ''medium''" "trim_space ''high'' = ''high''"
  by code_simp+

lemma applyTriageMetadata_eq:
  "applyTriageMetadata f =
     (let c = triageClassForFinding f in
      f\<lparr>f_Correlated := length (f_MatchedSignalTypes f) > 1 \<or> length (f_MatchedRuleIDs f) > 1,
        f_TriageClass := c, f_Actionable := c = triageActionable,
        f_Severity := triaged_severity c (f_Severity f),
        f_ConfidenceScore := triaged_score c (f_ConfidenceScore f),
        f_Confidence := triaged_confidence c (f_ConfidenceScore f) (f_Confidence f),
        f_ConfidenceReasons := triaged_reasons c (f_ConfidenceReasons f)\<rparr>)"
proof -
  have c: "triageClassForFinding (f\<lparr>f_Correlated := b\<rparr>) = triageClassForFinding f" for b
    by (rule class_same_evidence) (simp add: same_evidence_def)
  have cl: "triageClassForFinding f = triageConfigOnly \<or> triageClassForFinding f = triageWeakReview
      \<or> triageClassForFinding f = triageActionable"
    by (simp add: triage_classes)
  have m: "(if n > k then k else n) = min k n" for n k :: int by simp
  show ?thesis
    unfolding applyTriageMetadata_def Let_def
    using cl by (elim disjE)
      (simp_all add: c m triaged_severity_def triaged_score_def triaged_confidence_def triaged_reasons_def)
qed

lemma severity_rank_triaged: "findingSeverityRank (triaged_severity c s) \<le> findingSeverityRank s"
  by (auto simp: triaged_severity_def)

text \<open>
  Triage never raises a severity or a score, and caps what has no strong evidence: a finding
  is actionable exactly when its evidence is strong; a configuration artifact without it is at most
  low with a score of at most 24, any other finding without it at most medium with at most 34, and
  the reason is recorded.
\<close>

theorem triage_caps:
  "let g = applyTriageMetadata f in
     findingSeverityRank (f_Severity g) \<le> findingSeverityRank (f_Severity f) \<and>
     f_ConfidenceScore g \<le> f_ConfidenceScore f \<and>
     (f_Actionable g \<longleftrightarrow> hasStrongEvidence f) \<and>
     (if hasStrongEvidence f then
        f_TriageClass g = triageActionable \<and> f_Severity g = f_Severity f \<and> f_ConfidenceScore g = f_ConfidenceScore f
      else if equal_fold (trim_space (f_Category f)) ''configuration'' then
        f_TriageClass g = triageConfigOnly \<and> findingSeverityRank (f_Severity g) \<le> 1 \<and> f_ConfidenceScore g \<le> 24 \<and>
        f_Confidence g = ''low'' \<and> f_ConfidenceReasons g = appendUniqueReason (f_ConfidenceReasons f) configOnlyReason
      else
        f_TriageClass g = triageWeakReview \<and> findingSeverityRank (f_Severity g) \<le> 2 \<and> f_ConfidenceScore g \<le> 34 \<and>
        confidenceRank (f_Confidence g) \<le> 2 \<and>
        f_ConfidenceReasons g = appendUniqueReason (f_ConfidenceReasons f) weakReviewReason)"
  by (simp add: applyTriageMetadata_eq triage_classes severity_rank_triaged Let_def)
    (auto simp: triaged_severity_def triaged_score_def triaged_confidence_def triaged_reasons_def)

lemma appendUniqueReason_idem:
  "appendUniqueReason (appendUniqueReason rs r) r = appendUniqueReason rs r"
  by (auto simp: appendUniqueReason_def Let_def list_ex_iff)

lemma confidenceLevel_not_blank: "trim_space (confidenceLevelForScore n) \<noteq> []"
  by (simp add: confidenceLevelForScore_def)

text \<open>
  Triage is idempotent: the correlation applies it to findings that have been triaged when
  they were made, and a second pass changes nothing.
\<close>

theorem triage_idempotent: "applyTriageMetadata (applyTriageMetadata f) = applyTriageMetadata f"
proof -
  let ?c = "triageClassForFinding f"
  have e: "triageClassForFinding (applyTriageMetadata f) = ?c"
    by (rule class_same_evidence) (simp add: same_evidence_def applyTriageMetadata_eq Let_def)
  have s: "triaged_severity ?c (triaged_severity ?c x) = triaged_severity ?c x" for x
    by (simp add: triaged_severity_def)
  have n: "triaged_score ?c (triaged_score ?c x) = triaged_score ?c x" for x
    by (simp add: triaged_score_def)
  have k: "triaged_confidence ?c (triaged_score ?c x) (triaged_confidence ?c x y) = triaged_confidence ?c x y" for x y
    by (simp add: triaged_confidence_def confidenceLevel_not_blank triaged_score_def)
  have r: "triaged_reasons ?c (triaged_reasons ?c x) = triaged_reasons ?c x" for x
    by (simp add: triaged_reasons_def appendUniqueReason_idem)
  show ?thesis
    unfolding applyTriageMetadata_eq [of "applyTriageMetadata f"] e Let_def
    by (simp add: applyTriageMetadata_eq [of f] Let_def s n k r)
qed

subsection \<open>Unique values\<close>

lemma unique_values_spec:
  "to_lower ` set (unique_values seen vs) = {to_lower (trim_space v) | v. v \<in> set vs \<and> trim_space v \<noteq> []} - set seen
   \<and> distinct (map to_lower (unique_values seen vs))
   \<and> set (unique_values seen vs) \<subseteq> trim_space ` set vs - {[]}"
proof (induction vs arbitrary: seen)
  case (Cons v vs)
  let ?k = "to_lower (trim_space v)"
  show ?case
  proof (cases "trim_space v = [] \<or> ?k \<in> set seen")
    case True
    then show ?thesis using Cons.IH [of seen] by (auto simp: Let_def)
  next
    case False
    have u: "unique_values seen (v # vs) = trim_space v # unique_values (?k # seen) vs"
      using False by (simp add: Let_def)
    show ?thesis using Cons.IH [of "?k # seen"] False unfolding u by auto
  qed
qed simp

lemma uniqueSorted_eq: "uniqueSorted raws = sort (unique_values [] raws)"
  by (simp add: uniqueSorted_def)

text \<open>
  The list of unique values is sorted, holds no blank and no two values that are equal up to
  case, every one of its values is a given one without the surrounding white space, and every
  given value that is not blank is in it up to case.
\<close>

theorem uniqueSorted_exact:
  "sorted (uniqueSorted raws) \<and> distinct (map to_lower (uniqueSorted raws)) \<and>
   set (uniqueSorted raws) \<subseteq> trim_space ` set raws - {[]} \<and>
   to_lower ` set (uniqueSorted raws) = {to_lower (trim_space v) | v. v \<in> set raws \<and> trim_space v \<noteq> []}"
proof -
  have "mset (map to_lower (uniqueSorted raws)) = mset (map to_lower (unique_values [] raws))"
    by (simp add: uniqueSorted_eq)
  then have "distinct (map to_lower (uniqueSorted raws)) = distinct (map to_lower (unique_values [] raws))"
    by (rule mset_eq_imp_distinct_iff)
  then show ?thesis
    using unique_values_spec [of "[]" raws] by (simp add: uniqueSorted_eq)
qed

end
