(* ===== verification/Diff.thy ===== *)
theory Diff
  imports Findings
begin

text \<open>
  Comparing two scans, \<open>internal/diff\<close>: \<open>diff.go\<close> (fingerprints, the field comparison, \<open>Compare\<close>,
  \<open>CurrentStatuses\<close>) and the types of \<open>types.go\<close>. The two loops of \<open>Compare\<close> range over Go maps; the
  orders in which they visit the keys are arguments of the model, so that what is proved holds for
  every order.
\<close>

subsection \<open>Fingerprints\<close>

record FindingFingerprint =
  fp_RuleID :: string
  fp_Host :: string
  fp_Share :: string
  fp_FilePath :: string
  fp_Match :: string

definition normalizeIdentity :: "string \<Rightarrow> string" where
  "normalizeIdentity value0 = to_lower (trim_space value0)"

definition normalizePathIdentity :: "string \<Rightarrow> string" where
  "normalizePathIdentity value0 = to_lower (slashes (trim_space value0))"

definition sortedStrings :: "string list \<Rightarrow> string list" where
  "sortedStrings vs = slice_sort (<) vs"

definition Fingerprint :: "Finding \<Rightarrow> FindingFingerprint" where
  "Fingerprint f =
     \<lparr>fp_RuleID = (if length (f_MatchedRuleIDs f) > 0
        then normalizeIdentity (join ''|'' (sortedStrings (f_MatchedRuleIDs f)))
        else normalizeIdentity (f_RuleID f)),
      fp_Host = normalizeIdentity (f_Host f),
      fp_Share = normalizeIdentity (f_Share f),
      fp_FilePath = normalizePathIdentity (f_FilePath f),
      fp_Match = normalizeIdentity (f_Match f)\<rparr>"

definition findingSortKey :: "Finding \<Rightarrow> string" where
  "findingSortKey f = (let fp = Fingerprint f
     in join ''|'' [fp_RuleID fp, fp_Host fp, fp_Share fp, fp_FilePath fp, fp_Match fp])"

definition cloneFinding :: "Finding \<Rightarrow> Finding" where
  "cloneFinding f = f\<lparr>f_Tags := [] @ f_Tags f, f_MatchedRuleIDs := [] @ f_MatchedRuleIDs f,
     f_MatchedSignalTypes := [] @ f_MatchedSignalTypes f, f_ConfidenceReasons := [] @ f_ConfidenceReasons f,
     f_SupportingSignals := [] @ f_SupportingSignals f\<rparr>"

subsection \<open>Comparing two findings\<close>

definition equalStringSlices :: "string list \<Rightarrow> string list \<Rightarrow> bool" where
  "equalStringSlices left right =
     (if length left \<noteq> length right then False
      else slice_sort (<) left = slice_sort (<) right)"

definition signalSortKey :: "SupportingSignal \<Rightarrow> string" where
  "signalSortKey s = join ''|'' [ss_SignalType s, ss_RuleID s, ss_RuleName s, ss_Match s, ss_Confidence s, ss_Reason s]"

definition signal_key_less :: "SupportingSignal \<Rightarrow> SupportingSignal \<Rightarrow> bool" where
  "signal_key_less x y \<longleftrightarrow> signalSortKey x < signalSortKey y"

definition equalSignals :: "SupportingSignal list \<Rightarrow> SupportingSignal list \<Rightarrow> bool" where
  "equalSignals left right =
     (if length left \<noteq> length right then False
      else slice_sort signal_key_less left = slice_sort signal_key_less right)"

definition append_if :: "bool \<Rightarrow> string \<Rightarrow> string list" where
  "append_if b name = (if b then [name] else [])"

definition compareFields :: "Finding \<Rightarrow> Finding \<Rightarrow> string list" where
  "compareFields previous current =
     append_if (\<not> equal_fold (trim_space (f_RuleName previous)) (trim_space (f_RuleName current))) ''rule_name'' @
     append_if (\<not> equal_fold (trim_space (f_Severity previous)) (trim_space (f_Severity current))) ''severity'' @
     append_if (\<not> equal_fold (trim_space (f_Confidence previous)) (trim_space (f_Confidence current))) ''confidence'' @
     append_if (\<not> equal_fold (trim_space (f_RuleConfidence previous)) (trim_space (f_RuleConfidence current))) ''rule_confidence'' @
     append_if (f_ConfidenceScore previous \<noteq> f_ConfidenceScore current) ''confidence_score'' @
     append_if (\<not> equal_fold (trim_space (f_Category previous)) (trim_space (f_Category current))) ''category'' @
     append_if (f_Priority previous \<noteq> f_Priority current) ''priority'' @
     append_if (trim_space (f_PriorityReason previous) \<noteq> trim_space (f_PriorityReason current)) ''priority_reason'' @
     append_if (f_SharePriority previous \<noteq> f_SharePriority current) ''share_priority'' @
     append_if (trim_space (f_SharePriorityReason previous) \<noteq> trim_space (f_SharePriorityReason current)) ''share_priority_reason'' @
     append_if (trim_space (f_ShareDescription previous) \<noteq> trim_space (f_ShareDescription current)) ''share_description'' @
     append_if (\<not> equal_fold (trim_space (f_ShareType previous)) (trim_space (f_ShareType current))) ''share_type'' @
     append_if (\<not> equal_fold (trim_space (f_Source previous)) (trim_space (f_Source current))) ''source'' @
     append_if (trim_space (f_DFSNamespacePath previous) \<noteq> trim_space (f_DFSNamespacePath current)) ''dfs_namespace_path'' @
     append_if (trim_space (f_DFSLinkPath previous) \<noteq> trim_space (f_DFSLinkPath current)) ''dfs_link_path'' @
     append_if (trim_space (f_Snippet previous) \<noteq> trim_space (f_Snippet current)) ''match_snippet'' @
     append_if (trim_space (f_MatchReason previous) \<noteq> trim_space (f_MatchReason current)) ''match_reason'' @
     append_if (trim_space (f_RuleExplanation previous) \<noteq> trim_space (f_RuleExplanation current)) ''rule_explanation'' @
     append_if (trim_space (f_RuleRemediation previous) \<noteq> trim_space (f_RuleRemediation current)) ''rule_remediation'' @
     append_if (f_FromSYSVOL previous \<noteq> f_FromSYSVOL current) ''from_sysvol'' @
     append_if (f_FromNETLOGON previous \<noteq> f_FromNETLOGON current) ''from_netlogon'' @
     append_if (\<not> equalStringSlices (f_Tags previous) (f_Tags current)) ''tags'' @
     append_if (\<not> equalStringSlices (f_MatchedRuleIDs previous) (f_MatchedRuleIDs current)) ''matched_rule_ids'' @
     append_if (\<not> equalStringSlices (f_MatchedSignalTypes previous) (f_MatchedSignalTypes current)) ''matched_signal_types'' @
     append_if (\<not> equalStringSlices (f_ConfidenceReasons previous) (f_ConfidenceReasons current)) ''confidence_reasons'' @
     append_if (\<not> equalSignals (f_SupportingSignals previous) (f_SupportingSignals current)) ''supporting_signals''"

subsection \<open>Comparing two scans\<close>

record ChangedFinding =
  ch_Previous :: Finding
  ch_Current :: Finding
  ch_Fingerprint :: FindingFingerprint
  ch_ChangedFields :: "string list"

record DiffResult =
  dr_New :: "Finding list"
  dr_Removed :: "Finding list"
  dr_Changed :: "ChangedFinding list"
  dr_Unchanged :: "Finding list"

definition by_fingerprint :: "Finding list \<Rightarrow> FindingFingerprint \<rightharpoonup> Finding" where
  "by_fingerprint findings = foldl (\<lambda>m f. m(Fingerprint f \<mapsto> cloneFinding f)) Map.empty findings"

text \<open>One round of the loop over the current findings, for the key \<open>fp\<close>, and of the loop over the previous ones.\<close>

definition current_step ::
  "(FindingFingerprint \<rightharpoonup> Finding) \<Rightarrow> (FindingFingerprint \<rightharpoonup> Finding) \<Rightarrow> DiffResult \<Rightarrow> FindingFingerprint \<Rightarrow> DiffResult" where
  "current_step prevs currs result fp =
     (case currs fp of
        None \<Rightarrow> result
      | Some cur \<Rightarrow>
          (case prevs fp of
             None \<Rightarrow> result\<lparr>dr_New := dr_New result @ [cur]\<rparr>
           | Some prev \<Rightarrow>
               let changedFields = compareFields prev cur
               in if length changedFields = 0
                  then result\<lparr>dr_Unchanged := dr_Unchanged result @ [cur]\<rparr>
                  else result\<lparr>dr_Changed := dr_Changed result @
                    [\<lparr>ch_Previous = prev, ch_Current = cur, ch_Fingerprint = fp, ch_ChangedFields = changedFields\<rparr>]\<rparr>))"

definition removed_step ::
  "(FindingFingerprint \<rightharpoonup> Finding) \<Rightarrow> (FindingFingerprint \<rightharpoonup> Finding) \<Rightarrow> DiffResult \<Rightarrow> FindingFingerprint \<Rightarrow> DiffResult" where
  "removed_step prevs currs result fp =
     (case prevs fp of
        None \<Rightarrow> result
      | Some prev \<Rightarrow>
          if currs fp \<noteq> None then result
          else result\<lparr>dr_Removed := dr_Removed result @ [prev]\<rparr>)"

definition finding_less :: "Finding \<Rightarrow> Finding \<Rightarrow> bool" where
  "finding_less x y \<longleftrightarrow> findingSortKey x < findingSortKey y"

definition changed_less :: "ChangedFinding \<Rightarrow> ChangedFinding \<Rightarrow> bool" where
  "changed_less x y \<longleftrightarrow> findingSortKey (ch_Current x) < findingSortKey (ch_Current y)"

definition Compare ::
  "FindingFingerprint list \<Rightarrow> FindingFingerprint list \<Rightarrow> Finding list \<Rightarrow> Finding list \<Rightarrow> DiffResult" where
  "Compare currKeys prevKeys previous current =
     (let prevs = by_fingerprint previous;
          currs = by_fingerprint current;
          r0 = \<lparr>dr_New = [], dr_Removed = [], dr_Changed = [], dr_Unchanged = []\<rparr>;
          r1 = foldl (current_step prevs currs) r0 currKeys;
          r2 = foldl (removed_step prevs currs) r1 prevKeys
      in \<lparr>dr_New = slice_sort finding_less (dr_New r2),
          dr_Removed = slice_sort finding_less (dr_Removed r2),
          dr_Changed = slice_sort changed_less (dr_Changed r2),
          dr_Unchanged = slice_sort finding_less (dr_Unchanged r2)\<rparr>)"

subsection \<open>The status of each current finding\<close>

datatype Status = StatusNew | StatusRemoved | StatusChanged | StatusUnchanged

record FindingDelta =
  fd_Status :: Status
  fd_Fingerprint :: FindingFingerprint
  fd_ChangedFields :: "string list"

definition status_new :: "Finding \<Rightarrow> FindingDelta" where
  "status_new f = \<lparr>fd_Status = StatusNew, fd_Fingerprint = Fingerprint f, fd_ChangedFields = []\<rparr>"

definition status_changed :: "ChangedFinding \<Rightarrow> FindingDelta" where
  "status_changed c = \<lparr>fd_Status = StatusChanged, fd_Fingerprint = ch_Fingerprint c,
     fd_ChangedFields = [] @ ch_ChangedFields c\<rparr>"

definition status_unchanged :: "Finding \<Rightarrow> FindingDelta" where
  "status_unchanged f = \<lparr>fd_Status = StatusUnchanged, fd_Fingerprint = Fingerprint f, fd_ChangedFields = []\<rparr>"

definition CurrentStatuses :: "DiffResult \<Rightarrow> FindingFingerprint \<rightharpoonup> FindingDelta" where
  "CurrentStatuses result =
     (let s1 = foldl (\<lambda>m f. m(Fingerprint f \<mapsto> status_new f)) Map.empty (dr_New result);
          s2 = foldl (\<lambda>m c. m(ch_Fingerprint c \<mapsto> status_changed c)) s1 (dr_Changed result)
      in foldl (\<lambda>m f. m(Fingerprint f \<mapsto> status_unchanged f)) s2 (dr_Unchanged result))"

record Summary =
  su_New :: nat
  su_Removed :: nat
  su_Changed :: nat
  su_Unchanged :: nat

definition DiffSummary :: "DiffResult \<Rightarrow> Summary" where
  "DiffSummary r = \<lparr>su_New = length (dr_New r), su_Removed = length (dr_Removed r),
     su_Changed = length (dr_Changed r), su_Unchanged = length (dr_Unchanged r)\<rparr>"


subsection \<open>Facts about the comparison\<close>

interpretation findings_by_key: key_order finding_less findingSortKey
  by unfold_locales (simp add: finding_less_def)

interpretation changed_by_key: key_order changed_less "\<lambda>c. findingSortKey (ch_Current c)"
  by unfold_locales (simp add: changed_less_def)

interpretation signals_by_key: key_order signal_key_less signalSortKey
  by unfold_locales (simp add: signal_key_less_def)

lemma cloneFinding_id [simp]: "cloneFinding f = f"
  by (simp add: cloneFinding_def)

lemma equalStringSlices_iff: "equalStringSlices xs ys \<longleftrightarrow> mset xs = mset ys"
proof -
  have "sort xs = sort ys \<longleftrightarrow> mset xs = mset ys"
    by (metis mset_sort properties_for_sort sorted_sort)
  then show ?thesis by (auto simp: equalStringSlices_def slice_sort_less dest: mset_eq_length)
qed

lemma equalSignals_sym: "equalSignals xs ys \<longleftrightarrow> equalSignals ys xs"
  by (auto simp: equalSignals_def)

lemma equalSignals_mset: "equalSignals xs ys \<Longrightarrow> mset xs = mset ys"
  by (metis equalSignals_def mset_slice_sort)

lemma equalSignals_refl [simp]: "equalSignals xs xs"
  by (simp add: equalSignals_def)

lemma append_if_False [simp]: "append_if False s = []"
  by (simp add: append_if_def)

lemma compareFields_refl [simp]: "compareFields f f = []"
  by (simp add: compareFields_def equalStringSlices_iff)

lemma compareFields_sym: "compareFields g f = compareFields f g"
  unfolding compareFields_def equalStringSlices_iff
  by (intro arg_cong2 [where f = "(@)"] arg_cong2 [where f = append_if] refl)
     (auto simp: equal_fold_sym equalSignals_sym)

text \<open>The maps the comparison builds hold, for every fingerprint, the last finding that has it.\<close>

definition last_with :: "FindingFingerprint \<Rightarrow> Finding list \<Rightarrow> Finding option" where
  "last_with fp fs = find (\<lambda>f. Fingerprint f = fp) (rev fs)"

lemma by_fingerprint_eq: "by_fingerprint fs fp = last_with fp fs"
  by (induction fs rule: rev_induct) (auto simp: by_fingerprint_def last_with_def)

lemma last_with_Some: "last_with fp fs = Some f \<Longrightarrow> f \<in> set fs \<and> Fingerprint f = fp"
  by (metis (mono_tags, lifting) find_Some_iff last_with_def length_rev nth_mem set_rev)

lemma last_with_None: "last_with fp fs = None \<longleftrightarrow> fp \<notin> Fingerprint ` set fs"
  unfolding last_with_def by (auto simp: find_None_iff)

lemma dom_by_fingerprint: "dom (by_fingerprint fs) = Fingerprint ` set fs"
  using last_with_None by (auto simp: by_fingerprint_eq dom_def)


text \<open>What the two loops append, in the order in which they visit the keys.\<close>

definition changed_of :: "Finding list \<Rightarrow> Finding list \<Rightarrow> FindingFingerprint \<Rightarrow> ChangedFinding" where
  "changed_of previous current fp =
     (let p = the (last_with fp previous); c = the (last_with fp current)
      in \<lparr>ch_Previous = p, ch_Current = c, ch_Fingerprint = fp, ch_ChangedFields = compareFields p c\<rparr>)"

definition is_changed :: "Finding list \<Rightarrow> Finding list \<Rightarrow> FindingFingerprint \<Rightarrow> bool" where
  "is_changed previous current fp \<longleftrightarrow>
     compareFields (the (last_with fp previous)) (the (last_with fp current)) \<noteq> []"

lemma current_fold:
  assumes "set ks \<subseteq> Fingerprint ` set current"
  shows "foldl (current_step (by_fingerprint previous) (by_fingerprint current)) r ks =
    r\<lparr>dr_New := dr_New r @ map (\<lambda>fp. the (last_with fp current))
          (filter (\<lambda>fp. fp \<notin> Fingerprint ` set previous) ks),
      dr_Changed := dr_Changed r @ map (changed_of previous current)
          (filter (\<lambda>fp. fp \<in> Fingerprint ` set previous \<and> is_changed previous current fp) ks),
      dr_Unchanged := dr_Unchanged r @ map (\<lambda>fp. the (last_with fp current))
          (filter (\<lambda>fp. fp \<in> Fingerprint ` set previous \<and> \<not> is_changed previous current fp) ks)\<rparr>"
  using assms
proof (induction ks arbitrary: r)
  case (Cons fp ks)
  obtain c where c: "last_with fp current = Some c"
    using Cons.prems last_with_None [of fp current] by auto
  show ?case
  proof (cases "last_with fp previous")
    case None
    then have "fp \<notin> Fingerprint ` set previous" by (simp add: last_with_None)
    with None c Cons show ?thesis by (simp add: current_step_def by_fingerprint_eq)
  next
    case (Some p)
    then have "fp \<in> Fingerprint ` set previous" using last_with_None [of fp previous] by auto
    with Some c Cons show ?thesis
      by (simp add: current_step_def by_fingerprint_eq is_changed_def changed_of_def Let_def)
  qed
qed simp

lemma removed_fold:
  assumes "set ks \<subseteq> Fingerprint ` set previous"
  shows "foldl (removed_step (by_fingerprint previous) (by_fingerprint current)) r ks =
    r\<lparr>dr_Removed := dr_Removed r @ map (\<lambda>fp. the (last_with fp previous))
          (filter (\<lambda>fp. fp \<notin> Fingerprint ` set current) ks)\<rparr>"
  using assms
proof (induction ks arbitrary: r)
  case (Cons fp ks)
  obtain p where p: "last_with fp previous = Some p"
    using Cons.prems last_with_None [of fp previous] by auto
  with Cons show ?case
    by (simp add: removed_step_def by_fingerprint_eq last_with_None)
qed simp

text \<open>The four lists of a comparison, before they are sorted.\<close>

lemma Compare_lists:
  assumes "map_order kc (by_fingerprint current)" and "map_order kp (by_fingerprint previous)"
  shows "dr_New (Compare kc kp previous current) = slice_sort finding_less
      (map (\<lambda>fp. the (last_with fp current)) (filter (\<lambda>fp. fp \<notin> Fingerprint ` set previous) kc))"
    and "dr_Removed (Compare kc kp previous current) = slice_sort finding_less
      (map (\<lambda>fp. the (last_with fp previous)) (filter (\<lambda>fp. fp \<notin> Fingerprint ` set current) kp))"
    and "dr_Changed (Compare kc kp previous current) = slice_sort changed_less
      (map (changed_of previous current)
        (filter (\<lambda>fp. fp \<in> Fingerprint ` set previous \<and> is_changed previous current fp) kc))"
    and "dr_Unchanged (Compare kc kp previous current) = slice_sort finding_less
      (map (\<lambda>fp. the (last_with fp current))
        (filter (\<lambda>fp. fp \<in> Fingerprint ` set previous \<and> \<not> is_changed previous current fp) kc))"
proof -
  have s: "set kc \<subseteq> Fingerprint ` set current" "set kp \<subseteq> Fingerprint ` set previous"
    using assms by (auto simp: map_order_def dom_by_fingerprint)
  show "dr_New (Compare kc kp previous current) = slice_sort finding_less
      (map (\<lambda>fp. the (last_with fp current)) (filter (\<lambda>fp. fp \<notin> Fingerprint ` set previous) kc))"
    and "dr_Removed (Compare kc kp previous current) = slice_sort finding_less
      (map (\<lambda>fp. the (last_with fp previous)) (filter (\<lambda>fp. fp \<notin> Fingerprint ` set current) kp))"
    and "dr_Changed (Compare kc kp previous current) = slice_sort changed_less
      (map (changed_of previous current)
        (filter (\<lambda>fp. fp \<in> Fingerprint ` set previous \<and> is_changed previous current fp) kc))"
    and "dr_Unchanged (Compare kc kp previous current) = slice_sort finding_less
      (map (\<lambda>fp. the (last_with fp current))
        (filter (\<lambda>fp. fp \<in> Fingerprint ` set previous \<and> \<not> is_changed previous current fp) kc))"
    by (simp_all add: Compare_def Let_def current_fold [OF s(1)] removed_fold [OF s(2)])
qed


lemma Fingerprint_last [simp]: "fp \<in> Fingerprint ` set fs \<Longrightarrow> Fingerprint (the (last_with fp fs)) = fp"
  using last_with_None [of fp fs] last_with_Some [of fp fs] by force

lemma last_with_same [simp]: "last_with (Fingerprint f) [f] = Some f"
  by (simp add: last_with_def)

lemma last_with_iff: "last_with fp fs = Some f \<longleftrightarrow> fp \<in> Fingerprint ` set fs \<and> f = the (last_with fp fs)"
  using last_with_None [of fp fs] by (cases "last_with fp fs") auto

lemma last_image:
  "(\<lambda>fp. the (last_with fp fs)) ` {fp \<in> Fingerprint ` set fs. Q fp} = {f. \<exists>fp. last_with fp fs = Some f \<and> Q fp}"
  by (auto simp: last_with_iff)

lemma mset_map_sorted: "mset (map g (slice_sort lt xs)) = mset (map g xs)"
  by simp

lemma changed_fingerprints: "map ch_Fingerprint (map (changed_of previous current) ks) = ks"
  by (induction ks) (simp_all add: changed_of_def Let_def)

lemma fingerprints_of_last:
  assumes "set ks = Fingerprint ` set fs"
  shows "map Fingerprint (map (\<lambda>fp. the (last_with fp fs)) (filter Q ks)) = filter Q ks"
proof -
  have "(Fingerprint \<circ> (\<lambda>fp. the (last_with fp fs))) x = x" if "x \<in> set (filter Q ks)" for x
    using that assms by simp
  then show ?thesis unfolding map_map by (rule map_idI)
qed

lemma set_sorted_last:
  assumes "set ks = Fingerprint ` set fs"
  shows "set (slice_sort lt (map (\<lambda>fp. the (last_with fp fs)) (filter Q ks))) =
    {f. \<exists>fp. last_with fp fs = Some f \<and> Q fp}"
  using last_image [of fs Q] assms by simp

text \<open>
  C19: The comparison of two scans, whatever the order of the maps: a finding of the current scan is
  new when no finding of the previous one has its fingerprint, unchanged when the compared fields
  agree and changed otherwise, with the fields that differ; the previous findings whose fingerprint
  is gone are removed. Every fingerprint is reported once, and its last finding stands for it.
\<close>

theorem Compare_exact:
  assumes "map_order kc (by_fingerprint current)" and "map_order kp (by_fingerprint previous)"
  shows "let r = Compare kc kp previous current in
    set (dr_New r) = {c. \<exists>fp. last_with fp current = Some c \<and> last_with fp previous = None} \<and>
    set (dr_Removed r) = {p. \<exists>fp. last_with fp previous = Some p \<and> last_with fp current = None} \<and>
    set (dr_Changed r) = {\<lparr>ch_Previous = p, ch_Current = c, ch_Fingerprint = fp, ch_ChangedFields = compareFields p c\<rparr>
      | p c fp. last_with fp previous = Some p \<and> last_with fp current = Some c \<and> compareFields p c \<noteq> []} \<and>
    set (dr_Unchanged r) = {c. \<exists>fp p. last_with fp previous = Some p \<and> last_with fp current = Some c \<and> compareFields p c = []} \<and>
    distinct (map Fingerprint (dr_New r) @ map ch_Fingerprint (dr_Changed r) @ map Fingerprint (dr_Unchanged r)) \<and>
    distinct (map Fingerprint (dr_Removed r))"
proof -
  let ?P = "Fingerprint ` set previous" and ?C = "Fingerprint ` set current"
  let ?chg = "is_changed previous current"
  have k: "set kc = ?C" "distinct kc" "set kp = ?P" "distinct kp"
    using assms by (auto simp: map_order_def dom_by_fingerprint)
  note L = Compare_lists [OF assms]
  have known: "fp \<in> Fingerprint ` set fs \<longleftrightarrow> (\<exists>p. last_with fp fs = Some p)" for fp fs
    using last_with_None [of fp fs] by auto
  have distinct_keys: "distinct (map key (slice_sort lt xs)) = distinct (map key xs)" for key :: "'b \<Rightarrow> 'c" and lt xs
    by (metis mset_eq_imp_distinct_iff mset_map mset_slice_sort)
  have split: "mset (map Fingerprint (dr_New (Compare kc kp previous current)) @
      map ch_Fingerprint (dr_Changed (Compare kc kp previous current)) @
      map Fingerprint (dr_Unchanged (Compare kc kp previous current))) = mset kc"
  proof -
    have "mset (map Fingerprint (dr_New (Compare kc kp previous current)) @
      map ch_Fingerprint (dr_Changed (Compare kc kp previous current)) @
      map Fingerprint (dr_Unchanged (Compare kc kp previous current))) =
      mset (filter (\<lambda>fp. fp \<notin> ?P) kc) + (mset (filter (\<lambda>fp. fp \<in> ?P \<and> ?chg fp) kc) +
        mset (filter (\<lambda>fp. fp \<in> ?P \<and> \<not> ?chg fp) kc))"
      by (simp only: L mset_append mset_map_sorted fingerprints_of_last [OF k(1)] changed_fingerprints)
    also have "\<dots> = mset kc"
      by (induction kc) auto
    finally show ?thesis .
  qed
  have "distinct (map Fingerprint (dr_Removed (Compare kc kp previous current)))"
    unfolding L distinct_keys fingerprints_of_last [OF k(3)] using k(4) by (rule distinct_filter)
  moreover have "distinct (map Fingerprint (dr_New (Compare kc kp previous current)) @
      map ch_Fingerprint (dr_Changed (Compare kc kp previous current)) @
      map Fingerprint (dr_Unchanged (Compare kc kp previous current)))"
    using k(2) mset_eq_imp_distinct_iff [OF split] by blast
  moreover have "set (dr_New (Compare kc kp previous current)) =
      {c. \<exists>fp. last_with fp current = Some c \<and> last_with fp previous = None}"
    unfolding L set_sorted_last [OF k(1)] by (simp add: last_with_None)
  moreover have "set (dr_Removed (Compare kc kp previous current)) =
      {p. \<exists>fp. last_with fp previous = Some p \<and> last_with fp current = None}"
    unfolding L set_sorted_last [OF k(3)] by (simp add: last_with_None)
  moreover have "set (dr_Unchanged (Compare kc kp previous current)) =
      {c. \<exists>fp p. last_with fp previous = Some p \<and> last_with fp current = Some c \<and> compareFields p c = []}"
    unfolding L set_sorted_last [OF k(1)] is_changed_def known by auto blast
  moreover have "set (dr_Changed (Compare kc kp previous current)) =
      {\<lparr>ch_Previous = p, ch_Current = c, ch_Fingerprint = fp, ch_ChangedFields = compareFields p c\<rparr>
        | p c fp. last_with fp previous = Some p \<and> last_with fp current = Some c \<and> compareFields p c \<noteq> []}"
    unfolding L set_slice_sort set_map set_filter k is_changed_def changed_of_def Let_def last_with_iff
    by (simp add: setcompr_eq_image) blast
  ultimately show ?thesis by (simp add: Let_def)
qed


text \<open>
  The comparison does not depend on how it is run: exchanging the two scans exchanges the new and
  the removed findings and leaves the changed ones, with the same fields; and when the sort keys of
  the findings tell their fingerprints apart, the whole report is the same for every order in which
  the maps are visited.
\<close>

theorem Compare_swap:
  assumes "map_order kc (by_fingerprint current)" and "map_order kp (by_fingerprint previous)"
    and "map_order kc' (by_fingerprint current)" and "map_order kp' (by_fingerprint previous)"
    and "inj_on findingSortKey {f. \<exists>fp. last_with fp (previous) = Some f}"
    and "inj_on findingSortKey {f. \<exists>fp. last_with fp current = Some f}"
  shows "dr_New (Compare kp kc current previous) = dr_Removed (Compare kc kp previous current) \<and>
    dr_Removed (Compare kp kc current previous) = dr_New (Compare kc kp previous current) \<and>
    (\<lambda>c. (ch_Fingerprint c, ch_ChangedFields c)) ` set (dr_Changed (Compare kp kc current previous)) =
      (\<lambda>c. (ch_Fingerprint c, ch_ChangedFields c)) ` set (dr_Changed (Compare kc kp previous current)) \<and>
    Compare kc' kp' previous current = Compare kc kp previous current"
proof (intro conjI)
  have k: "set kc = Fingerprint ` set current" "set kp = Fingerprint ` set previous"
    using assms(1,2) by (auto simp: map_order_def dom_by_fingerprint)
  note L = Compare_lists [OF assms(1,2)] and S = Compare_lists [OF assms(2,1)] and D = Compare_lists [OF assms(3,4)]
  show "dr_New (Compare kp kc current previous) = dr_Removed (Compare kc kp previous current)"
    and "dr_Removed (Compare kp kc current previous) = dr_New (Compare kc kp previous current)"
    unfolding L S by (rule refl)+
  show "(\<lambda>c. (ch_Fingerprint c, ch_ChangedFields c)) ` set (dr_Changed (Compare kp kc current previous)) =
      (\<lambda>c. (ch_Fingerprint c, ch_ChangedFields c)) ` set (dr_Changed (Compare kc kp previous current))"
  proof -
    have "compareFields (the (last_with fp current)) (the (last_with fp previous)) =
        compareFields (the (last_with fp previous)) (the (last_with fp current))" for fp
      by (rule compareFields_sym)
    moreover have "{fp \<in> A. fp \<in> B \<and> Q fp} = {fp \<in> B. fp \<in> A \<and> Q fp}"
      for A B :: "FindingFingerprint set" and Q by blast
    ultimately show ?thesis
      unfolding L S set_slice_sort set_map set_filter image_image k is_changed_def changed_of_def Let_def
      by simp
  qed
  have m: "mset kc' = mset kc" "mset kp' = mset kp"
    using map_order_mset_unique assms(1-4) by blast+
  have one: "slice_sort finding_less (map (\<lambda>fp. the (last_with fp fs)) (filter Q ks')) =
      slice_sort finding_less (map (\<lambda>fp. the (last_with fp fs)) (filter Q ks))"
    if "mset ks' = mset ks" "set ks = Fingerprint ` set fs" "inj_on findingSortKey {f. \<exists>fp. last_with fp fs = Some f}"
    for ks ks' fs Q
  proof (rule findings_by_key.injective_unique)
    show "sorted_wrt (\<lambda>x y. \<not> finding_less y x)
        (slice_sort finding_less (map (\<lambda>fp. the (last_with fp fs)) (filter Q ks')))"
      by (rule findings_by_key.ordered_wrt)
    show "inj_on findingSortKey (set (map (\<lambda>fp. the (last_with fp fs)) (filter Q ks)))"
      by (rule inj_on_subset [OF that(3)]) (use that(2) in \<open>auto simp: last_with_iff\<close>)
  qed (simp add: that(1))
  have "dr_Changed (Compare kc' kp' previous current) = dr_Changed (Compare kc kp previous current)"
    unfolding L D
  proof (rule changed_by_key.injective_unique)
    let ?Q = "\<lambda>fp. fp \<in> Fingerprint ` set previous \<and> is_changed previous current fp"
    have "inj_on (\<lambda>fp. the (last_with fp current)) (Fingerprint ` set current)"
      by (rule inj_on_inverseI [where g = Fingerprint]) simp
    moreover have "inj_on findingSortKey ((\<lambda>fp. the (last_with fp current)) ` (Fingerprint ` set current))"
      using assms(6) last_image [of current "\<lambda>_. True"] by simp
    ultimately have "inj_on (findingSortKey \<circ> (\<lambda>fp. the (last_with fp current))) (Fingerprint ` set current)"
      by (rule comp_inj_on)
    then have "inj_on ((\<lambda>c. findingSortKey (ch_Current c)) \<circ> changed_of previous current) (set (filter ?Q kc))"
      using k(1) by (auto simp: comp_def changed_of_def Let_def intro: inj_on_subset)
    then show "inj_on (\<lambda>c. findingSortKey (ch_Current c)) (set (map (changed_of previous current) (filter ?Q kc)))"
      unfolding set_map by (rule inj_on_imageI)
  qed (use m in \<open>simp_all add: changed_by_key.ordered_wrt\<close>)
  moreover have "dr_New (Compare kc' kp' previous current) = dr_New (Compare kc kp previous current)"
    "dr_Removed (Compare kc' kp' previous current) = dr_Removed (Compare kc kp previous current)"
    "dr_Unchanged (Compare kc' kp' previous current) = dr_Unchanged (Compare kc kp previous current)"
    unfolding L D using one [OF m(1) k(1) assms(6)] one [OF m(2) k(2) assms(5)] by auto
  ultimately show "Compare kc' kp' previous current = Compare kc kp previous current" by simp
qed

lemma Compare_self:
  assumes "map_order kc (by_fingerprint fs)" and "map_order kp (by_fingerprint fs)"
  shows "dr_New (Compare kc kp fs fs) = [] \<and> dr_Removed (Compare kc kp fs fs) = [] \<and>
    dr_Changed (Compare kc kp fs fs) = [] \<and> length (dr_Unchanged (Compare kc kp fs fs)) = length kc"
proof -
  have "set kc = Fingerprint ` set fs" "set kp = Fingerprint ` set fs"
    using assms by (auto simp: map_order_def dom_by_fingerprint)
  then show ?thesis
    unfolding Compare_lists [OF assms] by (simp add: is_changed_def filter_empty_conv)
qed


subsection \<open>Statuses\<close>

lemma foldl_updates:
  assumes "\<And>x. x \<in> set xs \<Longrightarrow> k x = fp \<Longrightarrow> v x = w"
  shows "foldl (\<lambda>m x. m(k x \<mapsto> v x)) m xs fp = (if fp \<in> k ` set xs then Some w else m fp)"
  using assms by (induction xs arbitrary: m) auto

lemma Compare_fingerprints:
  assumes "map_order kc (by_fingerprint current)" and "map_order kp (by_fingerprint previous)"
  shows "Fingerprint ` set (dr_New (Compare kc kp previous current)) =
      {fp \<in> Fingerprint ` set current. fp \<notin> Fingerprint ` set previous}"
    and "ch_Fingerprint ` set (dr_Changed (Compare kc kp previous current)) =
      {fp \<in> Fingerprint ` set current. fp \<in> Fingerprint ` set previous \<and> is_changed previous current fp}"
    and "Fingerprint ` set (dr_Unchanged (Compare kc kp previous current)) =
      {fp \<in> Fingerprint ` set current. fp \<in> Fingerprint ` set previous \<and> \<not> is_changed previous current fp}"
proof -
  have k: "set kc = Fingerprint ` set current" using assms by (auto simp: map_order_def dom_by_fingerprint)
  have F: "Fingerprint ` set (slice_sort lt (map (\<lambda>fp. the (last_with fp current)) (filter Q kc))) =
      {fp \<in> Fingerprint ` set current. Q fp}" for lt Q
    using arg_cong [OF fingerprints_of_last [OF k, of Q], where f = set] k by (simp only: set_map set_slice_sort set_filter)
  have G: "ch_Fingerprint ` set (slice_sort lt (map (changed_of previous current) (filter Q kc))) =
      {fp \<in> Fingerprint ` set current. Q fp}" for lt Q
    using arg_cong [OF changed_fingerprints [of previous current "filter Q kc"], where f = set] k
    by (simp only: set_map set_slice_sort set_filter)
  show "Fingerprint ` set (dr_New (Compare kc kp previous current)) =
      {fp \<in> Fingerprint ` set current. fp \<notin> Fingerprint ` set previous}"
    and "ch_Fingerprint ` set (dr_Changed (Compare kc kp previous current)) =
      {fp \<in> Fingerprint ` set current. fp \<in> Fingerprint ` set previous \<and> is_changed previous current fp}"
    and "Fingerprint ` set (dr_Unchanged (Compare kc kp previous current)) =
      {fp \<in> Fingerprint ` set current. fp \<in> Fingerprint ` set previous \<and> \<not> is_changed previous current fp}"
    unfolding Compare_lists [OF assms] by (rule F G)+
qed

definition status_of :: "Finding list \<Rightarrow> Finding list \<Rightarrow> FindingFingerprint \<Rightarrow> FindingDelta option" where
  "status_of previous current fp =
     (case last_with fp current of
        None \<Rightarrow> None
      | Some c \<Rightarrow> Some
          (case last_with fp previous of
             None \<Rightarrow> \<lparr>fd_Status = StatusNew, fd_Fingerprint = fp, fd_ChangedFields = []\<rparr>
           | Some p \<Rightarrow>
               if compareFields p c = []
               then \<lparr>fd_Status = StatusUnchanged, fd_Fingerprint = fp, fd_ChangedFields = []\<rparr>
               else \<lparr>fd_Status = StatusChanged, fd_Fingerprint = fp, fd_ChangedFields = compareFields p c\<rparr>))"

text \<open>
  The status the report gives a fingerprint is that of its last current finding: new, changed
  with the fields that differ, or unchanged, and a fingerprint that no current finding has gets
  none. So every finding of the current scan finds a status when the report is written.
\<close>

theorem CurrentStatuses_exact:
  assumes "map_order kc (by_fingerprint current)" and "map_order kp (by_fingerprint previous)"
  shows "CurrentStatuses (Compare kc kp previous current) = status_of previous current"
proof
  fix fp
  let ?r = "Compare kc kp previous current"
  have c: "status_changed x = \<lparr>fd_Status = StatusChanged, fd_Fingerprint = fp,
      fd_ChangedFields = compareFields (the (last_with fp previous)) (the (last_with fp current))\<rparr>"
    if "x \<in> set (dr_Changed ?r)" "ch_Fingerprint x = fp" for x
    using that unfolding Compare_lists [OF assms] by (auto simp: status_changed_def changed_of_def Let_def)
  have "CurrentStatuses ?r fp =
     (if fp \<in> Fingerprint ` set (dr_Unchanged ?r)
        then Some \<lparr>fd_Status = StatusUnchanged, fd_Fingerprint = fp, fd_ChangedFields = []\<rparr>
      else if fp \<in> ch_Fingerprint ` set (dr_Changed ?r)
        then Some \<lparr>fd_Status = StatusChanged, fd_Fingerprint = fp,
          fd_ChangedFields = compareFields (the (last_with fp previous)) (the (last_with fp current))\<rparr>
      else if fp \<in> Fingerprint ` set (dr_New ?r)
        then Some \<lparr>fd_Status = StatusNew, fd_Fingerprint = fp, fd_ChangedFields = []\<rparr> else None)"
    unfolding CurrentStatuses_def Let_def
    by (simp add: foldl_updates [where k = Fingerprint and v = status_unchanged, unfolded status_unchanged_def]
        foldl_updates [where k = Fingerprint and v = status_new, unfolded status_new_def]
        foldl_updates [OF c] status_unchanged_def status_new_def)
  then show "CurrentStatuses ?r fp = status_of previous current fp"
    unfolding Compare_fingerprints [OF assms] status_of_def
    using last_with_None [of fp previous] last_with_None [of fp current]
    by (auto simp: is_changed_def split: option.splits)
qed


subsection \<open>Two small scans\<close>

definition diff_finding :: "string \<Rightarrow> string \<Rightarrow> Finding" where
  "diff_finding ruleID severity = zero_finding\<lparr>f_RuleID := ruleID, f_Severity := severity\<rparr>"

definition diff_key :: "string \<Rightarrow> FindingFingerprint" where
  "diff_key ruleID = \<lparr>fp_RuleID = ruleID, fp_Host = [], fp_Share = [], fp_FilePath = [], fp_Match = []\<rparr>"

definition old_scan :: "Finding list" where
  "old_scan = [diff_finding ''a'' ''low'', diff_finding ''b'' ''low'']"

definition new_scan :: "Finding list" where
  "new_scan = [diff_finding ''A '' ''high'', diff_finding ''c'' ''low'']"

lemma demo_orders:
  "map_order [diff_key ''a'', diff_key ''b''] (by_fingerprint old_scan)"
  "map_order [diff_key ''a'', diff_key ''c''] (by_fingerprint new_scan)"
  "map_order [diff_key ''c'', diff_key ''a''] (by_fingerprint new_scan)"
proof -
  have "map Fingerprint old_scan = [diff_key ''a'', diff_key ''b'']"
    "map Fingerprint new_scan = [diff_key ''a'', diff_key ''c'']"
    by code_simp+
  then have "Fingerprint ` set old_scan = {diff_key ''a'', diff_key ''b''}"
    "Fingerprint ` set new_scan = {diff_key ''a'', diff_key ''c''}"
    by (metis list.set(1,2) set_map)+
  then show "map_order [diff_key ''a'', diff_key ''b''] (by_fingerprint old_scan)"
    and "map_order [diff_key ''a'', diff_key ''c''] (by_fingerprint new_scan)"
    and "map_order [diff_key ''c'', diff_key ''a''] (by_fingerprint new_scan)"
    by (auto simp: map_order_def dom_by_fingerprint diff_key_def)
qed

lemma demo_last:
  "last_with (diff_key ''a'') old_scan = Some (diff_finding ''a'' ''low'')"
  "last_with (diff_key ''a'') new_scan = Some (diff_finding ''A '' ''high'')"
  "last_with (diff_key ''c'') new_scan = Some (diff_finding ''c'' ''low'')"
  "last_with (diff_key ''c'') old_scan = None"
  "compareFields (diff_finding ''a'' ''low'') (diff_finding ''A '' ''high'') = [''severity'']"
  by code_simp+

theorem Compare_exact_witness:
  "let r = Compare [diff_key ''a'', diff_key ''c''] [diff_key ''a'', diff_key ''b''] old_scan new_scan in
     diff_finding ''c'' ''low'' \<in> set (dr_New r) \<and>
     \<lparr>ch_Previous = diff_finding ''a'' ''low'', ch_Current = diff_finding ''A '' ''high'',
       ch_Fingerprint = diff_key ''a'', ch_ChangedFields = [''severity'']\<rparr> \<in> set (dr_Changed r)"
  using Compare_exact [OF demo_orders(2,1)] demo_last by (auto simp: Let_def)

theorem CurrentStatuses_exact_witness:
  "CurrentStatuses (Compare [diff_key ''a'', diff_key ''c''] [diff_key ''a'', diff_key ''b''] old_scan new_scan)
     (diff_key ''a'') = Some \<lparr>fd_Status = StatusChanged, fd_Fingerprint = diff_key ''a'', fd_ChangedFields = [''severity'']\<rparr>"
  unfolding CurrentStatuses_exact [OF demo_orders(2,1)] by (simp add: status_of_def demo_last)

lemma last_with_demo_sets:
  "{f. \<exists>fp. last_with fp old_scan = Some f} \<subseteq> set old_scan"
  "{f. \<exists>fp. last_with fp new_scan = Some f} \<subseteq> set new_scan"
  by (auto dest: last_with_Some)

theorem Compare_swap_witness:
  "Compare [diff_key ''c'', diff_key ''a''] [diff_key ''a'', diff_key ''b''] old_scan new_scan =
   Compare [diff_key ''a'', diff_key ''c''] [diff_key ''a'', diff_key ''b''] old_scan new_scan"
proof -
  have "distinct (map findingSortKey old_scan)" "distinct (map findingSortKey new_scan)" by code_simp+
  then have "inj_on findingSortKey {f. \<exists>fp. last_with fp old_scan = Some f}"
    "inj_on findingSortKey {f. \<exists>fp. last_with fp new_scan = Some f}"
    using last_with_demo_sets by (auto simp: distinct_map intro: inj_on_subset)
  from Compare_swap [OF demo_orders(2,1,3,1) this] show ?thesis by blast
qed

end
