(* ===== verification/Baseline.thy ===== *)
theory Baseline
  imports Diff StateStore
begin

text \<open>
  The JSON report and its use as a baseline: what \<open>internal/output/json.go\<close> writes for a finding and
  what \<open>internal/diff/loader.go\<close> reads back, and the performance figures that go with it
  (\<open>internal/output/performance.go\<close>). \<open>encoding/json\<close> is modelled on the level of keys and values: an
  object is the list of its members in the order of the struct's fields, a member whose tag says
  \<open>omitempty\<close> is left out when its value is the zero value (a struct never is), and reading looks a
  field up under its tag, leaving the zero value when the member is absent. Strings pass through
  \<open>js\<close>, which is what writing a string and reading it back does to it: \<open>encoding/json\<close> keeps valid
  UTF-8 and replaces invalid bytes. The reports considered are those the writer emits; a document
  that is not JSON or has a value of a wrong type is the result of reading, an error.
\<close>

subsection \<open>Values and members\<close>

datatype json =
    JString string
  | JInt int
  | JBool bool
  | JArray "json list"
  | JObject "(string \<times> json) list"

type_synonym members = "(string \<times> json) list"

definition put_string :: "(string \<Rightarrow> string) \<Rightarrow> string \<Rightarrow> string \<Rightarrow> members" where
  "put_string js key v = [(key, JString (js v))]"

definition put_string_opt :: "(string \<Rightarrow> string) \<Rightarrow> string \<Rightarrow> string \<Rightarrow> members" where
  "put_string_opt js key v = (if v = [] then [] else [(key, JString (js v))])"

definition put_int_opt :: "string \<Rightarrow> int \<Rightarrow> members" where
  "put_int_opt key v = (if v = 0 then [] else [(key, JInt v)])"

definition put_bool_opt :: "string \<Rightarrow> bool \<Rightarrow> members" where
  "put_bool_opt key v = (if v then [(key, JBool v)] else [])"

definition put_strings_opt :: "(string \<Rightarrow> string) \<Rightarrow> string \<Rightarrow> string list \<Rightarrow> members" where
  "put_strings_opt js key vs = (if vs = [] then [] else [(key, JArray (map (\<lambda>v. JString (js v)) vs))])"

definition signal_members :: "(string \<Rightarrow> string) \<Rightarrow> SupportingSignal \<Rightarrow> members" where
  "signal_members js s =
     put_string js ''signal_type'' (ss_SignalType s) @
     put_string_opt js ''rule_id'' (ss_RuleID s) @
     put_string_opt js ''rule_name'' (ss_RuleName s) @
     put_string_opt js ''match'' (ss_Match s) @
     put_string_opt js ''confidence'' (ss_Confidence s) @
     put_int_opt ''weight'' (ss_Weight s) @
     put_string_opt js ''reason'' (ss_Reason s)"

definition put_signals_opt :: "(string \<Rightarrow> string) \<Rightarrow> string \<Rightarrow> SupportingSignal list \<Rightarrow> members" where
  "put_signals_opt js key vs = (if vs = [] then [] else [(key, JArray (map (\<lambda>v. JObject (signal_members js v)) vs))])"

definition breakdown_members :: "(string \<Rightarrow> string) \<Rightarrow> ConfidenceBreakdown \<Rightarrow> members" where
  "breakdown_members js b =
     put_int_opt ''base_score'' (cb_BaseScore b) @
     put_int_opt ''final_score'' (cb_FinalScore b) @
     put_int_opt ''content_signal_strength'' (cb_ContentSignalStrength b) @
     put_int_opt ''heuristic_signal_contribution'' (cb_HeuristicSignalContribution b) @
     put_int_opt ''value_quality_score'' (cb_ValueQualityScore b) @
     put_string_opt js ''value_quality_label'' (cb_ValueQualityLabel b) @
     put_string_opt js ''value_quality_reason'' (cb_ValueQualityReason b) @
     put_int_opt ''correlation_contribution'' (cb_CorrelationContribution b) @
     put_int_opt ''path_context_contribution'' (cb_PathContextContribution b) @
     put_int_opt ''triage_adjustment'' (cb_TriageAdjustment b)"

definition put_breakdown :: "(string \<Rightarrow> string) \<Rightarrow> string \<Rightarrow> ConfidenceBreakdown \<Rightarrow> members" where
  "put_breakdown js key b = [(key, JObject (breakdown_members js b))]"

definition get_string :: "members \<Rightarrow> string \<Rightarrow> string" where
  "get_string obj key = (case map_of obj key of Some (JString s) \<Rightarrow> s | _ \<Rightarrow> [])"

definition get_int :: "members \<Rightarrow> string \<Rightarrow> int" where
  "get_int obj key = (case map_of obj key of Some (JInt i) \<Rightarrow> i | _ \<Rightarrow> 0)"

definition get_bool :: "members \<Rightarrow> string \<Rightarrow> bool" where
  "get_bool obj key = (case map_of obj key of Some (JBool b) \<Rightarrow> b | _ \<Rightarrow> False)"

definition get_strings :: "members \<Rightarrow> string \<Rightarrow> string list" where
  "get_strings obj key = (case map_of obj key of
     Some (JArray vs) \<Rightarrow> map (\<lambda>v. case v of JString s \<Rightarrow> s | _ \<Rightarrow> []) vs | _ \<Rightarrow> [])"

definition get_signal :: "members \<Rightarrow> SupportingSignal" where
  "get_signal obj =
     \<lparr>ss_SignalType = get_string obj ''signal_type'', ss_RuleID = get_string obj ''rule_id'',
      ss_RuleName = get_string obj ''rule_name'', ss_Match = get_string obj ''match'',
      ss_Confidence = get_string obj ''confidence'', ss_Weight = get_int obj ''weight'',
      ss_Reason = get_string obj ''reason''\<rparr>"

definition get_signals :: "members \<Rightarrow> string \<Rightarrow> SupportingSignal list" where
  "get_signals obj key = (case map_of obj key of
     Some (JArray vs) \<Rightarrow> map (\<lambda>v. get_signal (case v of JObject m \<Rightarrow> m | _ \<Rightarrow> [])) vs | _ \<Rightarrow> [])"

definition get_breakdown :: "members \<Rightarrow> string \<Rightarrow> ConfidenceBreakdown" where
  "get_breakdown obj key =
     (let m = (case map_of obj key of Some (JObject m) \<Rightarrow> m | _ \<Rightarrow> [])
      in \<lparr>cb_BaseScore = get_int m ''base_score'', cb_FinalScore = get_int m ''final_score'',
          cb_ContentSignalStrength = get_int m ''content_signal_strength'',
          cb_HeuristicSignalContribution = get_int m ''heuristic_signal_contribution'',
          cb_ValueQualityScore = get_int m ''value_quality_score'',
          cb_ValueQualityLabel = get_string m ''value_quality_label'',
          cb_ValueQualityReason = get_string m ''value_quality_reason'',
          cb_CorrelationContribution = get_int m ''correlation_contribution'',
          cb_PathContextContribution = get_int m ''path_context_contribution'',
          cb_TriageAdjustment = get_int m ''triage_adjustment''\<rparr>)"

subsection \<open>Writing a finding\<close>

definition remediationGuidanceForCategory :: "string \<Rightarrow> string" where
  "remediationGuidanceForCategory category =
     (let c = to_lower (trim_space category) in
      if c = ''credentials''
      then ''Rotate exposed secrets, move credentials into a managed secret store, and restrict access to the affected files and shares.'' else
      if c = ''crypto''
      then ''Review exposed key or certificate material, replace or protect sensitive keys as needed, and restrict share access.'' else
      if c = ''configuration''
      then ''Remove embedded secrets from shared configuration files, store sensitive settings securely, and limit access to these files.'' else
      if c = ''deployment''
      then ''Review unattended deployment files for embedded credentials, rotate affected accounts, and keep deployment artifacts out of broadly shared locations.'' else
      if c = ''archives''
      then ''Review retention of backup and export files, remove stale copies from shared locations, and restrict access to retained archives.'' else
      if c = ''password-manager''
      then ''Move password-manager artifacts to approved storage, review who can access them, and confirm appropriate protection and retention controls.'' else
      if c = ''business-data'' \<or> c = ''pii''
      then ''Remove unnecessary sensitive exports from shared locations, apply retention controls, and restrict share permissions to only required users.'' else
      if c = ''infrastructure''
      then ''Move infrastructure secrets into managed storage, review exposed pipeline or cloud configuration files, and restrict access to operational shares.'' else
      if c = ''database-access''
      then ''Remove embedded database credentials from shared files, rotate exposed accounts or passwords, and store connection material in approved secret-management paths.'' else
      if c = ''database-artifacts''
      then ''Review whether database artifacts belong on the share, relocate or remove unnecessary copies, and restrict access to retained database files.'' else
      if c = ''database-infrastructure''
      then ''Review database client and network configuration artifacts, confirm they are expected, and restrict access to files that expose server or DSN details.'' else
      if c = ''active-directory''
      then ''Review AD policy and administration files for embedded secrets, remove exposed sensitive values, and tighten share permissions.'' else
      if c = ''scripts''
      then ''Review scripts for embedded secrets, move credentials to managed storage, and restrict access to administrative script locations.'' else
      ''Review the matched files, remove unnecessary sensitive material from shared locations, and restrict access to the affected shares.'')"

fun status_name :: "Status \<Rightarrow> string" where
  "status_name StatusNew = ''new''"
| "status_name StatusRemoved = ''removed''"
| "status_name StatusChanged = ''changed''"
| "status_name StatusUnchanged = ''unchanged''"

text \<open>A fingerprint without a status has the zero delta, whose members are both left out.\<close>

definition delta_members :: "(string \<Rightarrow> string) \<Rightarrow> FindingDelta option \<Rightarrow> members" where
  "delta_members js delta = (case delta of
     None \<Rightarrow> []
   | Some d \<Rightarrow> put_string_opt js ''diff_status'' (status_name (fd_Status d)) @
       put_strings_opt js ''changed_fields'' (fd_ChangedFields d))"

definition toJSONFinding :: "(string \<Rightarrow> string) \<Rightarrow> Finding \<Rightarrow> FindingDelta option \<Rightarrow> members" where
  "toJSONFinding js f delta =
     put_string_opt js ''host'' (f_Host f) @
     put_string_opt js ''share'' (f_Share f) @
     put_string_opt js ''share_description'' (f_ShareDescription f) @
     put_string_opt js ''share_type'' (f_ShareType f) @
     put_string js ''file_path'' (f_FilePath f) @
     put_string_opt js ''source'' (f_Source f) @
     put_string_opt js ''archive_path'' (f_ArchivePath f) @
     put_string_opt js ''archive_member_path'' (f_ArchiveMemberPath f) @
     put_bool_opt ''archive_local_inspect'' (f_ArchiveLocalInspect f) @
     put_string_opt js ''database_file_path'' (f_DatabaseFilePath f) @
     put_string_opt js ''database_table'' (f_DatabaseTable f) @
     put_string_opt js ''database_column'' (f_DatabaseColumn f) @
     put_string_opt js ''database_row_context'' (f_DatabaseRowContext f) @
     put_string_opt js ''dfs_namespace_path'' (f_DFSNamespacePath f) @
     put_string_opt js ''dfs_link_path'' (f_DFSLinkPath f) @
     put_string js ''rule_id'' (f_RuleID f) @
     put_string js ''rule_name'' (f_RuleName f) @
     put_string js ''severity'' (f_Severity f) @
     put_string_opt js ''confidence'' (f_Confidence f) @
     put_string_opt js ''rule_confidence'' (f_RuleConfidence f) @
     put_int_opt ''confidence_score'' (f_ConfidenceScore f) @
     put_strings_opt js ''confidence_reasons'' (f_ConfidenceReasons f) @
     put_string js ''category'' (f_Category f) @
     put_string_opt js ''triage_class'' (f_TriageClass f) @
     put_bool_opt ''actionable'' (f_Actionable f) @
     put_bool_opt ''correlated'' (f_Correlated f) @
     put_breakdown js ''confidence_breakdown'' (f_ConfidenceBreakdown f) @
     put_int_opt ''share_priority'' (f_SharePriority f) @
     put_string_opt js ''share_priority_reason'' (f_SharePriorityReason f) @
     put_bool_opt ''from_sysvol'' (f_FromSYSVOL f) @
     put_bool_opt ''from_netlogon'' (f_FromNETLOGON f) @
     put_strings_opt js ''matched_rule_ids'' (f_MatchedRuleIDs f) @
     put_strings_opt js ''matched_signal_types'' (f_MatchedSignalTypes f) @
     put_signals_opt js ''supporting_signals'' (f_SupportingSignals f) @
     put_strings_opt js ''tags'' (f_Tags f) @
     put_string_opt js ''signal_type'' (f_SignalType f) @
     put_string_opt js ''match'' (f_Match f) @
     put_string_opt js ''matched_text'' (f_MatchedText f) @
     put_string_opt js ''matched_text_redacted'' (f_MatchedTextRedacted f) @
     put_string_opt js ''snippet'' (f_Snippet f) @
     put_string_opt js ''context'' (f_Context f) @
     put_string_opt js ''context_redacted'' (f_ContextRedacted f) @
     put_string_opt js ''potential_account'' (f_PotentialAccount f) @
     put_int_opt ''line_number'' (f_LineNumber f) @
     put_string_opt js ''match_snippet'' (f_Snippet f) @
     put_string_opt js ''match_reason'' (f_MatchReason f) @
     put_string_opt js ''rule_explanation'' (f_RuleExplanation f) @
     put_string_opt js ''rule_remediation'' (f_RuleRemediation f) @
     put_string_opt js ''remediation_guidance'' (remediationGuidanceForCategory (f_Category f)) @
     delta_members js delta"

subsection \<open>Reading a finding back\<close>

definition loadFinding :: "members \<Rightarrow> Finding" where
  "loadFinding obj = zero_finding\<lparr>
      f_Host := get_string obj ''host'',
      f_Share := get_string obj ''share'',
      f_ShareDescription := get_string obj ''share_description'',
      f_ShareType := get_string obj ''share_type'',
      f_FilePath := get_string obj ''file_path'',
      f_Source := get_string obj ''source'',
      f_ArchivePath := get_string obj ''archive_path'',
      f_ArchiveMemberPath := get_string obj ''archive_member_path'',
      f_ArchiveLocalInspect := get_bool obj ''archive_local_inspect'',
      f_DatabaseFilePath := get_string obj ''database_file_path'',
      f_DatabaseTable := get_string obj ''database_table'',
      f_DatabaseColumn := get_string obj ''database_column'',
      f_DatabaseRowContext := get_string obj ''database_row_context'',
      f_DFSNamespacePath := get_string obj ''dfs_namespace_path'',
      f_DFSLinkPath := get_string obj ''dfs_link_path'',
      f_RuleID := get_string obj ''rule_id'',
      f_RuleName := get_string obj ''rule_name'',
      f_Severity := get_string obj ''severity'',
      f_Confidence := get_string obj ''confidence'',
      f_RuleConfidence := get_string obj ''rule_confidence'',
      f_ConfidenceScore := get_int obj ''confidence_score'',
      f_ConfidenceReasons := get_strings obj ''confidence_reasons'',
      f_Category := get_string obj ''category'',
      f_TriageClass := get_string obj ''triage_class'',
      f_Actionable := get_bool obj ''actionable'',
      f_Correlated := get_bool obj ''correlated'',
      f_ConfidenceBreakdown := get_breakdown obj ''confidence_breakdown'',
      f_SignalType := get_string obj ''signal_type'',
      f_MatchedText := get_string obj ''matched_text'',
      f_MatchedTextRedacted := get_string obj ''matched_text_redacted'',
      f_Context := get_string obj ''context'',
      f_ContextRedacted := get_string obj ''context_redacted'',
      f_PotentialAccount := get_string obj ''potential_account'',
      f_LineNumber := get_int obj ''line_number'',
      f_MatchedRuleIDs := get_strings obj ''matched_rule_ids'',
      f_MatchedSignalTypes := get_strings obj ''matched_signal_types'',
      f_SupportingSignals := get_signals obj ''supporting_signals'',
      f_FromSYSVOL := get_bool obj ''from_sysvol'',
      f_FromNETLOGON := get_bool obj ''from_netlogon'',
      f_Tags := get_strings obj ''tags'',
      f_Match := get_string obj ''match'',
      f_Snippet := get_string obj ''match_snippet'',
      f_MatchReason := get_string obj ''match_reason'',
      f_RuleExplanation := get_string obj ''rule_explanation'',
      f_RuleRemediation := get_string obj ''rule_remediation''\<rparr>"

subsection \<open>What the round trip keeps\<close>

definition map_signal :: "(string \<Rightarrow> string) \<Rightarrow> SupportingSignal \<Rightarrow> SupportingSignal" where
  "map_signal js s = \<lparr>ss_SignalType = js (ss_SignalType s), ss_RuleID = js (ss_RuleID s),
     ss_RuleName = js (ss_RuleName s), ss_Match = js (ss_Match s), ss_Confidence = js (ss_Confidence s),
     ss_Weight = ss_Weight s, ss_Reason = js (ss_Reason s)\<rparr>"

definition map_breakdown :: "(string \<Rightarrow> string) \<Rightarrow> ConfidenceBreakdown \<Rightarrow> ConfidenceBreakdown" where
  "map_breakdown js b = b\<lparr>cb_ValueQualityLabel := js (cb_ValueQualityLabel b),
     cb_ValueQualityReason := js (cb_ValueQualityReason b)\<rparr>"

text \<open>The finding with every string that the report carries passed through \<open>js\<close>.\<close>

definition map_strings :: "(string \<Rightarrow> string) \<Rightarrow> Finding \<Rightarrow> Finding" where
  "map_strings js f = f\<lparr>
      f_Host := js (f_Host f),
      f_Share := js (f_Share f),
      f_ShareDescription := js (f_ShareDescription f),
      f_ShareType := js (f_ShareType f),
      f_FilePath := js (f_FilePath f),
      f_Source := js (f_Source f),
      f_ArchivePath := js (f_ArchivePath f),
      f_ArchiveMemberPath := js (f_ArchiveMemberPath f),
      f_DatabaseFilePath := js (f_DatabaseFilePath f),
      f_DatabaseTable := js (f_DatabaseTable f),
      f_DatabaseColumn := js (f_DatabaseColumn f),
      f_DatabaseRowContext := js (f_DatabaseRowContext f),
      f_DFSNamespacePath := js (f_DFSNamespacePath f),
      f_DFSLinkPath := js (f_DFSLinkPath f),
      f_RuleID := js (f_RuleID f),
      f_RuleName := js (f_RuleName f),
      f_Severity := js (f_Severity f),
      f_Confidence := js (f_Confidence f),
      f_RuleConfidence := js (f_RuleConfidence f),
      f_ConfidenceReasons := map js (f_ConfidenceReasons f),
      f_Category := js (f_Category f),
      f_TriageClass := js (f_TriageClass f),
      f_ConfidenceBreakdown := map_breakdown js (f_ConfidenceBreakdown f),
      f_SignalType := js (f_SignalType f),
      f_MatchedText := js (f_MatchedText f),
      f_MatchedTextRedacted := js (f_MatchedTextRedacted f),
      f_Context := js (f_Context f),
      f_ContextRedacted := js (f_ContextRedacted f),
      f_PotentialAccount := js (f_PotentialAccount f),
      f_MatchedRuleIDs := map js (f_MatchedRuleIDs f),
      f_MatchedSignalTypes := map js (f_MatchedSignalTypes f),
      f_SupportingSignals := map (map_signal js) (f_SupportingSignals f),
      f_Tags := map js (f_Tags f),
      f_Match := js (f_Match f),
      f_Snippet := js (f_Snippet f),
      f_MatchReason := js (f_MatchReason f),
      f_RuleExplanation := js (f_RuleExplanation f),
      f_RuleRemediation := js (f_RuleRemediation f)\<rparr>"

lemmas get_defs = get_string_def get_int_def get_bool_def get_strings_def get_signals_def get_breakdown_def

lemmas put_defs = put_string_def put_string_opt_def put_int_opt_def put_bool_opt_def put_strings_opt_def
  put_signals_opt_def put_breakdown_def

text \<open>Reading a key skips the members of other keys, and finds its own.\<close>

lemma get_skip:
  "k \<noteq> key \<Longrightarrow> get_string (put_string js k v @ r) key = get_string r key"
  "k \<noteq> key \<Longrightarrow> get_int (put_string js k v @ r) key = get_int r key"
  "k \<noteq> key \<Longrightarrow> get_bool (put_string js k v @ r) key = get_bool r key"
  "k \<noteq> key \<Longrightarrow> get_strings (put_string js k v @ r) key = get_strings r key"
  "k \<noteq> key \<Longrightarrow> get_signals (put_string js k v @ r) key = get_signals r key"
  "k \<noteq> key \<Longrightarrow> get_breakdown (put_string js k v @ r) key = get_breakdown r key"
  "k \<noteq> key \<Longrightarrow> get_string (put_string_opt js k v @ r) key = get_string r key"
  "k \<noteq> key \<Longrightarrow> get_int (put_string_opt js k v @ r) key = get_int r key"
  "k \<noteq> key \<Longrightarrow> get_bool (put_string_opt js k v @ r) key = get_bool r key"
  "k \<noteq> key \<Longrightarrow> get_strings (put_string_opt js k v @ r) key = get_strings r key"
  "k \<noteq> key \<Longrightarrow> get_signals (put_string_opt js k v @ r) key = get_signals r key"
  "k \<noteq> key \<Longrightarrow> get_breakdown (put_string_opt js k v @ r) key = get_breakdown r key"
  "k \<noteq> key \<Longrightarrow> get_string (put_int_opt k i @ r) key = get_string r key"
  "k \<noteq> key \<Longrightarrow> get_int (put_int_opt k i @ r) key = get_int r key"
  "k \<noteq> key \<Longrightarrow> get_bool (put_int_opt k i @ r) key = get_bool r key"
  "k \<noteq> key \<Longrightarrow> get_strings (put_int_opt k i @ r) key = get_strings r key"
  "k \<noteq> key \<Longrightarrow> get_signals (put_int_opt k i @ r) key = get_signals r key"
  "k \<noteq> key \<Longrightarrow> get_breakdown (put_int_opt k i @ r) key = get_breakdown r key"
  "k \<noteq> key \<Longrightarrow> get_string (put_bool_opt k b @ r) key = get_string r key"
  "k \<noteq> key \<Longrightarrow> get_int (put_bool_opt k b @ r) key = get_int r key"
  "k \<noteq> key \<Longrightarrow> get_bool (put_bool_opt k b @ r) key = get_bool r key"
  "k \<noteq> key \<Longrightarrow> get_strings (put_bool_opt k b @ r) key = get_strings r key"
  "k \<noteq> key \<Longrightarrow> get_signals (put_bool_opt k b @ r) key = get_signals r key"
  "k \<noteq> key \<Longrightarrow> get_breakdown (put_bool_opt k b @ r) key = get_breakdown r key"
  "k \<noteq> key \<Longrightarrow> get_string (put_strings_opt js k vs @ r) key = get_string r key"
  "k \<noteq> key \<Longrightarrow> get_int (put_strings_opt js k vs @ r) key = get_int r key"
  "k \<noteq> key \<Longrightarrow> get_bool (put_strings_opt js k vs @ r) key = get_bool r key"
  "k \<noteq> key \<Longrightarrow> get_strings (put_strings_opt js k vs @ r) key = get_strings r key"
  "k \<noteq> key \<Longrightarrow> get_signals (put_strings_opt js k vs @ r) key = get_signals r key"
  "k \<noteq> key \<Longrightarrow> get_breakdown (put_strings_opt js k vs @ r) key = get_breakdown r key"
  "k \<noteq> key \<Longrightarrow> get_string (put_signals_opt js k sgs @ r) key = get_string r key"
  "k \<noteq> key \<Longrightarrow> get_int (put_signals_opt js k sgs @ r) key = get_int r key"
  "k \<noteq> key \<Longrightarrow> get_bool (put_signals_opt js k sgs @ r) key = get_bool r key"
  "k \<noteq> key \<Longrightarrow> get_strings (put_signals_opt js k sgs @ r) key = get_strings r key"
  "k \<noteq> key \<Longrightarrow> get_signals (put_signals_opt js k sgs @ r) key = get_signals r key"
  "k \<noteq> key \<Longrightarrow> get_breakdown (put_signals_opt js k sgs @ r) key = get_breakdown r key"
  "k \<noteq> key \<Longrightarrow> get_string (put_breakdown js k bd @ r) key = get_string r key"
  "k \<noteq> key \<Longrightarrow> get_int (put_breakdown js k bd @ r) key = get_int r key"
  "k \<noteq> key \<Longrightarrow> get_bool (put_breakdown js k bd @ r) key = get_bool r key"
  "k \<noteq> key \<Longrightarrow> get_strings (put_breakdown js k bd @ r) key = get_strings r key"
  "k \<noteq> key \<Longrightarrow> get_signals (put_breakdown js k bd @ r) key = get_signals r key"
  "k \<noteq> key \<Longrightarrow> get_breakdown (put_breakdown js k bd @ r) key = get_breakdown r key"
  by (simp_all add: put_defs get_defs)

lemma get_hit:
  "get_string (put_string js k v @ r) k = js v"
  "get_string (put_string_opt js k v @ r) k = (if v = [] then get_string r k else js v)"
  "get_int (put_int_opt k i @ r) k = (if i = 0 then get_int r k else i)"
  "get_bool (put_bool_opt k b @ r) k = (b \<or> get_bool r k)"
  "get_strings (put_strings_opt js k vs @ r) k = (if vs = [] then get_strings r k else map js vs)"
  "get_signals (put_signals_opt js k sgs @ r) k =
     (if sgs = [] then get_signals r k else map (\<lambda>v. get_signal (signal_members js v)) sgs)"
  by (simp_all add: put_defs get_defs comp_def)

lemma get_empty:
  "get_string [] k = []" "get_int [] k = 0" "get_bool [] k = False" "get_strings [] k = []" "get_signals [] k = []"
  by (simp_all add: get_defs)

lemmas get_last = get_skip [where r = "[]", unfolded append_Nil2] get_hit [where r = "[]", unfolded append_Nil2]

lemma get_signal_members:
  "js [] = [] \<Longrightarrow> get_signal (signal_members js s) = map_signal js s"
  by (simp add: get_signal_def signal_members_def map_signal_def get_skip get_hit get_last get_empty)

lemma get_breakdown_members:
  "js [] = [] \<Longrightarrow> get_breakdown (put_breakdown js k b @ r) k = map_breakdown js b"
  by (simp add: get_breakdown_def put_breakdown_def breakdown_members_def map_breakdown_def Let_def
      get_skip get_hit get_last get_empty)


lemma zero_priorities:
  "f_Priority zero_finding = 0" "f_PriorityReason zero_finding = []"
  "f_SharePriority zero_finding = 0" "f_SharePriorityReason zero_finding = []"
  by (simp_all add: zero_finding_def)

lemma get_delta:
  assumes "k \<noteq> ''diff_status''" and "k \<noteq> ''changed_fields''"
  shows "get_string (delta_members js delta) k = []" "get_int (delta_members js delta) k = 0"
    "\<not> get_bool (delta_members js delta) k" "get_strings (delta_members js delta) k = []"
    "get_signals (delta_members js delta) k = []"
  using assms by (cases delta; simp add: delta_members_def get_skip get_last get_empty)+

lemma load_written:
  assumes "js [] = []"
  shows "loadFinding (toJSONFinding js f delta) =
    (map_strings js f)\<lparr>f_Priority := 0, f_PriorityReason := [], f_SharePriority := 0, f_SharePriorityReason := []\<rparr>"
proof -
  note br = get_breakdown_members [where js = js, OF assms] and sig = get_signal_members [where js = js, OF assms]
  show ?thesis
    apply (rule Finding.equality)
    apply (simp_all add: loadFinding_def map_strings_def zero_priorities del: zero_finding_def)
    apply (simp_all add: toJSONFinding_def get_skip get_hit get_delta br sig assms cong: if_cong)
    done
qed




subsection \<open>Performance figures\<close>

record scanResultSummary =
  sr_StartedAt :: gotime
  sr_EndedAt :: gotime
  sr_FilesScanned :: int
  sr_MatchesFound :: int

record ClassificationSummary =
  cs_Class :: string
  cs_Count :: int

record PerformanceSummary =
  pf_FilesScanned :: int
  pf_FindingsTotal :: int
  pf_DurationMS :: int
  pf_FilesPerSecond :: rat
  pf_ClassificationDistribution :: "ClassificationSummary list"

record ClassificationDelta =
  cd_Class :: string
  cd_Prev :: int
  cd_Curr :: int
  cd_Delta :: int

record PerformanceComparison =
  pc_FindingsDelta :: int
  pc_DurationDeltaMS :: int
  pc_FilesPerSecondDelta :: rat
  pc_ClassificationChanges :: "ClassificationDelta list"

definition classification :: "Finding \<Rightarrow> string" where
  "classification f = (let class = to_lower (trim_space (f_TriageClass f))
     in if class = [] then ''unclassified'' else class)"

definition class_counts :: "Finding list \<Rightarrow> string \<rightharpoonup> int" where
  "class_counts findings =
     foldl (\<lambda>m f. m(classification f \<mapsto> (case m (classification f) of None \<Rightarrow> 0 | Some n \<Rightarrow> n) + 1)) Map.empty findings"

definition summary_less :: "ClassificationSummary \<Rightarrow> ClassificationSummary \<Rightarrow> bool" where
  "summary_less x y = (if cs_Count x = cs_Count y then cs_Class x < cs_Class y else cs_Count x > cs_Count y)"

text \<open>\<open>order\<close> is the order in which the map of counts is visited.\<close>

definition classificationDistribution :: "string list \<Rightarrow> Finding list \<Rightarrow> ClassificationSummary list" where
  "classificationDistribution order findings =
     (if length findings = 0 then []
      else slice_sort summary_less
        (map (\<lambda>class. \<lparr>cs_Class = class, cs_Count = the (class_counts findings class)\<rparr>) order))"

text \<open>\<open>time.Time.Sub\<close> saturates at the ends of \<open>time.Duration\<close>, a 64-bit count of nanoseconds.\<close>

definition time_sub :: "gotime \<Rightarrow> gotime \<Rightarrow> int" where
  "time_sub t u = max (- (2 ^ 63)) (min (2 ^ 63 - 1) (t - u))"

definition scan_duration :: "scanResultSummary \<Rightarrow> int" where
  "scan_duration s =
     (let duration = time_sub (sr_EndedAt s) (sr_StartedAt s)
      in if is_zero_time (sr_StartedAt s) \<or> is_zero_time (sr_EndedAt s) \<or> duration < 0 then 0 else duration)"

text \<open>Rates are exact quotients here; the code computes them in floating point.\<close>

definition files_per_second :: "int \<Rightarrow> int \<Rightarrow> rat" where
  "files_per_second filesScanned duration =
     (if duration > 0 \<and> filesScanned > 0 then of_int filesScanned / (of_int duration / 1000000000) else 0)"

definition derivePerformanceSummary :: "string list \<Rightarrow> scanResultSummary \<Rightarrow> Finding list \<Rightarrow> PerformanceSummary" where
  "derivePerformanceSummary order s findings =
     (let duration = scan_duration s;
          filesScanned = sr_FilesScanned s;
          findingsTotal = (if sr_MatchesFound s \<le> 0 then int (length findings) else sr_MatchesFound s)
      in \<lparr>pf_FilesScanned = filesScanned, pf_FindingsTotal = findingsTotal,
          pf_DurationMS = duration div 1000000,
          pf_FilesPerSecond = files_per_second filesScanned duration,
          pf_ClassificationDistribution = classificationDistribution order findings\<rparr>)"

definition buildClassificationDistribution :: "string list \<Rightarrow> Finding list \<Rightarrow> ClassificationSummary list" where
  "buildClassificationDistribution order findings =
     (if length findings = 0 then []
      else slice_sort summary_less
        (map (\<lambda>class. \<lparr>cs_Class = class, cs_Count = the (class_counts findings class)\<rparr>) order))"

definition buildPerformanceSummary :: "string list \<Rightarrow> scanResultSummary \<Rightarrow> Finding list \<Rightarrow> PerformanceSummary" where
  "buildPerformanceSummary order s findings =
     \<lparr>pf_FilesScanned = sr_FilesScanned s, pf_FindingsTotal = sr_MatchesFound s,
      pf_DurationMS = scan_duration s div 1000000,
      pf_FilesPerSecond = files_per_second (sr_FilesScanned s) (scan_duration s),
      pf_ClassificationDistribution = buildClassificationDistribution order findings\<rparr>"

definition baseline_counts :: "ClassificationSummary list \<Rightarrow> string \<rightharpoonup> ClassificationDelta" where
  "baseline_counts baseline =
     foldl (\<lambda>m item. m(cs_Class item \<mapsto> \<lparr>cd_Class = cs_Class item, cd_Prev = cs_Count item, cd_Curr = 0, cd_Delta = 0\<rparr>))
       Map.empty baseline"

definition delta_counts :: "ClassificationSummary list \<Rightarrow> ClassificationSummary list \<Rightarrow> string \<rightharpoonup> ClassificationDelta" where
  "delta_counts cur baseline =
     foldl (\<lambda>m item.
         let delta = (case m (cs_Class item) of
               None \<Rightarrow> \<lparr>cd_Class = [], cd_Prev = 0, cd_Curr = 0, cd_Delta = 0\<rparr> | Some d \<Rightarrow> d)
         in m(cs_Class item \<mapsto> delta\<lparr>cd_Class := cs_Class item, cd_Curr := cs_Count item\<rparr>))
       (baseline_counts baseline) cur"

definition delta_less :: "ClassificationDelta \<Rightarrow> ClassificationDelta \<Rightarrow> bool" where
  "delta_less x y =
     (if \<bar>cd_Delta x\<bar> = \<bar>cd_Delta y\<bar> then cd_Class x < cd_Class y else \<bar>cd_Delta x\<bar> > \<bar>cd_Delta y\<bar>)"

definition buildClassificationDeltas ::
  "string list \<Rightarrow> ClassificationSummary list \<Rightarrow> ClassificationSummary list \<Rightarrow> ClassificationDelta list" where
  "buildClassificationDeltas order cur baseline =
     slice_sort delta_less
       (map (\<lambda>class. let item = the (delta_counts cur baseline class)
                     in item\<lparr>cd_Delta := cd_Curr item - cd_Prev item\<rparr>) order)"

definition buildPerformanceComparison ::
  "string list \<Rightarrow> PerformanceSummary \<Rightarrow> PerformanceSummary option \<Rightarrow> PerformanceComparison option" where
  "buildPerformanceComparison order cur baseline =
     (case baseline of
        None \<Rightarrow> None
      | Some b \<Rightarrow> Some
          \<lparr>pc_FindingsDelta = pf_FindingsTotal cur - pf_FindingsTotal b,
           pc_DurationDeltaMS = pf_DurationMS cur - pf_DurationMS b,
           pc_FilesPerSecondDelta = pf_FilesPerSecond cur - pf_FilesPerSecond b,
           pc_ClassificationChanges =
             buildClassificationDeltas order (pf_ClassificationDistribution cur) (pf_ClassificationDistribution b)\<rparr>)"

subsection \<open>Loading a report\<close>

record scanResultFile =
  sc_Summary :: scanResultSummary
  sc_Performance :: "PerformanceSummary option"
  sc_Findings :: "members list"

text \<open>What \<open>os.ReadFile\<close> and \<open>json.Unmarshal\<close> make of the file.\<close>

datatype report_document = Unreadable string | NotJSON string | ReadReport scanResultFile

datatype report_error = ReadReportFailed string string | ParseReportFailed string string

record Report =
  rp_Findings :: "Finding list"
  rp_Performance :: PerformanceSummary

definition LoadJSON :: "string list \<Rightarrow> string \<Rightarrow> report_document \<Rightarrow> report_error + Report" where
  "LoadJSON order path document =
     (case document of
        Unreadable err \<Rightarrow> Inl (ReadReportFailed path err)
      | NotJSON err \<Rightarrow> Inl (ParseReportFailed path err)
      | ReadReport parsed \<Rightarrow>
          let findings = map loadFinding (sc_Findings parsed)
          in Inr \<lparr>rp_Findings = findings,
            rp_Performance = (case sc_Performance parsed of
                Some perf \<Rightarrow> perf
              | None \<Rightarrow> derivePerformanceSummary order (sc_Summary parsed) findings)\<rparr>)"

text \<open>The members of the findings in the report of a scan that has a baseline (\<open>JSONWriter.Close\<close>).\<close>

definition report_findings ::
  "(string \<Rightarrow> string) \<Rightarrow> FindingFingerprint list \<Rightarrow> FindingFingerprint list \<Rightarrow> Finding list \<Rightarrow> Finding list \<Rightarrow> members list" where
  "report_findings js kc kp baseline augmented =
     (let statuses = (if length baseline > 0 then CurrentStatuses (Compare kc kp baseline augmented) else Map.empty)
      in map (\<lambda>f. toJSONFinding js f (statuses (Fingerprint f))) augmented)"


subsection \<open>Facts about the figures\<close>

lemma class_counts_eq:
  "class_counts fs c =
     (if c \<in> classification ` set fs then Some (int (length (filter (\<lambda>f. classification f = c) fs))) else None)"
  by (induction fs rule: rev_induct) (auto simp: class_counts_def filter_empty_conv image_iff, metis)

lemma dom_class_counts: "dom (class_counts fs) = classification ` set fs"
  by (auto simp: class_counts_eq split: if_splits)

lemma sum_class_counts:
  assumes "map_order order (class_counts fs)"
  shows "sum_list (map (\<lambda>c. the (class_counts fs c)) order) = int (length fs)"
proof -
  have d: "distinct order" "set order = classification ` set fs"
    using assms by (auto simp: map_order_def dom_class_counts)
  have "sum_list (map (\<lambda>c. the (class_counts fs c)) order) =
      (\<Sum>c\<in>classification ` set fs. int (length (filter (\<lambda>f. classification f = c) fs)))"
    using d by (simp add: sum_list_distinct_conv_sum_set class_counts_eq)
  also have "\<dots> = int (length fs)"
    using sum_by_key [of "classification ` set fs" classification fs] by (simp flip: of_nat_sum)
  finally show ?thesis .
qed

lemma distribution_eq:
  "classificationDistribution order fs = (if fs = [] then [] else slice_sort summary_less
     (map (\<lambda>class. \<lparr>cs_Class = class, cs_Count = the (class_counts fs class)\<rparr>) order))"
  "buildClassificationDistribution = classificationDistribution"
  by (simp_all add: classificationDistribution_def buildClassificationDistribution_def fun_eq_iff)

interpretation summaries: key_order summary_less "\<lambda>s. (- cs_Count s, cs_Class s)"
  by unfold_locales (auto simp: summary_less_def)

interpretation deltas: key_order delta_less "\<lambda>d. (- \<bar>cd_Delta d\<bar>, cd_Class d)"
  by unfold_locales (auto simp: delta_less_def)

text \<open>Looking a class up in a distribution gives its count.\<close>

lemma baseline_counts_eq:
  "baseline_counts xs c = map_option (\<lambda>i. \<lparr>cd_Class = c, cd_Prev = cs_Count i, cd_Curr = 0, cd_Delta = 0\<rparr>)
     (find (\<lambda>i. cs_Class i = c) (rev xs))"
  by (induction xs rule: rev_induct) (auto simp: baseline_counts_def)

definition count_in :: "ClassificationSummary list \<Rightarrow> string \<Rightarrow> int" where
  "count_in xs c = (case find (\<lambda>i. cs_Class i = c) (rev xs) of None \<Rightarrow> 0 | Some i \<Rightarrow> cs_Count i)"

lemma delta_counts_eq:
  "delta_counts xs base c =
     (if c \<in> cs_Class ` set xs \<union> cs_Class ` set base
      then Some \<lparr>cd_Class = c, cd_Prev = count_in base c, cd_Curr = count_in xs c, cd_Delta = 0\<rparr> else None)"
proof (induction xs rule: rev_induct)
  case Nil
  show ?case
    by (auto simp: delta_counts_def baseline_counts_eq count_in_def find_None_iff split: option.splits)
next
  case (snoc x xs)
  have s: "delta_counts (xs @ [x]) base = (let delta = (case delta_counts xs base (cs_Class x) of
               None \<Rightarrow> \<lparr>cd_Class = [], cd_Prev = 0, cd_Curr = 0, cd_Delta = 0\<rparr> | Some d \<Rightarrow> d)
         in (delta_counts xs base)(cs_Class x \<mapsto> delta\<lparr>cd_Class := cs_Class x, cd_Curr := cs_Count x\<rparr>))"
    by (simp add: delta_counts_def)
  have none: "count_in ys b = 0" if "b \<notin> cs_Class ` set ys" for ys b
  proof -
    have "find (\<lambda>i. cs_Class i = b) (rev ys) = None" using that by (auto simp: find_None_iff)
    then show ?thesis by (simp add: count_in_def)
  qed
  show ?case
  proof (cases "c = cs_Class x")
    case True
    then show ?thesis
      using snoc by (cases "cs_Class x \<in> cs_Class ` set xs \<union> cs_Class ` set base")
         (simp_all add: s Let_def count_in_def [of "xs @ [x]"] none)
  next
    case False
    then show ?thesis by (simp add: s snoc Let_def count_in_def)
  qed
qed


lemma count_in_unique:
  assumes "distinct (map cs_Class xs)" and "i \<in> set xs"
  shows "count_in xs (cs_Class i) = cs_Count i"
proof -
  obtain j where j: "find (\<lambda>j. cs_Class j = cs_Class i) (rev xs) = Some j"
    using assms(2) by (metis (mono_tags, lifting) find_None_iff not_Some_eq set_rev)
  then have "j \<in> set xs \<and> cs_Class j = cs_Class i"
    by (metis (mono_tags, lifting) find_Some_iff length_rev nth_mem set_rev)
  then have "j = i" using assms by (metis distinct_map inj_onD)
  with j show ?thesis by (simp add: count_in_def)
qed

lemma distribution_counts:
  assumes "map_order order (class_counts fs)"
  shows "cs_Class ` set (classificationDistribution order fs) = classification ` set fs"
    and "count_in (classificationDistribution order fs) c = int (length (filter (\<lambda>f. classification f = c) fs))"
proof -
  let ?d = "classificationDistribution order fs"
  let ?i = "\<lambda>class. \<lparr>cs_Class = class, cs_Count = the (class_counts fs class)\<rparr>"
  have o: "distinct order" "set order = classification ` set fs"
    using assms by (auto simp: map_order_def dom_class_counts)
  have m: "mset ?d = mset (map ?i order)" using o by (auto simp: distribution_eq)
  then have set: "set ?d = ?i ` set order" by (metis mset_eq_setD set_map)
  then show c: "cs_Class ` set ?d = classification ` set fs" using o by (simp add: image_image)
  have "map cs_Class (map ?i order) = order" by (simp add: comp_def)
  then have "mset (map cs_Class ?d) = mset order" using m by (metis mset_map)
  then have u: "distinct (map cs_Class ?d)" using o by (metis mset_eq_imp_distinct_iff)
  show "count_in ?d c = int (length (filter (\<lambda>f. classification f = c) fs))"
  proof (cases "c \<in> classification ` set fs")
    case True
    then have "?i c \<in> set ?d" using set o by auto
    from count_in_unique [OF u this] True show ?thesis by (simp add: class_counts_eq)
  next
    case False
    then have "find (\<lambda>i. cs_Class i = c) (rev ?d) = None" using c by (auto simp: find_None_iff)
    with False show ?thesis by (auto simp: count_in_def filter_empty_conv)
  qed
qed

text \<open>
  The comparison of the classes of two scans, whatever the order of the maps: every class that
  either scan has is listed once, with the number of findings each scan has of it and their
  difference, largest change first; and the differences add up to the difference of the numbers of
  findings.
\<close>

theorem classification_deltas_account:
  assumes "map_order oc (class_counts current)" and "map_order ob (class_counts baseline)"
    and "distinct order" and "set order = classification ` (set current \<union> set baseline)"
  shows "let out = buildClassificationDeltas order (buildClassificationDistribution oc current)
        (classificationDistribution ob baseline) in
    set (map cd_Class out) = classification ` (set current \<union> set baseline) \<and> distinct (map cd_Class out) \<and>
    list_all (\<lambda>d. cd_Curr d = int (length (filter (\<lambda>f. classification f = cd_Class d) current)) \<and>
      cd_Prev d = int (length (filter (\<lambda>f. classification f = cd_Class d) baseline)) \<and>
      cd_Delta d = cd_Curr d - cd_Prev d) out \<and>
    sum_list (map cd_Delta out) = int (length current) - int (length baseline) \<and>
    sorted (map (\<lambda>d. - \<bar>cd_Delta d\<bar>) out)"
proof -
  let ?c = "classificationDistribution oc current" and ?b = "classificationDistribution ob baseline"
  let ?n = "\<lambda>fs c. int (length (filter (\<lambda>f. classification f = c) fs))"
  define item where "item c = \<lparr>cd_Class = c, cd_Prev = ?n baseline c, cd_Curr = ?n current c,
    cd_Delta = ?n current c - ?n baseline c\<rparr>" for c
  note C = distribution_counts [OF assms(1)] and B = distribution_counts [OF assms(2)]
  define out where "out = buildClassificationDeltas order ?c ?b"
  have items: "map (\<lambda>class. let item = the (delta_counts ?c ?b class) in item\<lparr>cd_Delta := cd_Curr item - cd_Prev item\<rparr>) order
      = map item order"
    using assms(4) by (auto simp: delta_counts_eq C B item_def Let_def image_Un)
  then have m: "mset out = mset (map item order)"
    unfolding out_def buildClassificationDeltas_def mset_slice_sort by (rule arg_cong)
  have cl: "map cd_Class (map item order) = order" by (simp add: item_def comp_def)
  have "mset (map cd_Class out) = mset order" using m cl by (metis mset_map)
  then have 1: "set (map cd_Class out) = set order" "distinct (map cd_Class out)"
    using assms(3) by (metis mset_eq_setD, metis mset_eq_imp_distinct_iff)
  have "set out = set (map item order)" using m by (rule mset_eq_setD)
  then have 2: "list_all (\<lambda>d. cd_Curr d = ?n current (cd_Class d) \<and> cd_Prev d = ?n baseline (cd_Class d) \<and>
      cd_Delta d = cd_Curr d - cd_Prev d) out"
    by (auto simp: list_all_iff item_def)
  have n: "sum_list (map (?n fs) order) = int (length fs)" if "set fs \<subseteq> set current \<union> set baseline" for fs
  proof -
    let ?o = "filter (\<lambda>c. c \<in> classification ` set fs) order"
    have "map_order ?o (class_counts fs)"
      using that assms(3,4) by (auto simp: map_order_def dom_class_counts)
    then have s: "sum_list (map (\<lambda>c. the (class_counts fs c)) ?o) = int (length fs)" by (rule sum_class_counts)
    have "sum_list (map (?n fs) order) = sum_list (map (\<lambda>c. the (class_counts fs c)) ?o)"
      by (induction order) (auto simp: class_counts_eq filter_empty_conv)
    with s show ?thesis by simp
  qed
  have "sum_list (map cd_Delta out) = sum_list (map cd_Delta (map item order))"
    using m by (metis mset_map sum_mset_sum_list)
  also have "\<dots> = sum_list (map (?n current) order) - sum_list (map (?n baseline) order)"
    by (simp add: item_def comp_def sum_list_subtractf)
  finally have 3: "sum_list (map cd_Delta out) = int (length current) - int (length baseline)"
    by (simp add: n)
  have "sorted (map (\<lambda>d. (- \<bar>cd_Delta d\<bar>, cd_Class d)) out)"
    unfolding out_def buildClassificationDeltas_def by (rule deltas.ordered)
  then have 4: "sorted (map (\<lambda>d. - \<bar>cd_Delta d\<bar>) out)"
    unfolding sorted_map by (rule sorted_wrt_mono_rel [rotated]) auto
  show ?thesis unfolding distribution_eq(2) Let_def out_def [symmetric] using 1 2 3 4 assms(4) by simp
qed

theorem classification_deltas_account_witness:
  "let f = zero_finding; g = f\<lparr>f_TriageClass := ''Actionable''\<rparr> in
   sum_list (map cd_Delta (buildClassificationDeltas [''actionable'', ''unclassified'']
     (buildClassificationDistribution [''actionable'', ''unclassified''] [f, g, g])
     (classificationDistribution [''unclassified''] [f]))) = 2"
proof -
  let ?f = zero_finding and ?g = "zero_finding\<lparr>f_TriageClass := ''Actionable''\<rparr>"
  have c: "classification ?f = ''unclassified''" "classification ?g = ''actionable''" by code_simp+
  have "map_order [''actionable'', ''unclassified''] (class_counts [?f, ?g, ?g])"
    "map_order [''unclassified''] (class_counts [?f])"
    "distinct [''actionable'', ''unclassified'']"
    "set [''actionable'', ''unclassified''] = classification ` (set [?f, ?g, ?g] \<union> set [?f])"
    unfolding map_order_def dom_class_counts by (auto simp: c)
  from classification_deltas_account [OF this] show ?thesis by (simp add: Let_def)
qed

end
