(* ===== verification/Suppression.thy ===== *)
theory Suppression
  imports Diff
begin

text \<open>
  Suppression of known findings: the compiled rules and the matcher (\<open>internal/suppression/matcher.go\<close>),
  the rules of the configuration (\<open>internal/config/config.go\<close>) and the writer that sits in front of the
  sinks of a scan and keeps the findings it hides for the summary
  (\<open>internal/output/suppression.go\<close>).
\<close>

subsection \<open>Rules\<close>

record SuppressionRule =
  sr_ID :: string
  sr_Description :: string
  sr_Reason :: string
  sr_Enabled :: bool
  sr_Hosts :: "string list"
  sr_Shares :: "string list"
  sr_RuleIDs :: "string list"
  sr_Categories :: "string list"
  sr_ExactPaths :: "string list"
  sr_PathPrefixes :: "string list"
  sr_PathContains :: "string list"
  sr_Fingerprints :: "string list"
  sr_Tags :: "string list"

record compiledRule =
  co_id :: string
  co_description :: string
  co_reason :: string
  co_hosts :: "string list"
  co_shares :: "string list"
  co_ruleIDs :: "string list"
  co_categories :: "string list"
  co_exactPaths :: "string list"
  co_prefixes :: "string list"
  co_contains :: "string list"
  co_fingerprints :: "string list"
  co_tags :: "string list"

definition normalizeValue :: "string \<Rightarrow> string" where
  "normalizeValue value0 = to_lower (trim_space value0)"

definition suppression_normalizePath :: "string \<Rightarrow> string" where
  "suppression_normalizePath value0 = to_lower (slashes (trim_space value0))"

text \<open>\<open>slices.Sort\<close> and \<open>slices.Compact\<close>.\<close>

definition sort_compact :: "string list \<Rightarrow> string list" where
  "sort_compact xs = remdups_adj (slice_sort (<) xs)"

definition normalizeValues :: "string list \<Rightarrow> string list" where
  "normalizeValues vs = sort_compact (filter (\<lambda>v. v \<noteq> []) (map normalizeValue vs))"

definition normalizePaths :: "string list \<Rightarrow> string list" where
  "normalizePaths vs = sort_compact (filter (\<lambda>v. v \<noteq> []) (map suppression_normalizePath vs))"

definition compile_rule :: "SuppressionRule \<Rightarrow> compiledRule" where
  "compile_rule rule =
     \<lparr>co_id = trim_space (sr_ID rule), co_description = trim_space (sr_Description rule),
      co_reason = trim_space (sr_Reason rule), co_hosts = normalizeValues (sr_Hosts rule),
      co_shares = normalizeValues (sr_Shares rule), co_ruleIDs = normalizeValues (sr_RuleIDs rule),
      co_categories = normalizeValues (sr_Categories rule), co_exactPaths = normalizePaths (sr_ExactPaths rule),
      co_prefixes = normalizePaths (sr_PathPrefixes rule), co_contains = normalizePaths (sr_PathContains rule),
      co_fingerprints = normalizeValues (sr_Fingerprints rule), co_tags = normalizeValues (sr_Tags rule)\<rparr>"

text \<open>\<open>New\<close>: the matcher is nil (\<open>None\<close>) when no rule is enabled.\<close>

fun new_loop :: "SuppressionRule list \<Rightarrow> compiledRule list" where
  "new_loop [] = []"
| "new_loop (rule # rules) = (if \<not> sr_Enabled rule then new_loop rules else compile_rule rule # new_loop rules)"

definition NewMatcher :: "SuppressionRule list \<Rightarrow> compiledRule list option" where
  "NewMatcher rules = (let compiled = new_loop rules in if length compiled = 0 then None else Some compiled)"

subsection \<open>Matching\<close>

definition matchAny :: "string list \<Rightarrow> string \<Rightarrow> bool" where
  "matchAny want got = (if length want = 0 then True else got \<in> set want)"

definition matchSlice :: "string list \<Rightarrow> string list \<Rightarrow> bool" where
  "matchSlice want got = (if length want = 0 then True else list_ex (\<lambda>item. item \<in> set want) got)"

definition matchPrefix :: "string list \<Rightarrow> string \<Rightarrow> bool" where
  "matchPrefix prefixes got = (if length prefixes = 0 then True else list_ex (has_prefix got) prefixes)"

definition matchContains :: "string list \<Rightarrow> string \<Rightarrow> bool" where
  "matchContains vs got = (if length vs = 0 then True else list_ex (contains got) vs)"

definition FingerprintString :: "Finding \<Rightarrow> string" where
  "FingerprintString f = (let fp = Fingerprint f
     in fp_RuleID fp @ ''|'' @ fp_Host fp @ ''|'' @ fp_Share fp @ ''|'' @ fp_FilePath fp @ ''|'' @ fp_Match fp)"

record Match =
  ma_SuppressionID :: string
  ma_SuppressionDescription :: string
  ma_SuppressionReason :: string
  ma_Fingerprint :: string

definition rule_matches :: "compiledRule \<Rightarrow> Finding \<Rightarrow> bool" where
  "rule_matches rule f =
     (let normalizedPath = suppression_normalizePath (f_FilePath f);
          fingerprint = FingerprintString f;
          host = normalizeValue (f_Host f);
          share = normalizeValue (f_Share f);
          category = normalizeValue (f_Category f);
          ruleIDs = normalizeValues ([f_RuleID f] @ f_MatchedRuleIDs f);
          tags = normalizeValues (f_Tags f)
      in if \<not> matchAny (co_hosts rule) host then False
         else if \<not> matchAny (co_shares rule) share then False
         else if \<not> matchSlice (co_ruleIDs rule) ruleIDs then False
         else if \<not> matchAny (co_categories rule) category then False
         else if \<not> matchAny (co_fingerprints rule) fingerprint then False
         else if \<not> matchAny (co_exactPaths rule) normalizedPath then False
         else if \<not> matchPrefix (co_prefixes rule) normalizedPath then False
         else if \<not> matchContains (co_contains rule) normalizedPath then False
         else if \<not> matchSlice (co_tags rule) tags then False
         else True)"

fun match_loop :: "compiledRule list \<Rightarrow> Finding \<Rightarrow> Match option" where
  "match_loop [] f = None"
| "match_loop (rule # rules) f =
     (if \<not> rule_matches rule f then match_loop rules f
      else Some \<lparr>ma_SuppressionID = co_id rule, ma_SuppressionDescription = co_description rule,
        ma_SuppressionReason = co_reason rule, ma_Fingerprint = FingerprintString f\<rparr>)"

definition MatchFinding :: "compiledRule list option \<Rightarrow> Finding \<Rightarrow> Match option" where
  "MatchFinding m f = (case m of None \<Rightarrow> None | Some rules \<Rightarrow> if length rules = 0 then None else match_loop rules f)"

subsection \<open>The suppressing writer\<close>

record suppressedFinding =
  su_Host :: string
  su_Share :: string
  su_FilePath :: string
  su_RuleID :: string
  su_Category :: string
  su_Fingerprint :: FindingFingerprint
  su_SuppressionID :: string
  su_SuppressionDescription :: string
  su_SuppressionReason :: string

record suppressionRuleCount =
  rc_ID :: string
  rc_Description :: string
  rc_Reason :: string
  rc_Count :: nat

record suppressionSummary =
  ss_Enabled :: bool
  ss_TotalSuppressed :: nat
  ss_Rules :: "suppressionRuleCount list"
  ss_Samples :: "suppressedFinding list"

text \<open>The writer over a sink with a state of its own type, whose \<open>WriteFinding\<close> is a parameter.\<close>

record 's suppressionWriter =
  sw_inner :: 's
  sw_matcher :: "compiledRule list option"
  sw_sampleLimit :: int
  sw_suppressed :: "suppressedFinding list"

text \<open>\<open>WrapWithSuppression\<close>: without an enabled rule the sink is used as it is (\<open>Inl\<close>).\<close>

definition WrapWithSuppression :: "'s \<Rightarrow> int \<Rightarrow> SuppressionRule list \<Rightarrow> 's + 's suppressionWriter" where
  "WrapWithSuppression sink sampleLimit rules =
     (case NewMatcher rules of
        None \<Rightarrow> Inl sink
      | Some m \<Rightarrow> Inr \<lparr>sw_inner = sink, sw_matcher = Some m, sw_sampleLimit = sampleLimit, sw_suppressed = []\<rparr>)"

definition suppressedFindingOf :: "compiledRule list option \<Rightarrow> Finding \<Rightarrow> suppressedFinding option" where
  "suppressedFindingOf matcher f =
     (case MatchFinding matcher f of
        None \<Rightarrow> None
      | Some m \<Rightarrow> Some \<lparr>su_Host = trim_space (f_Host f), su_Share = trim_space (f_Share f),
          su_FilePath = trim_space (f_FilePath f), su_RuleID = trim_space (f_RuleID f),
          su_Category = trim_space (f_Category f), su_Fingerprint = Fingerprint f,
          su_SuppressionID = ma_SuppressionID m, su_SuppressionDescription = ma_SuppressionDescription m,
          su_SuppressionReason = ma_SuppressionReason m\<rparr>)"

definition WriteFinding ::
  "('s \<Rightarrow> Finding \<Rightarrow> string option \<times> 's) \<Rightarrow> 's suppressionWriter \<Rightarrow> Finding \<Rightarrow> string option \<times> 's suppressionWriter" where
  "WriteFinding write w f =
     (case suppressedFindingOf (sw_matcher w) f of
        Some item \<Rightarrow> (None, w\<lparr>sw_suppressed := sw_suppressed w @ [item]\<rparr>)
      | None \<Rightarrow> (case write (sw_inner w) f of (err, s) \<Rightarrow> (err, w\<lparr>sw_inner := s\<rparr>)))"

text \<open>\<open>RecordVisibleFinding\<close> and \<open>RecordDowngradedFinding\<close> have the same shape.\<close>

definition RecordObserved :: "('s \<Rightarrow> Finding \<Rightarrow> 's) \<Rightarrow> 's suppressionWriter \<Rightarrow> Finding \<Rightarrow> 's suppressionWriter" where
  "RecordObserved observe w f =
     (case suppressedFindingOf (sw_matcher w) f of
        Some item \<Rightarrow> w
      | None \<Rightarrow> w\<lparr>sw_inner := observe (sw_inner w) f\<rparr>)"

definition rule_counts :: "suppressedFinding list \<Rightarrow> string \<rightharpoonup> suppressionRuleCount" where
  "rule_counts items =
     foldl (\<lambda>m item.
         let c0 = (case m (su_SuppressionID item) of
               None \<Rightarrow> \<lparr>rc_ID = [], rc_Description = [], rc_Reason = [], rc_Count = 0\<rparr> | Some c \<Rightarrow> c)
         in m(su_SuppressionID item \<mapsto> c0\<lparr>rc_ID := su_SuppressionID item,
             rc_Description := su_SuppressionDescription item, rc_Reason := su_SuppressionReason item,
             rc_Count := rc_Count c0 + 1\<rparr>)) Map.empty items"

definition count_less :: "suppressionRuleCount \<Rightarrow> suppressionRuleCount \<Rightarrow> bool" where
  "count_less x y =
     (if rc_Count x \<noteq> rc_Count y then rc_Count x > rc_Count y else to_lower (rc_ID x) < to_lower (rc_ID y))"

definition sample_less :: "suppressedFinding \<Rightarrow> suppressedFinding \<Rightarrow> bool" where
  "sample_less x y =
     (if su_SuppressionID x \<noteq> su_SuppressionID y then to_lower (su_SuppressionID x) < to_lower (su_SuppressionID y)
      else if su_Host x \<noteq> su_Host y then to_lower (su_Host x) < to_lower (su_Host y)
      else if su_Share x \<noteq> su_Share y then to_lower (su_Share x) < to_lower (su_Share y)
      else to_lower (su_FilePath x) < to_lower (su_FilePath y))"

text \<open>\<open>order\<close> is the order in which the map of the counts is visited.\<close>

definition buildSuppressionSummary :: "string list \<Rightarrow> suppressedFinding list \<Rightarrow> int \<Rightarrow> suppressionSummary option" where
  "buildSuppressionSummary order items sampleLimit =
     (if length items = 0 then None
      else
        let rules = slice_sort count_less (map (\<lambda>i. the (rule_counts items i)) order);
            samples0 = slice_sort sample_less items;
            samples = (if sampleLimit > 0 \<and> int (length samples0) > sampleLimit
                       then take (nat sampleLimit) samples0 else samples0)
        in Some \<lparr>ss_Enabled = True, ss_TotalSuppressed = length items, ss_Rules = rules, ss_Samples = samples\<rparr>)"

text \<open>\<open>Close\<close>: the summary handed to the inner sink.\<close>

definition CloseSummary :: "string list \<Rightarrow> 's suppressionWriter \<Rightarrow> suppressionSummary option" where
  "CloseSummary order w = buildSuppressionSummary order (sw_suppressed w) (sw_sampleLimit w)"


subsection \<open>What a rule admits\<close>

lemma set_sort_compact [simp]: "set (sort_compact xs) = set xs"
  by (simp add: sort_compact_def)

lemma set_normalizeValues: "set (normalizeValues vs) = normalizeValue ` set vs - {[]}"
  by (auto simp: normalizeValues_def)

lemma set_normalizePaths: "set (normalizePaths vs) = suppression_normalizePath ` set vs - {[]}"
  by (auto simp: normalizePaths_def)

text \<open>
  The documented reading of a rule: a field whose values are all blank admits everything, the
  values of a field are alternatives, and all fields have to admit the finding.
\<close>

definition populated :: "(string \<Rightarrow> string) \<Rightarrow> string list \<Rightarrow> string set" where
  "populated f vs = f ` set vs - {[]}"

definition admits :: "SuppressionRule \<Rightarrow> Finding \<Rightarrow> bool" where
  "admits rule f \<longleftrightarrow>
     (let values = populated normalizeValue; paths = populated suppression_normalizePath;
          path = suppression_normalizePath (f_FilePath f);
          one = (\<lambda>want got. want = {} \<or> got \<in> want); any = (\<lambda>want got. want = {} \<or> want \<inter> got \<noteq> {})
      in one (values (sr_Hosts rule)) (normalizeValue (f_Host f)) \<and>
         one (values (sr_Shares rule)) (normalizeValue (f_Share f)) \<and>
         any (values (sr_RuleIDs rule)) (values (f_RuleID f # f_MatchedRuleIDs f)) \<and>
         one (values (sr_Categories rule)) (normalizeValue (f_Category f)) \<and>
         one (values (sr_Fingerprints rule)) (FingerprintString f) \<and>
         one (paths (sr_ExactPaths rule)) path \<and>
         any (paths (sr_PathPrefixes rule)) {p. has_prefix path p} \<and>
         any (paths (sr_PathContains rule)) {p. contains path p} \<and>
         any (values (sr_Tags rule)) (values (f_Tags f)))"

lemma length_zero_set: "length xs = 0 \<longleftrightarrow> set xs = {}"
  by simp

lemma match_sets:
  "matchAny want got \<longleftrightarrow> set want = {} \<or> got \<in> set want"
  "matchSlice want gots \<longleftrightarrow> set want = {} \<or> set want \<inter> set gots \<noteq> {}"
  "matchPrefix want got \<longleftrightarrow> set want = {} \<or> set want \<inter> {p. has_prefix got p} \<noteq> {}"
  "matchContains want got \<longleftrightarrow> set want = {} \<or> set want \<inter> {p. contains got p} \<noteq> {}"
  by (auto simp: matchAny_def matchSlice_def matchPrefix_def matchContains_def list_ex_iff)

lemma rule_matches_conj:
  "rule_matches c f \<longleftrightarrow>
     matchAny (co_hosts c) (normalizeValue (f_Host f)) \<and> matchAny (co_shares c) (normalizeValue (f_Share f)) \<and>
     matchSlice (co_ruleIDs c) (normalizeValues (f_RuleID f # f_MatchedRuleIDs f)) \<and>
     matchAny (co_categories c) (normalizeValue (f_Category f)) \<and>
     matchAny (co_fingerprints c) (FingerprintString f) \<and>
     matchAny (co_exactPaths c) (suppression_normalizePath (f_FilePath f)) \<and>
     matchPrefix (co_prefixes c) (suppression_normalizePath (f_FilePath f)) \<and>
     matchContains (co_contains c) (suppression_normalizePath (f_FilePath f)) \<and>
     matchSlice (co_tags c) (normalizeValues (f_Tags f))"
  by (simp add: rule_matches_def Let_def)

lemma compiled_sets:
  "set (co_hosts (compile_rule r)) = populated normalizeValue (sr_Hosts r)"
  "set (co_shares (compile_rule r)) = populated normalizeValue (sr_Shares r)"
  "set (co_ruleIDs (compile_rule r)) = populated normalizeValue (sr_RuleIDs r)"
  "set (co_categories (compile_rule r)) = populated normalizeValue (sr_Categories r)"
  "set (co_fingerprints (compile_rule r)) = populated normalizeValue (sr_Fingerprints r)"
  "set (co_exactPaths (compile_rule r)) = populated suppression_normalizePath (sr_ExactPaths r)"
  "set (co_prefixes (compile_rule r)) = populated suppression_normalizePath (sr_PathPrefixes r)"
  "set (co_contains (compile_rule r)) = populated suppression_normalizePath (sr_PathContains r)"
  "set (co_tags (compile_rule r)) = populated normalizeValue (sr_Tags r)"
  by (simp_all add: compile_rule_def populated_def set_normalizeValues set_normalizePaths)

lemma rule_matches_compile: "rule_matches (compile_rule rule) f \<longleftrightarrow> admits rule f"
  unfolding rule_matches_conj admits_def Let_def match_sets compiled_sets
    set_normalizeValues populated_def [symmetric] by (rule refl)

definition match_of :: "SuppressionRule \<Rightarrow> Finding \<Rightarrow> Match" where
  "match_of rule f = \<lparr>ma_SuppressionID = trim_space (sr_ID rule), ma_SuppressionDescription = trim_space (sr_Description rule),
     ma_SuppressionReason = trim_space (sr_Reason rule), ma_Fingerprint = FingerprintString f\<rparr>"

lemma match_loop_new:
  "match_loop (new_loop rules) f = map_option (\<lambda>r. match_of r f) (find (\<lambda>r. sr_Enabled r \<and> admits r f) rules)"
proof (induction rules)
  case (Cons r rules)
  then show ?case by (cases "admits r f") (simp_all add: rule_matches_compile, simp add: match_of_def compile_rule_def)
qed simp

text \<open>
  A finding is suppressed exactly when some enabled rule admits it, by the first of them, and the
  report names that rule: the values of a field are alternatives, the fields are combined, and a
  field with no value, or with blank values only, restricts nothing.
\<close>

theorem suppressed_by_first_rule:
  "MatchFinding (NewMatcher rules) f = map_option (\<lambda>r. match_of r f) (find (\<lambda>r. sr_Enabled r \<and> admits r f) rules)"
proof (cases "new_loop rules")
  case Nil
  then show ?thesis using match_loop_new [of rules f] by (simp add: NewMatcher_def MatchFinding_def)
next
  case (Cons c cs)
  then show ?thesis using match_loop_new [of rules f] by (simp add: NewMatcher_def MatchFinding_def)
qed


subsection \<open>Fingerprints as selectors\<close>

lemma dropWhile_id_hd: "xs \<noteq> [] \<Longrightarrow> \<not> P (hd xs) \<Longrightarrow> dropWhile P xs = xs"
  by (cases xs) auto

lemma normalized_ends:
  assumes "p = to_lower (trim_space x)" and "p \<noteq> []"
  shows "\<not> is_space (hd p) \<and> \<not> is_space (last p)"
proof -
  have "trim_by is_space p = p" using assms(1) by (metis trim_space_def trim_space_trim_lower)
  then show ?thesis using trim_by_hd [of is_space p] trim_by_last [of is_space p] assms(2) by simp
qed

lemma normalizeValue_FingerprintString [simp]: "normalizeValue (FingerprintString f) = FingerprintString f"
proof -
  obtain a b c d e where fp: "FingerprintString f = a @ ''|'' @ b @ ''|'' @ c @ ''|'' @ d @ ''|'' @ e"
    and low: "to_lower a = a" "to_lower b = b" "to_lower c = c" "to_lower d = d" "to_lower e = e"
    and norm: "\<exists>x. a = to_lower (trim_space x)" "\<exists>x. e = to_lower (trim_space x)"
  proof -
    let ?fp = "Fingerprint f"
    have n: "\<exists>x. fp_RuleID ?fp = to_lower (trim_space x)" "\<exists>x. fp_Match ?fp = to_lower (trim_space x)"
      "to_lower (fp_Host ?fp) = fp_Host ?fp" "to_lower (fp_Share ?fp) = fp_Share ?fp"
      "to_lower (fp_FilePath ?fp) = fp_FilePath ?fp"
      by (auto simp: Fingerprint_def normalizeIdentity_def normalizePathIdentity_def)
    then have "to_lower (fp_RuleID ?fp) = fp_RuleID ?fp" "to_lower (fp_Match ?fp) = fp_Match ?fp" by auto
    with n that [of "fp_RuleID ?fp" "fp_Host ?fp" "fp_Share ?fp" "fp_FilePath ?fp" "fp_Match ?fp"]
    show thesis by (simp add: FingerprintString_def Let_def)
  qed
  have bar: "\<not> is_space (CHR ''|'')" by (simp add: is_space_def)
  have "\<not> is_space (hd (FingerprintString f))"
  proof (cases "a = []")
    case False
    then have "hd (FingerprintString f) = hd a" using fp by simp
    then show ?thesis using norm(1) normalized_ends False by metis
  qed (use fp bar in simp)
  moreover have "\<not> is_space (last (FingerprintString f))"
  proof (cases "e = []")
    case False
    then have "last (FingerprintString f) = last e" using fp by simp
    then show ?thesis using norm(2) normalized_ends False by metis
  qed (use fp bar in simp)
  moreover have "FingerprintString f \<noteq> []" using fp by simp
  ultimately have "trim_space (FingerprintString f) = FingerprintString f"
    by (simp add: trim_space_def trim_by_id)
  moreover have "to_lower (FingerprintString f) = FingerprintString f"
    using low by (simp add: fp to_lower_def lower_char_def)
  ultimately show ?thesis by (simp add: normalizeValue_def)
qed

definition fingerprint_rule :: "string \<Rightarrow> string list \<Rightarrow> SuppressionRule" where
  "fingerprint_rule i fps = \<lparr>sr_ID = i, sr_Description = [], sr_Reason = [], sr_Enabled = True, sr_Hosts = [],
     sr_Shares = [], sr_RuleIDs = [], sr_Categories = [], sr_ExactPaths = [], sr_PathPrefixes = [],
     sr_PathContains = [], sr_Fingerprints = fps, sr_Tags = []\<rparr>"

text \<open>
  A rule that lists the fingerprints of reviewed findings suppresses those findings and the
  findings with the same fingerprint, and nothing else: the text of a fingerprint is already
  normalised, so it still selects its finding after the rule is compiled.
\<close>

theorem fingerprint_rule_exact:
  "MatchFinding (NewMatcher [fingerprint_rule i (map FingerprintString (r # reviewed))]) f \<noteq> None \<longleftrightarrow>
     FingerprintString f \<in> FingerprintString ` set (r # reviewed)"
proof -
  have "FingerprintString g \<noteq> []" for g by (simp add: FingerprintString_def Let_def)
  then have "populated normalizeValue (map FingerprintString (r # reviewed)) = FingerprintString ` set (r # reviewed)"
    by (auto simp: populated_def image_image)
  then have "sr_Enabled (fingerprint_rule i (map FingerprintString (r # reviewed))) \<and>
      admits (fingerprint_rule i (map FingerprintString (r # reviewed))) f \<longleftrightarrow>
      FingerprintString f \<in> FingerprintString ` set (r # reviewed)"
    by (simp add: admits_def fingerprint_rule_def Let_def) (simp add: populated_def)
  then show ?thesis
    using match_loop_new [of "[fingerprint_rule i (map FingerprintString (r # reviewed))]" f]
    by (simp add: NewMatcher_def MatchFinding_def fingerprint_rule_def)
qed


subsection \<open>The writer\<close>

definition write_all :: "('s \<Rightarrow> Finding \<Rightarrow> string option \<times> 's) \<Rightarrow> 's suppressionWriter \<Rightarrow> Finding list \<Rightarrow> 's suppressionWriter" where
  "write_all write w fs = foldl (\<lambda>w f. snd (WriteFinding write w f)) w fs"

definition is_suppressed :: "compiledRule list option \<Rightarrow> Finding \<Rightarrow> bool" where
  "is_suppressed m f \<longleftrightarrow> MatchFinding m f \<noteq> None"

lemma write_all_eq:
  "write_all write w fs = w\<lparr>
     sw_inner := foldl (\<lambda>s f. snd (write s f)) (sw_inner w) (filter (\<lambda>f. \<not> is_suppressed (sw_matcher w) f) fs),
     sw_suppressed := sw_suppressed w @
       map (\<lambda>f. the (suppressedFindingOf (sw_matcher w) f)) (filter (is_suppressed (sw_matcher w)) fs)\<rparr>"
  by (induction fs arbitrary: w)
     (auto simp: write_all_def WriteFinding_def is_suppressed_def suppressedFindingOf_def split: option.splits prod.splits)

lemma rule_counts_eq:
  "map_option rc_Count (rule_counts items i) =
     (if i \<in> su_SuppressionID ` set items
      then Some (length (filter (\<lambda>x. su_SuppressionID x = i) items)) else None)"
proof (induction items rule: rev_induct)
  case (snoc x xs)
  have s: "rule_counts (xs @ [x]) = (let c0 = (case rule_counts xs (su_SuppressionID x) of
               None \<Rightarrow> \<lparr>rc_ID = [], rc_Description = [], rc_Reason = [], rc_Count = 0\<rparr> | Some c \<Rightarrow> c)
         in (rule_counts xs)(su_SuppressionID x \<mapsto> c0\<lparr>rc_ID := su_SuppressionID x,
             rc_Description := su_SuppressionDescription x, rc_Reason := su_SuppressionReason x,
             rc_Count := rc_Count c0 + 1\<rparr>))"
    by (simp add: rule_counts_def)
  show ?case
  proof (cases "i = su_SuppressionID x")
    case True
    have n: "filter (\<lambda>y. su_SuppressionID y = i) xs = []" if "i \<notin> su_SuppressionID ` set xs"
      using that by (auto simp: filter_empty_conv)
    show ?thesis
    proof (cases "rule_counts xs i")
      case None
      then have "i \<notin> su_SuppressionID ` set xs" using snoc by (auto split: if_splits)
      then show ?thesis using None True n by (simp add: s Let_def)
    next
      case (Some c)
      then show ?thesis using snoc True by (auto simp: s Let_def split: if_splits)
    qed
  next
    case False
    then show ?thesis using snoc by (simp add: s Let_def)
  qed
qed (simp add: rule_counts_def)

text \<open>
  C20: No finding is lost by suppression: of the findings written, those no rule admits reach the
  sink in their order, and only those; the summary counts every other one, its counts per rule add up
  to that number, and it shows at most the configured number of samples, all of them suppressed
  findings.
\<close>

theorem suppression_accounts:
  assumes "WrapWithSuppression sink limit rules = Inr w0"
    and "distinct order" and "set order = su_SuppressionID ` set (sw_suppressed (write_all write w0 fs))"
  shows "let w = write_all write w0 fs; hidden = filter (is_suppressed (NewMatcher rules)) fs in
    sw_inner w = foldl (\<lambda>s f. snd (write s f)) sink (filter (\<lambda>f. \<not> is_suppressed (NewMatcher rules) f) fs) \<and>
    (case CloseSummary order w of
       None \<Rightarrow> hidden = []
     | Some s \<Rightarrow> ss_TotalSuppressed s = length hidden \<and> sum_list (map rc_Count (ss_Rules s)) = length hidden \<and>
         set (ss_Samples s) \<subseteq> (\<lambda>f. the (suppressedFindingOf (NewMatcher rules) f)) ` set hidden \<and>
         (if limit > 0 then int (length (ss_Samples s)) \<le> limit else length (ss_Samples s) = length hidden))"
proof -
  have w0: "sw_inner w0 = sink" "sw_matcher w0 = NewMatcher rules" "sw_sampleLimit w0 = limit" "sw_suppressed w0 = []"
    using assms(1) by (auto simp: WrapWithSuppression_def split: option.splits)
  let ?hidden = "filter (is_suppressed (NewMatcher rules)) fs"
  let ?items = "map (\<lambda>f. the (suppressedFindingOf (NewMatcher rules) f)) ?hidden"
  have w: "sw_inner (write_all write w0 fs) =
      foldl (\<lambda>s f. snd (write s f)) sink (filter (\<lambda>f. \<not> is_suppressed (NewMatcher rules) f) fs)"
    "sw_suppressed (write_all write w0 fs) = ?items" "sw_sampleLimit (write_all write w0 fs) = limit"
    using w0 by (simp_all add: write_all_eq)
  have "sum_list (map rc_Count (slice_sort count_less (map (\<lambda>i. the (rule_counts ?items i)) order))) = length ?items"
  proof -
    have c: "rc_Count (the (rule_counts ?items i)) = length (filter (\<lambda>x. su_SuppressionID x = i) ?items)"
      if "i \<in> set order" for i
    proof -
      have "map_option rc_Count (rule_counts ?items i) = Some (length (filter (\<lambda>x. su_SuppressionID x = i) ?items))"
        using that assms(3) unfolding w(2) rule_counts_eq by (simp only: if_True)
      then show ?thesis by auto
    qed
    have "sum_list (map rc_Count (slice_sort count_less (map (\<lambda>i. the (rule_counts ?items i)) order))) =
        sum_list (map rc_Count (map (\<lambda>i. the (rule_counts ?items i)) order))"
      by (rule sum_list_slice_sort)
    also have "\<dots> = (\<Sum>i\<in>set order. length (filter (\<lambda>x. su_SuppressionID x = i) ?items))"
      using assms(2) c by (simp add: sum_list_distinct_conv_sum_set comp_def)
    also have "\<dots> = length ?items"
      using assms(3) unfolding w(2) by (simp only: sum_by_key finite_set finite_imageI order_refl)
    finally show ?thesis .
  qed
  then show ?thesis
    using w set_take_subset [of "nat limit" "slice_sort sample_less ?items"]
    by (auto simp: CloseSummary_def buildSuppressionSummary_def Let_def split: if_splits)
qed


theorem suppression_accounts_witness:
  "\<exists>w0. WrapWithSuppression [] 10 [fingerprint_rule '' s'' [''a||||'']] = Inr w0 \<and>
     sw_inner (write_all (\<lambda>s f. (None, s @ [f])) w0 old_scan) = [diff_finding ''b'' ''low''] \<and>
     map_option ss_TotalSuppressed (CloseSummary [''s''] (write_all (\<lambda>s f. (None, s @ [f])) w0 old_scan)) = Some 1"
proof -
  let ?rules = "[fingerprint_rule '' s'' [''a||||'']]" and ?sink = "\<lambda>s f. (None, s @ [f])"
  obtain w0 where w0: "WrapWithSuppression ([] :: Finding list) 10 ?rules = Inr w0"
    by (simp add: WrapWithSuppression_def NewMatcher_def fingerprint_rule_def)
  have h: "filter (is_suppressed (NewMatcher ?rules)) old_scan = [diff_finding ''a'' ''low'']"
    "filter (\<lambda>f. \<not> is_suppressed (NewMatcher ?rules) f) old_scan = [diff_finding ''b'' ''low'']"
    "map_option su_SuppressionID (suppressedFindingOf (NewMatcher ?rules) (diff_finding ''a'' ''low'')) = Some ''s''"
    by code_simp+
  have m: "sw_matcher w0 = NewMatcher ?rules" "sw_suppressed w0 = []"
    using w0 by (auto simp: WrapWithSuppression_def split: option.splits)
  have o: "set [''s''] = su_SuppressionID ` set (sw_suppressed (write_all ?sink w0 old_scan))"
    using h(3) by (auto simp: write_all_eq m h(1))
  have "distinct [''s'']" by simp
  from suppression_accounts [OF w0 this o] h(1,2) w0 show ?thesis
    by (auto simp: Let_def split: option.splits)
qed

text \<open>
  A path prefix is compared as text: the documentation calls it a path subtree, but the prefix of a
  directory admits its siblings with a longer name too.
\<close>

lemma prefix_admits_sibling:
  "MatchFinding (NewMatcher [(fingerprint_rule ''s'' [])\<lparr>sr_PathPrefixes := [''Apps/Pay'']\<rparr>])
     (zero_finding\<lparr>f_FilePath := ''apps/payroll/x''\<rparr>) \<noteq> None"
  by code_simp

text \<open>An enabled rule whose selectors are all blank suppresses every finding.\<close>

lemma blank_rule_suppresses_all:
  "MatchFinding (NewMatcher [(fingerprint_rule ''s'' [])\<lparr>sr_Hosts := ['' '']\<rparr>]) f \<noteq> None"
proof -
  have "admits ((fingerprint_rule ''s'' [])\<lparr>sr_Hosts := ['' '']\<rparr>) f"
    by (simp add: admits_def fingerprint_rule_def populated_def normalizeValue_def Let_def)
       (simp add: trim_space_def trim_by_def is_space_def)
  then show ?thesis
    using match_loop_new [of "[(fingerprint_rule ''s'' [])\<lparr>sr_Hosts := ['' '']\<rparr>]" f]
    by (simp add: NewMatcher_def MatchFinding_def fingerprint_rule_def)
qed

end
