(* ===== verification/TextDecode.thy ===== *)
theory TextDecode
  imports Complex_Main GoStrings
begin

text \<open>
  The package \<open>internal/textdecode\<close>. Bytes are characters, runes are integers; UTF-8 and UTF-16 are
  modelled in full. The single-byte charmaps are a third-party package: the two decoders are an
  argument, a list of functions from the bytes to runes. Beyond Latin-1 the Unicode property tables
  are an argument as well. The ratios are exact rationals; a quotient of two counts and a constant
  with one or two decimals compare the same in floating point.
\<close>

type_synonym rune = int

record unicode_tables =
  ut_print :: "rune \<Rightarrow> bool"
  ut_letter :: "rune \<Rightarrow> bool"
  ut_digit :: "rune \<Rightarrow> bool"

type_synonym charmap = "string \<Rightarrow> rune list option"

subsection \<open>UTF-8\<close>

definition byte :: "char \<Rightarrow> int" where "byte c = of_char c"
definition byte_char :: "int \<Rightarrow> char" where "byte_char n = char_of n"

definition rune_error :: rune where "rune_error = 0xFFFD"

definition cont_byte :: "int \<Rightarrow> bool" where "cont_byte b \<longleftrightarrow> 0x80 \<le> b \<and> b \<le> 0xBF"

text \<open>The first rune of the bytes with its width, or \<open>None\<close> for an invalid sequence.\<close>

definition utf8_first :: "int list \<Rightarrow> (rune \<times> nat) option" where
  "utf8_first bs =
     (case bs of
        [] \<Rightarrow> None
      | b0 # rest \<Rightarrow>
          if b0 < 0x80 then Some (b0, 1)
          else if 0xC2 \<le> b0 \<and> b0 \<le> 0xDF then
            (case rest of b1 # _ \<Rightarrow>
               if cont_byte b1 then Some ((b0 - 0xC0) * 64 + (b1 - 0x80), 2) else None
             | _ \<Rightarrow> None)
          else if 0xE0 \<le> b0 \<and> b0 \<le> 0xEF then
            (case rest of b1 # b2 # _ \<Rightarrow>
               if (if b0 = 0xE0 then 0xA0 \<le> b1 \<and> b1 \<le> 0xBF
                   else if b0 = 0xED then 0x80 \<le> b1 \<and> b1 \<le> 0x9F else cont_byte b1) \<and> cont_byte b2
               then Some ((b0 - 0xE0) * 4096 + (b1 - 0x80) * 64 + (b2 - 0x80), 3) else None
             | _ \<Rightarrow> None)
          else if 0xF0 \<le> b0 \<and> b0 \<le> 0xF4 then
            (case rest of b1 # b2 # b3 # _ \<Rightarrow>
               if (if b0 = 0xF0 then 0x90 \<le> b1 \<and> b1 \<le> 0xBF
                   else if b0 = 0xF4 then 0x80 \<le> b1 \<and> b1 \<le> 0x8F else cont_byte b1) \<and>
                  cont_byte b2 \<and> cont_byte b3
               then Some ((b0 - 0xF0) * 262144 + (b1 - 0x80) * 4096 + (b2 - 0x80) * 64 + (b3 - 0x80), 4)
               else None
             | _ \<Rightarrow> None)
          else None)"

lemma utf8_first_width: "utf8_first bs = Some (r, w) \<Longrightarrow> 1 \<le> w \<and> w \<le> length bs"
  by (auto simp: utf8_first_def split: list.splits if_splits)

text \<open>The runes of a string, an invalid byte being the error rune, and whether there is none.\<close>

function utf8_runes :: "int list \<Rightarrow> rune option list" where
  "utf8_runes [] = []"
| "utf8_runes (b # bs) =
     (case utf8_first (b # bs) of
        Some (r, w) \<Rightarrow> Some r # utf8_runes (drop w (b # bs))
      | None \<Rightarrow> None # utf8_runes bs)"
  by pat_completeness auto
termination
  by (relation "measure length") (auto dest: utf8_first_width)

definition runes :: "string \<Rightarrow> rune list" where
  "runes s = map (\<lambda>r. case r of Some r \<Rightarrow> r | None \<Rightarrow> rune_error) (utf8_runes (map byte s))"

definition utf8_valid :: "string \<Rightarrow> bool" where
  "utf8_valid s = list_all (\<lambda>r. r \<noteq> None) (utf8_runes (map byte s))"

definition valid_rune :: "rune \<Rightarrow> bool" where
  "valid_rune r \<longleftrightarrow> 0 \<le> r \<and> r \<le> 0x10FFFF \<and> \<not> (0xD800 \<le> r \<and> r \<le> 0xDFFF)"

definition utf8_encode_rune :: "rune \<Rightarrow> int list" where
  "utf8_encode_rune r0 =
     (let r = (if valid_rune r0 then r0 else rune_error) in
      if r < 0x80 then [r]
      else if r < 0x800 then [0xC0 + r div 64, 0x80 + r mod 64]
      else if r < 0x10000 then [0xE0 + r div 4096, 0x80 + (r div 64) mod 64, 0x80 + r mod 64]
      else [0xF0 + r div 262144, 0x80 + (r div 4096) mod 64, 0x80 + (r div 64) mod 64, 0x80 + r mod 64])"

definition string_of_runes :: "rune list \<Rightarrow> string" where
  "string_of_runes rs = map byte_char (concat (map utf8_encode_rune rs))"

subsection \<open>UTF-16\<close>

fun utf16_decode :: "int list \<Rightarrow> rune list" where
  "utf16_decode [] = []"
| "utf16_decode [u] = [if 0xD800 \<le> u \<and> u \<le> 0xDFFF then rune_error else u]"
| "utf16_decode (u # v # us) =
     (if 0xD800 \<le> u \<and> u \<le> 0xDBFF \<and> 0xDC00 \<le> v \<and> v \<le> 0xDFFF
      then ((u - 0xD800) * 1024 + (v - 0xDC00) + 0x10000) # utf16_decode us
      else (if 0xD800 \<le> u \<and> u \<le> 0xDFFF then rune_error else u) # utf16_decode (v # us))"

fun u16_units :: "bool \<Rightarrow> int list \<Rightarrow> int list" where
  "u16_units little (a # b # rest) = (if little then a + 256 * b else 256 * a + b) # u16_units little rest"
| "u16_units little _ = []"

subsection \<open>What looks like text\<close>

definition is_print :: "unicode_tables \<Rightarrow> rune \<Rightarrow> bool" where
  "is_print ut r =
     (if r \<le> 0xFF then (0x20 \<le> r \<and> r \<le> 0x7E) \<or> (0xA1 \<le> r \<and> r \<noteq> 0xAD) else ut_print ut r)"

definition is_unicode_letter :: "unicode_tables \<Rightarrow> rune \<Rightarrow> bool" where
  "is_unicode_letter ut r =
     (if r \<le> 0xFF then (0x41 \<le> r \<and> r \<le> 0x5A) \<or> (0x61 \<le> r \<and> r \<le> 0x7A) \<or> r = 0xAA \<or> r = 0xB5 \<or> r = 0xBA
        \<or> (0xC0 \<le> r \<and> r \<noteq> 0xD7 \<and> r \<noteq> 0xF7)
      else ut_letter ut r)"

definition is_unicode_digit :: "unicode_tables \<Rightarrow> rune \<Rightarrow> bool" where
  "is_unicode_digit ut r = (if r \<le> 0xFF then 0x30 \<le> r \<and> r \<le> 0x39 else ut_digit ut r)"

definition is_unicode_space :: "rune \<Rightarrow> bool" where
  "is_unicode_space r \<longleftrightarrow>
     (9 \<le> r \<and> r \<le> 13) \<or> r = 32 \<or> r = 0x85 \<or> r = 0xA0 \<or> r = 0x1680 \<or> (0x2000 \<le> r \<and> r \<le> 0x200A) \<or>
     r = 0x2028 \<or> r = 0x2029 \<or> r = 0x202F \<or> r = 0x205F \<or> r = 0x3000"

definition structure_chars :: string where
  "structure_chars = '' '' @ [CHR 0x0A, CHR 0x0D, CHR 0x09] @ ''=;:,[]{}<>/'' @ [CHR 0x5C]"

fun score_rune :: "unicode_tables \<Rightarrow> rune option \<Rightarrow> int" where
  "score_rune ut None = -2"
| "score_rune ut (Some r) =
     (if r = 10 \<or> r = 13 \<or> r = 9 then 1
      else if r = rune_error then -2
      else if r < 32 \<or> (0x7F \<le> r \<and> r \<le> 0x9F) then -1
      else if is_print ut r then 1
      else -1)"

definition decodedTextScore :: "unicode_tables \<Rightarrow> string \<Rightarrow> rat" where
  "decodedTextScore ut txt =
     (let rs = utf8_runes (map byte txt);
          total = length rs;
          diff = sum_list (map (score_rune ut) rs)
      in if total = 0 then 0
         else let score = rat_of_int diff / rat_of_nat total
              in if score < 0 then 0 else score)"

definition hasTextStructure :: "unicode_tables \<Rightarrow> string \<Rightarrow> bool" where
  "hasTextStructure ut txt =
     (if list_ex (\<lambda>c. c \<in> set structure_chars) txt then True
      else length (filter (\<lambda>r. is_unicode_letter ut r \<or> is_unicode_digit ut r) (runes txt)) \<ge> 12)"

definition blank_text :: "string \<Rightarrow> bool" where
  "blank_text txt = list_all (\<lambda>r. case r of Some r \<Rightarrow> is_unicode_space r | None \<Rightarrow> False) (utf8_runes (map byte txt))"

definition looksDecodedText :: "unicode_tables \<Rightarrow> string \<Rightarrow> bool" where
  "looksDecodedText ut txt =
     (if blank_text txt then False
      else decodedTextScore ut txt \<ge> 90 / 100 \<and> hasTextStructure ut txt)"

definition looksUTF8Text :: "unicode_tables \<Rightarrow> string \<Rightarrow> bool" where
  "looksUTF8Text ut content =
     (if CHR 0x00 \<in> set content then False else looksDecodedText ut content)"

definition printable_byte :: "char \<Rightarrow> bool" where
  "printable_byte c \<longleftrightarrow>
     (let b = byte c in b = 10 \<or> b = 13 \<or> b = 9 \<or> b = 32 \<or> (32 \<le> b \<and> b \<le> 126) \<or> 0x80 \<le> b)"

definition looksLikeSingleByteText :: "string \<Rightarrow> bool" where
  "looksLikeSingleByteText content =
     (if length content = 0 then False
      else
        let printable = length (filter printable_byte content);
            control = length (filter (\<lambda>c. \<not> printable_byte c) content)
        in if rat_of_nat printable / rat_of_nat (length content) < 85 / 100 then False
           else if rat_of_nat control / rat_of_nat (length content) > 5 / 100 then False
           else list_ex (\<lambda>c. c \<in> set structure_chars) content)"

subsection \<open>Decoding\<close>

definition sampleLimit :: nat where "sampleLimit = 4096"

definition sample :: "string \<Rightarrow> string" where
  "sample content = (if length content \<le> sampleLimit then content else take sampleLimit content)"

definition CR :: string where "CR = [CHR 0x0D]"
definition LF :: string where "LF = [CHR 0x0A]"
definition BOM :: string where "BOM = [CHR 0xEF, CHR 0xBB, CHR 0xBF]"

definition normalizeString :: "string \<Rightarrow> string" where
  "normalizeString text0 =
     (let text1 = trim_prefix text0 BOM;
          text2 = replace_all (CR @ LF) LF text1
      in replace_all CR LF text2)"

definition decodeUTF16WithOrder :: "unicode_tables \<Rightarrow> string \<Rightarrow> bool \<Rightarrow> string option" where
  "decodeUTF16WithOrder ut content0 little =
     (if length content0 < 2 then None
      else
        let content = (if length content0 mod 2 \<noteq> 0 then take (length content0 - 1) content0 else content0);
            txt = string_of_runes (utf16_decode (u16_units little (map byte content)))
        in if \<not> looksDecodedText ut txt then None else Some txt)"

fun zero_counts :: "int list \<Rightarrow> nat \<times> nat" where
  "zero_counts (a # b # rest) =
     (case zero_counts rest of (evenZero, oddZero) \<Rightarrow>
        (if a = 0 then evenZero + 1 else evenZero, if b = 0 then oddZero + 1 else oddZero))"
| "zero_counts _ = (0, 0)"

definition detectUTF16Heuristic :: "string \<Rightarrow> bool option" where
  "detectUTF16Heuristic content0 =
     (if length content0 < 4 then None
      else
        let content = (if length content0 mod 2 \<noteq> 0 then take (length content0 - 1) content0 else content0);
            pairs = length content div 2
        in if pairs = 0 then None
           else case zero_counts (map byte content) of (evenZero, oddZero) \<Rightarrow>
             let evenRatio = rat_of_nat evenZero / rat_of_nat pairs;
                 oddRatio = rat_of_nat oddZero / rat_of_nat pairs
             in if oddRatio \<ge> 30 / 100 \<and> evenRatio \<le> 5 / 100 then Some True
                else if evenRatio \<ge> 30 / 100 \<and> oddRatio \<le> 5 / 100 then Some False
                else None)"

definition decodeUTF16 :: "unicode_tables \<Rightarrow> string \<Rightarrow> string option" where
  "decodeUTF16 ut content =
     (if has_prefix content [CHR 0xFF, CHR 0xFE] then decodeUTF16WithOrder ut (drop 2 content) True
      else if has_prefix content [CHR 0xFE, CHR 0xFF] then decodeUTF16WithOrder ut (drop 2 content) False
      else case detectUTF16Heuristic (sample content) of
             None \<Rightarrow> None
           | Some little \<Rightarrow> decodeUTF16WithOrder ut content little)"

definition best_step :: "unicode_tables \<Rightarrow> string \<Rightarrow> string \<times> rat \<Rightarrow> charmap \<Rightarrow> string \<times> rat" where
  "best_step ut content best candidate =
     (case candidate content of
        None \<Rightarrow> best
      | Some decoded \<Rightarrow>
          let txt = string_of_runes decoded; score = decodedTextScore ut txt
          in if score > snd best then (txt, score) else best)"

definition bestDecodedSingleByte :: "unicode_tables \<Rightarrow> charmap list \<Rightarrow> string \<Rightarrow> string \<times> rat" where
  "bestDecodedSingleByte ut charmaps content = foldl (best_step ut content) ([], -1) charmaps"

definition decodeSingleByte :: "unicode_tables \<Rightarrow> charmap list \<Rightarrow> string \<Rightarrow> string option" where
  "decodeSingleByte ut charmaps content =
     (if \<not> looksLikeSingleByteText (sample content) then None
      else case bestDecodedSingleByte ut charmaps content of (bestText, bestScore) \<Rightarrow>
        if bestScore < 90 / 100 \<or> \<not> looksDecodedText ut bestText then None else Some bestText)"

definition Decode :: "unicode_tables \<Rightarrow> charmap list \<Rightarrow> string \<Rightarrow> string option" where
  "Decode ut charmaps content =
     (if length content = 0 then None
      else
        let s = sample content in
        if utf8_valid content then
          (if \<not> looksUTF8Text ut s then None else Some (normalizeString content))
        else
          case decodeUTF16 ut content of
            Some txt \<Rightarrow> Some (normalizeString txt)
          | None \<Rightarrow>
              if CHR 0x00 \<in> set s then None
              else if \<not> looksLikeSingleByteText s then None
              else map_option normalizeString (decodeSingleByte ut charmaps content))"

definition Normalize :: "unicode_tables \<Rightarrow> charmap list \<Rightarrow> string \<Rightarrow> string" where
  "Normalize ut charmaps content = (case Decode ut charmaps content of None \<Rightarrow> [] | Some txt \<Rightarrow> txt)"

definition looksLikeDecodedSingleByteSample :: "unicode_tables \<Rightarrow> charmap list \<Rightarrow> string \<Rightarrow> bool" where
  "looksLikeDecodedSingleByteSample ut charmaps content =
     (case bestDecodedSingleByte ut charmaps content of (bestText, bestScore) \<Rightarrow>
        bestScore \<ge> 90 / 100 \<and> looksDecodedText ut bestText)"

definition LooksLikeText :: "unicode_tables \<Rightarrow> charmap list \<Rightarrow> string \<Rightarrow> bool" where
  "LooksLikeText ut charmaps content =
     (if length content = 0 then False
      else
        let s = sample content in
        if utf8_valid s then looksUTF8Text ut s
        else if decodeUTF16 ut s \<noteq> None then True
        else if CHR 0x00 \<in> set s then False
        else if \<not> looksLikeSingleByteText s then False
        else looksLikeDecodedSingleByteSample ut charmaps s)"

subsection \<open>UTF-8 and UTF-16 round trips\<close>

lemma base64_split3: "(r::int) = 4096 * (r div 4096) + 64 * ((r div 64) mod 64) + r mod 64"
proof -
  have a: "r div 4096 = r div 64 div 64" using zdiv_zmult2_eq [of 64 r 64] by simp
  have b: "r = 64 * (r div 64) + r mod 64" by simp
  have c: "r div 64 = 64 * (r div 64 div 64) + (r div 64) mod 64" by simp
  show ?thesis using a b c by linarith
qed

lemma base64_split4:
  "(r::int) = 262144 * (r div 262144) + 4096 * ((r div 4096) mod 64) + 64 * ((r div 64) mod 64) + r mod 64"
proof -
  have a: "r div 262144 = r div 4096 div 64" using zdiv_zmult2_eq [of 64 r 4096] by simp
  have c: "r div 4096 = 64 * (r div 4096 div 64) + (r div 4096) mod 64" by simp
  show ?thesis using a c base64_split3 [of r] by linarith
qed

lemma base64_digit: "0 \<le> (r::int) mod 64" "(r::int) mod 64 < 64"
  by simp_all

lemma utf8_first2:
  assumes "2 \<le> a" "a < 32" "0 \<le> b" "b < 64"
  shows "utf8_first ([0xC0 + a, 0x80 + b] @ rest) = Some (64 * a + b, 2)"
  using assms by (simp add: utf8_first_def cont_byte_def)

lemma utf8_first3:
  assumes "0 \<le> a" "a < 16" "0 \<le> b" "b < 64" "0 \<le> c" "c < 64" "a = 0 \<longrightarrow> 32 \<le> b" "a = 13 \<longrightarrow> b \<le> 31"
  shows "utf8_first ([0xE0 + a, 0x80 + b, 0x80 + c] @ rest) = Some (4096 * a + 64 * b + c, 3)"
  using assms by (simp add: utf8_first_def cont_byte_def)

lemma utf8_first4:
  assumes "0 \<le> a" "a \<le> 4" "0 \<le> b" "b < 64" "0 \<le> c" "c < 64" "0 \<le> d" "d < 64"
    "a = 0 \<longrightarrow> 16 \<le> b" "a = 4 \<longrightarrow> b \<le> 15"
  shows "utf8_first ([0xF0 + a, 0x80 + b, 0x80 + c, 0x80 + d] @ rest) =
    Some (262144 * a + 4096 * b + 64 * c + d, 4)"
  using assms by (simp add: utf8_first_def cont_byte_def)

lemma digits3:
  assumes "(r::int) = 4096 * a + 64 * b + c" "0 \<le> b" "b < 64" "0 \<le> c" "c < 64" "0x800 \<le> r" "r < 0x10000"
    "r < 0xD800 \<or> 0xDFFF < r"
  shows "0 \<le> a" "a < 16" "a = 0 \<longrightarrow> 32 \<le> b" "a = 13 \<longrightarrow> b \<le> 31"
  using assms by linarith+

lemma digits4:
  assumes "(r::int) = 262144 * a + 4096 * b + 64 * c + d" "0 \<le> b" "b < 64" "0 \<le> c" "c < 64" "0 \<le> d" "d < 64"
    "0x10000 \<le> r" "r \<le> 0x10FFFF"
  shows "0 \<le> a" "a \<le> 4" "a = 0 \<longrightarrow> 16 \<le> b" "a = 4 \<longrightarrow> b \<le> 15"
  using assms by linarith+

text \<open>The four lengths of an encoded rune.\<close>

lemma utf8_encode_cases:
  assumes "valid_rune r"
  obtains (1) "0 \<le> r" "r < 0x80" "utf8_encode_rune r = [r]"
  | (2) a b where "2 \<le> a" "a < 32" "0 \<le> b" "b < 64" "r = 64 * a + b" "utf8_encode_rune r = [0xC0 + a, 0x80 + b]"
  | (3) a b c where "0 \<le> a" "a < 16" "0 \<le> b" "b < 64" "0 \<le> c" "c < 64" "a = 0 \<longrightarrow> 32 \<le> b" "a = 13 \<longrightarrow> b \<le> 31"
      "r = 4096 * a + 64 * b + c" "utf8_encode_rune r = [0xE0 + a, 0x80 + b, 0x80 + c]"
  | (4) a b c d where "0 \<le> a" "a \<le> 4" "0 \<le> b" "b < 64" "0 \<le> c" "c < 64" "0 \<le> d" "d < 64"
      "a = 0 \<longrightarrow> 16 \<le> b" "a = 4 \<longrightarrow> b \<le> 15" "r = 262144 * a + 4096 * b + 64 * c + d"
      "utf8_encode_rune r = [0xF0 + a, 0x80 + b, 0x80 + c, 0x80 + d]"
proof -
  note d = base64_digit [of r] base64_digit [of "r div 64"] base64_digit [of "r div 4096"]
  have v: "0 \<le> r" "r \<le> 0x10FFFF" "r < 0xD800 \<or> 0xDFFF < r" using assms by (auto simp: valid_rune_def)
  consider (a) "r < 0x80" | (b) "0x80 \<le> r" "r < 0x800" | (c) "0x800 \<le> r" "r < 0x10000" | (d) "0x10000 \<le> r"
    by linarith
  then show thesis
  proof cases
    case a
    then show thesis using v assms by (intro 1) (simp_all add: utf8_encode_rune_def)
  next
    case b
    obtain x y where xy: "x = r div 64" "y = r mod 64" by blast
    have s: "r = 64 * x + y" unfolding xy by simp
    have y: "0 \<le> y" "y < 64" unfolding xy by simp_all
    have "2 \<le> x" "x < 32" using s y b by linarith+
    moreover have "utf8_encode_rune r = [0xC0 + x, 0x80 + y]"
      using b assms unfolding xy by (simp add: utf8_encode_rune_def)
    ultimately show thesis using s y by (intro 2) auto
  next
    case c
    have e: "utf8_encode_rune r = [0xE0 + r div 4096, 0x80 + (r div 64) mod 64, 0x80 + r mod 64]"
      using c assms by (simp add: utf8_encode_rune_def)
    note D = digits3 [OF base64_split3 d(3,4) d(1,2) c v(3)]
    show thesis by (rule 3 [OF D(1,2) d(3,4) d(1,2) D(3,4) base64_split3 e])
  next
    case dd: d
    have e: "utf8_encode_rune r = [0xF0 + r div 262144, 0x80 + (r div 4096) mod 64, 0x80 + (r div 64) mod 64, 0x80 + r mod 64]"
      using dd assms by (simp add: utf8_encode_rune_def)
    note D = digits4 [OF base64_split4 d(5,6) d(3,4) d(1,2) dd v(2)]
    show thesis by (rule 4 [OF D(1,2) d(5,6) d(3,4) d(1,2) D(3,4) base64_split4 e])
  qed
qed

lemma utf8_first_encode:
  assumes "valid_rune r"
  shows "utf8_first (utf8_encode_rune r @ rest) = Some (r, length (utf8_encode_rune r))"
  using assms
proof (cases rule: utf8_encode_cases)
  case 1
  then show ?thesis by (simp add: utf8_first_def)
next
  case (2 a b)
  then show ?thesis using utf8_first2 [of a b rest] by simp
next
  case (3 a b c)
  then show ?thesis using utf8_first3 [of a b c rest] by simp
next
  case (4 a b c d)
  then show ?thesis using utf8_first4 [of a b c d rest] by simp
qed

lemma utf8_encode_bytes: "b \<in> set (utf8_encode_rune r) \<Longrightarrow> 0 \<le> b \<and> b < 256"
proof -
  define q where "q = (if valid_rune r then r else rune_error)"
  have q: "valid_rune q" by (auto simp: q_def valid_rune_def rune_error_def)
  have e: "utf8_encode_rune r = utf8_encode_rune q"
    by (auto simp: q_def utf8_encode_rune_def valid_rune_def rune_error_def)
  show "b \<in> set (utf8_encode_rune r) \<Longrightarrow> 0 \<le> b \<and> b < 256"
    unfolding e using q by (cases rule: utf8_encode_cases) auto
qed

lemma byte_of_char [simp]: "0 \<le> b \<Longrightarrow> b < 256 \<Longrightarrow> byte (byte_char b) = b"
  by (simp add: byte_def byte_char_def)

lemma utf8_encode_not_Nil: "utf8_encode_rune r \<noteq> []"
  by (simp add: utf8_encode_rune_def Let_def)

lemma utf8_runes_encode:
  "list_all valid_rune rs \<Longrightarrow> utf8_runes (concat (map utf8_encode_rune rs)) = map Some rs"
proof (induction rs)
  case (Cons r rs)
  obtain b bs where b: "utf8_encode_rune r @ concat (map utf8_encode_rune rs) = b # bs"
    using utf8_encode_not_Nil by (metis append_is_Nil_conv neq_Nil_conv)
  have "utf8_first (b # bs) = Some (r, length (utf8_encode_rune r))"
    using utf8_first_encode [of r "concat (map utf8_encode_rune rs)"] Cons.prems b by simp
  then have "utf8_runes (b # bs) = Some r # utf8_runes (drop (length (utf8_encode_rune r)) (b # bs))" by simp
  then show ?case using Cons by (simp add: b [symmetric])
qed simp

lemma bytes_of_runes: "map byte (string_of_runes rs) = concat (map utf8_encode_rune rs)"
proof -
  have "map (byte \<circ> byte_char) bs = bs" if "\<forall>b \<in> set bs. 0 \<le> b \<and> b < 256" for bs
    using that by (induction bs) auto
  moreover have "\<forall>b \<in> set (concat (map utf8_encode_rune rs)). 0 \<le> b \<and> b < 256"
    using utf8_encode_bytes by fastforce
  ultimately show ?thesis by (simp add: string_of_runes_def)
qed

lemma utf8_read_back:
  assumes "list_all valid_rune rs"
  shows "runes (string_of_runes rs) = rs" and "utf8_valid (string_of_runes rs)"
  using assms by (simp_all add: runes_def utf8_valid_def bytes_of_runes utf8_runes_encode comp_def list_all_iff)

text \<open>
  A file written in UTF-8 is decoded to its own text, with the line ends normalised, exactly
  when its first 4096 bytes look like text; otherwise it is not decoded at all: no other encoding is
  tried for it. The runes of the text that is decoded are those that were written.
\<close>

theorem Decode_utf8:
  assumes "list_all valid_rune rs"
  shows "Decode ut charmaps (string_of_runes rs) =
      (if rs \<noteq> [] \<and> looksUTF8Text ut (sample (string_of_runes rs))
       then Some (normalizeString (string_of_runes rs)) else None)
    \<and> runes (string_of_runes rs) = rs"
proof -
  have "string_of_runes rs = [] \<longleftrightarrow> rs = []"
  proof
    assume "string_of_runes rs = []"
    then have "runes [] = rs" using utf8_read_back(1)[OF assms] by simp
    then show "rs = []" by (simp add: runes_def)
  qed (simp add: string_of_runes_def)
  then show ?thesis using utf8_read_back[OF assms] by (simp add: Decode_def Let_def)
qed

text \<open>The reference encoder of UTF-16.\<close>

definition utf16_encode_rune :: "rune \<Rightarrow> int list" where
  "utf16_encode_rune r =
     (if r < 0x10000 then [r]
      else [0xD800 + (r - 0x10000) div 1024, 0xDC00 + (r - 0x10000) mod 1024])"

lemma utf16_decode_encode:
  "list_all valid_rune rs \<Longrightarrow> utf16_decode (concat (map utf16_encode_rune rs)) = rs"
proof (induction rs)
  case (Cons r rs)
  let ?us = "concat (map utf16_encode_rune rs)"
  have v: "0 \<le> r" "r \<le> 0x10FFFF" "r < 0xD800 \<or> 0xDFFF < r" using Cons.prems by (auto simp: valid_rune_def)
  show ?case
  proof (cases "r < 0x10000")
    case True
    then have "utf16_decode (r # us) = r # utf16_decode us" for us
      using v by (cases us) auto
    with True Cons show ?thesis by (simp add: utf16_encode_rune_def)
  next
    case False
    let ?q = "(r - 0x10000) div 1024" and ?m = "(r - 0x10000) mod 1024"
    have "0 \<le> ?q" "?q \<le> 0x3FF" "0 \<le> ?m" "?m \<le> 0x3FF" "?q * 1024 + ?m = r - 0x10000"
    proof -
      have e: "1024 * ?q + ?m = r - 0x10000" by (rule mult_div_mod_eq)
      show "0 \<le> ?m" "?m \<le> 0x3FF" by simp_all
      with e False v show "0 \<le> ?q" "?q \<le> 0x3FF" "?q * 1024 + ?m = r - 0x10000" by linarith+
    qed
    then have "utf16_decode ([0xD800 + ?q, 0xDC00 + ?m] @ ?us) = r # utf16_decode ?us" by simp
    moreover have "utf16_encode_rune r = [0xD800 + ?q, 0xDC00 + ?m]"
      using False by (simp add: utf16_encode_rune_def)
    ultimately show ?thesis using Cons by simp
  qed
qed simp

subsection \<open>Properties of the decoder\<close>

lemma replace_all_removes: "c \<notin> set new \<Longrightarrow> c \<notin> set (replace_all [c] new s)"
  by (induction "[c]" new s rule: replace_all.induct) auto

lemma normalizeString_no_CR: "CHR 0x0D \<notin> set (normalizeString s)"
  by (simp add: normalizeString_def CR_def LF_def replace_all_removes Let_def)

text \<open>
  The text handed to the content rules holds no carriage return, whatever the bytes and their
  encoding; nothing is decoded from no bytes, nor from valid UTF-8 with a zero byte in the sample.
\<close>

theorem Normalize_text:
  "CHR 0x0D \<notin> set (Normalize ut charmaps content) \<and> Normalize ut charmaps [] = [] \<and>
   (if utf8_valid content \<and> CHR 0x00 \<in> set (sample content) then Normalize ut charmaps content = [] else True)"
proof -
  have "CHR 0x0D \<notin> set x" if d: "Decode ut charmaps content = Some x" for x
  proof -
    obtain s where "x = normalizeString s"
      using d
      by (cases "decodeUTF16 ut content"; cases "decodeSingleByte ut charmaps content")
        (auto simp: Decode_def Let_def split: if_split_asm)
    then show ?thesis by (simp add: normalizeString_no_CR)
  qed
  then have "CHR 0x0D \<notin> set (Normalize ut charmaps content)" by (simp add: Normalize_def split: option.split)
  then show ?thesis by (simp add: Normalize_def Decode_def looksUTF8Text_def)
qed

definition utf16_bytes :: "bool \<Rightarrow> rune list \<Rightarrow> string" where
  "utf16_bytes little rs =
     map byte_char (concat (map (\<lambda>u. if little then [u mod 256, u div 256] else [u div 256, u mod 256])
       (concat (map utf16_encode_rune rs))))"

lemma utf16_unit_range:
  "list_all valid_rune rs \<Longrightarrow> u \<in> set (concat (map utf16_encode_rune rs)) \<Longrightarrow> 0 \<le> u \<and> u < 0x10000"
proof -
  assume v: "list_all valid_rune rs" and u: "u \<in> set (concat (map utf16_encode_rune rs))"
  then obtain r where r: "r \<in> set rs" "u \<in> set (utf16_encode_rune r)" "valid_rune r"
    by (auto simp: list_all_iff)
  have e: "1024 * ((r - 0x10000) div 1024) + (r - 0x10000) mod 1024 = r - 0x10000" by (rule mult_div_mod_eq)
  have m: "0 \<le> (r - 0x10000) mod 1024" "(r - 0x10000) mod 1024 < 1024" by simp_all
  have "0 \<le> (r - 0x10000) div 1024 \<and> (r - 0x10000) div 1024 \<le> 0x3FF" if "0x10000 \<le> r"
    using e m that r(3) unfolding valid_rune_def by linarith
  then show ?thesis
    using r m by (auto simp: utf16_encode_rune_def valid_rune_def split: if_splits)
qed

lemma u16_units_bytes:
  "(\<And>u. u \<in> set us \<Longrightarrow> 0 \<le> u \<and> u < 0x10000) \<Longrightarrow>
     u16_units little (map byte (map byte_char
       (concat (map (\<lambda>u. if little then [u mod 256, u div 256] else [u div 256, u mod 256]) us)))) = us"
proof (induction us)
  case (Cons u us)
  have u: "0 \<le> u" "u < 0x10000" using Cons.prems by auto
  have "0 \<le> u div 256" "u div 256 < 256" "0 \<le> u mod 256" "u mod 256 < 256" "256 * (u div 256) + u mod 256 = u"
    using u by (auto simp: div_less_iff_less_mult)
  then show ?case using Cons by (auto simp: add.commute)
qed simp

lemma even_utf16_bytes: "length (utf16_bytes little rs) mod 2 = 0"
proof -
  have "length (concat (map (\<lambda>u. if little then [u mod 256, u div 256] else [u div 256, u mod 256]) us)) mod 2 = 0"
    for us :: "int list"
    by (induction us) auto
  then show ?thesis by (simp add: utf16_bytes_def)
qed

lemma decodeUTF16_bytes:
  assumes "list_all valid_rune rs" and "looksDecodedText ut (string_of_runes rs)"
  shows "decodeUTF16WithOrder ut (utf16_bytes little rs) little = Some (string_of_runes rs)"
proof -
  have ne: "rs \<noteq> []" using assms(2) by (auto simp: looksDecodedText_def blank_text_def string_of_runes_def)
  have "utf16_encode_rune r \<noteq> []" for r by (simp add: utf16_encode_rune_def)
  with ne have "concat (map utf16_encode_rune rs) \<noteq> []" by (cases rs) auto
  then have "length (utf16_bytes little rs) \<noteq> 0"
    by (cases "concat (map utf16_encode_rune rs)") (auto simp: utf16_bytes_def)
  then have len: "\<not> length (utf16_bytes little rs) < 2" "length (utf16_bytes little rs) mod 2 = 0"
    using even_utf16_bytes [of little rs] by presburger+
  have "u16_units little (map byte (utf16_bytes little rs)) = concat (map utf16_encode_rune rs)"
    unfolding utf16_bytes_def using utf16_unit_range [OF assms(1)] by (rule u16_units_bytes)
  then show ?thesis
    using len assms by (simp add: decodeUTF16WithOrder_def utf16_decode_encode Let_def)
qed

text \<open>
  C33: A file written in UTF-16 with a byte order mark, in either order, is decoded to its text
  (with line ends normalised) when that text looks like text.
\<close>

theorem Decode_utf16:
  assumes "list_all valid_rune rs" and "looksDecodedText ut (string_of_runes rs)"
  shows "Decode ut charmaps ((if little then [CHR 0xFF, CHR 0xFE] else [CHR 0xFE, CHR 0xFF]) @ utf16_bytes little rs)
    = Some (normalizeString (string_of_runes rs))"
proof -
  let ?c = "(if little then [CHR 0xFF, CHR 0xFE] else [CHR 0xFE, CHR 0xFF]) @ utf16_bytes little rs"
  have "utf8_first (map byte ?c) = None" by (simp add: utf8_first_def byte_def)
  moreover obtain b bs where "map byte ?c = b # bs" by (cases little) auto
  ultimately have "\<not> utf8_valid ?c" by (simp add: utf8_valid_def)
  moreover have "decodeUTF16 ut ?c = Some (string_of_runes rs)"
    using decodeUTF16_bytes [OF assms] by (simp add: decodeUTF16_def)
  ultimately show ?thesis by (simp add: Decode_def Let_def)
qed

definition ascii_tables :: unicode_tables where
  "ascii_tables = \<lparr>ut_print = (\<lambda>r. False), ut_letter = (\<lambda>r. False), ut_digit = (\<lambda>r. False)\<rparr>"

theorem Decode_utf16_witness:
  "Decode ascii_tables [] [CHR 0xFF, CHR 0xFE, CHR ''a'', CHR 0x00, CHR ''='', CHR 0x00, CHR 0x0D, CHR 0x00, CHR 0x0A, CHR 0x00]
     = Some (''a='' @ [CHR 0x0A])"
proof -
  let ?rs = "[0x61, 0x3D, 13, 10] :: rune list"
  have v: "list_all valid_rune ?rs" by (simp add: valid_rune_def)
  have t: "looksDecodedText ascii_tables (string_of_runes ?rs)" by code_simp
  have b: "[CHR 0xFF, CHR 0xFE] @ utf16_bytes True ?rs =
     [CHR 0xFF, CHR 0xFE, CHR ''a'', CHR 0x00, CHR ''='', CHR 0x00, CHR 0x0D, CHR 0x00, CHR 0x0A, CHR 0x00]"
    by code_simp
  have n: "normalizeString (string_of_runes ?rs) = ''a='' @ [CHR 0x0A]" by code_simp
  show ?thesis using Decode_utf16 [OF v t, where little = True] unfolding b [symmetric] n by simp
qed

theorem Decode_utf8_witness:
  "Decode ascii_tables [] (string_of_runes [0x61, 0x3D, 0x20AC, 13, 10]) = None \<and>
   Decode ascii_tables [] (string_of_runes [0x61, 0x3D, 13, 10]) = Some (''a='' @ [CHR 0x0A])"
proof -
  have v: "list_all valid_rune [0x61, 0x3D, 0x20AC, 13, 10]" "list_all valid_rune [0x61, 0x3D, 13, 10]"
    by (simp_all add: valid_rune_def)
  have l: "\<not> looksUTF8Text ascii_tables (sample (string_of_runes [0x61, 0x3D, 0x20AC, 13, 10]))"
    "looksUTF8Text ascii_tables (sample (string_of_runes [0x61, 0x3D, 13, 10]))"
    by code_simp+
  have n: "normalizeString (string_of_runes [0x61, 0x3D, 13, 10]) = ''a='' @ [CHR 0x0A]" by code_simp
  show ?thesis
    using Decode_utf8 [OF v(1), of ascii_tables "[]"] Decode_utf8 [OF v(2), of ascii_tables "[]"] l n by simp
qed

end
