(* ===== verification/FileScan.thy ===== *)
theory FileScan
  imports Findings TextDecode RuleManager
begin

text \<open>
  The scanners that match rules against a file: the metadata guards (\<open>scanner/engine.go\<close>), the
  filename and extension scanners (\<open>scanner/filename.go\<close>) and the content scanner
  (\<open>scanner/content.go\<close>). The compiled patterns are cached in a process-wide map; the cache is
  modelled here and shown to be transparent where its keys tell the rules apart, and the scanners
  use the rule's own expression.
\<close>

definition scanExtension :: "string \<Rightarrow> string" where
  "scanExtension ext =
     (if ext = [] then []
      else to_lower (if \<not> has_prefix ext ''.'' then ''.'' @ ext else ext))"

subsection \<open>The pattern cache\<close>

type_synonym regex_cache = "string \<rightharpoonup> string"

definition cache_key :: "Rule \<Rightarrow> string" where
  "cache_key rule = r_ID rule @ '':'' @ r_Pattern rule"

definition compiledPattern :: "regex_engine \<Rightarrow> regex_cache \<Rightarrow> Rule \<Rightarrow> (string + string) \<times> regex_cache" where
  "compiledPattern re cache rule =
     (case cache (cache_key rule) of
        Some cached \<Rightarrow> (Inr cached, cache)
      | None \<Rightarrow>
          let expr = rule_expr rule
          in case rx_error re expr of
               Some err \<Rightarrow> (Inl err, cache)
             | None \<Rightarrow> (Inr expr, cache(cache_key rule \<mapsto> expr)))"

text \<open>What the cache holds is what compiling the rules that use it gives.\<close>

definition cache_ok :: "regex_engine \<Rightarrow> Rule set \<Rightarrow> regex_cache \<Rightarrow> bool" where
  "cache_ok re rules cache \<longleftrightarrow>
     (\<forall>r \<in> rules. \<forall>e. cache (cache_key r) = Some e \<longrightarrow> e = rule_expr r \<and> rx_error re e = None)"

definition direct_compile :: "regex_engine \<Rightarrow> Rule \<Rightarrow> string + string" where
  "direct_compile re rule =
     (case rx_error re (rule_expr rule) of Some err \<Rightarrow> Inl err | None \<Rightarrow> Inr (rule_expr rule))"

subsection \<open>Metadata guards\<close>

definition extensionAllowed :: "string \<Rightarrow> string list \<Rightarrow> bool" where
  "extensionAllowed ext allowed =
     (let normalized = scanExtension ext
      in list_ex (\<lambda>candidate. normalized = scanExtension candidate) allowed)"

text \<open>A quoted pattern under \<open>(?i)\<close> is a substring test up to case.\<close>

definition containsPath :: "string \<Rightarrow> string list \<Rightarrow> bool" where
  "containsPath path0 patterns =
     (let path = NormalizePath path0
      in list_ex (\<lambda>pattern. pattern \<noteq> [] \<and> contains (to_lower path) (to_lower pattern)) patterns)"

definition ruleMatchesMetadata :: "Rule \<Rightarrow> FileMetadata \<Rightarrow> bool" where
  "ruleMatchesMetadata rule meta =
     (if r_MaxFileSize rule > 0 \<and> m_Size meta > r_MaxFileSize rule then False
      else if length (r_FileExtensions rule) > 0 \<and>
              \<not> extensionAllowed (m_Extension meta) (r_FileExtensions rule) then False
      else if length (r_IncludePaths rule) > 0 \<and> \<not> containsPath (m_FilePath meta) (r_IncludePaths rule) then False
      else if length (r_ExcludePaths rule) > 0 \<and> containsPath (m_FilePath meta) (r_ExcludePaths rule) then False
      else True)"

subsection \<open>The scanners\<close>

definition firstMatch :: "regex_engine \<Rightarrow> Rule \<Rightarrow> string \<Rightarrow> string option" where
  "firstMatch re rule input =
     (case direct_compile re rule of
        Inl err \<Rightarrow> None
      | Inr expr \<Rightarrow>
          let m = (case rx_all_index re expr input of [] \<Rightarrow> [] | (i, j) # _ \<Rightarrow> substr input i j)
          in if m = [] then None else Some m)"

fun heuristic_scan :: "regex_engine \<Rightarrow> string \<Rightarrow> Rule list \<Rightarrow> FileMetadata \<Rightarrow> Finding list" where
  "heuristic_scan re input [] meta = []"
| "heuristic_scan re input (rule # ruleSet) meta =
     (if r_Action rule = ActionSkip then heuristic_scan re input ruleSet meta
      else if \<not> ruleMatchesMetadata rule meta then heuristic_scan re input ruleSet meta
      else case firstMatch re rule input of
             None \<Rightarrow> heuristic_scan re input ruleSet meta
           | Some m \<Rightarrow>
               newFinding rule meta (heuristicEvidence (r_Type rule) m) # heuristic_scan re input ruleSet meta)"

definition FilenameScan :: "regex_engine \<Rightarrow> Rule list \<Rightarrow> FileMetadata \<Rightarrow> Finding list" where
  "FilenameScan re ruleSet meta = heuristic_scan re (m_Name meta) ruleSet meta"

definition ExtensionScan :: "regex_engine \<Rightarrow> Rule list \<Rightarrow> FileMetadata \<Rightarrow> Finding list" where
  "ExtensionScan re ruleSet meta =
     (let normalizedExt = scanExtension (m_Extension meta)
      in if normalizedExt = [] then [] else heuristic_scan re normalizedExt ruleSet meta)"

definition ContentNeedsContent :: "Rule list \<Rightarrow> FileMetadata \<Rightarrow> bool" where
  "ContentNeedsContent ruleSet meta =
     (if m_IsDir meta then False
      else list_ex (\<lambda>rule. r_Action rule \<noteq> ActionSkip \<and> ruleMatchesMetadata rule meta) ruleSet)"

definition suppressed_finding :: "Rule \<Rightarrow> FileMetadata \<Rightarrow> string \<Rightarrow> SuppressedFinding" where
  "suppressed_finding rule meta reason =
     \<lparr>sf_Host = m_Host meta, sf_Share = m_Share meta, sf_FilePath = m_FilePath meta,
      sf_RuleID = r_ID rule, sf_Category = r_Category rule, sf_Reason = reason\<rparr>"

definition content_evidence :: "Rule \<Rightarrow> contentMatchDetails \<Rightarrow> findingEvidence" where
  "content_evidence rule details =
     \<lparr>ev_SignalType = signalTypeForRule (r_Type rule), ev_Match = md_match details,
      ev_MatchedText = md_matchedText details, ev_MatchedTextRedacted = md_matchedTextRedacted details,
      ev_Snippet = md_snippet details, ev_Context = md_context details,
      ev_ContextRedacted = md_contextRedacted details, ev_PotentialAccount = md_potentialAccount details,
      ev_LineNumber = md_lineNumber details\<rparr>"

text \<open>
  The loop of the content scanner over a decoded text: the findings, and what the observer is told
  was suppressed.
\<close>

fun content_scan ::
  "regex_engine \<Rightarrow> int \<Rightarrow> string \<Rightarrow> Rule list \<Rightarrow> FileMetadata \<Rightarrow> Finding list \<times> SuppressedFinding list" where
  "content_scan re snippetBytes txt [] meta = ([], [])"
| "content_scan re snippetBytes txt (rule # ruleSet) meta =
     (if r_Action rule = ActionSkip then content_scan re snippetBytes txt ruleSet meta
      else if \<not> ruleMatchesMetadata rule meta then content_scan re snippetBytes txt ruleSet meta
      else
        case buildContentMatchDetails re rule txt snippetBytes of
          None \<Rightarrow> content_scan re snippetBytes txt ruleSet meta
        | Some details \<Rightarrow>
            (case content_scan re snippetBytes txt ruleSet meta of (findings, suppressed) \<Rightarrow>
               (case weakContentSuppression (r_ID rule) (r_Category rule) (md_matchedText details) (md_context details) of
                  (True, reason) \<Rightarrow> (findings, suppressed_finding rule meta reason # suppressed)
                | (False, _) \<Rightarrow> (newFinding rule meta (content_evidence rule details) # findings, suppressed))))"

definition content_snippet_bytes :: "int \<Rightarrow> int" where
  "content_snippet_bytes snippetBytes = (if snippetBytes \<le> 0 then 120 else snippetBytes)"

definition ContentScan ::
  "regex_engine \<Rightarrow> unicode_tables \<Rightarrow> charmap list \<Rightarrow> int \<Rightarrow> Rule list \<Rightarrow> FileMetadata \<Rightarrow> string \<Rightarrow>
     Finding list \<times> SuppressedFinding list" where
  "ContentScan re ut charmaps snippetBytes ruleSet meta content =
     (if length content = 0 then ([], [])
      else
        let contentString = Normalize ut charmaps content
        in if contentString = [] then ([], [])
           else content_scan re snippetBytes contentString ruleSet meta)"

subsection \<open>The cache\<close>

definition keys_distinguish :: "Rule set \<Rightarrow> bool" where
  "keys_distinguish rules \<longleftrightarrow>
     (\<forall>r \<in> rules. \<forall>r' \<in> rules. cache_key r = cache_key r' \<longrightarrow> rule_expr r = rule_expr r')"

lemma compiledPattern_ok:
  assumes "cache_ok re rules cache" and "keys_distinguish rules" and "rule \<in> rules"
  shows "fst (compiledPattern re cache rule) = direct_compile re rule \<and>
    cache_ok re rules (snd (compiledPattern re cache rule))"
proof (cases "cache (cache_key rule)")
  case None
  show ?thesis
  proof (cases "rx_error re (rule_expr rule)")
    case err: None
    have "cache_ok re rules (cache(cache_key rule \<mapsto> rule_expr rule))"
      unfolding cache_ok_def
    proof (intro ballI allI impI)
      fix r e
      assume r: "r \<in> rules" "(cache(cache_key rule \<mapsto> rule_expr rule)) (cache_key r) = Some e"
      show "e = rule_expr r \<and> rx_error re e = None"
      proof (cases "cache_key r = cache_key rule")
        case True
        then have "rule_expr r = rule_expr rule"
          using assms(2,3) r(1) unfolding keys_distinguish_def by blast
        with True r(2) err show ?thesis by simp
      next
        case False
        with r assms(1) show ?thesis by (simp add: cache_ok_def)
      qed
    qed
    then show ?thesis using None err by (simp add: compiledPattern_def direct_compile_def Let_def)
  next
    case (Some e)
    then show ?thesis using None assms(1) by (simp add: compiledPattern_def direct_compile_def Let_def)
  qed
next
  case (Some e)
  then show ?thesis
    using assms by (auto simp: compiledPattern_def direct_compile_def cache_ok_def)
qed

fun lookups :: "regex_engine \<Rightarrow> regex_cache \<Rightarrow> Rule list \<Rightarrow> (string + string) list" where
  "lookups re cache [] = []"
| "lookups re cache (r # rs) =
     (case compiledPattern re cache r of (res, cache') \<Rightarrow> res # lookups re cache' rs)"

lemma lookups_direct:
  "cache_ok re rules cache \<Longrightarrow> keys_distinguish rules \<Longrightarrow> set rs \<subseteq> rules \<Longrightarrow>
     lookups re cache rs = map (direct_compile re) rs"
proof (induction rs arbitrary: cache)
  case (Cons r rs)
  then show ?case
    using compiledPattern_ok [of re rules cache r] by (auto split: prod.splits)
qed simp

text \<open>
  The cache of compiled patterns is transparent for rules whose ids and patterns tell their
  expressions apart: whatever the order of the look-ups, each of them gives what compiling the
  rule's own expression gives.
\<close>

theorem cache_transparent:
  assumes "keys_distinguish (set rs)"
  shows "lookups re Map.empty rs = map (direct_compile re) rs"
  by (rule lookups_direct [OF _ assms]) (simp_all add: cache_ok_def)

text \<open>The key leaves out the case flag: the second of two such rules gets the expression of the first.\<close>

lemma cache_ignores_case_flag:
  assumes "r_ID r = r_ID r'" "r_Pattern r = r_Pattern r'" "\<not> r_CaseSensitive r" "r_CaseSensitive r'"
    and "rx_error re (rule_expr r) = None"
  shows "lookups re Map.empty [r, r'] = [Inr (''(?i)'' @ r_Pattern r'), Inr (''(?i)'' @ r_Pattern r')]"
  using assms by (simp add: compiledPattern_def cache_key_def rule_expr_def Let_def)

theorem cache_transparent_witness:
  "lookups demo_engine Map.empty [demo_rule ''a'' ''x'' ''f'', demo_rule ''b'' ''y('' ''f'', demo_rule ''a'' ''x'' ''f'']
     = [Inr ''(?i)x'', Inr ''(?i)y('', Inr ''(?i)x'']"
proof -
  let ?rs = "[demo_rule ''a'' ''x'' ''f'', demo_rule ''b'' ''y('' ''f'', demo_rule ''a'' ''x'' ''f'']"
  have "keys_distinguish (set ?rs)"
    by code_simp
  then have "lookups demo_engine Map.empty ?rs = map (direct_compile demo_engine) ?rs"
    by (rule cache_transparent)
  also have "\<dots> = [Inr ''(?i)x'', Inr ''(?i)y('', Inr ''(?i)x'']" by code_simp
  finally show ?thesis .
qed

subsection \<open>The guards\<close>

lemma scanExtension_eq: "scanExtension e = normalizeExtension e"
  by (simp add: scanExtension_def normalizeExtension_def)

lemma to_slash_NormalizePath: "to_lower (NormalizePath p) = to_lower (path_clean p)"
  by (simp add: NormalizePath_def to_slash_def)

text \<open>
  The scanner's guards of a rule and those of the rule manager, which decide on skip rules,
  agree on every file for rules without empty path patterns; the manager's in addition keep
  content rules from directories.
\<close>

theorem guards_agree:
  assumes "[] \<notin> set (r_IncludePaths rule) \<union> set (r_ExcludePaths rule)"
  shows "ruleEligible rule \<lparr>c_Path = m_FilePath meta, c_Name = m_Name meta, c_Extension = m_Extension meta,
      c_Content = content, c_Size = m_Size meta, c_IsDir = m_IsDir meta\<rparr> \<longleftrightarrow>
    ruleMatchesMetadata rule meta \<and> \<not> (r_Type rule = RuleTypeContent \<and> m_IsDir meta)"
proof -
  have c: "path_containsAny p pats \<longleftrightarrow> containsPath p pats" if "[] \<notin> set pats" for p pats
    unfolding path_containsAny_def containsPath_def to_slash_def list_ex_iff Let_def
  proof (rule bex_cong [OF refl])
    fix pattern
    assume "pattern \<in> set pats"
    with that have "pattern \<noteq> []" by metis
    then show "contains (to_lower (NormalizePath p)) (to_lower pattern) \<longleftrightarrow>
        pattern \<noteq> [] \<and> contains (to_lower (NormalizePath p)) (to_lower pattern)" by simp
  qed
  have "path_containsAny (m_FilePath meta) (r_IncludePaths rule) \<longleftrightarrow> containsPath (m_FilePath meta) (r_IncludePaths rule)"
    "path_containsAny (m_FilePath meta) (r_ExcludePaths rule) \<longleftrightarrow> containsPath (m_FilePath meta) (r_ExcludePaths rule)"
    using assms by (auto intro!: c)
  then show ?thesis
    by (simp add: ruleEligible_def ruleMatchesMetadata_def matchExtensionList_def extensionAllowed_def
        scanExtension_eq Let_def)
qed

theorem guards_agree_witness:
  "ruleEligible ((demo_rule ''a'' ''x'' ''f'')\<lparr>r_ExcludePaths := [''/tmp/'']\<rparr>)
     \<lparr>c_Path = ''srv/tmp/a'', c_Name = ''a'', c_Extension = [], c_Content = [], c_Size = 1, c_IsDir = False\<rparr>
   \<longleftrightarrow> ruleMatchesMetadata ((demo_rule ''a'' ''x'' ''f'')\<lparr>r_ExcludePaths := [''/tmp/'']\<rparr>)
     \<lparr>m_FilePath = ''srv/tmp/a'', m_Share = [], m_ShareDescription = [], m_ShareType = [], m_Host = [],
      m_Source = [], m_ArchivePath = [], m_ArchiveMemberPath = [], m_ArchiveLocalInspect = False,
      m_Priority = 0, m_PriorityReason = [], m_DFSNamespacePath = [], m_DFSLinkPath = [], m_Size = 1,
      m_ModifiedAt = 0, m_IsDir = False, m_Name = ''a'', m_Extension = [], m_SharePriority = 0,
      m_SharePriorityReason = [], m_FromSYSVOL = False, m_FromNETLOGON = False\<rparr>"
proof -
  let ?m = "\<lparr>m_FilePath = ''srv/tmp/a'', m_Share = [], m_ShareDescription = [], m_ShareType = [], m_Host = [],
      m_Source = [], m_ArchivePath = [], m_ArchiveMemberPath = [], m_ArchiveLocalInspect = False,
      m_Priority = 0, m_PriorityReason = [], m_DFSNamespacePath = [], m_DFSLinkPath = [], m_Size = 1,
      m_ModifiedAt = 0, m_IsDir = False, m_Name = ''a'', m_Extension = [], m_SharePriority = 0,
      m_SharePriorityReason = [], m_FromSYSVOL = False, m_FromNETLOGON = False\<rparr>"
  show ?thesis
    using guards_agree [where rule = "(demo_rule ''a'' ''x'' ''f'')\<lparr>r_ExcludePaths := [''/tmp/'']\<rparr>" and meta = ?m
        and content = "[]"]
    by (simp add: demo_rule_def default_rule_def)
qed

subsection \<open>What the scanners find\<close>

lemma heuristic_scan_eq:
  "heuristic_scan re input rules meta =
     map (\<lambda>r. newFinding r meta (heuristicEvidence (r_Type r) (the (firstMatch re r input))))
       (filter (\<lambda>r. r_Action r \<noteq> ActionSkip \<and> ruleMatchesMetadata r meta \<and> firstMatch re r input \<noteq> None) rules)"
  by (induction rules) (auto split: option.splits)

lemma content_scan_fst:
  "fst (content_scan re n t rules meta) =
     List.map_filter (\<lambda>r.
       if r_Action r = ActionSkip \<or> \<not> ruleMatchesMetadata r meta then None
       else case buildContentMatchDetails re r t n of
              None \<Rightarrow> None
            | Some d \<Rightarrow>
                if shouldSuppressWeakContentMatch (r_ID r) (r_Category r) (md_matchedText d) (md_context d) then None
                else Some (newFinding r meta (content_evidence r d))) rules"
  by (induction rules)
    (auto simp: map_filter_simps shouldSuppressWeakContentMatch_def split: prod.splits option.splits bool.splits)

lemma content_scan_snd:
  "snd (content_scan re n t rules meta) =
     List.map_filter (\<lambda>r.
       if r_Action r = ActionSkip \<or> \<not> ruleMatchesMetadata r meta then None
       else case buildContentMatchDetails re r t n of
              None \<Rightarrow> None
            | Some d \<Rightarrow>
                (case weakContentSuppression (r_ID r) (r_Category r) (md_matchedText d) (md_context d) of
                   (True, reason) \<Rightarrow> Some (suppressed_finding r meta reason)
                 | (False, _) \<Rightarrow> None)) rules"
  by (induction rules) (auto simp: map_filter_simps split: prod.splits option.splits bool.splits)

text \<open>
  Every match of a content rule is accounted for: a rule that is not a skip rule, whose guards
  admit the file and whose expression matches the decoded text is either found or told to the
  observer as suppressed, never both; and nothing else is.
\<close>

theorem content_scan_accounts:
  "length (fst (content_scan re n t rules meta)) + length (snd (content_scan re n t rules meta)) =
     length (filter (\<lambda>r. r_Action r \<noteq> ActionSkip \<and> ruleMatchesMetadata r meta \<and>
       buildContentMatchDetails re r t n \<noteq> None) rules)"
  by (induction rules) (auto split: prod.splits option.splits bool.splits)

end
