(* ===== verification/Correlation.thy ===== *)
theory Correlation
  imports FileScan
begin

text \<open>
  The correlation of the findings of one file (\<open>scanner/correlation.go\<close>): findings with the same
  host, share, path and category become one, scored by its signals. Go ranges over the map of groups
  in any order; the order is an argument, the list of the keys in the order they are visited. The
  loop over the weights only adds up, so it runs over the types in the order of their first signal.
\<close>

type_synonym bucketKey = "string \<times> string \<times> string \<times> string"

definition bucket_key :: "Finding \<Rightarrow> bucketKey" where
  "bucket_key finding =
     (to_lower (trim_space (f_Host finding)), to_lower (trim_space (f_Share finding)),
      to_lower (trim_space (f_FilePath finding)), to_lower (trim_space (f_Category finding)))"

definition signalWeightCaps :: "string \<Rightarrow> int" where
  "signalWeightCaps t =
     (if t = ''content'' then 40
      else if t = ''validated'' then 42
      else if t = ''filename'' then 24
      else if t = ''extension'' then 14
      else if t = ''path'' then 12
      else if t = ''share_priority'' then 12
      else if t = ''planner_priority'' then 14
      else 0)"

subsection \<open>The primary finding\<close>

definition signalPriority :: "Finding \<Rightarrow> int" where
  "signalPriority f =
     (case f_SupportingSignals f of
        [] \<Rightarrow> 0
      | s # _ \<Rightarrow>
          if ss_SignalType s = ''validated'' then 4
          else if ss_SignalType s = ''content'' then 3
          else if ss_SignalType s = ''filename'' then 2
          else if ss_SignalType s = ''extension'' then 1
          else 0)"

definition primary_step :: "Finding \<Rightarrow> Finding \<Rightarrow> Finding" where
  "primary_step best finding =
     (let bestRank = findingSeverityRank (f_Severity best);
          currRank = findingSeverityRank (f_Severity finding)
      in if currRank > bestRank then finding
         else if currRank < bestRank then best
         else if signalPriority finding > signalPriority best then finding
         else if f_RuleID finding < f_RuleID best then finding
         else best)"

text \<open>Of a group that is not empty.\<close>

definition selectPrimaryFinding :: "Finding list \<Rightarrow> Finding" where
  "selectPrimaryFinding grp = foldl primary_step (hd grp) (tl grp)"

subsection \<open>Context\<close>

definition groupHasTag :: "Finding list \<Rightarrow> string \<Rightarrow> bool" where
  "groupHasTag grp tag0 =
     (let tag = trim_space (to_lower tag0) in
      if tag = [] then False
      else list_ex (\<lambda>finding. list_ex (\<lambda>candidate. equal_fold (trim_space candidate) tag) (f_Tags finding)) grp)"

definition groupHasStrongEvidence :: "Finding list \<Rightarrow> bool" where
  "groupHasStrongEvidence grp =
     list_ex (\<lambda>finding. to_lower (trim_space (findingPrimarySignal finding)) \<in> set [''content'', ''validated'']) grp"

definition allowsContextBoosts :: "Finding list \<Rightarrow> bool" where
  "allowsContextBoosts grp =
     (case grp of
        [] \<Rightarrow> True
      | f # _ \<Rightarrow>
          let category = to_lower (trim_space (f_Category f)) in
          if groupHasStrongEvidence grp then
            (if category = ''database-artifacts'' then groupHasTag grp ''db:type:dump-export'' else True)
          else if category \<in> set [''configuration'', ''infrastructure'', ''scripts'', ''database-artifacts''] then False
          else True)"

definition scanner_containsAny :: "string \<Rightarrow> string list \<Rightarrow> bool" where
  "scanner_containsAny value parts =
     list_ex (\<lambda>part0. let part = to_lower (trim_space part0) in part \<noteq> [] \<and> contains value part) parts"

definition context_signal :: "string \<Rightarrow> int \<Rightarrow> string \<Rightarrow> SupportingSignal" where
  "context_signal t w reason =
     \<lparr>ss_SignalType = t, ss_RuleID = [], ss_RuleName = [], ss_Match = [], ss_Confidence = [],
      ss_Weight = w, ss_Reason = reason\<rparr>"

definition pathContextSignal :: "FileMetadata \<Rightarrow> SupportingSignal option" where
  "pathContextSignal meta =
     (let path = to_lower (slashes (m_FilePath meta)) in
      if scanner_containsAny path [''/policies/'', ''policies/'', ''/preferences/'', ''preferences/'',
           ''/scripts/'', ''scripts/''] then
        Some (context_signal ''path'' (baseSignalWeight ''path'')
          ''path suggests policy, preference, or script review material'')
      else if scanner_containsAny path [''config'', ''settings'', ''secret'', ''password'', ''token'', ''backup'',
           ''export'', ''payroll'', ''finance'', ''hr'', ''customer'', ''vpn'', ''admin'', ''deploy''] then
        Some (context_signal ''path'' (baseSignalWeight ''path'')
          ''path contains high-value keywords associated with sensitive or operational content'')
      else None)"

definition sharePrioritySignal :: "FileMetadata \<Rightarrow> SupportingSignal option" where
  "sharePrioritySignal meta =
     (if m_FromSYSVOL meta then
        Some (context_signal ''share_priority'' 12 ''SYSVOL is treated as a high-value AD share'')
      else if m_FromNETLOGON meta then
        Some (context_signal ''share_priority'' 10 ''NETLOGON is treated as a high-value AD share'')
      else if m_SharePriority meta \<ge> 90 then
        Some (context_signal ''share_priority'' 10 ''share was prioritized highly during planning'')
      else if m_SharePriority meta \<ge> 50 then
        Some (context_signal ''share_priority'' 6 ''share was prioritized during planning'')
      else None)"

definition plannerPrioritySignal :: "FileMetadata \<Rightarrow> SupportingSignal option" where
  "plannerPrioritySignal meta =
     (if m_Priority meta \<ge> 120 then
        Some (context_signal ''planner_priority'' 14 ''planner marked this file path as critical-priority review material'')
      else if m_Priority meta \<ge> 80 then
        Some (context_signal ''planner_priority'' 12 ''planner marked this file path as high-priority review material'')
      else if m_Priority meta \<ge> 40 then
        Some (context_signal ''planner_priority'' 6 ''planner marked this file path as relevant review material'')
      else None)"

subsection \<open>Order of signals\<close>

definition signal_rank :: "string \<Rightarrow> nat option" where
  "signal_rank t = map_of (zip [''validated'', ''content'', ''filename'', ''extension'', ''path'',
     ''share_priority'', ''planner_priority''] [0..<7]) t"

definition signal_type_less :: "string \<Rightarrow> string \<Rightarrow> bool" where
  "signal_type_less a b =
     (case (signal_rank a, signal_rank b) of
        (Some i, Some j) \<Rightarrow> if i \<noteq> j then i < j else a < b
      | (Some _, None) \<Rightarrow> True
      | (None, Some _) \<Rightarrow> False
      | (None, None) \<Rightarrow> a < b)"

definition orderedSignalTypes :: "string list \<Rightarrow> string list" where
  "orderedSignalTypes values = slice_sort signal_type_less values"

definition signal_less :: "SupportingSignal \<Rightarrow> SupportingSignal \<Rightarrow> bool" where
  "signal_less a b =
     (if ss_Weight a = ss_Weight b then
        (if ss_SignalType a = ss_SignalType b then ss_RuleID a < ss_RuleID b
         else ss_SignalType a < ss_SignalType b)
      else ss_Weight a > ss_Weight b)"

definition sortSignals :: "SupportingSignal list \<Rightarrow> SupportingSignal list" where
  "sortSignals signals = (if length signals = 0 then [] else slice_sort signal_less signals)"

subsection \<open>One group\<close>

definition fill :: "string \<Rightarrow> string \<Rightarrow> string" where
  "fill old new = (if old = [] \<and> new \<noteq> [] then new else old)"

definition merge_step :: "Finding \<Rightarrow> Finding \<Rightarrow> Finding" where
  "merge_step correlated finding =
     correlated\<lparr>
       f_Match := fill (f_Match correlated) (f_Match finding),
       f_SignalType := fill (f_SignalType correlated) (f_SignalType finding),
       f_MatchedText := fill (f_MatchedText correlated) (f_MatchedText finding),
       f_MatchedTextRedacted := fill (f_MatchedTextRedacted correlated) (f_MatchedTextRedacted finding),
       f_Snippet := fill (f_Snippet correlated) (f_Snippet finding),
       f_Context := fill (f_Context correlated) (f_Context finding),
       f_ContextRedacted := fill (f_ContextRedacted correlated) (f_ContextRedacted finding),
       f_PotentialAccount := fill (f_PotentialAccount correlated) (f_PotentialAccount finding),
       f_LineNumber := (if f_LineNumber correlated = 0 \<and> f_LineNumber finding > 0
                        then f_LineNumber finding else f_LineNumber correlated),
       f_Severity := (if findingSeverityRank (f_Severity finding) > findingSeverityRank (f_Severity correlated)
                      then f_Severity finding else f_Severity correlated),
       f_RuleExplanation := fill (f_RuleExplanation correlated) (f_RuleExplanation finding),
       f_RuleRemediation := fill (f_RuleRemediation correlated) (f_RuleRemediation finding)\<rparr>"

definition capped_weight :: "SupportingSignal list \<Rightarrow> string \<Rightarrow> int" where
  "capped_weight signals t =
     (let weight = sum_list (map ss_Weight (filter (\<lambda>s. ss_SignalType s = t) signals));
          capWeight = (if signalWeightCaps t = 0 then weight else signalWeightCaps t)
      in if weight > capWeight then capWeight else weight)"

definition contribution :: "SupportingSignal list \<Rightarrow> (string \<Rightarrow> bool) \<Rightarrow> int" where
  "contribution signals P =
     sum_list (map (capped_weight signals) (filter P (remdups (map ss_SignalType signals))))"

definition multipleSignalsReason :: string where
  "multipleSignalsReason = ''multiple independent signal types increased confidence''"

definition distinct_bonus :: "SupportingSignal list \<Rightarrow> int" where
  "distinct_bonus signals =
     (let n = length (remdups (map ss_SignalType signals)) in
      if n \<ge> 4 then 18 else if n \<ge> 3 then 14 else if n \<ge> 2 then 8 else 0)"

definition tag_bonuses :: "Finding list \<Rightarrow> (int \<times> string) list" where
  "tag_bonuses grp =
     (if groupHasTag grp ''artifact:private-key'' \<and> groupHasTag grp ''validated:private-key-header''
      then [(8, ''validated private key structure confirmed the exposed private key artifact'')] else []) @
     (if groupHasTag grp ''credstore:path-exact''
      then [(10, ''exact Windows credential-store path matched a known DPAPI credential storage location'')] else []) @
     (if groupHasTag grp ''artifact:aws-credentials'' \<and>
         (groupHasTag grp ''aws:type:bundle'' \<or> groupHasTag grp ''aws:type:session-bundle'')
      then [(10, ''validated AWS credential material was identified inside an exact shared credentials artifact path'')] else []) @
     (if groupHasTag grp ''artifact:backup-family''
      then [(10, ''exact backup or restore path matched a known Windows system-state storage family'')] else [])"

definition is_content_type :: "string \<Rightarrow> bool" where "is_content_type t \<longleftrightarrow> t \<in> set [''content'', ''validated'']"
definition is_heuristic_type :: "string \<Rightarrow> bool" where "is_heuristic_type t \<longleftrightarrow> t \<in> set [''filename'', ''extension'']"
definition is_context_type :: "string \<Rightarrow> bool" where
  "is_context_type t \<longleftrightarrow> t \<in> set [''path'', ''share_priority'', ''planner_priority'']"

definition correlationReason :: "Finding \<Rightarrow> string" where
  "correlationReason f =
     (if length (f_MatchedSignalTypes f) = 0 then f_MatchReason f
      else ''correlated '' @ itoa (int (length (f_MatchedRuleIDs f))) @ '' matched rule(s) across '' @
        itoa (int (length (f_MatchedSignalTypes f))) @ '' supporting signal type(s); confidence increased to '' @
        f_Confidence f @ '' ('' @ itoa (f_ConfidenceScore f) @ '')'')"

definition buildConfidenceBreakdown :: "Finding \<Rightarrow> int \<Rightarrow> int \<Rightarrow> int \<Rightarrow> int \<Rightarrow> int \<Rightarrow> ConfidenceBreakdown" where
  "buildConfidenceBreakdown f baseScore contentContribution heuristicContribution pathContextContribution
     correlationContribution =
     (case valueQualityAssessment f of (sc, label, reason) \<Rightarrow>
        \<lparr>cb_BaseScore = baseScore, cb_FinalScore = baseScore, cb_ContentSignalStrength = contentContribution,
         cb_HeuristicSignalContribution = heuristicContribution, cb_ValueQualityScore = sc,
         cb_ValueQualityLabel = label, cb_ValueQualityReason = reason,
         cb_CorrelationContribution = correlationContribution,
         cb_PathContextContribution = pathContextContribution, cb_TriageAdjustment = 0\<rparr>)"

definition context_signals :: "FileMetadata \<Rightarrow> Finding list \<Rightarrow> SupportingSignal list" where
  "context_signals meta grp =
     (if allowsContextBoosts grp
      then List.map_filter (\<lambda>s. s) [pathContextSignal meta, sharePrioritySignal meta, plannerPrioritySignal meta]
      else [])"

definition group_signals :: "FileMetadata \<Rightarrow> Finding list \<Rightarrow> SupportingSignal list" where
  "group_signals meta grp = concat (map f_SupportingSignals grp) @ context_signals meta grp"

text \<open>The finding of a group before the triage.\<close>

definition correlated_finding :: "FileMetadata \<Rightarrow> Finding list \<Rightarrow> Finding" where
  "correlated_finding meta grp =
     (let primary = selectPrimaryFinding grp;
          merged = foldl merge_step primary grp;
          signals = group_signals meta grp;
          reasons = filter (\<lambda>r. r \<noteq> []) (map ss_Reason (concat (map f_SupportingSignals grp))) @
            map ss_Reason (context_signals meta grp) @
            (if distinct_bonus signals > 0 then [multipleSignalsReason] else []) @
            map snd (tag_bonuses grp);
          correlation = distinct_bonus signals + sum_list (map fst (tag_bonuses grp));
          total = contribution signals (\<lambda>t. True) + correlation;
          score = (if total > 100 then 100 else total);
          c1 = merged\<lparr>
            f_RuleConfidence := f_RuleConfidence primary,
            f_ConfidenceScore := score,
            f_Confidence := confidenceLevelForScore score,
            f_SharePriority := m_SharePriority meta,
            f_SharePriorityReason := m_SharePriorityReason meta,
            f_MatchedRuleIDs := uniqueSorted (map f_RuleID grp),
            f_MatchedSignalTypes := orderedSignalTypes (uniqueSorted (map ss_SignalType signals)),
            f_SupportingSignals := sortSignals signals,
            f_ConfidenceReasons := uniqueSorted reasons,
            f_Tags := uniqueSorted (concat (map f_Tags grp))\<rparr>;
          c2 = c1\<lparr>f_MatchReason := correlationReason c1\<rparr>
      in c2\<lparr>f_ConfidenceBreakdown := buildConfidenceBreakdown c2 score
             (contribution signals is_content_type) (contribution signals is_heuristic_type)
             (contribution signals is_context_type) correlation\<rparr>)"

definition correlateGroup :: "FileMetadata \<Rightarrow> Finding list \<Rightarrow> Finding" where
  "correlateGroup meta grp =
     (let c3 = applyTriageMetadata (correlated_finding meta grp);
          b = f_ConfidenceBreakdown c3
      in c3\<lparr>f_ConfidenceBreakdown := b\<lparr>cb_FinalScore := f_ConfidenceScore c3,
              cb_TriageAdjustment := f_ConfidenceScore c3 - cb_BaseScore b\<rparr>\<rparr>)"

subsection \<open>All groups\<close>

definition group_of :: "Finding list \<Rightarrow> bucketKey \<Rightarrow> Finding list" where
  "group_of findings k = filter (\<lambda>f. bucket_key f = k) findings"

definition bucket_keys :: "Finding list \<Rightarrow> bucketKey list" where
  "bucket_keys findings = remdups (map bucket_key findings)"

definition correlated_less :: "Finding \<Rightarrow> Finding \<Rightarrow> bool" where
  "correlated_less a b =
     (if findingSeverityRank (f_Severity a) = findingSeverityRank (f_Severity b) then
        (if f_Category a = f_Category b then f_FilePath a < f_FilePath b else f_Category a < f_Category b)
      else findingSeverityRank (f_Severity a) > findingSeverityRank (f_Severity b))"

definition correlateFindings :: "bucketKey list \<Rightarrow> FileMetadata \<Rightarrow> Finding list \<Rightarrow> Finding list" where
  "correlateFindings keys meta findings =
     (if length findings = 0 then []
      else slice_sort correlated_less (map (\<lambda>k. correlateGroup meta (group_of findings k)) keys))"

subsection \<open>The orders\<close>

text \<open>Each comparison orders by a key.\<close>

definition signal_type_key :: "string \<Rightarrow> nat \<times> string" where
  "signal_type_key t = (case signal_rank t of Some i \<Rightarrow> i | None \<Rightarrow> 7, t)"

lemma signal_rank_less: "signal_rank t = Some i \<Longrightarrow> i < 7"
  by (auto simp: signal_rank_def dest!: map_of_SomeD set_zip_rightD)

lemma signal_type_less_key: "signal_type_less a b \<longleftrightarrow> signal_type_key a < signal_type_key b"
  using signal_rank_less [of a] signal_rank_less [of b]
  by (auto simp: signal_type_less_def signal_type_key_def split: option.splits)

interpretation signal_types: key_order signal_type_less signal_type_key
  by unfold_locales (rule signal_type_less_key)

interpretation signals: key_order signal_less "\<lambda>s. (- ss_Weight s, ss_SignalType s, ss_RuleID s)"
  by unfold_locales (auto simp: signal_less_def)

definition correlated_key :: "Finding \<Rightarrow> int \<times> string \<times> string" where
  "correlated_key f = (- findingSeverityRank (f_Severity f), f_Category f, f_FilePath f)"

interpretation correlated: key_order correlated_less correlated_key
  by unfold_locales (auto simp: correlated_less_def correlated_key_def)

subsection \<open>The primary finding is a most severe one\<close>

lemma primary_fold:
  "foldl primary_step best fs \<in> insert best (set fs) \<and>
   (\<forall>f \<in> insert best (set fs).
      findingSeverityRank (f_Severity f) \<le> findingSeverityRank (f_Severity (foldl primary_step best fs)))"
proof (induction fs arbitrary: best)
  case (Cons f fs)
  have s: "primary_step best f \<in> {best, f}"
    "findingSeverityRank (f_Severity best) \<le> findingSeverityRank (f_Severity (primary_step best f))"
    "findingSeverityRank (f_Severity f) \<le> findingSeverityRank (f_Severity (primary_step best f))"
    by (auto simp: primary_step_def Let_def)
  show ?case using s Cons.IH [of "primary_step best f"] by (auto; force)
qed simp

lemma primary_in: "grp \<noteq> [] \<Longrightarrow> selectPrimaryFinding grp \<in> set grp"
  using primary_fold [of "hd grp" "tl grp"] by (cases grp) (auto simp: selectPrimaryFinding_def)

lemma primary_max:
  "f \<in> set grp \<Longrightarrow> findingSeverityRank (f_Severity f) \<le> findingSeverityRank (f_Severity (selectPrimaryFinding grp))"
  using primary_fold [of "hd grp" "tl grp"] by (cases grp) (auto simp: selectPrimaryFinding_def)

text \<open>
  Among findings of the same severity the one with the stronger signal should win, but a later
  finding with a weaker signal and a smaller rule id replaces it.
\<close>

lemma primary_prefers_smaller_id:
  assumes "findingSeverityRank (f_Severity a) = findingSeverityRank (f_Severity b)"
    and "signalPriority b < signalPriority a" and "f_RuleID b < f_RuleID a"
  shows "selectPrimaryFinding [a, b] = b"
  using assms by (simp add: selectPrimaryFinding_def primary_step_def)

subsection \<open>The merged finding\<close>

lemma merge_step_keeps [simp]:
  "f_Category (merge_step c f) = f_Category c" "f_FilePath (merge_step c f) = f_FilePath c"
  "f_Host (merge_step c f) = f_Host c" "f_Share (merge_step c f) = f_Share c"
  "f_RuleID (merge_step c f) = f_RuleID c"
  by (simp_all add: merge_step_def)

lemma merge_fold_keeps:
  "f_Category (foldl merge_step c fs) = f_Category c \<and> f_FilePath (foldl merge_step c fs) = f_FilePath c \<and>
   f_Host (foldl merge_step c fs) = f_Host c \<and> f_Share (foldl merge_step c fs) = f_Share c \<and>
   f_RuleID (foldl merge_step c fs) = f_RuleID c"
  by (induction fs arbitrary: c) auto

lemma merge_fold_severity:
  "(\<And>f. f \<in> set fs \<Longrightarrow> findingSeverityRank (f_Severity f) \<le> findingSeverityRank (f_Severity c)) \<Longrightarrow>
     f_Severity (foldl merge_step c fs) = f_Severity c"
proof (induction fs arbitrary: c)
  case (Cons f fs)
  have "f_Severity (merge_step c f) = f_Severity c"
    using Cons.prems [of f] by (simp add: merge_step_def)
  then show ?case using Cons by simp
qed simp

lemma triage_keeps [simp]:
  "f_Category (applyTriageMetadata f) = f_Category f" "f_FilePath (applyTriageMetadata f) = f_FilePath f"
  "f_Host (applyTriageMetadata f) = f_Host f" "f_Share (applyTriageMetadata f) = f_Share f"
  "f_RuleID (applyTriageMetadata f) = f_RuleID f"
  "f_MatchedRuleIDs (applyTriageMetadata f) = f_MatchedRuleIDs f"
  "f_ConfidenceBreakdown (applyTriageMetadata f) = f_ConfidenceBreakdown f"
  "f_SupportingSignals (applyTriageMetadata f) = f_SupportingSignals f"
  "f_Tags (applyTriageMetadata f) = f_Tags f"
  by (simp_all add: applyTriageMetadata_eq Let_def)

lemma correlateGroup_identity:
  "f_Category (correlateGroup meta grp) = f_Category (selectPrimaryFinding grp)"
  "f_FilePath (correlateGroup meta grp) = f_FilePath (selectPrimaryFinding grp)"
  "f_Host (correlateGroup meta grp) = f_Host (selectPrimaryFinding grp)"
  "f_Share (correlateGroup meta grp) = f_Share (selectPrimaryFinding grp)"
  "f_MatchedRuleIDs (correlateGroup meta grp) = uniqueSorted (map f_RuleID grp)"
  "f_Tags (correlateGroup meta grp) = uniqueSorted (concat (map f_Tags grp))"
  using merge_fold_keeps [of "selectPrimaryFinding grp" grp]
  by (simp_all add: correlateGroup_def correlated_finding_def Let_def)

text \<open>The fields of a finding that say where it was found are those of the file.\<close>

definition from_file :: "FileMetadata \<Rightarrow> Finding \<Rightarrow> bool" where
  "from_file m f \<longleftrightarrow>
     f_Host f = m_Host m \<and> f_Share f = m_Share m \<and> f_ShareDescription f = m_ShareDescription m \<and>
     f_ShareType f = m_ShareType m \<and> f_Source f = m_Source m \<and> f_ArchivePath f = m_ArchivePath m \<and>
     f_ArchiveMemberPath f = m_ArchiveMemberPath m \<and> f_ArchiveLocalInspect f = m_ArchiveLocalInspect m \<and>
     f_DFSNamespacePath f = m_DFSNamespacePath m \<and> f_DFSLinkPath f = m_DFSLinkPath m \<and>
     f_Priority f = m_Priority m \<and> f_PriorityReason f = m_PriorityReason m \<and>
     f_SharePriority f = m_SharePriority m \<and> f_SharePriorityReason f = m_SharePriorityReason m \<and>
     f_FromSYSVOL f = m_FromSYSVOL m \<and> f_FromNETLOGON f = m_FromNETLOGON m"

lemma from_file_triage [simp]: "from_file m (applyTriageMetadata f) = from_file m f"
  by (simp add: from_file_def applyTriageMetadata_eq Let_def)

lemma from_file_breakdown: "from_file m (f\<lparr>f_ConfidenceBreakdown := b\<rparr>) = from_file m f"
  by (simp add: from_file_def)

lemma from_file_new [simp]: "from_file m (newFinding rule m ev)"
  by (simp add: newFinding_def Let_def) (simp add: from_file_def)

lemma from_file_merge: "from_file m (foldl merge_step c fs) = from_file m c"
proof (induction fs arbitrary: c)
  case (Cons f fs)
  have "from_file m (merge_step c f) = from_file m c" by (simp add: from_file_def merge_step_def)
  then show ?case using Cons by simp
qed simp

lemma from_file_group: "from_file m (selectPrimaryFinding grp) \<Longrightarrow> from_file m (correlateGroup m grp)"
proof -
  assume "from_file m (selectPrimaryFinding grp)"
  then have "from_file m (foldl merge_step (selectPrimaryFinding grp) grp)" by (simp add: from_file_merge)
  then have "from_file m (correlated_finding m grp)"
    by (simp add: correlated_finding_def Let_def) (simp add: from_file_def)
  then have "from_file m (applyTriageMetadata (correlated_finding m grp))" by simp
  then show ?thesis by (simp add: correlateGroup_def Let_def from_file_breakdown del: from_file_triage)
qed

lemma correlated_severity: "f_Severity (correlated_finding meta grp) = f_Severity (selectPrimaryFinding grp)"
  using merge_fold_severity [of grp "selectPrimaryFinding grp"] primary_max [of _ grp]
  by (simp add: correlated_finding_def Let_def)

subsection \<open>The score\<close>

definition group_total :: "FileMetadata \<Rightarrow> Finding list \<Rightarrow> int" where
  "group_total meta grp =
     contribution (group_signals meta grp) (\<lambda>t. True) +
     distinct_bonus (group_signals meta grp) + sum_list (map fst (tag_bonuses grp))"

lemma correlated_score: "f_ConfidenceScore (correlated_finding meta grp) = min 100 (group_total meta grp)"
  by (simp add: correlated_finding_def group_total_def Let_def)

lemma correlateGroup_score:
  "f_ConfidenceScore (correlateGroup meta grp) =
     triaged_score (triageClassForFinding (correlated_finding meta grp)) (min 100 (group_total meta grp))"
  by (simp add: correlateGroup_def applyTriageMetadata_eq correlated_score Let_def)

lemma correlateGroup_breakdown:
  "f_ConfidenceBreakdown (correlateGroup meta grp) =
     (let b = f_ConfidenceBreakdown (correlated_finding meta grp) in
      b\<lparr>cb_FinalScore := f_ConfidenceScore (correlateGroup meta grp),
        cb_TriageAdjustment := f_ConfidenceScore (correlateGroup meta grp) - cb_BaseScore b\<rparr>)"
  by (simp add: correlateGroup_def Let_def)

lemma build_fields:
  "cb_BaseScore (buildConfidenceBreakdown f n a b c d) = n"
  "cb_ContentSignalStrength (buildConfidenceBreakdown f n a b c d) = a"
  "cb_HeuristicSignalContribution (buildConfidenceBreakdown f n a b c d) = b"
  "cb_PathContextContribution (buildConfidenceBreakdown f n a b c d) = c"
  "cb_CorrelationContribution (buildConfidenceBreakdown f n a b c d) = d"
  by (cases "valueQualityAssessment f", simp add: buildConfidenceBreakdown_def)+

lemma correlated_breakdown:
  "cb_BaseScore (f_ConfidenceBreakdown (correlated_finding meta grp)) = min 100 (group_total meta grp)"
  "cb_ContentSignalStrength (f_ConfidenceBreakdown (correlated_finding meta grp)) =
     contribution (group_signals meta grp) is_content_type"
  "cb_HeuristicSignalContribution (f_ConfidenceBreakdown (correlated_finding meta grp)) =
     contribution (group_signals meta grp) is_heuristic_type"
  "cb_PathContextContribution (f_ConfidenceBreakdown (correlated_finding meta grp)) =
     contribution (group_signals meta grp) is_context_type"
  "cb_CorrelationContribution (f_ConfidenceBreakdown (correlated_finding meta grp)) =
     distinct_bonus (group_signals meta grp) + sum_list (map fst (tag_bonuses grp))"
  by (simp_all add: correlated_finding_def build_fields group_total_def Let_def)

definition known_type :: "string \<Rightarrow> bool" where
  "known_type t \<longleftrightarrow> is_content_type t \<or> is_heuristic_type t \<or> is_context_type t"

lemma type_classes_disjoint:
  "\<not> (is_content_type t \<and> is_heuristic_type t)" "\<not> (is_content_type t \<and> is_context_type t)"
  "\<not> (is_heuristic_type t \<and> is_context_type t)"
  by (auto simp: is_content_type_def is_heuristic_type_def is_context_type_def)

lemma sum_three_classes:
  fixes w :: "string \<Rightarrow> int"
  assumes "\<forall>t \<in> set ts. known_type t"
  shows "sum_list (map w ts) = sum_list (map w (filter is_content_type ts)) +
    sum_list (map w (filter is_heuristic_type ts)) + sum_list (map w (filter is_context_type ts))"
  using assms
proof (induction ts)
  case (Cons t ts)
  then show ?case using type_classes_disjoint [of t] by (auto simp: known_type_def)
qed simp

lemma contribution_split:
  assumes "\<forall>s \<in> set signals. known_type (ss_SignalType s)"
  shows "contribution signals (\<lambda>t. True) =
    contribution signals is_content_type + contribution signals is_heuristic_type + contribution signals is_context_type"
  using sum_three_classes [of "remdups (map ss_SignalType signals)" "capped_weight signals"] assms
  by (simp add: contribution_def)

lemma contribution_cap:
  assumes "\<And>t. P t \<longleftrightarrow> t \<in> set ts" "\<forall>t \<in> set ts. signalWeightCaps t > 0" "distinct ts"
  shows "contribution signals P \<le> sum_list (map signalWeightCaps ts)"
proof -
  let ?us = "filter P (remdups (map ss_SignalType signals))"
  have "contribution signals P = (\<Sum>t\<in>set ?us. capped_weight signals t)"
    by (simp add: contribution_def sum_list_distinct_conv_sum_set del: set_filter)
  also have "\<dots> \<le> (\<Sum>t\<in>set ?us. signalWeightCaps t)"
    using assms(1,2) by (intro sum_mono) (fastforce simp: capped_weight_def Let_def)
  also have "\<dots> \<le> (\<Sum>t\<in>set ts. signalWeightCaps t)"
    using assms(1,2) by (intro sum_mono2) (auto intro: less_imp_le)
  finally show ?thesis using assms(3) by (simp add: sum_list_distinct_conv_sum_set)
qed

lemma class_caps:
  "contribution signals is_content_type \<le> 82" "contribution signals is_heuristic_type \<le> 38"
  "contribution signals is_context_type \<le> 38"
  using contribution_cap [of is_content_type "[''content'', ''validated'']" signals]
    contribution_cap [of is_heuristic_type "[''filename'', ''extension'']" signals]
    contribution_cap [of is_context_type "[''path'', ''share_priority'', ''planner_priority'']" signals]
  by (auto simp: signalWeightCaps_def is_content_type_def is_heuristic_type_def is_context_type_def)


subsection \<open>The partition into groups\<close>

lemma group_nonempty: "k \<in> set (bucket_keys fs) \<Longrightarrow> group_of fs k \<noteq> []"
  by (auto simp: bucket_keys_def group_of_def filter_empty_conv)

lemma mset_groups: "mset (concat (map (group_of fs) (bucket_keys fs))) = mset fs"
proof -
  have "mset (concat (map (group_of fs) ks)) = filter_mset (\<lambda>f. bucket_key f \<in> set ks) (mset fs)"
    if "distinct ks" for ks
    using that
  proof (induction ks)
    case (Cons k ks)
    have "filter_mset (\<lambda>f. bucket_key f = k \<or> bucket_key f \<in> set ks) (mset fs) =
        filter_mset (\<lambda>f. bucket_key f = k) (mset fs) + filter_mset (\<lambda>f. bucket_key f \<in> set ks) (mset fs)"
      using Cons.prems by (induction fs) auto
    then show ?case using Cons by (simp add: group_of_def)
  qed simp
  then have "mset (concat (map (group_of fs) (bucket_keys fs))) =
      filter_mset (\<lambda>f. bucket_key f \<in> set (bucket_keys fs)) (mset fs)"
    by (simp add: bucket_keys_def)
  also have "\<dots> = filter_mset (\<lambda>f. True) (mset fs)"
    by (rule filter_mset_cong) (auto simp: bucket_keys_def)
  finally show ?thesis by simp
qed

lemma group_category:
  assumes "k \<in> set (bucket_keys fs)"
  shows "bucket_key (selectPrimaryFinding (group_of fs k)) = k"
  using primary_in [OF group_nonempty [OF assms]] by (simp add: group_of_def)

definition one_share :: "Finding list \<Rightarrow> bool" where
  "one_share fs \<longleftrightarrow> (\<forall>f \<in> set fs. \<forall>g \<in> set fs.
     f_Host f = f_Host g \<and> f_Share f = f_Share g)"

lemma correlated_keys_inj:
  assumes "one_share fs"
  shows "inj_on correlated_key ((\<lambda>k. correlateGroup meta (group_of fs k)) ` set (bucket_keys fs))"
proof (rule inj_onI)
  fix a b
  assume "a \<in> (\<lambda>k. correlateGroup meta (group_of fs k)) ` set (bucket_keys fs)"
    and "b \<in> (\<lambda>k. correlateGroup meta (group_of fs k)) ` set (bucket_keys fs)"
    and key: "correlated_key a = correlated_key b"
  then obtain k k' where k: "a = correlateGroup meta (group_of fs k)" "k \<in> set (bucket_keys fs)"
    and k': "b = correlateGroup meta (group_of fs k')" "k' \<in> set (bucket_keys fs)" by blast
  let ?p = "selectPrimaryFinding (group_of fs k)" and ?q = "selectPrimaryFinding (group_of fs k')"
  have "?p \<in> set fs" "?q \<in> set fs"
    using primary_in [OF group_nonempty [OF k(2)]] primary_in [OF group_nonempty [OF k'(2)]]
    by (auto simp: group_of_def)
  then have "f_Host ?p = f_Host ?q \<and> f_Share ?p = f_Share ?q"
    using assms unfolding one_share_def by blast
  then have "f_Host ?p = f_Host ?q" "f_Share ?p = f_Share ?q"
    by blast+
  moreover have "f_Category ?p = f_Category ?q" "f_FilePath ?p = f_FilePath ?q"
    using key k(1) k'(1) by (simp_all add: correlated_key_def correlateGroup_identity)
  ultimately have "bucket_key ?p = bucket_key ?q" by (simp add: bucket_key_def)
  then show "a = b" using group_category k k' by metis
qed

lemma correlate_order_irrelevant:
  assumes "one_share fs" and "mset keys = mset (bucket_keys fs)"
  shows "correlateFindings keys meta fs = correlateFindings (bucket_keys fs) meta fs"
proof -
  let ?g = "\<lambda>k. correlateGroup meta (group_of fs k)"
  have "mset (slice_sort correlated_less (map ?g keys)) = mset (map ?g (bucket_keys fs))"
    unfolding mset_slice_sort mset_map assms(2) ..
  moreover have "inj_on correlated_key (set (map ?g (bucket_keys fs)))"
    by (simp only: set_map correlated_keys_inj [OF assms(1)])
  ultimately have "slice_sort correlated_less (map ?g keys) = slice_sort correlated_less (map ?g (bucket_keys fs))"
    by (rule correlated.injective_unique [OF _ correlated.ordered_wrt])
  then show ?thesis by (simp add: correlateFindings_def)
qed

lemma from_file_correlated:
  assumes "list_all (from_file m) fs" and "mset keys = mset (bucket_keys fs)"
  shows "list_all (from_file m) (correlateFindings keys m fs)"
proof -
  have "from_file m (correlateGroup m (group_of fs k))" if "k \<in> set keys" for k
  proof (rule from_file_group)
    have "k \<in> set (bucket_keys fs)" using that assms(2) by (metis set_mset_mset)
    then have "selectPrimaryFinding (group_of fs k) \<in> set fs"
      using primary_in [OF group_nonempty] by (auto simp: group_of_def)
    then show "from_file m (selectPrimaryFinding (group_of fs k))" using assms(1) by (simp add: list_all_iff)
  qed
  moreover have "set (slice_sort correlated_less xs) = set xs" for xs
    by (metis mset_slice_sort set_mset_mset)
  ultimately show ?thesis by (auto simp: correlateFindings_def list_all_iff)
qed

text \<open>
  C18: Correlation neither loses nor invents findings: the groups partition the findings, there is
  one result for each group with the rule ids of its members, and the results are ordered by
  severity, category and path. When the findings are those of one share, the order in which the map
  of groups is visited does not matter.
\<close>

theorem correlateFindings_partition:
  assumes "mset keys = mset (bucket_keys findings)"
  shows "mset (concat (map (group_of findings) keys)) = mset findings \<and>
    length (correlateFindings keys meta findings) = length (bucket_keys findings) \<and>
    mset (map f_MatchedRuleIDs (correlateFindings keys meta findings)) =
      mset (map (\<lambda>k. uniqueSorted (map f_RuleID (group_of findings k))) keys) \<and>
    sorted_wrt (\<lambda>x y. \<not> correlated_less y x) (correlateFindings keys meta findings) \<and>
    (if one_share findings
     then correlateFindings keys meta findings = correlateFindings (bucket_keys findings) meta findings else True)"
proof (cases "findings = []")
  case True
  then show ?thesis using assms by (simp add: bucket_keys_def correlateFindings_def)
next
  case False
  have p: "mset (map (group_of findings) keys) = mset (map (group_of findings) (bucket_keys findings))"
    using assms by simp
  have "mset (concat xs) = mset (concat ys)" if "mset xs = mset ys" for xs ys :: "Finding list list"
    using that by (metis mset_concat mset_map sum_mset_sum_list)
  with p mset_groups have "mset (concat (map (group_of findings) keys)) = mset findings" by metis
  moreover have "length keys = length (bucket_keys findings)" using assms by (metis size_mset)
  moreover have "mset (map f_MatchedRuleIDs (slice_sort correlated_less
        (map (\<lambda>k. correlateGroup meta (group_of findings k)) keys))) =
      mset (map (\<lambda>k. uniqueSorted (map f_RuleID (group_of findings k))) keys)"
    by (simp add: correlateGroup_identity image_mset.compositionality comp_def)
  ultimately show ?thesis
    using False correlated.ordered_wrt correlate_order_irrelevant [OF _ assms]
    by (simp add: correlateFindings_def)
qed

definition demo_finding :: "string \<Rightarrow> string \<Rightarrow> string \<Rightarrow> Finding" where
  "demo_finding ruleID category severity =
     zero_finding\<lparr>f_RuleID := ruleID, f_Category := category, f_Severity := severity, f_FilePath := ''a.txt''\<rparr>"

definition demo_meta :: FileMetadata where
  "demo_meta = \<lparr>m_FilePath = ''a.txt'', m_Share = [], m_ShareDescription = [], m_ShareType = [], m_Host = [],
      m_Source = [], m_ArchivePath = [], m_ArchiveMemberPath = [], m_ArchiveLocalInspect = False,
      m_Priority = 0, m_PriorityReason = [], m_DFSNamespacePath = [], m_DFSLinkPath = [], m_Size = 1,
      m_ModifiedAt = 0, m_IsDir = False, m_Name = ''a.txt'', m_Extension = ''.txt'', m_SharePriority = 0,
      m_SharePriorityReason = [], m_FromSYSVOL = False, m_FromNETLOGON = False\<rparr>"

theorem correlateFindings_partition_witness:
  "length (correlateFindings [([], [], ''a.txt'', ''crypto''), ([], [], ''a.txt'', ''scripts'')] demo_meta
     [demo_finding ''r1'' ''Scripts'' ''low'', demo_finding ''r2'' ''crypto'' ''high'', demo_finding ''r3'' ''scripts'' ''low'']) = 2"
proof -
  let ?fs = "[demo_finding ''r1'' ''Scripts'' ''low'', demo_finding ''r2'' ''crypto'' ''high'', demo_finding ''r3'' ''scripts'' ''low'']"
  have k: "bucket_keys ?fs = [([], [], ''a.txt'', ''crypto''), ([], [], ''a.txt'', ''scripts'')]" by code_simp
  then have "mset [([], [], ''a.txt'', ''crypto''), ([], [], ''a.txt'', ''scripts'')] = mset (bucket_keys ?fs)" by simp
  from correlateFindings_partition [OF this, where meta = demo_meta] show ?thesis unfolding k by simp
qed

end
