(* ===== verification/Sqlite.thy ===== *)
theory Sqlite
  imports DbInspect
begin

text \<open>
  The package \<open>internal/sqliteinspect\<close>: the bounded sampling of SQLite files. The SQL engine is a
  third-party package; opening a file (through a temporary copy) and running a query are arguments,
  the query being the text the code builds. The assessment of values is the package's own, with the
  entropy of theory ValueQuality.
\<close>

record SQLiteOptions =
  so_Enabled :: bool
  so_AutoDBMaxSize :: int
  so_AllowLargeDBs :: bool
  so_MaxDBSize :: int
  so_MaxTables :: int
  so_MaxRowsPerTable :: int
  so_MaxCellBytes :: int
  so_MaxTotalBytes :: int
  so_MaxInterestingCols :: int

record SQLiteMatch = ArtifactMatch +
  sm_DatabaseTable :: string
  sm_DatabaseColumn :: string
  sm_DatabaseRowContext :: string
  sm_DatabaseFilePath :: string

subsection \<open>Options\<close>

definition no_sqlite_options :: SQLiteOptions where
  "no_sqlite_options = \<lparr>so_Enabled = False, so_AutoDBMaxSize = 0, so_AllowLargeDBs = False, so_MaxDBSize = 0,
     so_MaxTables = 0, so_MaxRowsPerTable = 0, so_MaxCellBytes = 0, so_MaxTotalBytes = 0, so_MaxInterestingCols = 0\<rparr>"

definition positive_or :: "int \<Rightarrow> int \<Rightarrow> int" where
  "positive_or v d = (if v \<le> 0 then d else v)"

definition sqlite_resolveOptions :: "SQLiteOptions \<Rightarrow> SQLiteOptions" where
  "sqlite_resolveOptions opts0 =
     (let opts = (if opts0 = no_sqlite_options then opts0\<lparr>so_Enabled := True\<rparr> else opts0);
          auto = positive_or (so_AutoDBMaxSize opts) (5 * 1024 * 1024)
      in opts\<lparr>so_AutoDBMaxSize := auto,
              so_MaxDBSize := positive_or (so_MaxDBSize opts) auto,
              so_MaxTables := positive_or (so_MaxTables opts) 8,
              so_MaxRowsPerTable := positive_or (so_MaxRowsPerTable opts) 5,
              so_MaxCellBytes := positive_or (so_MaxCellBytes opts) 256,
              so_MaxTotalBytes := positive_or (so_MaxTotalBytes opts) (16 * 1024),
              so_MaxInterestingCols := positive_or (so_MaxInterestingCols opts) 4\<rparr>)"

definition sqlite_normalizedExtension :: "string \<Rightarrow> string" where
  "sqlite_normalizedExtension ext =
     (if ext = [] then [] else to_lower (if \<not> has_prefix ext ''.'' then ''.'' @ ext else ext))"

definition isSQLiteCandidateExtension :: "string \<Rightarrow> bool" where
  "isSQLiteCandidateExtension ext =
     (sqlite_normalizedExtension ext \<in> set [''.sqlite'', ''.sqlite3'', ''.db'', ''.db3''])"

definition sqlite_ShouldInspect :: "ArtifactCandidate \<Rightarrow> SQLiteOptions \<Rightarrow> bool \<times> string" where
  "sqlite_ShouldInspect candidate opts0 =
     (let opts = sqlite_resolveOptions opts0; ext = sqlite_normalizedExtension (cd_Extension candidate)
      in if \<not> isSQLiteCandidateExtension ext then (False, [])
         else if \<not> so_Enabled opts then (False, ''sqlite inspection disabled'')
         else if so_AutoDBMaxSize opts > 0 \<and> cd_Size candidate \<le> so_AutoDBMaxSize opts then (True, [])
         else if \<not> so_AllowLargeDBs opts then
           (if so_AutoDBMaxSize opts > 0
            then (False, ''sqlite database exceeds automatic inspection limit of '' @ itoa (so_AutoDBMaxSize opts) @ '' bytes'')
            else (False, ''sqlite inspection requires an explicit database size limit''))
         else if so_MaxDBSize opts > 0 \<and> cd_Size candidate > so_MaxDBSize opts then
           (False, ''sqlite database exceeds configured inspection limit of '' @ itoa (so_MaxDBSize opts) @ '' bytes'')
         else (True, []))"

definition hasSQLiteHeader :: "string \<Rightarrow> bool" where
  "hasSQLiteHeader content = has_prefix content (''SQLite format 3'' @ [CHR 0x00])"

subsection \<open>Names of tables and columns\<close>

definition interestingTableTokens :: "string list" where
  "interestingTableTokens = [''user'', ''account'', ''credential'', ''secret'', ''token'', ''session'', ''config'', ''setting'']"

definition interestingColumnTokens :: "string list" where
  "interestingColumnTokens = [''password'', ''passwd'', ''pwd'', ''secret'', ''token'', ''api_key'', ''apikey'',
     ''connection_string'', ''connstr'', ''dsn'', ''db_url'', ''database_url'']"

definition contextColumnTokens :: "string list" where
  "contextColumnTokens = [''user'', ''username'', ''email'', ''account'', ''name'']"

definition token_score :: "int \<Rightarrow> string list \<Rightarrow> string \<Rightarrow> int" where
  "token_score weight tokens lower = weight * int (length (filter (contains lower) tokens))"

definition tablePriority :: "string \<Rightarrow> int" where
  "tablePriority name =
     (let lower = to_lower (trim_space name); score = token_score 3 interestingTableTokens lower
      in if score = 0 \<and> has_prefix lower ''sqlite_'' then - 1 else score)"

definition columnPriority :: "string \<Rightarrow> int" where
  "columnPriority name = token_score 4 interestingColumnTokens (to_lower (trim_space name))"

definition isContextColumn :: "string \<Rightarrow> bool" where
  "isContextColumn name = list_ex (contains (to_lower (trim_space name))) contextColumnTokens"

definition quoteIdent :: "string \<Rightarrow> string" where
  "quoteIdent name = dq @ replace_char CHR 0x22 (dq @ dq) name @ dq"

definition compositePath :: "string \<Rightarrow> string \<Rightarrow> string \<Rightarrow> string" where
  "compositePath filePath table column =
     (let location = trim_space table @ (if trim_space column \<noteq> [] then ''.'' @ trim_space column else [])
      in if location = [] then filePath else trim_space filePath @ ''::'' @ location)"

definition baseFilePath :: "string \<Rightarrow> string" where
  "baseFilePath path = (case index_of path ''::'' of Some idx \<Rightarrow> take idx path | None \<Rightarrow> path)"

definition fileBase :: "string \<Rightarrow> string" where
  "fileBase path = path_base (baseFilePath path)"

definition trimValue :: "string \<Rightarrow> int \<Rightarrow> string" where
  "trimValue v0 mx =
     (let v = trim_space v0
      in if mx \<le> 0 \<or> int (length v) \<le> mx then v else trim_space (take (nat mx) v))"

record namedScore =
  ns_Name :: string
  ns_Score :: int

definition named_less :: "namedScore \<Rightarrow> namedScore \<Rightarrow> bool" where
  "named_less a b =
     (if ns_Score a = ns_Score b then to_lower (ns_Name a) < to_lower (ns_Name b) else ns_Score a > ns_Score b)"

definition sortNamedScores :: "namedScore list \<Rightarrow> namedScore list" where
  "sortNamedScores items = slice_sort named_less items"

definition limit_to :: "int \<Rightarrow> 'a list \<Rightarrow> 'a list" where
  "limit_to limit xs = (if limit > 0 \<and> int (length xs) > limit then take (nat limit) xs else xs)"

definition splitInterestingColumns :: "string list \<Rightarrow> int \<Rightarrow> string list \<times> string list" where
  "splitInterestingColumns columns maxInteresting =
     (let prioritized = map (\<lambda>c. \<lparr>ns_Name = c, ns_Score = columnPriority c\<rparr>) (filter (\<lambda>c. columnPriority c > 0) columns);
          ctx = take 2 (filter (\<lambda>c. \<not> columnPriority c > 0 \<and> isContextColumn c) columns)
      in (map ns_Name (limit_to maxInteresting (sortNamedScores prioritized)), ctx))"

subsection \<open>The quality of a value\<close>

definition sqlite_isPlaceholderValue :: "string \<Rightarrow> bool" where
  "sqlite_isPlaceholderValue value0 =
     (let v = to_lower (trim_space (trim_set value0 quotes))
      in if v = [] then True
         else if has_prefix v ''<'' \<and> has_suffix v ''>'' then True
         else if has_prefix v ''${'' \<and> has_suffix v ''}'' then True
         else if has_prefix v ''{'' \<and> has_suffix v ''}'' then True
         else if v \<in> set [''password'', ''secret'', ''token'', ''username'', ''server'', ''database''] then True
         else list_ex (contains v) [''changeme'', ''placeholder'', ''replace_me'', ''replace-me'', ''example'', ''sample'', ''test''])"

definition sqlite_isCommonWeakValue :: "string \<Rightarrow> bool" where
  "sqlite_isCommonWeakValue v =
     (let normalized = to_lower (trim_space (trim_set v quotes))
      in if normalized = [] then True
         else
           let collapsed = collapseAlphaNum normalized
           in if collapsed = [] then True
              else list_ex (\<lambda>base. collapsed = base \<or>
                     (has_prefix collapsed base \<and> digitsOnly (trim_prefix collapsed base))) weakValueBases)"

definition weak_quality :: "int \<Rightarrow> string \<Rightarrow> valueQuality" where
  "weak_quality score reason = \<lparr>vq_Score = score, vq_Label = ''low'', vq_Reason = reason, vq_Weak = True, vq_Strong = False\<rparr>"

definition sqlite_assessSensitiveValueQuality :: "string \<Rightarrow> valueQuality" where
  "sqlite_assessSensitiveValueQuality v =
     (let trimmed = trim_space (trim_set v quotes)
      in if trimmed = [] then weak_quality 0 ''value was empty after trimming''
         else if sqlite_isPlaceholderValue trimmed \<or> sqlite_isCommonWeakValue trimmed
           then weak_quality 1 ''value looks like a placeholder or common sample credential''
         else if length trimmed < 8 then weak_quality 2 ''value is shorter than a plausible credential or secret''
         else
           let entropy = shannonEntropy trimmed; classes = characterClassCount trimmed; uniq = uniqueRuneCount trimmed
           in if uniq \<le> 2 then weak_quality 2 ''value has too little variation to look usable''
              else if entropy < 18 / 10 \<or> (entropy < 24 / 10 \<and> classes < 2)
                then weak_quality 3 ''value has low entropy and limited character diversity''
              else if length trimmed \<ge> 14 \<and> uniq \<ge> 6 \<and> (classes \<ge> 3 \<or> entropy \<ge> 32 / 10)
                then \<lparr>vq_Score = 18, vq_Label = ''high'',
                      vq_Reason = ''value is long and has strong entropy or character diversity'', vq_Weak = False, vq_Strong = True\<rparr>
              else if length trimmed \<ge> 10 \<and> uniq \<ge> 5 \<and> (classes \<ge> 2 \<or> entropy \<ge> 27 / 10)
                then \<lparr>vq_Score = 12, vq_Label = ''medium'',
                      vq_Reason = ''value has plausible length and diversity for a real credential or secret'', vq_Weak = False, vq_Strong = False\<rparr>
              else \<lparr>vq_Score = 8, vq_Label = ''medium'',
                      vq_Reason = ''value looks plausible, but only has moderate strength indicators'', vq_Weak = False, vq_Strong = False\<rparr>)"

text \<open>The comparisons with the entropy on integers, for evaluation.\<close>

lemma entropy_tests:
  "shannonEntropy v < 18 / 10 \<longleftrightarrow> entropy_below v 9 5" "shannonEntropy v < 24 / 10 \<longleftrightarrow> entropy_below v 12 5"
  "shannonEntropy v \<ge> 32 / 10 \<longleftrightarrow> \<not> entropy_below v 16 5" "shannonEntropy v \<ge> 27 / 10 \<longleftrightarrow> \<not> entropy_below v 27 10"
  by (simp_all add: entropy_below_iff not_less)

lemmas sqlite_quality_code [code] = sqlite_assessSensitiveValueQuality_def [unfolded Let_def entropy_tests]

subsection \<open>The database\<close>

datatype cell = CellNull | CellText string | CellBlob string | CellOther string

text \<open>A query gives its rows, or fails.\<close>

type_synonym sqlite_db = "string \<Rightarrow> cell list list option"

text \<open>\<open>Scan\<close> into a string converts everything but NULL.\<close>

fun scan_string :: "cell \<Rightarrow> string option" where
  "scan_string CellNull = None"
| "scan_string (CellText s) = Some s"
| "scan_string (CellBlob s) = Some s"
| "scan_string (CellOther s) = Some s"

definition apostrophe :: string where "apostrophe = [CHR 0x27]"

definition tables_query :: string where
  "tables_query = ''SELECT name FROM sqlite_master WHERE type='' @ apostrophe @ ''table'' @ apostrophe @
     '' AND name NOT LIKE '' @ apostrophe @ ''sqlite_%'' @ apostrophe"

definition columns_query :: "string \<Rightarrow> string" where
  "columns_query table = ''PRAGMA table_info('' @ quoteIdent table @ '')''"

definition tableColumns :: "sqlite_db \<Rightarrow> string \<Rightarrow> string list option" where
  "tableColumns db table =
     (case db (columns_query table) of
        None \<Rightarrow> None
      | Some rows \<Rightarrow> Some (concat (map (\<lambda>row. case row of
          [cid, name, typ, notnull, dfltValue, pk] \<Rightarrow> (case scan_string name of Some n \<Rightarrow> [n] | None \<Rightarrow> [])
        | _ \<Rightarrow> []) rows)))"

record tableSchema =
  ts_Name :: string
  ts_Columns :: "string list"
  ts_Score :: int

definition table_less :: "tableSchema \<Rightarrow> tableSchema \<Rightarrow> bool" where
  "table_less a b =
     (if ts_Score a = ts_Score b then to_lower (ts_Name a) < to_lower (ts_Name b) else ts_Score a > ts_Score b)"

definition table_of_row :: "sqlite_db \<Rightarrow> cell list \<Rightarrow> tableSchema list" where
  "table_of_row db row =
     (case row of
        [c] \<Rightarrow>
          (case scan_string c of
             None \<Rightarrow> []
           | Some name \<Rightarrow>
               let score = tablePriority name
               in if score \<le> 0 then []
                  else case tableColumns db name of
                         None \<Rightarrow> []
                       | Some columns \<Rightarrow>
                           if length columns = 0 then []
                           else [\<lparr>ts_Name = name, ts_Columns = columns, ts_Score = score\<rparr>])
      | _ \<Rightarrow> [])"

definition interestingTables :: "sqlite_db \<Rightarrow> int \<Rightarrow> tableSchema list option" where
  "interestingTables db limit =
     (case db tables_query of
        None \<Rightarrow> None
      | Some rows \<Rightarrow> Some (limit_to limit (slice_sort table_less (concat (map (table_of_row db) rows)))))"

subsection \<open>Cells\<close>

definition normalizeCellValue :: "cell \<Rightarrow> int \<Rightarrow> string option" where
  "normalizeCellValue raw maxBytes =
     (case raw of
        CellNull \<Rightarrow> None
      | CellText v \<Rightarrow> (let trimmed = trimValue v maxBytes in if trim_space trimmed = [] then None else Some trimmed)
      | CellBlob v \<Rightarrow> (let t = trim_space v in if t = [] then None else Some (trimValue t maxBytes))
      | CellOther s \<Rightarrow> None)"

definition buildRowContext :: "string list \<Rightarrow> cell list \<Rightarrow> string list \<Rightarrow> int \<Rightarrow> string" where
  "buildRowContext columns cells contextSet maxCellBytes =
     join '', '' (slice_sort (<) (concat (map (\<lambda>(column, c).
       if column \<notin> set contextSet then []
       else case normalizeCellValue c maxCellBytes of
              None \<Rightarrow> [] | Some v \<Rightarrow> [trim_space column @ ''='' @ v]) (zip columns cells))))"

definition formatSQLiteContext :: "string \<Rightarrow> string \<Rightarrow> string \<Rightarrow> string" where
  "formatSQLiteContext table column rowContext =
     join LF ([''SQLite table: '' @ trim_space table, ''Column: '' @ trim_space column] @
       (if trim_space rowContext \<noteq> [] then [''Row context: '' @ trim_space rowContext] else []))"

fun unique_loop :: "string list \<Rightarrow> string list \<Rightarrow> string list" where
  "unique_loop seen [] = []"
| "unique_loop seen (v # vs) =
     (let trimmed = trim_space v; key = to_lower trimmed
      in if trimmed = [] then unique_loop seen vs
         else if key \<in> set seen then unique_loop seen vs
         else trimmed # unique_loop (key # seen) vs)"

definition uniqueStrings :: "string list \<Rightarrow> string list" where
  "uniqueStrings vs = slice_sort (<) (unique_loop [] vs)"

definition connection_column :: "string \<Rightarrow> bool" where
  "connection_column columnName =
     list_ex (contains columnName) [''connection'', ''dsn'', ''db_url'', ''database_url'']"

definition cell_match :: "string \<Rightarrow> string \<Rightarrow> string \<Rightarrow> string \<Rightarrow> string \<Rightarrow> int \<Rightarrow> SQLiteMatch" where
  "cell_match filePath table column v rowContext maxCellBytes =
     \<lparr>am_ID = [], am_Name = [], am_Description = [], am_RuleType = ''content'', am_SignalType = ''validated'',
      am_Severity = [], am_Confidence = [], am_Category = [], am_Match = compositePath filePath table column,
      am_MatchedText = v, am_MatchedTextRedacted = v,
      am_Snippet = compositePath filePath table column @ '' -> '' @ trimValue v maxCellBytes,
      am_Context = formatSQLiteContext table column rowContext,
      am_ContextRedacted = formatSQLiteContext table column rowContext, am_LineNumber = 0,
      am_Explanation = [], am_Remediation = [], am_Tags = [], sm_DatabaseTable = table, sm_DatabaseColumn = column,
      sm_DatabaseRowContext = rowContext, sm_DatabaseFilePath = filePath\<rparr>"

definition matchForCell ::
  "unicode_tables \<Rightarrow> charmap list \<Rightarrow> url_parser \<Rightarrow> SQLiteOptions \<Rightarrow> ArtifactCandidate \<Rightarrow> string \<Rightarrow> string \<Rightarrow> string \<Rightarrow> string \<Rightarrow> SQLiteMatch list" where
  "matchForCell ut charmaps up opts candidate table column v rowContext =
     (let filePath = baseFilePath (cd_FilePath candidate);
          quality = sqlite_assessSensitiveValueQuality v;
          columnName = to_lower (trim_space column);
          base = cell_match filePath table column v rowContext (so_MaxCellBytes opts)
      in if connection_column columnName then
           map (\<lambda>dbMatch. base\<lparr>
               am_ID := ''sqliteinspect.access.connection_string'',
               am_Name := ''SQLite-Stored Database Access Detail'',
               am_Description := ''A SQLite column contained a validated database connection string or DSN.'',
               am_Severity := am_Severity dbMatch, am_Confidence := ''high'', am_Category := am_Category dbMatch,
               am_Explanation := ''This finding comes from a validated connection string or DSN stored in a bounded sample from a SQLite database.'',
               am_Remediation := ''Remove embedded connection material from local SQLite stores, rotate exposed database credentials, and review why secrets were persisted in the application database.'',
               am_Tags := uniqueStrings ([''database'', ''sqlite'', ''db:type:sqlite-row'', ''db:type:config-credential''] @ am_Tags dbMatch)\<rparr>)
             (DBInspectContent ut charmaps up
               \<lparr>cd_FilePath = filePath, cd_Name = fileBase filePath,
                cd_Extension = sqlite_normalizedExtension (cd_Extension candidate), cd_Size = cd_Size candidate\<rparr> v)
         else if vq_Weak quality then []
         else [base\<lparr>
               am_ID := ''sqliteinspect.credentials.sensitive_value'',
               am_Name := ''SQLite-Stored Sensitive Value'',
               am_Description := ''A bounded SQLite row sample contained a high-signal credential, token, or secret value in an interesting column.'',
               am_Severity := (if vq_Strong quality then ''high'' else ''medium''),
               am_Confidence := (if vq_Strong quality then ''high'' else ''medium''),
               am_Category := ''credentials'',
               am_Explanation := ''This finding comes from a bounded SQLite table/column sample and only promotes values that look usable rather than placeholders.'',
               am_Remediation := ''Remove embedded secrets from local SQLite databases, rotate exposed values, and review the application path that persisted the secret.'',
               am_Tags := [''database'', ''sqlite'', ''db:type:sqlite-row'', ''value-quality:'' @ vq_Label quality]\<rparr>])"

subsection \<open>Sampling a table\<close>

definition rows_query :: "string \<Rightarrow> string list \<Rightarrow> int \<Rightarrow> string" where
  "rows_query table selectColumns maxRows =
     ''SELECT '' @ join '', '' (map quoteIdent selectColumns) @ '' FROM '' @ quoteIdent table @
     '' LIMIT '' @ itoa (if maxRows > 0 then maxRows else 1)"

text \<open>The cells of interest of a row; the loop over them stops the table when the limit is passed.\<close>

fun cell_loop ::
  "(string \<Rightarrow> string \<Rightarrow> SQLiteMatch list) \<Rightarrow> SQLiteOptions \<Rightarrow> (string \<times> cell) list \<Rightarrow> int \<Rightarrow> SQLiteMatch list \<Rightarrow> bool \<times> int \<times> SQLiteMatch list" where
  "cell_loop matches opts [] totalBytes out = (False, totalBytes, out)"
| "cell_loop matches opts ((column, c) # rest) totalBytes out =
     (case normalizeCellValue c (so_MaxCellBytes opts) of
        None \<Rightarrow> cell_loop matches opts rest totalBytes out
      | Some v \<Rightarrow>
          let used = totalBytes + int (length v)
          in if so_MaxTotalBytes opts > 0 \<and> used > so_MaxTotalBytes opts then (True, used, out)
             else cell_loop matches opts rest used (out @ matches column v))"

fun row_loop ::
  "(string \<Rightarrow> string \<Rightarrow> string \<Rightarrow> SQLiteMatch list) \<Rightarrow> SQLiteOptions \<Rightarrow> string list \<Rightarrow> string list \<Rightarrow> string list \<Rightarrow> cell list list \<Rightarrow> int \<Rightarrow> SQLiteMatch list \<Rightarrow> SQLiteMatch list \<times> int" where
  "row_loop matches opts selectColumns interesting contextSet [] totalBytes out = (out, totalBytes)"
| "row_loop matches opts selectColumns interesting contextSet (row # rows) totalBytes out =
     (if length row \<noteq> length selectColumns then row_loop matches opts selectColumns interesting contextSet rows totalBytes out
      else
        let contextSummary = buildRowContext selectColumns row contextSet (so_MaxCellBytes opts)
        in case cell_loop (\<lambda>column v. matches column v contextSummary) opts
               (filter (\<lambda>(column, c). column \<in> set interesting) (zip selectColumns row)) totalBytes out of
             (stop, used, out') \<Rightarrow>
               if stop then (out', used)
               else row_loop matches opts selectColumns interesting contextSet rows used out')"

definition inspectTable ::
  "unicode_tables \<Rightarrow> charmap list \<Rightarrow> url_parser \<Rightarrow> SQLiteOptions \<Rightarrow> sqlite_db \<Rightarrow> ArtifactCandidate \<Rightarrow> string \<Rightarrow> string list \<Rightarrow> string list \<Rightarrow> SQLiteMatch list \<times> int" where
  "inspectTable ut charmaps up opts db candidate table interestingColumns contextColumns =
     (let selectColumns = interestingColumns @ contextColumns
      in case db (rows_query table selectColumns (so_MaxRowsPerTable opts)) of
           None \<Rightarrow> ([], 0)
         | Some rows \<Rightarrow>
             row_loop (\<lambda>column v ctx. matchForCell ut charmaps up opts candidate table column v ctx)
               opts selectColumns interestingColumns contextColumns rows 0 [])"

subsection \<open>Inspecting a file\<close>

definition sqlite_key :: "SQLiteMatch \<Rightarrow> string" where
  "sqlite_key m = to_lower (am_ID m @ ''::'' @ sm_DatabaseTable m @ ''::'' @ sm_DatabaseColumn m @ ''::'' @ am_Match m)"

definition add_unseen :: "SQLiteMatch list \<Rightarrow> SQLiteMatch \<Rightarrow> SQLiteMatch list" where
  "add_unseen matches m = (if sqlite_key m \<in> set (map sqlite_key matches) then matches else matches @ [m])"

fun table_loop ::
  "(tableSchema \<Rightarrow> string list \<Rightarrow> string list \<Rightarrow> SQLiteMatch list \<times> int) \<Rightarrow> SQLiteOptions \<Rightarrow> tableSchema list \<Rightarrow> int \<Rightarrow> SQLiteMatch list \<Rightarrow> SQLiteMatch list" where
  "table_loop inspect opts [] totalBytes matches = matches"
| "table_loop inspect opts (table # tables) totalBytes matches =
     (case splitInterestingColumns (ts_Columns table) (so_MaxInterestingCols opts) of
        (interesting, ctx) \<Rightarrow>
          if length interesting = 0 then table_loop inspect opts tables totalBytes matches
          else
            case inspect table interesting ctx of
              (tableMatches, consumed) \<Rightarrow>
                let used = totalBytes + consumed; matches' = foldl add_unseen matches tableMatches
                in if so_MaxTotalBytes opts > 0 \<and> used \<ge> so_MaxTotalBytes opts then matches'
                   else table_loop inspect opts tables used matches')"

text \<open>\<open>sq_open\<close>: writing the temporary copy and opening it.\<close>

definition SQLiteInspectContent ::
  "unicode_tables \<Rightarrow> charmap list \<Rightarrow> url_parser \<Rightarrow> (string \<Rightarrow> sqlite_db option) \<Rightarrow> SQLiteOptions \<Rightarrow> ArtifactCandidate \<Rightarrow> string \<Rightarrow> SQLiteMatch list" where
  "SQLiteInspectContent ut charmaps up sq_open opts candidate content =
     (if \<not> fst (sqlite_ShouldInspect candidate opts) \<or> length content = 0 \<or> \<not> hasSQLiteHeader content then []
      else case sq_open content of
             None \<Rightarrow> []
           | Some db \<Rightarrow>
               (case interestingTables db (so_MaxTables opts) of
                  None \<Rightarrow> []
                | Some tables \<Rightarrow>
                    if length tables = 0 then []
                    else table_loop (\<lambda>table interesting ctx.
                        inspectTable ut charmaps up opts db candidate (ts_Name table) interesting ctx) opts tables 0 []))"

definition SQLiteNeedsContent :: "SQLiteOptions \<Rightarrow> ArtifactCandidate \<Rightarrow> bool" where
  "SQLiteNeedsContent opts candidate = fst (sqlite_ShouldInspect candidate opts)"

subsection \<open>Bounds on what is reported\<close>

lemma length_trim_space: "length (trim_space s) \<le> length s"
proof -
  have "length (dropWhile P xs) \<le> length xs" for P and xs :: string by (rule length_dropWhile_le)
  then have "length (dropWhile is_space (rev (dropWhile is_space s))) \<le> length s"
    by (metis length_rev order_trans)
  then show ?thesis by (simp add: trim_space_def trim_by_def)
qed

lemma trimValue_length: "0 < mx \<Longrightarrow> int (length (trimValue v mx)) \<le> mx"
  using length_trim_space [of "take (nat mx) (trim_space v)"]
  by (auto simp: trimValue_def Let_def)

lemma cell_value_length: "normalizeCellValue c mx = Some v \<Longrightarrow> 0 < mx \<Longrightarrow> int (length v) \<le> mx"
  by (auto simp: normalizeCellValue_def Let_def trimValue_length split: cell.splits if_splits)

text \<open>The key of a match is that of its column: the identifier depends on the column's name.\<close>

definition column_id :: "string \<Rightarrow> string" where
  "column_id column =
     (if connection_column (to_lower (trim_space column)) then ''sqliteinspect.access.connection_string''
      else ''sqliteinspect.credentials.sensitive_value'')"

definition column_key :: "string \<Rightarrow> string \<Rightarrow> string \<Rightarrow> string" where
  "column_key filePath table column =
     to_lower (column_id column @ ''::'' @ table @ ''::'' @ column @ ''::'' @ compositePath filePath table column)"

definition cell_ok :: "SQLiteOptions \<Rightarrow> string \<Rightarrow> string \<Rightarrow> string list \<Rightarrow> SQLiteMatch \<Rightarrow> bool" where
  "cell_ok opts filePath table columns m \<longleftrightarrow>
     sqlite_key m \<in> column_key filePath table ` set columns \<and> int (length (am_MatchedText m)) \<le> so_MaxCellBytes opts"

lemma matchForCell_ok:
  assumes "int (length v) \<le> so_MaxCellBytes opts" and "column \<in> set columns"
    and "m \<in> set (matchForCell ut charmaps up opts candidate table column v ctx)"
  shows "cell_ok opts (baseFilePath (cd_FilePath candidate)) table columns m"
  using assms
  by (auto simp: matchForCell_def cell_ok_def sqlite_key_def column_key_def column_id_def cell_match_def Let_def
      split: if_splits)

lemma cell_loop_ok:
  assumes "\<And>column v m. column \<in> set columns \<Longrightarrow> int (length v) \<le> so_MaxCellBytes opts \<Longrightarrow> m \<in> set (matches column v) \<Longrightarrow> P m"
    and "0 < so_MaxCellBytes opts" and "\<forall>(column, c) \<in> set cells. column \<in> set columns" and "list_all P out"
  shows "list_all P (snd (snd (cell_loop matches opts cells n out)))"
  using assms(3,4)
proof (induction cells arbitrary: n out)
  case (Cons cc cells)
  obtain column c where cc: "cc = (column, c)" by (cases cc)
  show ?case
  proof (cases "normalizeCellValue c (so_MaxCellBytes opts)")
    case (Some v)
    then have "int (length v) \<le> so_MaxCellBytes opts" using assms(2) by (rule cell_value_length)
    then have "list_all P (out @ matches column v)"
      using assms(1) Cons.prems cc by (auto simp: list_all_iff)
    then show ?thesis using Cons Some cc by (auto simp: Let_def)
  qed (use Cons cc in auto)
qed simp

lemma row_loop_ok:
  assumes "\<And>column v ctx m. column \<in> set columns \<Longrightarrow> int (length v) \<le> so_MaxCellBytes opts \<Longrightarrow> m \<in> set (matches column v ctx) \<Longrightarrow> P m"
    and "0 < so_MaxCellBytes opts" and "list_all P out"
  shows "list_all P (fst (row_loop matches opts selected columns ctxs rows n out))"
  using assms(3)
proof (induction rows arbitrary: n out)
  case (Cons row rows)
  define r where "r = cell_loop (\<lambda>column v. matches column v (buildRowContext selected row ctxs (so_MaxCellBytes opts))) opts
    (filter (\<lambda>(column, c). column \<in> set columns) (zip selected row)) n out"
  have "list_all P (snd (snd r))"
    unfolding r_def by (rule cell_loop_ok [where columns = columns]) (use assms(1,2) Cons.prems in auto)
  then show ?case
    using Cons by (auto simp: Let_def r_def [symmetric] split: prod.splits)
qed simp

lemma inspectTable_ok:
  assumes "0 < so_MaxCellBytes opts"
  shows "list_all (cell_ok opts (baseFilePath (cd_FilePath candidate)) table interesting)
    (fst (inspectTable ut charmaps up opts db candidate table interesting ctxs))"
proof -
  have "list_all (cell_ok opts (baseFilePath (cd_FilePath candidate)) table interesting)
      (fst (row_loop (\<lambda>column v ctx. matchForCell ut charmaps up opts candidate table column v ctx)
         opts selected interesting ctxs rows 0 []))" for selected rows
    by (rule row_loop_ok [where columns = interesting]) (use assms matchForCell_ok in auto)
  then show ?thesis by (simp add: inspectTable_def Let_def split: option.split)
qed

text \<open>The keys of interest of the tables.\<close>

definition table_keys :: "SQLiteOptions \<Rightarrow> string \<Rightarrow> tableSchema list \<Rightarrow> string list" where
  "table_keys opts filePath tables =
     concat (map (\<lambda>t. map (column_key filePath (ts_Name t)) (fst (splitInterestingColumns (ts_Columns t) (so_MaxInterestingCols opts)))) tables)"

definition report_ok :: "SQLiteOptions \<Rightarrow> string set \<Rightarrow> SQLiteMatch list \<Rightarrow> bool" where
  "report_ok opts keys ms \<longleftrightarrow>
     distinct (map sqlite_key ms) \<and> sqlite_key ` set ms \<subseteq> keys \<and>
     list_all (\<lambda>m. int (length (am_MatchedText m)) \<le> so_MaxCellBytes opts) ms"

lemma add_unseen_ok:
  "report_ok opts keys ms \<Longrightarrow> list_all (\<lambda>m. sqlite_key m \<in> keys \<and> int (length (am_MatchedText m)) \<le> so_MaxCellBytes opts) new \<Longrightarrow>
   report_ok opts keys (foldl add_unseen ms new)"
proof (induction new arbitrary: ms)
  case (Cons m new)
  then have "report_ok opts keys (add_unseen ms m)"
    by (auto simp: report_ok_def add_unseen_def)
  then show ?case using Cons by simp
qed simp

lemma table_loop_ok:
  assumes "0 < so_MaxCellBytes opts" and "report_ok opts keys ms" and "set (table_keys opts (baseFilePath (cd_FilePath candidate)) tables) \<subseteq> keys"
  shows "report_ok opts keys (table_loop (\<lambda>table interesting ctx.
      inspectTable ut charmaps up opts db candidate (ts_Name table) interesting ctx) opts tables n ms)"
  using assms(2,3)
proof (induction tables arbitrary: n ms)
  case (Cons table tables)
  obtain interesting ctxs where sp: "splitInterestingColumns (ts_Columns table) (so_MaxInterestingCols opts) = (interesting, ctxs)"
    by (cases "splitInterestingColumns (ts_Columns table) (so_MaxInterestingCols opts)")
  obtain new consumed where it: "inspectTable ut charmaps up opts db candidate (ts_Name table) interesting ctxs = (new, consumed)"
    by (cases "inspectTable ut charmaps up opts db candidate (ts_Name table) interesting ctxs")
  have keys: "column_key (baseFilePath (cd_FilePath candidate)) (ts_Name table) ` set interesting \<subseteq> keys"
    and rest: "set (table_keys opts (baseFilePath (cd_FilePath candidate)) tables) \<subseteq> keys"
    using Cons.prems(2) sp by (auto simp: table_keys_def)
  have "list_all (\<lambda>m. sqlite_key m \<in> keys \<and> int (length (am_MatchedText m)) \<le> so_MaxCellBytes opts) new"
    using inspectTable_ok [OF assms(1), of candidate "ts_Name table" interesting ut charmaps up db ctxs] it keys
    by (auto simp: list_all_iff cell_ok_def)
  then have "report_ok opts keys (foldl add_unseen ms new)"
    using Cons.prems(1) by (rule add_unseen_ok [rotated])
  then show ?case using Cons sp it rest by (simp add: Let_def)
qed simp

lemma limit_to_length: "0 < n \<Longrightarrow> int (length (limit_to n xs)) \<le> n"
  by (auto simp: limit_to_def)

lemma table_keys_length:
  assumes "0 < so_MaxInterestingCols opts"
  shows "int (length (table_keys opts filePath tables)) \<le> so_MaxInterestingCols opts * int (length tables)"
proof (induction tables)
  case (Cons t ts)
  have "int (length (fst (splitInterestingColumns (ts_Columns t) (so_MaxInterestingCols opts)))) \<le> so_MaxInterestingCols opts"
    using limit_to_length [OF assms] by (simp add: splitInterestingColumns_def Let_def)
  then show ?case using Cons by (simp add: table_keys_def algebra_simps)
qed (simp add: table_keys_def)

lemma SQLiteInspectContent_tables:
  "SQLiteInspectContent ut charmaps up sq_open opts candidate content = [] \<or>
   (\<exists>db tables. sq_open content = Some db \<and> interestingTables db (so_MaxTables opts) = Some tables \<and>
      SQLiteInspectContent ut charmaps up sq_open opts candidate content =
        table_loop (\<lambda>table interesting ctx.
          inspectTable ut charmaps up opts db candidate (ts_Name table) interesting ctx) opts tables 0 [])"
  unfolding SQLiteInspectContent_def
  by (cases "sq_open content"; cases "interestingTables (the (sq_open content)) (so_MaxTables opts)") simp_all

text \<open>
  C40: What the SQLite inspection reports is bounded by its options, whatever the database answers:
  at most one match for each column of interest, so at most as many as tables times columns allowed,
  and no text longer than the limit for a cell.
\<close>

theorem sqlite_report_bounded:
  assumes "0 < so_MaxCellBytes opts" "0 < so_MaxTables opts" "0 < so_MaxInterestingCols opts"
  shows "let ms = SQLiteInspectContent ut charmaps up sq_open opts candidate content in
    distinct (map sqlite_key ms) \<and>
    int (length ms) \<le> so_MaxTables opts * so_MaxInterestingCols opts \<and>
    list_all (\<lambda>m. int (length (am_MatchedText m)) \<le> so_MaxCellBytes opts) ms"
proof -
  let ?ms = "SQLiteInspectContent ut charmaps up sq_open opts candidate content"
  have p: "0 \<le> so_MaxTables opts * so_MaxInterestingCols opts" using assms by simp
  consider "?ms = []" | db tables where "interestingTables db (so_MaxTables opts) = Some tables"
      "?ms = table_loop (\<lambda>table interesting ctx.
         inspectTable ut charmaps up opts db candidate (ts_Name table) interesting ctx) opts tables 0 []"
    using SQLiteInspectContent_tables [of ut charmaps up sq_open opts candidate content] by blast
  then show ?thesis
  proof cases
    case 2
    define keys where "keys = table_keys opts (baseFilePath (cd_FilePath candidate)) tables"
    have r: "report_ok opts (set keys) ?ms"
      unfolding 2(2) by (rule table_loop_ok [OF assms(1)]) (simp_all add: report_ok_def keys_def)
    have "length ?ms = card (set (map sqlite_key ?ms))"
      using r by (simp only: report_ok_def distinct_card length_map)
    also have "\<dots> \<le> length keys"
      using r by (metis report_ok_def List.finite_set card_length card_mono list.set_map order_trans)
    finally have "int (length ?ms) \<le> int (length keys)" by simp
    also have "\<dots> \<le> so_MaxInterestingCols opts * int (length tables)"
      unfolding keys_def by (rule table_keys_length [OF assms(3)])
    also have "\<dots> \<le> so_MaxInterestingCols opts * so_MaxTables opts"
      using 2(1) limit_to_length [OF assms(2)] assms(3)
      by (intro mult_left_mono) (auto simp: interestingTables_def split: option.splits)
    finally show ?thesis using r by (simp add: report_ok_def mult.commute)
  qed (use p in simp)
qed

text \<open>A database of two tables, each with one row.\<close>

definition two_tables :: sqlite_db where
  "two_tables q =
     (if q = tables_query then Some [[CellText ''users''], [CellText ''accounts'']]
      else if q = columns_query ''users'' \<or> q = columns_query ''accounts'' then
        Some [[CellOther ''0'', CellText ''password'', CellText ''TEXT'', CellOther ''0'', CellNull, CellOther ''0'']]
      else if q = rows_query ''users'' [''password''] 5 then Some [[CellText ''Kx7-pQ2v'']]
      else if q = rows_query ''accounts'' [''password''] 5 then Some [[CellText ''Zt5uWn8Y'']]
      else None)"

definition ten_bytes :: SQLiteOptions where
  "ten_bytes = sqlite_resolveOptions (no_sqlite_options\<lparr>so_Enabled := True, so_MaxTotalBytes := 10\<rparr>)"

definition sqlite_candidate :: ArtifactCandidate where
  "sqlite_candidate = \<lparr>cd_FilePath = ''app.db'', cd_Name = ''app.db'', cd_Extension = ''.db'', cd_Size = 4096\<rparr>"

definition sqlite_file :: string where
  "sqlite_file = ''SQLite format 3'' @ [CHR 0x00]"

text \<open>Each table is held to the limit on its own, so two tables pass it together.\<close>

lemma two_tables_reported:
  "map am_MatchedText (SQLiteInspectContent ut charmaps up (\<lambda>_. Some two_tables) ten_bytes sqlite_candidate sqlite_file) =
     [''Zt5uWn8Y'', ''Kx7-pQ2v'']"
  by code_simp

lemma sqlite_total_exceeded:
  "int (sum_list (map (\<lambda>m. length (am_MatchedText m))
     (SQLiteInspectContent ut charmaps up (\<lambda>_. Some two_tables) ten_bytes sqlite_candidate sqlite_file))) > so_MaxTotalBytes ten_bytes"
proof -
  have "map (\<lambda>m. length (am_MatchedText m))
      (SQLiteInspectContent ut charmaps up (\<lambda>_. Some two_tables) ten_bytes sqlite_candidate sqlite_file) = [8, 8]"
    using arg_cong [OF two_tables_reported [of ut charmaps up], of "map length"] by (simp add: comp_def)
  moreover have "so_MaxTotalBytes ten_bytes = 10" by code_simp
  ultimately show ?thesis by simp
qed

text \<open>What is called redacted in a match of a cell is the cell's plain value.\<close>

lemma sqlite_match_unredacted:
  "m \<in> set (matchForCell ut charmaps up opts candidate table column v ctx) \<Longrightarrow> am_MatchedTextRedacted m = v"
  by (auto simp: matchForCell_def cell_match_def Let_def split: if_splits)

lemma sqlite_report_bounded_witness:
  "let ms = SQLiteInspectContent (undefined :: unicode_tables) [] (\<lambda>_. None) (\<lambda>_. Some two_tables) ten_bytes sqlite_candidate sqlite_file in
    distinct (map sqlite_key ms) \<and>
    int (length ms) \<le> so_MaxTables ten_bytes * so_MaxInterestingCols ten_bytes \<and>
    list_all (\<lambda>m. int (length (am_MatchedText m)) \<le> so_MaxCellBytes ten_bytes) ms"
proof -
  have "0 < so_MaxCellBytes ten_bytes" "0 < so_MaxTables ten_bytes" "0 < so_MaxInterestingCols ten_bytes"
    by code_simp+
  then show ?thesis by (rule sqlite_report_bounded)
qed

end
