(* ===== verification/Artifacts.thy ===== *)
theory Artifacts
  imports Correlation Sqlite
begin

text \<open>
  From the matches of the artifact inspectors to findings: the files \<open>awsinspect.go\<close>,
  \<open>backupinspect.go\<close>, \<open>browsercredinspect.go\<close>, \<open>dbinspect.go\<close>, \<open>keyinspect.go\<close>, \<open>sqliteinspect.go\<close> and
  \<open>wincredinspect.go\<close> of \<open>internal/scanner\<close>, and what they take back of a finding that only names an
  artifact.
\<close>

subsection \<open>Candidates\<close>

definition awsCandidate :: "FileMetadata \<Rightarrow> ArtifactCandidate" where
  "awsCandidate meta =
     \<lparr>cd_FilePath = m_FilePath meta, cd_Name = m_Name meta, cd_Extension = m_Extension meta, cd_Size = m_Size meta\<rparr>"

definition browserCredCandidate :: "FileMetadata \<Rightarrow> ArtifactCandidate" where
  "browserCredCandidate meta =
     \<lparr>cd_FilePath = m_FilePath meta, cd_Name = m_Name meta, cd_Extension = m_Extension meta, cd_Size = m_Size meta\<rparr>"

definition backupCandidate :: "FileMetadata \<Rightarrow> ArtifactCandidate" where
  "backupCandidate meta =
     \<lparr>cd_FilePath = m_FilePath meta, cd_Name = m_Name meta, cd_Extension = m_Extension meta, cd_Size = m_Size meta\<rparr>"

definition dbCandidate :: "FileMetadata \<Rightarrow> ArtifactCandidate" where
  "dbCandidate meta =
     \<lparr>cd_FilePath = m_FilePath meta, cd_Name = m_Name meta, cd_Extension = m_Extension meta, cd_Size = m_Size meta\<rparr>"

definition keyCandidate :: "FileMetadata \<Rightarrow> ArtifactCandidate" where
  "keyCandidate meta =
     \<lparr>cd_FilePath = m_FilePath meta, cd_Name = m_Name meta, cd_Extension = m_Extension meta, cd_Size = m_Size meta\<rparr>"

definition sqliteCandidate :: "FileMetadata \<Rightarrow> ArtifactCandidate" where
  "sqliteCandidate meta =
     \<lparr>cd_FilePath = m_FilePath meta, cd_Name = m_Name meta, cd_Extension = m_Extension meta, cd_Size = m_Size meta\<rparr>"

definition winCredCandidate :: "FileMetadata \<Rightarrow> ArtifactCandidate" where
  "winCredCandidate meta =
     \<lparr>cd_FilePath = m_FilePath meta, cd_Name = m_Name meta, cd_Extension = m_Extension meta, cd_Size = m_Size meta\<rparr>"

subsection \<open>Rules and findings\<close>

definition match_rule :: "string \<Rightarrow> 'a ArtifactMatch_scheme \<Rightarrow> Rule" where
  "match_rule ruleType match =
     \<lparr>r_ID = trim_space (am_ID match), r_Name = trim_space (am_Name match),
      r_Description = trim_space (am_Description match), r_Type = ruleType, r_Pattern = [], r_CaseSensitive = False,
      r_Severity = trim_space (am_Severity match), r_Confidence = trim_space (am_Confidence match),
      r_Explanation = trim_space (am_Explanation match), r_Remediation = trim_space (am_Remediation match),
      r_Tags = am_Tags match, r_Category = trim_space (am_Category match), r_Enabled = False,
      r_IncludePaths = [], r_ExcludePaths = [], r_FileExtensions = [], r_MaxFileSize = 0, r_Action = [],
      r_SourceFile = [], r_FileName = [], r_index = 0, r_unknown = [], r_compiled = None\<rparr>"

text \<open>The type of the rule when the match names it: content unless it is a file name or an extension.\<close>

definition match_rule_type :: "'a ArtifactMatch_scheme \<Rightarrow> string" where
  "match_rule_type match =
     (let t = to_lower (trim_space (am_RuleType match))
      in if t = ''filename'' then RuleTypeFilename else if t = ''extension'' then RuleTypeExtension else RuleTypeContent)"

definition ruleFromAWSMatch :: "ArtifactMatch \<Rightarrow> Rule" where
  "ruleFromAWSMatch match = match_rule (match_rule_type match) match"

definition ruleFromDBMatch :: "ArtifactMatch \<Rightarrow> Rule" where
  "ruleFromDBMatch match = match_rule (match_rule_type match) match"

definition ruleFromKeyMatch :: "ArtifactMatch \<Rightarrow> Rule" where
  "ruleFromKeyMatch match = match_rule (match_rule_type match) match"

definition ruleFromSQLiteMatch :: "SQLiteMatch \<Rightarrow> Rule" where
  "ruleFromSQLiteMatch match = match_rule (match_rule_type match) match"

definition ruleFromBrowserCredMatch :: "ArtifactMatch \<Rightarrow> Rule" where
  "ruleFromBrowserCredMatch match = match_rule RuleTypeFilename match"

definition ruleFromBackupMatch :: "ArtifactMatch \<Rightarrow> Rule" where
  "ruleFromBackupMatch match = match_rule RuleTypeFilename match"

definition ruleFromWinCredMatch :: "ArtifactMatch \<Rightarrow> Rule" where
  "ruleFromWinCredMatch match = match_rule RuleTypeFilename match"

definition match_evidence :: "'a ArtifactMatch_scheme \<Rightarrow> findingEvidence" where
  "match_evidence match =
     \<lparr>ev_SignalType = trim_space (am_SignalType match), ev_Match = trim_space (am_Match match),
      ev_MatchedText = am_MatchedText match, ev_MatchedTextRedacted = am_MatchedTextRedacted match,
      ev_Snippet = am_Snippet match, ev_Context = am_Context match, ev_ContextRedacted = am_ContextRedacted match,
      ev_PotentialAccount = [], ev_LineNumber = am_LineNumber match\<rparr>"

definition add_path_signal :: "string \<Rightarrow> Finding \<Rightarrow> Finding" where
  "add_path_signal reason f =
     f\<lparr>f_SupportingSignals := f_SupportingSignals f @ [\<lparr>ss_SignalType = ''path'', ss_RuleID = [], ss_RuleName = [],
          ss_Match = [], ss_Confidence = [], ss_Weight = baseSignalWeight ''path'', ss_Reason = reason\<rparr>],
       f_MatchedSignalTypes := orderedSignalTypes (uniqueSorted (f_MatchedSignalTypes f @ [''path'']))\<rparr>"

definition awsArtifactKind :: "string \<Rightarrow> string \<times> bool" where
  "awsArtifactKind path =
     (case AWSInspectMetadata \<lparr>cd_FilePath = path, cd_Name = [], cd_Extension = [], cd_Size = 0\<rparr> of
        [match] \<Rightarrow>
          let matchID = to_lower (trim_space (am_ID match))
          in if matchID = ''awsinspect.path.credentials'' then (''credentials'', True)
             else if matchID = ''awsinspect.path.config'' then (''config'', True)
             else ([], False)
      | _ \<Rightarrow> ([], False))"

definition finding_from_aws :: "FileMetadata \<Rightarrow> ArtifactMatch \<Rightarrow> Finding" where
  "finding_from_aws meta match =
     (let finding0 = newFinding (ruleFromAWSMatch match) meta (match_evidence match);
          ruleID = to_lower (trim_space (am_ID match));
          finding1 =
            (if has_prefix ruleID ''awsinspect.path.'' then
               let f = add_path_signal ''path matched an exact AWS shared profile artifact under a normalized .aws directory'' finding0
               in if trim_space (f_MatchReason f) = []
                  then f\<lparr>f_MatchReason := ''path matched an exact AWS shared-profile artifact.''\<rparr> else f
             else finding0)
      in if ruleID = ''awsinspect.content.credentials_bundle'' \<and> fst (awsArtifactKind (m_FilePath meta)) = ''credentials'' then
           add_path_signal ''validated credential material came from an exact AWS shared credentials artifact path'' finding1
         else finding1)"

definition findingsFromAWSMatches :: "FileMetadata \<Rightarrow> ArtifactMatch list \<Rightarrow> Finding list" where
  "findingsFromAWSMatches meta matches = map (finding_from_aws meta) matches"

definition findingsFromBrowserCredMatches :: "FileMetadata \<Rightarrow> ArtifactMatch list \<Rightarrow> Finding list" where
  "findingsFromBrowserCredMatches meta matches =
     map (\<lambda>match. add_path_signal ''path matched an exact browser profile credential-store family such as Firefox Profiles or Chromium User Data''
           ((newFinding (ruleFromBrowserCredMatch match) meta (match_evidence match))
             \<lparr>f_MatchReason := ''path matched an exact browser credential-store artifact covered by the built-in artifact inspector.''\<rparr>)) matches"

definition findingsFromBackupMatches :: "FileMetadata \<Rightarrow> ArtifactMatch list \<Rightarrow> Finding list" where
  "findingsFromBackupMatches meta matches =
     map (\<lambda>match. add_path_signal ''path matched an exact backup or copied system-state family such as WindowsImageBackup, System Volume Information, RegBack, or Windows repair''
           ((newFinding (ruleFromBackupMatch match) meta (match_evidence match))
             \<lparr>f_MatchReason := ''path matched an exact backup or system-state storage family covered by the built-in artifact inspector.''\<rparr>)) matches"

definition findingsFromWinCredMatches :: "FileMetadata \<Rightarrow> ArtifactMatch list \<Rightarrow> Finding list" where
  "findingsFromWinCredMatches meta matches =
     map (\<lambda>match. add_path_signal ''path matched an exact Windows credential-store family under AppData/Microsoft''
           ((newFinding (ruleFromWinCredMatch match) meta (match_evidence match))
             \<lparr>f_MatchReason := ''path matched an exact Windows credential-store location covered by the built-in artifact inspector.''\<rparr>)) matches"

definition findingsFromDBMatches :: "FileMetadata \<Rightarrow> ArtifactMatch list \<Rightarrow> Finding list" where
  "findingsFromDBMatches meta matches =
     map (\<lambda>match. newFinding (ruleFromDBMatch match) meta (match_evidence match)) matches"

definition findingsFromKeyMatches :: "FileMetadata \<Rightarrow> ArtifactMatch list \<Rightarrow> Finding list" where
  "findingsFromKeyMatches meta matches =
     map (\<lambda>match. newFinding (ruleFromKeyMatch match) meta (match_evidence match)) matches"

definition finding_from_sqlite :: "FileMetadata \<Rightarrow> SQLiteMatch \<Rightarrow> Finding" where
  "finding_from_sqlite meta match =
     (let finding0 = newFinding (ruleFromSQLiteMatch match) meta (match_evidence match);
          filePath = trim_space (am_Match match);
          finding1 = (if filePath \<noteq> [] then finding0\<lparr>f_FilePath := filePath\<rparr> else finding0)
      in finding1\<lparr>f_DatabaseFilePath := trim_space (sm_DatabaseFilePath match),
                  f_DatabaseTable := trim_space (sm_DatabaseTable match),
                  f_DatabaseColumn := trim_space (sm_DatabaseColumn match),
                  f_DatabaseRowContext := trim_space (sm_DatabaseRowContext match)\<rparr>)"

definition findingsFromSQLiteMatches :: "FileMetadata \<Rightarrow> SQLiteMatch list \<Rightarrow> Finding list" where
  "findingsFromSQLiteMatches meta matches = map (finding_from_sqlite meta) matches"

subsection \<open>Findings that only name an artifact\<close>

definition downgraded :: "string \<Rightarrow> Finding \<Rightarrow> Finding" where
  "downgraded reason f =
     (let score = (if f_ConfidenceScore f > 34 then 34 else f_ConfidenceScore f);
          b = f_ConfidenceBreakdown f
      in f\<lparr>f_TriageClass := triageWeakReview, f_Actionable := False, f_Correlated := False,
           f_Severity := (if findingSeverityRank (f_Severity f) > findingSeverityRank ''medium'' then ''medium'' else f_Severity f),
           f_ConfidenceScore := score,
           f_Confidence := (if trim_space (f_Confidence f) = [] \<or> confidenceRank (f_Confidence f) > confidenceRank ''medium''
                            then ''medium'' else f_Confidence f),
           f_ConfidenceReasons := appendUniqueReason (f_ConfidenceReasons f) reason,
           f_ConfidenceBreakdown := b\<lparr>cb_TriageAdjustment := score - cb_BaseScore b, cb_FinalScore := score\<rparr>\<rparr>)"

definition downgradeAWSArtifactFinding :: "Finding \<Rightarrow> string \<Rightarrow> Finding" where
  "downgradeAWSArtifactFinding f ruleID =
     downgraded (if ruleID = ''awsinspect.path.credentials''
       then ''AWS shared credentials artifact was identified without credential material and is retained as supporting context''
       else ''AWS shared config was identified without credential material and is retained as supporting context'') f"

definition adjustAWSArtifactVisibility :: "Finding list \<Rightarrow> Finding list" where
  "adjustAWSArtifactVisibility findings =
     map (\<lambda>f. let ruleID = to_lower (trim_space (f_RuleID f))
            in if ruleID = ''awsinspect.path.config'' \<or> ruleID = ''awsinspect.path.credentials''
               then downgradeAWSArtifactFinding f ruleID else f) findings"

definition downgradeBrowserArtifactFinding :: "Finding \<Rightarrow> Finding" where
  "downgradeBrowserArtifactFinding f =
     downgraded ''browser credential-store artifact was identified without decryption or direct credential extraction'' f"

definition adjustBrowserArtifactVisibility :: "Finding list \<Rightarrow> Finding list" where
  "adjustBrowserArtifactVisibility findings =
     map (\<lambda>f. if \<not> has_prefix (to_lower (trim_space (f_RuleID f))) ''browsercredinspect.'' then f
             else if equal_fold (trim_space (f_SignalType f)) ''correlation'' then f
             else downgradeBrowserArtifactFinding f) findings"

subsection \<open>Visibility\<close>

definition names_artifact :: "Finding \<Rightarrow> bool" where
  "names_artifact f \<longleftrightarrow>
     to_lower (trim_space (f_RuleID f)) \<in> {''awsinspect.path.config'', ''awsinspect.path.credentials''} \<or>
     (has_prefix (to_lower (trim_space (f_RuleID f))) ''browsercredinspect.'' \<and>
      \<not> equal_fold (trim_space (f_SignalType f)) ''correlation'')"

definition weak_finding :: "Finding \<Rightarrow> bool" where
  "weak_finding f \<longleftrightarrow>
     f_TriageClass f = triageWeakReview \<and> \<not> f_Actionable f \<and> \<not> f_Correlated f \<and>
     findingSeverityRank (f_Severity f) \<le> 2 \<and> f_ConfidenceScore f \<le> 34 \<and> confidenceRank (f_Confidence f) \<le> 2 \<and>
     cb_FinalScore (f_ConfidenceBreakdown f) = f_ConfidenceScore f"

lemma downgraded_weak: "weak_finding (downgraded reason f)"
  by (auto simp: weak_finding_def downgraded_def Let_def)

lemma downgraded_keeps [simp]:
  "f_RuleID (downgraded reason f) = f_RuleID f" "f_SignalType (downgraded reason f) = f_SignalType f"
  "f_Host (downgraded reason f) = f_Host f" "f_Share (downgraded reason f) = f_Share f"
  "f_ConfidenceReasons (downgraded reason f) = appendUniqueReason (f_ConfidenceReasons f) reason"
  by (simp_all add: downgraded_def Let_def)

text \<open>
  A finding that only names a credential store is never reported as more than worth a review: it is not
  actionable, at most medium and at most 34 points, with its score recorded; every other finding
  is passed on as it is.
\<close>

theorem artifact_visibility:
  "list_all2 (\<lambda>f g. if names_artifact f then weak_finding g \<and> f_RuleID g = f_RuleID f else g = f)
     findings (adjustBrowserArtifactVisibility (adjustAWSArtifactVisibility findings))"
proof (induction findings)
  case (Cons f fs)
  then show ?case
    by (simp add: adjustAWSArtifactVisibility_def adjustBrowserArtifactVisibility_def names_artifact_def
        downgradeAWSArtifactFinding_def downgradeBrowserArtifactFinding_def downgraded_weak Let_def)
qed (simp add: adjustAWSArtifactVisibility_def adjustBrowserArtifactVisibility_def)

end
