(* ===== verification/Archive.thy ===== *)
theory Archive
  imports GoPath TextDecode "HOL-Library.Word"
begin

text \<open>
  The package \<open>internal/archiveinspect\<close>: which archives are opened, and which members of a ZIP, TAR
  or Office Open XML file are read, within the configured limits. Sizes are signed 64-bit integers,
  kept as words, since a ZIP declares its member sizes as unsigned ones. The readers of the archive
  formats and of XML (\<open>archive/zip\<close>, \<open>archive/tar\<close>, \<open>compress/gzip\<close>, \<open>encoding/xml\<close>) are an argument:
  they give the entries in order, and for an entry the bytes it decompresses to, which need not be as
  many as it declares, and whether reading them ends in an error.
\<close>

type_synonym int64 = "64 word"

definition len64 :: "string \<Rightarrow> int64" where "len64 s = of_nat (length s)"

record ArchiveOptions =
  ao_Enabled :: bool
  ao_AutoZIPMaxSize :: int64
  ao_AllowLargeZIPs :: bool
  ao_MaxZIPSize :: int64
  ao_AutoTARMaxSize :: int64
  ao_AllowLargeTARs :: bool
  ao_MaxTARSize :: int64
  ao_MaxMembers :: int
  ao_MaxMemberBytes :: int64
  ao_MaxTotalUncompressed :: int64
  ao_InspectExtensionlessText :: bool

record ArchiveCandidate =
  ac_Name :: string
  ac_Extension :: string
  ac_Size :: int64

record Member =
  mb_Path :: string
  mb_Name :: string
  mb_Extension :: string
  mb_Size :: int64
  mb_Content :: string

record ArchiveResult =
  ar_Inspected :: bool
  ar_InspectedLocally :: bool
  ar_SkipReason :: string
  ar_Members :: "Member list"

subsection \<open>Which files are archives, and which are opened\<close>

definition ResolveArchiveExtension :: "string \<Rightarrow> string \<Rightarrow> string \<Rightarrow> string" where
  "ResolveArchiveExtension name filePath ext =
     (let lowerName = to_lower (trim_space (slashes name));
          lowerPath = to_lower (trim_space (slashes filePath))
      in if has_suffix lowerName ''.tar.gz'' \<or> has_suffix lowerPath ''.tar.gz'' then ''.tar.gz''
         else if has_suffix lowerName ''.tgz'' \<or> has_suffix lowerPath ''.tgz'' then ''.tgz''
         else to_lower (trim_space ext))"

definition isOfficeOpenXMLExtension :: "string \<Rightarrow> bool" where
  "isOfficeOpenXMLExtension ext = (to_lower (trim_space ext) \<in> set [''.docx'', ''.xlsx'', ''.pptx''])"

definition isSupportedArchiveExtension :: "string \<Rightarrow> bool" where
  "isSupportedArchiveExtension ext =
     (if isOfficeOpenXMLExtension ext then True
      else to_lower (trim_space ext) \<in> set [''.zip'', ''.tar'', ''.tar.gz'', ''.tgz''])"

definition ShouldInspect :: "ArchiveCandidate \<Rightarrow> ArchiveOptions \<Rightarrow> bool \<times> string" where
  "ShouldInspect candidate opts =
     (let resolvedExt = ResolveArchiveExtension (ac_Name candidate) '''' (ac_Extension candidate)
      in if \<not> isSupportedArchiveExtension resolvedExt then (False, '''')
         else if \<not> ao_Enabled opts then (False, ''archive inspection disabled'')
         else if resolvedExt \<in> set [''.zip'', ''.docx'', ''.xlsx'', ''.pptx''] then
           (if 0 <s ao_AutoZIPMaxSize opts \<and> ac_Size candidate <=s ao_AutoZIPMaxSize opts then (True, '''')
            else if \<not> ao_AllowLargeZIPs opts then
              (if 0 <s ao_AutoZIPMaxSize opts
               then (False, ''zip exceeds automatic inspection limit of '' @ itoa (sint (ao_AutoZIPMaxSize opts)) @ '' bytes'')
               else (False, ''zip inspection requires an explicit archive size limit''))
            else if 0 <s ao_MaxZIPSize opts \<and> ao_MaxZIPSize opts <s ac_Size candidate then
              (False, ''zip exceeds configured inspection limit of '' @ itoa (sint (ao_MaxZIPSize opts)) @ '' bytes'')
            else (True, ''''))
         else if resolvedExt \<in> set [''.tar'', ''.tar.gz'', ''.tgz''] then
           (if 0 <s ao_AutoTARMaxSize opts \<and> ac_Size candidate <=s ao_AutoTARMaxSize opts then (True, '''')
            else if \<not> ao_AllowLargeTARs opts then
              (if 0 <s ao_AutoTARMaxSize opts
               then (False, ''tar archive exceeds automatic inspection limit of '' @ itoa (sint (ao_AutoTARMaxSize opts)) @ '' bytes'')
               else (False, ''tar inspection requires an explicit archive size limit''))
            else if 0 <s ao_MaxTARSize opts \<and> ao_MaxTARSize opts <s ac_Size candidate then
              (False, ''tar archive exceeds configured inspection limit of '' @ itoa (sint (ao_MaxTARSize opts)) @ '' bytes'')
            else (True, ''''))
         else (False, ''''))"

subsection \<open>Which members are read\<close>

definition isAllowedOfficeMember :: "string \<Rightarrow> string \<Rightarrow> bool" where
  "isAllowedOfficeMember outerExtension memberPath0 =
     (let memberPath = to_lower (trim_space (slashes memberPath0))
      in if outerExtension = ''.docx'' then
           memberPath = ''word/document.xml'' \<or> memberPath = ''docprops/core.xml'' \<or>
           memberPath = ''docprops/custom.xml'' \<or>
           (has_prefix memberPath ''word/header'' \<and> has_suffix memberPath ''.xml'') \<or>
           (has_prefix memberPath ''word/footer'' \<and> has_suffix memberPath ''.xml'')
         else if outerExtension = ''.xlsx'' then
           memberPath = ''xl/sharedstrings.xml'' \<or> memberPath = ''docprops/core.xml'' \<or>
           memberPath = ''docprops/custom.xml'' \<or>
           (has_prefix memberPath ''xl/worksheets/'' \<and> has_suffix memberPath ''.xml'')
         else if outerExtension = ''.pptx'' then
           memberPath = ''docprops/core.xml'' \<or> memberPath = ''docprops/custom.xml'' \<or>
           (has_prefix memberPath ''ppt/slides/'' \<and> has_suffix memberPath ''.xml'')
         else False)"

definition shouldInspectMember :: "string \<Rightarrow> string \<Rightarrow> string \<Rightarrow> ArchiveOptions \<Rightarrow> string list \<Rightarrow> bool" where
  "shouldInspectMember outerExtension memberPath memberExt opts allowedExtensions =
     (let outer = to_lower (trim_space outerExtension)
      in if outer \<in> set [''.docx'', ''.xlsx'', ''.pptx''] then
           (if memberExt \<noteq> ''.xml'' then False else isAllowedOfficeMember outer memberPath)
         else if memberExt \<in> set allowedExtensions \<and> memberExt \<noteq> [] then True
         else memberExt = [] \<and> ao_InspectExtensionlessText opts)"

definition cleanedArchivePath :: "string \<Rightarrow> string" where
  "cleanedArchivePath name =
     (let cleaned = path_clean (slashes (trim_space name)) in trim_prefix cleaned ''./'')"

definition driveLetterPath :: "string \<Rightarrow> bool" where
  "driveLetterPath s = (case s of c # d # _ \<Rightarrow> is_letter c \<and> d = CHR '':'' | _ \<Rightarrow> False)"

definition isSuspiciousArchivePath :: "string \<Rightarrow> bool" where
  "isSuspiciousArchivePath name =
     (let cleaned = cleanedArchivePath name
      in if cleaned = ''.'' \<or> cleaned = ''..'' then True
         else if has_prefix cleaned ''/'' \<or> has_prefix cleaned ''../'' then True
         else driveLetterPath cleaned)"

definition isNestedArchive :: "string \<Rightarrow> bool" where
  "isNestedArchive name =
     (if ResolveArchiveExtension (path_base name) name (path_ext name) \<in>
           set [''.zip'', ''.tar'', ''.tar.gz'', ''.tgz''] then True
      else to_lower (path_ext name) \<in> set [''.7z'', ''.rar'', ''.gz'', ''.bz2'', ''.xz''])"

subsection \<open>Readers\<close>

record byte_stream =
  bs_data :: string
  bs_fails :: bool

text \<open>\<open>io.ReadAll(io.LimitReader(r, n))\<close>.\<close>

definition read_limited :: "byte_stream \<Rightarrow> int64 \<Rightarrow> string option" where
  "read_limited r n =
     (if n <=s 0 then Some []
      else if sint n \<le> int (length (bs_data r)) then Some (take (nat (sint n)) (bs_data r))
      else if bs_fails r then None else Some (bs_data r))"

record zip_file =
  zf_Name :: string
  zf_IsDir :: bool
  zf_Flags :: "16 word"
  zf_UncompressedSize64 :: int64
  zf_Open :: "byte_stream option"

record tar_header =
  th_Name :: string
  th_IsDir :: bool
  th_Regular :: bool
  th_Size :: int64
  th_Body :: byte_stream

datatype tar_next = TarHeader tar_header | TarFailure string

record archive_library =
  al_zip :: "string \<Rightarrow> string + zip_file list"
  al_tar :: "string \<Rightarrow> tar_next list"
  al_gzip :: "string \<Rightarrow> string + tar_next list"
  al_chardata :: "string \<Rightarrow> string list"

definition extractOfficeXMLText :: "archive_library \<Rightarrow> string \<Rightarrow> string" where
  "extractOfficeXMLText al data =
     (let lines = filter (\<lambda>text0. text0 \<noteq> []) (map trim_space (al_chardata al data))
      in if length lines = 0 then [] else join LF lines @ LF)"

definition isEncrypted :: "zip_file \<Rightarrow> bool" where
  "isEncrypted file = (and (zf_Flags file) 1 \<noteq> 0)"

subsection \<open>The loops over the members\<close>

definition read_limit :: "ArchiveOptions \<Rightarrow> int64 \<Rightarrow> int64" where
  "read_limit opts memberSize =
     (let readLimit0 = (if 0 <s ao_MaxMemberBytes opts \<and> ao_MaxMemberBytes opts <s memberSize
                        then ao_MaxMemberBytes opts else memberSize)
      in if readLimit0 <=s 0 then memberSize else readLimit0)"

definition new_member :: "string \<Rightarrow> string \<Rightarrow> Member" where
  "new_member name data =
     (let cleanedPath = cleanedArchivePath name; memberName = path_base cleanedPath
      in \<lparr>mb_Path = cleanedPath, mb_Name = memberName, mb_Extension = to_lower (path_ext memberName),
          mb_Size = len64 data, mb_Content = data\<rparr>)"

text \<open>What the loop does with one entry: stop, skip it, or report a member.\<close>

datatype visit = Stop | Skip | Report string

definition visit_zip ::
  "unicode_tables \<Rightarrow> charmap list \<Rightarrow> archive_library \<Rightarrow> string \<Rightarrow> ArchiveOptions \<Rightarrow> string list \<Rightarrow> int64 \<Rightarrow> zip_file \<Rightarrow> visit" where
  "visit_zip ut charmaps al outerExtension opts allowedExtensions totalBytes file =
     (if zf_IsDir file then Skip
      else if isEncrypted file \<or> isSuspiciousArchivePath (zf_Name file) \<or> isNestedArchive (zf_Name file) then Skip
      else
        let memberSize = zf_UncompressedSize64 file
        in if 0 <s ao_MaxMemberBytes opts \<and> ao_MaxMemberBytes opts <s memberSize then Skip
           else if 0 <s ao_MaxTotalUncompressed opts \<and> ao_MaxTotalUncompressed opts <s totalBytes + memberSize then Stop
           else
             let cleanedPath = cleanedArchivePath (zf_Name file);
                 memberExt = to_lower (path_ext (path_base cleanedPath))
             in if \<not> shouldInspectMember outerExtension cleanedPath memberExt opts allowedExtensions then Skip
                else
                  case zf_Open file of
                    None \<Rightarrow> Skip
                  | Some rc \<Rightarrow>
                      case read_limited rc (read_limit opts memberSize + 1) of
                        None \<Rightarrow> Skip
                      | Some data \<Rightarrow>
                          if 0 <s ao_MaxMemberBytes opts \<and> ao_MaxMemberBytes opts <s len64 data then Skip
                          else if \<not> LooksLikeText ut charmaps data then Skip
                          else
                            let extracted = extractOfficeXMLText al data
                            in Report (if isOfficeOpenXMLExtension outerExtension \<and> memberExt = ''.xml'' \<and> length extracted > 0
                                       then extracted else data))"

fun zip_loop ::
  "(int64 \<Rightarrow> zip_file \<Rightarrow> visit) \<Rightarrow> ArchiveOptions \<Rightarrow> zip_file list \<Rightarrow> int64 \<Rightarrow> int \<Rightarrow> Member list" where
  "zip_loop visit opts [] totalBytes inspectedMembers = []"
| "zip_loop visit opts (file # files) totalBytes inspectedMembers =
     (if ao_MaxMembers opts > 0 \<and> inspectedMembers \<ge> ao_MaxMembers opts then []
      else
        case visit totalBytes file of
          Stop \<Rightarrow> []
        | Skip \<Rightarrow> zip_loop visit opts files totalBytes inspectedMembers
        | Report data \<Rightarrow>
            new_member (zf_Name file) data #
            zip_loop visit opts files (totalBytes + len64 data) (inspectedMembers + 1))"

definition InspectZIP ::
  "unicode_tables \<Rightarrow> charmap list \<Rightarrow> archive_library \<Rightarrow> string \<Rightarrow> string \<Rightarrow> ArchiveOptions \<Rightarrow> string list \<Rightarrow> string + ArchiveResult" where
  "InspectZIP ut charmaps al content outerExtension opts allowedExtensions =
     (case al_zip al content of
        Inl err \<Rightarrow> Inl (''parse zip: '' @ err)
      | Inr files \<Rightarrow>
          Inr \<lparr>ar_Inspected = True, ar_InspectedLocally = True, ar_SkipReason = [],
               ar_Members = zip_loop (visit_zip ut charmaps al outerExtension opts allowedExtensions) opts files 0 0\<rparr>)"

definition visit_tar ::
  "unicode_tables \<Rightarrow> charmap list \<Rightarrow> string \<Rightarrow> ArchiveOptions \<Rightarrow> string list \<Rightarrow> int64 \<Rightarrow> tar_header \<Rightarrow> visit" where
  "visit_tar ut charmaps outerExtension opts allowedExtensions totalBytes header =
     (if th_IsDir header \<or> \<not> th_Regular header then Skip
      else if isSuspiciousArchivePath (th_Name header) \<or> isNestedArchive (th_Name header) then Skip
      else
        let memberSize = th_Size header
        in if memberSize <s 0 then Skip
           else if 0 <s ao_MaxMemberBytes opts \<and> ao_MaxMemberBytes opts <s memberSize then Skip
           else if 0 <s ao_MaxTotalUncompressed opts \<and> ao_MaxTotalUncompressed opts <s totalBytes + memberSize then Stop
           else
             let cleanedPath = cleanedArchivePath (th_Name header);
                 memberExt = to_lower (path_ext (path_base cleanedPath));
                 readLimit = (if 0 <s ao_MaxMemberBytes opts \<and> ao_MaxMemberBytes opts <s memberSize
                              then ao_MaxMemberBytes opts else memberSize)
             in if \<not> shouldInspectMember outerExtension cleanedPath memberExt opts allowedExtensions then Skip
                else
                  case read_limited (th_Body header) (readLimit + 1) of
                    None \<Rightarrow> Skip
                  | Some data \<Rightarrow>
                      if 0 <s ao_MaxMemberBytes opts \<and> ao_MaxMemberBytes opts <s len64 data then Skip
                      else if \<not> LooksLikeText ut charmaps data then Skip
                      else Report data)"

fun tar_loop ::
  "(int64 \<Rightarrow> tar_header \<Rightarrow> visit) \<Rightarrow> ArchiveOptions \<Rightarrow> tar_next list \<Rightarrow> int64 \<Rightarrow> int \<Rightarrow> Member list \<Rightarrow> string + Member list" where
  "tar_loop visit opts [] totalBytes inspectedMembers members = Inr members"
| "tar_loop visit opts (entry # entries) totalBytes inspectedMembers members =
     (if ao_MaxMembers opts > 0 \<and> inspectedMembers \<ge> ao_MaxMembers opts then Inr members
      else
        case entry of
          TarFailure err \<Rightarrow> Inl (''read tar entry: '' @ err)
        | TarHeader header \<Rightarrow>
            (case visit totalBytes header of
               Stop \<Rightarrow> Inr members
             | Skip \<Rightarrow> tar_loop visit opts entries totalBytes inspectedMembers members
             | Report data \<Rightarrow>
                 tar_loop visit opts entries (totalBytes + len64 data) (inspectedMembers + 1)
                   (members @ [new_member (th_Name header) data])))"

definition newTARReader :: "archive_library \<Rightarrow> string \<Rightarrow> string \<Rightarrow> string + tar_next list" where
  "newTARReader al content outerExtension =
     (let outer = to_lower (trim_space outerExtension)
      in if outer = ''.tar'' then Inr (al_tar al content)
         else if outer \<in> set [''.tar.gz'', ''.tgz''] then
           (case al_gzip al content of
              Inl err \<Rightarrow> Inl (''parse gzip stream: '' @ err)
            | Inr entries \<Rightarrow> Inr entries)
         else Inl (''unsupported tar extension '' @ quote outerExtension))"

definition InspectTAR ::
  "unicode_tables \<Rightarrow> charmap list \<Rightarrow> archive_library \<Rightarrow> string \<Rightarrow> string \<Rightarrow> ArchiveOptions \<Rightarrow> string list \<Rightarrow> string + ArchiveResult" where
  "InspectTAR ut charmaps al content outerExtension opts allowedExtensions =
     (case newTARReader al content outerExtension of
        Inl err \<Rightarrow> Inl err
      | Inr entries \<Rightarrow>
          (case tar_loop (visit_tar ut charmaps outerExtension opts allowedExtensions) opts entries 0 0 [] of
             Inl err \<Rightarrow> Inl err
           | Inr members \<Rightarrow>
               Inr \<lparr>ar_Inspected = True, ar_InspectedLocally = True, ar_SkipReason = [], ar_Members = members\<rparr>))"

subsection \<open>Signed 64-bit arithmetic\<close>

lemma sint_add64:
  fixes a b :: int64
  assumes "- (2 ^ 63) \<le> sint a + sint b" "sint a + sint b < 2 ^ 63"
  shows "sint (a + b) = sint a + sint b"
proof -
  have "sint (a + b) = signed_take_bit 63 (sint a + sint b)"
    by (simp add: sint_word_ariths)
  then show ?thesis using assms by (simp add: signed_take_bit_int_eq_self)
qed

lemma sint_range64: "- (2 ^ 63) \<le> sint (a :: int64)" "sint (a :: int64) < 2 ^ 63"
  using sint_ge [of a] sint_lt [of a] by simp_all

lemma sint_of_nat64: "int n < 2 ^ 63 \<Longrightarrow> sint (of_nat n :: int64) = int n"
  by (simp add: signed_of_nat signed_take_bit_int_eq_self)

lemma sint_zero_one [simp]: "sint (1 :: int64) = 1"
  by simp

subsection \<open>Paths that stay below the archive\<close>

lemma path_clean_relative:
  assumes "path_clean p \<noteq> ''.''" "\<not> has_prefix (path_clean p) ''/''"
  shows "\<exists>st. st \<noteq> [] \<and> clean_stack False st \<and> split_on CHR ''/'' (path_clean p) = rev st"
proof -
  have ne: "p \<noteq> []" using assms(1) by (auto simp: path_clean_def)
  define r where "r = (hd p = CHR ''/'')"
  define st where "st = foldl (clean_step r) [] (split_on CHR ''/'' p)"
  have eq: "path_clean p = (if r then CHR ''/'' # join ''/'' (rev st)
      else if join ''/'' (rev st) = [] then ''.'' else join ''/'' (rev st))"
    using ne by (simp add: path_clean_def Let_def r_def st_def)
  have nr: "\<not> r" using assms(2) eq by (auto split: if_splits)
  have cs: "clean_stack False st" using clean_elements [of False p] nr by (simp add: st_def)
  have j: "path_clean p = join ''/'' (rev st)" "st \<noteq> []"
    using eq nr assms(1) by (auto split: if_splits)
  have "split_on CHR ''/'' (join [CHR ''/''] (rev st)) = rev st"
    using cs clean_stack_elements [OF cs] j(2) by (intro split_on_join) auto
  then show ?thesis using cs j by auto
qed

lemma clean_stack_top: "clean_stack False st \<Longrightarrow> st \<noteq> [] \<Longrightarrow> last st \<noteq> ''..'' \<Longrightarrow> list_all plain_element st"
  by (induction st) (auto split: if_splits, auto dest: last_in_set)

text \<open>A path that is not suspicious names a file below the directory it is taken relative to.\<close>

lemma not_suspicious_elements:
  assumes "\<not> isSuspiciousArchivePath name"
  shows "list_all plain_element (split_on CHR ''/'' (cleanedArchivePath name))"
proof -
  define p where "p = path_clean (slashes (trim_space name))"
  have np: "\<not> has_prefix p ''./''" 
  proof
    assume h: "has_prefix p ''./''"
    then have "p \<noteq> ''.''" "\<not> has_prefix p ''/''" by (auto simp: has_prefix_iff)
    then obtain st where st: "st \<noteq> []" "clean_stack False st" "split_on CHR ''/'' p = rev st"
      using path_clean_relative unfolding p_def by blast
    obtain t where "p = ''./'' @ t" using h by (auto simp: has_prefix_iff)
    then have "rev st = ''.'' # split_on CHR ''/'' t" using st(3) by simp
    then have "hd (rev st) = ''.''" by (rule ssubst) simp
    then have "''.'' \<in> set st" using st(1) by (metis hd_in_set rev_is_Nil_conv set_rev)
    then show False using clean_stack_elements [OF st(2)] by blast
  qed
  then have c: "cleanedArchivePath name = p"
    by (simp add: cleanedArchivePath_def p_def Let_def trim_prefix_def)
  from assms have s: "p \<noteq> ''.''" "p \<noteq> ''..''" "\<not> has_prefix p ''/''" "\<not> has_prefix p ''../''"
    unfolding isSuspiciousArchivePath_def c Let_def by (auto split: if_splits)
  obtain st where st: "st \<noteq> []" "clean_stack False st" "split_on CHR ''/'' p = rev st"
    using path_clean_relative s(1,3) unfolding p_def by blast
  have "last st \<noteq> ''..''"
  proof
    assume l: "last st = ''..''"
    obtain ys where ys: "rev st = ''..'' # ys" using st(1) l by (metis append_butlast_last_id rev_eq_Cons_iff rev_rev_ident)
    have "p = join ''/'' (''..'' # ys)" using join_split_on [of "CHR ''/''" p] st(3) ys by simp
    then show False using s(2,4) by (cases ys) (auto simp: has_prefix_iff)
  qed
  then show ?thesis using clean_stack_top [OF st(2,1)] c st(3) by (simp add: list_all_iff)
qed

subsection \<open>The members of a walk\<close>

text \<open>Both loops walk over entries; an entry has a name and the visit decides.\<close>

fun walk :: "('e \<Rightarrow> string) \<Rightarrow> (int64 \<Rightarrow> 'e \<Rightarrow> visit) \<Rightarrow> ArchiveOptions \<Rightarrow> 'e list \<Rightarrow> int64 \<Rightarrow> int \<Rightarrow> Member list" where
  "walk name visit opts [] totalBytes n = []"
| "walk name visit opts (e # es) totalBytes n =
     (if ao_MaxMembers opts > 0 \<and> n \<ge> ao_MaxMembers opts then []
      else
        case visit totalBytes e of
          Stop \<Rightarrow> []
        | Skip \<Rightarrow> walk name visit opts es totalBytes n
        | Report data \<Rightarrow> new_member (name e) data # walk name visit opts es (totalBytes + len64 data) (n + 1))"

lemma zip_loop_walk: "zip_loop visit opts files totalBytes n = walk zf_Name visit opts files totalBytes n"
  by (induction files arbitrary: totalBytes n) (auto split: visit.split)

definition tar_headers :: "tar_next list \<Rightarrow> tar_header list" where
  "tar_headers entries = concat (map (\<lambda>e. case e of TarHeader h \<Rightarrow> [h] | TarFailure err \<Rightarrow> []) entries)"

lemma walk_full: "ao_MaxMembers opts > 0 \<Longrightarrow> n \<ge> ao_MaxMembers opts \<Longrightarrow> walk name visit opts es totalBytes n = []"
  by (cases es) auto

lemma tar_loop_walk:
  "tar_loop visit opts entries totalBytes n members = Inr members' \<Longrightarrow>
   members' = members @ walk th_Name visit opts (tar_headers entries) totalBytes n"
proof (induction entries arbitrary: totalBytes n members)
  case (Cons e es)
  show ?case
  proof (cases "ao_MaxMembers opts > 0 \<and> n \<ge> ao_MaxMembers opts")
    case True
    then show ?thesis using Cons.prems by (simp add: walk_full)
  next
    case False
    then obtain h where h: "e = TarHeader h" using Cons.prems by (cases e) auto
    then show ?thesis
      using Cons.prems False Cons.IH [of totalBytes n members]
        Cons.IH [of "totalBytes + len64 d" "n + 1" "members @ [new_member (th_Name h) d]" for d]
      by (auto simp: tar_headers_def split: visit.splits)
  qed
qed (simp add: tar_headers_def)

definition safe_member :: "Member \<Rightarrow> bool" where
  "safe_member m \<longleftrightarrow>
     list_all plain_element (split_on CHR ''/'' (mb_Path m)) \<and> \<not> driveLetterPath (mb_Path m) \<and>
     mb_Name m = path_base (mb_Path m) \<and> mb_Size m = len64 (mb_Content m)"

locale safe_visit =
  fixes name :: "'e \<Rightarrow> string" and visit :: "int64 \<Rightarrow> 'e \<Rightarrow> visit"
  assumes reported_path: "visit totalBytes e = Report data \<Longrightarrow> \<not> isSuspiciousArchivePath (name e)"
begin

lemma walk_safe: "m \<in> set (walk name visit opts es totalBytes n) \<Longrightarrow> safe_member m"
proof (induction es arbitrary: totalBytes n)
  case (Cons e es)
  show ?case
  proof (cases "visit totalBytes e")
    case (Report data)
    have ok: "\<not> isSuspiciousArchivePath (name e)" using Report by (rule reported_path)
    have "safe_member (new_member (name e) data)"
      using not_suspicious_elements [OF ok] ok
      by (simp add: safe_member_def new_member_def Let_def isSuspiciousArchivePath_def split: if_splits)
    then show ?thesis using Cons Report by (auto split: if_splits)
  qed (use Cons in \<open>auto split: if_splits\<close>)
qed simp

end

text \<open>A bound on the number of members holds of any walk.\<close>

lemma walk_count:
  "ao_MaxMembers opts > 0 \<Longrightarrow> n \<le> ao_MaxMembers opts \<Longrightarrow>
   n + int (length (walk name visit opts es totalBytes n)) \<le> ao_MaxMembers opts"
proof (induction es arbitrary: totalBytes n)
  case (Cons e es)
  show ?case
  proof (cases "n \<ge> ao_MaxMembers opts")
    case False
    then show ?thesis
      using Cons.IH [of n totalBytes] Cons.IH [of "n + 1" "totalBytes + len64 d" for d] Cons.prems
      by (cases "visit totalBytes e") (simp_all add: add.assoc)
  qed (use Cons.prems in simp)
qed simp

definition content_total :: "Member list \<Rightarrow> int" where
  "content_total ms = int (sum_list (map (\<lambda>m. length (mb_Content m)) ms))"

definition limits_set :: "ArchiveOptions \<Rightarrow> bool" where
  "limits_set opts \<longleftrightarrow>
     0 < sint (ao_MaxMemberBytes opts) \<and> 0 < sint (ao_MaxTotalUncompressed opts) \<and>
     sint (ao_MaxMemberBytes opts) + sint (ao_MaxTotalUncompressed opts) < 2 ^ 62"

text \<open>
  The one byte above the limit is the byte a read asks for beyond the declared size, to notice a
  member that holds more than it declares.
\<close>

locale bounded_visit = safe_visit name visit
  for name :: "'e \<Rightarrow> string" and visit :: "int64 \<Rightarrow> 'e \<Rightarrow> visit" +
  fixes opts :: ArchiveOptions and counted :: bool
  assumes reported_size: "counted \<Longrightarrow> limits_set opts \<Longrightarrow> visit totalBytes e = Report data \<Longrightarrow>
      0 \<le> sint totalBytes \<Longrightarrow> sint totalBytes \<le> sint (ao_MaxTotalUncompressed opts) + 1 \<Longrightarrow>
      sint totalBytes + int (length data) \<le> sint (ao_MaxTotalUncompressed opts) + 1"
begin

lemma walk_total:
  "counted \<Longrightarrow> limits_set opts \<Longrightarrow> 0 \<le> sint totalBytes \<Longrightarrow> sint totalBytes \<le> sint (ao_MaxTotalUncompressed opts) + 1 \<Longrightarrow>
   sint totalBytes + content_total (walk name visit opts es totalBytes n) \<le> sint (ao_MaxTotalUncompressed opts) + 1"
proof (induction es arbitrary: totalBytes n)
  case (Cons e es)
  show ?case
  proof (cases "visit totalBytes e")
    case (Report data)
    have sz: "sint totalBytes + int (length data) \<le> sint (ao_MaxTotalUncompressed opts) + 1"
      using Cons.prems(1,2) Report Cons.prems(3,4) by (rule reported_size)
    have small: "sint (ao_MaxTotalUncompressed opts) + 1 < 2 ^ 63"
      using Cons.prems(2) unfolding limits_set_def by (simp add: algebra_simps)
    have l: "sint (len64 data) = int (length data)"
      unfolding len64_def by (rule sint_of_nat64) (use sz small Cons.prems in linarith)
    have s: "sint (totalBytes + len64 data) = sint totalBytes + int (length data)"
      using sint_add64 [of totalBytes "len64 data"] l sz small Cons.prems by simp
    show ?thesis
      using Report Cons.IH [of "totalBytes + len64 data" "n + 1"] s sz Cons.prems
      by (simp add: content_total_def new_member_def Let_def)
  qed (use Cons in \<open>auto simp: content_total_def\<close>)
qed (simp add: content_total_def)

end

subsection \<open>The visits of the program\<close>

lemma visit_zip_report:
  assumes "visit_zip ut charmaps al outer opts allowed totalBytes file = Report data"
  shows "\<not> isSuspiciousArchivePath (zf_Name file)" "\<not> isNestedArchive (zf_Name file)"
    "\<not> isEncrypted file" "\<not> zf_IsDir file"
    "shouldInspectMember outer (cleanedArchivePath (zf_Name file))
       (to_lower (path_ext (path_base (cleanedArchivePath (zf_Name file))))) opts allowed"
  using assms by (auto simp: visit_zip_def Let_def split: if_splits option.splits)

lemma visit_tar_report:
  assumes "visit_tar ut charmaps outer opts allowed totalBytes h = Report data"
  shows "\<not> isSuspiciousArchivePath (th_Name h)" "\<not> isNestedArchive (th_Name h)" "th_Regular h"
    "shouldInspectMember outer (cleanedArchivePath (th_Name h))
       (to_lower (path_ext (path_base (cleanedArchivePath (th_Name h))))) opts allowed"
  using assms by (auto simp: visit_tar_def Let_def split: if_splits option.splits)

interpretation zip_safe: safe_visit zf_Name "visit_zip ut charmaps al outer opts allowed"
  by unfold_locales (rule visit_zip_report)

interpretation tar_safe: safe_visit th_Name "visit_tar ut charmaps outer opts allowed"
  by unfold_locales (rule visit_tar_report)

lemma LooksLikeText_Nil: "\<not> LooksLikeText ut charmaps []"
  by (simp add: LooksLikeText_def)

text \<open>A limited read that gives text gives at most one byte more than the declared size.\<close>

lemma read_limited_text:
  assumes "read_limited r (sz + 1) = Some data" "data \<noteq> []"
  shows "0 \<le> sint sz \<and> int (length data) \<le> sint sz + 1"
proof -
  have p: "0 < sint (sz + 1)"
    using assms by (auto simp: read_limited_def word_sle_eq split: if_splits)
  then have l: "int (length data) \<le> sint (sz + 1)"
    using assms by (auto simp: read_limited_def word_sle_eq split: if_splits)
  have b: "- (2 ^ 63) \<le> sint sz" "sint sz < 2 ^ 63" by (rule sint_range64)+
  have "sint sz + 1 < 2 ^ 63"
  proof (rule ccontr)
    assume "\<not> sint sz + 1 < 2 ^ 63"
    then have "sint sz = 2 ^ 63 - 1" using b by linarith
    then have "sint (sz + 1) = signed_take_bit 63 (2 ^ 63)" by (simp add: sint_word_ariths)
    also have "\<dots> < 0" by simp
    finally show False using p by simp
  qed
  then have "sint (sz + 1) = sint sz + 1" using sint_add64 [of sz 1] b by simp
  then show ?thesis using p l by simp
qed

text \<open>The size checks of the two visits, as one fact.\<close>

lemma size_checks:
  assumes lim: "limits_set opts"
    and m: "\<not> (0 <s ao_MaxMemberBytes opts \<and> ao_MaxMemberBytes opts <s sz)"
    and t: "\<not> (0 <s ao_MaxTotalUncompressed opts \<and> ao_MaxTotalUncompressed opts <s totalBytes + sz)"
    and r: "read_limited rc (sz + 1) = Some data" "data \<noteq> []"
    and tb: "0 \<le> sint totalBytes" "sint totalBytes \<le> sint (ao_MaxTotalUncompressed opts) + 1"
  shows "sint totalBytes + int (length data) \<le> sint (ao_MaxTotalUncompressed opts) + 1"
proof -
  have s: "0 \<le> sint sz" "int (length data) \<le> sint sz + 1" using read_limited_text [OF r] by auto
  have mm: "sint sz \<le> sint (ao_MaxMemberBytes opts)"
    using m lim by (auto simp: limits_set_def word_sless_alt)
  have "sint (totalBytes + sz) = sint totalBytes + sint sz"
    using s mm tb lim by (intro sint_add64) (auto simp: limits_set_def)
  then have "sint totalBytes + sint sz \<le> sint (ao_MaxTotalUncompressed opts)"
    using t lim by (auto simp: limits_set_def word_sless_alt)
  then show ?thesis using s by linarith
qed

lemma read_limit_id:
  assumes "\<not> (0 <s ao_MaxMemberBytes opts \<and> ao_MaxMemberBytes opts <s sz)"
  shows "read_limit opts sz = sz"
  using assms by (auto simp: read_limit_def Let_def)

interpretation zip_bounded: bounded_visit zf_Name "visit_zip ut charmaps al outer opts allowed" opts
  "\<not> isOfficeOpenXMLExtension outer"
proof unfold_locales
  fix totalBytes e data
  assume office: "\<not> isOfficeOpenXMLExtension outer" and lim: "limits_set opts" and v: "visit_zip ut charmaps al outer opts allowed totalBytes e = Report data"
    and tb: "0 \<le> sint totalBytes" "sint totalBytes \<le> sint (ao_MaxTotalUncompressed opts) + 1"
  let ?sz = "zf_UncompressedSize64 e"
  have c: "\<not> (0 <s ao_MaxMemberBytes opts \<and> ao_MaxMemberBytes opts <s ?sz)"
    "\<not> (0 <s ao_MaxTotalUncompressed opts \<and> ao_MaxTotalUncompressed opts <s totalBytes + ?sz)"
    using v by (auto simp: visit_zip_def Let_def split: if_splits)
  obtain rc where "read_limited rc (?sz + 1) = Some data" "data \<noteq> []"
    using v office c(1) LooksLikeText_Nil
    by (auto simp: visit_zip_def Let_def read_limit_id split: if_splits option.splits)
  then show "sint totalBytes + int (length data) \<le> sint (ao_MaxTotalUncompressed opts) + 1"
    using size_checks [OF lim c] tb by blast
qed

interpretation tar_bounded: bounded_visit th_Name "visit_tar ut charmaps outer opts allowed" opts True
proof unfold_locales
  fix totalBytes e data
  assume lim: "limits_set opts" and v: "visit_tar ut charmaps outer opts allowed totalBytes e = Report data"
    and tb: "0 \<le> sint totalBytes" "sint totalBytes \<le> sint (ao_MaxTotalUncompressed opts) + 1"
  let ?sz = "th_Size e"
  have c: "\<not> (0 <s ao_MaxMemberBytes opts \<and> ao_MaxMemberBytes opts <s ?sz)"
    "\<not> (0 <s ao_MaxTotalUncompressed opts \<and> ao_MaxTotalUncompressed opts <s totalBytes + ?sz)"
    using v by (auto simp: visit_tar_def Let_def split: if_splits)
  obtain rc where "read_limited rc (?sz + 1) = Some data" "data \<noteq> []"
    using v c(1) LooksLikeText_Nil
    by (auto simp: visit_tar_def Let_def split: if_splits option.splits)
  then show "sint totalBytes + int (length data) \<le> sint (ao_MaxTotalUncompressed opts) + 1"
    using size_checks [OF lim c] tb by blast
qed

subsection \<open>Safety of the inspection\<close>

lemma zip_members_safe:
  "InspectZIP ut charmaps al content outer opts allowed = Inr result \<Longrightarrow> m \<in> set (ar_Members result) \<Longrightarrow> safe_member m"
  using zip_safe.walk_safe by (auto simp: InspectZIP_def zip_loop_walk split: sum.splits)

lemma tar_members_safe:
  "InspectTAR ut charmaps al content outer opts allowed = Inr result \<Longrightarrow> m \<in> set (ar_Members result) \<Longrightarrow> safe_member m"
  using tar_safe.walk_safe by (auto simp: InspectTAR_def split: sum.splits dest!: tar_loop_walk)

lemma zip_members_count:
  "InspectZIP ut charmaps al content outer opts allowed = Inr result \<Longrightarrow> 0 < ao_MaxMembers opts \<Longrightarrow>
   int (length (ar_Members result)) \<le> ao_MaxMembers opts"
  using walk_count [where opts = opts and n = 0 and name = zf_Name]
  by (auto simp: InspectZIP_def zip_loop_walk split: sum.splits)

lemma tar_members_count:
  "InspectTAR ut charmaps al content outer opts allowed = Inr result \<Longrightarrow> 0 < ao_MaxMembers opts \<Longrightarrow>
   int (length (ar_Members result)) \<le> ao_MaxMembers opts"
  using walk_count [where opts = opts and n = 0 and name = th_Name]
  by (auto simp: InspectTAR_def split: sum.splits dest!: tar_loop_walk)

text \<open>
  C39: Whatever an archive contains, every member reported by the ZIP and TAR inspections has a
  relative path without empty, dot or double-dot elements and without a drive letter, so it names a
  file below the archive; its name is the last element of the path and its size that of its content;
  and there are at most as many members as the configured limit.
\<close>

theorem archive_members_safe:
  "(case InspectZIP ut charmaps al content outer opts allowed of
      Inl err \<Rightarrow> True
    | Inr result \<Rightarrow> list_all safe_member (ar_Members result) \<and>
        (if ao_MaxMembers opts > 0 then int (length (ar_Members result)) \<le> ao_MaxMembers opts else True)) \<and>
   (case InspectTAR ut charmaps al content outer opts allowed of
      Inl err \<Rightarrow> True
    | Inr result \<Rightarrow> list_all safe_member (ar_Members result) \<and>
        (if ao_MaxMembers opts > 0 then int (length (ar_Members result)) \<le> ao_MaxMembers opts else True))"
  using zip_members_safe [of ut charmaps al content outer opts allowed] tar_members_safe [of ut charmaps al content outer opts allowed]
    zip_members_count [of ut charmaps al content outer opts allowed] tar_members_count [of ut charmaps al content outer opts allowed]
  by (simp add: list_all_iff split: sum.split)

text \<open>
  The text taken from one archive stays within the configured total, up to the single byte a
  read asks for beyond the declared size of a member, whatever sizes the archive declares (negative
  as signed numbers or smaller than the content): for TAR files, and for ZIP files that are not
  Office documents.
\<close>

theorem archive_total_bounded:
  assumes "limits_set opts"
  shows "(case InspectZIP ut charmaps al content outer opts allowed of
      Inl err \<Rightarrow> True
    | Inr result \<Rightarrow> isOfficeOpenXMLExtension outer \<or>
        content_total (ar_Members result) \<le> sint (ao_MaxTotalUncompressed opts) + 1) \<and>
   (case InspectTAR ut charmaps al content outer opts allowed of
      Inl err \<Rightarrow> True
    | Inr result \<Rightarrow> content_total (ar_Members result) \<le> sint (ao_MaxTotalUncompressed opts) + 1)"
proof -
  have m: "0 \<le> sint (0 :: int64)" "sint (0 :: int64) \<le> sint (ao_MaxTotalUncompressed opts) + 1"
    using assms by (auto simp: limits_set_def)
  have "isOfficeOpenXMLExtension outer \<or>
      content_total (walk zf_Name (visit_zip ut charmaps al outer opts allowed) opts es 0 0) \<le>
        sint (ao_MaxTotalUncompressed opts) + 1" for es
    using zip_bounded.walk_total [OF _ assms m] by force
  then show ?thesis
    using tar_bounded.walk_total [OF _ assms m]
    by (auto simp: InspectZIP_def InspectTAR_def zip_loop_walk split: sum.splits dest!: tar_loop_walk)
qed

definition demo_archive_options :: ArchiveOptions where
  "demo_archive_options = \<lparr>ao_Enabled = True, ao_AutoZIPMaxSize = 100, ao_AllowLargeZIPs = False, ao_MaxZIPSize = 100,
     ao_AutoTARMaxSize = 100, ao_AllowLargeTARs = False, ao_MaxTARSize = 100, ao_MaxMembers = 8,
     ao_MaxMemberBytes = 6, ao_MaxTotalUncompressed = 5, ao_InspectExtensionlessText = True\<rparr>"

definition demo_tar_entry :: "string \<Rightarrow> string \<Rightarrow> int64 \<Rightarrow> tar_next" where
  "demo_tar_entry name data sz =
     TarHeader \<lparr>th_Name = name, th_IsDir = False, th_Regular = True, th_Size = sz,
       th_Body = \<lparr>bs_data = data, bs_fails = False\<rparr>\<rparr>"

definition demo_library :: archive_library where
  "demo_library = \<lparr>al_zip = (\<lambda>c. Inl ''zip: not a valid zip file''),
     al_tar = (\<lambda>c. [demo_tar_entry ''../a'' ''a b c'' 5, demo_tar_entry ''b/c'' ''a b c d'' 5, demo_tar_entry ''d'' ''x'' 1]),
     al_gzip = (\<lambda>c. Inl ''gzip: invalid header''), al_chardata = (\<lambda>d. [''a''])\<rparr>"

lemma demo_tar:
  "InspectTAR ascii_tables [] demo_library [] ''.tar'' demo_archive_options [] =
     Inr \<lparr>ar_Inspected = True, ar_InspectedLocally = True, ar_SkipReason = [],
        ar_Members = [\<lparr>mb_Path = ''b/c'', mb_Name = ''c'', mb_Extension = [], mb_Size = 6, mb_Content = ''a b c ''\<rparr>]\<rparr>"
  by code_simp

text \<open>The bound is reached: the entry declares five bytes and holds seven.\<close>

theorem archive_total_bounded_witness:
  "\<exists>result. InspectTAR ascii_tables [] demo_library [] ''.tar'' demo_archive_options [] = Inr result \<and>
     content_total (ar_Members result) = 6 \<and>
     content_total (ar_Members result) \<le> sint (ao_MaxTotalUncompressed demo_archive_options) + 1"
proof -
  have l: "limits_set demo_archive_options" by code_simp
  show ?thesis
    using archive_total_bounded [OF l, where ut = ascii_tables and charmaps = "[]" and al = demo_library
        and content = "[]" and outer = "''.tar''" and allowed = "[]"] demo_tar
    by (simp add: content_total_def)
qed

text \<open>
  The text of an Office document is counted after its markup is removed: two parts of nine bytes
  pass a limit of eleven.
\<close>

definition demo_part :: "string \<Rightarrow> zip_file" where
  "demo_part name = \<lparr>zf_Name = name, zf_IsDir = False, zf_Flags = 0, zf_UncompressedSize64 = 9,
     zf_Open = Some \<lparr>bs_data = ''<w>a</w> '', bs_fails = False\<rparr>\<rparr>"

definition office_limits :: ArchiveOptions where
  "office_limits = demo_archive_options\<lparr>ao_MaxMemberBytes := 10, ao_MaxTotalUncompressed := 11\<rparr>"

lemma office_text_counted_after_extraction:
  "map (\<lambda>m. (mb_Path m, mb_Content m)) (zip_loop (visit_zip ascii_tables [] demo_library ''.docx'' office_limits [])
      office_limits [demo_part ''word/document.xml'', demo_part ''word/header1.xml''] 0 0) =
   [(''word/document.xml'', ''a'' @ LF), (''word/header1.xml'', ''a'' @ LF)]"
  by code_simp

end
