(* ===== verification/Wim.thy ===== *)
theory Wim
  imports Archive
begin

text \<open>
  The package \<open>internal/wiminspect\<close>: which WIM images are opened, which of their files are targets and
  which of those are extracted. The program \<open>wimlib-imagex\<close> and the temporary file it is given are an
  argument: whether the program is found, what writing the file answers, and what its \<open>dir\<close> and \<open>extract\<close>
  commands print or how they fail.
\<close>

record WimOptions =
  wo_Enabled :: bool
  wo_AutoWIMMaxSize :: int64
  wo_AllowLargeWIMs :: bool
  wo_MaxWIMSize :: int64
  wo_MaxMembers :: int
  wo_MaxMemberBytes :: int64
  wo_MaxTotalBytes :: int64

record WimCandidate =
  wc_Name :: string
  wc_Extension :: string
  wc_Size :: int64

record WimMember =
  wm_Path :: string
  wm_Name :: string
  wm_Extension :: string
  wm_Size :: int64
  wm_Content :: string
  wm_ContentRead :: bool

record WimResult =
  wr_Inspected :: bool
  wr_InspectedLocally :: bool
  wr_SkipReason :: string
  wr_Members :: "WimMember list"

definition wim_ShouldInspect :: "WimCandidate \<Rightarrow> WimOptions \<Rightarrow> bool \<times> string" where
  "wim_ShouldInspect candidate opts =
     (if \<not> equal_fold (trim_space (wc_Extension candidate)) ''.wim'' then (False, '''')
      else if \<not> wo_Enabled opts then (False, ''wim inspection disabled'')
      else if 0 <s wo_AutoWIMMaxSize opts \<and> wc_Size candidate <=s wo_AutoWIMMaxSize opts then (True, '''')
      else if \<not> wo_AllowLargeWIMs opts then
        (if 0 <s wo_AutoWIMMaxSize opts
         then (False, ''wim exceeds automatic inspection limit of '' @ itoa (sint (wo_AutoWIMMaxSize opts)) @ '' bytes'')
         else (False, ''wim inspection requires an explicit size limit''))
      else if 0 <s wo_MaxWIMSize opts \<and> wo_MaxWIMSize opts <s wc_Size candidate then
        (False, ''wim exceeds configured inspection limit of '' @ itoa (sint (wo_MaxWIMSize opts)) @ '' bytes'')
      else (True, ''''))"

subsection \<open>Paths in an image\<close>

definition cleanWIMDisplayPath :: "string \<Rightarrow> string" where
  "cleanWIMDisplayPath v0 =
     (let v = slashes (trim_space v0)
      in if v = [] \<or> v = ''.'' \<or> v = ''/'' then []
         else let cleaned = path_clean (''/'' @ trim_prefix v ''/'')
              in if cleaned = ''/'' \<or> cleaned = ''.'' then [] else cleaned)"

definition normalizeWIMPath :: "string \<Rightarrow> string" where
  "normalizeWIMPath v = to_lower (cleanWIMDisplayPath v)"

definition panther_xml :: "string \<Rightarrow> bool" where
  "panther_xml memberPath \<longleftrightarrow> has_prefix memberPath ''/windows/panther/'' \<and> has_suffix memberPath ''.xml''"

definition isTargetedPath :: "string \<Rightarrow> bool" where
  "isTargetedPath memberPath =
     (if memberPath \<in> set [''/windows/system32/config/sam'', ''/windows/system32/config/system'',
           ''/windows/system32/config/security'', ''/windows/ntds/ntds.dit''] then True
      else if to_lower (path_base memberPath) \<in> set [''bootstrap.ini'', ''customsettings.ini'', ''tasksequence.xml''] then True
      else panther_xml memberPath)"

definition shouldExtractContent :: "string \<Rightarrow> bool" where
  "shouldExtractContent memberPath =
     (if to_lower (path_base memberPath) \<in> set [''bootstrap.ini'', ''customsettings.ini'', ''tasksequence.xml''] then True
      else panther_xml memberPath)"

subsection \<open>The program\<close>

datatype run_error = ExitError string | RunError string

record wim_tool =
  wt_LookPath :: "string option"
  wt_temp :: "string \<Rightarrow> string option"
  wt_dir :: "string \<Rightarrow> run_error + string"
  wt_extract :: "string \<Rightarrow> string \<Rightarrow> run_error + string"

fun run_message :: "run_error \<Rightarrow> string" where
  "run_message (ExitError stderr) = trim_space stderr"
| "run_message (RunError err) = err"

definition ListPaths :: "wim_tool \<Rightarrow> string \<Rightarrow> string + string list" where
  "ListPaths tool wim =
     (case wt_dir tool wim of
        Inl err \<Rightarrow> Inl (''list wim contents: '' @ run_message err)
      | Inr out \<Rightarrow> Inr (filter (\<lambda>line. line \<noteq> [] \<and> line \<noteq> ''/'') (map trim_space (split_on (CHR 0x0A) out))))"

definition ExtractFile :: "wim_tool \<Rightarrow> string \<Rightarrow> string \<Rightarrow> string + string" where
  "ExtractFile tool wim memberPath =
     (case wt_extract tool wim memberPath of
        Inl err \<Rightarrow> Inl (''extract '' @ memberPath @ '': '' @ run_message err)
      | Inr out \<Rightarrow> Inr out)"

subsection \<open>The inspection\<close>

definition wim_member :: "string \<Rightarrow> WimMember" where
  "wim_member displayPath =
     \<lparr>wm_Path = trim_prefix displayPath ''/'', wm_Name = path_base displayPath,
      wm_Extension = to_lower (path_ext displayPath), wm_Size = 0, wm_Content = [], wm_ContentRead = False\<rparr>"

fun wim_loop ::
  "(string \<Rightarrow> string + string) \<Rightarrow> WimOptions \<Rightarrow> string list \<Rightarrow> int64 \<Rightarrow> WimMember list \<Rightarrow> WimMember list" where
  "wim_loop extract opts [] totalBytes members = members"
| "wim_loop extract opts (rawPath # paths) totalBytes members =
     (let displayPath = cleanWIMDisplayPath rawPath; memberPath = normalizeWIMPath rawPath
      in if memberPath = [] \<or> \<not> isTargetedPath memberPath then wim_loop extract opts paths totalBytes members
         else if wo_MaxMembers opts > 0 \<and> int (length members) \<ge> wo_MaxMembers opts then members
         else if \<not> shouldExtractContent memberPath then
           wim_loop extract opts paths totalBytes (members @ [wim_member displayPath])
         else
           case extract displayPath of
             Inl err \<Rightarrow> wim_loop extract opts paths totalBytes members
           | Inr data \<Rightarrow>
               if 0 <s wo_MaxMemberBytes opts \<and> wo_MaxMemberBytes opts <s len64 data then
                 wim_loop extract opts paths totalBytes members
               else if 0 <s wo_MaxTotalBytes opts \<and> wo_MaxTotalBytes opts <s totalBytes + len64 data then members
               else wim_loop extract opts paths (totalBytes + len64 data)
                 (members @ [(wim_member displayPath)\<lparr>wm_Content := data, wm_Size := len64 data, wm_ContentRead := True\<rparr>]))"

definition WimInspect :: "wim_tool \<Rightarrow> string \<Rightarrow> WimOptions \<Rightarrow> string + WimResult" where
  "WimInspect tool content opts =
     (case wt_LookPath tool of
        Some err \<Rightarrow> Inl (''wimlib-imagex not available: '' @ err)
      | None \<Rightarrow>
          (case wt_temp tool content of
             Some err \<Rightarrow> Inl err
           | None \<Rightarrow>
               (case ListPaths tool content of
                  Inl err \<Rightarrow> Inl err
                | Inr paths \<Rightarrow>
                    Inr \<lparr>wr_Inspected = True, wr_InspectedLocally = True, wr_SkipReason = [],
                         wr_Members = wim_loop (ExtractFile tool content) opts paths 0 []\<rparr>)))"

subsection \<open>What an inspection gives\<close>

text \<open>A member is a target, named by its path, and holds content only when targets of its kind are extracted.\<close>

definition wim_target :: "WimMember \<Rightarrow> bool" where
  "wim_target m \<longleftrightarrow>
     isTargetedPath (to_lower (''/'' @ wm_Path m)) \<and> wm_Name m = path_base (''/'' @ wm_Path m) \<and>
     wm_Size m = len64 (wm_Content m) \<and>
     (if wm_ContentRead m then shouldExtractContent (to_lower (''/'' @ wm_Path m)) else wm_Content m = [])"

lemma display_rooted: "cleanWIMDisplayPath v = [] \<or> (\<exists>p. cleanWIMDisplayPath v = CHR ''/'' # p)"
  by (auto simp: cleanWIMDisplayPath_def Let_def path_clean_rooted)

lemma wim_member_target:
  assumes "isTargetedPath (normalizeWIMPath v)" "normalizeWIMPath v \<noteq> []"
  shows "\<not> shouldExtractContent (normalizeWIMPath v) \<Longrightarrow> wim_target (wim_member (cleanWIMDisplayPath v))"
    and "shouldExtractContent (normalizeWIMPath v) \<Longrightarrow>
      wim_target ((wim_member (cleanWIMDisplayPath v))\<lparr>wm_Content := data, wm_Size := len64 data, wm_ContentRead := True\<rparr>)"
proof -
  obtain p where p: "cleanWIMDisplayPath v = CHR ''/'' # p"
    using display_rooted [of v] assms(2) by (auto simp: normalizeWIMPath_def to_lower_def)
  then show "\<not> shouldExtractContent (normalizeWIMPath v) \<Longrightarrow> wim_target (wim_member (cleanWIMDisplayPath v))"
    and "shouldExtractContent (normalizeWIMPath v) \<Longrightarrow>
      wim_target ((wim_member (cleanWIMDisplayPath v))\<lparr>wm_Content := data, wm_Size := len64 data, wm_ContentRead := True\<rparr>)"
    using assms(1)
    by (simp_all add: wim_target_def wim_member_def normalizeWIMPath_def trim_prefix_def len64_def)
qed

lemma wim_loop_targets:
  "list_all wim_target ms \<Longrightarrow> list_all wim_target (wim_loop extract opts paths n ms)"
proof (induction paths arbitrary: n ms)
  case (Cons p ps)
  show ?case
    using Cons wim_member_target [of p]
    by (simp add: Let_def split: sum.split)
qed simp

lemma wim_loop_count:
  "0 < wo_MaxMembers opts \<Longrightarrow> int (length ms) \<le> wo_MaxMembers opts \<Longrightarrow>
   int (length (wim_loop extract opts paths n ms)) \<le> wo_MaxMembers opts"
  by (induction paths arbitrary: n ms) (simp_all add: Let_def split: sum.split)

definition wim_content :: "WimMember list \<Rightarrow> int" where
  "wim_content ms = sum_list (map (\<lambda>m. int (length (wm_Content m))) ms)"

definition wim_limits :: "WimOptions \<Rightarrow> bool" where
  "wim_limits opts \<longleftrightarrow>
     0 < wo_MaxMembers opts \<and> 0 <s wo_MaxMemberBytes opts \<and> 0 <s wo_MaxTotalBytes opts \<and>
     sint (wo_MaxMemberBytes opts) + sint (wo_MaxTotalBytes opts) < 2 ^ 63"

definition within_limits :: "WimOptions \<Rightarrow> WimMember list \<Rightarrow> bool" where
  "within_limits opts ms \<longleftrightarrow>
     list_all (\<lambda>m. int (length (wm_Content m)) \<le> sint (wo_MaxMemberBytes opts)) ms \<and>
     wim_content ms \<le> sint (wo_MaxTotalBytes opts)"

lemma wim_loop_limits:
  assumes "wim_limits opts" and ext: "\<And>p data. extract p = Inr data \<Longrightarrow> int (length data) < 2 ^ 63"
  shows "within_limits opts ms \<Longrightarrow> n = word_of_int (wim_content ms) \<Longrightarrow>
    within_limits opts (wim_loop extract opts paths n ms)"
proof (induction paths arbitrary: n ms)
  case (Cons p ps)
  have same: "within_limits opts (ms @ [wim_member d])" "wim_content (ms @ [wim_member d]) = wim_content ms" for d
    using Cons.prems assms(1) by (simp_all add: within_limits_def wim_content_def wim_member_def wim_limits_def word_sless_alt)
  have more: "within_limits opts (ms @ [(wim_member d)\<lparr>wm_Content := data, wm_Size := len64 data, wm_ContentRead := True\<rparr>])"
    if e: "extract d = Inr data" and b: "\<not> wo_MaxMemberBytes opts <s len64 data"
      and t: "\<not> wo_MaxTotalBytes opts <s n + len64 data" for d data
  proof -
    have l: "sint (len64 data) = int (length data)"
      using ext [OF e] by (simp add: len64_def sint_of_nat64)
    have c: "0 \<le> wim_content ms" "wim_content ms < 2 ^ 63"
      using Cons.prems(1) assms(1) sint_range64 [of "wo_MaxTotalBytes opts"]
      by (auto simp: wim_content_def within_limits_def intro!: sum_list_nonneg)
    have n: "sint n = wim_content ms"
      using Cons.prems(2) c by (simp add: signed_of_int signed_take_bit_int_eq_self)
    have bb: "int (length data) \<le> sint (wo_MaxMemberBytes opts)"
      using b l by (simp add: word_sless_alt)
    have "sint (n + len64 data) = wim_content ms + int (length data)"
      using n l bb c Cons.prems(1) assms(1) by (subst sint_add64) (auto simp: within_limits_def wim_limits_def)
    then show ?thesis
      using t bb Cons.prems(1) by (simp add: within_limits_def word_sless_alt wim_content_def)
  qed
  let ?read = "\<lambda>data. (wim_member (cleanWIMDisplayPath p))\<lparr>wm_Content := data, wm_Size := len64 data, wm_ContentRead := True\<rparr>"
  have listed: "within_limits opts (wim_loop extract opts ps n (ms @ [wim_member d]))" for d
    by (rule Cons.IH) (use Cons.prems(2) same in simp_all)
  have "within_limits opts (wim_loop extract opts ps (n + len64 data) (ms @ [?read data]))"
    if "extract (cleanWIMDisplayPath p) = Inr data" "\<not> wo_MaxMemberBytes opts <s len64 data" "\<not> wo_MaxTotalBytes opts <s n + len64 data" for data
    by (rule Cons.IH [OF more [OF that]]) (simp add: Cons.prems(2) wim_content_def len64_def)
  then show ?case
    using Cons.IH [OF Cons.prems] Cons.prems(1) listed assms(1)
    by (simp add: Let_def wim_limits_def split: sum.split)
qed simp

text \<open>
  What the inspection of a WIM image reports: only targets, as many as allowed, content only of the
  kinds of files that are extracted, none longer than a member may be and all together no longer than the
  total allowed, whatever wimlib-imagex prints.
\<close>

theorem wim_members_targeted_bounded:
  assumes "wim_limits opts" and "\<And>p data. ExtractFile tool content p = Inr data \<Longrightarrow> int (length data) < 2 ^ 63"
    and "WimInspect tool content opts = Inr result"
  shows "list_all wim_target (wr_Members result) \<and>
    int (length (wr_Members result)) \<le> wo_MaxMembers opts \<and>
    list_all (\<lambda>m. int (length (wm_Content m)) \<le> sint (wo_MaxMemberBytes opts)) (wr_Members result) \<and>
    wim_content (wr_Members result) \<le> sint (wo_MaxTotalBytes opts)"
proof -
  obtain paths where m: "wr_Members result = wim_loop (ExtractFile tool content) opts paths 0 []"
    using assms(3) by (auto simp: WimInspect_def split: option.splits sum.splits)
  have "within_limits opts (wr_Members result)"
    unfolding m using assms(1,2)
    by (rule wim_loop_limits) (use assms(1) in \<open>auto simp: within_limits_def wim_content_def wim_limits_def word_sless_alt\<close>)
  then show ?thesis
    using wim_loop_targets [of "[]"] wim_loop_count [of opts "[]"] assms(1)
    by (simp add: m within_limits_def wim_limits_def)
qed

definition demo_wim_tool :: wim_tool where
  "demo_wim_tool = \<lparr>wt_LookPath = None, wt_temp = (\<lambda>_. None),
     wt_dir = (\<lambda>_. Inr (''/'' @ [CHR 0x0A] @ ''/Windows/System32/config/SAM'' @ [CHR 0x0A] @ ''/Sources/install.esd'' @ [CHR 0x0A] @
       ''/Deploy/Control/Bootstrap.ini'' @ [CHR 0x0A])),
     wt_extract = (\<lambda>_ p. if p = ''/Deploy/Control/Bootstrap.ini'' then Inr ''UserPassword=x'' else Inl (ExitError ''no such file''))\<rparr>"

definition demo_wim_options :: WimOptions where
  "demo_wim_options = \<lparr>wo_Enabled = True, wo_AutoWIMMaxSize = 1024, wo_AllowLargeWIMs = False, wo_MaxWIMSize = 1024,
     wo_MaxMembers = 4, wo_MaxMemberBytes = 64, wo_MaxTotalBytes = 128\<rparr>"

lemma demo_wim_members:
  "map (\<lambda>m. (wm_Path m, wm_Content m)) (case WimInspect demo_wim_tool [] demo_wim_options of Inl e \<Rightarrow> [] | Inr r \<Rightarrow> wr_Members r) =
     [(''Windows/System32/config/SAM'', ''''), (''Deploy/Control/Bootstrap.ini'', ''UserPassword=x'')]"
  by code_simp

lemma wim_members_targeted_bounded_witness:
  "\<exists>result. WimInspect demo_wim_tool [] demo_wim_options = Inr result \<and> length (wr_Members result) = 2 \<and>
     list_all wim_target (wr_Members result) \<and>
     int (length (wr_Members result)) \<le> wo_MaxMembers demo_wim_options \<and>
     list_all (\<lambda>m. int (length (wm_Content m)) \<le> sint (wo_MaxMemberBytes demo_wim_options)) (wr_Members result) \<and>
     wim_content (wr_Members result) \<le> sint (wo_MaxTotalBytes demo_wim_options)"
proof -
  have l: "wim_limits demo_wim_options" by (simp add: wim_limits_def demo_wim_options_def word_sless_alt)
  have e: "int (length data) < 2 ^ 63" if "ExtractFile demo_wim_tool [] p = Inr data" for p data
    using that by (auto simp: ExtractFile_def demo_wim_tool_def split: if_splits)
  obtain result where r: "WimInspect demo_wim_tool [] demo_wim_options = Inr result"
    by (simp add: WimInspect_def ListPaths_def demo_wim_tool_def)
  then have "length (wr_Members result) = 2"
    using arg_cong [OF demo_wim_members, of length] by simp
  then show ?thesis
    by (intro exI [of _ result] conjI r wim_members_targeted_bounded [OF l _ r, THEN conjunct1]
          wim_members_targeted_bounded [OF l _ r, THEN conjunct2, THEN conjunct1]
          wim_members_targeted_bounded [OF l _ r, THEN conjunct2, THEN conjunct2, THEN conjunct1]
          wim_members_targeted_bounded [OF l _ r, THEN conjunct2, THEN conjunct2, THEN conjunct2])
       (assumption | rule e)+
qed

text \<open>Nothing but the targets of those kinds is extracted: what the program gives for another path has no effect.\<close>

lemma wim_loop_extracts_targets:
  "(\<And>p. shouldExtractContent (to_lower p) \<Longrightarrow> extract p = extract' p) \<Longrightarrow>
   wim_loop extract opts paths n ms = wim_loop extract' opts paths n ms"
proof (induction paths arbitrary: n ms)
  case (Cons p ps)
  show ?case
    using Cons.IH [OF Cons.prems] Cons.prems [of "cleanWIMDisplayPath p"]
    by (simp add: Let_def normalizeWIMPath_def split: sum.split)
qed simp

end
