(* ===== verification/Workers.thy ===== *)
theory Workers
  imports Findings "HOL-Library.Multiset"
begin

text \<open>
  The worker pool of the scanner (\<open>internal/scanner/workers.go\<close>): what a worker does with one job, panics
  included, and the pool as a step relation: the workers take jobs from one channel and deliver results
  on another, whose capacity is the number of workers, while the collector writes the findings to the
  sink; the context may be cancelled at any time. Calls on a recorder or an observer that is not there do
  nothing, so the events listed are those of a pool that has them.
\<close>

definition ResolveWorkerCount :: "int \<Rightarrow> int \<Rightarrow> int" where
  "ResolveWorkerCount gomaxprocs requested =
     (if requested > 0 then requested
      else let workers = gomaxprocs * 4 in if workers < 4 then 4 else if workers > 64 then 64 else workers)"

subsection \<open>One job\<close>

datatype 'a outcome = Returns 'a | Panics string

record go_error =
  er_text :: string
  er_cancelled :: bool

record Evaluator =
  ev_NeedsContent :: "FileMetadata \<Rightarrow> bool outcome"
  ev_Evaluate :: "FileMetadata \<Rightarrow> string \<Rightarrow> Evaluation outcome"

record Job =
  jb_Metadata :: FileMetadata
  jb_LoadContent :: "(FileMetadata \<Rightarrow> (string \<times> go_error option) outcome) option"
  jb_OnComplete :: bool

record JobResult =
  rs_Metadata :: FileMetadata
  rs_Evaluation :: Evaluation
  rs_Err :: "go_error option"

datatype job_event =
    FileVisited FileMetadata
  | FileRead
  | ReadError FileMetadata go_error
  | FileSkipped FileMetadata string
  | MatchesFound int
  | Completion FileMetadata Evaluation "go_error option"

text \<open>The content for the evaluation: loaded when the evaluator needs it, with the error of loading it.\<close>

definition loadContent :: "Evaluator \<Rightarrow> Job \<Rightarrow> FileMetadata \<Rightarrow> (string \<times> go_error option) outcome \<times> job_event list" where
  "loadContent ev job meta =
     (case ev_NeedsContent ev meta of
        Panics v \<Rightarrow> (Panics v, [])
      | Returns False \<Rightarrow> (Returns ([], None), [])
      | Returns True \<Rightarrow>
          (case jb_LoadContent job of
             None \<Rightarrow>
               (let err = \<lparr>er_text = ''content loader is required for '' @ m_FilePath meta, er_cancelled = False\<rparr>
                in (Returns ([], Some err), [ReadError meta err]))
           | Some load \<Rightarrow>
               (case load meta of
                  Panics v \<Rightarrow> (Panics v, [])
                | Returns (content, None) \<Rightarrow> (Returns (content, None), [FileRead])
                | Returns (content, Some err) \<Rightarrow>
                    (Returns (content, Some err), if er_cancelled err then [] else [ReadError meta err]))))"

definition completion :: "Job \<Rightarrow> FileMetadata \<Rightarrow> Evaluation \<Rightarrow> go_error option \<Rightarrow> job_event list" where
  "completion job meta evaluation err = (if jb_OnComplete job then [Completion meta evaluation err] else [])"

definition recovered :: "Job \<Rightarrow> FileMetadata \<Rightarrow> string \<Rightarrow> job_event list \<Rightarrow> JobResult \<times> job_event list" where
  "recovered job meta v events =
     (let err = \<lparr>er_text = ''scanner worker panic for '' @ m_FilePath meta @ '': '' @ v, er_cancelled = False\<rparr>;
          evaluation = \<lparr>e_Skipped = True, e_SkipReason = ''worker panic recovered'', e_NeedContent = False,
            e_ContentRead = False, e_Findings = []\<rparr>
      in (\<lparr>rs_Metadata = meta, rs_Evaluation = evaluation, rs_Err = Some err\<rparr>,
          events @ [ReadError meta err] @ completion job meta evaluation (Some err)))"

definition processJob :: "Evaluator \<Rightarrow> Job \<Rightarrow> JobResult \<times> job_event list" where
  "processJob ev job =
     (let meta = Normalized (jb_Metadata job)
      in case loadContent ev job meta of
           (Panics v, events) \<Rightarrow> recovered job meta v (FileVisited meta # events)
         | (Returns (content, err), events) \<Rightarrow>
             (case ev_Evaluate ev meta content of
                Panics v \<Rightarrow> recovered job meta v (FileVisited meta # events)
              | Returns evaluation \<Rightarrow>
                  (\<lparr>rs_Metadata = meta, rs_Evaluation = evaluation, rs_Err = err\<rparr>,
                   FileVisited meta # events @
                   (if e_Skipped evaluation then [FileSkipped meta (e_SkipReason evaluation)] else []) @
                   (if length (e_Findings evaluation) > 0 then [MatchesFound (int (length (e_Findings evaluation)))] else []) @
                   completion job meta evaluation err)))"

definition is_completion :: "job_event \<Rightarrow> bool" where
  "is_completion e = (case e of Completion m v r \<Rightarrow> True | _ \<Rightarrow> False)"

lemma completion_events [simp]:
  "filter is_completion (completion job meta evaluation err) = completion job meta evaluation err"
  by (simp add: completion_def is_completion_def)

lemma load_events: "loadContent ev job meta = (r, events) \<Longrightarrow> filter is_completion events = []"
  by (auto simp: loadContent_def is_completion_def Let_def split: outcome.splits bool.splits option.splits if_splits)

text \<open>
  C36: Whatever the evaluator and the loader do, panics included, a job is visited first and completed
  once, last, with the evaluation and the error of its result; a panic becomes a skipped file without
  findings and an error.
\<close>

theorem job_completed_once:
  "let (result, events) = processJob ev job; meta = Normalized (jb_Metadata job) in
    rs_Metadata result = meta \<and> hd events = FileVisited meta \<and>
    filter is_completion events =
      (if jb_OnComplete job then [Completion meta (rs_Evaluation result) (rs_Err result)] else []) \<and>
    (if jb_OnComplete job then is_completion (last events) else True) \<and>
    (case loadContent ev job meta of
       (Panics v, _) \<Rightarrow> e_Skipped (rs_Evaluation result) \<and> e_Findings (rs_Evaluation result) = [] \<and> rs_Err result \<noteq> None
     | (Returns (content, err), _) \<Rightarrow>
         (case ev_Evaluate ev meta content of
            Panics v \<Rightarrow> e_Skipped (rs_Evaluation result) \<and> e_Findings (rs_Evaluation result) = [] \<and> rs_Err result \<noteq> None
          | Returns evaluation \<Rightarrow> rs_Evaluation result = evaluation \<and> rs_Err result = err))"
proof -
  let ?meta = "Normalized (jb_Metadata job)"
  obtain r events where l: "loadContent ev job ?meta = (r, events)" by (cases "loadContent ev job ?meta")
  note e = load_events [OF l]
  show ?thesis
  proof (cases r)
    case (Returns ce)
    obtain content err where ce: "ce = (content, err)" by (cases ce)
    show ?thesis
      by (cases "ev_Evaluate ev ?meta content")
        (simp_all add: processJob_def recovered_def Let_def l e Returns ce completion_def is_completion_def)
  qed (simp add: processJob_def recovered_def Let_def l e completion_def is_completion_def)
qed

subsection \<open>The evaluator of a pool\<close>

text \<open>What the pool relies on of the evaluator (the interface \<open>Evaluator\<close>).\<close>

locale evaluator =
  fixes needs :: "FileMetadata \<Rightarrow> bool" and evaluate :: "FileMetadata \<Rightarrow> string \<Rightarrow> Evaluation"
  assumes needed: "e_NeedContent (evaluate m c) \<Longrightarrow> needs m"
    and read_some: "e_ContentRead (evaluate m c) \<Longrightarrow> c \<noteq> [] \<and> e_NeedContent (evaluate m c)"
    and skipped_nothing: "e_Skipped (evaluate m c) \<Longrightarrow> e_Findings (evaluate m c) = []"
begin

text \<open>An evaluation that wanted the content was given what the loader loaded, or there was an error.\<close>

lemma job_content:
  assumes "rs_Err (fst (processJob \<lparr>ev_NeedsContent = \<lambda>m. Returns (needs m), ev_Evaluate = \<lambda>m c. Returns (evaluate m c)\<rparr> job)) = None"
  defines "meta \<equiv> Normalized (jb_Metadata job)"
    and "evaluation \<equiv> rs_Evaluation (fst (processJob \<lparr>ev_NeedsContent = \<lambda>m. Returns (needs m),
      ev_Evaluate = \<lambda>m c. Returns (evaluate m c)\<rparr> job))"
  shows "if needs meta
    then \<exists>load content. jb_LoadContent job = Some load \<and> load meta = Returns (content, None) \<and> evaluation = evaluate meta content
    else evaluation = evaluate meta [] \<and> \<not> e_NeedContent evaluation \<and> \<not> e_ContentRead evaluation"
  using assms(1) needed [of meta "[]"] read_some [of meta "[]"]
  unfolding meta_def evaluation_def
  by (auto simp: processJob_def loadContent_def recovered_def Let_def split: outcome.splits option.splits if_splits)

end

end
