(* ===== verification/Engine.thy ===== *)
theory Engine
  imports RuleManager FileScan Artifacts Wim Workers
begin

text \<open>
  The scan engine (\<open>internal/scanner/engine.go\<close>): which files are read, which are skipped and why, and
  the findings of a file, of the members of an archive and of the targets in a WIM image, from the rules
  and the inspectors. What the engine calls outside the repository is gathered in one argument: the
  regular expressions, the tables of Unicode and of the character sets, the parsers of URLs and of the
  archive formats, \<open>wimlib-imagex\<close>, SQLite, and the order in which Go visits the map of groups.
\<close>

record engine_library =
  lib_regex :: regex_engine
  lib_unicode :: unicode_tables
  lib_charmaps :: "charmap list"
  lib_url :: url_parser
  lib_archives :: archive_library
  lib_wim :: wim_tool
  lib_sqlite :: "string \<Rightarrow> sqlite_db option"
  lib_order :: "Finding list \<Rightarrow> bucketKey list"

record EngineOptions =
  go_Workers :: int
  go_MaxFileSizeBytes :: int
  go_MaxReadBytes :: int
  go_SnippetBytes :: int
  go_Archives :: ArchiveOptions
  go_WIM :: WimOptions
  go_SQLite :: SQLiteOptions
  go_ValidationMode :: bool

record Engine =
  en_opts :: EngineOptions
  en_manager :: RuleManager
  en_snippetBytes :: int
  en_filenameRules :: "Rule list"
  en_extensionRules :: "Rule list"
  en_contentRules :: "Rule list"
  en_contentExtHints :: "string list"
  en_archiveExtHints :: "string list"
  en_hasGenericText :: bool
  en_sqlite :: SQLiteOptions
  en_wim :: WimOptions
  en_validationMode :: bool
  en_observed :: bool

subsection \<open>Options and hints\<close>

definition no_archive_options :: "ArchiveOptions \<Rightarrow> bool" where
  "no_archive_options opts \<longleftrightarrow>
     \<not> ao_Enabled opts \<and> \<not> ao_AllowLargeZIPs opts \<and> \<not> ao_AllowLargeTARs opts \<and> ao_AutoZIPMaxSize opts = 0 \<and>
     ao_MaxZIPSize opts = 0 \<and> ao_AutoTARMaxSize opts = 0 \<and> ao_MaxTARSize opts = 0 \<and> ao_MaxMembers opts = 0 \<and>
     ao_MaxMemberBytes opts = 0 \<and> ao_MaxTotalUncompressed opts = 0 \<and> \<not> ao_InspectExtensionlessText opts"

definition word_or :: "int64 \<Rightarrow> int64 \<Rightarrow> int64" where
  "word_or v d = (if v <=s 0 then d else v)"

definition resolveArchiveOptions :: "ArchiveOptions \<Rightarrow> ArchiveOptions" where
  "resolveArchiveOptions opts =
     (if no_archive_options opts then
        \<lparr>ao_Enabled = True, ao_AutoZIPMaxSize = 10 * 1024 * 1024, ao_AllowLargeZIPs = False,
         ao_MaxZIPSize = 10 * 1024 * 1024, ao_AutoTARMaxSize = 10 * 1024 * 1024, ao_AllowLargeTARs = False,
         ao_MaxTARSize = 10 * 1024 * 1024, ao_MaxMembers = 64, ao_MaxMemberBytes = 512 * 1024,
         ao_MaxTotalUncompressed = 4 * 1024 * 1024, ao_InspectExtensionlessText = True\<rparr>
      else
        let zip = word_or (ao_AutoZIPMaxSize opts) (10 * 1024 * 1024);
            tar = word_or (ao_AutoTARMaxSize opts) (10 * 1024 * 1024)
        in opts\<lparr>ao_AutoZIPMaxSize := zip, ao_MaxZIPSize := word_or (ao_MaxZIPSize opts) zip,
                ao_AutoTARMaxSize := tar, ao_MaxTARSize := word_or (ao_MaxTARSize opts) tar,
                ao_MaxMembers := (if ao_MaxMembers opts \<le> 0 then 64 else ao_MaxMembers opts),
                ao_MaxMemberBytes := word_or (ao_MaxMemberBytes opts) (512 * 1024),
                ao_MaxTotalUncompressed := word_or (ao_MaxTotalUncompressed opts) (4 * 1024 * 1024)\<rparr>)"

text \<open>The extensions the content rules name, and whether some rule names none.\<close>

definition buildContentRuleHints :: "Rule list \<Rightarrow> string list \<times> bool" where
  "buildContentRuleHints ruleSet =
     (let active = filter (\<lambda>rule. r_Action rule \<noteq> ActionSkip) ruleSet
      in (filter (\<lambda>e. e \<noteq> []) (map normalizeExtension (concat (map r_FileExtensions active))),
          list_ex (\<lambda>rule. length (r_FileExtensions rule) = 0) active))"

definition textExtensions :: "string list" where
  "textExtensions = [''.txt'', ''.ini'', ''.conf'', ''.config'', ''.xml'', ''.json'', ''.yaml'', ''.yml'', ''.csv'',
     ''.log'', ''.ps1'', ''.bat'', ''.cmd'', ''.vbs'', ''.sh'', ''.bash'', ''.zsh'', ''.py'', ''.rb'', ''.php'', ''.pl'',
     ''.js'', ''.ts'', ''.cs'', ''.vb'', ''.java'', ''.go'', ''.sql'', ''.reg'', ''.env'', ''.md'', ''.dsn'', ''.udl'',
     ''.ora'', ''.properties'', ''.toml'', ''.ovpn'', ''.ppk'']"

definition buildArchiveExtensionHints :: "string list \<Rightarrow> string list" where
  "buildArchiveExtensionHints contentHints = textExtensions @ map normalizeExtension contentHints"

text \<open>\<open>observed\<close>: whether the sink is also a \<open>ValidationObserver\<close>.\<close>

definition NewEngine :: "int \<Rightarrow> EngineOptions \<Rightarrow> RuleManager option \<Rightarrow> bool \<Rightarrow> Engine" where
  "NewEngine gomaxprocs opts0 manager0 observed =
     (let opts = opts0\<lparr>go_Workers := ResolveWorkerCount gomaxprocs (go_Workers opts0),
            go_SnippetBytes := (if go_SnippetBytes opts0 \<le> 0 then 120 else go_SnippetBytes opts0),
            go_Archives := resolveArchiveOptions (go_Archives opts0)\<rparr>;
          manager = (case manager0 of Some m \<Rightarrow> m
            | None \<Rightarrow> empty_manager [] \<lparr>mo_EnabledRuleIDs = [], mo_DisabledRuleIDs = [], mo_IncludeTags = [],
                mo_ExcludeTags = [], mo_MinSeverity = []\<rparr>);
          contentRules = RulesByType manager RuleTypeContent;
          (hints, generic) = buildContentRuleHints contentRules
      in \<lparr>en_opts = opts, en_manager = manager, en_snippetBytes = content_snippet_bytes (go_SnippetBytes opts),
          en_filenameRules = RulesByType manager RuleTypeFilename,
          en_extensionRules = RulesByType manager RuleTypeExtension, en_contentRules = contentRules,
          en_contentExtHints = hints, en_archiveExtHints = buildArchiveExtensionHints hints,
          en_hasGenericText = generic, en_sqlite = sqlite_resolveOptions (go_SQLite opts), en_wim = go_WIM opts,
          en_validationMode = go_ValidationMode opts, en_observed = observed\<rparr>)"

subsection \<open>Decisions\<close>

definition archiveExtensions :: "string list" where
  "archiveExtensions = [''.zip'', ''.docx'', ''.xlsx'', ''.pptx'', ''.tar'', ''.tar.gz'', ''.tgz'']"

definition archiveDecision :: "Engine \<Rightarrow> FileMetadata \<Rightarrow> bool \<times> string \<times> bool" where
  "archiveDecision e meta =
     (if ResolveArchiveExtension (m_Name meta) (m_FilePath meta) (m_Extension meta) \<notin> set archiveExtensions
      then (False, [], False)
      else case ShouldInspect \<lparr>ac_Name = m_Name meta, ac_Extension = m_Extension meta, ac_Size = word_of_int (m_Size meta)\<rparr>
               (go_Archives (en_opts e)) of (shouldInspect, reason) \<Rightarrow> (shouldInspect, reason, True))"

definition wimDecision :: "Engine \<Rightarrow> FileMetadata \<Rightarrow> bool \<times> string \<times> bool" where
  "wimDecision e meta =
     (if normalizeExtension (m_Extension meta) \<noteq> ''.wim'' then (False, [], False)
      else case wim_ShouldInspect \<lparr>wc_Name = m_Name meta, wc_Extension = m_Extension meta, wc_Size = word_of_int (m_Size meta)\<rparr>
               (en_wim e) of (shouldInspect, reason) \<Rightarrow> (shouldInspect, reason, True))"

definition sqliteDecision :: "Engine \<Rightarrow> FileMetadata \<Rightarrow> bool \<times> string \<times> bool" where
  "sqliteDecision e meta =
     (if normalizeExtension (m_Extension meta) \<in> set [''.sqlite'', ''.sqlite3'', ''.db'', ''.db3''] then
        (case sqlite_ShouldInspect (sqliteCandidate meta) (go_SQLite (en_opts e)) of
           (shouldInspect, reason) \<Rightarrow> (shouldInspect, reason, True))
      else (False, [], False))"

definition shouldSkipByPath :: "engine_library \<Rightarrow> Engine \<Rightarrow> FileMetadata \<Rightarrow> bool" where
  "shouldSkipByPath lib e meta =
     (let resolved = ResolveArchiveExtension (m_Name meta) (m_FilePath meta) (m_Extension meta);
          ext = (if resolved \<noteq> [] \<and> resolved \<in> set archiveExtensions then resolved else m_Extension meta)
      in fst (ShouldExclude (lib_regex lib) (en_manager e)
           \<lparr>c_Path = m_FilePath meta, c_Name = m_Name meta, c_Extension = ext, c_Content = [], c_Size = m_Size meta, c_IsDir = m_IsDir meta\<rparr>))"

definition shouldReadContent :: "Engine \<Rightarrow> FileMetadata \<Rightarrow> Rule list \<Rightarrow> bool" where
  "shouldReadContent e meta contentRules =
     (if go_MaxReadBytes (en_opts e) > 0 \<and> m_Size meta > go_MaxReadBytes (en_opts e) then False
      else if length contentRules = 0 then False
      else if \<not> en_hasGenericText e \<and> normalizeExtension (m_Extension meta) \<notin> set (en_contentExtHints e) then False
      else ContentNeedsContent contentRules meta)"

definition wants_content :: "Engine \<Rightarrow> FileMetadata \<Rightarrow> bool" where
  "wants_content e meta \<longleftrightarrow>
     shouldReadContent e meta (en_contentRules e) \<or> AWSNeedsContent (awsCandidate meta) \<or>
     DBNeedsContent (dbCandidate meta) \<or> KeyNeedsContent (keyCandidate meta) \<or>
     SQLiteNeedsContent (en_sqlite e) (sqliteCandidate meta) \<or> WinCredNeedsContent (winCredCandidate meta)"

definition oversized :: "Engine \<Rightarrow> FileMetadata \<Rightarrow> bool" where
  "oversized e meta \<longleftrightarrow> go_MaxFileSizeBytes (en_opts e) > 0 \<and> m_Size meta > go_MaxFileSizeBytes (en_opts e)"

definition NeedsContent :: "engine_library \<Rightarrow> Engine \<Rightarrow> FileMetadata \<Rightarrow> bool" where
  "NeedsContent lib e meta0 =
     (let meta = Normalized meta0
      in if m_IsDir meta \<or> shouldSkipByPath lib e meta then False
         else case archiveDecision e meta of
                (shouldInspect, _, True) \<Rightarrow> shouldInspect
              | (_, _, False) \<Rightarrow>
                  (case wimDecision e meta of
                     (shouldInspect, _, True) \<Rightarrow> shouldInspect
                   | (_, _, False) \<Rightarrow>
                       (case sqliteDecision e meta of
                          (shouldInspect, _, True) \<Rightarrow> shouldInspect
                        | (_, _, False) \<Rightarrow> if oversized e meta then False else wants_content e meta)))"

subsection \<open>One file\<close>

datatype observation = Suppressed SuppressedFinding | VisibleFinding Finding | DowngradedFinding Finding

definition recordValidationFindings :: "Engine \<Rightarrow> Finding list \<Rightarrow> observation list" where
  "recordValidationFindings e findings =
     (if \<not> en_validationMode e \<or> \<not> en_observed e \<or> length findings = 0 then []
      else concat (map (\<lambda>f. VisibleFinding f #
        (if cb_TriageAdjustment (f_ConfidenceBreakdown f) < 0 \<or> f_TriageClass f = ''config-only'' \<or>
            f_TriageClass f = ''weak-review'' then [DowngradedFinding f] else [])) findings))"

definition metadata_findings :: "engine_library \<Rightarrow> Engine \<Rightarrow> FileMetadata \<Rightarrow> Finding list" where
  "metadata_findings lib e meta =
     FilenameScan (lib_regex lib) (en_filenameRules e) meta @
     ExtensionScan (lib_regex lib) (en_extensionRules e) meta @
     findingsFromBackupMatches meta (BackupInspectMetadata (backupCandidate meta)) @
     findingsFromAWSMatches meta (AWSInspectMetadata (awsCandidate meta)) @
     findingsFromBrowserCredMatches meta (BrowserInspectMetadata (browserCredCandidate meta)) @
     findingsFromDBMatches meta (DBInspectMetadata (dbCandidate meta)) @
     findingsFromWinCredMatches meta (WinCredInspectMetadata (winCredCandidate meta))"

definition content_findings :: "engine_library \<Rightarrow> Engine \<Rightarrow> FileMetadata \<Rightarrow> string \<Rightarrow> Finding list \<times> SuppressedFinding list" where
  "content_findings lib e meta content =
     (case ContentScan (lib_regex lib) (lib_unicode lib) (lib_charmaps lib) (en_snippetBytes e) (en_contentRules e) meta content of
        (findings, suppressed) \<Rightarrow>
          (findings @
           findingsFromAWSMatches meta (AWSInspectContent (lib_unicode lib) (lib_charmaps lib) (awsCandidate meta) content) @
           findingsFromDBMatches meta (DBInspectContent (lib_unicode lib) (lib_charmaps lib) (lib_url lib) (dbCandidate meta) content) @
           findingsFromKeyMatches meta (KeyInspectContent (lib_unicode lib) (lib_charmaps lib) (keyCandidate meta) content) @
           findingsFromSQLiteMatches meta (SQLiteInspectContent (lib_unicode lib) (lib_charmaps lib) (lib_url lib) (lib_sqlite lib)
             (en_sqlite e) (sqliteCandidate meta) content),
           suppressed))"

definition finished_findings :: "engine_library \<Rightarrow> FileMetadata \<Rightarrow> Finding list \<Rightarrow> Finding list" where
  "finished_findings lib meta findings =
     adjustBrowserArtifactVisibility (adjustAWSArtifactVisibility
       (correlateFindings (lib_order lib findings) meta findings))"

definition evaluateStandard ::
  "engine_library \<Rightarrow> Engine \<Rightarrow> FileMetadata \<Rightarrow> string \<Rightarrow> bool \<Rightarrow> Evaluation \<times> observation list" where
  "evaluateStandard lib e meta content0 forceContent =
     (let needContent = forceContent \<or> wants_content e meta
      in if \<not> needContent \<or> length content0 = 0 then
           let findings = finished_findings lib meta (metadata_findings lib e meta)
           in (\<lparr>e_Skipped = False, e_SkipReason = [], e_NeedContent = needContent, e_ContentRead = False, e_Findings = findings\<rparr>,
               recordValidationFindings e findings)
         else
           let content = (if go_MaxReadBytes (en_opts e) > 0 \<and> int (length content0) > go_MaxReadBytes (en_opts e)
                          then take (nat (go_MaxReadBytes (en_opts e))) content0 else content0)
           in case content_findings lib e meta content of
                (fromContent, suppressed) \<Rightarrow>
                  let findings = finished_findings lib meta (metadata_findings lib e meta @ fromContent)
                  in (\<lparr>e_Skipped = False, e_SkipReason = [], e_NeedContent = True, e_ContentRead = True, e_Findings = findings\<rparr>,
                      (if en_observed e then map Suppressed suppressed else []) @ recordValidationFindings e findings))"

definition skipped :: "bool \<Rightarrow> bool \<Rightarrow> string \<Rightarrow> Evaluation" where
  "skipped needContent contentRead reason =
     \<lparr>e_Skipped = True, e_SkipReason = reason, e_NeedContent = needContent, e_ContentRead = contentRead, e_Findings = []\<rparr>"

definition archiveDisplayPath :: "string \<Rightarrow> string \<Rightarrow> string" where
  "archiveDisplayPath outerPath memberPath = NormalizePath (trim_space outerPath @ ''!'' @ trim_space memberPath)"

definition member_meta :: "FileMetadata \<Rightarrow> bool \<Rightarrow> string \<Rightarrow> string \<Rightarrow> string \<Rightarrow> int64 \<Rightarrow> FileMetadata" where
  "member_meta meta locally path name ext bytes =
     meta\<lparr>m_ArchivePath := m_FilePath meta, m_ArchiveMemberPath := path, m_ArchiveLocalInspect := locally,
          m_FilePath := archiveDisplayPath (m_FilePath meta) path, m_Name := name, m_Extension := ext, m_Size := sint bytes\<rparr>"

text \<open>The members of an archive in order, each evaluated as a file of its own.\<close>

definition evaluate_members ::
  "('m \<Rightarrow> FileMetadata) \<Rightarrow> ('m \<Rightarrow> FileMetadata \<Rightarrow> Evaluation \<times> observation list) \<Rightarrow> 'm list \<Rightarrow> Evaluation \<times> observation list" where
  "evaluate_members memberMeta evaluate members =
     (let evaluations = map (\<lambda>m. evaluate m (memberMeta m)) members
      in (\<lparr>e_Skipped = False, e_SkipReason = [], e_NeedContent = True, e_ContentRead = True,
           e_Findings = concat (map (\<lambda>ev. e_Findings (fst ev)) evaluations)\<rparr>,
          concat (map snd evaluations)))"

definition inspectArchive :: "engine_library \<Rightarrow> Engine \<Rightarrow> string \<Rightarrow> string \<Rightarrow> (string + ArchiveResult) option" where
  "inspectArchive lib e archiveExt content =
     (if archiveExt \<in> set [''.zip'', ''.docx'', ''.xlsx'', ''.pptx''] then
        Some (InspectZIP (lib_unicode lib) (lib_charmaps lib) (lib_archives lib) content archiveExt (go_Archives (en_opts e)) (en_archiveExtHints e))
      else if archiveExt \<in> set [''.tar'', ''.tar.gz'', ''.tgz''] then
        Some (InspectTAR (lib_unicode lib) (lib_charmaps lib) (lib_archives lib) content archiveExt (go_Archives (en_opts e)) (en_archiveExtHints e))
      else None)"

definition evaluateArchive :: "engine_library \<Rightarrow> Engine \<Rightarrow> FileMetadata \<Rightarrow> string \<Rightarrow> Evaluation \<times> observation list" where
  "evaluateArchive lib e meta content =
     (if length content = 0 then (skipped True False ''archive content unavailable'', [])
      else
        let archiveExt = ResolveArchiveExtension (m_Name meta) (m_FilePath meta) (m_Extension meta)
        in case inspectArchive lib e archiveExt content of
             None \<Rightarrow> (skipped True True (''unsupported archive type '' @ quote archiveExt), [])
           | Some (Inl err) \<Rightarrow> (skipped True True (''archive inspection failed: '' @ err), [])
           | Some (Inr result) \<Rightarrow>
               if \<not> ar_Inspected result then (skipped True True (ar_SkipReason result), [])
               else evaluate_members
                 (\<lambda>m. member_meta meta (ar_InspectedLocally result) (mb_Path m) (mb_Name m) (mb_Extension m) (mb_Size m))
                 (\<lambda>m memberMeta. evaluateStandard lib e memberMeta (mb_Content m) True) (ar_Members result))"

definition evaluateWIM :: "engine_library \<Rightarrow> Engine \<Rightarrow> FileMetadata \<Rightarrow> string \<Rightarrow> Evaluation \<times> observation list" where
  "evaluateWIM lib e meta content =
     (if length content = 0 then (skipped True False ''wim content unavailable'', [])
      else
        case WimInspect (lib_wim lib) content (en_wim e) of
          Inl err \<Rightarrow> (skipped True True (''wim inspection failed: '' @ err), [])
        | Inr result \<Rightarrow>
            if \<not> wr_Inspected result then (skipped True True (wr_SkipReason result), [])
            else evaluate_members
              (\<lambda>m. member_meta meta (wr_InspectedLocally result) (wm_Path m) (wm_Name m) (wm_Extension m) (wm_Size m))
              (\<lambda>m memberMeta. evaluateStandard lib e memberMeta (wm_Content m) (wm_ContentRead m)) (wr_Members result))"

definition Evaluate :: "engine_library \<Rightarrow> Engine \<Rightarrow> FileMetadata \<Rightarrow> string \<Rightarrow> Evaluation \<times> observation list" where
  "Evaluate lib e meta0 content =
     (let meta = Normalized meta0
      in if m_IsDir meta then (skipped False False ''directories are not scanned as files'', [])
         else if shouldSkipByPath lib e meta then (skipped False False ''matched skip rule'', [])
         else case archiveDecision e meta of
                (shouldInspect, skipReason, True) \<Rightarrow>
                  if \<not> shouldInspect then (skipped False False skipReason, []) else evaluateArchive lib e meta content
              | (_, _, False) \<Rightarrow>
                  (case wimDecision e meta of
                     (shouldInspect, skipReason, True) \<Rightarrow>
                       if \<not> shouldInspect then (skipped False False skipReason, []) else evaluateWIM lib e meta content
                   | (_, _, False) \<Rightarrow>
                       (case sqliteDecision e meta of
                          (shouldInspect, skipReason, isSQLite) \<Rightarrow>
                            if isSQLite \<and> \<not> shouldInspect then (skipped False False skipReason, [])
                            else if oversized e meta then
                              (skipped False False (''file exceeds max size limit of '' @ itoa (go_MaxFileSizeBytes (en_opts e)) @ '' bytes''), [])
                            else evaluateStandard lib e meta content False)))"

subsection \<open>What is read\<close>

lemma resolve_sqlite_id:
  assumes "0 < so_AutoDBMaxSize opts" "0 < so_MaxDBSize opts" "0 < so_MaxTables opts" "0 < so_MaxRowsPerTable opts"
    "0 < so_MaxCellBytes opts" "0 < so_MaxTotalBytes opts" "0 < so_MaxInterestingCols opts"
  shows "sqlite_resolveOptions opts = opts"
proof -
  have "opts \<noteq> no_sqlite_options" using assms(1) by (auto simp: no_sqlite_options_def)
  then show ?thesis using assms by (simp add: sqlite_resolveOptions_def positive_or_def Let_def)
qed

lemma resolve_sqlite_idem: "sqlite_resolveOptions (sqlite_resolveOptions opts) = sqlite_resolveOptions opts"
  by (rule resolve_sqlite_id)
     (auto simp: sqlite_resolveOptions_def positive_or_def Let_def)

lemma sqlite_should_resolved: "sqlite_ShouldInspect c (sqlite_resolveOptions opts) = sqlite_ShouldInspect c opts"
  by (simp add: sqlite_ShouldInspect_def resolve_sqlite_idem)

lemma new_engine_sqlite: "en_sqlite (NewEngine g opts manager observed) = sqlite_resolveOptions (go_SQLite (en_opts (NewEngine g opts manager observed)))"
  by (simp add: NewEngine_def Let_def split: prod.split)

lemma sqlite_wanted:
  assumes "sqliteDecision (NewEngine g opts manager observed) meta = (True, reason, True)"
  shows "wants_content (NewEngine g opts manager observed) meta"
  using assms
  by (auto simp: sqliteDecision_def wants_content_def SQLiteNeedsContent_def new_engine_sqlite sqlite_should_resolved
      split: if_splits prod.splits)

lemma standard_flags:
  "e_NeedContent (fst (evaluateStandard lib e meta content force)) = (force \<or> wants_content e meta)"
  "e_ContentRead (fst (evaluateStandard lib e meta content force)) \<longleftrightarrow> (force \<or> wants_content e meta) \<and> content \<noteq> []"
  "\<not> e_Skipped (fst (evaluateStandard lib e meta content force))"
  by (auto simp: evaluateStandard_def Let_def split: prod.split)

lemma skipped_flags [simp]:
  "e_Skipped (skipped n r reason)" "e_Findings (skipped n r reason) = []"
  "e_NeedContent (skipped n r reason) = n" "e_ContentRead (skipped n r reason) = r"
  by (simp_all add: skipped_def)

lemma members_flags [simp]:
  "\<not> e_Skipped (fst (evaluate_members mm ev ms))" "e_NeedContent (fst (evaluate_members mm ev ms))"
  "e_ContentRead (fst (evaluate_members mm ev ms))"
  "e_Findings (fst (evaluate_members mm ev ms)) = concat (map (\<lambda>m. e_Findings (fst (ev m (mm m)))) ms)"
  by (simp_all add: evaluate_members_def Let_def comp_def)

lemma archive_flags:
  "e_NeedContent (fst (evaluateArchive lib e meta content))"
  "e_ContentRead (fst (evaluateArchive lib e meta content)) \<longleftrightarrow> content \<noteq> []"
  "e_Skipped (fst (evaluateArchive lib e meta content)) \<Longrightarrow> e_Findings (fst (evaluateArchive lib e meta content)) = []"
  by (auto simp: evaluateArchive_def Let_def split: option.splits sum.splits)

lemma wim_flags:
  "e_NeedContent (fst (evaluateWIM lib e meta content))"
  "e_ContentRead (fst (evaluateWIM lib e meta content)) \<longleftrightarrow> content \<noteq> []"
  "e_Skipped (fst (evaluateWIM lib e meta content)) \<Longrightarrow> e_Findings (fst (evaluateWIM lib e meta content)) = []"
  by (auto simp: evaluateWIM_def Let_def split: sum.splits)

text \<open>A database that would be inspected but is larger than any file may be: it is read, and then skipped.\<close>

definition oversized_database :: "engine_library \<Rightarrow> Engine \<Rightarrow> FileMetadata \<Rightarrow> bool" where
  "oversized_database lib e meta0 =
     (let meta = Normalized meta0
      in \<not> m_IsDir meta \<and> \<not> shouldSkipByPath lib e meta \<and> \<not> snd (snd (archiveDecision e meta)) \<and>
         \<not> snd (snd (wimDecision e meta)) \<and> snd (snd (sqliteDecision e meta)) \<and> fst (sqliteDecision e meta) \<and>
         oversized e meta)"

lemma engine_flags:
  fixes g :: int and opts :: EngineOptions and manager :: "RuleManager option" and observed :: bool
  defines "e \<equiv> NewEngine g opts manager observed"
  shows "(NeedsContent lib e meta \<longleftrightarrow> e_NeedContent (fst (Evaluate lib e meta content)) \<or> oversized_database lib e meta) \<and>
     \<not> (e_NeedContent (fst (Evaluate lib e meta content)) \<and> oversized_database lib e meta) \<and>
     (e_Skipped (fst (Evaluate lib e meta content)) \<and> e_Findings (fst (Evaluate lib e meta content)) \<noteq> [] \<longleftrightarrow> False) \<and>
     (e_ContentRead (fst (Evaluate lib e meta content)) \<longleftrightarrow> e_NeedContent (fst (Evaluate lib e meta content)) \<and> content \<noteq> [])"
proof -
  let ?m = "Normalized meta"
  note flags = standard_flags archive_flags(1,2) wim_flags(1,2)
  note defs = Evaluate_def NeedsContent_def oversized_database_def Let_def
  obtain as ar ai where a: "archiveDecision e ?m = (as, ar, ai)" by (cases "archiveDecision e ?m")
  obtain ws wr wi where w: "wimDecision e ?m = (ws, wr, wi)" by (cases "wimDecision e ?m")
  obtain ss sr si where s: "sqliteDecision e ?m = (ss, sr, si)" by (cases "sqliteDecision e ?m")
  have sw: "wants_content e ?m" if "ss" "si"
    using s that unfolding e_def by (intro sqlite_wanted [of _ _ _ _ _ sr]) simp
  consider "m_IsDir ?m \<or> shouldSkipByPath lib e ?m" | "\<not> m_IsDir ?m" "\<not> shouldSkipByPath lib e ?m" "ai"
    | "\<not> m_IsDir ?m" "\<not> shouldSkipByPath lib e ?m" "\<not> ai" "wi"
    | "\<not> m_IsDir ?m" "\<not> shouldSkipByPath lib e ?m" "\<not> ai" "\<not> wi" by blast
  then show ?thesis
  proof cases
    case 2
    then show ?thesis using archive_flags(3) [of lib e ?m content] by (cases as) (simp_all add: defs a w s flags)
  next
    case 3
    then show ?thesis using wim_flags(3) [of lib e ?m content] by (cases ws) (simp_all add: defs a w s flags)
  next
    case 4
    then show ?thesis using sw by (cases si; cases ss; cases "oversized e ?m") (simp_all add: defs a w s flags)
  qed (auto simp: defs)
qed

text \<open>
  C37: What the workers ask before they load a file and what the evaluation then says it needed agree,
  whatever the content, for every file but one kind: a SQLite database larger than the limit on files,
  which is loaded and then skipped. A skipped file has no findings, and content is reported as read only
  when there was some and it was needed.
\<close>

theorem needs_content_agrees:
  "let e = NewEngine g opts manager observed; evaluation = fst (Evaluate lib e meta content) in
     (NeedsContent lib e meta \<longleftrightarrow> e_NeedContent evaluation \<or> oversized_database lib e meta) \<and>
     \<not> (e_NeedContent evaluation \<and> oversized_database lib e meta) \<and>
     (e_Skipped evaluation \<and> e_Findings evaluation \<noteq> [] \<longleftrightarrow> False) \<and>
     (e_ContentRead evaluation \<longleftrightarrow> e_NeedContent evaluation \<and> content \<noteq> [])"
  unfolding Let_def by (rule engine_flags)

interpretation engine: evaluator "NeedsContent lib (NewEngine g opts manager observed)"
  "\<lambda>m c. fst (Evaluate lib (NewEngine g opts manager observed) m c)"
  for lib g opts manager observed
proof unfold_locales
  fix m c
  let ?e = "NewEngine g opts manager observed"
  have n: "(NeedsContent lib ?e m \<longleftrightarrow> e_NeedContent (fst (Evaluate lib ?e m c)) \<or> oversized_database lib ?e m) \<and>
     \<not> (e_NeedContent (fst (Evaluate lib ?e m c)) \<and> oversized_database lib ?e m) \<and>
     (e_Skipped (fst (Evaluate lib ?e m c)) \<and> e_Findings (fst (Evaluate lib ?e m c)) \<noteq> [] \<longleftrightarrow> False) \<and>
     (e_ContentRead (fst (Evaluate lib ?e m c)) \<longleftrightarrow> e_NeedContent (fst (Evaluate lib ?e m c)) \<and> c \<noteq> [])"
    by (rule engine_flags)
  show "e_NeedContent (fst (Evaluate lib ?e m c)) \<Longrightarrow> NeedsContent lib ?e m" using n by blast
  show "e_ContentRead (fst (Evaluate lib ?e m c)) \<Longrightarrow> c \<noteq> [] \<and> e_NeedContent (fst (Evaluate lib ?e m c))" using n by blast
  show "e_Skipped (fst (Evaluate lib ?e m c)) \<Longrightarrow> e_Findings (fst (Evaluate lib ?e m c)) = []" using n by blast
qed

subsection \<open>Where findings come from\<close>

lemma from_file_path_signal [simp]: "from_file m (add_path_signal reason f) = from_file m f"
  by (simp add: from_file_def add_path_signal_def)

lemma from_file_reason [simp]: "from_file m (f\<lparr>f_MatchReason := reason\<rparr>) = from_file m f"
  by (simp add: from_file_def)

lemma from_file_downgraded [simp]: "from_file m (downgraded reason f) = from_file m f"
  by (simp add: from_file_def downgraded_def Let_def)

lemma from_file_sqlite: "from_file m (finding_from_sqlite m match)"
proof -
  have "from_file m (newFinding (ruleFromSQLiteMatch match) m (match_evidence match))" by (rule from_file_new)
  then show ?thesis
    by (simp add: finding_from_sqlite_def Let_def del: from_file_new) (simp add: from_file_def)
qed

lemma heuristic_scan_from_file: "list_all (from_file m) (heuristic_scan re input rules m)"
  by (induction rules) (simp_all split: option.split)

lemma content_scan_from_file: "list_all (from_file m) (fst (content_scan re n txt0 rules m))"
  by (induction rules) (auto split: option.splits prod.splits bool.splits)

lemma finding_from_aws_from_file: "from_file m (finding_from_aws m match)"
  by (simp add: finding_from_aws_def Let_def)

lemma metadata_from_file: "list_all (from_file m) (metadata_findings lib e m)"
  by (simp add: metadata_findings_def FilenameScan_def ExtensionScan_def heuristic_scan_from_file Let_def
      findingsFromBackupMatches_def findingsFromAWSMatches_def findingsFromBrowserCredMatches_def
      findingsFromDBMatches_def findingsFromWinCredMatches_def list.pred_map comp_def finding_from_aws_from_file
      list.pred_True)

lemma content_from_file: "list_all (from_file m) (fst (content_findings lib e m content))"
  using content_scan_from_file
  by (simp add: content_findings_def ContentScan_def Let_def findingsFromAWSMatches_def findingsFromDBMatches_def
      findingsFromKeyMatches_def findingsFromSQLiteMatches_def list.pred_map comp_def finding_from_aws_from_file
      from_file_sqlite list.pred_True split_beta)

definition order_ok :: "engine_library \<Rightarrow> bool" where
  "order_ok lib \<longleftrightarrow> (\<forall>findings. mset (lib_order lib findings) = mset (bucket_keys findings))"

lemma visibility_from_file:
  "list_all (from_file m) (adjustBrowserArtifactVisibility (adjustAWSArtifactVisibility fs)) = list_all (from_file m) fs"
proof -
  have "from_file m (downgradeAWSArtifactFinding f i) = from_file m f" for f i
    by (simp add: downgradeAWSArtifactFinding_def)
  moreover have "from_file m (downgradeBrowserArtifactFinding f) = from_file m f" for f
    by (simp add: downgradeBrowserArtifactFinding_def)
  ultimately show ?thesis
    by (induction fs) (simp_all add: adjustBrowserArtifactVisibility_def adjustAWSArtifactVisibility_def Let_def)
qed

lemma standard_from_file:
  assumes "order_ok lib"
  shows "list_all (from_file m) (e_Findings (fst (evaluateStandard lib e m content force)))"
proof -
  have "list_all (from_file m) (finished_findings lib m fs)" if "list_all (from_file m) fs" for fs
    unfolding finished_findings_def visibility_from_file
    by (rule from_file_correlated [OF that]) (use assms in \<open>simp add: order_ok_def\<close>)
  then show ?thesis
    using metadata_from_file [of m lib e] content_from_file [of m lib e]
    by (simp add: evaluateStandard_def Let_def split_beta)
qed

text \<open>The order in which the groups of findings are visited does not show.\<close>

lemma from_file_one_share: "list_all (from_file m) fs \<Longrightarrow> one_share fs"
  by (auto simp: one_share_def list_all_iff from_file_def)

lemma finished_order:
  assumes "order_ok lib" "order_ok (lib\<lparr>lib_order := order\<rparr>)" "list_all (from_file m) fs"
  shows "finished_findings (lib\<lparr>lib_order := order\<rparr>) m fs = finished_findings lib m fs"
proof -
  note o = correlate_order_irrelevant [OF from_file_one_share [OF assms(3)]]
  have "correlateFindings (order fs) m fs = correlateFindings (bucket_keys fs) m fs"
    by (rule o) (use assms(2) in \<open>simp add: order_ok_def\<close>)
  moreover have "correlateFindings (lib_order lib fs) m fs = correlateFindings (bucket_keys fs) m fs"
    by (rule o) (use assms(1) in \<open>simp add: order_ok_def\<close>)
  ultimately show ?thesis by (simp add: finished_findings_def)
qed

lemma standard_order:
  assumes "order_ok lib" "order_ok (lib\<lparr>lib_order := order\<rparr>)"
  shows "evaluateStandard (lib\<lparr>lib_order := order\<rparr>) e m content force = evaluateStandard lib e m content force"
proof -
  have md: "metadata_findings (lib\<lparr>lib_order := order\<rparr>) e m = metadata_findings lib e m"
    by (simp add: metadata_findings_def)
  have cf: "content_findings (lib\<lparr>lib_order := order\<rparr>) e m c = content_findings lib e m c" for c
    by (simp add: content_findings_def)
  have "finished_findings (lib\<lparr>lib_order := order\<rparr>) m (metadata_findings lib e m) = finished_findings lib m (metadata_findings lib e m)"
    by (rule finished_order [OF assms metadata_from_file])
  moreover have "finished_findings (lib\<lparr>lib_order := order\<rparr>) m (metadata_findings lib e m @ fst (content_findings lib e m c)) =
      finished_findings lib m (metadata_findings lib e m @ fst (content_findings lib e m c))" for c
    by (rule finished_order [OF assms]) (simp add: metadata_from_file content_from_file)
  ultimately show ?thesis
    by (simp add: evaluateStandard_def md cf Let_def split_beta)
qed

text \<open>
  What a file is evaluated to does not depend on the order in which Go visits the map of its groups of
  findings: any two orders give the same findings and the same observations, in the same order, for
  plain files, archives and images.
\<close>

theorem evaluate_deterministic:
  assumes "order_ok lib" and "order_ok (lib\<lparr>lib_order := order\<rparr>)"
  shows "Evaluate (lib\<lparr>lib_order := order\<rparr>) e meta content = Evaluate lib e meta content"
proof -
  note st = standard_order [OF assms]
  have sk: "shouldSkipByPath (lib\<lparr>lib_order := order\<rparr>) e m = shouldSkipByPath lib e m" for m
    by (simp add: shouldSkipByPath_def)
  have "inspectArchive (lib\<lparr>lib_order := order\<rparr>) e ext c = inspectArchive lib e ext c" for ext c
    by (auto simp: inspectArchive_def)
  then have ar: "evaluateArchive (lib\<lparr>lib_order := order\<rparr>) e m content = evaluateArchive lib e m content" for m
    by (simp only: evaluateArchive_def st)
  have "lib_wim (lib\<lparr>lib_order := order\<rparr>) = lib_wim lib" by simp
  then have wi: "evaluateWIM (lib\<lparr>lib_order := order\<rparr>) e m content = evaluateWIM lib e m content" for m
    by (simp only: evaluateWIM_def st)
  show ?thesis by (simp only: Evaluate_def sk ar wi st)
qed

subsection \<open>Findings inside archives\<close>

definition inside_path :: "string \<Rightarrow> bool" where
  "inside_path p \<longleftrightarrow>
     (list_all plain_element (split_on CHR ''/'' p) \<and> \<not> driveLetterPath p) \<or> isTargetedPath (to_lower (''/'' @ p))"

text \<open>A finding of a file, or of a member of the file when it is an archive.\<close>

definition located :: "FileMetadata \<Rightarrow> Finding \<Rightarrow> bool" where
  "located m f \<longleftrightarrow>
     from_file (m\<lparr>m_ArchivePath := f_ArchivePath f, m_ArchiveMemberPath := f_ArchiveMemberPath f,
       m_ArchiveLocalInspect := f_ArchiveLocalInspect f\<rparr>) f \<and>
     (f_ArchivePath f = m_ArchivePath m \<and> f_ArchiveMemberPath f = m_ArchiveMemberPath m \<or>
      f_ArchivePath f = m_FilePath m \<and> inside_path (f_ArchiveMemberPath f))"

lemma located_file: "from_file m f \<Longrightarrow> located m f"
  by (simp add: located_def from_file_def)

lemma located_member: "from_file (member_meta m locally p n x b) f \<Longrightarrow> inside_path p \<Longrightarrow> located m f"
  by (simp add: located_def from_file_def member_meta_def)

lemma archive_located:
  assumes "order_ok lib"
  shows "list_all (located m) (e_Findings (fst (evaluateArchive lib e m content)))"
proof -
  have "located m f"
    if i: "inspectArchive lib e ext content = Some (Inr result)" and mb: "mb \<in> set (ar_Members result)"
      and f: "f \<in> set (e_Findings (fst (evaluateStandard lib e
        (member_meta m loc (mb_Path mb) (mb_Name mb) (mb_Extension mb) (mb_Size mb)) (mb_Content mb) True)))"
    for ext result mb loc f
  proof (rule located_member)
    show "from_file (member_meta m loc (mb_Path mb) (mb_Name mb) (mb_Extension mb) (mb_Size mb)) f"
      using standard_from_file [OF assms] f by (simp add: list_all_iff)
    have "safe_member mb"
      using i mb zip_members_safe tar_members_safe by (fastforce simp: inspectArchive_def split: if_splits)
    then show "inside_path (mb_Path mb)" by (simp add: safe_member_def inside_path_def)
  qed
  then show ?thesis
    by (auto simp: evaluateArchive_def Let_def list_all_iff split: option.splits sum.splits)
qed

lemma wim_located:
  assumes "order_ok lib"
  shows "list_all (located m) (e_Findings (fst (evaluateWIM lib e m content)))"
proof -
  have "located m f"
    if i: "WimInspect (lib_wim lib) content (en_wim e) = Inr result" and mb: "mb \<in> set (wr_Members result)"
      and f: "f \<in> set (e_Findings (fst (evaluateStandard lib e
        (member_meta m loc (wm_Path mb) (wm_Name mb) (wm_Extension mb) (wm_Size mb)) (wm_Content mb) (wm_ContentRead mb))))"
    for result mb loc f
  proof (rule located_member)
    show "from_file (member_meta m loc (wm_Path mb) (wm_Name mb) (wm_Extension mb) (wm_Size mb)) f"
      using standard_from_file [OF assms] f by (simp add: list_all_iff)
    have "wim_target mb"
      using i mb wim_loop_targets [of "[]"]
      by (auto simp: WimInspect_def list_all_iff split: option.splits sum.splits)
    then show "inside_path (wm_Path mb)" by (simp add: wim_target_def inside_path_def)
  qed
  then show ?thesis
    by (auto simp: evaluateWIM_def list_all_iff split: sum.splits)
qed

text \<open>
  C38: Every finding of a file says where it is: host, share, source, priorities, DFS link and share flags
  are those of the file, correlated or not; and it is a finding of the file itself or of a member of
  it, whose path stays below the archive or is one of the targets in an image.
\<close>

theorem evaluate_provenance:
  assumes "order_ok lib"
  shows "list_all (located (Normalized meta)) (e_Findings (fst (Evaluate lib e meta content)))"
proof -
  have "list_all (located m) (e_Findings (fst (evaluateStandard lib e m content False)))" for m
    using standard_from_file [OF assms, of m e content False] located_file by (auto simp: list_all_iff)
  then show ?thesis
    using archive_located [OF assms, of "Normalized meta" e content] wim_located [OF assms, of "Normalized meta" e content]
    by (auto simp: Evaluate_def Let_def split: prod.splits bool.splits)
qed

subsection \<open>Limits on archives\<close>

lemma resolved_limits:
  assumes "sint (ao_MaxMemberBytes opts) < 2 ^ 61" "sint (ao_MaxTotalUncompressed opts) < 2 ^ 61"
  shows "limits_set (resolveArchiveOptions opts) \<and> 0 < ao_MaxMembers (resolveArchiveOptions opts)"
proof -
  have w: "0 < sint (word_or v d) \<and> sint (word_or v d) < 2 ^ 61" if "sint v < 2 ^ 61" "0 < sint d" "sint d < 2 ^ 61" for v d
    using that by (auto simp: word_or_def word_sle_eq)
  have d: "sint (524288 :: int64) = 524288" "sint (4194304 :: int64) = 4194304" by simp_all
  show ?thesis
    using w [OF assms(1), of "512 * 1024"] w [OF assms(2), of "4 * 1024 * 1024"] d
    by (simp add: resolveArchiveOptions_def limits_set_def Let_def)
qed

lemma new_engine_archives: "go_Archives (en_opts (NewEngine g opts manager observed)) = resolveArchiveOptions (go_Archives opts)"
  by (simp add: NewEngine_def Let_def split: prod.split)

text \<open>
  However the limits on archives are configured, missing ones included, the engine takes from an
  archive at most as many members as its limit and, but for Office documents, at most as many bytes
  as its total, with one byte to spare.
\<close>

theorem engine_archive_bounded:
  assumes "sint (ao_MaxMemberBytes (go_Archives opts)) < 2 ^ 61" "sint (ao_MaxTotalUncompressed (go_Archives opts)) < 2 ^ 61"
    and "inspectArchive lib (NewEngine g opts manager observed) ext content = Some (Inr result)"
  shows "let limits = resolveArchiveOptions (go_Archives opts) in
    0 < ao_MaxMembers limits \<and> 0 < sint (ao_MaxTotalUncompressed limits) \<and>
    int (length (ar_Members result)) \<le> ao_MaxMembers limits \<and>
    (isOfficeOpenXMLExtension ext \<or> content_total (ar_Members result) \<le> sint (ao_MaxTotalUncompressed limits) + 1)"
proof -
  let ?a = "resolveArchiveOptions (go_Archives opts)"
  note l = resolved_limits [OF assms(1,2)]
  then have p: "0 < sint (ao_MaxTotalUncompressed ?a)" by (simp add: limits_set_def)
  show ?thesis
  proof (cases "ext \<in> set [''.zip'', ''.docx'', ''.xlsx'', ''.pptx'']")
    case True
    then have i: "InspectZIP (lib_unicode lib) (lib_charmaps lib) (lib_archives lib) content ext ?a
        (en_archiveExtHints (NewEngine g opts manager observed)) = Inr result"
      using assms(3) by (simp add: inspectArchive_def new_engine_archives split: if_splits)
    then show ?thesis
      using zip_members_count [OF i] archive_total_bounded [OF l [THEN conjunct1], where ut = "lib_unicode lib" and charmaps = "lib_charmaps lib"
        and al = "lib_archives lib" and content = content and outer = ext
        and allowed = "en_archiveExtHints (NewEngine g opts manager observed)"] l p
      by (simp add: Let_def)
  next
    case False
    then have i: "InspectTAR (lib_unicode lib) (lib_charmaps lib) (lib_archives lib) content ext ?a
        (en_archiveExtHints (NewEngine g opts manager observed)) = Inr result"
      using assms(3) by (simp add: inspectArchive_def new_engine_archives split: if_splits)
    then show ?thesis
      using tar_members_count [OF i] archive_total_bounded [OF l [THEN conjunct1], where ut = "lib_unicode lib" and charmaps = "lib_charmaps lib"
        and al = "lib_archives lib" and content = content and outer = ext
        and allowed = "en_archiveExtHints (NewEngine g opts manager observed)"] l p
      by (simp add: Let_def)
  qed
qed

text \<open>
  A worker that processed a file without an error gave the engine the content its loader returned
  when the engine asks for content, and otherwise nothing, and then the evaluation read none and
  needed none.
\<close>

theorem job_evaluated_on_loaded_content:
  fixes lib :: engine_library and g :: int and opts :: EngineOptions and manager :: "RuleManager option" and observed :: bool
  defines "e \<equiv> NewEngine g opts manager observed"
  defines "ev \<equiv> \<lparr>ev_NeedsContent = \<lambda>m. Returns (NeedsContent lib e m), ev_Evaluate = \<lambda>m c. Returns (fst (Evaluate lib e m c))\<rparr>"
  assumes "rs_Err (fst (processJob ev job)) = None"
  shows "let meta = Normalized (jb_Metadata job); evaluation = rs_Evaluation (fst (processJob ev job)) in
    if NeedsContent lib e meta
    then \<exists>load content. jb_LoadContent job = Some load \<and> load meta = Returns (content, None) \<and>
      evaluation = fst (Evaluate lib e meta content)
    else evaluation = fst (Evaluate lib e meta []) \<and> \<not> e_NeedContent evaluation \<and> \<not> e_ContentRead evaluation"
  using engine.job_content [of lib g opts manager observed job] assms(3) unfolding e_def ev_def Let_def by simp

subsection \<open>Examples\<close>

definition engine_demo_library :: engine_library where
  "engine_demo_library = \<lparr>lib_regex = demo_engine, lib_unicode = ascii_tables, lib_charmaps = [], lib_url = (\<lambda>u. None),
     lib_archives = demo_library, lib_wim = demo_wim_tool, lib_sqlite = (\<lambda>c. None), lib_order = bucket_keys\<rparr>"

definition engine_demo_options :: EngineOptions where
  "engine_demo_options = \<lparr>go_Workers = 0, go_MaxFileSizeBytes = 1000, go_MaxReadBytes = 1000, go_SnippetBytes = 0,
     go_Archives = demo_archive_options, go_WIM = demo_wim_options, go_SQLite = no_sqlite_options, go_ValidationMode = False\<rparr>"

definition engine_demo :: Engine where
  "engine_demo = NewEngine 2 engine_demo_options None False"

definition aws_meta :: FileMetadata where
  "aws_meta = demo_meta\<lparr>m_FilePath := ''home/u/.aws/credentials'', m_Name := ''credentials'', m_Extension := [],
     m_Host := ''fs1'', m_Share := ''users''\<rparr>"

lemma finished_nonempty: "fs \<noteq> [] \<Longrightarrow> order_ok lib \<Longrightarrow> finished_findings lib m fs \<noteq> []"
proof -
  assume "fs \<noteq> []" "order_ok lib"
  then have "length (lib_order lib fs) \<noteq> 0"
    by (metis order_ok_def size_mset bucket_keys_def length_0_conv map_is_Nil_conv remdups_eq_nil_iff)
  then show ?thesis
    using \<open>fs \<noteq> []\<close>
    by (simp add: finished_findings_def adjustBrowserArtifactVisibility_def adjustAWSArtifactVisibility_def
        correlateFindings_def)
qed

lemma demo_order_ok: "order_ok engine_demo_library"
  "order_ok (engine_demo_library\<lparr>lib_order := \<lambda>fs. rev (bucket_keys fs)\<rparr>)"
  by (simp_all add: order_ok_def engine_demo_library_def)

lemma evaluate_deterministic_witness:
  "Evaluate (engine_demo_library\<lparr>lib_order := \<lambda>fs. rev (bucket_keys fs)\<rparr>) engine_demo aws_meta [] =
   Evaluate engine_demo_library engine_demo aws_meta []"
  by (rule evaluate_deterministic [OF demo_order_ok])

lemma aws_meta_findings: "e_Findings (fst (Evaluate engine_demo_library engine_demo aws_meta [])) \<noteq> []"
proof -
  have "\<not> m_IsDir (Normalized aws_meta)" "\<not> shouldSkipByPath engine_demo_library engine_demo (Normalized aws_meta)"
    "archiveDecision engine_demo (Normalized aws_meta) = (False, [], False)"
    "wimDecision engine_demo (Normalized aws_meta) = (False, [], False)"
    "sqliteDecision engine_demo (Normalized aws_meta) = (False, [], False)"
    "\<not> oversized engine_demo (Normalized aws_meta)"
    by code_simp+
  moreover have "length (AWSInspectMetadata (awsCandidate (Normalized aws_meta))) = 1" by code_simp
  then have "metadata_findings engine_demo_library engine_demo (Normalized aws_meta) \<noteq> []"
    by (auto simp: metadata_findings_def findingsFromAWSMatches_def)
  ultimately show ?thesis
    using finished_nonempty [OF _ demo_order_ok(1)]
    by (simp add: Evaluate_def evaluateStandard_def Let_def)
qed

lemma evaluate_provenance_witness:
  "e_Findings (fst (Evaluate engine_demo_library engine_demo aws_meta [])) \<noteq> [] \<and>
   list_all (\<lambda>f. f_Host f = ''fs1'' \<and> f_Share f = ''users'') (e_Findings (fst (Evaluate engine_demo_library engine_demo aws_meta [])))"
proof -
  have n: "m_Host (Normalized aws_meta) = ''fs1''" "m_Share (Normalized aws_meta) = ''users''" by code_simp+
  have "list_all (located (Normalized aws_meta)) (e_Findings (fst (Evaluate engine_demo_library engine_demo aws_meta [])))"
    by (rule evaluate_provenance [OF demo_order_ok(1)])
  then show ?thesis
    using aws_meta_findings n by (auto simp: list_all_iff located_def from_file_def)
qed

lemma engine_archive_bounded_witness:
  "\<exists>result. inspectArchive engine_demo_library engine_demo ''.tar'' [] = Some (Inr result) \<and>
     int (length (ar_Members result)) \<le> ao_MaxMembers (resolveArchiveOptions demo_archive_options)"
proof -
  have d: "case inspectArchive engine_demo_library engine_demo ''.tar'' [] of Some (Inr result) \<Rightarrow> True | _ \<Rightarrow> False"
    by code_simp
  then obtain result where r: "inspectArchive engine_demo_library engine_demo ''.tar'' [] = Some (Inr result)"
    by (auto split: option.splits sum.splits)
  have b: "sint (ao_MaxMemberBytes (go_Archives engine_demo_options)) < 2 ^ 61"
    "sint (ao_MaxTotalUncompressed (go_Archives engine_demo_options)) < 2 ^ 61"
    by (simp_all add: engine_demo_options_def demo_archive_options_def)
  have g: "go_Archives engine_demo_options = demo_archive_options" by (simp add: engine_demo_options_def)
  show ?thesis
    using engine_archive_bounded [OF b r [unfolded engine_demo_def]] r by (auto simp: Let_def g)
qed

definition unread_job :: Job where
  "unread_job = \<lparr>jb_Metadata = demo_meta, jb_LoadContent = None, jb_OnComplete = False\<rparr>"

lemma job_evaluated_on_loaded_content_witness:
  "e_ContentRead (rs_Evaluation (fst (processJob \<lparr>ev_NeedsContent = \<lambda>m. Returns (NeedsContent engine_demo_library engine_demo m),
     ev_Evaluate = \<lambda>m c. Returns (fst (Evaluate engine_demo_library engine_demo m c))\<rparr> unread_job))) = False"
proof -
  let ?ev = "\<lparr>ev_NeedsContent = \<lambda>m. Returns (NeedsContent engine_demo_library engine_demo m),
     ev_Evaluate = \<lambda>m c. Returns (fst (Evaluate engine_demo_library engine_demo m c))\<rparr>"
  have n: "NeedsContent engine_demo_library engine_demo (Normalized demo_meta) = False" by code_simp
  have j: "jb_Metadata unread_job = demo_meta" by (simp add: unread_job_def)
  have "rs_Err (fst (processJob ?ev unread_job)) = None"
    using n by (simp add: processJob_def loadContent_def unread_job_def Let_def)
  from job_evaluated_on_loaded_content [of engine_demo_library 2 engine_demo_options None False unread_job,
      folded engine_demo_def, OF this, unfolded Let_def j n if_False]
  show ?thesis by blast
qed

text \<open>A database above the limit on files is asked for, and then skipped.\<close>

lemma oversized_database_read:
  "let meta = demo_meta\<lparr>m_FilePath := ''a.db'', m_Name := ''a.db'', m_Extension := ''.db'', m_Size := 2000\<rparr> in
     NeedsContent engine_demo_library engine_demo meta \<and>
     e_Skipped (fst (Evaluate engine_demo_library engine_demo meta ''x''))"
  by code_simp

text \<open>Options that switch everything off are taken for missing ones: the inspection is enabled.\<close>

lemma archives_cannot_be_zero:
  "ao_Enabled (resolveArchiveOptions \<lparr>ao_Enabled = False, ao_AutoZIPMaxSize = 0, ao_AllowLargeZIPs = False, ao_MaxZIPSize = 0,
     ao_AutoTARMaxSize = 0, ao_AllowLargeTARs = False, ao_MaxTARSize = 0, ao_MaxMembers = 0,
     ao_MaxMemberBytes = 0, ao_MaxTotalUncompressed = 0, ao_InspectExtensionlessText = False\<rparr>)"
  by code_simp

end
