(* ===== verification/Pool.thy ===== *)
theory Pool
  imports Workers
begin

text \<open>
  The pool of workers as a step relation (\<open>Scan\<close>, \<open>runWorker\<close> and \<open>collectResults\<close> of
  \<open>internal/scanner/workers.go\<close>): one rule for each thing a worker, the collector or the context can do
  next. The channel of jobs is the list of jobs still to come; the sender closes it after the last. A sink
  is what \<open>WriteFinding\<close> answers, given what was written before.
\<close>

type_synonym sink = "(Finding list \<Rightarrow> Finding \<Rightarrow> string option) option"

datatype context_state = Alive | Canceled | DeadlineExceeded

record pool =
  pl_jobs :: "Job list"
  pl_idle :: nat
  pl_running :: "Job list"
  pl_delivering :: "JobResult list"
  pl_results :: "JobResult list"
  pl_collected :: "JobResult list"
  pl_writing :: "Finding list"
  pl_written :: "Finding list"
  pl_context :: context_state
  pl_collector :: "string option option"
  pl_processed :: "Job list"

definition NewPool :: "int \<Rightarrow> int \<Rightarrow> Job list \<Rightarrow> pool" where
  "NewPool gomaxprocs workers jobs =
     \<lparr>pl_jobs = jobs, pl_idle = nat (ResolveWorkerCount gomaxprocs workers), pl_running = [], pl_delivering = [],
      pl_results = [], pl_collected = [], pl_writing = [], pl_written = [], pl_context = Alive,
      pl_collector = None, pl_processed = []\<rparr>"

definition context_error :: "context_state \<Rightarrow> string option" where
  "context_error c = (if c = DeadlineExceeded then Some ''context deadline exceeded'' else None)"

definition workers_gone :: "pool \<Rightarrow> bool" where
  "workers_gone s \<longleftrightarrow> pl_idle s = 0 \<and> pl_running s = [] \<and> pl_delivering s = []"

definition job_result :: "Evaluator \<Rightarrow> Job \<Rightarrow> JobResult" where
  "job_result ev job = fst (processJob ev job)"

definition to_write :: "sink \<Rightarrow> JobResult \<Rightarrow> Finding list" where
  "to_write sink r = (case sink of None \<Rightarrow> [] | Some w \<Rightarrow> e_Findings (rs_Evaluation r))"

inductive pool_step :: "Evaluator \<Rightarrow> nat \<Rightarrow> sink \<Rightarrow> pool \<Rightarrow> pool \<Rightarrow> bool" for ev :: Evaluator and capacity :: nat and sink :: sink where
  take_job: "pl_idle s = Suc n \<Longrightarrow> pl_jobs s = job # jobs \<Longrightarrow>
    pool_step ev capacity sink s (s\<lparr>pl_idle := n, pl_jobs := jobs, pl_running := job # pl_running s\<rparr>)"
| finish_job: "pl_running s = xs @ job # ys \<Longrightarrow>
    pool_step ev capacity sink s (s\<lparr>pl_running := xs @ ys, pl_delivering := job_result ev job # pl_delivering s,
      pl_processed := pl_processed s @ [job]\<rparr>)"
| deliver: "pl_delivering s = xs @ r # ys \<Longrightarrow> length (pl_results s) < capacity \<Longrightarrow>
    pool_step ev capacity sink s (s\<lparr>pl_delivering := xs @ ys, pl_results := pl_results s @ [r], pl_idle := Suc (pl_idle s)\<rparr>)"
| leave_closed: "pl_idle s = Suc n \<Longrightarrow> pl_jobs s = [] \<Longrightarrow> pool_step ev capacity sink s (s\<lparr>pl_idle := n\<rparr>)"
| leave_cancelled: "pl_idle s = Suc n \<Longrightarrow> pl_context s \<noteq> Alive \<Longrightarrow> pool_step ev capacity sink s (s\<lparr>pl_idle := n\<rparr>)"
| drop_result: "pl_delivering s = xs @ r # ys \<Longrightarrow> pl_context s \<noteq> Alive \<Longrightarrow>
    pool_step ev capacity sink s (s\<lparr>pl_delivering := xs @ ys\<rparr>)"
| cancel: "pl_context s = Alive \<Longrightarrow> c \<noteq> Alive \<Longrightarrow> pool_step ev capacity sink s (s\<lparr>pl_context := c\<rparr>)"
| receive: "pl_collector s = None \<Longrightarrow> pl_writing s = [] \<Longrightarrow> pl_results s = r # rs \<Longrightarrow>
    pool_step ev capacity sink s (s\<lparr>pl_results := rs, pl_collected := pl_collected s @ [r], pl_writing := to_write sink r\<rparr>)"
| write_ok: "pl_collector s = None \<Longrightarrow> pl_writing s = f # fs \<Longrightarrow> sink = Some w \<Longrightarrow> w (pl_written s) f = None \<Longrightarrow>
    pool_step ev capacity sink s (s\<lparr>pl_writing := fs, pl_written := pl_written s @ [f]\<rparr>)"
| write_fails: "pl_collector s = None \<Longrightarrow> pl_writing s = f # fs \<Longrightarrow> sink = Some w \<Longrightarrow> w (pl_written s) f = Some err \<Longrightarrow>
    pool_step ev capacity sink s (s\<lparr>pl_collector := Some (Some err),
      pl_context := (if pl_context s = Alive then Canceled else pl_context s)\<rparr>)"
| stop_cancelled: "pl_collector s = None \<Longrightarrow> pl_writing s = [] \<Longrightarrow> pl_context s \<noteq> Alive \<Longrightarrow>
    pool_step ev capacity sink s (s\<lparr>pl_collector := Some (context_error (pl_context s))\<rparr>)"
| stop_closed: "pl_collector s = None \<Longrightarrow> pl_writing s = [] \<Longrightarrow> pl_results s = [] \<Longrightarrow> workers_gone s \<Longrightarrow>
    pool_step ev capacity sink s (s\<lparr>pl_collector := Some None\<rparr>)"

inductive pool_reachable :: "Evaluator \<Rightarrow> nat \<Rightarrow> sink \<Rightarrow> pool \<Rightarrow> pool \<Rightarrow> bool"
  for ev :: Evaluator and capacity :: nat and sink :: sink and start :: pool where
  reach_start: "pool_reachable ev capacity sink start start"
| reach_step: "pool_reachable ev capacity sink start s \<Longrightarrow> pool_step ev capacity sink s t \<Longrightarrow> pool_reachable ev capacity sink start t"

definition pool_finished :: "pool \<Rightarrow> bool" where
  "pool_finished s \<longleftrightarrow> workers_gone s \<and> pl_collector s \<noteq> None"

text \<open>What \<open>Scan\<close> returns when the pool has finished.\<close>

definition scan_error :: "pool \<Rightarrow> string option" where
  "scan_error s =
     (case pl_collector s of
        Some (Some err) \<Rightarrow> Some err
      | _ \<Rightarrow> context_error (pl_context s))"

subsection \<open>Every run ends\<close>

definition findings_count :: "JobResult \<Rightarrow> nat" where
  "findings_count r = length (e_Findings (rs_Evaluation r))"

text \<open>What is left to do: each job, result, finding, worker and signal with the steps it can still take.\<close>

definition work_left :: "Evaluator \<Rightarrow> pool \<Rightarrow> nat" where
  "work_left ev s =
     sum_list (map (\<lambda>j. 6 + findings_count (job_result ev j)) (pl_jobs s)) +
     sum_list (map (\<lambda>j. 5 + findings_count (job_result ev j)) (pl_running s)) +
     sum_list (map (\<lambda>r. 4 + findings_count r) (pl_delivering s)) +
     sum_list (map (\<lambda>r. 2 + findings_count r) (pl_results s)) +
     length (pl_writing s) + pl_idle s + (if pl_context s = Alive then 1 else 0) + (if pl_collector s = None then 1 else 0)"

lemma to_write_length: "length (to_write sink r) \<le> findings_count r"
  by (simp add: to_write_def findings_count_def split: option.split)

lemma step_decreases: "pool_step ev capacity sink s t \<Longrightarrow> work_left ev t < work_left ev s"
proof (induction rule: pool_step.induct)
  case (receive s r rs)
  then show ?case using to_write_length [of sink r] by (simp add: work_left_def)
qed (simp_all add: work_left_def)

subsection \<open>No run gets stuck\<close>

definition pool_inv :: "sink \<Rightarrow> pool \<Rightarrow> bool" where
  "pool_inv sink s \<longleftrightarrow>
     (pl_writing s \<noteq> [] \<longrightarrow> sink \<noteq> None) \<and>
     (pl_collector s \<noteq> None \<longrightarrow> pl_context s \<noteq> Alive \<or> workers_gone s)"

lemma step_inv: "pool_step ev capacity sink s t \<Longrightarrow> pool_inv sink s \<Longrightarrow> pool_inv sink t"
  by (induction rule: pool_step.induct)
     (auto simp: pool_inv_def workers_gone_def to_write_def split: option.splits)

lemma pool_progress:
  assumes "0 < capacity" and inv: "pool_inv sink s" and "\<not> pool_finished s"
  shows "\<exists>t. pool_step ev capacity sink s t"
proof (cases "pl_running s")
  case (Cons j js)
  then have "pl_running s = [] @ j # js" by simp
  then show ?thesis by (blast intro: finish_job)
next
  case no_running: Nil
  show ?thesis
  proof (cases "pl_idle s")
    case (Suc n)
    then show ?thesis by (cases "pl_jobs s") (blast intro: take_job leave_closed)+
  next
    case no_idle: 0
    have collect: "\<exists>t. pool_step ev capacity sink s t"
      if "pl_collector s = None" "pl_results s \<noteq> [] \<or> workers_gone s"
    proof (cases "pl_writing s")
      case Nil
      then show ?thesis using that by (cases "pl_results s") (auto intro: receive stop_closed)
    next
      case (Cons f fs)
      then obtain w where "sink = Some w" using inv by (auto simp: pool_inv_def)
      then show ?thesis using that Cons by (cases "w (pl_written s) f") (blast intro: write_ok write_fails)+
    qed
    show ?thesis
    proof (cases "pl_delivering s")
      case Nil
      then show ?thesis using collect no_running no_idle assms(3)
        by (auto simp: pool_finished_def workers_gone_def)
    next
      case (Cons r rs)
      then have d: "pl_delivering s = [] @ r # rs" by simp
      show ?thesis
      proof (cases "pl_collector s")
        case None
        then show ?thesis
          using d collect assms(1) by (cases "length (pl_results s) < capacity") (blast intro: deliver, fastforce)
      next
        case (Some e)
        then have "pl_context s \<noteq> Alive" using inv Cons by (auto simp: pool_inv_def workers_gone_def)
        then show ?thesis using d by (blast intro: drop_result)
      qed
    qed
  qed
qed

lemma reachable_inv: "pool_reachable ev capacity sink start s \<Longrightarrow> pool_inv sink start \<Longrightarrow> pool_inv sink s"
  by (induction rule: pool_reachable.induct) (auto intro: step_inv)

lemma new_pool_inv: "pool_inv sink (NewPool g n jobs)"
  by (simp add: NewPool_def pool_inv_def)

text \<open>
  C35: A scan always ends: from any state the pool can reach, every run of the workers, the collector and the
  context is finite, none gets stuck before the workers are gone and the collector has stopped, and
  some run ends there; so there is no deadlock on the two channels, whatever the sink answers and
  whenever the context is cancelled.
\<close>

theorem pool_always_finishes:
  assumes "pool_reachable ev (nat (ResolveWorkerCount g n)) sink (NewPool g n jobs) s"
  shows "wfp (\<lambda>t s. pool_step ev (nat (ResolveWorkerCount g n)) sink s t) \<and>
    (pool_finished s \<or> (\<exists>t. pool_step ev (nat (ResolveWorkerCount g n)) sink s t)) \<and>
    (\<exists>t. pool_reachable ev (nat (ResolveWorkerCount g n)) sink s t \<and> pool_finished t)"
proof -
  let ?c = "nat (ResolveWorkerCount g n)"
  have c: "0 < ?c" by (simp add: ResolveWorkerCount_def Let_def)
  have "\<exists>t. pool_reachable ev ?c sink u t \<and> pool_finished t" if "pool_inv sink u" for u
    using that
  proof (induction "work_left ev u" arbitrary: u rule: less_induct)
    case less
    show ?case
    proof (cases "pool_finished u")
      case False
      then obtain v where v: "pool_step ev ?c sink u v"
        using pool_progress [OF c less.prems] by blast
      then obtain t where t: "pool_reachable ev ?c sink v t" "pool_finished t"
        using less step_decreases step_inv by blast
      have "pool_reachable ev ?c sink u t"
        using t(1) by (induction rule: pool_reachable.induct) (auto intro: reach_start reach_step v)
      then show ?thesis using t(2) by blast
    qed (blast intro: reach_start)
  qed
  moreover have inv: "pool_inv sink s" by (rule reachable_inv [OF assms new_pool_inv])
  moreover have "wfp (\<lambda>t s. pool_step ev ?c sink s t)"
    by (rule wfp_if_convertible_to_nat [where f = "work_left ev"]) (rule step_decreases)
  ultimately show ?thesis using pool_progress [OF c inv] by blast
qed

subsection \<open>What a run reports\<close>

definition pool_ledger :: "Evaluator \<Rightarrow> sink \<Rightarrow> Job list \<Rightarrow> pool \<Rightarrow> bool" where
  "pool_ledger ev sink jobs s \<longleftrightarrow>
     mset (pl_jobs s) + mset (pl_running s) + mset (pl_processed s) = mset jobs \<and>
     mset (pl_delivering s) + mset (pl_results s) + mset (pl_collected s) \<subseteq># mset (map (job_result ev) (pl_processed s)) \<and>
     pl_written s @ pl_writing s = concat (map (to_write sink) (pl_collected s))"

lemma step_ledger: "pool_step ev capacity sink s t \<Longrightarrow> pool_ledger ev sink jobs s \<Longrightarrow> pool_ledger ev sink jobs t"
proof (induction rule: pool_step.induct)
  case (drop_result s xs r ys)
  then show ?case
    by (auto simp: pool_ledger_def dest!: mset_subset_eq_insertD intro: subset_mset.less_imp_le)
qed (auto simp: pool_ledger_def add.assoc)

text \<open>As long as nothing is cancelled, nothing is dropped and nobody leaves early.\<close>

definition pool_alive :: "Evaluator \<Rightarrow> pool \<Rightarrow> bool" where
  "pool_alive ev s \<longleftrightarrow>
     pl_context s = Alive \<longrightarrow>
       mset (pl_delivering s) + mset (pl_results s) + mset (pl_collected s) = mset (map (job_result ev) (pl_processed s)) \<and>
       (workers_gone s \<longrightarrow> pl_jobs s = []) \<and>
       (pl_collector s \<noteq> None \<longrightarrow> pl_collector s = Some None \<and> pl_results s = [] \<and> pl_writing s = [] \<and> workers_gone s)"

lemma step_alive: "pool_step ev capacity sink s t \<Longrightarrow> pool_alive ev s \<Longrightarrow> pool_alive ev t"
  by (induction rule: pool_step.induct) (auto simp: pool_alive_def workers_gone_def)

lemma reachable_ledger:
  "pool_reachable ev capacity sink start s \<Longrightarrow> pool_ledger ev sink jobs start \<and> pool_alive ev start \<Longrightarrow>
   pool_ledger ev sink jobs s \<and> pool_alive ev s"
  by (induction rule: pool_reachable.induct) (auto intro: step_ledger step_alive)

lemma new_pool_ledger: "pool_ledger ev sink jobs (NewPool g n jobs) \<and> pool_alive ev (NewPool g n jobs)"
  by (simp add: NewPool_def pool_ledger_def pool_alive_def workers_gone_def ResolveWorkerCount_def Let_def)

text \<open>
  C34: The pool never processes a job twice nor writes a finding that is not of a result it collected;
  and when it finishes with its context alive, every job was processed, every result was
  collected, the sink has the findings of every result, and no error is returned.
\<close>

theorem pool_accounts:
  assumes "pool_reachable ev (nat (ResolveWorkerCount g n)) sink (NewPool g n jobs) s"
  shows "mset (pl_processed s) \<subseteq># mset jobs \<and>
    mset (pl_collected s) \<subseteq># mset (map (job_result ev) jobs) \<and>
    (\<exists>pending. pl_written s @ pending = concat (map (to_write sink) (pl_collected s))) \<and>
    (if pool_finished s \<and> pl_context s = Alive then
       mset (pl_processed s) = mset jobs \<and> mset (pl_collected s) = mset (map (job_result ev) jobs) \<and>
       mset (pl_written s) = mset (concat (map (to_write sink \<circ> job_result ev) jobs)) \<and> scan_error s = None
     else True)"
proof -
  have l: "pool_ledger ev sink jobs s" and a: "pool_alive ev s"
    using reachable_ledger [OF assms new_pool_ledger] by blast+
  have p: "mset (pl_processed s) \<subseteq># mset jobs"
    using l unfolding pool_ledger_def by (metis mset_subset_eq_add_right)
  have "mset (pl_collected s) \<subseteq># mset (map (job_result ev) (pl_processed s))"
    using l unfolding pool_ledger_def by (metis mset_subset_eq_add_right subset_mset.trans)
  also have "\<dots> \<subseteq># mset (map (job_result ev) jobs)" using p by (simp add: image_mset_subseteq_mono)
  finally have c: "mset (pl_collected s) \<subseteq># mset (map (job_result ev) jobs)" .
  have "mset (pl_processed s) = mset jobs \<and> mset (pl_collected s) = mset (map (job_result ev) jobs) \<and>
      mset (pl_written s) = mset (concat (map (to_write sink \<circ> job_result ev) jobs)) \<and> scan_error s = None"
    if f: "pool_finished s" and k: "pl_context s = Alive"
  proof -
    have e: "pl_jobs s = []" "pl_running s = []" "pl_delivering s = []" "pl_results s = []" "pl_writing s = []"
        "pl_collector s = Some None"
      using f a k by (auto simp: pool_finished_def pool_alive_def workers_gone_def)
    have pr: "mset (pl_processed s) = mset jobs" using l e by (simp add: pool_ledger_def)
    then have co: "mset (pl_collected s) = mset (map (job_result ev) jobs)"
      using a k e by (simp add: pool_alive_def)
    have "mset (pl_written s) = mset (concat (map (to_write sink) (pl_collected s)))"
      using l e by (simp add: pool_ledger_def)
    also have "\<dots> = (\<Sum>r\<in>#mset (pl_collected s). mset (to_write sink r))"
      by (simp add: mset_concat sum_mset_sum_list [symmetric] comp_def)
    also have "\<dots> = mset (concat (map (to_write sink \<circ> job_result ev) jobs))"
      unfolding co by (simp add: mset_concat sum_mset_sum_list [symmetric] comp_def image_mset.compositionality)
    finally show ?thesis using pr co e k by (simp add: scan_error_def context_error_def)
  qed
  then show ?thesis using p c l unfolding pool_ledger_def by auto
qed

text \<open>A job with one finding, one worker and a sink that takes everything.\<close>

definition demo_evaluator :: Evaluator where
  "demo_evaluator =
     \<lparr>ev_NeedsContent = (\<lambda>meta. Returns False),
      ev_Evaluate = (\<lambda>meta content. Returns \<lparr>e_Skipped = False, e_SkipReason = [], e_NeedContent = False,
        e_ContentRead = False, e_Findings = [zero_finding\<lparr>f_FilePath := m_FilePath meta\<rparr>]\<rparr>)\<rparr>"

definition demo_job :: Job where
  "demo_job =
     \<lparr>jb_Metadata = \<lparr>m_FilePath = ''a.txt'', m_Share = [], m_ShareDescription = [], m_ShareType = [], m_Host = [],
        m_Source = [], m_ArchivePath = [], m_ArchiveMemberPath = [], m_ArchiveLocalInspect = False,
        m_Priority = 0, m_PriorityReason = [], m_DFSNamespacePath = [], m_DFSLinkPath = [], m_Size = 1,
        m_ModifiedAt = 0, m_IsDir = False, m_Name = ''a.txt'', m_Extension = ''.txt'', m_SharePriority = 0,
        m_SharePriorityReason = [], m_FromSYSVOL = False, m_FromNETLOGON = False\<rparr>,
      jb_LoadContent = None, jb_OnComplete = True\<rparr>"

definition takes_all :: sink where "takes_all = Some (\<lambda>written f. None)"

definition demo_finding_written :: Finding where
  "demo_finding_written = zero_finding\<lparr>f_FilePath := ''a.txt''\<rparr>"

lemma demo_job_findings: "e_Findings (rs_Evaluation (job_result demo_evaluator demo_job)) = [demo_finding_written]"
  by code_simp

definition delivered_state :: pool where
  "delivered_state =
     \<lparr>pl_jobs = [], pl_idle = 0, pl_running = [], pl_delivering = [job_result demo_evaluator demo_job],
      pl_results = [], pl_collected = [], pl_writing = [], pl_written = [], pl_context = Alive,
      pl_collector = None, pl_processed = [demo_job]\<rparr>"

lemma delivered_reachable: "pool_reachable demo_evaluator 1 takes_all (NewPool 1 1 [demo_job]) delivered_state"
proof -
  have "pool_reachable demo_evaluator 1 takes_all (NewPool 1 1 [demo_job])
      ((NewPool 1 1 [demo_job])\<lparr>pl_idle := 0, pl_jobs := [], pl_running := [demo_job]\<rparr>)"
    using reach_step [OF reach_start take_job [of "NewPool 1 1 [demo_job]" 0 demo_job "[]"]]
    by (simp add: NewPool_def ResolveWorkerCount_def)
  from reach_step [OF this finish_job [of _ "[]" demo_job "[]"]] show ?thesis
    by (simp add: NewPool_def delivered_state_def)
qed

definition finished_state :: pool where
  "finished_state =
     \<lparr>pl_jobs = [], pl_idle = 0, pl_running = [], pl_delivering = [], pl_results = [],
      pl_collected = [job_result demo_evaluator demo_job], pl_writing = [], pl_written = [demo_finding_written],
      pl_context = Alive, pl_collector = Some None, pl_processed = [demo_job]\<rparr>"

lemma finished_reachable: "pool_reachable demo_evaluator 1 takes_all (NewPool 1 1 [demo_job]) finished_state"
proof -
  let ?r = "job_result demo_evaluator demo_job"
  let ?R = "pool_reachable demo_evaluator 1 takes_all (NewPool 1 1 [demo_job])"
  have w: "to_write takes_all ?r = [demo_finding_written]"
    by (simp add: to_write_def takes_all_def demo_job_findings)
  have "?R (delivered_state\<lparr>pl_delivering := [], pl_results := [?r], pl_idle := 1\<rparr>)"
    using reach_step [OF delivered_reachable deliver [of _ "[]" ?r "[]"]] by (simp add: delivered_state_def)
  from reach_step [OF this receive [of _ ?r "[]"]]
  have "?R (delivered_state\<lparr>pl_delivering := [], pl_idle := 1, pl_collected := [?r], pl_writing := [demo_finding_written]\<rparr>)"
    by (simp add: delivered_state_def w)
  from reach_step [OF this write_ok [of _ demo_finding_written "[]" _ "\<lambda>written f. None"]]
  have "?R (delivered_state\<lparr>pl_delivering := [], pl_idle := 1, pl_collected := [?r], pl_written := [demo_finding_written]\<rparr>)"
    by (simp add: delivered_state_def takes_all_def)
  from reach_step [OF this leave_closed [of _ 0]]
  have "?R (delivered_state\<lparr>pl_delivering := [], pl_collected := [?r], pl_written := [demo_finding_written]\<rparr>)"
    by (simp add: delivered_state_def)
  from reach_step [OF this stop_closed] show ?thesis
    by (simp add: delivered_state_def finished_state_def workers_gone_def)
qed

lemma one_worker: "nat (ResolveWorkerCount 1 1) = 1"
  by (simp add: ResolveWorkerCount_def)

lemma pool_always_finishes_witness:
  "\<exists>t. pool_reachable demo_evaluator 1 takes_all delivered_state t \<and> pool_finished t"
  using pool_always_finishes [of demo_evaluator 1 1 takes_all "[demo_job]" delivered_state] delivered_reachable
  by (simp add: one_worker)

lemma pool_accounts_witness:
  "pool_finished finished_state \<and> mset (pl_written finished_state) = {#demo_finding_written#} \<and> scan_error finished_state = None"
proof -
  have "pool_reachable demo_evaluator (nat (ResolveWorkerCount 1 1)) takes_all (NewPool 1 1 [demo_job]) finished_state"
    using finished_reachable by (simp add: one_worker)
  from pool_accounts [OF this] show ?thesis
    by (simp add: finished_state_def pool_finished_def workers_gone_def takes_all_def to_write_def demo_job_findings)
qed

text \<open>
  A cancelled scan drops results of jobs that were processed, and so were reported complete to their
  callback; and it returns no error.
\<close>

lemma cancelled_scan_loses_findings:
  "\<exists>s. pool_reachable demo_evaluator 1 takes_all (NewPool 1 1 [demo_job]) s \<and> pool_finished s \<and>
     pl_processed s = [demo_job] \<and> rs_Err (job_result demo_evaluator demo_job) = None \<and>
     to_write takes_all (job_result demo_evaluator demo_job) = [demo_finding_written] \<and>
     pl_written s = [] \<and> scan_error s = None"
proof -
  let ?R = "pool_reachable demo_evaluator 1 takes_all (NewPool 1 1 [demo_job])"
  have "?R (delivered_state\<lparr>pl_context := Canceled\<rparr>)"
    by (rule reach_step [OF delivered_reachable cancel]) (simp_all add: delivered_state_def)
  from reach_step [OF this drop_result [of _ "[]" "job_result demo_evaluator demo_job" "[]"]]
  have "?R (delivered_state\<lparr>pl_context := Canceled, pl_delivering := []\<rparr>)"
    by (simp add: delivered_state_def)
  from reach_step [OF this stop_cancelled]
  have "?R (delivered_state\<lparr>pl_context := Canceled, pl_delivering := [], pl_collector := Some None\<rparr>)"
    by (simp add: delivered_state_def context_error_def)
  moreover have "rs_Err (job_result demo_evaluator demo_job) = None" by code_simp
  ultimately show ?thesis
    by (intro exI conjI)
       (assumption, simp_all add: delivered_state_def pool_finished_def workers_gone_def scan_error_def
          context_error_def takes_all_def to_write_def demo_job_findings)
qed

end
