(* ===== verification/Smb.thy ===== *)
theory Smb
  imports Archive Planner StateStore
begin

text \<open>
  The SMB client (\<open>internal/smb\<close>): the shares of a host, the walk through the directories of a share
  within the depth limit and the path filters, the reading of a file within the read limit, and the names
  under which a host is addressed. The SMB protocol is a third-party package: listing shares, mounting
  one, reading a directory, the size of a file and its bytes are arguments, each with the error the
  operation guard gives it, a time out included. A parsed IP address is an argument too.
\<close>

text \<open>
  An error carries what the code asks of it: its message, and what \<open>os.IsPermission\<close>, \<open>os.IsNotExist\<close> and
  the chain of \<open>errors.Is\<close>/\<open>errors.As\<close> for time outs answer. Wrapping keeps the last and loses the others.
\<close>

record smb_error =
  se_text :: string
  se_permission :: bool
  se_notexist :: bool
  se_timeout :: bool

definition wrap_error :: "string \<Rightarrow> smb_error \<Rightarrow> smb_error" where
  "wrap_error prefix err = \<lparr>se_text = prefix @ '': '' @ se_text err, se_permission = False, se_notexist = False,
     se_timeout = se_timeout err\<rparr>"

definition isPermissionError :: "smb_error \<Rightarrow> bool" where
  "isPermissionError err \<longleftrightarrow>
     se_permission err \<or>
     (let msg = to_lower (se_text err)
      in contains msg ''access is denied'' \<or> contains msg ''permission denied'' \<or> contains msg ''logon failure'')"

definition IsTimeoutError :: "smb_error \<Rightarrow> bool" where
  "IsTimeoutError err \<longleftrightarrow>
     se_timeout err \<or>
     (let message = to_lower (se_text err) in contains message ''i/o timeout'' \<or> contains message ''operation timed out'')"

subsection \<open>Shares\<close>

record ShareInfo =
  sh_Name :: string
  sh_Description :: string
  sh_Type :: string

definition upper_char :: "char \<Rightarrow> char" where
  "upper_char c = (let n = (of_char c :: nat) in if 97 \<le> n \<and> n \<le> 122 then char_of (n - 32) else c)"

definition to_upper :: "string \<Rightarrow> string" where
  "to_upper s = map upper_char s"

definition IsAdministrativeShare :: "string \<Rightarrow> bool" where
  "IsAdministrativeShare name \<longleftrightarrow> to_upper (trim_space name) \<in> set [''ADMIN$'', ''C$'', ''IPC$'', ''PRINT$'']"

definition ADShareType :: "string \<Rightarrow> string option" where
  "ADShareType name =
     (let n = to_upper (trim_space name) in
      if n = ''SYSVOL'' then Some ''sysvol'' else if n = ''NETLOGON'' then Some ''netlogon'' else None)"

definition IsADShare :: "string \<Rightarrow> bool" where
  "IsADShare name \<longleftrightarrow> ADShareType name \<noteq> None"

definition inferShareType :: "string \<Rightarrow> string" where
  "inferShareType name0 =
     (let name = trim_space name0 in
      if name = [] then []
      else case ADShareType name of
             Some t \<Rightarrow> t
           | None \<Rightarrow>
               (let upper = to_upper name in
                if upper = ''IPC$'' then ''ipc''
                else if upper = ''PRINT$'' then ''print''
                else if has_suffix name ''$'' then ''disk-hidden''
                else ''disk''))"

definition defaultSkippedShares :: "string list" where
  "defaultSkippedShares = [''IPC$'', ''PRINT$'']"

text \<open>
  \<open>access\<close> is what \<open>checkShareAccess\<close> answers for a share: no error, also when its root does not exist,
  or the error of mounting it or of reading its root.
\<close>

definition checkShareAccess :: "(string \<Rightarrow> smb_error option) \<Rightarrow> (string \<Rightarrow> smb_error option) \<Rightarrow> string \<Rightarrow> smb_error option" where
  "checkShareAccess mount read_root share =
     (case mount share of
        Some err \<Rightarrow> Some err
      | None \<Rightarrow> (case read_root share of None \<Rightarrow> None | Some err \<Rightarrow> if se_notexist err then None else Some err))"

fun accessible_loop :: "(string \<Rightarrow> smb_error option) \<Rightarrow> string list \<Rightarrow> smb_error + ShareInfo list" where
  "accessible_loop access [] = Inr []"
| "accessible_loop access (share # shares) =
     (if share = [] \<or> to_upper share \<in> set defaultSkippedShares then accessible_loop access shares
      else case access share of
             Some err \<Rightarrow>
               if IsTimeoutError err then Inl (wrap_error (''check access '' @ share) err)
               else accessible_loop access shares
           | None \<Rightarrow>
               (case accessible_loop access shares of
                  Inl err \<Rightarrow> Inl err
                | Inr rest \<Rightarrow> Inr (\<lparr>sh_Name = share, sh_Description = [], sh_Type = inferShareType share\<rparr> # rest)))"

definition ListShares :: "smb_error + string list \<Rightarrow> (string \<Rightarrow> smb_error option) \<Rightarrow> smb_error + ShareInfo list" where
  "ListShares names access =
     (case names of Inl err \<Rightarrow> Inl (wrap_error ''list shares'' err) | Inr shares \<Rightarrow> accessible_loop access shares)"

subsection \<open>The filters of the walk\<close>

record WalkOptions =
  wk_IncludePaths :: "string list"
  wk_ExcludePaths :: "string list"
  wk_MaxDepth :: int

definition joinRemotePath :: "string \<Rightarrow> string \<Rightarrow> string" where
  "joinRemotePath parent name = (if parent = [] then name else parent @ [CHR 0x5C] @ name)"

definition normalizeRemotePath :: "string \<Rightarrow> string" where
  "normalizeRemotePath path = trim_set (trim_prefix (slashes path) ''./'') ''/''"

definition remoteDirOverlapsPrefix :: "string \<Rightarrow> string \<Rightarrow> bool" where
  "remoteDirOverlapsPrefix path0 prefix0 =
     (let path = normalizeRemotePath path0; prefix = normalizeRemotePath prefix0 in
      if path = [] \<or> prefix = [] then False
      else path = prefix \<or> has_prefix path (prefix @ ''/'') \<or> has_prefix prefix (path @ ''/''))"

definition remotePathHasPrefix :: "string \<Rightarrow> string \<Rightarrow> bool" where
  "remotePathHasPrefix path0 prefix0 =
     (let path = normalizeRemotePath path0; prefix = normalizeRemotePath prefix0 in
      if path = [] \<or> prefix = [] then False
      else path = prefix \<or> has_prefix path (prefix @ ''/''))"

definition remotePathExcluded :: "string \<Rightarrow> string \<Rightarrow> bool" where
  "remotePathExcluded path0 pattern0 =
     (let path = normalizeRemotePath path0; pattern = normalizeRemotePath pattern0 in
      if path = [] \<or> pattern = [] then False
      else if remotePathHasPrefix path pattern then True
      else if contains pattern ''/'' then False
      else (\<exists>segment \<in> set (split_on CHR ''/'' path). equal_fold segment pattern))"

definition shouldDescendRemoteDir :: "string \<Rightarrow> int \<Rightarrow> WalkOptions \<Rightarrow> int \<Rightarrow> bool" where
  "shouldDescendRemoteDir path depth opts maxDepth =
     (if maxDepth > 0 \<and> depth > maxDepth then False
      else if \<exists>blocked \<in> set (wk_ExcludePaths opts). remotePathExcluded path blocked then False
      else if wk_IncludePaths opts = [] then True
      else (\<exists>allowed \<in> set (wk_IncludePaths opts). remoteDirOverlapsPrefix path allowed))"

definition shouldIncludeRemoteFile :: "string \<Rightarrow> int \<Rightarrow> WalkOptions \<Rightarrow> int \<Rightarrow> bool" where
  "shouldIncludeRemoteFile path depth opts maxDepth =
     (if maxDepth > 0 \<and> depth > maxDepth then False
      else if \<exists>blocked \<in> set (wk_ExcludePaths opts). remotePathExcluded path blocked then False
      else if wk_IncludePaths opts = [] then True
      else (\<exists>allowed \<in> set (wk_IncludePaths opts). remotePathHasPrefix path allowed))"

subsection \<open>The walk\<close>

record RemoteFile =
  rf_Host :: string
  rf_Share :: string
  rf_Path :: string
  rf_Name :: string
  rf_Size :: int
  rf_ModifiedAt :: gotime
  rf_IsDir :: bool
  rf_Extension :: string

record dir_entry =
  de_Name :: string
  de_Size :: int
  de_ModTime :: gotime
  de_IsDir :: bool

type_synonym directory = "string \<Rightarrow> smb_error + dir_entry list"

text \<open>What the callback does with a file: the next state, and the error that ends the walk, if any.\<close>

type_synonym 's walk_fn = "'s \<Rightarrow> RemoteFile \<Rightarrow> 's \<times> smb_error option"

definition defaultMaxDepth :: int where "defaultMaxDepth = 64"

definition walk_depth :: "WalkOptions \<Rightarrow> int" where
  "walk_depth opts = (if wk_MaxDepth opts \<le> 0 then defaultMaxDepth else wk_MaxDepth opts)"

lemma walk_depth_pos: "0 < walk_depth opts"
  by (simp add: walk_depth_def defaultMaxDepth_def)

definition remote_file :: "string \<Rightarrow> string \<Rightarrow> string \<Rightarrow> dir_entry \<Rightarrow> RemoteFile" where
  "remote_file host share dir entry =
     \<lparr>rf_Host = host, rf_Share = share, rf_Path = normalizeRemotePath (joinRemotePath dir (de_Name entry)),
      rf_Name = de_Name entry, rf_Size = de_Size entry, rf_ModifiedAt = de_ModTime entry,
      rf_IsDir = de_IsDir entry, rf_Extension = to_lower (path_ext (de_Name entry))\<rparr>"

text \<open>
  The entries of one directory: the state and the stack after them, or the state and the error of the
  callback. The top of the stack is the head of the list.
\<close>

fun walk_entries ::
  "string \<Rightarrow> string \<Rightarrow> WalkOptions \<Rightarrow> 's walk_fn \<Rightarrow> string \<times> int \<Rightarrow> dir_entry list \<Rightarrow> 's \<Rightarrow> (string \<times> int) list \<Rightarrow>
   ('s \<times> (string \<times> int) list) + ('s \<times> smb_error)" where
  "walk_entries host share opts fn item [] s stack = Inl (s, stack)"
| "walk_entries host share opts fn item (entry # entries) s stack =
     (let remotePath = joinRemotePath (fst item) (de_Name entry); file = remote_file host share (fst item) entry in
      if de_IsDir entry then
        (let dirDepth = snd item + 1 in
         if \<not> shouldDescendRemoteDir (rf_Path file) dirDepth opts (walk_depth opts)
         then walk_entries host share opts fn item entries s stack
         else case fn s file of
                (s', Some err) \<Rightarrow> Inr (s', err)
              | (s', None) \<Rightarrow> walk_entries host share opts fn item entries s' ((remotePath, dirDepth) # stack))
      else if \<not> shouldIncludeRemoteFile (rf_Path file) (snd item) opts (walk_depth opts)
      then walk_entries host share opts fn item entries s stack
      else case fn s file of
             (s', Some err) \<Rightarrow> Inr (s', err)
           | (s', None) \<Rightarrow> walk_entries host share opts fn item entries s' stack)"

text \<open>What a directory puts on the stack is one level deeper and within the depth limit.\<close>

lemma walk_entries_stack:
  "walk_entries host share opts fn item entries s stack = Inl (s', stack') \<Longrightarrow>
   \<exists>pushed. stack' = pushed @ stack \<and> (\<forall>x \<in> set pushed. snd x = snd item + 1 \<and> snd x \<le> walk_depth opts)"
proof (induction entries arbitrary: s stack)
  case (Cons e es)
  note walk = Cons.prems [unfolded walk_entries.simps Let_def]
  have deep: "shouldDescendRemoteDir p d opts (walk_depth opts) \<Longrightarrow> d \<le> walk_depth opts" for p d
    using walk_depth_pos [of opts] by (auto simp: shouldDescendRemoteDir_def split: if_splits)
  consider (skip) "walk_entries host share opts fn item es s stack = Inl (s', stack')"
    | (plain) s1 where "walk_entries host share opts fn item es s1 stack = Inl (s', stack')"
    | (deeper) s1 p where "walk_entries host share opts fn item es s1 ((p, snd item + 1) # stack) = Inl (s', stack')"
        "snd item + 1 \<le> walk_depth opts"
    using walk deep by (fastforce split: if_splits prod.splits option.splits)
  then show ?case
  proof cases
    case (deeper s1 p)
    obtain pushed where "stack' = pushed @ (p, snd item + 1) # stack"
      "\<forall>x \<in> set pushed. snd x = snd item + 1 \<and> snd x \<le> walk_depth opts"
      using Cons.IH [OF deeper(1)] by blast
    then show ?thesis using deeper(2) by (intro exI [of _ "pushed @ [(p, snd item + 1)]"]) auto
  qed (use Cons.IH in blast)+
qed simp

definition walk_measure :: "WalkOptions \<Rightarrow> (string \<times> int) list \<Rightarrow> nat multiset" where
  "walk_measure opts stack = image_mset (\<lambda>x. nat (walk_depth opts + 1 - snd x)) (mset stack)"

lemma walk_measure_pushed:
  assumes "\<forall>x \<in> set pushed. snd x = snd item + 1 \<and> snd x \<le> walk_depth opts"
  shows "(walk_measure opts (pushed @ stack), walk_measure opts (item # stack)) \<in> mult less_than"
proof -
  have "(walk_measure opts stack + image_mset (\<lambda>x. nat (walk_depth opts + 1 - snd x)) (mset pushed),
      walk_measure opts stack + {#nat (walk_depth opts + 1 - snd item)#}) \<in> mult less_than"
    using assms by (intro one_step_implies_mult) auto
  then show ?thesis by (simp add: walk_measure_def add.commute)
qed

lemma walk_measure_popped: "(walk_measure opts stack, walk_measure opts (item # stack)) \<in> mult less_than"
  using walk_measure_pushed [of "[]"] by simp

function (sequential) walk_loop ::
  "string \<Rightarrow> string \<Rightarrow> WalkOptions \<Rightarrow> directory \<Rightarrow> 's walk_fn \<Rightarrow> (string \<times> int) list \<Rightarrow> 's \<Rightarrow> 's \<times> smb_error option" where
  "walk_loop host share opts dir fn [] s = (s, None)"
| "walk_loop host share opts dir fn (item # stack) s =
     (case dir (fst item) of
        Inl err \<Rightarrow>
          if isPermissionError err \<or> se_notexist err then walk_loop host share opts dir fn stack s
          else (s, Some (wrap_error (''read dir '' @ fst item @ '' on '' @ share) err))
      | Inr entries \<Rightarrow>
          (case walk_entries host share opts fn item entries s stack of
             Inr (s', err) \<Rightarrow> (s', Some err)
           | Inl (s', stack') \<Rightarrow> walk_loop host share opts dir fn stack' s'))"
  by pat_completeness auto
termination
proof (relation "inv_image (mult less_than) (\<lambda>(host, share, opts, dir, fn, stack, s). walk_measure opts stack)")
  show "wf (inv_image (mult less_than) (\<lambda>(host :: string, share :: string, opts, dir :: directory, fn :: 's walk_fn, stack, s :: 's). walk_measure opts stack))"
    by (intro wf_inv_image wf_mult wf_less_than)
qed (auto dest!: walk_entries_stack intro: walk_measure_pushed walk_measure_popped)

text \<open>\<open>mount\<close>: the error of mounting the share, or its directories. The callback is never nil in the program.\<close>

definition WalkShareWithOptions ::
  "string \<Rightarrow> string \<Rightarrow> WalkOptions \<Rightarrow> smb_error + directory \<Rightarrow> 's walk_fn \<Rightarrow> 's \<Rightarrow> 's \<times> smb_error option" where
  "WalkShareWithOptions host share opts mount fn s =
     (case mount of Inl err \<Rightarrow> (s, Some err) | Inr dir \<Rightarrow> walk_loop host share opts dir fn [([], 0)] s)"

subsection \<open>The walk as a traversal\<close>

text \<open>
  The specification of the walk has no stack: a directory reports its entries that the filters admit, in
  order, and then what its subdirectories report, the last one first. What cannot be read because access
  is denied, or because it is gone, reports nothing; any other failure ends the walk.
\<close>

datatype walk_event = Report RemoteFile | ReadFailed smb_error

definition admits :: "WalkOptions \<Rightarrow> string \<times> int \<Rightarrow> dir_entry \<Rightarrow> bool" where
  "admits opts item entry =
     (let path = normalizeRemotePath (joinRemotePath (fst item) (de_Name entry)) in
      if de_IsDir entry then shouldDescendRemoteDir path (snd item + 1) opts (walk_depth opts)
      else shouldIncludeRemoteFile path (snd item) opts (walk_depth opts))"

definition subdirectories :: "WalkOptions \<Rightarrow> string \<times> int \<Rightarrow> dir_entry list \<Rightarrow> (string \<times> int) list" where
  "subdirectories opts item entries =
     map (\<lambda>e. (joinRemotePath (fst item) (de_Name e), snd item + 1)) (filter (\<lambda>e. de_IsDir e \<and> admits opts item e) entries)"

lemma subdirectories_deeper:
  "x \<in> set (subdirectories opts item entries) \<Longrightarrow> snd x = snd item + 1 \<and> snd x \<le> walk_depth opts"
  using walk_depth_pos [of opts]
  by (auto simp: subdirectories_def admits_def shouldDescendRemoteDir_def Let_def split: if_splits)

function visit_dir :: "string \<Rightarrow> string \<Rightarrow> WalkOptions \<Rightarrow> directory \<Rightarrow> string \<times> int \<Rightarrow> walk_event list" where
  "visit_dir host share opts dir item =
     (case dir (fst item) of
        Inl err \<Rightarrow>
          if isPermissionError err \<or> se_notexist err then []
          else [ReadFailed (wrap_error (''read dir '' @ fst item @ '' on '' @ share) err)]
      | Inr entries \<Rightarrow>
          map (\<lambda>e. Report (remote_file host share (fst item) e)) (filter (admits opts item) entries) @
          concat (map (visit_dir host share opts dir) (rev (subdirectories opts item entries))))"
  by pat_completeness auto
termination
  by (relation "measure (\<lambda>(host, share, opts, dir, item). nat (walk_depth opts + 1 - snd item))")
    (auto dest!: subdirectories_deeper)

declare visit_dir.simps [simp del]

fun deliver :: "'s walk_fn \<Rightarrow> walk_event list \<Rightarrow> 's \<Rightarrow> 's \<times> smb_error option" where
  "deliver fn [] s = (s, None)"
| "deliver fn (ReadFailed err # evs) s = (s, Some err)"
| "deliver fn (Report file # evs) s =
     (case fn s file of (s', Some err) \<Rightarrow> (s', Some err) | (s', None) \<Rightarrow> deliver fn evs s')"

lemma deliver_append:
  "deliver fn (xs @ ys) s = (case deliver fn xs s of (s', None) \<Rightarrow> deliver fn ys s' | (s', Some err) \<Rightarrow> (s', Some err))"
  by (induction fn xs s rule: deliver.induct) (auto split: prod.splits option.splits)

lemma walk_entries_deliver:
  "walk_entries host share opts fn item entries s stack =
     (case deliver fn (map (\<lambda>e. Report (remote_file host share (fst item) e)) (filter (admits opts item) entries)) s of
        (s', Some err) \<Rightarrow> Inr (s', err)
      | (s', None) \<Rightarrow> Inl (s', rev (subdirectories opts item entries) @ stack))"
proof (induction entries arbitrary: s stack)
  case (Cons e es)
  have p: "rf_Path (remote_file host share (fst item) e) = normalizeRemotePath (joinRemotePath (fst item) (de_Name e))"
    by (simp add: remote_file_def)
  show ?case
    by (cases "admits opts item e"; cases "de_IsDir e")
      (auto simp: Let_def p Cons.IH admits_def subdirectories_def split: prod.splits option.splits)
qed (simp add: subdirectories_def)

lemma walk_loop_deliver:
  "walk_loop host share opts dir fn stack s = deliver fn (concat (map (visit_dir host share opts dir) stack)) s"
proof (induction host share opts dir fn stack s rule: walk_loop.induct)
  case (2 host share opts dir fn item stack s)
  show ?case
  proof (cases "dir (fst item)")
    case (Inl err)
    then show ?thesis using 2(1) by (simp add: visit_dir.simps [of _ _ _ _ item])
  next
    case (Inr entries)
    let ?rep = "map (\<lambda>e. Report (remote_file host share (fst item) e)) (filter (admits opts item) entries)"
    let ?sub = "rev (subdirectories opts item entries)"
    have v: "visit_dir host share opts dir item = ?rep @ concat (map (visit_dir host share opts dir) ?sub)"
      using Inr by (simp add: visit_dir.simps [of _ _ _ _ item])
    obtain s' r where d: "deliver fn ?rep s = (s', r)" by force
    show ?thesis
    proof (cases r)
      case None
      have "walk_entries host share opts fn item entries s stack = Inl (s', ?sub @ stack)"
        using d None by (simp add: walk_entries_deliver)
      then show ?thesis
        using 2(2) [OF Inr, of "(s', ?sub @ stack)" s' "?sub @ stack"] Inr d None by (simp add: v deliver_append)
    next
      case (Some err)
      have "walk_entries host share opts fn item entries s stack = Inr (s', err)"
        using d Some by (simp add: walk_entries_deliver)
      then show ?thesis using Inr d Some by (simp add: v deliver_append)
    qed
  qed
qed simp

text \<open>
  C7: The walk with its explicit stack is the recursive traversal of the share: for every directory
  structure, callback and filter it ends, within the depth limit, and the callback sees exactly the
  entries of the traversal, in its order, up to the first error of the callback or of a directory.
\<close>

theorem walk_refines_traversal:
  "WalkShareWithOptions host share opts (Inr dir) fn s = deliver fn (visit_dir host share opts dir ([], 0)) s"
  by (simp add: WalkShareWithOptions_def walk_loop_deliver)

subsection \<open>The files a walk reports\<close>

text \<open>Names as a file system gives them, and the path of the elements read so far.\<close>

definition proper_name :: "string \<Rightarrow> bool" where
  "proper_name n \<longleftrightarrow> n \<noteq> [] \<and> n \<noteq> ''.'' \<and> CHR ''/'' \<notin> set n \<and> CHR 0x5C \<notin> set n"

definition remote_path :: "string list \<Rightarrow> string" where
  "remote_path es = join [CHR 0x5C] es"

definition slash_path :: "string list \<Rightarrow> string" where
  "slash_path es = join ''/'' es"

lemma slashes_append [simp]: "slashes (a @ b) = slashes a @ slashes b"
  by (simp add: slashes_def)

lemma slashes_id: "CHR 0x5C \<notin> set s \<Longrightarrow> slashes s = s"
  unfolding slashes_def by (rule map_idI) auto

lemma slashes_remote_path: "\<forall>e \<in> set es. proper_name e \<Longrightarrow> slashes (remote_path es) = slash_path es"
proof (induction es rule: induct_list012)
  case (3 a b es)
  have "slashes (CHR 0x5C # t) = CHR ''/'' # slashes t" for t by (simp add: slashes_def)
  then show ?case using 3 by (simp add: remote_path_def slash_path_def slashes_id proper_name_def)
qed (auto simp: remote_path_def slash_path_def slashes_id proper_name_def)

lemma split_slash_path: "es \<noteq> [] \<Longrightarrow> \<forall>e \<in> set es. proper_name e \<Longrightarrow> split_on CHR ''/'' (slash_path es) = es"
  unfolding slash_path_def by (rule split_on_join) (auto simp: proper_name_def)

lemma slash_path_ends:
  assumes "es \<noteq> []" "\<forall>e \<in> set es. proper_name e"
  shows "slash_path es \<noteq> []" "hd (slash_path es) \<noteq> CHR ''/''" "last (slash_path es) \<noteq> CHR ''/''"
    "\<not> has_prefix (slash_path es) ''./''"
proof -
  have el: "w \<noteq> [] \<and> CHR ''/'' \<notin> set w" if "w \<in> set es" for w
    using assms(2) that by (auto simp: proper_name_def)
  show "slash_path es \<noteq> []" "hd (slash_path es) \<noteq> CHR ''/''" "last (slash_path es) \<noteq> CHR ''/''"
    unfolding slash_path_def
    using join_hd [OF assms(1), of "CHR ''/''"] join_last [OF assms(1), of "CHR ''/''"] el by auto
  show "\<not> has_prefix (slash_path es) ''./''"
  proof
    assume "has_prefix (slash_path es) ''./''"
    then have "has_prefix (slash_path es) (''.'' @ ''/'')" by simp
    then obtain rest where "es = split_on CHR ''/'' ''.'' @ rest"
      using split_on_prefix_iff [of "slash_path es" "''.''" "CHR ''/''"] split_slash_path [OF assms] by metis
    then have "''.'' \<in> set es" by simp
    then show False using assms(2) by (auto simp: proper_name_def)
  qed
qed

lemma normalize_slash_path:
  "\<forall>e \<in> set es. proper_name e \<Longrightarrow> normalizeRemotePath (slash_path es) = slash_path es"
proof (cases "es = []")
  case True
  have "normalizeRemotePath [] = []" by code_simp
  then show ?thesis by (simp add: True slash_path_def)
next
  case False
  assume p: "\<forall>e \<in> set es. proper_name e"
  have "CHR 0x5C \<notin> set (slash_path es)"
    using slashes_remote_path [OF p] slashes_no_backslash by metis
  then show ?thesis
    using slash_path_ends [OF False p]
    by (simp add: normalizeRemotePath_def slashes_id trim_prefix_def trim_set_id)
qed

lemma normalize_remote_path:
  assumes "\<forall>e \<in> set es. proper_name e"
  shows "normalizeRemotePath (remote_path es) = slash_path es"
proof -
  have "normalizeRemotePath (remote_path es) = normalizeRemotePath (slash_path es)"
    using slashes_remote_path [OF assms] by (metis normalizeRemotePath_def slashes_idem)
  then show ?thesis using normalize_slash_path [OF assms] by simp
qed

lemma join_remote_path:
  "\<forall>e \<in> set es. proper_name e \<Longrightarrow> joinRemotePath (remote_path es) n = remote_path (es @ [n])"
proof (cases "es = []")
  case False
  assume p: "\<forall>e \<in> set es. proper_name e"
  have "w \<noteq> [] \<and> CHR 0x5C \<notin> set w" if "w \<in> set es" for w
    using p that by (auto simp: proper_name_def)
  then have "remote_path es \<noteq> []"
    using join_hd(1) [OF False, of "CHR 0x5C"] by (auto simp: remote_path_def)
  then show ?thesis by (simp add: joinRemotePath_def remote_path_def join_append False)
qed (simp add: joinRemotePath_def remote_path_def)

subsection \<open>No directory on the way to an admitted file is passed over\<close>

lemma hasPrefix_slash:
  assumes "es \<noteq> []" "\<forall>e \<in> set es. proper_name e"
  shows "remotePathHasPrefix (slash_path es) pat \<longleftrightarrow>
    normalizeRemotePath pat \<noteq> [] \<and> (\<exists>rest. es = split_on CHR ''/'' (normalizeRemotePath pat) @ rest)"
  using split_on_prefix_iff [of "slash_path es" "normalizeRemotePath pat" "CHR ''/''"]
    slash_path_ends(1) [OF assms] split_slash_path [OF assms] normalize_slash_path [OF assms(2)]
  by (simp add: remotePathHasPrefix_def Let_def)

lemma excluded_slash:
  assumes "es \<noteq> []" "\<forall>e \<in> set es. proper_name e"
  shows "remotePathExcluded (slash_path es) pat \<longleftrightarrow>
    normalizeRemotePath pat \<noteq> [] \<and>
    (remotePathHasPrefix (slash_path es) (normalizeRemotePath pat) \<or>
     (\<not> contains (normalizeRemotePath pat) ''/'' \<and> (\<exists>e \<in> set es. equal_fold e (normalizeRemotePath pat))))"
  using slash_path_ends(1) [OF assms] split_slash_path [OF assms] normalize_slash_path [OF assms(2)]
  by (simp add: remotePathExcluded_def Let_def)

text \<open>An excluded directory excludes what is below it.\<close>

lemma excluded_below:
  assumes "ds \<noteq> []" "\<forall>e \<in> set (ds @ es). proper_name e" "remotePathExcluded (slash_path ds) pat"
  shows "remotePathExcluded (slash_path (ds @ es)) pat"
proof -
  have d: "\<forall>e \<in> set ds. proper_name e" "ds @ es \<noteq> []" using assms by auto
  show ?thesis
    using assms(3) unfolding excluded_slash [OF assms(1) d(1)] excluded_slash [OF d(2) assms(2)]
      hasPrefix_slash [OF assms(1) d(1)] hasPrefix_slash [OF d(2) assms(2)]
    by auto
qed

text \<open>A directory on the way to a file below an included path overlaps that path.\<close>

lemma overlaps_slash:
  assumes "ds \<noteq> []" "\<forall>e \<in> set ds. proper_name e"
  shows "remoteDirOverlapsPrefix (slash_path ds) pat \<longleftrightarrow>
    normalizeRemotePath pat \<noteq> [] \<and>
    (\<exists>rest. ds = split_on CHR ''/'' (normalizeRemotePath pat) @ rest \<or> split_on CHR ''/'' (normalizeRemotePath pat) = ds @ rest)"
proof -
  have "remoteDirOverlapsPrefix (slash_path ds) pat \<longleftrightarrow>
    normalizeRemotePath pat \<noteq> [] \<and>
    ((slash_path ds = normalizeRemotePath pat \<or> has_prefix (slash_path ds) (normalizeRemotePath pat @ ''/'')) \<or>
     (normalizeRemotePath pat = slash_path ds \<or> has_prefix (normalizeRemotePath pat) (slash_path ds @ ''/'')))"
    using slash_path_ends(1) [OF assms] normalize_slash_path [OF assms(2)]
    by (auto simp: remoteDirOverlapsPrefix_def Let_def)
  then show ?thesis
    unfolding split_on_prefix_iff split_slash_path [OF assms] by auto
qed

lemma included_above:
  assumes "ds \<noteq> []" "\<forall>e \<in> set (ds @ es). proper_name e" "remotePathHasPrefix (slash_path (ds @ es)) pat"
  shows "remoteDirOverlapsPrefix (slash_path ds) pat"
proof -
  have d: "\<forall>e \<in> set ds. proper_name e" "ds @ es \<noteq> []" using assms by auto
  obtain rest where r: "normalizeRemotePath pat \<noteq> []" "ds @ es = split_on CHR ''/'' (normalizeRemotePath pat) @ rest"
    using assms(3) hasPrefix_slash [OF d(2) assms(2)] by blast
  from r(2) obtain u where "ds = split_on CHR ''/'' (normalizeRemotePath pat) @ u \<or>
      ds @ u = split_on CHR ''/'' (normalizeRemotePath pat)"
    by (metis append_eq_append_conv2)
  then have "\<exists>rest. ds = split_on CHR ''/'' (normalizeRemotePath pat) @ rest \<or> split_on CHR ''/'' (normalizeRemotePath pat) = ds @ rest"
    by metis
  then show ?thesis using r(1) overlaps_slash [OF assms(1) d(1)] by blast
qed

text \<open>
  Every directory above an admitted file is one the walk goes into.
\<close>

lemma admitted_file_reached:
  assumes "\<forall>e \<in> set (es @ [n]). proper_name e"
    and "shouldIncludeRemoteFile (slash_path (es @ [n])) (int (length es)) opts (walk_depth opts)"
    and "0 < k" "k \<le> length es"
  shows "shouldDescendRemoteDir (slash_path (take k es)) (int k) opts (walk_depth opts)"
proof -
  have t: "take k es \<noteq> []" "take k es @ (drop k es @ [n]) = es @ [n]" using assms(3,4) by auto
  have depth: "\<not> int k > walk_depth opts"
    using assms(2,4) walk_depth_pos [of opts] by (auto simp: shouldIncludeRemoteFile_def split: if_splits)
  have adm: "\<not> (\<exists>b \<in> set (wk_ExcludePaths opts). remotePathExcluded (slash_path (es @ [n])) b)"
    "wk_IncludePaths opts = [] \<or> (\<exists>a \<in> set (wk_IncludePaths opts). remotePathHasPrefix (slash_path (es @ [n])) a)"
    using assms(2) by (auto simp: shouldIncludeRemoteFile_def split: if_splits)
  have "\<not> (\<exists>b \<in> set (wk_ExcludePaths opts). remotePathExcluded (slash_path (take k es)) b)"
    using adm(1) excluded_below [OF t(1), of "drop k es @ [n]"] assms(1) unfolding t(2) by blast
  moreover have "wk_IncludePaths opts = [] \<or> (\<exists>a \<in> set (wk_IncludePaths opts). remoteDirOverlapsPrefix (slash_path (take k es)) a)"
    using adm(2) included_above [OF t(1), of "drop k es @ [n]"] assms(1) unfolding t(2) by blast
  ultimately show ?thesis using depth by (auto simp: shouldDescendRemoteDir_def)
qed

text \<open>The directories of a share: those to which a chain of readable directories leads.\<close>

inductive reached :: "directory \<Rightarrow> string list \<Rightarrow> bool" for dir :: directory where
  root: "reached dir []"
| below: "reached dir es \<Longrightarrow> dir (remote_path es) = Inr entries \<Longrightarrow> e \<in> set entries \<Longrightarrow> de_IsDir e \<Longrightarrow>
    reached dir (es @ [de_Name e])"

definition proper_names :: "directory \<Rightarrow> bool" where
  "proper_names dir \<longleftrightarrow> (\<forall>p entries e. dir p = Inr entries \<longrightarrow> e \<in> set entries \<longrightarrow> proper_name (de_Name e))"

lemma reached_proper: "reached dir es \<Longrightarrow> proper_names dir \<Longrightarrow> \<forall>e \<in> set es. proper_name e"
  by (induction rule: reached.induct) (auto simp: proper_names_def)

text \<open>The files of the share the filters admit, as the callback sees them.\<close>

definition admitted_files :: "string \<Rightarrow> string \<Rightarrow> WalkOptions \<Rightarrow> directory \<Rightarrow> RemoteFile set" where
  "admitted_files host share opts dir =
     {remote_file host share (remote_path es) e | es entries e.
        reached dir es \<and> dir (remote_path es) = Inr entries \<and> e \<in> set entries \<and> \<not> de_IsDir e \<and>
        shouldIncludeRemoteFile (slash_path (es @ [de_Name e])) (int (length es)) opts (walk_depth opts)}"

lemma visit_dir_readable:
  "dir (fst item) = Inr entries \<Longrightarrow> visit_dir host share opts dir item =
     map (\<lambda>e. Report (remote_file host share (fst item) e)) (filter (admits opts item) entries) @
     concat (map (visit_dir host share opts dir) (rev (subdirectories opts item entries)))"
  by (simp add: visit_dir.simps [of _ _ _ _ item])

lemma admits_slash:
  assumes "\<forall>x \<in> set (es @ [de_Name e]). proper_name x"
  shows "admits opts (remote_path es, int (length es)) e =
    (if de_IsDir e then shouldDescendRemoteDir (slash_path (es @ [de_Name e])) (int (Suc (length es))) opts (walk_depth opts)
     else shouldIncludeRemoteFile (slash_path (es @ [de_Name e])) (int (length es)) opts (walk_depth opts))"
proof -
  have "normalizeRemotePath (joinRemotePath (remote_path es) (de_Name e)) = slash_path (es @ [de_Name e])"
    using assms join_remote_path [of es "de_Name e"] normalize_remote_path [of "es @ [de_Name e]"] by simp
  then show ?thesis by (simp add: admits_def add.commute)
qed

lemma visit_reached:
  assumes p: "proper_names dir"
  shows "reached dir es \<Longrightarrow>
    (\<And>k. 0 < k \<Longrightarrow> k \<le> length es \<Longrightarrow> shouldDescendRemoteDir (slash_path (take k es)) (int k) opts (walk_depth opts)) \<Longrightarrow>
    set (visit_dir host share opts dir (remote_path es, int (length es))) \<subseteq> set (visit_dir host share opts dir ([], 0))"
proof (induction rule: reached.induct)
  case root
  then show ?case by (simp add: remote_path_def)
next
  case (below es entries e)
  let ?item = "(remote_path es, int (length es))"
  have pe: "\<forall>x \<in> set (es @ [de_Name e]). proper_name x"
    using reached_proper [OF below.hyps(1) p] below.hyps(2,3) p by (auto simp: proper_names_def)
  have "set (visit_dir host share opts dir ?item) \<subseteq> set (visit_dir host share opts dir ([], 0))"
  proof (rule below.IH)
    fix k assume "0 < k" "k \<le> length es"
    then show "shouldDescendRemoteDir (slash_path (take k es)) (int k) opts (walk_depth opts)"
      using below.prems [of k] by simp
  qed
  moreover have "admits opts ?item e"
    using admits_slash [OF pe] below.prems [of "Suc (length es)"] below.hyps(4) by simp
  then have "(remote_path (es @ [de_Name e]), int (length (es @ [de_Name e]))) \<in> set (subdirectories opts ?item entries)"
    using below.hyps(3,4) join_remote_path [of es "de_Name e"] pe
    by (force simp: subdirectories_def)
  then have "set (visit_dir host share opts dir (remote_path (es @ [de_Name e]), int (length (es @ [de_Name e])))) \<subseteq>
      set (visit_dir host share opts dir ?item)"
    using visit_dir_readable [of dir ?item entries] below.hyps(2) by auto
  ultimately show ?case by blast
qed

lemma visit_sound:
  assumes p: "proper_names dir"
  shows "reached dir es \<Longrightarrow> Report f \<in> set (visit_dir host share opts dir (remote_path es, int (length es))) \<Longrightarrow>
    \<not> rf_IsDir f \<Longrightarrow> f \<in> admitted_files host share opts dir"
proof (induction "nat (walk_depth opts + 1 - int (length es))" arbitrary: es rule: less_induct)
  case less
  let ?item = "(remote_path es, int (length es))"
  obtain entries where d: "dir (remote_path es) = Inr entries"
    using less.prems(2) by (cases "dir (remote_path es)") (auto simp: visit_dir.simps [of _ _ _ _ ?item] split: if_splits)
  have pe: "\<forall>x \<in> set (es @ [de_Name e]). proper_name x" if "e \<in> set entries" for e
    using reached_proper [OF less.prems(1) p] d that p by (auto simp: proper_names_def)
  have "Report f \<in> set (map (\<lambda>e. Report (remote_file host share (remote_path es) e)) (filter (admits opts ?item) entries)) \<or>
      (\<exists>x \<in> set (subdirectories opts ?item entries). Report f \<in> set (visit_dir host share opts dir x))"
    using less.prems(2) visit_dir_readable [of dir ?item entries] d by auto
  then show ?case
  proof
    assume "Report f \<in> set (map (\<lambda>e. Report (remote_file host share (remote_path es) e)) (filter (admits opts ?item) entries))"
    then obtain e where e: "e \<in> set entries" "admits opts ?item e" "f = remote_file host share (remote_path es) e" by auto
    then have "\<not> de_IsDir e" using less.prems(3) by (simp add: remote_file_def)
    then show ?thesis
      using e admits_slash [OF pe [OF e(1)]] less.prems(1) d unfolding admitted_files_def by auto
  next
    assume "\<exists>x \<in> set (subdirectories opts ?item entries). Report f \<in> set (visit_dir host share opts dir x)"
    then obtain x where x: "x \<in> set (subdirectories opts ?item entries)" "Report f \<in> set (visit_dir host share opts dir x)" by blast
    then obtain e where e: "e \<in> set entries" "de_IsDir e" "x = (joinRemotePath (remote_path es) (de_Name e), int (length es) + 1)"
      by (auto simp: subdirectories_def)
    have x': "x = (remote_path (es @ [de_Name e]), int (length (es @ [de_Name e])))"
      using e join_remote_path [of es "de_Name e"] pe [OF e(1)] by simp
    have "int (length (es @ [de_Name e])) \<le> walk_depth opts"
      using subdirectories_deeper [OF x(1)] x' by simp
    then show ?thesis
      using less.hyps [of "es @ [de_Name e]"] reached.below [OF less.prems(1) d e(1,2)] x(2) x' less.prems(3) by simp
  qed
qed

lemma visit_files:
  assumes "proper_names dir"
  shows "Report f \<in> set (visit_dir host share opts dir ([], 0)) \<and> \<not> rf_IsDir f \<longleftrightarrow> f \<in> admitted_files host share opts dir"
proof
  assume "Report f \<in> set (visit_dir host share opts dir ([], 0)) \<and> \<not> rf_IsDir f"
  then show "f \<in> admitted_files host share opts dir"
    using visit_sound [OF assms reached.root] by (simp add: remote_path_def)
next
  assume "f \<in> admitted_files host share opts dir"
  then obtain es entries e where e: "reached dir es" "dir (remote_path es) = Inr entries" "e \<in> set entries"
      "\<not> de_IsDir e" "f = remote_file host share (remote_path es) e"
      "shouldIncludeRemoteFile (slash_path (es @ [de_Name e])) (int (length es)) opts (walk_depth opts)"
    by (auto simp: admitted_files_def)
  have pe: "\<forall>x \<in> set (es @ [de_Name e]). proper_name x"
    using reached_proper [OF e(1) assms] e(2,3) assms by (auto simp: proper_names_def)
  let ?item = "(remote_path es, int (length es))"
  have "admits opts ?item e" using admits_slash [OF pe] e(4,6) by simp
  then have "Report f \<in> set (visit_dir host share opts dir ?item)"
    using visit_dir_readable [of dir ?item entries] e(2,3,5) by auto
  then show "Report f \<in> set (visit_dir host share opts dir ([], 0)) \<and> \<not> rf_IsDir f"
    using visit_reached [OF assms e(1) admitted_file_reached [OF pe e(6)]] e(4,5) by (auto simp: remote_file_def)
qed

text \<open>A callback that keeps what it is given.\<close>

definition collect :: "RemoteFile list walk_fn" where
  "collect acc f = (acc @ [f], None)"

lemma deliver_collect:
  "(\<And>err. ReadFailed err \<notin> set evs) \<Longrightarrow>
   deliver collect evs acc = (acc @ concat (map (\<lambda>ev. case ev of Report f \<Rightarrow> [f] | ReadFailed _ \<Rightarrow> []) evs), None)"
proof (induction collect evs acc rule: deliver.induct)
  case (3 f evs acc)
  then show ?case by (auto simp: collect_def)
qed auto

definition only_denied :: "directory \<Rightarrow> bool" where
  "only_denied dir \<longleftrightarrow> (\<forall>p err. dir p = Inl err \<longrightarrow> isPermissionError err \<or> se_notexist err)"

lemma visit_no_failure: "only_denied dir \<Longrightarrow> ReadFailed err \<notin> set (visit_dir host share opts dir item)"
proof (induction host share opts dir item rule: visit_dir.induct)
  case (1 host share opts dir item)
  show ?case
  proof (cases "dir (fst item)")
    case (Inl err')
    then have "isPermissionError err' \<or> se_notexist err'" using 1(2) by (auto simp: only_denied_def)
    then show ?thesis using Inl by (simp add: visit_dir.simps [of _ _ _ _ item])
  next
    case (Inr entries)
    then show ?thesis using 1(1) [OF Inr] 1(2) by (auto simp: visit_dir_readable)
  qed
qed

text \<open>
  C6: The pruning of directories loses no file. When no directory fails for another reason than being
  denied or gone, the walk ends without an error, and the files it gives are exactly those of the readable
  directories that the include, exclude and depth filters admit by their own paths.
\<close>

theorem walk_gives_admitted_files:
  assumes "proper_names dir" and "only_denied dir"
  shows "\<exists>fs. WalkShareWithOptions host share opts (Inr dir) collect [] = (fs, None) \<and>
    {f \<in> set fs. \<not> rf_IsDir f} = admitted_files host share opts dir"
proof -
  let ?evs = "visit_dir host share opts dir ([], 0)"
  let ?fs = "concat (map (\<lambda>ev. case ev of Report f \<Rightarrow> [f] | ReadFailed _ \<Rightarrow> []) ?evs)"
  have "WalkShareWithOptions host share opts (Inr dir) collect [] = (?fs, None)"
    using deliver_collect [OF visit_no_failure [OF assms(2)], where acc = "[]"]
    by (simp add: WalkShareWithOptions_def walk_loop_deliver)
  moreover have "f \<in> set ?fs \<longleftrightarrow> Report f \<in> set ?evs" for f
    using visit_no_failure [OF assms(2), of _ host share opts "([], 0)"]
    by (force split: walk_event.splits)
  then have "{f \<in> set ?fs. \<not> rf_IsDir f} = admitted_files host share opts dir"
    using visit_files [OF assms(1)] by blast
  ultimately show ?thesis by blast
qed

definition demo_tree :: directory where
  "demo_tree p =
     (if p = [] then Inr [\<lparr>de_Name = ''it'', de_Size = 0, de_ModTime = 0, de_IsDir = True\<rparr>,
         \<lparr>de_Name = ''hr'', de_Size = 0, de_ModTime = 0, de_IsDir = True\<rparr>]
      else if p = ''it'' then Inr [\<lparr>de_Name = ''web.config'', de_Size = 9, de_ModTime = 1, de_IsDir = False\<rparr>]
      else Inl \<lparr>se_text = ''gone'', se_permission = False, se_notexist = True, se_timeout = False\<rparr>)"

definition demo_walk :: WalkOptions where
  "demo_walk = \<lparr>wk_IncludePaths = [''/it/''], wk_ExcludePaths = [''hr''], wk_MaxDepth = 1\<rparr>"

lemma demo_tree_ok: "proper_names demo_tree" "only_denied demo_tree"
  by (auto simp: proper_names_def only_denied_def demo_tree_def proper_name_def split: if_splits)

theorem walk_gives_admitted_files_witness:
  "remote_file ''fs01'' ''data'' ''it'' \<lparr>de_Name = ''web.config'', de_Size = 9, de_ModTime = 1, de_IsDir = False\<rparr> \<in>
     set (fst (WalkShareWithOptions ''fs01'' ''data'' demo_walk (Inr demo_tree) collect []))"
proof -
  let ?it = "\<lparr>de_Name = ''it'', de_Size = 0, de_ModTime = 0, de_IsDir = True\<rparr>"
  let ?e = "\<lparr>de_Name = ''web.config'', de_Size = 9, de_ModTime = 1, de_IsDir = False\<rparr>"
  have "reached demo_tree ([] @ [de_Name ?it])"
    by (rule reached.below [OF reached.root]) (auto simp: remote_path_def demo_tree_def)
  then have "reached demo_tree [''it'']" by simp
  moreover have "demo_tree (remote_path [''it'']) = Inr [?e]" by (simp add: demo_tree_def remote_path_def)
  moreover have "shouldIncludeRemoteFile (slash_path ([''it''] @ [de_Name ?e])) 1 demo_walk (walk_depth demo_walk)"
    unfolding select_convs by code_simp
  ultimately have "remote_file ''fs01'' ''data'' (remote_path [''it'']) ?e \<in> admitted_files ''fs01'' ''data'' demo_walk demo_tree"
    unfolding admitted_files_def by force
  then show ?thesis
    using walk_gives_admitted_files [OF demo_tree_ok, of "''fs01''" "''data''" demo_walk]
    by (auto simp: remote_path_def)
qed

subsection \<open>Reading a file\<close>

text \<open>What \<open>Stat\<close> answers, and the bytes that come when the file is opened; \<open>read_error\<close> is the error of reading.\<close>

record remote_handle =
  rh_stat :: "smb_error + bool \<times> int64"
  rh_open :: "smb_error + byte_stream"
  rh_read_error :: smb_error

datatype read_outcome = Content string | ReadError smb_error | TooLarge string

definition ReadFile :: "int64 \<Rightarrow> smb_error + unit \<Rightarrow> remote_handle \<Rightarrow> string \<Rightarrow> string \<Rightarrow> read_outcome" where
  "ReadFile maxReadSize mount h share path =
     (case mount of
        Inl err \<Rightarrow> ReadError err
      | Inr _ \<Rightarrow>
         (case rh_stat h of
            Inl err \<Rightarrow> ReadError (wrap_error (''stat '' @ path @ '' on '' @ share) err)
          | Inr (isDir, sz) \<Rightarrow>
              if isDir then ReadError \<lparr>se_text = path @ '' on '' @ share @ '' is a directory'', se_permission = False,
                  se_notexist = False, se_timeout = False\<rparr>
              else if 0 <s maxReadSize \<and> maxReadSize <s sz then
                TooLarge (path @ '' on '' @ share @ '' is '' @ itoa (sint sz) @ '' bytes, limit is '' @ itoa (sint maxReadSize))
              else
                (case rh_open h of
                   Inl err \<Rightarrow> ReadError (wrap_error (''open '' @ path @ '' on '' @ share) err)
                 | Inr stream \<Rightarrow>
                     (case (if 0 <s maxReadSize then read_limited stream (maxReadSize + 1)
                            else if bs_fails stream then None else Some (bs_data stream)) of
                        None \<Rightarrow>
                          if se_permission (rh_read_error h)
                          then ReadError \<lparr>se_text = ''read '' @ path @ '' on '' @ share @ '': permission denied'',
                              se_permission = False, se_notexist = False, se_timeout = False\<rparr>
                          else ReadError (wrap_error (''read '' @ path @ '' on '' @ share) (rh_read_error h))
                      | Some data \<Rightarrow>
                          if 0 <s maxReadSize \<and> maxReadSize <s len64 data
                          then TooLarge (path @ '' on '' @ share @ '' exceeded the read limit'')
                          else Content data))))"

text \<open>
  A file that is read is read whole and fits the limit, also when it has grown since its size was asked:
  the limit is a signed 64-bit number below its largest value, so that one more byte can be asked for.
\<close>

lemma read_file_whole:
  assumes "ReadFile limit mount h share path = Content data" and "rh_open h = Inr stream"
    and "0 <s limit" and "sint limit < 2 ^ 63 - 1" and "length (bs_data stream) < 2 ^ 63"
  shows "data = bs_data stream \<and> \<not> bs_fails stream \<and> int (length data) \<le> sint limit"
proof -
  have lim: "0 < sint limit" using assms(3) by (simp add: word_sless_alt)
  have k: "sint (word_of_int k :: int64) = k" if "- (2 ^ 63) \<le> k" "k < 2 ^ 63" for k
    using that by (simp add: signed_of_int signed_take_bit_int_eq_self)
  have "limit + 1 = word_of_int (sint limit + 1)" by simp
  then have s1: "sint (limit + 1) = sint limit + 1"
    using lim assms(4) by (simp only: k)
  then have pos: "\<not> limit + 1 <=s 0" using lim by (simp add: word_sle_eq)
  from assms(1,2) obtain d where d: "read_limited stream (limit + 1) = Some d" "d = data" "\<not> limit <s len64 d"
    using assms(3) by (auto simp: ReadFile_def split: sum.splits if_splits option.splits prod.splits)
  have short: "length d < 2 ^ 63"
  proof -
    have "length d \<le> length (bs_data stream)"
      using d(1) by (auto simp: read_limited_def split: if_splits)
    then show ?thesis using assms(5) by simp
  qed
  then have len: "sint (len64 d) = int (length d)"
    by (simp add: len64_def signed_of_nat signed_take_bit_int_eq_self)
  then have le: "int (length d) \<le> sint limit" using d(3) by (simp add: word_sless_alt)
  have "d = bs_data stream \<and> \<not> bs_fails stream"
    using d(1) pos le s1 by (auto simp: read_limited_def split: if_splits)
  then show ?thesis using d(2) le by simp
qed

text \<open>At the largest limit the increment wraps, and every file is read as empty.\<close>

lemma largest_limit_reads_nothing:
  "ReadFile 0x7FFFFFFFFFFFFFFF (Inr ()) \<lparr>rh_stat = Inr (False, 6), rh_open = Inr \<lparr>bs_data = ''secret'', bs_fails = False\<rparr>,
     rh_read_error = err\<rparr> share path = Content []"
  by (simp add: ReadFile_def read_limited_def word_sless_alt word_sle_eq len64_def)

subsection \<open>Names of a host\<close>

definition last_index :: "char \<Rightarrow> string \<Rightarrow> nat option" where
  "last_index c s = (if c \<in> set s then Some (length s - 1 - length (takeWhile (\<lambda>x. x \<noteq> c) (rev s))) else None)"

definition first_index :: "char \<Rightarrow> string \<Rightarrow> nat option" where
  "first_index c s = (if c \<in> set s then Some (length (takeWhile (\<lambda>x. x \<noteq> c) s)) else None)"

text \<open>\<open>net.SplitHostPort\<close>; \<open>None\<close> stands for its errors.\<close>

definition SplitHostPort :: "string \<Rightarrow> (string \<times> string) option" where
  "SplitHostPort hostport =
     (case last_index CHR '':'' hostport of
        None \<Rightarrow> None
      | Some i \<Rightarrow>
          if hd hostport = CHR ''['' then
            (case first_index CHR '']'' hostport of
               None \<Rightarrow> None
             | Some close \<Rightarrow>
                 if close + 1 \<noteq> i then None
                 else if CHR ''['' \<in> set (drop 1 hostport) \<or> CHR '']'' \<in> set (drop (close + 1) hostport) then None
                 else Some (substr hostport 1 close, drop (i + 1) hostport))
          else if CHR '':'' \<in> set (take i hostport) then None
          else if CHR ''['' \<in> set hostport \<or> CHR '']'' \<in> set hostport then None
          else Some (take i hostport, drop (i + 1) hostport))"

definition JoinHostPort :: "string \<Rightarrow> string \<Rightarrow> string" where
  "JoinHostPort host port =
     (if CHR '':'' \<in> set host then ''['' @ host @ '']:'' @ port else host @ '':'' @ port)"

definition splitHost :: "string \<Rightarrow> (string \<times> string) option" where
  "splitHost host0 =
     (let host = trim_space host0 in
      if host = [] then None
      else case SplitHostPort host of
             Some (parsedHost, parsedPort) \<Rightarrow>
               if parsedHost = [] then None else Some (parsedHost, JoinHostPort parsedHost parsedPort)
           | None \<Rightarrow> Some (host, JoinHostPort host ''445''))"

definition shortHostName :: "(string \<Rightarrow> bool) \<Rightarrow> string \<Rightarrow> string" where
  "shortHostName is_ip host0 =
     (let host = (case SplitHostPort host0 of Some (parsed, _) \<Rightarrow> parsed | None \<Rightarrow> host0) in
      if is_ip host then host
      else case first_index CHR ''.'' host of
             Some idx \<Rightarrow> if idx > 0 then take idx host else host
           | None \<Rightarrow> host)"

definition add_host :: "string list \<Rightarrow> string \<Rightarrow> string list" where
  "add_host hosts host0 =
     (let host = trim_space host0 in
      if host = [] \<or> (\<exists>existing \<in> set hosts. equal_fold existing host) then hosts else hosts @ [host])"

definition mountHostCandidates :: "(string \<Rightarrow> bool) \<Rightarrow> string \<Rightarrow> string \<Rightarrow> string list" where
  "mountHostCandidates is_ip primary fallback =
     (let hosts = add_host (add_host [] primary) fallback; short = shortHostName is_ip fallback in
      if short \<noteq> fallback then add_host (add_host hosts short) (to_upper short) else hosts)"

definition splitUser :: "string \<Rightarrow> string \<times> string" where
  "splitUser user0 =
     (let user = trim_space user0 in
      case first_index CHR 0x5C user of
        Some i \<Rightarrow> (take i user, drop (i + 1) user)
      | None \<Rightarrow>
          (case first_index CHR ''@'' user of
             Some i \<Rightarrow> (drop (i + 1) user, take i user)
           | None \<Rightarrow> ([], user)))"

lemma lower_upper_char [simp]: "lower_char (upper_char c) = lower_char c"
proof (cases "97 \<le> (of_char c :: nat) \<and> (of_char c :: nat) \<le> 122")
  case True
  then have "((of_char c :: nat) - 32) mod 256 = of_char c - 32" by (intro mod_less) linarith
  then have "(of_char (upper_char c) :: nat) = of_char c - 32" using True by (simp add: upper_char_def Let_def)
  then have "(of_char (lower_char (upper_char c)) :: nat) = of_char (lower_char c)"
    using True by (auto simp: of_char_lower Let_def)
  then show ?thesis by (simp only: of_char_eq_iff)
qed (auto simp: upper_char_def Let_def)

lemma to_lower_upper [simp]: "to_lower (to_upper s) = to_lower s"
  by (simp add: to_lower_def to_upper_def)

lemma is_space_upper [simp]: "is_space (upper_char c) = is_space c"
  by (metis is_space_lower lower_upper_char)

lemma trim_space_upper: "trim_space (to_upper s) = to_upper (trim_space s)"
  by (simp add: trim_space_def to_upper_def trim_by_map)

text \<open>The names tried for mounting a share differ by more than their case.\<close>

lemma add_host_distinct: "distinct (map to_lower hosts) \<Longrightarrow> distinct (map to_lower (add_host hosts h))"
  by (auto simp: add_host_def Let_def equal_fold_def)

lemma mount_hosts_distinct: "distinct (map to_lower (mountHostCandidates is_ip primary fallback))"
  by (simp add: mountHostCandidates_def Let_def add_host_distinct)

text \<open>
  The last candidate of the code, the short name in capitals, is never tried: it equals the short name up
  to case, which has just been added or was there already.
\<close>

lemma upper_name_never_added:
  "add_host (add_host hosts short) (to_upper short) = add_host hosts short"
proof -
  have "\<exists>x \<in> set (add_host hosts short). equal_fold x (trim_space (to_upper short))" if "trim_space short \<noteq> []"
    using that by (auto simp: add_host_def Let_def equal_fold_def trim_space_upper)
  then show ?thesis
    by (cases "trim_space short = []") (auto simp: add_host_def [of "add_host hosts short"] Let_def trim_space_upper to_upper_def [of "[]"])
qed

lemma splitUser_examples:
  "splitUser (''CORP'' @ [CHR 0x5C] @ ''svc'') = (''CORP'', ''svc'')" "splitUser ''svc@corp.local'' = (''corp.local'', ''svc'')"
  "splitUser '' svc '' = ([], ''svc'')"
  by code_simp+

lemma splitHost_examples:
  "splitHost ''fs01'' = Some (''fs01'', ''fs01:445'')" "splitHost '' fs01:1445'' = Some (''fs01'', ''fs01:1445'')"
  "splitHost ''::1'' = Some (''::1'', ''[::1]:445'')" "splitHost ''[::1]:445'' = Some (''::1'', ''[::1]:445'')"
  "splitHost '':445'' = None"
  by code_simp+

text \<open>Addresses: a name without brackets and colons round-trips with its port.\<close>

lemma last_index_append: "c \<notin> set p \<Longrightarrow> last_index c (h @ c # p) = Some (length h)"
proof -
  assume "c \<notin> set p"
  then have "takeWhile (\<lambda>x. x \<noteq> c) (rev p @ c # rev h) = rev p"
    by (subst takeWhile_append2) auto
  then show ?thesis by (simp add: last_index_def)
qed

lemma host_port_roundtrip:
  assumes "CHR '':'' \<notin> set h" "CHR ''['' \<notin> set (h @ p)" "CHR '']'' \<notin> set (h @ p)" "CHR '':'' \<notin> set p"
  shows "SplitHostPort (JoinHostPort h p) = Some (h, p)"
proof -
  have j: "JoinHostPort h p = h @ CHR '':'' # p" using assms(1) by (simp add: JoinHostPort_def)
  have "hd (h @ CHR '':'' # p) \<noteq> CHR ''[''" using assms(2) by (cases h) auto
  then show ?thesis
    unfolding j SplitHostPort_def last_index_append [OF assms(4)] using assms by simp
qed

end
