(* ===== verification/Paths.thy ===== *)
theory Paths
  imports GoPath
begin

text \<open>
  Where the program looks for its files (\<open>internal/config/paths.go\<close>): the ancestors of a directory, the
  base directories, the root of an installation, and the resolution of the paths of the configuration.
  What the code asks the operating system is an argument: which paths exist, the working directory and
  the path of the executable. \<open>Join\<close> and \<open>Abs\<close> are those of Go on Unix.
\<close>

record host_env =
  env_exists :: "string \<Rightarrow> bool"
  env_cwd :: "string option"
  env_exe :: "string option"

definition path_isabs :: "string \<Rightarrow> bool" where
  "path_isabs path = has_prefix path ''/''"

definition path_join :: "string list \<Rightarrow> string" where
  "path_join elems =
     (case dropWhile (\<lambda>e. e = []) elems of [] \<Rightarrow> [] | es \<Rightarrow> path_clean (join ''/'' es))"

definition path_abs :: "host_env \<Rightarrow> string \<Rightarrow> string option" where
  "path_abs env path =
     (if path_isabs path then Some (path_clean path)
      else map_option (\<lambda>cwd. path_join [cwd, path]) (env_cwd env))"

subsection \<open>The elements of a clean path\<close>

definition path_rooted :: "string \<Rightarrow> bool" where
  "path_rooted p \<longleftrightarrow> p \<noteq> [] \<and> hd p = CHR ''/''"

definition path_stack :: "string \<Rightarrow> string list" where
  "path_stack p = foldl (clean_step (path_rooted p)) [] (split_on CHR ''/'' p)"

text \<open>The path written for a stack of elements, the last element first.\<close>

definition render :: "bool \<Rightarrow> string list \<Rightarrow> string" where
  "render rooted st =
     (let body = join ''/'' (rev st) in if rooted then CHR ''/'' # body else if body = [] then ''.'' else body)"

lemma path_clean_render: "path_clean p = render (path_rooted p) (path_stack p)"
  by (cases p) (simp_all add: path_clean_def render_def path_stack_def path_rooted_def Let_def)

lemma path_stack_ok: "clean_stack (path_rooted p) (path_stack p)"
  unfolding path_stack_def by (rule clean_elements)

lemma clean_step_length: "length (clean_step r st e) \<le> Suc (length st)"
  by (cases st) auto

lemma clean_foldl_length: "length (foldl (clean_step r) st es) \<le> length st + length es"
proof (induction es arbitrary: st)
  case (Cons e es)
  have "length (foldl (clean_step r) (clean_step r st e) es) \<le> length (clean_step r st e) + length es"
    by (rule Cons.IH)
  then show ?case using clean_step_length [of r st e] by (simp del: clean_step.simps)
qed simp

lemma path_stack_length: "length (path_stack p) \<le> length (split_on CHR ''/'' p)"
  using clean_foldl_length [of "path_rooted p" "[]" "split_on CHR ''/'' p"] by (simp add: path_stack_def)

lemma render_body:
  assumes "clean_stack r st" and "st \<noteq> []"
  shows "join ''/'' (rev st) \<noteq> []" "hd (join ''/'' (rev st)) \<noteq> CHR ''/''"
proof -
  have "w \<noteq> [] \<and> CHR ''/'' \<notin> set w" if "w \<in> set (rev st)" for w
    using clean_stack_elements [OF assms(1), of w] that by simp
  then show "join ''/'' (rev st) \<noteq> []" "hd (join ''/'' (rev st)) \<noteq> CHR ''/''"
    using join_hd [of "rev st" "CHR ''/''"] assms(2) by auto
qed

lemma rooted_render: "clean_stack r st \<Longrightarrow> path_rooted (render r st) = r"
  using render_body [of r st] by (cases "st = []") (auto simp: render_def path_rooted_def Let_def)

lemma stack_render: "clean_stack r st \<Longrightarrow> path_stack (render r st) = st"
proof (cases "st = []")
  case True
  have "foldl (clean_step b) [] (split_on CHR ''/'' ''/'') = []"
    "foldl (clean_step b) [] (split_on CHR ''/'' ''.'') = []" for b by simp_all
  then show ?thesis using True by (auto simp: path_stack_def render_def Let_def)
next
  case False
  assume cs: "clean_stack r st"
  have "foldl (clean_step r) [] (split_on CHR ''/'' (render r st)) = st"
    using clean_join_again [OF cs False] render_body [OF cs False]
    by (auto simp: render_def Let_def)
  then show ?thesis using rooted_render [OF cs] by (simp add: path_stack_def)
qed

lemma clean_stack_tl: "clean_stack r st \<Longrightarrow> clean_stack r (tl st)"
  by (cases st) (auto intro: clean_stack_dots)

lemma clean_stack_drop: "clean_stack r st \<Longrightarrow> clean_stack r (drop n st)"
  by (induction n arbitrary: st) (auto simp: drop_Suc intro: clean_stack_tl)

text \<open>The directory of a clean path is the path without its last element.\<close>

lemma join_snoc_slash:
  "es \<noteq> [] \<Longrightarrow> join [c] (es @ [e]) = join [c] es @ c # e"
  by (simp add: join_append)

lemma dropWhile_after: "c \<notin> set e \<Longrightarrow> rev (dropWhile (\<lambda>x. x \<noteq> c) (rev (a @ c # e))) = a @ [c]"
proof -
  assume "c \<notin> set e"
  then have "dropWhile (\<lambda>x. x \<noteq> c) (rev e @ c # rev a) = c # rev a"
    by (subst dropWhile_append2) auto
  then show ?thesis by simp
qed

lemma dropWhile_absent: "c \<notin> set e \<Longrightarrow> rev (dropWhile (\<lambda>x. x \<noteq> c) (rev e)) = []"
  by auto

lemma clean_slash_end:
  assumes "p \<noteq> []" shows "path_clean (p @ [CHR ''/'']) = path_clean p"
proof -
  have "split_on CHR ''/'' (p @ [CHR ''/'']) = split_on CHR ''/'' p @ [[]]"
    using split_on_append_sep [of "CHR ''/''" p "[]"] by simp
  moreover have "clean_step r st [] = st" for r st by simp
  ultimately have "foldl (clean_step r) [] (split_on CHR ''/'' (p @ [CHR ''/''])) =
      foldl (clean_step r) [] (split_on CHR ''/'' p)" for r by (simp del: clean_step.simps)
  then show ?thesis using assms by (simp add: path_clean_def)
qed

lemma dir_render:
  assumes cs: "clean_stack r st"
  shows "path_dir (render r st) = render r (tl st)"
proof (cases st)
  case Nil
  have "path_dir ''/'' = ''/''" "path_dir ''.'' = ''.''" by code_simp+
  then show ?thesis using Nil by (auto simp: render_def Let_def)
next
  case (Cons e ts)
  have e: "CHR ''/'' \<notin> set e" using clean_stack_elements [OF cs, of e] Cons by simp
  have ts: "clean_stack r ts" using clean_stack_tl [OF cs] Cons by simp
  have again: "path_clean (render r ts) = render r ts"
    by (simp add: path_clean_render rooted_render [OF ts] stack_render [OF ts])
  show ?thesis
  proof (cases "ts = []")
    case True
    have sl: "path_clean ''/'' = ''/''" "path_clean [] = ''.''" by code_simp+
    have "path_dir (CHR ''/'' # e) = path_clean ''/''"
      using dropWhile_after [OF e, of "[]"] by (simp add: path_dir_def)
    moreover have "path_dir e = path_clean []"
      by (simp only: path_dir_def dropWhile_absent [OF e])
    moreover have "e \<noteq> []" using clean_stack_elements [OF cs, of e] Cons by simp
    ultimately show ?thesis using Cons True sl by (simp add: render_def Let_def)
  next
    case False
    define b where "b = join ''/'' (rev ts)"
    have body: "join ''/'' (rev st) = b @ CHR ''/'' # e"
      using False Cons by (simp add: join_snoc_slash b_def)
    have b: "b \<noteq> []" using render_body [OF ts False] by (simp add: b_def)
    have rs: "render r st = render r ts @ CHR ''/'' # e" "render r ts \<noteq> []"
      using body b Cons by (auto simp: render_def Let_def b_def)
    have "path_dir (render r st) = path_clean (render r ts @ [CHR ''/''])"
      unfolding path_dir_def rs(1) by (subst dropWhile_after [OF e]) simp
    then show ?thesis using rs(2) again Cons by (simp add: clean_slash_end)
  qed
qed

subsection \<open>The ancestors of a directory\<close>

text \<open>
  The loop of \<open>ancestorDirs\<close> stops when a directory is its own parent. It ends from every start: the
  parent of a clean path has one element less, and after the first step the path is clean.
\<close>

definition dir_measure :: "string \<Rightarrow> nat" where
  "dir_measure p = (if path_clean p = p then length (path_stack p) else Suc (length (split_on CHR ''/'' p)))"

lemma dir_measure_clean: "dir_measure p \<le> Suc (length (split_on CHR ''/'' p))"
  using path_stack_length [of p] by (simp add: dir_measure_def)

lemma dir_of_clean:
  assumes "path_clean p = p"
  shows "path_dir p = render (path_rooted p) (tl (path_stack p))"
  using dir_render [OF path_stack_ok [of p]] path_clean_render [of p] assms by simp

lemma dir_prefix: "\<exists>q. rev (dropWhile P (rev p)) @ q = p"
  by (metis rev_append rev_rev_ident takeWhile_dropWhile_id)

lemma path_dir_stack_length: "length (path_stack (path_dir p)) \<le> length (split_on CHR ''/'' p)"
proof -
  define a where "a = rev (dropWhile (\<lambda>c. c \<noteq> CHR ''/'') (rev p))"
  obtain q where q: "p = a @ q" using dir_prefix a_def by metis
  have "path_stack (path_dir p) = path_stack a"
    using path_clean_render [of a] stack_render [OF path_stack_ok [of a]] by (simp add: path_dir_def a_def)
  moreover have "length (split_on CHR ''/'' a) \<le> length (split_on CHR ''/'' p)"
    by (simp add: length_split_on q)
  ultimately show ?thesis using path_stack_length [of a] by simp
qed

lemma path_dir_clean [simp]: "path_clean (path_dir p) = path_dir p"
  by (simp add: path_dir_def)

lemma path_dir_decreases: "path_dir p \<noteq> p \<Longrightarrow> dir_measure (path_dir p) < dir_measure p"
proof (cases "path_clean p = p")
  case True
  assume "path_dir p \<noteq> p"
  moreover have "p = render (path_rooted p) (path_stack p)" using path_clean_render [of p] True by simp
  ultimately have "path_stack p \<noteq> []" using dir_of_clean [OF True] by (cases "path_stack p") auto
  moreover have "path_stack (path_dir p) = tl (path_stack p)"
    using dir_of_clean [OF True] stack_render [OF clean_stack_tl [OF path_stack_ok [of p]]] by simp
  ultimately show ?thesis using True by (simp add: dir_measure_def)
next
  case False
  then show ?thesis using path_dir_stack_length [of p] by (simp add: dir_measure_def less_Suc_eq_le)
qed

function ancestor_loop :: "string \<Rightarrow> string list" where
  "ancestor_loop p = (let parent = path_dir p in if parent = p then [p] else p # ancestor_loop parent)"
  by pat_completeness auto
termination
  by (relation "measure dir_measure") (auto intro: path_dir_decreases)

declare ancestor_loop.simps [simp del]

definition ancestorDirs :: "string \<Rightarrow> string list" where
  "ancestorDirs start0 =
     (let start = trim_space start0 in if start = [] then [] else ancestor_loop (path_clean start))"

lemma render_inj: "clean_stack r a \<Longrightarrow> clean_stack r b \<Longrightarrow> render r a = render r b \<longleftrightarrow> a = b"
  by (metis stack_render)

lemma ancestor_loop_render:
  "clean_stack r st \<Longrightarrow> ancestor_loop (render r st) = map (\<lambda>i. render r (drop i st)) [0..<Suc (length st)]"
proof (induction st)
  case Nil
  have "path_dir (render r []) = render r []" using dir_render [of r "[]"] by simp
  then show ?case by (simp add: ancestor_loop.simps)
next
  case (Cons e st)
  have st: "clean_stack r st" using clean_stack_tl [OF Cons.prems] by simp
  have "path_dir (render r (e # st)) = render r st" using dir_render [OF Cons.prems] by simp
  moreover have "render r st \<noteq> render r (e # st)" using render_inj [OF st Cons.prems] by simp
  ultimately have "ancestor_loop (render r (e # st)) = render r (e # st) # ancestor_loop (render r st)"
    by (subst ancestor_loop.simps) (simp add: Let_def)
  also have "\<dots> = map (\<lambda>i. render r (drop i (e # st))) [0..<Suc (length (e # st))]"
    unfolding Cons.IH [OF st] by (simp add: map_upt_Suc del: upt_Suc)
  finally show ?case .
qed

lemma render_Nil: "render r [] = (if r then ''/'' else ''.'')"
  by (simp add: render_def)

text \<open>
  From a directory the search goes through its ancestors and ends: it starts at the cleaned path,
  each entry is the parent of the one before, no directory comes twice, the last one is the root, or the
  dot for a relative path, and there are at most one more than the path has elements.
\<close>

theorem ancestors_end:
  fixes start :: string
  defines "p \<equiv> trim_space start" and "ds \<equiv> ancestorDirs start"
  assumes "p \<noteq> []"
  shows "hd ds = path_clean p \<and> last ds = (if hd p = CHR ''/'' then ''/'' else ''.'') \<and> distinct ds \<and>
    (\<forall>i. Suc i < length ds \<longrightarrow> ds ! Suc i = path_dir (ds ! i)) \<and>
    length ds \<le> Suc (length (split_on CHR ''/'' p))"
proof -
  define r st where "r = path_rooted p" and "st = path_stack p"
  have cs: "clean_stack r st" by (simp add: r_def st_def path_stack_ok)
  have ds: "ds = map (\<lambda>i. render r (drop i st)) [0..<Suc (length st)]"
    using assms ancestor_loop_render [OF cs] by (simp add: ancestorDirs_def Let_def path_clean_render r_def st_def)
  have "hd ds = path_clean p" by (simp add: ds path_clean_render r_def st_def hd_map del: upt_Suc)
  moreover have "last ds = (if hd p = CHR ''/'' then ''/'' else ''.'')"
    using assms(3) by (simp add: ds render_Nil r_def path_rooted_def)
  moreover have "distinct ds"
    unfolding ds distinct_map inj_on_def
    using render_inj clean_stack_drop [OF cs] by (auto simp: less_Suc_eq_le dest: arg_cong [of _ _ length])
  moreover have "ds ! Suc i = path_dir (ds ! i)" if "Suc i < length ds" for i
    using that dir_render [OF clean_stack_drop [OF cs, of i]] by (simp add: ds tl_drop drop_Suc del: upt_Suc)
  moreover have "length ds \<le> Suc (length (split_on CHR ''/'' p))"
    using path_stack_length [of p] by (simp add: ds st_def)
  ultimately show ?thesis by blast
qed

theorem ancestors_end_witness:
  "last (ancestorDirs '' /srv/./snablr/../app'') = ''/'' \<and> last (ancestorDirs ''configs'') = ''.''"
  using ancestors_end [of "'' /srv/./snablr/../app''"] ancestors_end [of "''configs''"]
  by (simp add: trim_space_def trim_by_def is_space_code)

lemma ancestors_example:
  "ancestorDirs '' /srv/./snablr/../app'' = [''/srv/app'', ''/srv'', ''/'']"
  by code_simp

subsection \<open>Candidates\<close>

fun dedupe_loop :: "string list \<Rightarrow> string list \<Rightarrow> string list" where
  "dedupe_loop seen [] = []"
| "dedupe_loop seen (path0 # paths) =
     (let path = trim_space path0 in
      if path = [] then dedupe_loop seen paths
      else let cleaned = path_clean path
           in if cleaned \<in> set seen then dedupe_loop seen paths
              else cleaned # dedupe_loop (cleaned # seen) paths)"

definition dedupePaths :: "string list \<Rightarrow> string list" where
  "dedupePaths paths = dedupe_loop [] paths"

definition searchBaseDirs :: "host_env \<Rightarrow> string list" where
  "searchBaseDirs env =
     dedupePaths ((case env_cwd env of None \<Rightarrow> [] | Some cwd \<Rightarrow> ancestorDirs cwd) @
                  (case env_exe env of None \<Rightarrow> [] | Some exe \<Rightarrow> ancestorDirs (path_dir exe)))"

definition looksLikeRuntimeRoot :: "host_env \<Rightarrow> string \<Rightarrow> bool" where
  "looksLikeRuntimeRoot env path \<longleftrightarrow>
     env_exists env (path_join [path, ''configs'', ''rules'', ''default'']) \<and>
     (env_exists env (path_join [path, ''configs'', ''config.yaml'']) \<or> env_exists env (path_join [path, ''go.mod'']))"

definition detectRuntimeRoot :: "host_env \<Rightarrow> string \<Rightarrow> string" where
  "detectRuntimeRoot env configDir =
     (let candidates = (if trim_space configDir \<noteq> [] then ancestorDirs configDir else []) @ searchBaseDirs env
      in case find (looksLikeRuntimeRoot env) (dedupePaths candidates) of
           Some candidate \<Rightarrow> candidate
         | None \<Rightarrow> if trim_space configDir \<noteq> [] then path_clean configDir else [])"

definition resolveConfigPath :: "host_env \<Rightarrow> string \<Rightarrow> string" where
  "resolveConfigPath env path0 =
     (let path = trim_space path0 in
      if path = [] \<or> path_isabs path then path
      else
        let candidates = path # map (\<lambda>base. path_join [base, path]) (searchBaseDirs env)
        in case find (env_exists env) (dedupePaths candidates) of
             None \<Rightarrow> path
           | Some candidate \<Rightarrow>
               (case path_abs env candidate of Some full \<Rightarrow> full | None \<Rightarrow> path_clean candidate))"

definition resolvePath :: "host_env \<Rightarrow> string \<Rightarrow> string list \<Rightarrow> string" where
  "resolvePath env path0 bases0 =
     (let path = trim_space path0 in
      if path = [] \<or> path_isabs path then path_clean path
      else
        let bases = filter (\<lambda>b. b \<noteq> []) (map trim_space bases0);
            candidates = path # map (\<lambda>base. path_join [base, path]) bases
        in case find (env_exists env) (dedupePaths candidates) of
             Some candidate \<Rightarrow> path_clean candidate
           | None \<Rightarrow> (case bases of [] \<Rightarrow> path_clean path | base # _ \<Rightarrow> path_clean (path_join [base, path])))"

lemma dedupe_loop_props:
  "set (dedupe_loop seen ps) = path_clean ` (trim_space ` set ps - {[]}) - set seen \<and>
   distinct (dedupe_loop seen ps)"
  by (induction seen ps rule: dedupe_loop.induct) (auto simp: Let_def)

lemma set_dedupePaths: "set (dedupePaths ps) = path_clean ` (trim_space ` set ps - {[]})"
  by (simp add: dedupePaths_def dedupe_loop_props)

lemma distinct_dedupePaths: "distinct (dedupePaths ps)"
  by (simp add: dedupePaths_def dedupe_loop_props)

text \<open>\<open>dedupePaths\<close> keeps what it has kept, unless cleaning exposes white space at an end.\<close>

lemma dedupe_loop_id:
  "distinct ps \<Longrightarrow> set ps \<inter> set seen = {} \<Longrightarrow>
   (\<And>p. p \<in> set ps \<Longrightarrow> path_clean p = p \<and> trim_space p = p) \<Longrightarrow> dedupe_loop seen ps = ps"
proof (induction seen ps rule: dedupe_loop.induct)
  case (2 seen p ps)
  then have p: "path_clean p = p" "trim_space p = p" by auto
  then have "p \<noteq> []" by (metis path_clean_not_Nil)
  with p 2 show ?case by (auto simp: Let_def)
qed simp

text \<open>The candidates, in the order in which they are tried.\<close>

definition path_candidates :: "string \<Rightarrow> string list \<Rightarrow> string list" where
  "path_candidates path bases =
     map path_clean (path # map (\<lambda>base. path_join [base, path]) (filter (\<lambda>b. b \<noteq> []) (map trim_space bases)))"

lemma find_dedupe_loop:
  "(\<And>c. c \<in> set seen \<Longrightarrow> \<not> P c) \<Longrightarrow> (\<And>p. p \<in> set ps \<Longrightarrow> trim_space p = p \<and> p \<noteq> []) \<Longrightarrow>
   find P (dedupe_loop seen ps) = find P (map path_clean ps)"
proof (induction ps arbitrary: seen)
  case (Cons p ps)
  then have p: "trim_space p = p" "p \<noteq> []" by auto
  show ?case
  proof (cases "path_clean p \<in> set seen")
    case True
    then show ?thesis using p Cons.prems Cons.IH [of seen] by (simp add: Let_def)
  next
    case False
    show ?thesis
    proof (cases "P (path_clean p)")
      case no: False
      have "find P (dedupe_loop (path_clean p # seen) ps) = find P (map path_clean ps)"
        using no Cons.prems by (intro Cons.IH) auto
      then show ?thesis using p False no by (simp add: Let_def)
    qed (use p False in \<open>simp add: Let_def\<close>)
  qed
qed simp

lemma path_join_not_Nil: "path \<noteq> [] \<Longrightarrow> path_join [base, path] \<noteq> []"
  by (auto simp: path_join_def split: list.splits)

text \<open>
  A relative path of the configuration resolves to the first of its candidates that exists: itself,
  then the path below each base directory, in order; when none exists, to the path below the first base
  directory, and to itself when there is none. The order does not change when two candidates are the
  same path. (Candidates that begin or end with a space are trimmed, which is excluded here.)
\<close>

theorem resolvePath_first_existing:
  fixes path0 :: string
  defines "path \<equiv> trim_space path0"
  assumes "path \<noteq> []" and "\<not> path_isabs path"
    and "\<And>b. b \<in> set bases \<Longrightarrow> trim_space (path_join [trim_space b, path]) = path_join [trim_space b, path]"
  shows "resolvePath env path0 bases =
    (case find (env_exists env) (path_candidates path bases) of
       Some c \<Rightarrow> c
     | None \<Rightarrow> (case path_candidates path bases of [p] \<Rightarrow> p | _ # c # _ \<Rightarrow> c))"
proof -
  let ?bs = "filter (\<lambda>b. b \<noteq> []) (map trim_space bases)"
  let ?cs = "path # map (\<lambda>base. path_join [base, path]) ?bs"
  have ok: "trim_space c = c \<and> c \<noteq> []" if "c \<in> set ?cs" for c
    using that assms path_join_not_Nil by (auto simp: path_def)
  have f: "find (env_exists env) (dedupePaths ?cs) = find (env_exists env) (map path_clean ?cs)"
    unfolding dedupePaths_def by (rule find_dedupe_loop [OF _ ok]) simp_all
  have cl: "path_clean c = c" if "find (env_exists env) (map path_clean ?cs) = Some c" for c
  proof -
    have "c \<in> set (map path_clean ?cs)" using that by (metis find_Some_iff nth_mem)
    then show ?thesis by auto
  qed
  have "resolvePath env path0 bases =
      (case find (env_exists env) (map path_clean ?cs) of Some c \<Rightarrow> path_clean c
       | None \<Rightarrow> (case ?bs of [] \<Rightarrow> path_clean path | base # _ \<Rightarrow> path_clean (path_join [base, path])))"
    unfolding resolvePath_def Let_def path_def [symmetric] f by (simp only: assms(2,3) if_False simp_thms)
  moreover have c: "path_candidates path bases = map path_clean ?cs" by (simp only: path_candidates_def)
  ultimately have eq: "resolvePath env path0 bases =
      (case find (env_exists env) (path_candidates path bases) of Some c \<Rightarrow> path_clean c
       | None \<Rightarrow> (case ?bs of [] \<Rightarrow> path_clean path | base # _ \<Rightarrow> path_clean (path_join [base, path])))"
    by (simp only: c)
  have last_case: "(case ?bs of [] \<Rightarrow> path_clean path | base # _ \<Rightarrow> path_clean (path_join [base, path])) =
      (case path_candidates path bases of [p] \<Rightarrow> p | _ # c # _ \<Rightarrow> c)"
    unfolding c by (cases ?bs) simp_all
  show ?thesis
  proof (cases "find (env_exists env) (path_candidates path bases)")
    case None
    show ?thesis unfolding eq None option.case by (rule last_case)
  next
    case (Some d)
    show ?thesis unfolding eq Some option.case by (rule cl) (use Some c in simp)
  qed
qed

definition demo_env :: host_env where
  "demo_env = \<lparr>env_exists = (\<lambda>p. p = ''/opt/snablr/rules''), env_cwd = Some ''/tmp'', env_exe = None\<rparr>"

theorem resolvePath_first_existing_witness:
  "resolvePath demo_env ''rules'' [''/etc/snablr'', '' /opt/snablr/''] = ''/opt/snablr/rules''"
proof -
  have t: "trim_space ''rules'' = ''rules''" "\<not> path_isabs ''rules''" by code_simp+
  have j: "trim_space (path_join [trim_space b, trim_space ''rules'']) = path_join [trim_space b, trim_space ''rules'']"
    if "b \<in> set [''/etc/snablr'', '' /opt/snablr/'']" for b
  proof -
    have "list_all (\<lambda>b. trim_space (path_join [trim_space b, trim_space ''rules'']) = path_join [trim_space b, trim_space ''rules''])
      [''/etc/snablr'', '' /opt/snablr/'']" by code_simp
    then show ?thesis using that by (auto simp: list_all_iff)
  qed
  have "path_candidates ''rules'' [''/etc/snablr'', '' /opt/snablr/''] =
      [''rules'', ''/etc/snablr/rules'', ''/opt/snablr/rules'']" by code_simp
  moreover have "trim_space ''rules'' \<noteq> []" "\<not> path_isabs (trim_space ''rules'')" using t by simp_all
  ultimately show ?thesis
    using resolvePath_first_existing [of "''rules''" "[''/etc/snablr'', '' /opt/snablr/'']" demo_env] j t
    by (simp add: demo_env_def)
qed

end
