(* ===== verification/Config.thy ===== *)
theory Config
  imports Paths Suppression "HOL-Library.Word"
begin

text \<open>
  The configuration (\<open>internal/config\<close>): its records, the defaults, the scan profiles, the loading of a
  file with its suppression overlay, and the derived values (rule directories, timeouts, output formats).
  The YAML decoder, a third-party package, is an argument: reading a file, the profile a document names, the
  configuration a document gives when decoded over another, and the overlay. The 64-bit sizes of the
  configuration are integers here; nothing is computed with them but comparisons.
\<close>

subsection \<open>The records\<close>

record AppConfig =
  ap_Name :: string
  ap_LogLevel :: string
  ap_BannerPath :: string

record ScanConfig =
  scn_Targets :: "string list"
  scn_TargetsFile :: string
  scn_Profile :: string
  scn_Username :: string
  scn_Password :: string
  scn_SMBAuth :: string
  scn_SMBCCache :: string
  scn_Share :: "string list"
  scn_ExcludeShare :: "string list"
  scn_Path :: "string list"
  scn_ExcludePath :: "string list"
  scn_MaxDepth :: int
  scn_WorkerCount :: int
  scn_MaxFileSize :: int
  scn_NoLDAP :: bool
  scn_Domain :: string
  scn_DomainController :: string
  scn_BaseDN :: string
  scn_LDAPAuth :: string
  scn_LDAPTransport :: string
  scn_DiscoverDFS :: bool
  scn_PrioritizeADShares :: bool
  scn_OnlyADShares :: bool
  scn_Baseline :: string
  scn_SeedManifest :: string
  scn_ValidationMode :: bool
  scn_MaxScanTime :: string
  scn_CheckpointFile :: string
  scn_Resume :: bool
  scn_SkipReachabilityCheck :: bool
  scn_ReachabilityTimeoutSeconds :: int
  scn_SMBOperationTimeoutSeconds :: int

record ArchiveConfig =
  ca_Enabled :: bool
  ca_AutoZIPMaxSize :: int
  ca_AllowLargeZIPs :: bool
  ca_MaxZIPSize :: int
  ca_AutoTARMaxSize :: int
  ca_AllowLargeTARs :: bool
  ca_MaxTARSize :: int
  ca_MaxMembers :: int
  ca_MaxMemberBytes :: int
  ca_MaxTotalUncompressed :: int
  ca_InspectExtensionlessText :: bool

record WIMConfig =
  cw_Enabled :: bool
  cw_AutoWIMMaxSize :: int
  cw_AllowLargeWIMs :: bool
  cw_MaxWIMSize :: int
  cw_MaxMembers :: int
  cw_MaxMemberBytes :: int
  cw_MaxTotalBytes :: int

record SQLiteConfig =
  cq_Enabled :: bool
  cq_AutoDBMaxSize :: int
  cq_AllowLargeDBs :: bool
  cq_MaxDBSize :: int
  cq_MaxTables :: int
  cq_MaxRowsPerTable :: int
  cq_MaxCellBytes :: int
  cq_MaxTotalBytes :: int
  cq_MaxInterestingCols :: int

record SuppressionConfig =
  csu_File :: string
  csu_SampleLimit :: int
  csu_Rules :: "SuppressionRule list"

record RulesConfig =
  cr_Directory :: string
  cr_FailOnInvalid :: bool

record OutputConfig =
  cu_Format :: string
  cu_NoTUI :: bool
  cu_JSONOut :: string
  cu_HTMLOut :: string
  cu_CSVOut :: string
  cu_MDOut :: string
  cu_CredsOut :: string
  cu_ScannedTargetsOut :: string
  cu_ReportBackupArtifacts :: bool
  cu_Pretty :: bool

record Config =
  cg_App :: AppConfig
  cg_Scan :: ScanConfig
  cg_Archives :: ArchiveConfig
  cg_WIM :: WIMConfig
  cg_SQLite :: SQLiteConfig
  cg_Suppression :: SuppressionConfig
  cg_Rules :: RulesConfig
  cg_Output :: OutputConfig
  cg_configDir :: string
  cg_runtimeRoot :: string

subsection \<open>Profiles\<close>

definition normalizeProfile :: "string \<Rightarrow> string" where
  "normalizeProfile value0 = to_lower (trim_space value0)"

definition default_archives :: ArchiveConfig where
  "default_archives = \<lparr>ca_Enabled = True, ca_AutoZIPMaxSize = 10 * 1024 * 1024, ca_AllowLargeZIPs = False,
     ca_MaxZIPSize = 10 * 1024 * 1024, ca_AutoTARMaxSize = 10 * 1024 * 1024, ca_AllowLargeTARs = False,
     ca_MaxTARSize = 10 * 1024 * 1024, ca_MaxMembers = 64, ca_MaxMemberBytes = 512 * 1024,
     ca_MaxTotalUncompressed = 4 * 1024 * 1024, ca_InspectExtensionlessText = True\<rparr>"

definition default_wim :: WIMConfig where
  "default_wim = \<lparr>cw_Enabled = True, cw_AutoWIMMaxSize = 128 * 1024 * 1024, cw_AllowLargeWIMs = False,
     cw_MaxWIMSize = 128 * 1024 * 1024, cw_MaxMembers = 8, cw_MaxMemberBytes = 1024 * 1024,
     cw_MaxTotalBytes = 4 * 1024 * 1024\<rparr>"

definition default_sqlite :: SQLiteConfig where
  "default_sqlite = \<lparr>cq_Enabled = True, cq_AutoDBMaxSize = 5 * 1024 * 1024, cq_AllowLargeDBs = False,
     cq_MaxDBSize = 5 * 1024 * 1024, cq_MaxTables = 8, cq_MaxRowsPerTable = 5, cq_MaxCellBytes = 256,
     cq_MaxTotalBytes = 16 * 1024, cq_MaxInterestingCols = 4\<rparr>"

definition validation_archives :: ArchiveConfig where
  "validation_archives = \<lparr>ca_Enabled = True, ca_AutoZIPMaxSize = 5 * 1024 * 1024, ca_AllowLargeZIPs = False,
     ca_MaxZIPSize = 5 * 1024 * 1024, ca_AutoTARMaxSize = 5 * 1024 * 1024, ca_AllowLargeTARs = False,
     ca_MaxTARSize = 5 * 1024 * 1024, ca_MaxMembers = 32, ca_MaxMemberBytes = 256 * 1024,
     ca_MaxTotalUncompressed = 2 * 1024 * 1024, ca_InspectExtensionlessText = False\<rparr>"

definition validation_wim :: WIMConfig where
  "validation_wim = \<lparr>cw_Enabled = True, cw_AutoWIMMaxSize = 64 * 1024 * 1024, cw_AllowLargeWIMs = False,
     cw_MaxWIMSize = 64 * 1024 * 1024, cw_MaxMembers = 6, cw_MaxMemberBytes = 512 * 1024,
     cw_MaxTotalBytes = 2 * 1024 * 1024\<rparr>"

definition validation_sqlite :: SQLiteConfig where
  "validation_sqlite = \<lparr>cq_Enabled = True, cq_AutoDBMaxSize = 2 * 1024 * 1024, cq_AllowLargeDBs = False,
     cq_MaxDBSize = 2 * 1024 * 1024, cq_MaxTables = 4, cq_MaxRowsPerTable = 3, cq_MaxCellBytes = 192,
     cq_MaxTotalBytes = 8 * 1024, cq_MaxInterestingCols = 3\<rparr>"

definition aggressive_archives :: ArchiveConfig where
  "aggressive_archives = \<lparr>ca_Enabled = True, ca_AutoZIPMaxSize = 10 * 1024 * 1024, ca_AllowLargeZIPs = True,
     ca_MaxZIPSize = 25 * 1024 * 1024, ca_AutoTARMaxSize = 10 * 1024 * 1024, ca_AllowLargeTARs = False,
     ca_MaxTARSize = 10 * 1024 * 1024, ca_MaxMembers = 96, ca_MaxMemberBytes = 1024 * 1024,
     ca_MaxTotalUncompressed = 8 * 1024 * 1024, ca_InspectExtensionlessText = True\<rparr>"

definition aggressive_wim :: WIMConfig where
  "aggressive_wim = \<lparr>cw_Enabled = True, cw_AutoWIMMaxSize = 128 * 1024 * 1024, cw_AllowLargeWIMs = True,
     cw_MaxWIMSize = 256 * 1024 * 1024, cw_MaxMembers = 12, cw_MaxMemberBytes = 2 * 1024 * 1024,
     cw_MaxTotalBytes = 8 * 1024 * 1024\<rparr>"

definition aggressive_sqlite :: SQLiteConfig where
  "aggressive_sqlite = \<lparr>cq_Enabled = True, cq_AutoDBMaxSize = 5 * 1024 * 1024, cq_AllowLargeDBs = True,
     cq_MaxDBSize = 15 * 1024 * 1024, cq_MaxTables = 12, cq_MaxRowsPerTable = 10, cq_MaxCellBytes = 512,
     cq_MaxTotalBytes = 64 * 1024, cq_MaxInterestingCols = 6\<rparr>"

definition set_profile ::
  "string \<Rightarrow> bool \<Rightarrow> ArchiveConfig \<Rightarrow> WIMConfig \<Rightarrow> SQLiteConfig \<Rightarrow> Config \<Rightarrow> Config" where
  "set_profile name validation a w q cfg =
     cfg\<lparr>cg_Scan := (cg_Scan cfg)\<lparr>scn_Profile := name, scn_ValidationMode := validation\<rparr>,
         cg_Archives := a, cg_WIM := w, cg_SQLite := q\<rparr>"

text \<open>The error of an unsupported profile is \<open>None\<close>; the configuration is then left alone.\<close>

definition ApplyScanProfile :: "Config \<Rightarrow> string \<Rightarrow> Config option" where
  "ApplyScanProfile cfg profile =
     (let p = normalizeProfile profile in
      if p = [] \<or> p = ''default'' then
        Some (set_profile ''default'' False default_archives default_wim default_sqlite cfg)
      else if p = ''validation'' then
        Some (set_profile ''validation'' True validation_archives validation_wim validation_sqlite cfg)
      else if p = ''aggressive'' then
        Some (set_profile ''aggressive'' True aggressive_archives aggressive_wim aggressive_sqlite cfg)
      else None)"

subsection \<open>Defaults\<close>

definition applyPathContext :: "host_env \<Rightarrow> Config \<Rightarrow> string \<Rightarrow> Config" where
  "applyPathContext env cfg resolved =
     (let dir = (if trim_space resolved \<noteq> [] then path_dir resolved else [])
      in cfg\<lparr>cg_configDir := dir, cg_runtimeRoot := detectRuntimeRoot env dir\<rparr>)"

definition default_scan :: ScanConfig where
  "default_scan = \<lparr>scn_Targets = [], scn_TargetsFile = [], scn_Profile = ''default'', scn_Username = [],
     scn_Password = [], scn_SMBAuth = ''ntlm'', scn_SMBCCache = [], scn_Share = [], scn_ExcludeShare = [],
     scn_Path = [], scn_ExcludePath = [], scn_MaxDepth = 0, scn_WorkerCount = 0,
     scn_MaxFileSize = 10 * 1024 * 1024, scn_NoLDAP = False, scn_Domain = [], scn_DomainController = [],
     scn_BaseDN = [], scn_LDAPAuth = ''auto'', scn_LDAPTransport = ''auto'', scn_DiscoverDFS = False,
     scn_PrioritizeADShares = True, scn_OnlyADShares = False, scn_Baseline = [], scn_SeedManifest = [],
     scn_ValidationMode = False, scn_MaxScanTime = [], scn_CheckpointFile = [], scn_Resume = False,
     scn_SkipReachabilityCheck = False, scn_ReachabilityTimeoutSeconds = 3, scn_SMBOperationTimeoutSeconds = 30\<rparr>"

definition default_output :: OutputConfig where
  "default_output = \<lparr>cu_Format = ''console'', cu_NoTUI = False, cu_JSONOut = ''results.json'',
     cu_HTMLOut = ''report.html'', cu_CSVOut = [], cu_MDOut = [], cu_CredsOut = [],
     cu_ScannedTargetsOut = ''scanned_targets.txt'', cu_ReportBackupArtifacts = False, cu_Pretty = True\<rparr>"

definition Default :: "host_env \<Rightarrow> Config" where
  "Default env = applyPathContext env
     \<lparr>cg_App = \<lparr>ap_Name = ''snablr'', ap_LogLevel = ''info'', ap_BannerPath = ''internal/ui/assets/snablr.txt''\<rparr>,
      cg_Scan = default_scan, cg_Archives = default_archives, cg_WIM = default_wim, cg_SQLite = default_sqlite,
      cg_Suppression = \<lparr>csu_File = [], csu_SampleLimit = 10, csu_Rules = []\<rparr>,
      cg_Rules = \<lparr>cr_Directory = [], cr_FailOnInvalid = False\<rparr>, cg_Output = default_output,
      cg_configDir = [], cg_runtimeRoot = []\<rparr> []"

definition limit_or :: "int \<Rightarrow> int \<Rightarrow> int" where
  "limit_or v d = (if v \<le> 0 then d else v)"

definition text_or :: "string \<Rightarrow> string \<Rightarrow> string" where
  "text_or v d = (if v = [] then d else v)"

definition archive_defaults :: "ArchiveConfig \<Rightarrow> ArchiveConfig" where
  "archive_defaults a =
     (let zip = limit_or (ca_AutoZIPMaxSize a) (10 * 1024 * 1024);
          tar = limit_or (ca_AutoTARMaxSize a) (10 * 1024 * 1024)
      in a\<lparr>ca_AutoZIPMaxSize := zip, ca_MaxZIPSize := limit_or (ca_MaxZIPSize a) zip,
           ca_AutoTARMaxSize := tar, ca_MaxTARSize := limit_or (ca_MaxTARSize a) tar,
           ca_MaxMembers := limit_or (ca_MaxMembers a) 64,
           ca_MaxMemberBytes := limit_or (ca_MaxMemberBytes a) (512 * 1024),
           ca_MaxTotalUncompressed := limit_or (ca_MaxTotalUncompressed a) (4 * 1024 * 1024)\<rparr>)"

definition wim_defaults :: "WIMConfig \<Rightarrow> WIMConfig" where
  "wim_defaults w =
     (let auto = limit_or (cw_AutoWIMMaxSize w) (128 * 1024 * 1024)
      in w\<lparr>cw_AutoWIMMaxSize := auto, cw_MaxWIMSize := limit_or (cw_MaxWIMSize w) auto,
           cw_MaxMembers := limit_or (cw_MaxMembers w) 8,
           cw_MaxMemberBytes := limit_or (cw_MaxMemberBytes w) (1024 * 1024),
           cw_MaxTotalBytes := limit_or (cw_MaxTotalBytes w) (4 * 1024 * 1024)\<rparr>)"

definition sqlite_defaults :: "SQLiteConfig \<Rightarrow> SQLiteConfig" where
  "sqlite_defaults q =
     (let auto = limit_or (cq_AutoDBMaxSize q) (5 * 1024 * 1024)
      in q\<lparr>cq_AutoDBMaxSize := auto, cq_MaxDBSize := limit_or (cq_MaxDBSize q) auto,
           cq_MaxTables := limit_or (cq_MaxTables q) 8, cq_MaxRowsPerTable := limit_or (cq_MaxRowsPerTable q) 5,
           cq_MaxCellBytes := limit_or (cq_MaxCellBytes q) 256,
           cq_MaxTotalBytes := limit_or (cq_MaxTotalBytes q) (16 * 1024),
           cq_MaxInterestingCols := limit_or (cq_MaxInterestingCols q) 4\<rparr>)"

definition scan_defaults :: "ScanConfig \<Rightarrow> ScanConfig" where
  "scan_defaults s =
     s\<lparr>scn_MaxFileSize := limit_or (scn_MaxFileSize s) (10 * 1024 * 1024),
       scn_ReachabilityTimeoutSeconds := limit_or (scn_ReachabilityTimeoutSeconds s) 3,
       scn_SMBOperationTimeoutSeconds := limit_or (scn_SMBOperationTimeoutSeconds s) 30,
       scn_SMBAuth := (if trim_space (scn_SMBAuth s) = [] then ''ntlm'' else scn_SMBAuth s)\<rparr>"

definition applyDefaults :: "Config \<Rightarrow> Config" where
  "applyDefaults cfg =
     (let a = cg_App cfg; o0 = cg_Output cfg; s = cg_Suppression cfg
      in cfg\<lparr>cg_App := \<lparr>ap_Name = text_or (ap_Name a) ''snablr'', ap_LogLevel = text_or (ap_LogLevel a) ''info'',
               ap_BannerPath = text_or (ap_BannerPath a) ''internal/ui/assets/snablr.txt''\<rparr>,
             cg_Scan := scan_defaults (cg_Scan cfg),
             cg_Archives := archive_defaults (cg_Archives cfg),
             cg_WIM := wim_defaults (cg_WIM cfg), cg_SQLite := sqlite_defaults (cg_SQLite cfg),
             cg_Suppression := s\<lparr>csu_SampleLimit := limit_or (csu_SampleLimit s) 10\<rparr>,
             cg_Output := o0\<lparr>cu_Format := text_or (cu_Format o0) ''console'',
               cu_JSONOut := text_or (cu_JSONOut o0) ''results.json'',
               cu_HTMLOut := text_or (cu_HTMLOut o0) ''report.html'',
               cu_ScannedTargetsOut := text_or (cu_ScannedTargetsOut o0) ''scanned_targets.txt''\<rparr>\<rparr>)"

subsection \<open>Loading\<close>

record yaml_files =
  y_read :: "string \<Rightarrow> string option"
  y_profile :: "string \<Rightarrow> string option"
  y_config :: "string \<Rightarrow> Config \<Rightarrow> Config option"
  y_suppression :: "string \<Rightarrow> SuppressionConfig option"

datatype config_error =
    ReadConfig string | ParseConfig string | UnsupportedProfile string
  | ReadSuppression string | ParseSuppression string

definition loadSuppressionOverlay :: "host_env \<Rightarrow> yaml_files \<Rightarrow> Config \<Rightarrow> config_error + Config" where
  "loadSuppressionOverlay env y cfg =
     (let s = cg_Suppression cfg; file = csu_File s in
      if trim_space file = [] then Inr cfg
      else case y_read y (resolvePath env file [cg_configDir cfg, cg_runtimeRoot cfg]) of
             None \<Rightarrow> Inl (ReadSuppression file)
           | Some data \<Rightarrow>
               (case y_suppression y data of
                  None \<Rightarrow> Inl (ParseSuppression file)
                | Some overlay \<Rightarrow>
                    Inr (cfg\<lparr>cg_Suppression :=
                      s\<lparr>csu_SampleLimit := (if csu_SampleLimit overlay > 0 then csu_SampleLimit overlay else csu_SampleLimit s),
                         csu_Rules := csu_Rules s @ csu_Rules overlay\<rparr>\<rparr>)))"

definition load_profile :: "yaml_files \<Rightarrow> string \<Rightarrow> string \<Rightarrow> Config \<Rightarrow> config_error + Config" where
  "load_profile y path data cfg =
     (case y_profile y data of
        None \<Rightarrow> Inl (ParseConfig path)
      | Some profile \<Rightarrow>
          if trim_space profile = [] then Inr cfg
          else case ApplyScanProfile cfg profile of
                 None \<Rightarrow> Inl (UnsupportedProfile profile)
               | Some cfg' \<Rightarrow> Inr cfg')"

definition Load :: "host_env \<Rightarrow> yaml_files \<Rightarrow> string \<Rightarrow> config_error + Config" where
  "Load env y path =
     (let cfg = Default env; resolved = resolveConfigPath env path in
      if trim_space resolved = [] then Inr (applyPathContext env (applyDefaults cfg) [])
      else case y_read y resolved of
             None \<Rightarrow> Inl (ReadConfig path)
           | Some data \<Rightarrow>
               (case load_profile y path data cfg of
                  Inl err \<Rightarrow> Inl err
                | Inr cfg1 \<Rightarrow>
                    (case y_config y data cfg1 of
                       None \<Rightarrow> Inl (ParseConfig path)
                     | Some cfg2 \<Rightarrow>
                         loadSuppressionOverlay env y (applyPathContext env (applyDefaults cfg2) resolved))))"

subsection \<open>Derived values\<close>

definition RulePaths :: "host_env \<Rightarrow> Config \<Rightarrow> string list" where
  "RulePaths env c =
     (if trim_space (cr_Directory (cg_Rules c)) \<noteq> []
      then [resolvePath env (cr_Directory (cg_Rules c)) [cg_configDir c, cg_runtimeRoot c]]
      else [resolvePath env (path_join [''configs'', ''rules'', ''default'']) [cg_runtimeRoot c],
            resolvePath env (path_join [''configs'', ''rules'', ''custom'']) [cg_runtimeRoot c]])"

text \<open>A \<open>time.Duration\<close> is a signed 64-bit number of nanoseconds; the product wraps.\<close>

definition seconds :: "int \<Rightarrow> 64 word" where
  "seconds n = word_of_int n * word_of_int 1000000000"

definition ReachabilityTimeout :: "ScanConfig \<Rightarrow> 64 word" where
  "ReachabilityTimeout s =
     (let timeout = scn_ReachabilityTimeoutSeconds s in seconds (if timeout \<le> 0 then 3 else timeout))"

definition SMBOperationTimeout :: "ScanConfig \<Rightarrow> 64 word" where
  "SMBOperationTimeout s =
     (let timeout = scn_SMBOperationTimeoutSeconds s in seconds (if timeout \<le> 0 then 30 else timeout))"

datatype duration_error = BadDuration string | NotPositive

text \<open>\<open>time.ParseDuration\<close>, whose fractions are floating point numbers, is an argument.\<close>

definition MaxScanDuration :: "(string \<Rightarrow> int option) \<Rightarrow> ScanConfig \<Rightarrow> duration_error + int" where
  "MaxScanDuration parse s =
     (let v = trim_space (scn_MaxScanTime s) in
      if v = [] then Inr 0
      else case parse v of
             None \<Rightarrow> Inl (BadDuration v)
           | Some duration \<Rightarrow> if duration \<le> 0 then Inl NotPositive else Inr duration)"

record OutputFormatSelection =
  of_Console :: bool
  of_JSON :: bool
  of_HTML :: bool

fun format_loop :: "OutputFormatSelection \<Rightarrow> string list \<Rightarrow> OutputFormatSelection option" where
  "format_loop sel [] = Some sel"
| "format_loop sel (part # parts) =
     (let token = to_lower (trim_space part) in
      if token = [] then format_loop sel parts
      else if token = ''all'' then format_loop \<lparr>of_Console = True, of_JSON = True, of_HTML = True\<rparr> parts
      else if token = ''console'' then format_loop (sel\<lparr>of_Console := True\<rparr>) parts
      else if token = ''json'' then format_loop (sel\<lparr>of_JSON := True\<rparr>) parts
      else if token = ''html'' then format_loop (sel\<lparr>of_HTML := True\<rparr>) parts
      else None)"

text \<open>Both errors have the same message, which quotes the input.\<close>

definition ParseOutputFormat :: "string \<Rightarrow> OutputFormatSelection option" where
  "ParseOutputFormat raw =
     (case format_loop \<lparr>of_Console = False, of_JSON = False, of_HTML = False\<rparr> (split_on CHR '','' (trim_space raw)) of
        None \<Rightarrow> None
      | Some sel \<Rightarrow> if \<not> of_Console sel \<and> \<not> of_JSON sel \<and> \<not> of_HTML sel then None else Some sel)"

subsection \<open>What loading guarantees\<close>

definition archives_ok :: "ArchiveConfig \<Rightarrow> bool" where
  "archives_ok a \<longleftrightarrow> ca_AutoZIPMaxSize a > 0 \<and> ca_MaxZIPSize a > 0 \<and> ca_AutoTARMaxSize a > 0 \<and>
     ca_MaxTARSize a > 0 \<and> ca_MaxMembers a > 0 \<and> ca_MaxMemberBytes a > 0 \<and> ca_MaxTotalUncompressed a > 0"

definition wim_ok :: "WIMConfig \<Rightarrow> bool" where
  "wim_ok w \<longleftrightarrow> cw_AutoWIMMaxSize w > 0 \<and> cw_MaxWIMSize w > 0 \<and> cw_MaxMembers w > 0 \<and>
     cw_MaxMemberBytes w > 0 \<and> cw_MaxTotalBytes w > 0"

definition sqlite_ok :: "SQLiteConfig \<Rightarrow> bool" where
  "sqlite_ok q \<longleftrightarrow> cq_AutoDBMaxSize q > 0 \<and> cq_MaxDBSize q > 0 \<and> cq_MaxTables q > 0 \<and>
     cq_MaxRowsPerTable q > 0 \<and> cq_MaxCellBytes q > 0 \<and> cq_MaxTotalBytes q > 0 \<and> cq_MaxInterestingCols q > 0"

definition scan_ok :: "ScanConfig \<Rightarrow> bool" where
  "scan_ok s \<longleftrightarrow> scn_MaxFileSize s > 0 \<and> scn_ReachabilityTimeoutSeconds s > 0 \<and>
     scn_SMBOperationTimeoutSeconds s > 0 \<and> trim_space (scn_SMBAuth s) \<noteq> []"

definition config_ok :: "Config \<Rightarrow> bool" where
  "config_ok c \<longleftrightarrow> archives_ok (cg_Archives c) \<and> wim_ok (cg_WIM c) \<and> sqlite_ok (cg_SQLite c) \<and>
     scan_ok (cg_Scan c) \<and> csu_SampleLimit (cg_Suppression c) > 0 \<and>
     ap_Name (cg_App c) \<noteq> [] \<and> ap_LogLevel (cg_App c) \<noteq> [] \<and> cu_Format (cg_Output c) \<noteq> [] \<and>
     cu_JSONOut (cg_Output c) \<noteq> [] \<and> cu_HTMLOut (cg_Output c) \<noteq> [] \<and> cu_ScannedTargetsOut (cg_Output c) \<noteq> []"

lemma limit_or_pos: "0 < d \<Longrightarrow> 0 < limit_or v d"
  by (simp add: limit_or_def)

lemma limit_or_id: "0 < v \<Longrightarrow> limit_or v d = v"
  by (simp add: limit_or_def)

lemma text_or_ok: "d \<noteq> [] \<Longrightarrow> text_or v d \<noteq> []"
  by (simp add: text_or_def)

lemma ntlm_not_blank: "trim_space ''ntlm'' \<noteq> []" by code_simp

lemmas section_ok = archives_ok_def wim_ok_def sqlite_ok_def scan_ok_def
lemmas section_defaults = archive_defaults_def wim_defaults_def sqlite_defaults_def scan_defaults_def

lemma defaults_ok:
  "archives_ok (archive_defaults a)" "wim_ok (wim_defaults w)" "sqlite_ok (sqlite_defaults q)"
  "scan_ok (scan_defaults s)"
  by (simp_all add: section_ok section_defaults Let_def limit_or_pos ntlm_not_blank)

lemma applyDefaults_ok: "config_ok (applyDefaults cfg)"
  by (simp add: config_ok_def applyDefaults_def Let_def defaults_ok limit_or_pos text_or_ok)

lemma config_ok_paths [simp]: "config_ok (applyPathContext env cfg p) = config_ok cfg"
  by (simp add: config_ok_def applyPathContext_def Let_def)

lemma overlay_ok: "loadSuppressionOverlay env y cfg = Inr cfg' \<Longrightarrow> config_ok cfg \<Longrightarrow> config_ok cfg'"
  by (auto simp: loadSuppressionOverlay_def Let_def config_ok_def split: if_splits option.splits)

lemma Load_ok: "Load env y path = Inr cfg \<Longrightarrow> config_ok cfg"
  using overlay_ok applyDefaults_ok
  by (auto simp: Load_def Let_def split: if_splits option.splits sum.splits)


text \<open>Defaulting twice changes nothing: what is well formed is a fixed point.\<close>

lemma defaults_fixed:
  "archives_ok a \<Longrightarrow> archive_defaults a = a" "wim_ok w \<Longrightarrow> wim_defaults w = w"
  "sqlite_ok q \<Longrightarrow> sqlite_defaults q = q" "scan_ok s \<Longrightarrow> scan_defaults s = s"
  by (simp_all add: section_ok section_defaults Let_def limit_or_id)

lemma default_sections_ok:
  "archives_ok default_archives" "wim_ok default_wim" "sqlite_ok default_sqlite" "scan_ok default_scan"
  "archives_ok validation_archives" "wim_ok validation_wim" "sqlite_ok validation_sqlite"
  "archives_ok aggressive_archives" "wim_ok aggressive_wim" "sqlite_ok aggressive_sqlite"
  by (simp_all add: section_ok default_archives_def default_wim_def default_sqlite_def default_scan_def
      validation_archives_def validation_wim_def validation_sqlite_def
      aggressive_archives_def aggressive_wim_def aggressive_sqlite_def ntlm_not_blank)

text \<open>
  The three ways to the defaults agree: the built-in configuration is what the profile named
  default sets, filling in the missing values leaves it alone, and loading without a file gives it.
  Among profiles the last one applied decides every limit: what an earlier one set is gone.
\<close>

theorem profiles_and_defaults_agree:
  assumes "ApplyScanProfile cfg p = Some cfg1"
  shows "ApplyScanProfile cfg1 q = ApplyScanProfile cfg q \<and>
    ApplyScanProfile (Default env) ''default'' = Some (Default env) \<and>
    applyDefaults (Default env) = Default env \<and>
    Load env y [] = Inr (Default env)"
proof -
  have n: "normalizeProfile ''default'' = ''default''" "trim_space [] = []" by code_simp+
  have "ApplyScanProfile cfg1 q = ApplyScanProfile cfg q"
    using assms by (auto simp: ApplyScanProfile_def set_profile_def Let_def split: if_splits)
  moreover have "ApplyScanProfile (Default env) ''default'' = Some (Default env)"
    by (simp add: ApplyScanProfile_def n set_profile_def Default_def applyPathContext_def default_scan_def Let_def)
  moreover have d: "applyDefaults (Default env) = Default env"
    by (simp add: applyDefaults_def Default_def applyPathContext_def Let_def default_sections_ok defaults_fixed
        text_or_def limit_or_def default_output_def)
  moreover have "Load env y [] = Inr (Default env)"
    by (simp add: Load_def resolveConfigPath_def d) (simp add: Default_def applyPathContext_def n)
  ultimately show ?thesis by blast
qed

definition demo_yaml :: yaml_files where
  "demo_yaml = \<lparr>y_read = (\<lambda>p. if p = ''/etc/snablr.yaml'' then Some ''doc'' else None),
     y_profile = (\<lambda>d. Some '' Aggressive''),
     y_config = (\<lambda>d c. Some (c\<lparr>cg_Archives := (cg_Archives c)\<lparr>ca_MaxMembers := 0, ca_MaxZIPSize := -1\<rparr>\<rparr>)),
     y_suppression = (\<lambda>d. None)\<rparr>"

lemma demo_loads: "Load demo_env demo_yaml ''/etc/snablr.yaml'' =
    Inr (applyPathContext demo_env (applyDefaults ((set_profile ''aggressive'' True aggressive_archives aggressive_wim
      aggressive_sqlite (Default demo_env))\<lparr>cg_Archives := aggressive_archives\<lparr>ca_MaxMembers := 0, ca_MaxZIPSize := -1\<rparr>\<rparr>))
      ''/etc/snablr.yaml'')"
proof -
  have r: "resolveConfigPath demo_env ''/etc/snablr.yaml'' = ''/etc/snablr.yaml''"
    "trim_space ''/etc/snablr.yaml'' \<noteq> []" "trim_space '' Aggressive'' \<noteq> []"
    "normalizeProfile '' Aggressive'' = ''aggressive''" by code_simp+
  let ?c = "applyPathContext demo_env (applyDefaults ((set_profile ''aggressive'' True aggressive_archives aggressive_wim
      aggressive_sqlite (Default demo_env))\<lparr>cg_Archives := aggressive_archives\<lparr>ca_MaxMembers := 0, ca_MaxZIPSize := -1\<rparr>\<rparr>))
      ''/etc/snablr.yaml''"
  have "csu_File (cg_Suppression ?c) = []"
    by (simp add: applyPathContext_def Let_def applyDefaults_def set_profile_def Default_def)
  then have "loadSuppressionOverlay demo_env demo_yaml ?c = Inr ?c"
    by (simp add: loadSuppressionOverlay_def Let_def)
  moreover have "load_profile demo_yaml ''/etc/snablr.yaml'' ''doc'' (Default demo_env) =
      Inr (set_profile ''aggressive'' True aggressive_archives aggressive_wim aggressive_sqlite (Default demo_env))"
    by (simp add: load_profile_def demo_yaml_def r ApplyScanProfile_def)
  moreover have "y_read demo_yaml ''/etc/snablr.yaml'' = Some ''doc''" by (simp add: demo_yaml_def)
  ultimately show ?thesis
    by (simp add: Load_def r) (simp add: demo_yaml_def set_profile_def)
qed


theorem profiles_and_defaults_agree_witness:
  "ApplyScanProfile (set_profile ''aggressive'' True aggressive_archives aggressive_wim aggressive_sqlite
      (Default demo_env)) ''validation'' = ApplyScanProfile (Default demo_env) ''validation''"
proof -
  have "normalizeProfile ''Aggressive '' = ''aggressive''" by code_simp
  then have "ApplyScanProfile (Default demo_env) ''Aggressive '' =
    Some (set_profile ''aggressive'' True aggressive_archives aggressive_wim aggressive_sqlite (Default demo_env))"
    by (simp add: ApplyScanProfile_def)
  then show ?thesis using profiles_and_defaults_agree by blast
qed

text \<open>The formats: the union of what the tokens name, and an error for an unknown token or none.\<close>

definition format_tokens :: "string \<Rightarrow> string list" where
  "format_tokens raw = filter (\<lambda>t. t \<noteq> []) (map (\<lambda>p. to_lower (trim_space p)) (split_on CHR '','' (trim_space raw)))"

lemma format_loop_union:
  "format_loop sel parts =
     (let ts = set (filter (\<lambda>t. t \<noteq> []) (map (\<lambda>p. to_lower (trim_space p)) parts)) in
      if ts \<subseteq> {''all'', ''console'', ''json'', ''html''} then
        Some \<lparr>of_Console = of_Console sel \<or> ''all'' \<in> ts \<or> ''console'' \<in> ts,
              of_JSON = of_JSON sel \<or> ''all'' \<in> ts \<or> ''json'' \<in> ts,
              of_HTML = of_HTML sel \<or> ''all'' \<in> ts \<or> ''html'' \<in> ts\<rparr>
      else None)"
proof (induction parts arbitrary: sel)
  case (Cons p ps)
  show ?case
    by (cases "to_lower (trim_space p) \<in> {[], ''all'', ''console'', ''json'', ''html''}")
      (auto simp: Let_def Cons.IH)
qed (simp add: Let_def)

lemma ParseOutputFormat_tokens:
  "ParseOutputFormat raw =
     (let ts = set (format_tokens raw) in
      if ts = {} \<or> \<not> ts \<subseteq> {''all'', ''console'', ''json'', ''html''} then None
      else Some \<lparr>of_Console = (''all'' \<in> ts \<or> ''console'' \<in> ts), of_JSON = (''all'' \<in> ts \<or> ''json'' \<in> ts),
                 of_HTML = (''all'' \<in> ts \<or> ''html'' \<in> ts)\<rparr>)"
proof -
  have sub: "ts \<noteq> {} \<Longrightarrow> ts \<subseteq> {''all'', ''console'', ''json'', ''html''} \<Longrightarrow>
      ''all'' \<in> ts \<or> ''console'' \<in> ts \<or> ''json'' \<in> ts \<or> ''html'' \<in> ts" for ts :: "string set" by blast
  show ?thesis
    unfolding ParseOutputFormat_def format_loop_union format_tokens_def [symmetric] Let_def
    using sub [of "set (format_tokens raw)"] by (cases "format_tokens raw = []") auto
qed

lemma seconds_value:
  assumes "0 \<le> n" "n \<le> 9223372036" shows "sint (seconds n) = n * 1000000000"
proof -
  have k: "sint (word_of_int k :: 64 word) = k" if "- (2 ^ 63) \<le> k" "k < 2 ^ 63" for k
    using that by (simp add: signed_of_int signed_take_bit_int_eq_self)
  have b: "- (2 ^ 63) \<le> n * 1000000000" "n * 1000000000 < 2 ^ 63" using assms by simp_all
  have "seconds n = word_of_int (n * 1000000000)" by (simp add: seconds_def)
  then show ?thesis by (simp only: k [OF b])
qed

lemma timeouts_positive:
  assumes "scn_ReachabilityTimeoutSeconds s \<le> 9223372036" and "scn_SMBOperationTimeoutSeconds s \<le> 9223372036"
  shows "0 <s ReachabilityTimeout s \<and> 0 <s SMBOperationTimeout s"
  using assms by (auto simp: ReachabilityTimeout_def SMBOperationTimeout_def Let_def word_sless_alt seconds_value)

text \<open>One second more than the bound gives a negative timeout.\<close>

lemma timeout_wraps:
  "SMBOperationTimeout (default_scan\<lparr>scn_SMBOperationTimeoutSeconds := 9223372037\<rparr>) <s 0"
  by (simp add: SMBOperationTimeout_def seconds_def word_sless_alt default_scan_def)

end
