(* ===== verification/Discovery.thy ===== *)
theory Discovery
  imports Smb Config
begin

text \<open>
  The discovery of hosts (\<open>internal/discovery\<close>): the targets named on the command line, in a file, by LDAP
  and by DFS (\<open>targets.go\<close>, \<open>dfs.go\<close>, \<open>computers.go\<close>), their deduplication, and the test which of them can be
  reached (\<open>reachability.go\<close>). What comes from the network is an argument: the addresses a name resolves to,
  whether a connection to port 445 succeeds, the order in which the workers answer, the attributes of the
  LDAP entries. Parsing an IP address gives its canonical text.
\<close>

record Target =
  tg_Input :: string
  tg_Hostname :: string
  tg_IP :: string
  tg_Reachable445 :: bool
  tg_Source :: string

record DiscoveredHost =
  dh_Hostname :: string
  dh_DNSHostname :: string
  dh_IP :: string
  dh_OperatingSystem :: string
  dh_DistinguishedName :: string
  dh_Source :: string

record DFSTarget =
  df_NamespacePath :: string
  df_TargetServer :: string
  df_TargetShare :: string
  df_LinkPath :: string
  df_Source :: string

record TargetStats =
  ts_Loaded :: int
  ts_Unique :: int
  ts_Reachable :: int
  ts_Skipped :: int
  ts_Unreachable :: int

record PipelineResult =
  pr_AllTargets :: "Target list"
  pr_ReachableTargets :: "Target list"
  pr_DiscoveredHosts :: "DiscoveredHost list"
  pr_DFSTargets :: "DFSTarget list"
  pr_Stats :: TargetStats

subsection \<open>Keeping the first of each key\<close>

text \<open>
  The loop behind every deduplication of the package: the first element of each key, elements without
  a key left out.
\<close>

fun first_loop :: "('a \<Rightarrow> string) \<Rightarrow> string list \<Rightarrow> 'a list \<Rightarrow> 'a list" where
  "first_loop key seen [] = []"
| "first_loop key seen (x # xs) =
     (if key x = [] \<or> key x \<in> set seen then first_loop key seen xs
      else x # first_loop key (key x # seen) xs)"

lemma first_kept: "x \<in> set (first_loop key seen xs) \<Longrightarrow> x \<in> set xs \<and> key x \<noteq> [] \<and> key x \<notin> set seen"
proof (induction xs arbitrary: seen)
  case (Cons a xs)
  then show ?case using Cons.IH [of seen] Cons.IH [of "key a # seen"] by (auto split: if_splits)
qed simp

lemma first_covers: "x \<in> set xs \<Longrightarrow> key x \<noteq> [] \<Longrightarrow> key x \<in> set seen \<union> key ` set (first_loop key seen xs)"
proof (induction xs arbitrary: seen)
  case (Cons a xs)
  then show ?case using Cons.IH [of seen] Cons.IH [of "key a # seen"] by auto
qed simp

lemma first_keys_distinct: "distinct (map key (first_loop key seen xs))"
  by (induction xs arbitrary: seen) (auto dest: first_kept)

lemma first_keys_exact: "key ` set (first_loop key [] xs) = key ` set xs - {[]}"
  using first_covers [of _ xs key "[]"] first_kept [of _ key "[]" xs] by force

lemma first_fixed:
  "distinct (map key xs) \<Longrightarrow> [] \<notin> key ` set xs \<Longrightarrow> set seen \<inter> key ` set xs = {} \<Longrightarrow> first_loop key seen xs = xs"
  by (induction xs arbitrary: seen) auto

lemma first_idem: "first_loop key [] (first_loop key [] xs) = first_loop key [] xs"
  by (rule first_fixed) (auto simp: first_keys_distinct dest: first_kept)

lemma first_not_longer: "length (first_loop key seen xs) \<le> length xs"
proof (induction xs arbitrary: seen)
  case (Cons a xs)
  then show ?case using Cons.IH [of seen] Cons.IH [of "key a # seen"] by (auto intro: le_SucI)
qed simp

subsection \<open>Targets\<close>

definition normalizeEndpoint :: "string \<Rightarrow> string" where
  "normalizeEndpoint value0 =
     (let v = trim_space value0 in case SplitHostPort v of Some (host, _) \<Rightarrow> host | None \<Rightarrow> v)"

definition no_target :: Target where
  "no_target = \<lparr>tg_Input = [], tg_Hostname = [], tg_IP = [], tg_Reachable445 = False, tg_Source = []\<rparr>"

definition newTarget :: "(string \<Rightarrow> string option) \<Rightarrow> string \<Rightarrow> string \<Rightarrow> Target" where
  "newTarget parse_ip value0 source =
     (let v = trim_space value0 in
      if v = [] then no_target
      else
        let host = normalizeEndpoint v; target = no_target\<lparr>tg_Input := v, tg_Source := source\<rparr>
        in case parse_ip host of
             Some ip \<Rightarrow> target\<lparr>tg_IP := ip, tg_Hostname := ip\<rparr>
           | None \<Rightarrow> target\<lparr>tg_Hostname := host\<rparr>)"

definition newLDAPTarget :: "(string \<Rightarrow> string option) \<Rightarrow> DiscoveredHost \<Rightarrow> Target" where
  "newLDAPTarget parse_ip host =
     (let input = (if trim_space (dh_DNSHostname host) = [] then trim_space (dh_Hostname host)
                   else trim_space (dh_DNSHostname host));
          t0 = newTarget parse_ip input (dh_Source host);
          t1 = (if dh_IP host \<noteq> [] then t0\<lparr>tg_IP := dh_IP host\<rparr> else t0)
      in if tg_Hostname t1 = [] then t1\<lparr>tg_Hostname := trim_space (dh_Hostname host)\<rparr> else t1)"

definition targetKey :: "Target \<Rightarrow> string" where
  "targetKey t =
     (if tg_IP t \<noteq> [] then ''ip:'' @ to_lower (tg_IP t)
      else if tg_Hostname t \<noteq> [] then ''host:'' @ to_lower (tg_Hostname t)
      else if tg_Input t \<noteq> [] then ''input:'' @ to_lower (tg_Input t)
      else [])"

definition deduplicateTargets :: "Target list \<Rightarrow> Target list" where
  "deduplicateTargets targets = first_loop targetKey [] targets"

text \<open>
  The lines of a file as \<open>bufio.Scanner\<close> gives them, which fails on a line of more than 64 KB; the carriage
  return it drops would be trimmed anyway.
\<close>

definition scanner_lines :: "string \<Rightarrow> string list" where
  "scanner_lines text0 =
     (let ls = split_on (CHR 0x0A) text0 in if last ls = [] then butlast ls else ls)"

datatype collect_error = OpenHosts string | ReadHosts string | LDAPFailed string

definition file_targets :: "(string \<Rightarrow> string option) \<Rightarrow> (string \<Rightarrow> string option) \<Rightarrow> string \<Rightarrow> collect_error + Target list" where
  "file_targets parse_ip read path =
     (case read path of
        None \<Rightarrow> Inl (OpenHosts path)
      | Some text0 \<Rightarrow>
          if list_ex (\<lambda>l. length l \<ge> 65536) (scanner_lines text0) then Inl (ReadHosts path)
          else Inr (filter (\<lambda>t. tg_Input t \<noteq> [])
                     (map (\<lambda>l. newTarget parse_ip l ''file'')
                       (filter (\<lambda>l. \<not> (l = [] \<or> has_prefix l ''#'')) (map trim_space (scanner_lines text0))))))"

record collectedTargets =
  cl_targets :: "Target list"
  cl_discoveredHosts :: "DiscoveredHost list"
  cl_dfsTargets :: "DFSTarget list"

text \<open>\<open>ldap\<close> and \<open>dfs\<close>: what LDAP and DFS discovery answer for this configuration.\<close>

record network =
  nw_parse_ip :: "string \<Rightarrow> string option"
  nw_read :: "string \<Rightarrow> string option"
  nw_ldap :: "string + DiscoveredHost list"
  nw_dfs :: "string + DFSTarget list"
  nw_lookup :: "string \<Rightarrow> string list option"
  nw_dial445 :: "string \<Rightarrow> bool"

definition collectTargets :: "network \<Rightarrow> ScanConfig \<Rightarrow> collect_error + collectedTargets" where
  "collectTargets nw cfg =
     (let cli = filter (\<lambda>t. tg_Input t \<noteq> []) (map (\<lambda>h. newTarget (nw_parse_ip nw) h ''cli'') (scn_Targets cfg));
          file_ts = (if trim_space (scn_TargetsFile cfg) \<noteq> []
             then file_targets (nw_parse_ip nw) (nw_read nw) (scn_TargetsFile cfg) else Inr [])
      in case file_ts of
           Inl err \<Rightarrow> Inl err
         | Inr from_file \<Rightarrow>
             let explicit = cli @ from_file;
                 ldap = (if explicit = [] \<and> \<not> scn_NoLDAP cfg then nw_ldap nw else Inr [])
             in case ldap of
                  Inl msg \<Rightarrow> Inl (LDAPFailed msg)
                | Inr hosts \<Rightarrow>
                    let from_ldap = filter (\<lambda>t. tg_Input t \<noteq> []) (map (newLDAPTarget (nw_parse_ip nw)) hosts);
                        dfs = (if scn_DiscoverDFS cfg then (case nw_dfs nw of Inl _ \<Rightarrow> [] | Inr ts \<Rightarrow> ts) else []);
                        from_dfs = filter (\<lambda>t. tg_Input t \<noteq> [])
                          (map (\<lambda>d. newTarget (nw_parse_ip nw) (df_TargetServer d) ''dfs'') dfs)
                    in Inr \<lparr>cl_targets = explicit @ from_ldap @ from_dfs, cl_discoveredHosts = hosts, cl_dfsTargets = dfs\<rparr>)"

subsection \<open>Reachability\<close>

definition enrichTarget :: "network \<Rightarrow> Target \<Rightarrow> Target" where
  "enrichTarget nw target =
     (if tg_IP target \<noteq> [] then target
      else
        let host0 = trim_space (tg_Hostname target);
            host = (if host0 = [] then normalizeEndpoint (tg_Input target) else host0);
            t = (if host0 = [] then target\<lparr>tg_Hostname := host\<rparr> else target)
        in if host = [] then t
           else case nw_lookup nw host of
                  None \<Rightarrow> t
                | Some addresses \<Rightarrow>
                    (case find (\<lambda>a. nw_parse_ip nw a \<noteq> None) addresses of
                       Some a \<Rightarrow> t\<lparr>tg_IP := a\<rparr> | None \<Rightarrow> t))"

definition targetAddress :: "Target \<Rightarrow> string" where
  "targetAddress t =
     (if tg_IP t \<noteq> [] then tg_IP t else if tg_Hostname t \<noteq> [] then tg_Hostname t else normalizeEndpoint (tg_Input t))"

definition testTCP445 :: "network \<Rightarrow> Target \<Rightarrow> bool" where
  "testTCP445 nw t =
     (let address = targetAddress t in if address = [] then False else nw_dial445 nw (JoinHostPort address ''445''))"

definition check_target :: "network \<Rightarrow> Target \<Rightarrow> Target" where
  "check_target nw t0 = (let t = enrichTarget nw t0 in t\<lparr>tg_Reachable445 := testTCP445 nw t\<rparr>)"

text \<open>
  The targets with their answers, and the reachable ones, while the context is not done. \<open>arrival\<close> is the
  order in which the workers' answers arrive.
\<close>

definition FilterReachable ::
  "network \<Rightarrow> (Target list \<Rightarrow> Target list) \<Rightarrow> bool \<Rightarrow> Target list \<Rightarrow> Target list \<times> Target list" where
  "FilterReachable nw arrival skipCheck targets =
     (if skipCheck then
        (let out = map (\<lambda>t. t\<lparr>tg_Reachable445 := True\<rparr>) (filter (\<lambda>t. tg_Input t \<noteq> []) (map (enrichTarget nw) targets))
         in (out, out))
      else
        let all = arrival (map (check_target nw) targets) in (all, filter tg_Reachable445 all))"

definition Resolve ::
  "network \<Rightarrow> (Target list \<Rightarrow> Target list) \<Rightarrow> ScanConfig \<Rightarrow> collect_error + PipelineResult" where
  "Resolve nw arrival cfg =
     (case collectTargets nw cfg of
        Inl err \<Rightarrow> Inl err
      | Inr collected \<Rightarrow>
          let unique = deduplicateTargets (cl_targets collected);
              (checked, reachable) = FilterReachable nw arrival (scn_SkipReachabilityCheck cfg) unique;
              loaded = int (length (cl_targets collected)); up = int (length reachable)
          in Inr \<lparr>pr_AllTargets = checked, pr_ReachableTargets = reachable,
               pr_DiscoveredHosts = cl_discoveredHosts collected, pr_DFSTargets = cl_dfsTargets collected,
               pr_Stats = \<lparr>ts_Loaded = loaded, ts_Unique = int (length unique), ts_Reachable = up,
                 ts_Skipped = loaded - up, ts_Unreachable = int (length unique) - up\<rparr>\<rparr>)"

subsection \<open>DFS\<close>

text \<open>
  The attributes of an entry of the directory. The pattern for UNC paths is matched by hand: two
  backslashes, a name, a backslash, a name, and possibly a backslash with the rest up to a character no
  path has. The classes of the pattern exclude the separators, so the greedy match is the only one.
\<close>

record ldap_entry =
  le_remoteServerName :: "string list"
  le_linkPath :: "string list"
  le_targetList :: "string list"
  le_name :: string
  le_cn :: string

definition backslash :: char where "backslash = CHR 0x5C"

definition name_char :: "char \<Rightarrow> bool" where
  "name_char c \<longleftrightarrow> c \<noteq> CHR 0x5C \<and> c \<noteq> CHR ''/'' \<and> c \<noteq> CHR 0x09 \<and> c \<noteq> CHR 0x0A \<and> c \<noteq> CHR 0x0C \<and>
     c \<noteq> CHR 0x0D \<and> c \<noteq> CHR '' ''"

definition tail_char :: "char \<Rightarrow> bool" where
  "tail_char c \<longleftrightarrow> c \<noteq> CHR 0x22 \<and> c \<noteq> CHR 0x00 \<and> c \<noteq> CHR 0x0D \<and> c \<noteq> CHR 0x0A \<and> c \<noteq> CHR ''<'' \<and>
     c \<noteq> CHR ''>'' \<and> c \<noteq> CHR ''|'' \<and> c \<noteq> CHR ''?'' \<and> c \<noteq> CHR ''*''"

definition unc_at :: "string \<Rightarrow> (string \<times> string) option" where
  "unc_at s =
     (if \<not> has_prefix s [backslash, backslash] then None
      else
        let server = takeWhile name_char (drop 2 s); s1 = drop (2 + length server) s
        in if server = [] \<or> \<not> has_prefix s1 [backslash] then None
           else
             let share = takeWhile name_char (drop 1 s1); s2 = drop (1 + length share) s1
             in if share = [] then None
                else
                  let tail = (if has_prefix s2 [backslash] then backslash # takeWhile tail_char (drop 1 s2) else [])
                  in Some ([backslash, backslash] @ server @ [backslash] @ share @ tail, drop (length tail) s2))"

lemma unc_at_shorter: "unc_at s = Some (m, rest) \<Longrightarrow> length rest < length s"
  by (cases s) (auto simp: unc_at_def Let_def split: if_splits)

function find_uncs :: "string \<Rightarrow> string list" where
  "find_uncs s =
     (case s of [] \<Rightarrow> []
      | c # cs \<Rightarrow> (case unc_at s of None \<Rightarrow> find_uncs cs | Some (m, rest) \<Rightarrow> m # find_uncs rest))"
  by pat_completeness auto
termination
  by (relation "measure length") (auto dest!: unc_at_shorter)

declare find_uncs.simps [simp del]

lemma find_uncs_code [code]:
  "find_uncs [] = []"
  "find_uncs (c # cs) = (case unc_at (c # cs) of None \<Rightarrow> find_uncs cs | Some (m, rest) \<Rightarrow> m # find_uncs rest)"
  by (simp_all add: find_uncs.simps)

definition normalizeDFSPath :: "string \<Rightarrow> string" where
  "normalizeDFSPath value0 =
     trim_prefix (trim_prefix (slashes (trim_set (trim_space value0) [CHR 0x22])) ''./'') ''/''"

definition parseUNC :: "string \<Rightarrow> string \<times> string \<times> string" where
  "parseUNC value0 =
     (let v = trim_set (trim_space value0) [CHR 0x22] in
      if \<not> has_prefix v [backslash, backslash] then ([], [], [])
      else
        let parts = split_on backslash (drop 2 v)
        in if length parts < 2 then ([], [], [])
           else (trim_space (parts ! 0), trim_space (parts ! 1),
                 normalizeDFSPath (if length parts > 2 then join ''/'' (drop 2 parts) else [])))"

definition unc_prefix :: "string \<Rightarrow> string \<Rightarrow> string" where
  "unc_prefix server share = [backslash, backslash] @ server @ [backslash] @ share"

definition dfs_unc_key :: "string \<Rightarrow> string" where
  "dfs_unc_key m = (case parseUNC m of (server, share, path) \<Rightarrow>
     if server = [] \<or> share = [] then [] else to_lower (server @ [backslash] @ share @ [backslash] @ path))"

definition collectDFSUNCs :: "ldap_entry \<Rightarrow> string list" where
  "collectDFSUNCs entry =
     map (\<lambda>m. case parseUNC m of (server, share, path) \<Rightarrow> unc_prefix server share @ normalizeDFSPath path)
       (first_loop dfs_unc_key []
         (concat (map find_uncs (le_remoteServerName entry @ filter (\<lambda>raw. raw \<noteq> []) (le_targetList entry)))))"

definition bestLinkPath :: "ldap_entry \<Rightarrow> string" where
  "bestLinkPath entry =
     (case find (\<lambda>v. v \<noteq> []) (map normalizeDFSPath (le_linkPath entry)) of
        Some v \<Rightarrow> v
      | None \<Rightarrow> normalizeDFSPath (if trim_space (le_name entry) = [] then trim_space (le_cn entry) else trim_space (le_name entry)))"

definition bestNamespacePath :: "ldap_entry \<Rightarrow> string" where
  "bestNamespacePath entry =
     (let uncs = concat (map find_uncs (le_remoteServerName entry @ le_linkPath entry));
          good = filter (\<lambda>(server, share, _). server \<noteq> [] \<and> share \<noteq> []) (map parseUNC uncs)
      in case good of
           (server, share, _) # _ \<Rightarrow> unc_prefix server share
         | [] \<Rightarrow> let linkPath = bestLinkPath entry
                 in normalizeDFSPath (if linkPath = [] then trim_space (le_name entry) else linkPath))"

definition dfsTargetsFromEntry :: "ldap_entry \<Rightarrow> DFSTarget list" where
  "dfsTargetsFromEntry entry =
     (let namespacePath = bestNamespacePath entry; linkPath = bestLinkPath entry
      in concat (map (\<lambda>raw. case parseUNC raw of (server, share, path) \<Rightarrow>
             if server = [] \<or> share = [] then []
             else [\<lparr>df_NamespacePath = namespacePath, df_TargetServer = server, df_TargetShare = share,
                    df_LinkPath = normalizeDFSPath (if linkPath = [] then path else linkPath), df_Source = ''dfs''\<rparr>])
           (collectDFSUNCs entry)))"

definition dfs_key :: "DFSTarget \<Rightarrow> string" where
  "dfs_key t = to_lower (join ''::'' [df_NamespacePath t, df_TargetServer t, df_TargetShare t, df_LinkPath t])"

definition deduplicateDFSTargets :: "DFSTarget list \<Rightarrow> DFSTarget list" where
  "deduplicateDFSTargets targets = first_loop dfs_key [] targets"

definition dfs_less :: "DFSTarget \<Rightarrow> DFSTarget \<Rightarrow> bool" where
  "dfs_less a b =
     (if df_TargetServer a = df_TargetServer b then
        (if df_TargetShare a = df_TargetShare b then df_NamespacePath a < df_NamespacePath b
         else df_TargetShare a < df_TargetShare b)
      else df_TargetServer a < df_TargetServer b)"

definition queryDFSTargets :: "ldap_entry list \<Rightarrow> DFSTarget list" where
  "queryDFSTargets entries = slice_sort dfs_less (deduplicateDFSTargets (concat (map dfsTargetsFromEntry entries)))"

interpretation dfs_sorted: key_order dfs_less "\<lambda>t. (df_TargetServer t, df_TargetShare t, df_NamespacePath t)"
  by unfold_locales (auto simp: dfs_less_def)

subsection \<open>Computers\<close>

definition discoveryKey :: "DiscoveredHost \<Rightarrow> string" where
  "discoveryKey h =
     (if dh_DNSHostname h \<noteq> [] then to_lower (trim_space (dh_DNSHostname h))
      else if dh_Hostname h \<noteq> [] then to_lower (trim_space (dh_Hostname h))
      else if dh_IP h \<noteq> [] then to_lower (trim_space (dh_IP h))
      else [])"

definition deduplicateHosts :: "DiscoveredHost list \<Rightarrow> DiscoveredHost list" where
  "deduplicateHosts hosts = first_loop discoveryKey [] hosts"

definition preferredName :: "DiscoveredHost \<Rightarrow> string" where
  "preferredName h = (if dh_DNSHostname h \<noteq> [] then to_lower (dh_DNSHostname h) else to_lower (dh_Hostname h))"

definition host_name_less :: "DiscoveredHost \<Rightarrow> DiscoveredHost \<Rightarrow> bool" where
  "host_name_less a b \<longleftrightarrow> preferredName a < preferredName b"

interpretation hosts_sorted: key_order host_name_less preferredName
  by unfold_locales (simp add: host_name_less_def)

record computer_entry =
  ce_dNSHostName :: string
  ce_name :: string
  ce_operatingSystem :: string
  ce_distinguishedName :: string

definition lookupIP :: "network \<Rightarrow> string list \<Rightarrow> string" where
  "lookupIP nw candidates =
     (case find (\<lambda>c. c \<noteq> [] \<and> (case nw_lookup nw c of None \<Rightarrow> False | Some as \<Rightarrow> as \<noteq> [])) (map trim_space candidates) of
        None \<Rightarrow> [] | Some c \<Rightarrow> (case nw_lookup nw c of Some (a # _) \<Rightarrow> a | _ \<Rightarrow> []))"

definition discoveredHostFromEntry :: "network \<Rightarrow> computer_entry \<Rightarrow> DiscoveredHost" where
  "discoveredHostFromEntry nw entry =
     (let dnsHost = trim_space (ce_dNSHostName entry); name = trim_space (ce_name entry)
      in \<lparr>dh_Hostname = name, dh_DNSHostname = dnsHost, dh_IP = lookupIP nw [dnsHost, name],
          dh_OperatingSystem = trim_space (ce_operatingSystem entry),
          dh_DistinguishedName = trim_space (ce_distinguishedName entry), dh_Source = ''ldap''\<rparr>)"

definition queryComputerObjects :: "network \<Rightarrow> computer_entry list \<Rightarrow> DiscoveredHost list" where
  "queryComputerObjects nw entries =
     slice_sort host_name_less
       (deduplicateHosts (filter (\<lambda>h. \<not> (dh_Hostname h = [] \<and> dh_DNSHostname h = [])) (map (discoveredHostFromEntry nw) entries)))"

subsection \<open>Properties\<close>

lemma trim_space_ends:
  assumes "s \<noteq> []" "\<not> is_space (hd s)" "\<not> is_space (last s)" shows "trim_space s = s"
  using assms by (simp add: trim_space_def trim_by_id)

lemma trim_space_last: "trim_space s = s \<Longrightarrow> s \<noteq> [] \<Longrightarrow> \<not> is_space (last s)"
  by (metis trim_by_last trim_space_def)

text \<open>
  A UNC path collected from a DFS entry is written as the server, the share and the rest of the path,
  but without a separator before the rest, and is then parsed again. Without a rest the server and the
  share come back; with a rest the share that comes back is the share name with the rest glued to it, and
  the path is lost.
\<close>

theorem dfs_unc_reparsed:
  assumes "server \<noteq> []" "share \<noteq> []" "\<forall>c \<in> set (server @ share @ path). c \<noteq> backslash \<and> c \<noteq> CHR 0x22"
    and "trim_space server = server" "trim_space (share @ path) = share @ path"
  shows "parseUNC (unc_prefix server share @ path) = (server, share @ path, [])"
proof -
  let ?u = "[backslash, backslash] @ server @ backslash # (share @ path)"
  have b: "\<not> is_space backslash" "backslash \<noteq> CHR 0x22" by (simp_all add: backslash_def is_space_code)
  have l: "last ?u = last (share @ path)" using assms(2) by simp
  have "\<not> is_space (last ?u)" unfolding l using trim_space_last [OF assms(5)] assms(2) by simp
  then have t: "trim_space ?u = ?u" using b by (intro trim_space_ends) auto
  have "last (share @ path) \<in> set (share @ path)" using assms(2) by (intro last_in_set) simp
  then have "last ?u \<noteq> CHR 0x22" unfolding l using assms(3) by (metis Un_iff set_append)
  then have q: "trim_set ?u [CHR 0x22] = ?u" using b unfolding trim_set_def by (intro trim_by_id) auto
  have nb: "backslash \<notin> set server" "backslash \<notin> set (share @ path)" using assms(3) by auto
  have sp: "split_on backslash (server @ backslash # (share @ path)) = [server, share @ path]"
    by (simp only: split_on_append [OF nb(1)] split_on_no_char [OF nb(2)])
  have "normalizeDFSPath [] = []" by code_simp
  then show ?thesis
    using t q sp assms(4,5) by (simp add: parseUNC_def unc_prefix_def Let_def)
qed

theorem dfs_unc_reparsed_witness:
  "parseUNC (unc_prefix ''fs01'' ''data'' @ ''hr/it'') = (''fs01'', ''datahr/it'', [])"
proof -
  have c: "list_all (\<lambda>c. c \<noteq> backslash \<and> c \<noteq> CHR 0x22) (''fs01'' @ ''data'' @ ''hr/it'')"
    "trim_space ''fs01'' = ''fs01''" "trim_space (''data'' @ ''hr/it'') = ''data'' @ ''hr/it''" by code_simp+
  show ?thesis
    using dfs_unc_reparsed [of "''fs01''" "''data''" "''hr/it''"] c by (simp add: list_all_iff)
qed

definition dfs_entry :: ldap_entry where
  "dfs_entry = \<lparr>le_remoteServerName = [[backslash, backslash] @ ''fs01'' @ [backslash] @ ''data'' @ [backslash] @ ''hr''],
     le_linkPath = [''/corp/hr''], le_targetList = [], le_name = ''hr'', le_cn = ''hr''\<rparr>"

lemma dfs_entry_target:
  "map (\<lambda>t. (df_TargetServer t, df_TargetShare t)) (dfsTargetsFromEntry dfs_entry) = [(''fs01'', ''datahr'')]"
  by code_simp

text \<open>The sources of the candidates: LDAP only when nothing was named.\<close>

lemma file_targets_inputs: "file_targets parse_ip read path = Inr ts \<Longrightarrow> t \<in> set ts \<Longrightarrow> tg_Input t \<noteq> []"
  by (auto simp: file_targets_def split: option.splits if_splits)

lemma collect_inputs:
  assumes "collectTargets nw cfg = Inr c" and "t \<in> set (cl_targets c)"
  shows "tg_Input t \<noteq> []"
proof -
  let ?ok = "\<lambda>ts. \<forall>t \<in> set ts. tg_Input t \<noteq> []"
  define src where "src = (if trim_space (scn_TargetsFile cfg) \<noteq> []
      then file_targets (nw_parse_ip nw) (nw_read nw) (scn_TargetsFile cfg) else Inr [])"
  have c: "collectTargets nw cfg = Inr c" by (rule assms(1))
  obtain from_file where ff: "src = Inr from_file"
  proof (cases src)
    case (Inl err)
    have "collectTargets nw cfg = Inl err"
      unfolding collectTargets_def Let_def src_def [symmetric] Inl sum.case by (rule refl)
    then show ?thesis using c by simp
  qed
  then have "?ok from_file" unfolding src_def using file_targets_inputs by (auto split: if_splits)
  moreover
  let ?cli = "filter (\<lambda>t. tg_Input t \<noteq> []) (map (\<lambda>h. newTarget (nw_parse_ip nw) h ''cli'') (scn_Targets cfg))"
  define ld where "ld = (if ?cli @ from_file = [] \<and> \<not> scn_NoLDAP cfg then nw_ldap nw else Inr [])"
  define dfs where "dfs = (if scn_DiscoverDFS cfg then (case nw_dfs nw of Inl _ \<Rightarrow> [] | Inr ts \<Rightarrow> ts) else [])"
  obtain hosts where "c = \<lparr>cl_targets = (?cli @ from_file) @
      filter (\<lambda>t. tg_Input t \<noteq> []) (map (newLDAPTarget (nw_parse_ip nw)) hosts) @
      filter (\<lambda>t. tg_Input t \<noteq> []) (map (\<lambda>d. newTarget (nw_parse_ip nw) (df_TargetServer d) ''dfs'') dfs),
      cl_discoveredHosts = hosts, cl_dfsTargets = dfs\<rparr>"
  proof (cases ld)
    case (Inl msg)
    have "collectTargets nw cfg = Inl (LDAPFailed msg)"
      unfolding collectTargets_def Let_def src_def [symmetric] ff sum.case ld_def [symmetric] Inl by (rule refl)
    then show ?thesis using c by simp
  next
    case (Inr hosts)
    show ?thesis
      using c that [of hosts]
      unfolding collectTargets_def Let_def src_def [symmetric] ff sum.case ld_def [symmetric] Inr dfs_def [symmetric]
      by blast
  qed
  ultimately show ?thesis using assms(2) by auto
qed

lemma enrich_input [simp]: "tg_Input (enrichTarget nw t) = tg_Input t"
  by (simp add: enrichTarget_def Let_def split: option.splits)

lemma check_input [simp]: "tg_Input (check_target nw t) = tg_Input t"
  by (simp add: check_target_def Let_def)


definition demo_network :: network where
  "demo_network = \<lparr>nw_parse_ip = (\<lambda>s. if s = ''10.0.0.5'' then Some s else None), nw_read = (\<lambda>_. None),
     nw_ldap = Inl ''no controller'', nw_dfs = Inr [],
     nw_lookup = (\<lambda>h. if h \<in> {''fs01'', ''fs01.corp''} then Some [''10.0.0.5''] else None),
     nw_dial445 = (\<lambda>a. a = ''10.0.0.5:445'')\<rparr>"

definition demo_targets :: ScanConfig where
  "demo_targets = default_scan\<lparr>scn_Targets := [''fs01'', ''FS01'', ''fs01.corp'', '' '', ''old:445'']\<rparr>"

lemma demo_collect:
  "collectTargets demo_network demo_targets =
     Inr \<lparr>cl_targets = map (\<lambda>(i, h). \<lparr>tg_Input = i, tg_Hostname = h, tg_IP = [], tg_Reachable445 = False, tg_Source = ''cli''\<rparr>)
       [(''fs01'', ''fs01''), (''FS01'', ''FS01''), (''fs01.corp'', ''fs01.corp''), (''old:445'', ''old'')],
       cl_discoveredHosts = [], cl_dfsTargets = []\<rparr>"
proof -
  have n: "newTarget (nw_parse_ip demo_network) ''fs01'' ''cli'' = no_target\<lparr>tg_Input := ''fs01'', tg_Source := ''cli'', tg_Hostname := ''fs01''\<rparr>"
    "newTarget (nw_parse_ip demo_network) ''FS01'' ''cli'' = no_target\<lparr>tg_Input := ''FS01'', tg_Source := ''cli'', tg_Hostname := ''FS01''\<rparr>"
    "newTarget (nw_parse_ip demo_network) ''fs01.corp'' ''cli'' = no_target\<lparr>tg_Input := ''fs01.corp'', tg_Source := ''cli'', tg_Hostname := ''fs01.corp''\<rparr>"
    "newTarget (nw_parse_ip demo_network) ''old:445'' ''cli'' = no_target\<lparr>tg_Input := ''old:445'', tg_Source := ''cli'', tg_Hostname := ''old''\<rparr>"
    "newTarget (nw_parse_ip demo_network) '' '' ''cli'' = no_target"
    by code_simp+
  have f: "trim_space (scn_TargetsFile demo_targets) = []" "scn_DiscoverDFS demo_targets = False"
    "scn_Targets demo_targets = [''fs01'', ''FS01'', ''fs01.corp'', '' '', ''old:445'']"
    by (simp_all add: demo_targets_def default_scan_def)
  show ?thesis
    unfolding collectTargets_def f Let_def
    by (simp add: n) (simp add: no_target_def)
qed

text \<open>
  Targets are deduplicated before their names are resolved: two names of one host stay two targets, with
  the same address, and the host is scanned twice.
\<close>

lemma one_host_two_targets:
  "map tg_Input (deduplicateTargets [newTarget (\<lambda>_. None) ''fs01'' ''cli'', newTarget (\<lambda>_. None) ''fs01.corp'' ''cli'']) =
     [''fs01'', ''fs01.corp'']"
  "tg_IP (enrichTarget demo_network (newTarget (\<lambda>_. None) ''fs01'' ''cli'')) = ''10.0.0.5''"
  "tg_IP (enrichTarget demo_network (newTarget (\<lambda>_. None) ''fs01.corp'' ''cli'')) = ''10.0.0.5''"
  by code_simp+


end
