(* ===== verification/Ldap.thy ===== *)
theory Ldap
  imports Discovery
begin

text \<open>
  Finding and asking a domain controller (\<open>internal/discovery\<close>): the domain and the controller the environment
  suggests (\<open>domain.go\<close>), the endpoint of the connection, its transport and the fall-back from LDAP to LDAPS, the
  names under which the bind is tried (\<open>auth.go\<close>), and what the root entry of the directory adds (\<open>ldap.go\<close>). The
  environment, the resolver, the URL parser and the LDAP server are arguments; the Kerberos exchange is one
  of the server's answers.
\<close>

subsection \<open>Names of domains\<close>

definition normalizeDetectedDomain :: "string \<Rightarrow> string" where
  "normalizeDetectedDomain value0 =
     (let v = to_lower (trim_space (trim_suffix value0 ''.'')) in
      if v = [] then []
      else if contains v '' '' then []
      else if v = ''(none)'' \<or> v = ''none'' then []
      else if CHR ''('' \<in> set v \<or> CHR '')'' \<in> set v then []
      else v)"

definition downLevelBindDomain :: "string \<Rightarrow> string" where
  "downLevelBindDomain domain0 =
     (let domain = normalizeDetectedDomain domain0 in
      if domain = [] then []
      else to_upper (case first_index CHR ''.'' domain of
             Some idx \<Rightarrow> if idx > 0 then take idx domain else domain
           | None \<Rightarrow> domain))"

record environment =
  ev_getenv :: "string \<Rightarrow> string"
  ev_hostname_command :: "string list \<Rightarrow> string option"
  ev_hostname :: "string option"
  ev_resolv_conf :: "string option"
  ev_srv :: "string \<Rightarrow> string list option"

definition first_pair :: "(string \<times> string) list \<Rightarrow> string \<times> string" where
  "first_pair ps = (case filter (\<lambda>(d, _). d \<noteq> []) ps of [] \<Rightarrow> ([], []) | p # _ \<Rightarrow> p)"

definition detectDomainFromEnvironment :: "environment \<Rightarrow> string \<times> string" where
  "detectDomainFromEnvironment env =
     first_pair (map (\<lambda>v. (normalizeDetectedDomain (ev_getenv env v), ''env:'' @ v))
       [''USERDNSDOMAIN'', ''USERDOMAIN_FQDN'', ''DNSDOMAIN'', ''USERDOMAIN''])"

text \<open>The part of a name after its first dot, if it has one with something on both sides.\<close>

definition after_dot :: "string \<Rightarrow> string option" where
  "after_dot s = (case first_index CHR ''.'' s of
     Some idx \<Rightarrow> if idx > 0 \<and> idx + 1 < length s then Some (drop (idx + 1) s) else None
   | None \<Rightarrow> None)"

definition detectDomainFromHostnameCommand :: "environment \<Rightarrow> string list \<Rightarrow> string" where
  "detectDomainFromHostnameCommand env args =
     (case ev_hostname_command env args of
        None \<Rightarrow> []
      | Some out \<Rightarrow>
          let v = trim_space out in
          if v = [] then []
          else
            let normalized = normalizeDetectedDomain v in
            (case args of
               [] \<Rightarrow> (case after_dot normalized of Some d \<Rightarrow> normalizeDetectedDomain d | None \<Rightarrow> [])
             | arg # _ \<Rightarrow>
                 (case after_dot normalized of
                    Some d \<Rightarrow> if arg = ''-f'' then normalizeDetectedDomain d else normalized
                  | None \<Rightarrow> if arg = ''-f'' then [] else normalized)))"

definition detectDomainFromHostnameSuffix :: "environment \<Rightarrow> string" where
  "detectDomainFromHostnameSuffix env =
     (case ev_hostname env of
        None \<Rightarrow> []
      | Some h \<Rightarrow> (case after_dot h of Some d \<Rightarrow> normalizeDetectedDomain d | None \<Rightarrow> []))"

definition detectDomainFromHostname :: "environment \<Rightarrow> string \<times> string" where
  "detectDomainFromHostname env =
     first_pair [(detectDomainFromHostnameCommand env [''-d''], ''hostname -d''),
       (detectDomainFromHostnameCommand env [''-f''], ''hostname -f''),
       (detectDomainFromHostnameCommand env [], ''hostname''),
       (detectDomainFromHostnameSuffix env, ''os.Hostname'')]"

text \<open>\<open>strings.Fields\<close>.\<close>

definition go_fields :: "string \<Rightarrow> string list" where
  "go_fields s = filter (\<lambda>w. w \<noteq> []) (split_on CHR '' '' (map (\<lambda>c. if is_space c then CHR '' '' else c) s))"

definition resolv_lines :: "environment \<Rightarrow> string list" where
  "resolv_lines env =
     (case ev_resolv_conf env of None \<Rightarrow> [] | Some data \<Rightarrow> map trim_space (split_on (CHR 0x0A) data))"

definition detectDomainFromResolvConf :: "environment \<Rightarrow> string \<times> string" where
  "detectDomainFromResolvConf env =
     first_pair (concat (map (\<lambda>line.
       if has_prefix line ''search '' then
         map (\<lambda>f. (normalizeDetectedDomain f, ''resolv.conf search'')) (go_fields (trim_prefix line ''search ''))
       else if has_prefix line ''domain '' then
         [(normalizeDetectedDomain (trim_prefix line ''domain ''), ''resolv.conf domain'')]
       else []) (resolv_lines env)))"

definition srvDiscoveryCandidates :: "environment \<Rightarrow> string list" where
  "srvDiscoveryCandidates env =
     first_loop (\<lambda>d. d) [] (map normalizeDetectedDomain
       ([ev_getenv env ''USERDNSDOMAIN'', ev_getenv env ''USERDOMAIN'', detectDomainFromHostnameSuffix env] @
        concat (map (\<lambda>line.
          (if has_prefix line ''search '' then go_fields (trim_prefix line ''search '') else []) @
          (if has_prefix line ''domain '' then [trim_prefix line ''domain ''] else [])) (resolv_lines env))))"

definition locateDomainController :: "environment \<Rightarrow> string \<Rightarrow> string option" where
  "locateDomainController env domain =
     (case ev_srv env domain of
        None \<Rightarrow> None
      | Some [] \<Rightarrow> None
      | Some (record # _) \<Rightarrow> Some (trim_suffix record ''.''))"

definition detectDomainBySRV :: "environment \<Rightarrow> string \<times> string" where
  "detectDomainBySRV env =
     (case find (\<lambda>c. locateDomainController env c \<noteq> None) (srvDiscoveryCandidates env) of
        None \<Rightarrow> ([], [])
      | Some c \<Rightarrow> (c, case locateDomainController env c of Some dc \<Rightarrow> dc | None \<Rightarrow> []))"

record DomainContext =
  dc_DomainName :: string
  dc_DomainController :: string
  dc_BaseDN :: string
  dc_DetectionMethod :: string

record LDAPOptions =
  lo_Username :: string
  lo_Password :: string
  lo_Domain :: string
  lo_DomainController :: string
  lo_BaseDN :: string
  lo_AuthMethod :: string
  lo_Transport :: string

text \<open>The domain of the options, or of the first source that has one; only the last source gives a controller.\<close>

definition detect_name :: "environment \<Rightarrow> DomainContext \<Rightarrow> DomainContext" where
  "detect_name env ctx =
     (if dc_DomainName ctx \<noteq> [] then ctx\<lparr>dc_DetectionMethod := ''cli-domain''\<rparr>
      else
        let (domain, method) = first_pair [detectDomainFromEnvironment env, detectDomainFromHostname env, detectDomainFromResolvConf env]
        in if domain \<noteq> [] then ctx\<lparr>dc_DomainName := domain, dc_DetectionMethod := method\<rparr>
           else
             let (srv, dc) = detectDomainBySRV env
             in if srv \<noteq> [] then ctx\<lparr>dc_DomainName := srv, dc_DomainController := dc, dc_DetectionMethod := ''dns-srv-fallback''\<rparr>
                else ctx)"

definition DetectDomainContext :: "environment \<Rightarrow> LDAPOptions \<Rightarrow> DomainContext option" where
  "DetectDomainContext env opts =
     (let ctx = detect_name env \<lparr>dc_DomainName = normalizeDetectedDomain (lo_Domain opts),
            dc_DomainController = trim_space (lo_DomainController opts),
            dc_BaseDN = trim_space (lo_BaseDN opts), dc_DetectionMethod = []\<rparr>
      in if dc_DomainController ctx \<noteq> [] then
           Some (if dc_DetectionMethod ctx = [] \<and> dc_DomainName ctx \<noteq> [] then ctx\<lparr>dc_DetectionMethod := ''cli-domain+cli-dc''\<rparr>
                 else if dc_DetectionMethod ctx = [] then ctx\<lparr>dc_DetectionMethod := ''cli-dc''\<rparr>
                 else ctx)
         else if dc_DomainName ctx \<noteq> [] then
           (case locateDomainController env (dc_DomainName ctx) of
              Some dc \<Rightarrow> Some (ctx\<lparr>dc_DomainController := dc,
                dc_DetectionMethod := (if dc_DetectionMethod ctx = [] then ''dns-srv'' else dc_DetectionMethod ctx)\<rparr>)
            | None \<Rightarrow> Some ctx)
         else None)"

subsection \<open>Endpoints\<close>

record ldapEndpoint =
  ep_Transport :: string
  ep_Address :: string
  ep_Host :: string
  ep_ExplicitTransport :: bool

definition normalizeLDAPTransport :: "string \<Rightarrow> string option" where
  "normalizeLDAPTransport value0 =
     (let transport = to_lower (trim_space value0) in
      if transport = [] \<or> transport = ''auto'' then Some ''auto''
      else if transport = ''ldap'' \<or> transport = ''ldaps'' then Some transport
      else None)"

definition normalizeLDAPAuthMethod :: "string \<Rightarrow> string option" where
  "normalizeLDAPAuthMethod value0 =
     (let m = to_lower (trim_space value0) in
      if m = [] \<or> m = ''auto'' then Some ''auto''
      else if m \<in> set [''simple'', ''ntlm'', ''gssapi''] then Some m
      else if m \<in> set [''negotiate'', ''kerberos'', ''sspi''] then Some ''gssapi''
      else None)"

definition defaultPortForLDAPTransport :: "string \<Rightarrow> string" where
  "defaultPortForLDAPTransport transport = (if transport = ''ldaps'' then ''636'' else ''389'')"

definition ldapAddress :: "string \<Rightarrow> string \<Rightarrow> string \<times> string" where
  "ldapAddress dc defaultPort =
     (case SplitHostPort dc of Some (parsedHost, _) \<Rightarrow> (dc, parsedHost) | None \<Rightarrow> (JoinHostPort dc defaultPort, dc))"

text \<open>The parts of a URL the code looks at; \<open>None\<close> when \<open>url.Parse\<close> fails.\<close>

record ldap_url =
  lu_Scheme :: string
  lu_Host :: string
  lu_Path :: string
  lu_RawQuery :: string
  lu_Fragment :: string

definition ldapEndpointForController :: "(string \<Rightarrow> ldap_url option) \<Rightarrow> string \<Rightarrow> string \<Rightarrow> ldapEndpoint option" where
  "ldapEndpointForController parse_url dc requested0 =
     (case normalizeLDAPTransport requested0 of
        None \<Rightarrow> None
      | Some requested \<Rightarrow>
          let raw = trim_space dc in
          if raw = [] then None
          else if contains raw ''://'' then
            (case parse_url raw of
               None \<Rightarrow> None
             | Some parsed \<Rightarrow>
                 let transport = to_lower (trim_space (lu_Scheme parsed)) in
                 if transport \<noteq> ''ldap'' \<and> transport \<noteq> ''ldaps'' then None
                 else if requested \<noteq> ''auto'' \<and> requested \<noteq> transport then None
                 else if lu_Host parsed = [] then None
                 else if trim_set (lu_Path parsed) ''/'' \<noteq> [] \<or> lu_RawQuery parsed \<noteq> [] \<or> lu_Fragment parsed \<noteq> [] then None
                 else case ldapAddress (lu_Host parsed) (defaultPortForLDAPTransport transport) of
                        (address, host) \<Rightarrow>
                          Some \<lparr>ep_Transport = transport, ep_Address = address, ep_Host = host, ep_ExplicitTransport = True\<rparr>)
          else
            let transport = (if requested = ''auto'' then
                  (case SplitHostPort raw of
                     Some (_, port) \<Rightarrow> if port = ''636'' then ''ldaps'' else ''ldap''
                   | None \<Rightarrow> ''ldap'')
                else requested)
            in case ldapAddress raw (defaultPortForLDAPTransport transport) of
                 (address, host) \<Rightarrow>
                   Some \<lparr>ep_Transport = transport, ep_Address = address, ep_Host = host, ep_ExplicitTransport = False\<rparr>)"

subsection \<open>Binding\<close>

definition detectExplicitBindFormat :: "string \<Rightarrow> string" where
  "detectExplicitBindFormat username =
     (if CHR ''@'' \<in> set username then ''explicit UPN''
      else if CHR 0x5C \<in> set username then ''explicit DOMAIN'' @ [CHR 0x5C] @ ''USER''
      else [])"

text \<open>The values tried, with the labels of the log, each value once.\<close>

definition deduplicateBindCandidates :: "(string \<times> string) list \<Rightarrow> (string \<times> string) list" where
  "deduplicateBindCandidates cands = first_loop snd [] (map (\<lambda>(label, v). (label, trim_space v)) cands)"

definition bindCandidates :: "string \<Rightarrow> string \<Rightarrow> (string \<times> string) list" where
  "bindCandidates username0 domain =
     (let username = trim_space username0 in
      if username = [] then []
      else
        let label = detectExplicitBindFormat username in
        if label \<noteq> [] then [(label, username)]
        else
          let normalized = normalizeDetectedDomain domain; downLevel = downLevelBindDomain normalized
          in deduplicateBindCandidates
               ([(''username'', username)] @
                (if normalized \<noteq> [] then
                   [(''UPN'', username @ ''@'' @ normalized)] @
                   (if downLevel \<noteq> [] then [(''DOMAIN'' @ [CHR 0x5C] @ ''USER'', downLevel @ [CHR 0x5C] @ username)] else [])
                 else [])))"

definition ntlmBindIdentity :: "string \<Rightarrow> string \<Rightarrow> string \<times> string" where
  "ntlmBindIdentity username0 domain =
     (let username = trim_space username0;
          upn = (case first_index CHR ''@'' username of
             Some idx \<Rightarrow> if idx > 0 \<and> idx + 1 < length username then Some (trim_space (drop (idx + 1) username), username) else None
           | None \<Rightarrow> None)
      in case first_index CHR 0x5C username of
           Some idx \<Rightarrow>
             if idx > 0 \<and> idx + 1 < length username then (trim_space (take idx username), trim_space (drop (idx + 1) username))
             else (case upn of Some p \<Rightarrow> p | None \<Rightarrow> (downLevelBindDomain domain, username))
         | None \<Rightarrow> (case upn of Some p \<Rightarrow> p | None \<Rightarrow> (downLevelBindDomain domain, username)))"

record ldap_error =
  lx_text :: string
  lx_strong :: bool

definition requiresLDAPSigning :: "ldap_error \<Rightarrow> bool" where
  "requiresLDAPSigning err \<longleftrightarrow>
     lx_strong err \<or>
     (let message = to_lower (lx_text err)
      in list_ex (contains message) [''strongerauthrequired'', ''strong auth required'', ''confidentiality required'', ''integrity checking''])"

definition isLDAPChannelBindingError :: "ldap_error \<Rightarrow> bool" where
  "isLDAPChannelBindingError err \<longleftrightarrow>
     (let message = to_lower (lx_text err)
      in list_ex (contains message) [''80090346'', ''sec_e_bad_bindings'', ''bad bindings'', ''channel binding''])"

text \<open>
  The answers of the server: \<open>None\<close> for a success. An error is wrapped with its result code kept, so what
  \<open>requiresLDAPSigning\<close> finds in it stays; the model keeps the error of the library.
\<close>

record ldap_server =
  ls_dial :: "ldapEndpoint \<Rightarrow> ldap_error option"
  ls_rootdse :: "ldapEndpoint \<Rightarrow> (string \<times> string) option"
  ls_simple :: "ldapEndpoint \<Rightarrow> string \<Rightarrow> string \<Rightarrow> ldap_error option"
  ls_ntlm :: "ldapEndpoint \<Rightarrow> string \<times> string \<Rightarrow> string \<Rightarrow> ldap_error option"
  ls_gssapi :: "ldapEndpoint \<Rightarrow> LDAPOptions \<Rightarrow> string \<Rightarrow> ldap_error option"

datatype ldap_event = Dialled ldapEndpoint | BindSent ldapEndpoint string

definition plain_error :: "string \<Rightarrow> ldap_error" where
  "plain_error msg = \<lparr>lx_text = msg, lx_strong = False\<rparr>"

fun simple_loop ::
  "ldap_server \<Rightarrow> ldapEndpoint \<Rightarrow> string \<Rightarrow> ldap_error \<Rightarrow> (string \<times> string) list \<Rightarrow> (ldap_error + string) \<times> ldap_event list" where
  "simple_loop srv ep password lastErr [] = (Inl lastErr, [])"
| "simple_loop srv ep password lastErr ((label, v) # attempts) =
     (case ls_simple srv ep v password of
        None \<Rightarrow> (Inr (ep_Transport ep @ ''-simple''), [BindSent ep v])
      | Some err \<Rightarrow> (case simple_loop srv ep password err attempts of (r, evs) \<Rightarrow> (r, BindSent ep v # evs)))"

definition bindLDAPSimple :: "ldap_server \<Rightarrow> ldapEndpoint \<Rightarrow> LDAPOptions \<Rightarrow> string \<Rightarrow> (ldap_error + string) \<times> ldap_event list" where
  "bindLDAPSimple srv ep opts domain =
     (if trim_space (lo_Username opts) = [] then (Inr ''anonymous'', [])
      else simple_loop srv ep (lo_Password opts) (plain_error ''no candidate'') (bindCandidates (lo_Username opts) domain))"

definition bindLDAPNTLM :: "ldap_server \<Rightarrow> ldapEndpoint \<Rightarrow> LDAPOptions \<Rightarrow> string \<Rightarrow> (ldap_error + string) \<times> ldap_event list" where
  "bindLDAPNTLM srv ep opts domain =
     (let username = trim_space (lo_Username opts) in
      if username = [] then (Inl (plain_error ''ldap discovery: ntlm bind requires username''), [])
      else if lo_Password opts = [] then (Inl (plain_error ''ldap discovery: ntlm bind requires password''), [])
      else
        let who = ntlmBindIdentity username domain in
        case ls_ntlm srv ep who (lo_Password opts) of
          Some err \<Rightarrow> (Inl err, [BindSent ep (snd who)])
        | None \<Rightarrow> (Inr (ep_Transport ep @ ''-ntlm''), [BindSent ep (snd who)]))"

definition bindLDAPGSSAPI :: "ldap_server \<Rightarrow> ldapEndpoint \<Rightarrow> LDAPOptions \<Rightarrow> string \<Rightarrow> (ldap_error + string) \<times> ldap_event list" where
  "bindLDAPGSSAPI srv ep opts domain =
     (case ls_gssapi srv ep opts domain of
        Some err \<Rightarrow> (Inl err, []) | None \<Rightarrow> (Inr (ep_Transport ep @ ''-gssapi''), []))"

definition bindLDAP :: "ldap_server \<Rightarrow> ldapEndpoint \<Rightarrow> LDAPOptions \<Rightarrow> string \<Rightarrow> (ldap_error + string) \<times> ldap_event list" where
  "bindLDAP srv ep opts domain =
     (case normalizeLDAPAuthMethod (lo_AuthMethod opts) of
        None \<Rightarrow> (Inl (plain_error ''ldap discovery: unsupported ldap_auth''), [])
      | Some m \<Rightarrow>
          if m = ''auto'' \<or> m = ''simple'' then bindLDAPSimple srv ep opts domain
          else if m = ''ntlm'' then bindLDAPNTLM srv ep opts domain
          else bindLDAPGSSAPI srv ep opts domain)"

subsection \<open>The session\<close>

definition dial :: "ldap_server \<Rightarrow> ldapEndpoint \<Rightarrow> ldap_error option \<times> ldap_event list" where
  "dial srv ep = (ls_dial srv ep, [Dialled ep])"

definition authenticateLDAP ::
  "(string \<Rightarrow> ldap_url option) \<Rightarrow> ldap_server \<Rightarrow> ldapEndpoint \<Rightarrow> LDAPOptions \<Rightarrow> string \<Rightarrow> string \<Rightarrow>
   (ldap_error + ldapEndpoint \<times> string) \<times> ldap_event list" where
  "authenticateLDAP parse_url srv ep opts domain controller =
     (case normalizeLDAPTransport (lo_Transport opts) of
        None \<Rightarrow> (Inl (plain_error ''ldap discovery: unsupported ldap_transport''), [])
      | Some transport \<Rightarrow>
          (case bindLDAP srv ep opts domain of
             (Inr m, evs) \<Rightarrow> (Inr (ep, m), evs)
           | (Inl err, evs) \<Rightarrow>
               if ep_Transport ep \<noteq> ''ldap'' \<or> transport \<noteq> ''auto'' \<or> \<not> requiresLDAPSigning err then (Inl err, evs)
               else case ldapEndpointForController parse_url controller ''ldaps'' of
                      None \<Rightarrow> (Inl (plain_error ''ldap discovery: no endpoint for LDAPS''), evs)
                    | Some ep2 \<Rightarrow>
                        (case dial srv ep2 of
                           (Some err2, evs2) \<Rightarrow> (Inl err2, evs @ evs2)
                         | (None, evs2) \<Rightarrow>
                             (case bindLDAP srv ep2 opts domain of
                                (Inr m, evs3) \<Rightarrow> (Inr (ep2, m), evs @ evs2 @ evs3)
                              | (Inl err3, evs3) \<Rightarrow> (Inl err3, evs @ evs2 @ evs3)))))"

definition domainFromNamingContext :: "string \<Rightarrow> string" where
  "domainFromNamingContext namingContext =
     (if trim_space namingContext = [] then []
      else
        let parts = map trim_space (split_on CHR '','' namingContext);
            named = filter (\<lambda>p. \<not> length p < 3 \<and> equal_fold (take 3 p) ''dc='') parts;
            domainParts = filter (\<lambda>v. v \<noteq> []) (map (\<lambda>p. normalizeDetectedDomain (drop 3 p)) named)
        in if domainParts = [] then [] else join ''.'' domainParts)"

definition preBindRootDSE :: "ldap_server \<Rightarrow> ldapEndpoint \<Rightarrow> DomainContext \<Rightarrow> (string \<times> string) \<times> DomainContext" where
  "preBindRootDSE srv ep ctx =
     (case ls_rootdse srv ep of
        None \<Rightarrow> (([], []), ctx)
      | Some (defaultNC, rootNC) \<Rightarrow>
          let derived = domainFromNamingContext (if defaultNC = [] then rootNC else defaultNC);
              current_domain = normalizeDetectedDomain (dc_DomainName ctx)
          in if derived = [] then ((defaultNC, rootNC), ctx)
             else if current_domain = [] then
               ((defaultNC, rootNC), ctx\<lparr>dc_DomainName := derived,
                  dc_DetectionMethod := (if dc_DetectionMethod ctx = [] then ''rootdse-defaultNamingContext'' else dc_DetectionMethod ctx)\<rparr>)
             else if current_domain \<noteq> derived \<and> \<not> has_prefix (dc_DetectionMethod ctx) ''cli-domain'' then
               ((defaultNC, rootNC), ctx\<lparr>dc_DomainName := derived, dc_DetectionMethod := ''rootdse-defaultNamingContext''\<rparr>)
             else ((defaultNC, rootNC), ctx))"

record ldapSession =
  lse_Endpoint :: ldapEndpoint
  lse_RootDSE :: "string \<times> string"
  lse_AuthMethod :: string
  lse_Context :: DomainContext

text \<open>The connection that stands after the fall-back of the dialling, or the error.\<close>

definition dial_with_fallback ::
  "(string \<Rightarrow> ldap_url option) \<Rightarrow> ldap_server \<Rightarrow> string \<Rightarrow> string \<Rightarrow> ldapEndpoint \<Rightarrow> (ldap_error + ldapEndpoint) \<times> ldap_event list" where
  "dial_with_fallback parse_url srv transport controller ep =
     (case dial srv ep of
        (None, evs) \<Rightarrow> (Inr ep, evs)
      | (Some err, evs) \<Rightarrow>
          if transport \<noteq> ''auto'' \<or> ep_Transport ep \<noteq> ''ldap'' \<or> ep_ExplicitTransport ep then (Inl err, evs)
          else case ldapEndpointForController parse_url controller ''ldaps'' of
                 None \<Rightarrow> (Inl err, evs)
               | Some ep2 \<Rightarrow>
                   (case dial srv ep2 of
                      (Some err2, evs2) \<Rightarrow> (Inl err2, evs @ evs2)
                    | (None, evs2) \<Rightarrow> (Inr ep2, evs @ evs2)))"

definition connectLDAPSession ::
  "(string \<Rightarrow> ldap_url option) \<Rightarrow> ldap_server \<Rightarrow> LDAPOptions \<Rightarrow> DomainContext \<Rightarrow> (ldap_error + ldapSession) \<times> ldap_event list" where
  "connectLDAPSession parse_url srv opts ctx =
     (let controller = dc_DomainController ctx in
      if trim_space controller = [] then (Inl (plain_error ''ldap discovery: missing domain controller for ldap session''), [])
      else case normalizeLDAPTransport (lo_Transport opts) of
             None \<Rightarrow> (Inl (plain_error ''ldap discovery: unsupported ldap_transport''), [])
           | Some transport \<Rightarrow>
               (case ldapEndpointForController parse_url controller transport of
                  None \<Rightarrow> (Inl (plain_error ''ldap discovery: no endpoint''), [])
                | Some ep0 \<Rightarrow>
                    (case dial_with_fallback parse_url srv transport controller ep0 of
                       (Inl err, evs) \<Rightarrow> (Inl err, evs)
                     | (Inr ep, evs) \<Rightarrow>
                         (case preBindRootDSE srv ep ctx of
                            (rootDSE, ctx') \<Rightarrow>
                              (case authenticateLDAP parse_url srv ep opts (dc_DomainName ctx') controller of
                                 (Inl err, evs2) \<Rightarrow> (Inl err, evs @ evs2)
                               | (Inr (epA, m), evs2) \<Rightarrow>
                                   (Inr \<lparr>lse_Endpoint = epA, lse_RootDSE = rootDSE, lse_AuthMethod = m, lse_Context = ctx'\<rparr>, evs @ evs2))))))"

subsection \<open>Properties\<close>

fun event_transport :: "ldap_event \<Rightarrow> string" where
  "event_transport (Dialled ep) = ep_Transport ep"
| "event_transport (BindSent ep v) = ep_Transport ep"

definition on_transport :: "string \<Rightarrow> ldap_event list \<Rightarrow> bool" where
  "on_transport t evs \<longleftrightarrow> (\<forall>ev \<in> set evs. event_transport ev = t)"

lemma on_transport_simps [simp]:
  "on_transport t []" "on_transport t (ev # evs) \<longleftrightarrow> event_transport ev = t \<and> on_transport t evs"
  "on_transport t (xs @ ys) \<longleftrightarrow> on_transport t xs \<and> on_transport t ys"
  by (auto simp: on_transport_def)

lemma simple_loop_transport: "on_transport (ep_Transport ep) (snd (simple_loop srv ep pw err as))"
  by (induction srv ep pw err as rule: simple_loop.induct) (auto simp: split_beta split: option.splits)

lemma bind_transport: "on_transport (ep_Transport ep) (snd (bindLDAP srv ep opts domain))"
  using simple_loop_transport
  by (auto simp: bindLDAP_def bindLDAPSimple_def bindLDAPNTLM_def bindLDAPGSSAPI_def Let_def split: option.splits)

lemma endpoint_transport:
  "ldapEndpointForController parse_url dc req = Some ep \<Longrightarrow> normalizeLDAPTransport req = Some t \<Longrightarrow>
   (ep_Transport ep = ''ldap'' \<or> ep_Transport ep = ''ldaps'') \<and> (t \<noteq> ''auto'' \<longrightarrow> ep_Transport ep = t)"
  by (auto simp: ldapEndpointForController_def normalizeLDAPTransport_def Let_def split_beta split: option.splits if_splits)

lemma ldaps_transport: "normalizeLDAPTransport ''ldaps'' = Some ''ldaps''"
  by code_simp

lemma ldaps_endpoint: "ldapEndpointForController parse_url dc ''ldaps'' = Some ep \<Longrightarrow> ep_Transport ep = ''ldaps''"
  using endpoint_transport ldaps_transport by fastforce

lemma normalize_transport_idem: "normalizeLDAPTransport t = Some u \<Longrightarrow> normalizeLDAPTransport u = Some u"
proof -
  assume "normalizeLDAPTransport t = Some u"
  then have "u \<in> {''auto'', ''ldap'', ''ldaps''}"
    by (auto simp: normalizeLDAPTransport_def Let_def split: if_splits)
  moreover have "normalizeLDAPTransport ''auto'' = Some ''auto''" "normalizeLDAPTransport ''ldap'' = Some ''ldap''" by code_simp+
  ultimately show ?thesis using ldaps_transport by auto
qed

text \<open>Once the connection is on LDAPS, it stays there.\<close>

definition no_downgrade :: "ldap_event list \<Rightarrow> bool" where
  "no_downgrade evs \<longleftrightarrow> sorted_wrt (\<lambda>a b. event_transport a = ''ldaps'' \<longrightarrow> event_transport b = ''ldaps'') evs"

lemma no_downgrade_append:
  "no_downgrade (xs @ ys) \<longleftrightarrow> no_downgrade xs \<and> no_downgrade ys \<and>
     (\<forall>x \<in> set xs. \<forall>y \<in> set ys. event_transport x = ''ldaps'' \<longrightarrow> event_transport y = ''ldaps'')"
  by (simp add: no_downgrade_def sorted_wrt_append)

lemma one_transport: "on_transport t evs \<Longrightarrow> no_downgrade evs"
  unfolding no_downgrade_def on_transport_def by (rule sorted_wrt_iff_nth_less [THEN iffD2]) (metis length_pos_if_in_set nth_mem order.strict_trans)

lemma then_ldaps: "no_downgrade xs \<Longrightarrow> on_transport ''ldaps'' ys \<Longrightarrow> no_downgrade (xs @ ys)"
  by (simp add: no_downgrade_append one_transport) (simp add: on_transport_def)

lemma bind_events: "bindLDAP srv ep opts domain = (r, evs) \<Longrightarrow> on_transport (ep_Transport ep) evs"
  using bind_transport [of ep srv opts domain] by simp

lemma authenticate_events:
  assumes "authenticateLDAP parse_url srv ep opts domain controller = (r, evs)"
    and "normalizeLDAPTransport (lo_Transport opts) = Some t"
  shows "\<exists>a b. evs = a @ b \<and> on_transport (ep_Transport ep) a \<and> on_transport ''ldaps'' b \<and> (t = ''auto'' \<or> b = [])"
proof -
  obtain r1 e1 where b1: "bindLDAP srv ep opts domain = (r1, e1)" by force
  note o1 = bind_events [OF b1]
  show ?thesis
  proof (cases "\<exists>err ep2. r1 = Inl err \<and> ep_Transport ep = ''ldap'' \<and> t = ''auto'' \<and> requiresLDAPSigning err \<and>
      ldapEndpointForController parse_url controller ''ldaps'' = Some ep2")
    case False
    then have "evs = e1"
      using assms by (auto simp: authenticateLDAP_def b1 split: sum.splits if_splits option.splits)
    then show ?thesis using o1 by (intro exI [of _ e1] exI [of _ "[]"]) simp
  next
    case True
    then obtain err ep2 where f: "r1 = Inl err" "ep_Transport ep = ''ldap''" "t = ''auto''" "requiresLDAPSigning err"
        "ldapEndpointForController parse_url controller ''ldaps'' = Some ep2" by blast
    note t2 = ldaps_endpoint [OF f(5)]
    obtain r3 e3 where b3: "bindLDAP srv ep2 opts domain = (r3, e3)" by force
    have "\<exists>b. evs = e1 @ b \<and> (b = [Dialled ep2] \<or> b = Dialled ep2 # e3)"
      using assms f by (auto simp: authenticateLDAP_def b1 b3 dial_def split: sum.splits option.splits prod.splits)
    moreover have "on_transport ''ldaps'' e3" using bind_events [OF b3] t2 by simp
    ultimately show ?thesis
      using o1 f(3) t2 by (metis event_transport.simps(1) on_transport_simps(1,2))
  qed
qed

lemma dial_events:
  assumes "dial_with_fallback parse_url srv t controller ep = (r, evs)"
  shows "\<exists>b. evs = Dialled ep # b \<and> on_transport ''ldaps'' b \<and> (t = ''auto'' \<or> b = []) \<and>
    (\<forall>ep'. r = Inr ep' \<longrightarrow> (b = [] \<and> ep' = ep) \<or> (b \<noteq> [] \<and> ep_Transport ep' = ''ldaps''))"
  using assms ldaps_endpoint
  by (auto simp: dial_with_fallback_def dial_def split: option.splits if_splits)

text \<open>
  C10: A connection is never taken back from LDAPS to LDAP: once an endpoint with TLS was dialled, every later
  connection and every later bind, with the password in it, goes over TLS. A transport the options name is
  the only one used.
\<close>

theorem ldap_never_downgraded:
  assumes "connectLDAPSession parse_url srv opts ctx = (r, evs)"
  shows "no_downgrade evs \<and>
    (\<forall>t. normalizeLDAPTransport (lo_Transport opts) = Some t \<longrightarrow> t \<noteq> ''auto'' \<longrightarrow> on_transport t evs)"
proof (cases "\<exists>t ep0. trim_space (dc_DomainController ctx) \<noteq> [] \<and> normalizeLDAPTransport (lo_Transport opts) = Some t \<and>
    ldapEndpointForController parse_url (dc_DomainController ctx) t = Some ep0")
  case False
  then have "evs = []" using assms by (auto simp: connectLDAPSession_def Let_def split: if_splits option.splits)
  then show ?thesis by (simp add: no_downgrade_def)
next
  case True
  then obtain t ep0 where t: "trim_space (dc_DomainController ctx) \<noteq> []" "normalizeLDAPTransport (lo_Transport opts) = Some t"
    "ldapEndpointForController parse_url (dc_DomainController ctx) t = Some ep0" by blast
  have tr: "ep_Transport ep0 = ''ldap'' \<or> ep_Transport ep0 = ''ldaps''" "t \<noteq> ''auto'' \<Longrightarrow> ep_Transport ep0 = t"
    using endpoint_transport [OF t(3) normalize_transport_idem [OF t(2)]] by auto
  obtain r1 e1 where d: "dial_with_fallback parse_url srv t (dc_DomainController ctx) ep0 = (r1, e1)" by force
  obtain b where b: "e1 = Dialled ep0 # b" "on_transport ''ldaps'' b" "t = ''auto'' \<or> b = []"
      "\<And>ep'. r1 = Inr ep' \<Longrightarrow> (b = [] \<and> ep' = ep0) \<or> (b \<noteq> [] \<and> ep_Transport ep' = ''ldaps'')"
    using dial_events [OF d] by blast
  have first: "no_downgrade ([Dialled ep0] @ b)" by (rule then_ldaps) (simp_all add: b no_downgrade_def)
  show ?thesis
  proof (cases r1)
    case (Inl err)
    then have "evs = e1" using assms t d by (simp add: connectLDAPSession_def Let_def)
    then show ?thesis using first b tr t(2) by auto
  next
    case (Inr ep)
    obtain root_dse ctx' where p: "preBindRootDSE srv ep ctx = (root_dse, ctx')" by (metis surj_pair)
    obtain r2 e2 where a: "authenticateLDAP parse_url srv ep opts (dc_DomainName ctx') (dc_DomainController ctx) = (r2, e2)" by force
    obtain x y where xy: "e2 = x @ y" "on_transport (ep_Transport ep) x" "on_transport ''ldaps'' y" "t = ''auto'' \<or> y = []"
      using authenticate_events [OF a t(2)] by blast
    have evs: "evs = ([Dialled ep0] @ b) @ x @ y"
      using assms t d Inr p a b(1) xy(1) by (auto simp: connectLDAPSession_def Let_def split: sum.splits prod.splits)
    have "no_downgrade (([Dialled ep0] @ b) @ x)"
    proof (cases "b = []")
      case True
      then have "ep = ep0" using b(4) [OF Inr] by simp
      then show ?thesis using xy(2) True by (intro one_transport [of "ep_Transport ep0"]) simp
    next
      case False
      then have "ep_Transport ep = ''ldaps''" using b(4) [OF Inr] by simp
      then show ?thesis using then_ldaps [OF first, of x] xy(2) by simp
    qed
    then have "no_downgrade evs" using then_ldaps [OF _ xy(3), of "([Dialled ep0] @ b) @ x"] evs by simp
    moreover have "on_transport t evs" if "t \<noteq> ''auto''"
    proof -
      have "b = []" "y = []" using b(3) xy(4) that by auto
      then show ?thesis using b(4) [OF Inr] tr(2) [OF that] xy(2) evs by simp
    qed
    ultimately show ?thesis using t(2) by simp
  qed
qed

definition signing_server :: ldap_server where
  "signing_server = \<lparr>ls_dial = (\<lambda>ep. None), ls_rootdse = (\<lambda>ep. Some (''DC=corp,DC=local'', [])),
     ls_simple = (\<lambda>ep v pw. if ep_Transport ep = ''ldap'' then Some \<lparr>lx_text = ''signing'', lx_strong = True\<rparr> else None),
     ls_ntlm = (\<lambda>ep who pw. None), ls_gssapi = (\<lambda>ep opts d. None)\<rparr>"

definition simple_options :: LDAPOptions where
  "simple_options = \<lparr>lo_Username = ''svc@corp.local'', lo_Password = ''pw'', lo_Domain = [], lo_DomainController = ''dc01:389'',
     lo_BaseDN = [], lo_AuthMethod = [], lo_Transport = ''auto''\<rparr>"

definition demo_context :: DomainContext where
  "demo_context = \<lparr>dc_DomainName = [], dc_DomainController = ''dc01:389'', dc_BaseDN = [], dc_DetectionMethod = ''cli-dc''\<rparr>"

definition plain_endpoint :: "string \<Rightarrow> ldapEndpoint" where
  "plain_endpoint t = \<lparr>ep_Transport = t, ep_Address = ''dc01:389'', ep_Host = ''dc01'', ep_ExplicitTransport = False\<rparr>"

text \<open>
  The fall-back to LDAPS keeps the port of the controller: a controller named with port 389 is asked for TLS on
  port 389. The bind that made it necessary has sent the password over the plain connection.
\<close>

lemma demo_endpoints:
  "ldapEndpointForController u ''dc01:389'' ''auto'' = Some (plain_endpoint ''ldap'')"
  "ldapEndpointForController u ''dc01:389'' ''ldaps'' = Some (plain_endpoint ''ldaps'')"
proof -
  have f: "trim_space ''dc01:389'' = ''dc01:389''" "\<not> contains ''dc01:389'' ''://''"
    "SplitHostPort ''dc01:389'' = Some (''dc01'', ''389'')"
    "normalizeLDAPTransport ''auto'' = Some ''auto''" by code_simp+
  show "ldapEndpointForController u ''dc01:389'' ''auto'' = Some (plain_endpoint ''ldap'')"
    "ldapEndpointForController u ''dc01:389'' ''ldaps'' = Some (plain_endpoint ''ldaps'')"
    by (simp_all add: ldapEndpointForController_def f ldaps_transport plain_endpoint_def ldapAddress_def)
qed

lemma demo_session:
  "snd (connectLDAPSession u signing_server simple_options demo_context) =
     [Dialled (plain_endpoint ''ldap''), BindSent (plain_endpoint ''ldap'') ''svc@corp.local'',
      Dialled (plain_endpoint ''ldaps''), BindSent (plain_endpoint ''ldaps'') ''svc@corp.local'']"
proof -
  have f: "normalizeLDAPTransport ''auto'' = Some ''auto''" "normalizeLDAPAuthMethod [] = Some ''auto''"
    "trim_space ''dc01:389'' \<noteq> []" "trim_space ''svc@corp.local'' = ''svc@corp.local''" by code_simp+
  have b: "bindCandidates ''svc@corp.local'' d = [(''explicit UPN'', ''svc@corp.local'')]" for d
    by (simp add: bindCandidates_def f detectExplicitBindFormat_def)
  show ?thesis
    by (simp add: connectLDAPSession_def demo_context_def f demo_endpoints dial_with_fallback_def dial_def
        signing_server_def split_beta authenticateLDAP_def bindLDAP_def simple_options_def bindLDAPSimple_def b
        plain_endpoint_def requiresLDAPSigning_def Let_def)
qed

theorem ldap_never_downgraded_witness:
  "no_downgrade [Dialled (plain_endpoint ''ldap''), BindSent (plain_endpoint ''ldap'') ''svc@corp.local'',
      Dialled (plain_endpoint ''ldaps''), BindSent (plain_endpoint ''ldaps'') ''svc@corp.local'']"
  using ldap_never_downgraded [of "\<lambda>_. None" signing_server simple_options demo_context,
      OF surjective_pairing] demo_session by simp

text \<open>The values tried in a simple bind are different, and the first is the name as it was given.\<close>

lemma bind_candidates_distinct: "distinct (map snd (bindCandidates username domain))"
proof -
  have "distinct (map snd (deduplicateBindCandidates cands))" for cands
    unfolding deduplicateBindCandidates_def by (rule first_keys_distinct)
  then show ?thesis unfolding bindCandidates_def Let_def by (simp del: map_append)
qed

lemma srv_candidates_distinct: "distinct (srvDiscoveryCandidates env) \<and> [] \<notin> set (srvDiscoveryCandidates env)"
proof -
  have p: "distinct (first_loop (\<lambda>d. d) [] ds) \<and> [] \<notin> set (first_loop (\<lambda>d. d) [] ds)" for ds
    using first_keys_distinct [of "\<lambda>d. d" "[]" ds] first_kept [of "[]" "\<lambda>d. d" "[]" ds] by auto
  show ?thesis unfolding srvDiscoveryCandidates_def by (rule p)
qed

end
