(* ===== verification/Runtime.thy ===== *)
theory Runtime
  imports Engine Ldap
begin

text \<open>
  The runtime (\<open>internal/app\<close>): what the command line changes in the configuration, what is accepted
  (\<open>runtime.go\<close>), the credentials that are tested first (\<open>preflight.go\<close>), the options the engine is built with and
  the reading limit (\<open>scan.go\<close>), and the audit of the targets (\<open>scanned_targets.go\<close>). Pointers of the options are
  options here; the options of \<open>discover\<close> are those of \<open>scan\<close> with the other fields empty.
\<close>

subsection \<open>Overrides\<close>

record ScanOptions =
  op_Targets :: "string list"
  op_TargetsFile :: string
  op_Profile :: string
  op_Username :: string
  op_Password :: string
  op_SMBAuth :: string
  op_SMBCCache :: string
  op_Share :: "string list"
  op_ExcludeShare :: "string list"
  op_Path :: "string list"
  op_ExcludePath :: "string list"
  op_MaxDepth :: int
  op_Domain :: string
  op_RulesDirectory :: string
  op_WorkerCount :: int
  op_MaxFileSize :: int
  op_NoLDAP :: bool
  op_DomainController :: string
  op_BaseDN :: string
  op_LDAPAuth :: string
  op_LDAPTransport :: string
  op_DiscoverDFS :: bool
  op_PrioritizeADShares :: bool
  op_OnlyADShares :: bool
  op_Baseline :: string
  op_SeedManifest :: string
  op_ValidationMode :: bool
  op_MaxScanTime :: string
  op_CheckpointFile :: string
  op_Resume :: bool
  op_SkipReachabilityCheck :: bool
  op_ReachabilityTimeoutSeconds :: int
  op_SMBOperationTimeoutSeconds :: int
  op_OutputFormat :: string
  op_NoTUI :: bool
  op_JSONOut :: string
  op_HTMLOut :: string
  op_CSVOut :: string
  op_MDOut :: string
  op_CredsOut :: string
  op_ScannedTargetsOut :: string
  op_ReportBackupArtifacts :: bool
  op_WIMEnabled :: "bool option"
  op_WIMAutoMaxSize :: "int option"
  op_WIMAllowLarge :: "bool option"
  op_WIMMaxSize :: "int option"
  op_WIMMaxMembers :: "int option"
  op_WIMMaxMemberBytes :: "int option"
  op_WIMMaxTotalBytes :: "int option"
  op_LogLevel :: string

definition list_or :: "string list \<Rightarrow> string list \<Rightarrow> string list" where
  "list_or given cur = (if length given > 0 then given else cur)"

definition given_or :: "string \<Rightarrow> string \<Rightarrow> string" where
  "given_or given cur = (if trim_space given \<noteq> [] then given else cur)"

definition pass_or :: "string \<Rightarrow> string \<Rightarrow> string" where
  "pass_or given cur = (if given \<noteq> [] then given else cur)"

definition positive_over :: "int \<Rightarrow> int \<Rightarrow> int" where
  "positive_over given cur = (if given > 0 then given else cur)"

definition flag_or :: "bool \<Rightarrow> bool \<Rightarrow> bool" where
  "flag_or given cur = (if given then True else cur)"

definition pointer_or :: "'a option \<Rightarrow> 'a \<Rightarrow> 'a" where
  "pointer_or given cur = (case given of Some v \<Rightarrow> v | None \<Rightarrow> cur)"

definition override_scan :: "ScanOptions \<Rightarrow> ScanConfig \<Rightarrow> ScanConfig" where
  "override_scan opts s =
     s\<lparr>scn_Targets := list_or (op_Targets opts) (scn_Targets s),
       scn_Share := list_or (op_Share opts) (scn_Share s),
       scn_ExcludeShare := list_or (op_ExcludeShare opts) (scn_ExcludeShare s),
       scn_Path := list_or (op_Path opts) (scn_Path s),
       scn_ExcludePath := list_or (op_ExcludePath opts) (scn_ExcludePath s),
       scn_TargetsFile := given_or (op_TargetsFile opts) (scn_TargetsFile s),
       scn_Profile := given_or (op_Profile opts) (scn_Profile s),
       scn_Username := given_or (op_Username opts) (scn_Username s),
       scn_SMBAuth := given_or (op_SMBAuth opts) (scn_SMBAuth s),
       scn_SMBCCache := given_or (op_SMBCCache opts) (scn_SMBCCache s),
       scn_Domain := given_or (op_Domain opts) (scn_Domain s),
       scn_DomainController := given_or (op_DomainController opts) (scn_DomainController s),
       scn_BaseDN := given_or (op_BaseDN opts) (scn_BaseDN s),
       scn_LDAPAuth := given_or (op_LDAPAuth opts) (scn_LDAPAuth s),
       scn_LDAPTransport := given_or (op_LDAPTransport opts) (scn_LDAPTransport s),
       scn_Baseline := given_or (op_Baseline opts) (scn_Baseline s),
       scn_SeedManifest := given_or (op_SeedManifest opts) (scn_SeedManifest s),
       scn_MaxScanTime := given_or (op_MaxScanTime opts) (scn_MaxScanTime s),
       scn_CheckpointFile := given_or (op_CheckpointFile opts) (scn_CheckpointFile s),
       scn_Password := pass_or (op_Password opts) (scn_Password s),
       scn_MaxDepth := positive_over (op_MaxDepth opts) (scn_MaxDepth s),
       scn_WorkerCount := positive_over (op_WorkerCount opts) (scn_WorkerCount s),
       scn_MaxFileSize := positive_over (op_MaxFileSize opts) (scn_MaxFileSize s),
       scn_ReachabilityTimeoutSeconds := positive_over (op_ReachabilityTimeoutSeconds opts) (scn_ReachabilityTimeoutSeconds s),
       scn_SMBOperationTimeoutSeconds := positive_over (op_SMBOperationTimeoutSeconds opts) (scn_SMBOperationTimeoutSeconds s),
       scn_NoLDAP := flag_or (op_NoLDAP opts) (scn_NoLDAP s),
       scn_DiscoverDFS := flag_or (op_DiscoverDFS opts) (scn_DiscoverDFS s),
       scn_PrioritizeADShares := flag_or (op_PrioritizeADShares opts) (scn_PrioritizeADShares s),
       scn_OnlyADShares := flag_or (op_OnlyADShares opts) (scn_OnlyADShares s),
       scn_ValidationMode := flag_or (op_ValidationMode opts) (scn_ValidationMode s),
       scn_Resume := flag_or (op_Resume opts) (scn_Resume s),
       scn_SkipReachabilityCheck := flag_or (op_SkipReachabilityCheck opts) (scn_SkipReachabilityCheck s)\<rparr>"

definition override_wim :: "ScanOptions \<Rightarrow> WIMConfig \<Rightarrow> WIMConfig" where
  "override_wim opts w =
     w\<lparr>cw_Enabled := pointer_or (op_WIMEnabled opts) (cw_Enabled w),
       cw_AutoWIMMaxSize := pointer_or (op_WIMAutoMaxSize opts) (cw_AutoWIMMaxSize w),
       cw_AllowLargeWIMs := pointer_or (op_WIMAllowLarge opts) (cw_AllowLargeWIMs w),
       cw_MaxWIMSize := pointer_or (op_WIMMaxSize opts) (cw_MaxWIMSize w),
       cw_MaxMembers := pointer_or (op_WIMMaxMembers opts) (cw_MaxMembers w),
       cw_MaxMemberBytes := pointer_or (op_WIMMaxMemberBytes opts) (cw_MaxMemberBytes w),
       cw_MaxTotalBytes := pointer_or (op_WIMMaxTotalBytes opts) (cw_MaxTotalBytes w)\<rparr>"

definition override_output :: "ScanOptions \<Rightarrow> OutputConfig \<Rightarrow> OutputConfig" where
  "override_output opts u =
     u\<lparr>cu_Format := given_or (op_OutputFormat opts) (cu_Format u),
       cu_JSONOut := given_or (op_JSONOut opts) (cu_JSONOut u),
       cu_HTMLOut := given_or (op_HTMLOut opts) (cu_HTMLOut u),
       cu_CSVOut := given_or (op_CSVOut opts) (cu_CSVOut u),
       cu_MDOut := given_or (op_MDOut opts) (cu_MDOut u),
       cu_CredsOut := given_or (op_CredsOut opts) (cu_CredsOut u),
       cu_ScannedTargetsOut := given_or (op_ScannedTargetsOut opts) (cu_ScannedTargetsOut u),
       cu_NoTUI := flag_or (op_NoTUI opts) (cu_NoTUI u),
       cu_ReportBackupArtifacts := flag_or (op_ReportBackupArtifacts opts) (cu_ReportBackupArtifacts u)\<rparr>"

text \<open>The profile first; its error is dropped.\<close>

definition override_profile :: "ScanOptions \<Rightarrow> Config \<Rightarrow> Config" where
  "override_profile opts cfg =
     (if trim_space (op_Profile opts) \<noteq> []
      then (case ApplyScanProfile cfg (op_Profile opts) of Some c \<Rightarrow> c | None \<Rightarrow> cfg) else cfg)"

definition applyScanOverrides :: "Config \<Rightarrow> ScanOptions \<Rightarrow> Config" where
  "applyScanOverrides cfg0 opts =
     (let cfg = override_profile opts cfg0; a = cg_App cfg; r = cg_Rules cfg
      in cfg\<lparr>cg_Scan := override_scan opts (cg_Scan cfg), cg_WIM := override_wim opts (cg_WIM cfg),
             cg_Output := override_output opts (cg_Output cfg),
             cg_Rules := r\<lparr>cr_Directory := given_or (op_RulesDirectory opts) (cr_Directory r)\<rparr>,
             cg_App := a\<lparr>ap_LogLevel := given_or (op_LogLevel opts) (ap_LogLevel a)\<rparr>\<rparr>)"

definition applyDiscoverOverrides :: "ScanConfig \<Rightarrow> ScanOptions \<Rightarrow> ScanConfig" where
  "applyDiscoverOverrides s opts =
     s\<lparr>scn_Targets := list_or (op_Targets opts) (scn_Targets s),
       scn_TargetsFile := given_or (op_TargetsFile opts) (scn_TargetsFile s),
       scn_Username := given_or (op_Username opts) (scn_Username s),
       scn_Password := pass_or (op_Password opts) (scn_Password s),
       scn_Domain := given_or (op_Domain opts) (scn_Domain s),
       scn_NoLDAP := flag_or (op_NoLDAP opts) (scn_NoLDAP s),
       scn_DomainController := given_or (op_DomainController opts) (scn_DomainController s),
       scn_BaseDN := given_or (op_BaseDN opts) (scn_BaseDN s),
       scn_LDAPAuth := given_or (op_LDAPAuth opts) (scn_LDAPAuth s),
       scn_LDAPTransport := given_or (op_LDAPTransport opts) (scn_LDAPTransport s),
       scn_DiscoverDFS := flag_or (op_DiscoverDFS opts) (scn_DiscoverDFS s),
       scn_SkipReachabilityCheck := flag_or (op_SkipReachabilityCheck opts) (scn_SkipReachabilityCheck s),
       scn_ReachabilityTimeoutSeconds := positive_over (op_ReachabilityTimeoutSeconds opts) (scn_ReachabilityTimeoutSeconds s)\<rparr>"

subsection \<open>What is accepted\<close>

datatype config_rejected =
    UnsupportedSMBAuth string | MissingUsername | MissingPassword | BadMaxScanTime duration_error | NegativeLimit string
  | ResumeWithoutCheckpoint | LimitOrder string | ZeroWIMLimit string | SuppressionMissingID nat | SuppressionDuplicate string
  | SuppressionMissingReason string | SuppressionNoCriteria string | BadOutputFormat string | MissingJSONOut | MissingHTMLOut

definition normalizeAuthMethod :: "string \<Rightarrow> string" where
  "normalizeAuthMethod value0 =
     (let v = to_lower (trim_space value0) in
      if v = [] \<or> v = ''ntlm'' then ''ntlm''
      else if v \<in> set [''kerberos'', ''krb5'', ''gssapi''] then ''kerberos'' else [])"

definition ldapAuthCanUseCurrentCredentials :: "string \<Rightarrow> bool" where
  "ldapAuthCanUseCurrentCredentials value0 =
     (to_lower (trim_space value0) \<in> set [''gssapi'', ''kerberos'', ''negotiate'', ''sspi''])"

text \<open>The first check that fails, in the order of the code.\<close>

fun first_failure :: "(bool \<times> config_rejected) list \<Rightarrow> config_rejected option" where
  "first_failure [] = None"
| "first_failure ((bad, err) # checks) = (if bad then Some err else first_failure checks)"

definition no_criteria :: "SuppressionRule \<Rightarrow> bool" where
  "no_criteria r \<longleftrightarrow> sr_Hosts r = [] \<and> sr_Shares r = [] \<and> sr_RuleIDs r = [] \<and> sr_Categories r = [] \<and> sr_ExactPaths r = [] \<and>
     sr_PathPrefixes r = [] \<and> sr_PathContains r = [] \<and> sr_Fingerprints r = [] \<and> sr_Tags r = []"

fun check_suppression :: "nat \<Rightarrow> string list \<Rightarrow> SuppressionRule list \<Rightarrow> config_rejected option" where
  "check_suppression idx seen [] = None"
| "check_suppression idx seen (r # rs) =
     (if \<not> sr_Enabled r then check_suppression (Suc idx) seen rs
      else if trim_space (sr_ID r) = [] then Some (SuppressionMissingID idx)
      else
        let key = to_lower (trim_space (sr_ID r)) in
        if key \<in> set seen then Some (SuppressionDuplicate (sr_ID r))
        else if trim_space (sr_Reason r) = [] then Some (SuppressionMissingReason (sr_ID r))
        else if no_criteria r then Some (SuppressionNoCriteria (sr_ID r))
        else check_suppression (Suc idx) (key # seen) rs)"

definition check_output :: "OutputConfig \<Rightarrow> config_rejected option" where
  "check_output u =
     (case ParseOutputFormat (cu_Format u) of
        None \<Rightarrow> Some (BadOutputFormat (cu_Format u))
      | Some sel \<Rightarrow>
          if of_JSON sel \<and> trim_space (cu_JSONOut u) = [] then Some MissingJSONOut
          else if of_HTML sel \<and> trim_space (cu_HTMLOut u) = [] then Some MissingHTMLOut
          else None)"

definition archive_checks :: "ArchiveConfig \<Rightarrow> (bool \<times> config_rejected) list" where
  "archive_checks a =
     [(ca_AutoZIPMaxSize a < 0, NegativeLimit ''archives.auto_zip_max_size''),
      (ca_MaxZIPSize a < 0, NegativeLimit ''archives.max_zip_size''),
      (ca_AutoTARMaxSize a < 0, NegativeLimit ''archives.auto_tar_max_size''),
      (ca_MaxTARSize a < 0, NegativeLimit ''archives.max_tar_size''),
      (ca_MaxMembers a < 0, NegativeLimit ''archives.max_members''),
      (ca_MaxMemberBytes a < 0, NegativeLimit ''archives.max_member_bytes''),
      (ca_MaxTotalUncompressed a < 0, NegativeLimit ''archives.max_total_uncompressed_bytes''),
      (ca_AllowLargeZIPs a \<and> ca_MaxZIPSize a > 0 \<and> ca_MaxZIPSize a < ca_AutoZIPMaxSize a, LimitOrder ''archives.max_zip_size''),
      (ca_AllowLargeTARs a \<and> ca_MaxTARSize a > 0 \<and> ca_MaxTARSize a < ca_AutoTARMaxSize a, LimitOrder ''archives.max_tar_size'')]"

definition wim_checks :: "WIMConfig \<Rightarrow> (bool \<times> config_rejected) list" where
  "wim_checks w =
     [(cw_AutoWIMMaxSize w < 0, NegativeLimit ''wim.auto_wim_max_size''),
      (cw_MaxWIMSize w < 0, NegativeLimit ''wim.max_wim_size''),
      (cw_MaxMembers w < 0, NegativeLimit ''wim.max_members''),
      (cw_MaxMemberBytes w < 0, NegativeLimit ''wim.max_member_bytes''),
      (cw_MaxTotalBytes w < 0, NegativeLimit ''wim.max_total_bytes''),
      (cw_Enabled w \<and> cw_AutoWIMMaxSize w = 0, ZeroWIMLimit ''wim.auto_wim_max_size''),
      (cw_Enabled w \<and> cw_MaxWIMSize w = 0, ZeroWIMLimit ''wim.max_wim_size''),
      (cw_Enabled w \<and> cw_MaxMembers w = 0, ZeroWIMLimit ''wim.max_members''),
      (cw_Enabled w \<and> cw_MaxMemberBytes w = 0, ZeroWIMLimit ''wim.max_member_bytes''),
      (cw_Enabled w \<and> cw_MaxTotalBytes w = 0, ZeroWIMLimit ''wim.max_total_bytes''),
      (cw_MaxWIMSize w < cw_AutoWIMMaxSize w, LimitOrder ''wim.max_wim_size''),
      (cw_MaxTotalBytes w < cw_MaxMemberBytes w, LimitOrder ''wim.max_total_bytes'')]"

definition validateScanConfig :: "(string \<Rightarrow> int option) \<Rightarrow> Config \<Rightarrow> config_rejected option" where
  "validateScanConfig parse_duration cfg =
     (let s = cg_Scan cfg; smbAuth = normalizeAuthMethod (scn_SMBAuth s) in
      if smbAuth = [] then Some (UnsupportedSMBAuth (scn_SMBAuth s))
      else if smbAuth = ''ntlm'' \<and> trim_space (scn_Username s) = [] then Some MissingUsername
      else if smbAuth = ''ntlm'' \<and> scn_Password s = [] then Some MissingPassword
      else case MaxScanDuration parse_duration s of
             Inl err \<Rightarrow> Some (BadMaxScanTime err)
           | Inr _ \<Rightarrow>
               (case first_failure ([(scn_MaxDepth s < 0, NegativeLimit ''max_depth''),
                    (scn_Resume s \<and> trim_space (scn_CheckpointFile s) = [], ResumeWithoutCheckpoint)] @
                    archive_checks (cg_Archives cfg) @ wim_checks (cg_WIM cfg) @
                    [(csu_SampleLimit (cg_Suppression cfg) < 0, NegativeLimit ''suppression.sample_limit'')]) of
                  Some err \<Rightarrow> Some err
                | None \<Rightarrow>
                    (case check_suppression 0 [] (csu_Rules (cg_Suppression cfg)) of
                       Some err \<Rightarrow> Some err
                     | None \<Rightarrow> check_output (cg_Output cfg))))"

datatype discover_rejected = NoTargets | NeedsUsername | NeedsPassword

definition validateDiscoverConfig :: "ScanConfig \<Rightarrow> discover_rejected option" where
  "validateDiscoverConfig s =
     (let no_file = (trim_space (scn_TargetsFile s) = []);
          needsLDAPCreds = ((\<not> scn_NoLDAP s \<and> scn_Targets s = [] \<and> no_file) \<or> scn_DiscoverDFS s);
          own = ldapAuthCanUseCurrentCredentials (scn_LDAPAuth s)
      in if scn_Targets s = [] \<and> no_file \<and> scn_NoLDAP s then Some NoTargets
         else if needsLDAPCreds \<and> \<not> own \<and> trim_space (scn_Username s) = [] then Some NeedsUsername
         else if needsLDAPCreds \<and> \<not> own \<and> scn_Password s = [] then Some NeedsPassword
         else None)"

definition requiresLDAPPreflight :: "ScanConfig \<Rightarrow> bool" where
  "requiresLDAPPreflight s \<longleftrightarrow>
     (let explicit = (length (scn_Targets s) > 0 \<or> trim_space (scn_TargetsFile s) \<noteq> [])
      in (\<not> scn_NoLDAP s \<and> \<not> explicit) \<or> scn_DiscoverDFS s)"

subsection \<open>The engine of a scan\<close>

definition raise_limit :: "int \<Rightarrow> bool \<times> int \<Rightarrow> int" where
  "raise_limit limit cv = (if fst cv \<and> snd cv > limit then snd cv else limit)"

definition read_sizes :: "Config \<Rightarrow> (bool \<times> int) list" where
  "read_sizes cfg =
     (let a = cg_Archives cfg; w = cg_WIM cfg; q = cg_SQLite cfg in
      [(ca_Enabled a, ca_AutoZIPMaxSize a), (ca_Enabled a \<and> ca_AllowLargeZIPs a, ca_MaxZIPSize a),
       (ca_Enabled a, ca_AutoTARMaxSize a), (ca_Enabled a \<and> ca_AllowLargeTARs a, ca_MaxTARSize a),
       (cw_Enabled w, cw_AutoWIMMaxSize w), (cw_Enabled w \<and> cw_AllowLargeWIMs w, cw_MaxWIMSize w),
       (cq_Enabled q, cq_AutoDBMaxSize q), (cq_Enabled q \<and> cq_AllowLargeDBs q, cq_MaxDBSize q)])"

definition scanReadLimit :: "Config \<Rightarrow> int" where
  "scanReadLimit cfg = foldl raise_limit (scn_MaxFileSize (cg_Scan cfg)) (read_sizes cfg)"

definition engine_options :: "Config \<Rightarrow> EngineOptions" where
  "engine_options cfg =
     (let a = cg_Archives cfg; w = cg_WIM cfg; q = cg_SQLite cfg in
      \<lparr>go_Workers = scn_WorkerCount (cg_Scan cfg), go_MaxFileSizeBytes = scn_MaxFileSize (cg_Scan cfg),
       go_MaxReadBytes = scanReadLimit cfg, go_SnippetBytes = 120,
       go_Archives = \<lparr>ao_Enabled = ca_Enabled a, ao_AutoZIPMaxSize = word_of_int (ca_AutoZIPMaxSize a),
         ao_AllowLargeZIPs = ca_AllowLargeZIPs a, ao_MaxZIPSize = word_of_int (ca_MaxZIPSize a),
         ao_AutoTARMaxSize = word_of_int (ca_AutoTARMaxSize a), ao_AllowLargeTARs = ca_AllowLargeTARs a,
         ao_MaxTARSize = word_of_int (ca_MaxTARSize a), ao_MaxMembers = ca_MaxMembers a,
         ao_MaxMemberBytes = word_of_int (ca_MaxMemberBytes a),
         ao_MaxTotalUncompressed = word_of_int (ca_MaxTotalUncompressed a),
         ao_InspectExtensionlessText = ca_InspectExtensionlessText a\<rparr>,
       go_WIM = \<lparr>wo_Enabled = cw_Enabled w, wo_AutoWIMMaxSize = word_of_int (cw_AutoWIMMaxSize w),
         wo_AllowLargeWIMs = cw_AllowLargeWIMs w, wo_MaxWIMSize = word_of_int (cw_MaxWIMSize w),
         wo_MaxMembers = cw_MaxMembers w, wo_MaxMemberBytes = word_of_int (cw_MaxMemberBytes w),
         wo_MaxTotalBytes = word_of_int (cw_MaxTotalBytes w)\<rparr>,
       go_SQLite = \<lparr>so_Enabled = cq_Enabled q, so_AutoDBMaxSize = cq_AutoDBMaxSize q, so_AllowLargeDBs = cq_AllowLargeDBs q,
         so_MaxDBSize = cq_MaxDBSize q, so_MaxTables = cq_MaxTables q, so_MaxRowsPerTable = cq_MaxRowsPerTable q,
         so_MaxCellBytes = cq_MaxCellBytes q, so_MaxTotalBytes = cq_MaxTotalBytes q,
         so_MaxInterestingCols = cq_MaxInterestingCols q\<rparr>,
       go_ValidationMode = scn_ValidationMode (cg_Scan cfg)\<rparr>)"

text \<open>The sizes of a configuration are 64-bit numbers.\<close>

definition int64_range :: "int \<Rightarrow> bool" where "int64_range v \<longleftrightarrow> - (2 ^ 63) \<le> v \<and> v < 2 ^ 63"

definition config_int64 :: "Config \<Rightarrow> bool" where
  "config_int64 cfg \<longleftrightarrow>
     (let a = cg_Archives cfg; w = cg_WIM cfg in
      int64_range (ca_AutoZIPMaxSize a) \<and> int64_range (ca_MaxZIPSize a) \<and> int64_range (ca_AutoTARMaxSize a) \<and>
      int64_range (ca_MaxTARSize a) \<and> int64_range (cw_AutoWIMMaxSize w) \<and> int64_range (cw_MaxWIMSize w))"

lemma sint_int64: "int64_range v \<Longrightarrow> sint (word_of_int v :: int64) = v"
  by (simp add: int64_range_def signed_of_int signed_take_bit_int_eq_self)

text \<open>Whatever the engine may read fits the limit: each source of the limit is below it.\<close>

lemma raise_limit_fold:
  "limit \<le> foldl raise_limit limit cvs \<and> (\<forall>(c, v) \<in> set cvs. c \<longrightarrow> v \<le> foldl raise_limit limit cvs)"
proof (induction cvs arbitrary: limit)
  case (Cons cv cvs)
  have "limit \<le> raise_limit limit cv" "fst cv \<Longrightarrow> snd cv \<le> raise_limit limit cv" by (auto simp: raise_limit_def)
  then show ?case using Cons [of "raise_limit limit cv"] by (auto split: prod.splits)
qed simp

lemma scanReadLimit_ge:
  "scn_MaxFileSize (cg_Scan cfg) \<le> scanReadLimit cfg"
  "(True, v) \<in> set (read_sizes cfg) \<Longrightarrow> v \<le> scanReadLimit cfg"
  using raise_limit_fold [of "scn_MaxFileSize (cg_Scan cfg)" "read_sizes cfg"] by (auto simp: scanReadLimit_def)

lemma read_limits:
  "ca_Enabled (cg_Archives cfg) \<Longrightarrow> ca_AutoZIPMaxSize (cg_Archives cfg) \<le> scanReadLimit cfg"
  "ca_Enabled (cg_Archives cfg) \<Longrightarrow> ca_AllowLargeZIPs (cg_Archives cfg) \<Longrightarrow> ca_MaxZIPSize (cg_Archives cfg) \<le> scanReadLimit cfg"
  "ca_Enabled (cg_Archives cfg) \<Longrightarrow> ca_AutoTARMaxSize (cg_Archives cfg) \<le> scanReadLimit cfg"
  "ca_Enabled (cg_Archives cfg) \<Longrightarrow> ca_AllowLargeTARs (cg_Archives cfg) \<Longrightarrow> ca_MaxTARSize (cg_Archives cfg) \<le> scanReadLimit cfg"
  "cw_Enabled (cg_WIM cfg) \<Longrightarrow> cw_AutoWIMMaxSize (cg_WIM cfg) \<le> scanReadLimit cfg"
  "cw_Enabled (cg_WIM cfg) \<Longrightarrow> cw_AllowLargeWIMs (cg_WIM cfg) \<Longrightarrow> cw_MaxWIMSize (cg_WIM cfg) \<le> scanReadLimit cfg"
  "cq_Enabled (cg_SQLite cfg) \<Longrightarrow> cq_AutoDBMaxSize (cg_SQLite cfg) \<le> scanReadLimit cfg"
  "cq_Enabled (cg_SQLite cfg) \<Longrightarrow> cq_AllowLargeDBs (cg_SQLite cfg) \<Longrightarrow> cq_MaxDBSize (cg_SQLite cfg) \<le> scanReadLimit cfg"
  by (rule scanReadLimit_ge(2), simp add: read_sizes_def Let_def)+

lemma word_or_pos: "int64_range v \<Longrightarrow> 0 < v \<Longrightarrow> word_or (word_of_int v) d = word_of_int v"
  by (simp add: word_or_def word_sle_eq sint_int64)

lemma sized: "int64_range a \<Longrightarrow> int64_range b \<Longrightarrow> (word_of_int a :: int64) <=s word_of_int b \<longleftrightarrow> a \<le> b"
  "int64_range a \<Longrightarrow> int64_range b \<Longrightarrow> (word_of_int a :: int64) <s word_of_int b \<longleftrightarrow> a < b"
  "int64_range b \<Longrightarrow> 0 <s (word_of_int b :: int64) \<longleftrightarrow> 0 < b"
  by (simp_all add: word_sle_eq word_sless_alt sint_int64)

lemma config_archives:
  assumes "config_ok cfg" "config_int64 cfg"
  shows "let o' = resolveArchiveOptions (go_Archives (engine_options cfg)); o0 = go_Archives (engine_options cfg) in
    ao_Enabled o' = ao_Enabled o0 \<and> ao_AutoZIPMaxSize o' = ao_AutoZIPMaxSize o0 \<and> ao_MaxZIPSize o' = ao_MaxZIPSize o0 \<and>
    ao_AutoTARMaxSize o' = ao_AutoTARMaxSize o0 \<and> ao_MaxTARSize o' = ao_MaxTARSize o0 \<and>
    ao_AllowLargeZIPs o' = ao_AllowLargeZIPs o0 \<and> ao_AllowLargeTARs o' = ao_AllowLargeTARs o0"
proof -
  let ?a = "cg_Archives cfg"
  have r: "int64_range (ca_AutoZIPMaxSize ?a)" "int64_range (ca_MaxZIPSize ?a)" "int64_range (ca_AutoTARMaxSize ?a)"
    "int64_range (ca_MaxTARSize ?a)" using assms(2) by (simp_all add: config_int64_def Let_def)
  have p: "0 < ca_AutoZIPMaxSize ?a" "0 < ca_MaxZIPSize ?a" "0 < ca_AutoTARMaxSize ?a" "0 < ca_MaxTARSize ?a"
    using assms(1) by (simp_all add: config_ok_def archives_ok_def)
  have "sint (word_of_int (ca_AutoZIPMaxSize ?a) :: int64) \<noteq> 0" using sint_int64 [OF r(1)] p(1) by simp
  then have "(word_of_int (ca_AutoZIPMaxSize ?a) :: int64) \<noteq> 0" by auto
  then have "\<not> no_archive_options (go_Archives (engine_options cfg))"
    by (simp add: no_archive_options_def engine_options_def Let_def)
  then show ?thesis
    using word_or_pos r p by (simp add: resolveArchiveOptions_def Let_def) (simp add: engine_options_def Let_def)
qed

lemma engine_parts:
  "go_Archives (en_opts (NewEngine g opts manager observed)) = resolveArchiveOptions (go_Archives opts)"
  "en_wim (NewEngine g opts manager observed) = go_WIM opts"
  "go_SQLite (en_opts (NewEngine g opts manager observed)) = go_SQLite opts"
  "go_MaxFileSizeBytes (en_opts (NewEngine g opts manager observed)) = go_MaxFileSizeBytes opts"
  by (simp_all add: NewEngine_def Let_def split_beta)

lemma Normalized_Size [simp]: "m_Size (Normalized meta) = m_Size meta"
  by (simp add: Normalized_def Let_def)

lemma archive_fits:
  assumes ok: "config_ok cfg" "config_int64 cfg" and sz: "int64_range (m_Size m)"
    and "fst (archiveDecision (NewEngine g (engine_options cfg) manager observed) m)"
  shows "m_Size m \<le> scanReadLimit cfg"
proof -
  let ?a = "cg_Archives cfg" and ?o = "resolveArchiveOptions (go_Archives (engine_options cfg))"
  have r: "int64_range (ca_AutoZIPMaxSize ?a)" "int64_range (ca_MaxZIPSize ?a)" "int64_range (ca_AutoTARMaxSize ?a)"
    "int64_range (ca_MaxTARSize ?a)" using ok(2) by (simp_all add: config_int64_def Let_def)
  have p: "0 < ca_AutoZIPMaxSize ?a" "0 < ca_MaxZIPSize ?a" "0 < ca_AutoTARMaxSize ?a" "0 < ca_MaxTARSize ?a"
    using ok(1) by (simp_all add: config_ok_def archives_ok_def)
  have o: "ao_Enabled ?o = ca_Enabled ?a" "ao_AutoZIPMaxSize ?o = word_of_int (ca_AutoZIPMaxSize ?a)"
    "ao_MaxZIPSize ?o = word_of_int (ca_MaxZIPSize ?a)" "ao_AutoTARMaxSize ?o = word_of_int (ca_AutoTARMaxSize ?a)"
    "ao_MaxTARSize ?o = word_of_int (ca_MaxTARSize ?a)" "ao_AllowLargeZIPs ?o = ca_AllowLargeZIPs ?a"
    "ao_AllowLargeTARs ?o = ca_AllowLargeTARs ?a"
    using config_archives [OF ok] by (simp_all add: engine_options_def Let_def)
  let ?c = "\<lparr>ac_Name = m_Name m, ac_Extension = m_Extension m, ac_Size = word_of_int (m_Size m)\<rparr>"
  have c: "ac_Size ?c = word_of_int (m_Size m)" "fst (ShouldInspect ?c ?o)"
    using assms(4) by (simp_all add: archiveDecision_def engine_parts split_beta split: if_splits)
  have "ca_Enabled ?a \<and> (m_Size m \<le> ca_AutoZIPMaxSize ?a \<or> (ca_AllowLargeZIPs ?a \<and> m_Size m \<le> ca_MaxZIPSize ?a) \<or>
      m_Size m \<le> ca_AutoTARMaxSize ?a \<or> (ca_AllowLargeTARs ?a \<and> m_Size m \<le> ca_MaxTARSize ?a))"
    using c r p sz by (auto simp: ShouldInspect_def Let_def o sized split: if_splits)
  then show ?thesis using read_limits [of cfg] by (elim conjE disjE) simp_all
qed

lemma wim_fits:
  assumes ok: "config_ok cfg" "config_int64 cfg" and sz: "int64_range (m_Size m)"
    and "fst (wimDecision (NewEngine g (engine_options cfg) manager observed) m)"
  shows "m_Size m \<le> scanReadLimit cfg"
proof -
  let ?w = "cg_WIM cfg" and ?o = "go_WIM (engine_options cfg)"
  have r: "int64_range (cw_AutoWIMMaxSize ?w)" "int64_range (cw_MaxWIMSize ?w)"
    using ok(2) by (simp_all add: config_int64_def Let_def)
  have p: "0 < cw_AutoWIMMaxSize ?w" "0 < cw_MaxWIMSize ?w" using ok(1) by (simp_all add: config_ok_def wim_ok_def)
  have o: "wo_Enabled ?o = cw_Enabled ?w" "wo_AutoWIMMaxSize ?o = word_of_int (cw_AutoWIMMaxSize ?w)"
    "wo_MaxWIMSize ?o = word_of_int (cw_MaxWIMSize ?w)" "wo_AllowLargeWIMs ?o = cw_AllowLargeWIMs ?w"
    by (simp_all add: engine_options_def Let_def)
  let ?c = "\<lparr>wc_Name = m_Name m, wc_Extension = m_Extension m, wc_Size = word_of_int (m_Size m)\<rparr>"
  have c: "wc_Size ?c = word_of_int (m_Size m)" "fst (wim_ShouldInspect ?c ?o)"
    using assms(4) by (simp_all add: wimDecision_def engine_parts split_beta split: if_splits)
  have "cw_Enabled ?w \<and> (m_Size m \<le> cw_AutoWIMMaxSize ?w \<or> (cw_AllowLargeWIMs ?w \<and> m_Size m \<le> cw_MaxWIMSize ?w))"
    using c r p sz by (auto simp: wim_ShouldInspect_def Let_def o sized split: if_splits)
  then show ?thesis using read_limits [of cfg] by (elim conjE disjE) simp_all
qed

lemma sqlite_fits:
  assumes ok: "config_ok cfg" and "fst (sqliteDecision (NewEngine g (engine_options cfg) manager observed) m)"
  shows "m_Size m \<le> scanReadLimit cfg"
proof -
  let ?q = "cg_SQLite cfg" and ?o = "sqlite_resolveOptions (go_SQLite (engine_options cfg))"
  have p: "0 < cq_AutoDBMaxSize ?q" "0 < cq_MaxDBSize ?q" using ok by (simp_all add: config_ok_def sqlite_ok_def)
  have o: "so_Enabled ?o = cq_Enabled ?q" "so_AutoDBMaxSize ?o = cq_AutoDBMaxSize ?q" "so_MaxDBSize ?o = cq_MaxDBSize ?q"
    "so_AllowLargeDBs ?o = cq_AllowLargeDBs ?q"
    using p by (auto simp: sqlite_resolveOptions_def no_sqlite_options_def engine_options_def positive_or_def Let_def)
  have c: "fst (sqlite_ShouldInspect (sqliteCandidate m) (go_SQLite (engine_options cfg)))" "cd_Size (sqliteCandidate m) = m_Size m"
    using assms(2) by (simp_all add: sqliteDecision_def engine_parts sqliteCandidate_def split_beta split: if_splits)
  have "cq_Enabled ?q \<and> (m_Size m \<le> cq_AutoDBMaxSize ?q \<or> (cq_AllowLargeDBs ?q \<and> m_Size m \<le> cq_MaxDBSize ?q))"
    using c p unfolding sqlite_ShouldInspect_def Let_def o by (simp split: if_splits) blast?
  then show ?thesis using read_limits [of cfg] by (elim conjE disjE) simp_all
qed

text \<open>
  C8: The reading limit of a scan is large enough: for a configuration that was loaded, every file whose
  content the engine asks for, as a plain file, an archive, an image or a database, has a size within the
  limit the SMB client reads up to.
\<close>

theorem wanted_content_fits_limit:
  assumes "Load env y path = Inr cfg" and "config_int64 cfg" and "int64_range (m_Size meta)"
    and "NeedsContent lib (NewEngine g (engine_options cfg) manager observed) meta"
  shows "m_Size meta \<le> scanReadLimit cfg"
proof -
  have ok: "config_ok cfg"
    using assms(1) by (rule Load_ok)
  let ?e = "NewEngine g (engine_options cfg) manager observed" and ?m = "Normalized meta"
  have sz: "int64_range (m_Size ?m)" using assms(3) by simp
  have "fst (archiveDecision ?e ?m) \<or> fst (wimDecision ?e ?m) \<or> fst (sqliteDecision ?e ?m) \<or> \<not> oversized ?e ?m"
    using assms(4) by (auto simp: NeedsContent_def Let_def split: if_splits prod.splits bool.splits)
  moreover have "m_Size ?m \<le> scanReadLimit cfg" if "\<not> oversized ?e ?m"
  proof -
    have "0 < scn_MaxFileSize (cg_Scan cfg)" using ok by (simp add: config_ok_def scan_ok_def)
    then have "m_Size ?m \<le> scn_MaxFileSize (cg_Scan cfg)"
      using that by (simp add: oversized_def engine_parts) (simp add: engine_options_def Let_def)
    then show ?thesis using scanReadLimit_ge(1) [of cfg] by simp
  qed
  ultimately have "m_Size ?m \<le> scanReadLimit cfg"
    using archive_fits [OF ok assms(2) sz] wim_fits [OF ok assms(2) sz] sqlite_fits [OF ok] by blast
  then show ?thesis by simp
qed

lemma default_int64: "config_int64 (Default env)"
  by (simp add: config_int64_def Default_def applyPathContext_def default_archives_def default_wim_def int64_range_def Let_def)

subsection \<open>What the overrides do\<close>

lemma override_idem:
  "list_or g (list_or g c) = list_or g c" "given_or t (given_or t u) = given_or t u" "pass_or t (pass_or t u) = pass_or t u"
  "positive_over n (positive_over n k) = positive_over n k" "flag_or a (flag_or a b) = flag_or a b"
  "pointer_or p (pointer_or p x) = pointer_or p x"
  by (auto simp: list_or_def given_or_def pass_or_def positive_over_def flag_or_def pointer_or_def split: option.splits)

lemma override_sections_idem:
  "override_scan opts (override_scan opts s) = override_scan opts s"
  "override_wim opts (override_wim opts w) = override_wim opts w"
  "override_output opts (override_output opts u) = override_output opts u"
  by (simp_all add: override_scan_def override_wim_def override_output_def override_idem)

text \<open>What a profile changes does not depend on what the command line has changed before.\<close>

lemma override_profile_after:
  assumes "cg_Archives cfg1 = cg_Archives (override_profile opts cfg)" "cg_SQLite cfg1 = cg_SQLite (override_profile opts cfg)"
  shows "cg_Archives (override_profile opts cfg1) = cg_Archives cfg1 \<and> cg_SQLite (override_profile opts cfg1) = cg_SQLite cfg1"
  using assms by (auto simp: override_profile_def ApplyScanProfile_def set_profile_def Let_def split: if_splits)

text \<open>
  A profile the program does not know is accepted from the command line: nothing of the configuration
  changes with it, the limits stay those of the file, the run reports the name that was given, and the
  validation does not object to it.
\<close>

theorem unknown_profile_accepted:
  assumes "trim_space (op_Profile opts) \<noteq> []" and "ApplyScanProfile cfg (op_Profile opts) = None"
  shows "scn_Profile (cg_Scan (applyScanOverrides cfg opts)) = op_Profile opts \<and>
    cg_Archives (applyScanOverrides cfg opts) = cg_Archives cfg \<and> cg_SQLite (applyScanOverrides cfg opts) = cg_SQLite cfg \<and>
    applyScanOverrides cfg opts = (applyScanOverrides cfg (opts\<lparr>op_Profile := []\<rparr>))\<lparr>cg_Scan :=
      (cg_Scan (applyScanOverrides cfg (opts\<lparr>op_Profile := []\<rparr>)))\<lparr>scn_Profile := op_Profile opts\<rparr>\<rparr> \<and>
    validateScanConfig pd (applyScanOverrides cfg opts) = validateScanConfig pd (applyScanOverrides cfg (opts\<lparr>op_Profile := []\<rparr>))"
proof -
  have p: "override_profile opts cfg = cfg" using assms by (simp add: override_profile_def)
  have q: "override_profile (opts\<lparr>op_Profile := []\<rparr>) cfg = cfg" by (simp add: override_profile_def)
  have w: "override_wim (opts\<lparr>op_Profile := []\<rparr>) = override_wim opts" "override_output (opts\<lparr>op_Profile := []\<rparr>) = override_output opts"
    by (intro ext; simp add: override_wim_def override_output_def)+
  have s: "override_scan opts c = (override_scan (opts\<lparr>op_Profile := []\<rparr>) c)\<lparr>scn_Profile := op_Profile opts\<rparr>" for c
    using assms(1) by (simp add: override_scan_def given_or_def)
  have eq: "applyScanOverrides cfg opts = (applyScanOverrides cfg (opts\<lparr>op_Profile := []\<rparr>))\<lparr>cg_Scan :=
      (cg_Scan (applyScanOverrides cfg (opts\<lparr>op_Profile := []\<rparr>)))\<lparr>scn_Profile := op_Profile opts\<rparr>\<rparr>"
    by (simp add: applyScanOverrides_def p q w s Let_def)
  have m: "MaxScanDuration pd (c\<lparr>scn_Profile := v\<rparr>) = MaxScanDuration pd c" for c v by (simp add: MaxScanDuration_def)
  have vld: "validateScanConfig pd (c\<lparr>cg_Scan := (cg_Scan c)\<lparr>scn_Profile := v\<rparr>\<rparr>) = validateScanConfig pd c" for c v
    by (simp add: validateScanConfig_def m Let_def cong: option.case_cong sum.case_cong)
  have "scn_Profile (cg_Scan (applyScanOverrides cfg opts)) = op_Profile opts"
    "cg_Archives (applyScanOverrides cfg opts) = cg_Archives cfg" "cg_SQLite (applyScanOverrides cfg opts) = cg_SQLite cfg"
    using assms(1) by (simp_all add: applyScanOverrides_def override_scan_def given_or_def p Let_def)
  moreover have "validateScanConfig pd (applyScanOverrides cfg opts) = validateScanConfig pd (applyScanOverrides cfg (opts\<lparr>op_Profile := []\<rparr>))"
    by (subst eq) (rule vld)
  ultimately show ?thesis using eq by blast
qed

text \<open>The options of a run without any flag.\<close>

definition no_options :: ScanOptions where
  "no_options = \<lparr>op_Targets = [], op_TargetsFile = [], op_Profile = [], op_Username = [], op_Password = [],
     op_SMBAuth = [], op_SMBCCache = [], op_Share = [], op_ExcludeShare = [], op_Path = [],
     op_ExcludePath = [], op_MaxDepth = 0, op_Domain = [], op_RulesDirectory = [], op_WorkerCount = 0,
     op_MaxFileSize = 0, op_NoLDAP = False, op_DomainController = [], op_BaseDN = [], op_LDAPAuth = [],
     op_LDAPTransport = [], op_DiscoverDFS = False, op_PrioritizeADShares = False, op_OnlyADShares = False,
     op_Baseline = [], op_SeedManifest = [], op_ValidationMode = False, op_MaxScanTime = [],
     op_CheckpointFile = [], op_Resume = False, op_SkipReachabilityCheck = False,
     op_ReachabilityTimeoutSeconds = 0, op_SMBOperationTimeoutSeconds = 0, op_OutputFormat = [],
     op_NoTUI = False, op_JSONOut = [], op_HTMLOut = [], op_CSVOut = [], op_MDOut = [], op_CredsOut = [],
     op_ScannedTargetsOut = [], op_ReportBackupArtifacts = False, op_WIMEnabled = None,
     op_WIMAutoMaxSize = None, op_WIMAllowLarge = None, op_WIMMaxSize = None, op_WIMMaxMembers = None,
     op_WIMMaxMemberBytes = None, op_WIMMaxTotalBytes = None, op_LogLevel = []\<rparr>"

theorem unknown_profile_accepted_witness:
  "scn_Profile (cg_Scan (applyScanOverrides (Default demo_env) (no_options\<lparr>op_Profile := ''agressive''\<rparr>))) = ''agressive''"
proof -
  have t: "trim_space ''agressive'' \<noteq> []" "normalizeProfile ''agressive'' = ''agressive''" by code_simp+
  have "ApplyScanProfile (Default demo_env) ''agressive'' = None" by (simp add: ApplyScanProfile_def t)
  then show ?thesis
    using unknown_profile_accepted [of "no_options\<lparr>op_Profile := ''agressive''\<rparr>" "Default demo_env"] t
    by (simp add: no_options_def)
qed


text \<open>Without a configuration file the defaults are loaded; one file the engine of them reads.\<close>

lemma load_default: "Load env y [] = Inr (Default env)"
proof -
  have "applyDefaults (Default env) = Default env"
    by (simp add: applyDefaults_def Default_def applyPathContext_def Let_def default_sections_ok defaults_fixed
        text_or_def limit_or_def default_output_def)
  moreover have "trim_space [] = []" by code_simp
  ultimately show ?thesis
    by (simp add: Load_def resolveConfigPath_def) (simp add: Default_def applyPathContext_def)
qed

definition wanted_meta :: FileMetadata where
  "wanted_meta = aws_meta\<lparr>m_Size := 100\<rparr>"

lemma wanted_content: "NeedsContent engine_demo_library (NewEngine 2 (engine_options (Default demo_env)) None False) wanted_meta"
  by code_simp

theorem wanted_content_fits_limit_witness: "m_Size wanted_meta \<le> scanReadLimit (Default demo_env)"
  by (rule wanted_content_fits_limit [OF load_default default_int64 _ wanted_content])
    (simp add: wanted_meta_def aws_meta_def demo_meta_def int64_range_def)

end
