(* ===== verification/HostScan.thy ===== *)
theory HostScan
  imports StateManager Pool Runtime
begin

text \<open>
  The scan of one host (\<open>internal/app/scan.go\<close>, \<open>scanHost\<close> and what it calls): which shares are scanned,
  the walk of each with its files planned in batches, the jobs handed to the worker pool, and the calls
  on the checkpoint manager. The share list, the directories of a share, the order in which Go ranges
  over the map of DFS hints, the context, and when the results of the pool come in are arguments.
\<close>

subsection \<open>Shares\<close>

definition scanShareAllowed :: "string \<Rightarrow> ScanConfig \<Rightarrow> bool" where
  "scanShareAllowed name cfg =
     (let share = to_lower (trim_space name) in
      if share = [] then False
      else if scn_Share cfg \<noteq> [] \<and> \<not> (\<exists>allowed \<in> set (scn_Share cfg). share = to_lower (trim_space allowed)) then False
      else \<not> (\<exists>blocked \<in> set (scn_ExcludeShare cfg). share = to_lower (trim_space blocked)))"

definition explicit_share :: "string \<Rightarrow> ShareInfo" where
  "explicit_share name = \<lparr>sh_Name = name, sh_Description = [],
     sh_Type = (case ADShareType name of Some adType \<Rightarrow> adType
       | None \<Rightarrow> if IsAdministrativeShare name then ''disk-hidden'' else [])\<rparr>"

definition explicitScanShares :: "ScanConfig \<Rightarrow> ShareInfo list" where
  "explicitScanShares cfg = map explicit_share (first_loop to_lower [] (map trim_space (scn_Share cfg)))"

text \<open>The hints of a host, by the lower-case name of the share, the first target of each; the map as a list.\<close>

fun dfs_hint_loop :: "string \<Rightarrow> (string \<times> DFSTarget) list \<Rightarrow> DFSTarget list \<Rightarrow> (string \<times> DFSTarget) list" where
  "dfs_hint_loop host hints [] = hints"
| "dfs_hint_loop host hints (target # targets) =
     (let server = to_lower (trim_space (df_TargetServer target));
          shareKey = to_lower (trim_space (df_TargetShare target))
      in if host = [] \<or> server = [] \<or> host \<noteq> server \<or> shareKey = [] \<or> map_of hints shareKey \<noteq> None
         then dfs_hint_loop host hints targets
         else dfs_hint_loop host (hints @ [(shareKey, target)]) targets)"

definition dfsHintsForHost :: "string \<Rightarrow> DFSTarget list \<Rightarrow> (string \<times> DFSTarget) list" where
  "dfsHintsForHost host targets = dfs_hint_loop (to_lower (trim_space host)) [] targets"

record share_table =
  tb_shares :: "ShareInfo list"
  tb_infos :: "string \<rightharpoonup> ShareInfo"

definition share_table_of :: "ShareInfo list \<Rightarrow> share_table" where
  "share_table_of shares = \<lparr>tb_shares = shares,
     tb_infos = foldl (\<lambda>m share. m(to_lower (trim_space (sh_Name share)) \<mapsto> share)) Map.empty shares\<rparr>"

text \<open>\<open>shareSet\<close> has the keys of \<open>shareInfoByName\<close>.\<close>

definition add_hint :: "ScanConfig \<Rightarrow> share_table \<Rightarrow> string \<times> DFSTarget \<Rightarrow> share_table" where
  "add_hint cfg tb hint =
     (let resolvedShare = df_TargetShare (snd hint) in
      if tb_infos tb (fst hint) \<noteq> None then tb
      else if trim_space resolvedShare = [] \<or> \<not> scanShareAllowed resolvedShare cfg then tb
      else let info = \<lparr>sh_Name = resolvedShare, sh_Description = [], sh_Type = []\<rparr>
           in \<lparr>tb_shares = tb_shares tb @ [info], tb_infos = (tb_infos tb)(fst hint \<mapsto> info)\<rparr>)"

definition plan_filters :: "ScanConfig \<Rightarrow> FilterOptions" where
  "plan_filters cfg = \<lparr>fo_IncludeShares = scn_Share cfg, fo_ExcludeShares = scn_ExcludeShare cfg,
     fo_IncludePaths = scn_Path cfg, fo_ExcludePaths = scn_ExcludePath cfg, fo_MaxDepth = scn_MaxDepth cfg\<rparr>"

definition share_inputs :: "string \<Rightarrow> string \<Rightarrow> ScanConfig \<Rightarrow> (string \<times> DFSTarget) list \<Rightarrow> ShareInfo list \<Rightarrow> ShareInput list" where
  "share_inputs host source cfg hints shares =
     map (\<lambda>info. \<lparr>si_Host = host, si_Share = sh_Name info,
            si_Source = (if map_of hints (to_lower (trim_space (sh_Name info))) \<noteq> None then ''dfs'' else source),
            si_PrioritizeADShares = scn_PrioritizeADShares cfg\<rparr>)
       (filter (\<lambda>info. scanShareAllowed (sh_Name info) cfg \<and> (scn_OnlyADShares cfg \<longrightarrow> IsADShare (sh_Name info))) shares)"

subsection \<open>What a scan of a host works with\<close>

text \<open>
  What the environment gives: \<open>io_context\<close> is the state of the context when the \<open>n\<close>-th point of waiting is
  reached, \<open>io_results\<close> are the results the workers have recorded since the previous one, each with the
  number of its job and whether it succeeded; \<open>io_pool\<close> is the error the pool returns.
\<close>

datatype pool_error = SinkFailed string | PoolDeadline

record scan_io =
  io_connect :: "smb_error option"
  io_shares :: "smb_error + ShareInfo list"
  io_mount :: "string \<Rightarrow> smb_error + directory"
  io_order :: "(string \<times> DFSTarget) list \<Rightarrow> (string \<times> DFSTarget) list"
  io_context :: "nat \<Rightarrow> context_state"
  io_results :: "nat \<Rightarrow> (nat \<times> bool) list"
  io_pool :: "pool_error option"

record host_scan =
  hs_host :: string
  hs_server :: string
  hs_cfg :: ScanConfig
  hs_hints :: "(string \<times> DFSTarget) list"
  hs_infos :: "string \<rightharpoonup> ShareInfo"
  hs_io :: scan_io
  hs_checkpoints :: "Manager option"

text \<open>A job: the metadata, and the share and path its \<open>LoadContent\<close> reads.\<close>

record scan_job =
  sj_Metadata :: FileMetadata
  sj_share :: string
  sj_path :: string

text \<open>
  The state: the shares reported to the observer, the batch with its index, the jobs sent, the calls made on
  the checkpoint manager, the points of waiting passed, and the state of the context that ended a batch.
\<close>

record scan_state =
  ss_walked :: "string list"
  ss_inputs :: "FileInput list"
  ss_index :: "string \<rightharpoonup> RemoteFile"
  ss_queue :: "scan_job list"
  ss_events :: "event list"
  ss_tick :: nat
  ss_stopped :: context_state

definition checkpoint_now :: "host_scan \<Rightarrow> scan_state \<Rightarrow> Manager option" where
  "checkpoint_now c s = map_option (\<lambda>m. run m (ss_events s)) (hs_checkpoints c)"

definition tell :: "host_scan \<Rightarrow> event \<Rightarrow> scan_state \<Rightarrow> scan_state" where
  "tell c ev s = (if hs_checkpoints c = None then s else s\<lparr>ss_events := ss_events s @ [ev]\<rparr>)"

text \<open>\<open>OnComplete\<close> of the jobs whose results have come in.\<close>

definition on_complete :: "host_scan \<Rightarrow> scan_state \<Rightarrow> nat \<times> bool \<Rightarrow> scan_state" where
  "on_complete c s res =
     (if fst res < length (ss_queue s) then
        let m = sj_Metadata (ss_queue s ! fst res)
        in tell c (EvResult (m_Host m) (m_Share m) (m_FilePath m) (m_Size m) (m_ModifiedAt m) (snd res)) s
      else s)"

definition wait :: "host_scan \<Rightarrow> scan_state \<Rightarrow> scan_state" where
  "wait c s = (foldl (on_complete c) s (io_results (hs_io c) (ss_tick s)))\<lparr>ss_tick := ss_tick s + 1\<rparr>"

subsection \<open>One batch of files\<close>

definition sharePlanningBatchSize :: nat where
  "sharePlanningBatchSize = 2048"

definition share_hint :: "host_scan \<Rightarrow> PlannedTarget \<Rightarrow> DFSTarget option" where
  "share_hint c share = map_of (hs_hints c) (to_lower (trim_space (pt_Share share)))"

definition file_metadata :: "host_scan \<Rightarrow> PlannedTarget \<Rightarrow> PlannedTarget \<Rightarrow> RemoteFile \<Rightarrow> FileMetadata" where
  "file_metadata c share plan remote =
     (let info = (case hs_infos c (to_lower (trim_space (rf_Share remote))) of Some i \<Rightarrow> i
            | None \<Rightarrow> \<lparr>sh_Name = [], sh_Description = [], sh_Type = []\<rparr>);
          meta = \<lparr>m_FilePath = rf_Path remote, m_Share = rf_Share remote, m_ShareDescription = sh_Description info,
            m_ShareType = sh_Type info, m_Host = rf_Host remote, m_Source = pt_Source share, m_ArchivePath = [],
            m_ArchiveMemberPath = [], m_ArchiveLocalInspect = False, m_Priority = pt_Priority plan,
            m_PriorityReason = pt_Reason plan, m_DFSNamespacePath = [], m_DFSLinkPath = [], m_Size = rf_Size remote,
            m_ModifiedAt = rf_ModifiedAt remote, m_IsDir = rf_IsDir remote, m_Name = rf_Name remote,
            m_Extension = rf_Extension remote, m_SharePriority = pt_Priority share,
            m_SharePriorityReason = pt_Reason share, m_FromSYSVOL = equal_fold (rf_Share remote) ''SYSVOL'',
            m_FromNETLOGON = equal_fold (rf_Share remote) ''NETLOGON''\<rparr>
      in case share_hint c share of None \<Rightarrow> meta
         | Some hint \<Rightarrow> meta\<lparr>m_Source := ''dfs'', m_DFSNamespacePath := df_NamespacePath hint, m_DFSLinkPath := df_LinkPath hint\<rparr>)"

definition scan_job_of :: "host_scan \<Rightarrow> PlannedTarget \<Rightarrow> PlannedTarget \<Rightarrow> RemoteFile \<Rightarrow> scan_job" where
  "scan_job_of c share plan remote =
     \<lparr>sj_Metadata = file_metadata c share plan remote, sj_share = pt_Share share,
      sj_path = map (\<lambda>ch. if ch = CHR ''/'' then CHR 0x5C else ch) (rf_Path remote)\<rparr>"

definition file_done :: "host_scan \<Rightarrow> scan_state \<Rightarrow> RemoteFile \<Rightarrow> bool" where
  "file_done c s remote =
     (case checkpoint_now c s of None \<Rightarrow> False
      | Some m \<Rightarrow> ShouldSkipFile m (rf_Host remote) (rf_Share remote) (rf_Path remote) (rf_Size remote) (rf_ModifiedAt remote))"

fun flush_loop :: "host_scan \<Rightarrow> PlannedTarget \<Rightarrow> PlannedTarget list \<Rightarrow> int \<Rightarrow> scan_state \<Rightarrow> scan_state \<times> int option" where
  "flush_loop c share [] queued s = (s, Some queued)"
| "flush_loop c share (plan # plans) queued s =
     (case ss_index s (to_lower (pt_Path plan)) of
        None \<Rightarrow> flush_loop c share plans queued s
      | Some remote \<Rightarrow>
          (let s1 = wait c s in
           if file_done c s1 remote then flush_loop c share plans queued s1
           else case io_context (hs_io c) (ss_tick s1) of
                  Alive \<Rightarrow> flush_loop c share plans (queued + 1)
                    (s1\<lparr>ss_queue := ss_queue s1 @ [scan_job_of c share plan remote]\<rparr>)
                | ctx \<Rightarrow> (s1\<lparr>ss_stopped := ctx\<rparr>, None)))"

text \<open>The second component: whether the batch was flushed (no error).\<close>

definition flushBatch :: "host_scan \<Rightarrow> PlannedTarget \<Rightarrow> scan_state \<Rightarrow> scan_state \<times> bool" where
  "flushBatch c share s =
     (if ss_inputs s = [] then (s, True)
      else case flush_loop c share (PlanFiles (ss_inputs s) (plan_filters (hs_cfg c))) 0 s of
             (s1, None) \<Rightarrow> (s1, False)
           | (s1, Some queued) \<Rightarrow>
               ((tell c (EvAdd (hs_host c) (pt_Share share) queued) (wait c s1))\<lparr>ss_index := Map.empty, ss_inputs := []\<rparr>, True))"

subsection \<open>One share\<close>

definition file_input :: "host_scan \<Rightarrow> PlannedTarget \<Rightarrow> RemoteFile \<Rightarrow> FileInput" where
  "file_input c share remote =
     \<lparr>fi_Host = rf_Host remote, fi_Share = rf_Share remote, fi_Path = rf_Path remote, fi_Extension = rf_Extension remote,
      fi_Source = (if share_hint c share \<noteq> None then ''dfs'' else pt_Source share),
      fi_PrioritizeADShares = scn_PrioritizeADShares (hs_cfg c)\<rparr>"

text \<open>The error a batch returns, as the walk hands it on: the error of the context.\<close>

definition context_smb_error :: "context_state \<Rightarrow> smb_error" where
  "context_smb_error ctx =
     (case ctx of DeadlineExceeded \<Rightarrow> \<lparr>se_text = ''context deadline exceeded'', se_permission = False, se_notexist = False, se_timeout = True\<rparr>
      | _ \<Rightarrow> \<lparr>se_text = ''context canceled'', se_permission = False, se_notexist = False, se_timeout = False\<rparr>)"

definition on_file :: "host_scan \<Rightarrow> PlannedTarget \<Rightarrow> scan_state walk_fn" where
  "on_file c share s remote =
     (if rf_IsDir remote then (s, None)
      else let s1 = s\<lparr>ss_inputs := ss_inputs s @ [file_input c share remote],
                 ss_index := (ss_index s)(to_lower (rf_Path remote) \<mapsto> remote)\<rparr>
           in if length (ss_inputs s1) \<ge> sharePlanningBatchSize then
                (case flushBatch c share s1 of
                   (s2, True) \<Rightarrow> (s2, None) | (s2, False) \<Rightarrow> (s2, Some (context_smb_error (ss_stopped s2))))
              else (s1, None))"

definition walk_options :: "ScanConfig \<Rightarrow> WalkOptions" where
  "walk_options cfg = \<lparr>wk_IncludePaths = scn_Path cfg, wk_ExcludePaths = scn_ExcludePath cfg, wk_MaxDepth = scn_MaxDepth cfg\<rparr>"

datatype walk_error = ShareError smb_error | Stopped context_state

datatype share_result = Walked | ShareFailed walk_error | WalkTimedOut

definition begin_share :: "host_scan \<Rightarrow> PlannedTarget \<Rightarrow> scan_state \<Rightarrow> scan_state" where
  "begin_share c share s =
     (tell c (EvStart (hs_host c) (pt_Share share)) (s\<lparr>ss_walked := ss_walked s @ [pt_Share share]\<rparr>))
       \<lparr>ss_inputs := [], ss_index := Map.empty, ss_stopped := Alive\<rparr>"

definition scan_share :: "host_scan \<Rightarrow> PlannedTarget \<Rightarrow> scan_state \<Rightarrow> scan_state \<times> share_result" where
  "scan_share c share s0 =
     (let host = hs_host c; name = pt_Share share in
      case WalkShareWithOptions (hs_server c) name (walk_options (hs_cfg c)) (io_mount (hs_io c) name) (on_file c share)
             (begin_share c share s0) of
        (s, Some err) \<Rightarrow>
          (tell c (EvAbort host name) s,
           if IsTimeoutError err then WalkTimedOut
           else ShareFailed (if ss_stopped s = Alive then ShareError err else Stopped (ss_stopped s)))
      | (s, None) \<Rightarrow>
          (case flushBatch c share s of
             (s1, False) \<Rightarrow> (tell c (EvAbort host name) s1, ShareFailed (Stopped (ss_stopped s1)))
           | (s1, True) \<Rightarrow> (tell c (EvFinish host name) (wait c s1), Walked)))"

subsection \<open>One host\<close>

text \<open>The name the client connected under, which the files it reports carry.\<close>

definition server_name :: "string \<Rightarrow> string" where
  "server_name host = (case splitHost host of Some (serverName, _) \<Rightarrow> serverName | None \<Rightarrow> [])"

definition share_done_before :: "host_scan \<Rightarrow> PlannedTarget \<Rightarrow> scan_state \<Rightarrow> bool" where
  "share_done_before c share s =
     (case checkpoint_now c s of None \<Rightarrow> False | Some m \<Rightarrow> ShouldSkipShare m (hs_host c) (pt_Share share))"

fun share_loop :: "host_scan \<Rightarrow> PlannedTarget list \<Rightarrow> scan_state \<Rightarrow> (string \<times> walk_error) list \<Rightarrow>
    scan_state \<times> (string \<times> walk_error) list \<times> bool" where
  "share_loop c [] s errs = (s, errs, False)"
| "share_loop c (share # shares) s errs =
     (let s1 = wait c s in
      if share_done_before c share s1 then share_loop c shares s1 errs
      else case scan_share c share s1 of
             (s2, Walked) \<Rightarrow> share_loop c shares s2 errs
           | (s2, ShareFailed err) \<Rightarrow> share_loop c shares s2 (errs @ [(pt_Share share, err)])
           | (s2, WalkTimedOut) \<Rightarrow> (s2, errs, True))"

datatype host_error =
    SMBTimeout
  | ConnectFailed smb_error
  | ListSharesFailed smb_error
  | PoolFailed pool_error
  | SharesFailed "(string \<times> walk_error) list"

definition empty_state :: "event list \<Rightarrow> scan_state" where
  "empty_state events = \<lparr>ss_walked = [], ss_inputs = [], ss_index = Map.empty, ss_queue = [], ss_events = events,
     ss_tick = 0, ss_stopped = Alive\<rparr>"

definition host_plan :: "scan_io \<Rightarrow> string \<Rightarrow> string \<Rightarrow> ScanConfig \<Rightarrow> (string \<times> DFSTarget) list \<Rightarrow> ShareInfo list \<Rightarrow>
    (string \<rightharpoonup> ShareInfo) \<times> PlannedTarget list" where
  "host_plan io host source cfg hints shares =
     (let tb = foldl (add_hint cfg) (share_table_of shares) (io_order io hints)
      in (tb_infos tb, PlanShares (share_inputs host source cfg hints (tb_shares tb)) (plan_filters cfg)))"

text \<open>The state carries the calls made on the checkpoint manager before; what a scan adds to it is its result.\<close>

definition scanHost :: "scan_io \<Rightarrow> ScanConfig \<Rightarrow> Manager option \<Rightarrow> string \<Rightarrow> string \<Rightarrow> DFSTarget list \<Rightarrow> event list \<Rightarrow>
    scan_state \<times> host_error option" where
  "scanHost io cfg checkpoints host source dfsTargets events =
     (let s0 = empty_state events; explicit = explicitScanShares cfg in
      case io_connect io of
        Some err \<Rightarrow> (s0, Some (if IsTimeoutError err then SMBTimeout else ConnectFailed err))
      | None \<Rightarrow>
          (case (if explicit \<noteq> [] then Inr explicit else io_shares io) of
             Inl err \<Rightarrow> (s0, Some (if IsTimeoutError err then SMBTimeout else ListSharesFailed err))
           | Inr shares \<Rightarrow>
               (let hints = dfsHintsForHost host dfsTargets;
                    (infos, planned) = host_plan io host source cfg hints shares;
                    c = \<lparr>hs_host = host, hs_server = server_name host, hs_cfg = cfg, hs_hints = hints, hs_infos = infos, hs_io = io, hs_checkpoints = checkpoints\<rparr>;
                    (s1, errs, timedOut) = share_loop c planned s0 [];
                    s2 = wait c s1
                in (s2, if timedOut then Some SMBTimeout
                        else case io_pool io of
                               Some err \<Rightarrow> Some (PoolFailed err)
                             | None \<Rightarrow> if errs \<noteq> [] then Some (SharesFailed errs) else None))))"


subsection \<open>What the steps leave alone\<close>

lemma tell_simps [simp]:
  "ss_walked (tell c ev s) = ss_walked s" "ss_inputs (tell c ev s) = ss_inputs s" "ss_index (tell c ev s) = ss_index s"
  "ss_queue (tell c ev s) = ss_queue s" "ss_tick (tell c ev s) = ss_tick s" "ss_stopped (tell c ev s) = ss_stopped s"
  by (simp_all add: tell_def)

lemma on_complete_simps [simp]:
  "ss_walked (on_complete c s r) = ss_walked s" "ss_inputs (on_complete c s r) = ss_inputs s"
  "ss_index (on_complete c s r) = ss_index s" "ss_queue (on_complete c s r) = ss_queue s"
  "ss_tick (on_complete c s r) = ss_tick s" "ss_stopped (on_complete c s r) = ss_stopped s"
  by (simp_all add: on_complete_def Let_def)

lemma results_simps [simp]:
  "ss_walked (foldl (on_complete c) s rs) = ss_walked s" "ss_inputs (foldl (on_complete c) s rs) = ss_inputs s"
  "ss_index (foldl (on_complete c) s rs) = ss_index s" "ss_queue (foldl (on_complete c) s rs) = ss_queue s"
  "ss_stopped (foldl (on_complete c) s rs) = ss_stopped s"
  by (induction rs arbitrary: s) simp_all

lemma wait_simps [simp]:
  "ss_walked (wait c s) = ss_walked s" "ss_inputs (wait c s) = ss_inputs s" "ss_index (wait c s) = ss_index s"
  "ss_queue (wait c s) = ss_queue s" "ss_stopped (wait c s) = ss_stopped s"
  by (simp_all add: wait_def)

subsection \<open>The filters agree\<close>

lemma scanShareAllowed_filters: "scanShareAllowed name cfg \<longleftrightarrow> shareAllowed name (plan_filters cfg)"
  by (simp add: scanShareAllowed_def shareAllowed_def plan_filters_def Let_def)

lemma scanShareAllowed_trim [simp]: "scanShareAllowed (trim_space name) cfg \<longleftrightarrow> scanShareAllowed name cfg"
  by (simp add: scanShareAllowed_def)

lemma IsADShare_trim [simp]: "IsADShare (trim_space name) \<longleftrightarrow> IsADShare name"
  by (simp add: IsADShare_def ADShareType_def)

definition admitted_share :: "ScanConfig \<Rightarrow> string \<Rightarrow> bool" where
  "admitted_share cfg name \<longleftrightarrow> scanShareAllowed name cfg \<and> (if scn_OnlyADShares cfg then IsADShare name else True)"

lemma planned_shares_admitted:
  "share \<in> set (PlanShares (share_inputs host source cfg hints shares) filters) \<Longrightarrow> admitted_share cfg (pt_Share share)"
  by (auto simp: PlanShares_def sortPlanned_def share_inputs_def plannedShare_def admitted_share_def split_beta)

subsection \<open>The shares that are walked\<close>

text \<open>Between two states only shares and jobs of the given names are added.\<close>

definition within_shares :: "string set \<Rightarrow> scan_state \<Rightarrow> scan_state \<Rightarrow> bool" where
  "within_shares S s s' \<longleftrightarrow> set (ss_walked s') \<subseteq> set (ss_walked s) \<union> S \<and>
     sj_share ` set (ss_queue s') \<subseteq> sj_share ` set (ss_queue s) \<union> S"

lemma within_refl [simp]: "within_shares S s s"
  by (simp add: within_shares_def)

lemma within_trans: "within_shares S s s' \<Longrightarrow> within_shares S s' s'' \<Longrightarrow> within_shares S s s''"
  unfolding within_shares_def by blast

lemma within_steps [simp]:
  "within_shares S s (tell c ev t) = within_shares S s t" "within_shares S s (wait c t) = within_shares S s t"
  "within_shares S s (t\<lparr>ss_inputs := is\<rparr>) = within_shares S s t" "within_shares S s (t\<lparr>ss_index := ix\<rparr>) = within_shares S s t"
  "within_shares S s (t\<lparr>ss_stopped := ctx\<rparr>) = within_shares S s t"
  by (simp_all add: within_shares_def)

lemma flush_loop_within: "within_shares {pt_Share share} s (fst (flush_loop c share plans queued s))"
proof (induction c share plans queued s rule: flush_loop.induct)
  case (2 c share plan plans queued s)
  show ?case
  proof (cases "ss_index s (to_lower (pt_Path plan))")
    case None
    then show ?thesis using 2(1) by simp
  next
    case (Some remote)
    let ?s1 = "wait c s" and ?job = "scan_job_of c share plan remote"
    have w: "within_shares {pt_Share share} s (?s1\<lparr>ss_queue := ss_queue ?s1 @ [?job]\<rparr>)"
      by (auto simp: within_shares_def scan_job_of_def)
    have w1: "within_shares {pt_Share share} s t" if "within_shares {pt_Share share} ?s1 t" for t
      using that by (simp add: within_shares_def)
    show ?thesis
      using 2(2) [OF Some refl] 2(3) [OF Some refl] Some w w1 within_trans
      by (auto simp: Let_def split: context_state.splits)
  qed
qed simp

lemma flushBatch_within: "within_shares {pt_Share share} s (fst (flushBatch c share s))"
  using flush_loop_within [of share s c "PlanFiles (ss_inputs s) (plan_filters (hs_cfg c))" 0]
  by (auto simp: flushBatch_def split: prod.splits option.splits)

lemma on_file_within: "within_shares {pt_Share share} s (fst (on_file c share s remote))"
proof -
  let ?s1 = "s\<lparr>ss_inputs := ss_inputs s @ [file_input c share remote], ss_index := (ss_index s)(to_lower (rf_Path remote) \<mapsto> remote)\<rparr>"
  have "within_shares {pt_Share share} s (fst (flushBatch c share ?s1))"
    using flushBatch_within [of share ?s1 c] by (rule within_trans [rotated]) simp
  then show ?thesis by (auto simp: on_file_def Let_def split: prod.splits bool.splits)
qed

lemma deliver_invariant:
  "(\<And>s f. P s \<Longrightarrow> P (fst (fn s f))) \<Longrightarrow> P s \<Longrightarrow> P (fst (deliver fn evs s))"
proof (induction fn evs s rule: deliver.induct)
  case (3 fn f evs s)
  obtain s' r where r: "fn s f = (s', r)" by force
  have "P s'" using 3(2) [of s f] 3(3) r by simp
  then show ?case using 3(1) [OF r [symmetric]] 3(2) r by (cases r) simp_all
qed simp_all

lemma walk_invariant:
  assumes "\<And>s f. P s \<Longrightarrow> P (fst (fn s f))" and "P s"
  shows "P (fst (WalkShareWithOptions host share opts mount fn s))"
  using deliver_invariant [of P fn s] assms
  by (cases mount) (simp_all add: WalkShareWithOptions_def walk_loop_deliver)

lemma scan_share_within: "within_shares {pt_Share share} s (fst (scan_share c share s))"
proof -
  let ?w = "WalkShareWithOptions (hs_server c) (pt_Share share) (walk_options (hs_cfg c)) (io_mount (hs_io c) (pt_Share share)) (on_file c share)
      (begin_share c share s)"
  have "within_shares {pt_Share share} s (begin_share c share s)"
    by (auto simp: within_shares_def begin_share_def)
  then have w: "within_shares {pt_Share share} s (fst ?w)"
    by (rule walk_invariant [rotated]) (rule within_trans [OF _ on_file_within])
  have "within_shares {pt_Share share} s (fst (flushBatch c share (fst ?w)))"
    by (rule within_trans [OF w flushBatch_within])
  then show ?thesis using w
    by (auto simp: scan_share_def Let_def split: prod.splits option.splits bool.splits)
qed

lemma within_mono: "within_shares S s s' \<Longrightarrow> S \<subseteq> T \<Longrightarrow> within_shares T s s'"
  unfolding within_shares_def by blast

lemma share_loop_within: "within_shares (pt_Share ` set shares) s (fst (share_loop c shares s errs))"
proof (induction c shares s errs rule: share_loop.induct)
  case (2 c share shares s errs)
  let ?T = "pt_Share ` set (share # shares)" and ?s1 = "wait c s"
  obtain s2 r where r: "scan_share c share ?s1 = (s2, r)" by force
  have "within_shares ?T ?s1 s2"
    using scan_share_within [of share ?s1 c] r by (auto intro: within_mono)
  then have b: "within_shares ?T s s2" by (simp add: within_shares_def)
  have ih: "within_shares ?T s t" if "within_shares (pt_Share ` set shares) s' t" "within_shares ?T s s'" for s' t
    using that by (meson image_mono set_subset_Cons within_mono within_trans)
  show ?case
    using 2(1) [OF refl] 2(2,3) [OF refl _ r [symmetric]] r b ih
    by (auto simp: Let_def split: share_result.splits)
qed simp

text \<open>
  C3: A share that the configuration does not admit is never walked, and no file of it is read, however the
  name became known: from the configuration, from the listing of the host or from a DFS link; when only the
  Active Directory shares are asked for, nothing else is walked either.
\<close>

theorem only_admitted_shares_walked:
  "set (ss_walked (fst (scanHost io cfg checkpoints host source dfsTargets events))) \<union>
   sj_share ` set (ss_queue (fst (scanHost io cfg checkpoints host source dfsTargets events))) \<subseteq> Collect (admitted_share cfg)"
proof -
  have base: "set (ss_walked (empty_state events)) = {}" "set (ss_queue (empty_state events)) = {}"
    by (simp_all add: empty_state_def)
  have walked: "set (ss_walked (fst (share_loop c planned (empty_state events) []))) \<union>
      sj_share ` set (ss_queue (fst (share_loop c planned (empty_state events) []))) \<subseteq> Collect (admitted_share cfg)"
    if p: "planned = snd (host_plan io host source cfg hints shares)" for c planned hints shares
  proof -
    have "pt_Share ` set planned \<subseteq> Collect (admitted_share cfg)"
      using planned_shares_admitted by (auto simp: p host_plan_def Let_def)
    moreover have "within_shares (pt_Share ` set planned) (empty_state events) (fst (share_loop c planned (empty_state events) []))"
      by (rule share_loop_within)
    ultimately show ?thesis using base unfolding within_shares_def by (simp only:) blast
  qed
  show ?thesis
    using walked base by (auto simp: scanHost_def Let_def split_beta split: option.splits sum.splits)
qed


subsection \<open>The batches of a share\<close>

text \<open>The index of a batch, the files of it the planner keeps, and the jobs made of planned files.\<close>

definition index_of :: "RemoteFile list \<Rightarrow> string \<rightharpoonup> RemoteFile" where
  "index_of fs = foldl (\<lambda>m f. m(to_lower (rf_Path f) \<mapsto> f)) Map.empty fs"

definition kept_by_plan :: "host_scan \<Rightarrow> RemoteFile \<Rightarrow> bool" where
  "kept_by_plan c f \<longleftrightarrow> shareAllowed (rf_Share f) (plan_filters (hs_cfg c)) \<and> pathAllowed (rf_Path f) (plan_filters (hs_cfg c))"

definition jobs_of :: "host_scan \<Rightarrow> PlannedTarget \<Rightarrow> (PlannedTarget \<times> RemoteFile) list \<Rightarrow> scan_job list" where
  "jobs_of c share sent = map (\<lambda>(plan, remote). scan_job_of c share plan remote) sent"

lemma jobs_of_simps [simp]: "jobs_of c share [] = []" "jobs_of c share (xs @ ys) = jobs_of c share xs @ jobs_of c share ys"
  "length (jobs_of c share xs) = length xs"
  by (simp_all add: jobs_of_def)

definition grown :: "scan_state \<Rightarrow> scan_state \<Rightarrow> bool" where
  "grown s s' \<longleftrightarrow> (\<exists>es. ss_events s' = ss_events s @ es)"

lemma grown_refl [simp]: "grown s s"
  by (simp add: grown_def)

lemma grown_trans [trans]: "grown s t \<Longrightarrow> grown t u \<Longrightarrow> grown s u"
  by (auto simp: grown_def)

lemma grown_tell [simp]: "grown s (tell c ev s)"
  by (simp add: grown_def tell_def)

lemma grown_results: "grown s (foldl (on_complete c) s rs)"
proof (induction rs arbitrary: s)
  case (Cons r rs)
  have "grown s (on_complete c s r)" by (simp add: on_complete_def Let_def)
  then show ?case using Cons.IH [of "on_complete c s r"] by (simp add: grown_trans)
qed simp

lemma grown_update [simp]: "grown s (t\<lparr>ss_queue := q\<rparr>) = grown s t" "grown s (t\<lparr>ss_index := ix\<rparr>) = grown s t"
  "grown s (t\<lparr>ss_inputs := is\<rparr>) = grown s t" "grown s (t\<lparr>ss_tick := n\<rparr>) = grown s t" "grown s (t\<lparr>ss_stopped := ctx\<rparr>) = grown s t"
  "grown (t\<lparr>ss_queue := q\<rparr>) s = grown t s"
  by (simp_all add: grown_def)

lemma grown_wait [simp]: "grown s (wait c s)"
  using grown_results by (simp add: wait_def)

text \<open>The files that were found complete at some point up to a state.\<close>

definition found_done :: "host_scan \<Rightarrow> scan_state \<Rightarrow> RemoteFile list \<Rightarrow> bool" where
  "found_done c s fs \<longleftrightarrow> (\<forall>f \<in> set fs. \<exists>t. grown t s \<and> file_done c t f)"

lemma found_done_mono: "found_done c s fs \<Longrightarrow> grown s s' \<Longrightarrow> found_done c s' fs"
  unfolding found_done_def using grown_trans by blast

lemma found_done_simps [simp]: "found_done c s []" "found_done c s (xs @ ys) \<longleftrightarrow> found_done c s xs \<and> found_done c s ys"
  by (auto simp: found_done_def)

lemma no_checkpoint_found: "hs_checkpoints c = None \<Longrightarrow> found_done c s fs \<longleftrightarrow> fs = []"
  by (cases fs) (auto simp: found_done_def file_done_def checkpoint_now_def)

definition open_context :: "host_scan \<Rightarrow> bool" where
  "open_context c \<longleftrightarrow> (\<forall>n. io_context (hs_io c) n = Alive)"

text \<open>A batch sends a job for every entry of the plan whose file it finds, but for the files found complete.\<close>

lemma flush_loop_open:
  assumes "open_context c"
  shows "\<exists>s' sent skipped. flush_loop c share plans queued s = (s', Some (queued + int (length sent))) \<and>
    ss_inputs s' = ss_inputs s \<and> ss_index s' = ss_index s \<and> ss_queue s' = ss_queue s @ jobs_of c share sent \<and> grown s s' \<and>
    found_done c s' skipped \<and>
    mset (map snd sent) + mset skipped = mset (List.map_filter (\<lambda>p. ss_index s (to_lower (pt_Path p))) plans)"
  using assms
proof (induction c share plans queued s rule: flush_loop.induct)
  case (1 c share queued s)
  show ?case
    by (intro exI [of _ s] exI [of _ "[]"]) (simp add: List.map_filter_def)
next
  case (2 c share plan plans queued s)
  show ?case
  proof (cases "ss_index s (to_lower (pt_Path plan))")
    case None
    then show ?thesis using 2(1) 2(4) by (simp add: List.map_filter_def)
  next
    case (Some remote)
    let ?s1 = "wait c s"
    show ?thesis
    proof (cases "file_done c ?s1 remote")
      case True
      obtain s' sent skipped where r: "flush_loop c share plans queued ?s1 = (s', Some (queued + int (length sent)))"
          "ss_inputs s' = ss_inputs s" "ss_index s' = ss_index s" "ss_queue s' = ss_queue s @ jobs_of c share sent"
          "grown ?s1 s'" "found_done c s' skipped"
          "mset (map snd sent) + mset skipped = mset (List.map_filter (\<lambda>p. ss_index s (to_lower (pt_Path p))) plans)"
        using 2(2) [OF Some refl True 2(4)] by auto
      have "found_done c s' (remote # skipped)"
        using r(5,6) True by (auto simp: found_done_def)
      moreover have "grown s s'" using grown_wait r(5) by (rule grown_trans)
      ultimately show ?thesis
        using r True Some
        by (intro exI [of _ s'] exI [of _ sent] exI [of _ "remote # skipped"]) (simp add: List.map_filter_def Let_def)
    next
      case False
      have ctx: "io_context (hs_io c) (ss_tick ?s1) = Alive" using 2(4) by (simp add: open_context_def)
      let ?s2 = "?s1\<lparr>ss_queue := ss_queue ?s1 @ [scan_job_of c share plan remote]\<rparr>"
      obtain s' sent skipped where r: "flush_loop c share plans (queued + 1) ?s2 = (s', Some (queued + 1 + int (length sent)))"
          "ss_inputs s' = ss_inputs s" "ss_index s' = ss_index s"
          "ss_queue s' = ss_queue s @ scan_job_of c share plan remote # jobs_of c share sent"
          "grown ?s1 s'" "found_done c s' skipped"
          "mset (map snd sent) + mset skipped = mset (List.map_filter (\<lambda>p. ss_index s (to_lower (pt_Path p))) plans)"
        using 2(3) [OF Some refl False ctx 2(4)] by auto
      moreover have "grown s s'" using grown_wait r(5) by (rule grown_trans)
      ultimately show ?thesis
        using False Some ctx
        by (intro exI [of _ s'] exI [of _ "(plan, remote) # sent"] exI [of _ skipped])
          (simp add: List.map_filter_def Let_def jobs_of_def algebra_simps)
    qed
  qed
qed

text \<open>Files that are told apart by the lower-case path the index uses, and that the planner does not rename.\<close>

definition told_apart :: "RemoteFile set \<Rightarrow> bool" where
  "told_apart F \<longleftrightarrow> (\<forall>f \<in> F. trim_space (rf_Path f) = rf_Path f \<and>
     (\<forall>g \<in> F. to_lower (rf_Path f) = to_lower (rf_Path g) \<longrightarrow> f = g))"

lemma told_apart_subset: "told_apart F \<Longrightarrow> G \<subseteq> F \<Longrightarrow> told_apart G"
  unfolding told_apart_def by blast

lemma index_of_snoc: "index_of (fs @ [f]) = (index_of fs)(to_lower (rf_Path f) \<mapsto> f)"
  by (simp add: index_of_def)

lemma index_of_found: "told_apart (set fs) \<Longrightarrow> f \<in> set fs \<Longrightarrow> index_of fs (to_lower (rf_Path f)) = Some f"
proof (induction fs rule: rev_induct)
  case (snoc g fs)
  have t: "told_apart (set fs)" using snoc.prems(1) by (rule told_apart_subset) auto
  show ?case
  proof (cases "to_lower (rf_Path f) = to_lower (rf_Path g)")
    case True
    then have "f = g" using snoc.prems unfolding told_apart_def by auto
    then show ?thesis by (simp add: index_of_snoc)
  next
    case False
    then show ?thesis using snoc.IH [OF t] snoc.prems(2) by (auto simp: index_of_snoc)
  qed
qed simp

lemma map_filter_mset: "mset xs = mset ys \<Longrightarrow> mset (List.map_filter g xs) = mset (List.map_filter g ys)"
  unfolding List.map_filter_def by (metis mset_filter mset_map)

lemma map_filter_all: "(\<And>x. x \<in> set xs \<Longrightarrow> g x = Some (h x)) \<Longrightarrow> List.map_filter g xs = map h xs"
  by (induction xs) (simp_all add: List.map_filter_def)

lemma batch_plan:
  assumes "told_apart (set fs)"
  shows "mset (List.map_filter (\<lambda>p. index_of fs (to_lower (pt_Path p)))
      (PlanFiles (map (file_input c share) fs) (plan_filters (hs_cfg c)))) = mset (filter (kept_by_plan c) fs)"
proof -
  let ?g = "\<lambda>p. index_of fs (to_lower (pt_Path p))" and ?plan = "\<lambda>f. plannedFile (file_input c share f)"
  have k: "filter (\<lambda>i. shareAllowed (fi_Share i) (plan_filters (hs_cfg c)) \<and> pathAllowed (fi_Path i) (plan_filters (hs_cfg c)))
      (map (file_input c share) fs) = map (file_input c share) (filter (kept_by_plan c) fs)"
    by (simp add: filter_map comp_def file_input_def kept_by_plan_def cong: filter_cong)
  have "mset (PlanFiles (map (file_input c share) fs) (plan_filters (hs_cfg c))) = mset (map ?plan (filter (kept_by_plan c) fs))"
    unfolding PlanFiles_def sortPlanned_def k by (simp add: comp_def)
  then have "mset (List.map_filter ?g (PlanFiles (map (file_input c share) fs) (plan_filters (hs_cfg c)))) =
      mset (List.map_filter ?g (map ?plan (filter (kept_by_plan c) fs)))"
    by (rule map_filter_mset)
  moreover have "List.map_filter ?g (map ?plan (filter (kept_by_plan c) fs)) = filter (kept_by_plan c) fs"
  proof -
    have "?g (?plan f) = Some f" if "f \<in> set fs" for f
      using index_of_found [OF assms that] assms that
      by (auto simp: plannedFile_def file_input_def told_apart_def split_beta)
    then have "List.map_filter (?g \<circ> ?plan) (filter (kept_by_plan c) fs) = map (\<lambda>f. f) (filter (kept_by_plan c) fs)"
      by (intro map_filter_all) auto
    then show ?thesis by (simp add: List.map_filter_def filter_map comp_def)
  qed
  ultimately show ?thesis by simp
qed


text \<open>
  After some files of a walk: those of the batches before are sent or found complete, but for what the
  planner drops, and the rest make up the batch.
\<close>

definition batch_inv :: "host_scan \<Rightarrow> PlannedTarget \<Rightarrow> scan_job list \<Rightarrow> RemoteFile list \<Rightarrow> scan_state \<Rightarrow> bool" where
  "batch_inv c share queue files s \<longleftrightarrow> (\<exists>sent skipped flushed pending. files = flushed @ pending \<and>
     ss_inputs s = map (file_input c share) pending \<and> ss_index s = index_of pending \<and>
     ss_queue s = queue @ jobs_of c share sent \<and> found_done c s skipped \<and>
     mset (map snd sent) + mset skipped = mset (filter (kept_by_plan c) flushed))"

lemma flushBatch_open:
  assumes "open_context c" and "batch_inv c share queue files s" and "told_apart (set files)"
  shows "\<exists>s'. flushBatch c share s = (s', True) \<and> batch_inv c share queue files s' \<and> ss_inputs s' = []"
proof (cases "ss_inputs s = []")
  case True
  then show ?thesis using assms(2) by (simp add: flushBatch_def)
next
  case False
  obtain sent skipped flushed pending where b: "files = flushed @ pending" "ss_inputs s = map (file_input c share) pending"
      "ss_index s = index_of pending" "ss_queue s = queue @ jobs_of c share sent" "found_done c s skipped"
      "mset (map snd sent) + mset skipped = mset (filter (kept_by_plan c) flushed)"
    using assms(2) unfolding batch_inv_def by blast
  let ?plans = "PlanFiles (ss_inputs s) (plan_filters (hs_cfg c))"
  obtain s1 sent1 skipped1 where f: "flush_loop c share ?plans 0 s = (s1, Some (int (length sent1)))"
      "ss_queue s1 = ss_queue s @ jobs_of c share sent1" "grown s s1" "found_done c s1 skipped1"
      "mset (map snd sent1) + mset skipped1 = mset (List.map_filter (\<lambda>p. ss_index s (to_lower (pt_Path p))) ?plans)"
    using flush_loop_open [OF assms(1), of share ?plans 0 s] by auto
  have "told_apart (set pending)" using assms(3) by (rule told_apart_subset) (auto simp: b(1))
  then have m: "mset (map snd sent1) + mset skipped1 = mset (filter (kept_by_plan c) pending)"
    using f(5) batch_plan [of pending c share] b(2,3) by simp
  let ?s2 = "(tell c (EvAdd (hs_host c) (pt_Share share) (int (length sent1))) (wait c s1))\<lparr>ss_index := Map.empty, ss_inputs := []\<rparr>"
  have g: "grown s1 ?s2" using grown_trans [OF grown_wait grown_tell] by simp
  have "found_done c ?s2 (skipped @ skipped1)"
    using b(5) f(3,4) g by (meson found_done_mono found_done_simps(2) grown_trans)
  moreover have "mset (map snd (sent @ sent1)) + mset (skipped @ skipped1) = mset (filter (kept_by_plan c) (flushed @ pending))"
  proof -
    have "mset (map snd (sent @ sent1)) + mset (skipped @ skipped1) =
        (mset (map snd sent) + mset skipped) + (mset (map snd sent1) + mset skipped1)" by simp
    also have "\<dots> = mset (filter (kept_by_plan c) (flushed @ pending))" unfolding b(6) m by simp
    finally show ?thesis .
  qed
  ultimately have "batch_inv c share queue files ?s2"
    unfolding batch_inv_def using b(1,4) f(2)
    by (intro exI [of _ "sent @ sent1"] exI [of _ "skipped @ skipped1"] exI [of _ "flushed @ pending"] exI [of _ "[]"])
      (simp add: index_of_def)
  then show ?thesis using False f(1) by (simp add: flushBatch_def)
qed

lemma on_file_open:
  assumes "open_context c" and "batch_inv c share queue files s" and "told_apart (set (files @ [f]))" and "\<not> rf_IsDir f"
  shows "\<exists>s'. on_file c share s f = (s', None) \<and> batch_inv c share queue (files @ [f]) s'"
proof -
  let ?s1 = "s\<lparr>ss_inputs := ss_inputs s @ [file_input c share f], ss_index := (ss_index s)(to_lower (rf_Path f) \<mapsto> f)\<rparr>"
  obtain sent skipped flushed pending where b: "files = flushed @ pending" "ss_inputs s = map (file_input c share) pending"
      "ss_index s = index_of pending" "ss_queue s = queue @ jobs_of c share sent" "found_done c s skipped"
      "mset (map snd sent) + mset skipped = mset (filter (kept_by_plan c) flushed)"
    using assms(2) unfolding batch_inv_def by blast
  have "found_done c ?s1 skipped" using b(5) by (rule found_done_mono) (simp add: grown_def)
  then have i: "batch_inv c share queue (files @ [f]) ?s1"
    unfolding batch_inv_def using b
    by (intro exI [of _ sent] exI [of _ skipped] exI [of _ flushed] exI [of _ "pending @ [f]"]) (simp add: index_of_snoc)
  obtain s2 where s2: "flushBatch c share ?s1 = (s2, True)" "batch_inv c share queue (files @ [f]) s2"
    using flushBatch_open [OF assms(1) i assms(3)] by blast
  show ?thesis
    using i s2 assms(4) by (cases "length (ss_inputs ?s1) \<ge> sharePlanningBatchSize") (simp_all add: on_file_def Let_def)
qed

definition files_of :: "walk_event list \<Rightarrow> RemoteFile list" where
  "files_of evs = concat (map (\<lambda>ev. case ev of Report f \<Rightarrow> if rf_IsDir f then [] else [f] | ReadFailed _ \<Rightarrow> []) evs)"

lemma files_of_simps [simp]: "files_of [] = []"
  "files_of (Report f # evs) = (if rf_IsDir f then files_of evs else f # files_of evs)" "files_of (ReadFailed e # evs) = files_of evs"
  by (simp_all add: files_of_def)

lemma files_of_set: "f \<in> set (files_of evs) \<longleftrightarrow> Report f \<in> set evs \<and> \<not> rf_IsDir f"
  by (induction evs) (auto simp: files_of_def split: walk_event.splits)

lemma deliver_open:
  assumes "open_context c"
  shows "(\<And>err. ReadFailed err \<notin> set evs) \<Longrightarrow> told_apart (set (files @ files_of evs)) \<Longrightarrow> batch_inv c share queue files s \<Longrightarrow>
    \<exists>s'. deliver (on_file c share) evs s = (s', None) \<and> batch_inv c share queue (files @ files_of evs) s'"
proof (induction evs arbitrary: files s)
  case (Cons ev evs)
  then obtain f where ev: "ev = Report f" by (cases ev) auto
  have nf: "ReadFailed err \<notin> set evs" for err using Cons.prems(1) [of err] by auto
  show ?case
  proof (cases "rf_IsDir f")
    case True
    then show ?thesis using Cons.IH [OF nf _ Cons.prems(3)] Cons.prems(2) by (simp add: ev on_file_def)
  next
    case False
    have "told_apart (set (files @ [f]))"
      using Cons.prems(2) by (rule told_apart_subset) (auto simp: ev False)
    then obtain s1 where s1: "on_file c share s f = (s1, None)" "batch_inv c share queue (files @ [f]) s1"
      using on_file_open [OF assms Cons.prems(3) _ False] by blast
    show ?thesis using Cons.IH [OF nf _ s1(2)] Cons.prems(2) s1(1) by (simp add: ev False)
  qed
qed simp

lemma begin_share_inv: "batch_inv c share (ss_queue s) [] (begin_share c share s)"
  unfolding batch_inv_def begin_share_def
  by (intro exI [of _ "[]"]) (simp add: index_of_def)

lemma scan_share_open:
  assumes "open_context c" and "io_mount (hs_io c) (pt_Share share) = Inr dir" and "only_denied dir"
    and files: "files = files_of (visit_dir (hs_server c) (pt_Share share) (walk_options (hs_cfg c)) dir ([], 0))" and "told_apart (set files)"
  shows "\<exists>s' sent skipped. scan_share c share s = (s', Walked) \<and> ss_queue s' = ss_queue s @ jobs_of c share sent \<and>
    found_done c s' skipped \<and> mset (map snd sent) + mset skipped = mset (filter (kept_by_plan c) files)"
proof -
  obtain s1 where s1: "deliver (on_file c share) (visit_dir (hs_server c) (pt_Share share) (walk_options (hs_cfg c)) dir ([], 0))
      (begin_share c share s) = (s1, None)" "batch_inv c share (ss_queue s) files s1"
    using deliver_open [OF assms(1) visit_no_failure [OF assms(3)], of "[]" _ _ _ _ share "ss_queue s" "begin_share c share s"]
      begin_share_inv [of c share s] assms(5) files by (metis append_Nil)
  obtain s2 where s2: "flushBatch c share s1 = (s2, True)" "batch_inv c share (ss_queue s) files s2" "ss_inputs s2 = []"
    using flushBatch_open [OF assms(1) s1(2) assms(5)] by blast
  let ?s3 = "tell c (EvFinish (hs_host c) (pt_Share share)) (wait c s2)"
  obtain sent skipped where b: "ss_queue s2 = ss_queue s @ jobs_of c share sent" "found_done c s2 skipped"
      "mset (map snd sent) + mset skipped = mset (filter (kept_by_plan c) files)"
    using s2(2,3) unfolding batch_inv_def by auto
  have "found_done c ?s3 skipped" using b(2) by (rule found_done_mono) (rule grown_trans [OF grown_wait grown_tell])
  moreover have "scan_share c share s = (?s3, Walked)"
    using s1(1) s2(1) assms(2) by (simp add: scan_share_def WalkShareWithOptions_def walk_loop_deliver)
  ultimately show ?thesis using b by (intro exI [of _ ?s3] exI [of _ sent] exI [of _ skipped]) simp
qed

subsection \<open>The planner keeps what the walk admits\<close>

definition same_paths :: "ScanConfig \<Rightarrow> bool" where
  "same_paths cfg \<longleftrightarrow> (\<forall>p \<in> set (scn_Path cfg) \<union> set (scn_ExcludePath cfg). normalizePlanPath p = normalizeRemotePath p)"

lemma prefix_tests_agree:
  assumes "es \<noteq> []" "\<forall>e \<in> set es. proper_name e" "\<forall>e \<in> set es. plain_element e"
    and "trim_space (slash_path es) = slash_path es" and "normalizePlanPath pat = normalizeRemotePath pat"
  shows "hasPathPrefix (slash_path es) pat \<longleftrightarrow> remotePathHasPrefix (slash_path es) pat"
  using normalizePlanPath_plain [OF assms(1,3)] assms(4,5) normalize_slash_path [OF assms(2)]
  by (simp add: hasPathPrefix_def remotePathHasPrefix_def Let_def slash_path_def)

lemma prefix_excluded:
  assumes "es \<noteq> []" "\<forall>e \<in> set es. proper_name e" "remotePathHasPrefix (slash_path es) pat"
  shows "remotePathExcluded (slash_path es) pat"
proof -
  obtain rest where r: "normalizeRemotePath pat \<noteq> []" "es = split_on CHR ''/'' (normalizeRemotePath pat) @ rest"
    using assms(3) hasPrefix_slash [OF assms(1,2)] by blast
  let ?q = "split_on CHR ''/'' (normalizeRemotePath pat)"
  have "slash_path ?q = normalizeRemotePath pat" by (simp add: slash_path_def join_split_on)
  moreover have "\<forall>e \<in> set ?q. proper_name e" using r(2) assms(2) by (metis UnCI set_append)
  ultimately have "normalizeRemotePath (normalizeRemotePath pat) = normalizeRemotePath pat"
    using normalize_slash_path [of ?q] by simp
  then have "remotePathHasPrefix (slash_path es) (normalizeRemotePath pat)"
    using assms(3) by (simp add: remotePathHasPrefix_def)
  then show ?thesis using excluded_slash [OF assms(1,2)] r(1) by simp
qed

lemma admitted_path_planned:
  assumes p: "\<forall>e \<in> set (es @ [n]). proper_name e" "\<forall>e \<in> set (es @ [n]). plain_element e"
    and t: "trim_space (slash_path (es @ [n])) = slash_path (es @ [n])" and s: "same_paths cfg"
    and a: "shouldIncludeRemoteFile (slash_path (es @ [n])) (int (length es)) (walk_options cfg) (walk_depth (walk_options cfg))"
  shows "pathAllowed (slash_path (es @ [n])) (plan_filters cfg)"
proof -
  let ?p = "slash_path (es @ [n])"
  have norm: "normalizePlanPath ?p = ?p" using normalizePlanPath_plain [OF _ p(2)] t by (simp add: slash_path_def)
  have ne: "?p \<noteq> []" using slash_path_ends(1) [OF _ p(1)] by simp
  have pd: "pathDepth ?p = int (length es)" using pathDepth_plain [OF p(2)] t by (simp add: slash_path_def)
  have agree: "hasPathPrefix ?p q = remotePathHasPrefix ?p q" if "q \<in> set (scn_Path cfg) \<union> set (scn_ExcludePath cfg)" for q
    using prefix_tests_agree [OF _ p t] s that by (simp add: same_paths_def)
  have "\<not> (scn_MaxDepth cfg > 0 \<and> int (length es) > scn_MaxDepth cfg)"
    using a by (auto simp: shouldIncludeRemoteFile_def walk_depth_def walk_options_def split: if_splits)
  moreover have "\<not> hasPathPrefix ?p b" if "b \<in> set (scn_ExcludePath cfg)" for b
    using a that agree [of b] prefix_excluded [OF _ p(1), of b]
    by (auto simp: shouldIncludeRemoteFile_def walk_options_def split: if_splits)
  moreover have "scn_Path cfg = [] \<or> (\<exists>q \<in> set (scn_Path cfg). hasPathPrefix ?p q)"
    using a agree by (auto simp: shouldIncludeRemoteFile_def walk_options_def split: if_splits)
  ultimately show ?thesis
    using norm ne pd by (auto simp: pathAllowed_def plan_filters_def Let_def)
qed


subsection \<open>A share is scanned completely\<close>

definition plain_names :: "directory \<Rightarrow> bool" where
  "plain_names dir \<longleftrightarrow> (\<forall>p entries e. dir p = Inr entries \<longrightarrow> e \<in> set entries \<longrightarrow> de_Name e \<noteq> ''..'')"

lemma reached_plain:
  assumes "proper_names dir" "plain_names dir"
  shows "reached dir es \<Longrightarrow> \<forall>e \<in> set es. plain_element e"
proof (induction rule: reached.induct)
  case (below es entries e)
  have "proper_name (de_Name e)" using assms(1) below.hyps(2,3) unfolding proper_names_def by blast
  moreover have "de_Name e \<noteq> ''..''" using assms(2) below.hyps(2,3) unfolding plain_names_def by blast
  ultimately show ?case using below.IH by (simp add: proper_name_def plain_element_def)
qed simp

lemma admitted_kept:
  assumes "proper_names dir" "plain_names dir" "same_paths (hs_cfg c)" "scanShareAllowed share (hs_cfg c)"
    and f: "f \<in> admitted_files host share (walk_options (hs_cfg c)) dir" and t: "trim_space (rf_Path f) = rf_Path f"
  shows "kept_by_plan c f"
proof -
  obtain es entries e where e: "reached dir es" "dir (remote_path es) = Inr entries" "e \<in> set entries"
      "f = remote_file host share (remote_path es) e"
      "shouldIncludeRemoteFile (slash_path (es @ [de_Name e])) (int (length es)) (walk_options (hs_cfg c)) (walk_depth (walk_options (hs_cfg c)))"
    using f by (auto simp: admitted_files_def)
  have p: "\<forall>x \<in> set (es @ [de_Name e]). proper_name x"
    using reached_proper [OF e(1) assms(1)] e(2,3) assms(1) by (auto simp: proper_names_def)
  have pl: "\<forall>x \<in> set (es @ [de_Name e]). plain_element x"
    using reached_plain [OF assms(1,2) e(1)] e(2,3) assms(2) p by (auto simp: plain_names_def plain_element_def proper_name_def)
  have path: "rf_Path f = slash_path (es @ [de_Name e])" "rf_Share f = share"
    using p join_remote_path [of es "de_Name e"] normalize_remote_path [of "es @ [de_Name e]"] by (simp_all add: e(4) remote_file_def)
  show ?thesis
    using admitted_path_planned [OF p pl _ assms(3) e(5)] t assms(4)
    by (simp add: kept_by_plan_def path scanShareAllowed_filters)
qed

text \<open>
  C1: The batches lose no file. While the context is open, when the walk meets only directories that are
  denied or gone, when the files differ in their lower-case paths and no path has white space at its ends,
  and when the planner reads the configured paths as the walk does: the share is walked to its end, every
  file the walk admits is handed to the workers unless the checkpoint says it is complete, and no other.
\<close>

theorem every_admitted_file_sent:
  assumes "open_context c" and "io_mount (hs_io c) (pt_Share share) = Inr dir"
    and "proper_names dir" and "plain_names dir" and "only_denied dir"
    and "scanShareAllowed (pt_Share share) (hs_cfg c)" and "same_paths (hs_cfg c)"
    and "told_apart (admitted_files (hs_server c) (pt_Share share) (walk_options (hs_cfg c)) dir)"
  shows "\<exists>s' sent skipped. scan_share c share s = (s', Walked) \<and> ss_queue s' = ss_queue s @ jobs_of c share sent \<and>
    found_done c s' skipped \<and>
    snd ` set sent \<union> set skipped = admitted_files (hs_server c) (pt_Share share) (walk_options (hs_cfg c)) dir"
proof -
  let ?files = "files_of (visit_dir (hs_server c) (pt_Share share) (walk_options (hs_cfg c)) dir ([], 0))"
  let ?A = "admitted_files (hs_server c) (pt_Share share) (walk_options (hs_cfg c)) dir"
  have A: "set ?files = ?A" using visit_files [OF assms(3)] files_of_set by blast
  obtain s' sent skipped where r: "scan_share c share s = (s', Walked)" "ss_queue s' = ss_queue s @ jobs_of c share sent"
      "found_done c s' skipped" "mset (map snd sent) + mset skipped = mset (filter (kept_by_plan c) ?files)"
    using scan_share_open [OF assms(1,2,5) refl] assms(8) A by metis
  have "filter (kept_by_plan c) ?files = ?files"
    using admitted_kept [OF assms(3,4,7,6)] A assms(8) by (auto simp: told_apart_def filter_id_conv)
  then have "snd ` set sent \<union> set skipped = ?A"
    using r(4) A by (metis list.set_map set_mset_mset set_mset_union)
  then show ?thesis using r by blast
qed

subsection \<open>When a share is recorded as complete\<close>

definition told_of :: "string \<Rightarrow> int \<Rightarrow> scan_state \<Rightarrow> scan_state \<Rightarrow> bool" where
  "told_of K a s s' \<longleftrightarrow> (\<exists>es. ss_events s' = ss_events s @ es \<and> (\<forall>e \<in> set es. quiet K e) \<and> total (added K) es = a)"

abbreviation sent_since :: "scan_state \<Rightarrow> scan_state \<Rightarrow> int" where
  "sent_since s s' \<equiv> int (length (ss_queue s')) - int (length (ss_queue s))"

lemma told_refl: "ss_events s' = ss_events s \<Longrightarrow> told_of K 0 s s'"
  by (simp add: told_of_def)

lemma told_trans: "told_of K a s t \<Longrightarrow> told_of K b t u \<Longrightarrow> told_of K (a + b) s u"
  by (force simp: told_of_def)

lemma told_update [simp]: "told_of K a s (t\<lparr>ss_queue := q\<rparr>) = told_of K a s t" "told_of K a s (t\<lparr>ss_index := ix\<rparr>) = told_of K a s t"
  "told_of K a s (t\<lparr>ss_inputs := is\<rparr>) = told_of K a s t" "told_of K a (t\<lparr>ss_queue := q\<rparr>) s = told_of K a t s"
  by (simp_all add: told_of_def)

lemma told_results: "told_of K 0 s (foldl (on_complete c) s rs)"
proof (induction rs arbitrary: s)
  case (Cons r rs)
  have "told_of K 0 s (on_complete c s r)" by (simp add: told_of_def on_complete_def tell_def Let_def)
  then show ?case using told_trans [OF _ Cons.IH] by fastforce
qed (simp add: told_refl)

lemma told_wait: "told_of K 0 s (wait c s)"
  using told_results by (simp add: wait_def told_of_def)

lemma flush_loop_told:
  "flush_loop c share plans queued s = (s', Some queued') \<Longrightarrow>
   told_of K 0 s s' \<and> sent_since s s' = queued' - queued \<and> queued \<le> queued'"
proof (induction c share plans queued s rule: flush_loop.induct)
  case (2 c share plan plans queued s)
  have w: "told_of K 0 s u" if "told_of K 0 (wait c s) u" for u
    using told_trans [OF told_wait that] by simp
  show ?case
  proof (cases "ss_index s (to_lower (pt_Path plan))")
    case None
    then show ?thesis using 2(1,4) by simp
  next
    case (Some remote)
    show ?thesis
    proof (cases "file_done c (wait c s) remote")
      case True
      then show ?thesis using 2(2) [OF Some refl True] 2(4) Some w by simp
    next
      case False
      then have ctx: "io_context (hs_io c) (ss_tick (wait c s)) = Alive"
        using 2(4) Some by (cases "io_context (hs_io c) (ss_tick (wait c s))") (simp_all add: Let_def)
      then show ?thesis using 2(3) [OF Some refl False ctx] 2(4) Some False w by (simp add: Let_def)
    qed
  qed
qed (simp add: told_refl)

lemma flushBatch_told:
  assumes "hs_checkpoints c \<noteq> None" and "flushBatch c share s = (s', True)"
  shows "told_of (ShareKey (hs_host c) (pt_Share share)) (sent_since s s') s s'"
proof (cases "ss_inputs s = []")
  case True
  then show ?thesis using assms(2) by (simp add: flushBatch_def told_refl)
next
  case False
  let ?K = "ShareKey (hs_host c) (pt_Share share)"
  obtain s1 n where f: "flush_loop c share (PlanFiles (ss_inputs s) (plan_filters (hs_cfg c))) 0 s = (s1, Some n)"
      "s' = (tell c (EvAdd (hs_host c) (pt_Share share) n) (wait c s1))\<lparr>ss_index := Map.empty, ss_inputs := []\<rparr>"
    using assms(2) False by (auto simp: flushBatch_def split: prod.splits option.splits)
  have l: "told_of ?K 0 s s1" "sent_since s s1 = n" "0 \<le> n" using flush_loop_told [OF f(1)] by simp_all
  have "told_of ?K n (wait c s1) (tell c (EvAdd (hs_host c) (pt_Share share) n) (wait c s1))"
    using assms(1) l(3) by (simp add: told_of_def tell_def)
  from told_trans [OF told_trans [OF l(1) told_wait] this] show ?thesis using l(2) by (simp add: f(2))
qed

lemma on_file_told:
  assumes "hs_checkpoints c \<noteq> None" and "on_file c share s f = (s', None)"
  shows "told_of (ShareKey (hs_host c) (pt_Share share)) (sent_since s s') s s'"
proof -
  let ?s1 = "s\<lparr>ss_inputs := ss_inputs s @ [file_input c share f], ss_index := (ss_index s)(to_lower (rf_Path f) \<mapsto> f)\<rparr>"
  consider "s' = s" | "s' = ?s1" | "flushBatch c share ?s1 = (s', True)"
    using assms(2) by (auto simp: on_file_def Let_def split: if_splits prod.splits bool.splits)
  then show ?thesis
  proof cases
    case 3
    have "told_of (ShareKey (hs_host c) (pt_Share share)) (sent_since ?s1 s') ?s1 s'"
      using assms(1) 3 by (rule flushBatch_told)
    then show ?thesis by (simp add: told_of_def)
  qed (simp_all add: told_of_def)
qed

lemma deliver_told:
  assumes "hs_checkpoints c \<noteq> None"
  shows "deliver (on_file c share) evs s = (s', None) \<Longrightarrow> told_of (ShareKey (hs_host c) (pt_Share share)) (sent_since s s') s s'"
proof (induction evs arbitrary: s)
  case (Cons ev evs)
  then obtain f where ev: "ev = Report f" by (cases ev) auto
  obtain s1 where s1: "on_file c share s f = (s1, None)" "deliver (on_file c share) evs s1 = (s', None)"
    using Cons.prems by (auto simp: ev split: prod.splits option.splits)
  from told_trans [OF on_file_told [OF assms s1(1)] Cons.IH [OF s1(2)]] show ?case by (simp add: algebra_simps)
qed (simp add: told_refl)

lemma scan_share_told:
  assumes "hs_checkpoints c \<noteq> None" and "scan_share c share s = (s', Walked)"
  shows "\<exists>es. ss_events s' = ss_events s @ EvStart (hs_host c) (pt_Share share) # es @ [EvFinish (hs_host c) (pt_Share share)] \<and>
    (\<forall>e \<in> set es. quiet (ShareKey (hs_host c) (pt_Share share)) e) \<and>
    total (added (ShareKey (hs_host c) (pt_Share share))) es = sent_since s s'"
proof -
  let ?K = "ShareKey (hs_host c) (pt_Share share)" and ?s0 = "begin_share c share s"
  obtain s1 s2 where w: "WalkShareWithOptions (hs_server c) (pt_Share share) (walk_options (hs_cfg c)) (io_mount (hs_io c) (pt_Share share))
        (on_file c share) ?s0 = (s1, None)"
      and s2: "flushBatch c share s1 = (s2, True)" and s': "s' = tell c (EvFinish (hs_host c) (pt_Share share)) (wait c s2)"
    using assms(2) by (auto simp: scan_share_def Let_def split: prod.splits option.splits bool.splits if_splits)
  have "told_of ?K (sent_since ?s0 s1) ?s0 s1"
    using w deliver_told [OF assms(1)] by (auto simp: WalkShareWithOptions_def walk_loop_deliver split: sum.splits)
  from told_trans [OF told_trans [OF this flushBatch_told [OF assms(1) s2]] told_wait]
  have "told_of ?K (sent_since ?s0 s2) ?s0 (wait c s2)" by simp
  then obtain es where es: "ss_events (wait c s2) = ss_events ?s0 @ es" "\<forall>e \<in> set es. quiet ?K e" "total (added ?K) es = sent_since ?s0 s2"
    unfolding told_of_def by blast
  have b: "ss_events ?s0 = ss_events s @ [EvStart (hs_host c) (pt_Share share)]" "ss_queue ?s0 = ss_queue s"
    using assms(1) by (simp_all add: begin_share_def tell_def)
  show ?thesis using es assms(1) by (intro exI [of _ es]) (simp add: s' tell_def b)
qed

text \<open>
  C2: A walked share is recorded as complete exactly when every job made of it has given its result and none
  failed. The share is one the checkpoint does not wait for and has not recorded; results may come in while
  the share is walked and after it, mixed with those of other shares; each job gives at most one.
\<close>

theorem walked_share_complete_iff:
  assumes "hs_checkpoints c = Some m0" and "Enabled m0" and "ShareKey (hs_host c) (pt_Share share) \<noteq> []"
    and "checkpoint_now c s = Some m" and "mg_pending m (ShareKey (hs_host c) (pt_Share share)) = None"
    and "\<not> IsShareComplete (mg_store m) (hs_host c) (pt_Share share)"
    and "scan_share c share s = (s', Walked)"
    and "\<And>e. e \<in> set later \<Longrightarrow> quiet (ShareKey (hs_host c) (pt_Share share)) e \<and> added (ShareKey (hs_host c) (pt_Share share)) e = 0"
    and "results = drop (length (ss_events s)) (ss_events s') @ later"
    and "total (recorded (ShareKey (hs_host c) (pt_Share share))) results \<le> sent_since s s'"
  shows "IsShareComplete (mg_store (run m0 (ss_events s' @ later))) (hs_host c) (pt_Share share) \<longleftrightarrow>
    total (recorded (ShareKey (hs_host c) (pt_Share share))) results = sent_since s s' \<and>
    (\<forall>e \<in> set results. \<not> failing (ShareKey (hs_host c) (pt_Share share)) e)"
proof -
  let ?K = "ShareKey (hs_host c) (pt_Share share)"
  let ?start = "EvStart (hs_host c) (pt_Share share)" and ?finish = "EvFinish (hs_host c) (pt_Share share)"
  obtain es where es: "ss_events s' = ss_events s @ ?start # es @ [?finish]" "\<And>e. e \<in> set es \<Longrightarrow> quiet ?K e"
      "total (added ?K) es = sent_since s s'"
    using scan_share_told [OF _ assms(7)] assms(1) by blast
  have m: "m = run m0 (ss_events s)" using assms(1,4) by (simp add: checkpoint_now_def)
  have r: "results = ?start # es @ ?finish # later" using assms(9) es(1) by simp
  have "total (recorded ?K) (es @ later) \<le> total (added ?K) es" using assms(10) es(3) r by simp
  from share_complete_iff [OF _ assms(3,5,6) es(2) assms(8) this]
  have "IsShareComplete (mg_store (run m (?start # es @ ?finish # later))) (hs_host c) (pt_Share share) \<longleftrightarrow>
      total (recorded ?K) (es @ later) = total (added ?K) es \<and> (\<forall>e \<in> set (es @ later). \<not> failing ?K e)"
    using assms(2) m by simp
  then show ?thesis using es r m by (simp del: step.simps)
qed


subsection \<open>Concrete scans\<close>

definition demo_file_entry :: "string \<Rightarrow> dir_entry" where
  "demo_file_entry name = \<lparr>de_Name = name, de_Size = 9, de_ModTime = 1, de_IsDir = False\<rparr>"

definition demo_flat :: "string list \<Rightarrow> directory" where
  "demo_flat names p =
     (if p = [] then Inr (map demo_file_entry names)
      else Inl \<lparr>se_text = ''gone'', se_permission = False, se_notexist = True, se_timeout = False\<rparr>)"

definition demo_io :: "directory \<Rightarrow> scan_io" where
  "demo_io dir = \<lparr>io_connect = None, io_shares = Inr [], io_mount = (\<lambda>share. Inr dir), io_order = (\<lambda>hs. hs),
     io_context = (\<lambda>n. Alive), io_results = (\<lambda>n. if n = 2 then [(0, True)] else []), io_pool = None\<rparr>"

definition demo_scan :: "directory \<Rightarrow> Manager option \<Rightarrow> host_scan" where
  "demo_scan dir checkpoints = \<lparr>hs_host = ''fs01'', hs_server = ''fs01'', hs_cfg = default_scan, hs_hints = [], hs_infos = Map.empty,
     hs_io = demo_io dir, hs_checkpoints = checkpoints\<rparr>"

definition demo_share :: PlannedTarget where
  "demo_share = \<lparr>pt_Host = ''fs01'', pt_Share = ''data'', pt_Path = [], pt_Priority = 10, pt_Reason = [], pt_Source = ''cli''\<rparr>"

definition scanned_paths :: "scan_state \<Rightarrow> string list" where
  "scanned_paths s = map (\<lambda>j. m_FilePath (sj_Metadata j)) (ss_queue s)"

text \<open>Two files whose paths differ in case only: the second is scanned twice, the first never.\<close>

lemma colliding_names_scanned_twice:
  "scanned_paths (fst (scan_share (demo_scan (demo_flat [''Key.pem'', ''key.pem'']) None) demo_share (empty_state []))) =
     [''key.pem'', ''key.pem'']"
  by code_simp

text \<open>A file whose name begins with a space is not found again in its batch.\<close>

lemma spaced_name_never_scanned:
  "scanned_paths (fst (scan_share (demo_scan (demo_flat ['' passwords.txt'', ''b.txt'']) None) demo_share (empty_state []))) = [''b.txt'']"
  by code_simp


text \<open>The time limit of the scan, met while a batch is handed out, counts as a time out of the host.\<close>

lemma deadline_is_smb_timeout:
  "IsTimeoutError (context_smb_error DeadlineExceeded)" "\<not> IsTimeoutError (context_smb_error Canceled)"
  by code_simp+

text \<open>An included path written with backslashes: the walk admits the file, the planner drops it.\<close>

lemma backslash_path_drops_all:
  "shouldIncludeRemoteFile ''Finance/Reports/x.txt'' 2 (walk_options (default_scan\<lparr>scn_Path := [''Finance'' @ [CHR 0x5C] @ ''Reports'']\<rparr>)) 64"
  "\<not> pathAllowed ''Finance/Reports/x.txt'' (plan_filters (default_scan\<lparr>scn_Path := [''Finance'' @ [CHR 0x5C] @ ''Reports'']\<rparr>))"
  by code_simp+

lemma demo_flat_ok: "proper_names (demo_flat [''a.config''])" "plain_names (demo_flat [''a.config''])" "only_denied (demo_flat names)"
  by (auto simp: proper_names_def plain_names_def only_denied_def demo_flat_def demo_file_entry_def proper_name_def split: if_splits)

definition demo_remote :: RemoteFile where
  "demo_remote = remote_file ''fs01'' ''data'' [] (demo_file_entry ''a.config'')"

lemma demo_admitted: "admitted_files ''fs01'' ''data'' (walk_options default_scan) (demo_flat [''a.config'']) = {demo_remote}"
proof -
  have f: "files_of (visit_dir ''fs01'' ''data'' (walk_options default_scan) (demo_flat [''a.config'']) ([], 0)) = [demo_remote]"
    by code_simp
  have "f \<in> admitted_files ''fs01'' ''data'' (walk_options default_scan) (demo_flat [''a.config'']) \<longleftrightarrow> f \<in> {demo_remote}" for f
    using visit_files [OF demo_flat_ok(1), of f "''fs01''" "''data''" "walk_options default_scan"]
      files_of_set [of f "visit_dir ''fs01'' ''data'' (walk_options default_scan) (demo_flat [''a.config'']) ([], 0)"] f
    by (simp add: eq_commute)
  then show ?thesis by blast
qed

theorem every_admitted_file_sent_witness:
  "\<exists>s' sent. scan_share (demo_scan (demo_flat [''a.config'']) None) demo_share (empty_state []) = (s', Walked) \<and>
    ss_queue s' = jobs_of (demo_scan (demo_flat [''a.config'']) None) demo_share sent \<and> snd ` set sent = {demo_remote}"
proof -
  let ?c = "demo_scan (demo_flat [''a.config'']) None"
  have p: "hs_server ?c = ''fs01''" "hs_cfg ?c = default_scan" "pt_Share demo_share = ''data''" "open_context ?c"
    "hs_checkpoints ?c = None" "io_mount (hs_io ?c) ''data'' = Inr (demo_flat [''a.config''])" "same_paths default_scan"
    by (simp_all add: demo_scan_def demo_share_def open_context_def demo_io_def same_paths_def default_scan_def)
  have "scanShareAllowed ''data'' default_scan" "trim_space (rf_Path demo_remote) = rf_Path demo_remote" by code_simp+
  then show ?thesis
    using every_admitted_file_sent [of ?c demo_share "demo_flat [''a.config'']" "empty_state []"] demo_flat_ok demo_admitted
      no_checkpoint_found [OF p(5)]
    by (auto simp: p told_apart_def empty_state_def)
qed

theorem walked_share_complete_iff_witness:
  "IsShareComplete (mg_store (run demo_manager
     (ss_events (fst (scan_share (demo_scan (demo_flat [''a.config'']) (Some demo_manager)) demo_share (empty_state [])))))) ''fs01'' ''data''"
proof -
  let ?c = "demo_scan (demo_flat [''a.config'']) (Some demo_manager)"
  let ?r = "scan_share ?c demo_share (empty_state [])" and ?K = "ShareKey ''fs01'' ''data''"
  have p: "hs_host ?c = ''fs01''" "hs_checkpoints ?c = Some demo_manager" "pt_Share demo_share = ''data''"
    "ss_events (empty_state []) = []" "ss_queue (empty_state []) = []"
    by (simp_all add: demo_scan_def demo_share_def empty_state_def)
  have e: "snd ?r = Walked" "ss_events (fst ?r) = [EvStart ''fs01'' ''data'', EvAdd ''fs01'' ''data'' 1,
      EvResult ''fs01'' ''data'' ''a.config'' 9 1 True, EvFinish ''fs01'' ''data'']" "length (ss_queue (fst ?r)) = 1" "?K \<noteq> []"
    by code_simp+
  have now: "checkpoint_now ?c (empty_state []) = Some demo_manager" by (simp add: checkpoint_now_def p)
  show ?thesis
    using walked_share_complete_iff [of ?c demo_manager demo_share "empty_state []" demo_manager "fst ?r" "[]" "ss_events (fst ?r)"]
      demo_manager_facts now e by (simp add: p prod_eq_iff)
qed

end
