(* ===== verification/ScanRun.thy ===== *)
theory ScanRun
  imports HostScan
begin

text \<open>
  A whole scan (\<open>RunScan\<close> of \<open>internal/app/scan.go\<close>): the credentials that are tested first
  (\<open>preflight.go\<close>), the hosts that are planned, the audit of the targets (\<open>scanned_targets.go\<close>), and the
  loop over the hosts with the checkpoint. What the files, the network, the rule set and the user's cancel
  key answer are arguments; progress displays and log lines are left out.
\<close>

subsection \<open>Preflight\<close>

definition scanPreflightValidators :: "Config \<Rightarrow> LDAPOptions list" where
  "scanPreflightValidators cfg =
     (let s = cg_Scan cfg in
      if requiresLDAPPreflight s then
        [\<lparr>lo_Username = scn_Username s, lo_Password = scn_Password s, lo_Domain = scn_Domain s,
          lo_DomainController = scn_DomainController s, lo_BaseDN = scn_BaseDN s, lo_AuthMethod = scn_LDAPAuth s,
          lo_Transport = scn_LDAPTransport s\<rparr>]
      else [])"

fun first_invalid :: "(LDAPOptions \<Rightarrow> string option) \<Rightarrow> LDAPOptions list \<Rightarrow> string option" where
  "first_invalid check [] = None"
| "first_invalid check (opts # rest) = (case check opts of Some err \<Rightarrow> Some err | None \<Rightarrow> first_invalid check rest)"

datatype run_error =
    ConfigFailed config_error
  | Rejected config_rejected
  | PreflightFailed string
  | ContextEnded context_state
  | RulesFailed string
  | RuleIssues nat
  | CheckpointFailed open_error
  | DiscoveryFailed collect_error
  | NoTargets
  | AuditFailed string
  | OutputFailed string
  | BaselineFailed string
  | HostsFailed "host_error list"
  | CloseFailed string

text \<open>\<open>slept\<close>: the state of the context after the pause that shows the result.\<close>

definition runScanPreflight :: "(LDAPOptions \<Rightarrow> string option) \<Rightarrow> Config \<Rightarrow> bool \<Rightarrow> context_state \<Rightarrow> run_error option" where
  "runScanPreflight check cfg useInteractiveTUI slept =
     (let validators = scanPreflightValidators cfg in
      if validators = [] then None
      else case first_invalid check validators of
             Some err \<Rightarrow> Some (PreflightFailed err)
           | None \<Rightarrow> if \<not> useInteractiveTUI \<or> slept = Alive then None else Some (ContextEnded slept))"

subsection \<open>Hosts\<close>

definition host_input :: "Target \<Rightarrow> HostInput list" where
  "host_input target =
     (if trim_space (tg_Hostname target) \<noteq> [] then [\<lparr>hi_Host = tg_Hostname target, hi_Source = tg_Source target\<rparr>]
      else if trim_space (tg_IP target) \<noteq> [] then [\<lparr>hi_Host = tg_IP target, hi_Source = tg_Source target\<rparr>]
      else [])"

definition host_inputs :: "Target list \<Rightarrow> HostInput list" where
  "host_inputs targets = concat (map host_input targets)"

subsection \<open>The audit of the targets\<close>

record scannedTargetRecord =
  au_Input :: string
  au_Host :: string
  au_IP :: string
  au_Source :: string
  au_Reachable :: bool
  au_Scanned :: bool
  au_SkipReason :: string

definition normalizeTargetAuditValue :: "string \<Rightarrow> string" where
  "normalizeTargetAuditValue v = to_lower (trim_space v)"

fun audit_firstNonEmpty :: "string list \<Rightarrow> string" where
  "audit_firstNonEmpty [] = []"
| "audit_firstNonEmpty (v # vs) = (if trim_space v \<noteq> [] then trim_space v else audit_firstNonEmpty vs)"

definition audit_record :: "string set \<Rightarrow> Target \<Rightarrow> scannedTargetRecord" where
  "audit_record scannedHosts target =
     (let host = normalizeTargetAuditValue (audit_firstNonEmpty [tg_Hostname target, tg_IP target]);
          ip = trim_space (tg_IP target);
          scanned = (host \<in> scannedHosts \<or> (ip \<noteq> [] \<and> normalizeTargetAuditValue ip \<in> scannedHosts))
      in \<lparr>au_Input = trim_space (tg_Input target),
          au_Host = trim_space (audit_firstNonEmpty [tg_Hostname target, tg_IP target]), au_IP = ip,
          au_Source = trim_space (tg_Source target), au_Reachable = tg_Reachable445 target, au_Scanned = scanned,
          au_SkipReason = (if \<not> tg_Reachable445 target then ''unreachable'' else if \<not> scanned then ''not planned'' else [])\<rparr>)"

definition audit_less :: "scannedTargetRecord \<Rightarrow> scannedTargetRecord \<Rightarrow> bool" where
  "audit_less a b =
     (let left = to_lower (au_Host a); right = to_lower (au_Host b) in
      if left = right then
        (if to_lower (au_IP a) = to_lower (au_IP b) then
           (if to_lower (au_Source a) = to_lower (au_Source b) then to_lower (au_Input a) < to_lower (au_Input b)
            else to_lower (au_Source a) < to_lower (au_Source b))
         else to_lower (au_IP a) < to_lower (au_IP b))
      else left < right)"

definition buildScannedTargetRecords :: "PipelineResult \<Rightarrow> PlannedTarget list \<Rightarrow> scannedTargetRecord list" where
  "buildScannedTargetRecords result planned =
     (let scannedHosts = set (filter (\<lambda>h. h \<noteq> []) (map (\<lambda>item. normalizeTargetAuditValue (pt_Host item)) planned))
      in slice_sort audit_less (map (audit_record scannedHosts) (pr_AllTargets result)))"

definition boolWord :: "bool \<Rightarrow> string" where
  "boolWord v = (if v then ''yes'' else ''no'')"

definition valueOrDash :: "string \<Rightarrow> string" where
  "valueOrDash v = (if trim_space v = [] then ''-'' else trim_space v)"

definition tab :: string where "tab = [CHR 0x09]"
definition newline :: string where "newline = [CHR 0x0A]"

definition audit_line :: "scannedTargetRecord \<Rightarrow> string" where
  "audit_line r = join tab [valueOrDash (au_Source r), valueOrDash (au_Host r), valueOrDash (au_IP r),
     boolWord (au_Reachable r), boolWord (au_Scanned r), valueOrDash (au_SkipReason r), valueOrDash (au_Input r)] @ newline"

text \<open>The text of the audit file; \<open>now\<close> is the formatted time. \<open>mkdir\<close> and \<open>save\<close> are the errors of the two file operations.\<close>

definition scanned_targets_text :: "string \<Rightarrow> PipelineResult \<Rightarrow> PlannedTarget list \<Rightarrow> string" where
  "scanned_targets_text now result planned =
     ''# Snablr scanned target audit'' @ newline @
     ''# Generated: '' @ now @ newline @
     ''# Targets loaded: '' @ itoa (ts_Loaded (pr_Stats result)) @ newline @
     ''# Unique targets: '' @ itoa (ts_Unique (pr_Stats result)) @ newline @
     ''# Reachable SMB hosts: '' @ itoa (ts_Reachable (pr_Stats result)) @ newline @
     ''# Skipped targets: '' @ itoa (ts_Skipped (pr_Stats result)) @ newline @
     ''# Columns: '' @ join tab [''source'', ''host'', ''ip'', ''reachable'', ''scanned'', ''skip_reason'', ''input''] @ newline @
     concat (map audit_line (buildScannedTargetRecords result planned))"

definition writeScannedTargets ::
  "(string \<Rightarrow> string option) \<Rightarrow> (string \<Rightarrow> string \<Rightarrow> string option) \<Rightarrow> string \<Rightarrow> string \<Rightarrow> PipelineResult \<Rightarrow> PlannedTarget list \<Rightarrow> string option" where
  "writeScannedTargets mkdir save now path0 result planned =
     (let path = trim_space path0 in
      if path = [] then None
      else case (if path_dir path = ''.'' then None else mkdir (path_dir path)) of
             Some err \<Rightarrow> Some (''create scanned-targets directory: '' @ err)
           | None \<Rightarrow>
               (case save path (scanned_targets_text now result planned) of
                  Some err \<Rightarrow> Some (''write scanned targets audit '' @ path @ '': '' @ err)
                | None \<Rightarrow> None))"

subsection \<open>The loop over the hosts\<close>

definition error_canceled :: "host_error \<Rightarrow> bool" where
  "error_canceled err = (case err of SharesFailed errs \<Rightarrow> Stopped Canceled \<in> set (map snd errs) | _ \<Rightarrow> False)"

definition error_deadline :: "host_error \<Rightarrow> bool" where
  "error_deadline err = (case err of SharesFailed errs \<Rightarrow> Stopped DeadlineExceeded \<in> set (map snd errs)
     | PoolFailed PoolDeadline \<Rightarrow> True | _ \<Rightarrow> False)"

text \<open>
  What the loop is given: the checkpoint manager, the state of the context before the \<open>n\<close>-th host, whether
  the user has cancelled by then, and the scan of the \<open>n\<close>-th host: the calls on the manager after it, and
  its error.
\<close>

record host_runs =
  hr_checkpoints :: "Manager option"
  hr_context :: "nat \<Rightarrow> context_state"
  hr_user :: "nat \<Rightarrow> bool"
  hr_scan :: "nat \<Rightarrow> string \<Rightarrow> string \<Rightarrow> event list \<Rightarrow> event list \<times> host_error option"

record run_state =
  rn_events :: "event list"
  rn_scanned :: "string list"
  rn_timeouts :: "string list"
  rn_errs :: "host_error list"
  rn_processed :: nat

datatype run_end = Finished | TimeLimit | UserCanceled | RunStopped context_state

definition host_done :: "host_runs \<Rightarrow> run_state \<Rightarrow> string \<Rightarrow> bool" where
  "host_done r s host = (case hr_checkpoints r of None \<Rightarrow> False | Some m \<Rightarrow> ShouldSkipHost (run m (rn_events s)) host)"

definition processed :: "run_state \<Rightarrow> run_state" where
  "processed s = s\<lparr>rn_processed := rn_processed s + 1\<rparr>"

fun host_loop :: "host_runs \<Rightarrow> PlannedTarget list \<Rightarrow> nat \<Rightarrow> run_state \<Rightarrow> run_state \<times> run_end" where
  "host_loop r [] n s = (s, Finished)"
| "host_loop r (target # targets) n s =
     (case hr_context r n of
        DeadlineExceeded \<Rightarrow> (s, TimeLimit)
      | Canceled \<Rightarrow> (s, if hr_user r n then UserCanceled else RunStopped Canceled)
      | Alive \<Rightarrow>
          (if host_done r s (pt_Host target) then host_loop r targets (n + 1) (processed s)
           else case hr_scan r n (pt_Host target) (pt_Source target) (rn_events s) of
             (events, result) \<Rightarrow>
               (let s1 = s\<lparr>rn_events := events, rn_scanned := rn_scanned s @ [pt_Host target]\<rparr> in
                case result of
                  Some err \<Rightarrow>
                    if error_canceled err \<and> hr_user r n then (s1, UserCanceled)
                    else if error_deadline err then (processed s1, TimeLimit)
                    else if err = SMBTimeout
                    then host_loop r targets (n + 1) (processed (s1\<lparr>rn_timeouts := rn_timeouts s1 @ [pt_Host target]\<rparr>))
                    else host_loop r targets (n + 1) (processed (s1\<lparr>rn_errs := rn_errs s1 @ [err]\<rparr>))
                | None \<Rightarrow>
                    host_loop r targets (n + 1) (processed (if hr_checkpoints r = None then s1
                      else s1\<lparr>rn_events := rn_events s1 @ [EvHost (pt_Host target)]\<rparr>)))))"

definition run_result :: "bool \<Rightarrow> run_state \<times> run_end \<Rightarrow> run_error option" where
  "run_result user res =
     (case snd res of
        TimeLimit \<Rightarrow> None
      | UserCanceled \<Rightarrow> None
      | RunStopped ctx \<Rightarrow> Some (ContextEnded ctx)
      | Finished \<Rightarrow>
          if rn_errs (fst res) = [] then None
          else if list_ex error_canceled (rn_errs (fst res)) \<and> user then None
          else Some (HostsFailed (rn_errs (fst res))))"


text \<open>The scan of the hosts of a run: \<open>io\<close> gives what each host answers.\<close>

definition host_scanner :: "(nat \<Rightarrow> scan_io) \<Rightarrow> ScanConfig \<Rightarrow> Manager option \<Rightarrow> DFSTarget list \<Rightarrow>
    nat \<Rightarrow> string \<Rightarrow> string \<Rightarrow> event list \<Rightarrow> event list \<times> host_error option" where
  "host_scanner io cfg checkpoints dfsTargets n host source events =
     (case scanHost (io n) cfg checkpoints host source dfsTargets events of (s, err) \<Rightarrow> (ss_events s, err))"

definition start_run :: run_state where
  "start_run = \<lparr>rn_events = [], rn_scanned = [], rn_timeouts = [], rn_errs = [], rn_processed = 0\<rparr>"

subsection \<open>The run\<close>

text \<open>
  What a run finds: the configuration files, the rule set (an error, or the number of its issues), the
  checkpoint files, the network, the state of the context after discovery, the errors of the output, and
  the hosts. The sink does not exist before the hosts are planned, so no cancel by the user is seen before.
\<close>

record run_world =
  rw_env :: host_env
  rw_yaml :: yaml_files
  rw_duration :: "string \<Rightarrow> int option"
  rw_interactive :: bool
  rw_ldap :: "LDAPOptions \<Rightarrow> string option"
  rw_slept :: context_state
  rw_rules :: "Config \<Rightarrow> string + nat"
  rw_fs :: FS
  rw_network :: network
  rw_arrival :: "Target list \<Rightarrow> Target list"
  rw_discovered :: context_state
  rw_mkdir :: "string \<Rightarrow> string option"
  rw_save :: "string \<Rightarrow> string \<Rightarrow> string option"
  rw_now :: string
  rw_output :: "string option"
  rw_baseline :: "string \<Rightarrow> string option"
  rw_close :: "string option"
  rw_context :: "nat \<Rightarrow> context_state"
  rw_user :: "nat \<Rightarrow> bool"
  rw_host :: "nat \<Rightarrow> scan_io"

text \<open>The scan of the planned hosts, once the sink is open; closing it may fail, which is reported last.\<close>

definition scan_hosts :: "run_world \<Rightarrow> Config \<Rightarrow> Manager option \<Rightarrow> PipelineResult \<Rightarrow> PlannedTarget list \<Rightarrow>
    run_state \<times> run_error option" where
  "scan_hosts w cfg checkpoints resolved plannedHosts =
     (let baseline = trim_space (scn_Baseline (cg_Scan cfg));
          (s, err) = (case (if baseline = [] then None else rw_baseline w (scn_Baseline (cg_Scan cfg))) of
             Some e \<Rightarrow> (start_run, Some (BaselineFailed e))
           | None \<Rightarrow>
               (let res = host_loop \<lparr>hr_checkpoints = checkpoints, hr_context = rw_context w, hr_user = rw_user w,
                      hr_scan = host_scanner (rw_host w) (cg_Scan cfg) checkpoints (pr_DFSTargets resolved)\<rparr> plannedHosts 0 start_run
                in (fst res, run_result (rw_user w (length plannedHosts)) res)))
      in (s, case err of Some e \<Rightarrow> Some e | None \<Rightarrow> map_option CloseFailed (rw_close w)))"

definition run_configured :: "run_world \<Rightarrow> Config \<Rightarrow> run_state \<times> run_error option" where
  "run_configured w cfg =
     (let scan = cg_Scan cfg; stop = (\<lambda>err. (start_run, Some err)) in
      case rw_rules w cfg of
        Inl err \<Rightarrow> stop (RulesFailed err)
      | Inr issues \<Rightarrow>
          if issues > 0 then stop (RuleIssues issues)
          else case NewManager (scn_CheckpointFile scan) (scn_Resume scan) (10 * 1000000000) (rw_fs w) of
                 Inl err \<Rightarrow> stop (CheckpointFailed err)
               | Inr checkpoints \<Rightarrow>
                   (case rw_discovered w of
                      DeadlineExceeded \<Rightarrow> (start_run, None)
                    | Canceled \<Rightarrow> stop (ContextEnded Canceled)
                    | Alive \<Rightarrow>
                        (case Resolve (rw_network w) (rw_arrival w) scan of
                           Inl err \<Rightarrow> stop (DiscoveryFailed err)
                         | Inr resolved \<Rightarrow>
                             (let inputs = host_inputs (pr_ReachableTargets resolved); plannedHosts = PlanHosts inputs in
                              if inputs = [] then stop NoTargets
                              else case writeScannedTargets (rw_mkdir w) (rw_save w) (rw_now w) (cu_ScannedTargetsOut (cg_Output cfg))
                                      resolved plannedHosts of
                                     Some err \<Rightarrow> stop (AuditFailed err)
                                   | None \<Rightarrow>
                                       (case rw_output w of
                                          Some err \<Rightarrow> stop (OutputFailed err)
                                        | None \<Rightarrow> scan_hosts w cfg checkpoints resolved plannedHosts)))))"

definition RunScan :: "run_world \<Rightarrow> string \<Rightarrow> ScanOptions \<Rightarrow> run_state \<times> run_error option" where
  "RunScan w configPath opts =
     (case Load (rw_env w) (rw_yaml w) configPath of
        Inl err \<Rightarrow> (start_run, Some (ConfigFailed err))
      | Inr loaded \<Rightarrow>
          (let cfg = applyScanOverrides loaded opts in
           case validateScanConfig (rw_duration w) cfg of
             Some err \<Rightarrow> (start_run, Some (Rejected err))
           | None \<Rightarrow>
               (case runScanPreflight (rw_ldap w) cfg (\<not> cu_NoTUI (cg_Output cfg) \<and> rw_interactive w) (rw_slept w) of
                  Some err \<Rightarrow> (start_run, Some err)
                | None \<Rightarrow> run_configured w cfg)))"

subsection \<open>The scan of a host only adds to the calls on the checkpoint\<close>

lemma flush_loop_grows: "grown s (fst (flush_loop c share plans queued s))"
proof (induction c share plans queued s rule: flush_loop.induct)
  case (2 c share plan plans queued s)
  have w: "grown s u" if "grown (wait c s) u" for u using grown_wait that by (rule grown_trans)
  show ?case
  proof (cases "ss_index s (to_lower (pt_Path plan))")
    case None
    then show ?thesis using 2(1) by simp
  next
    case (Some remote)
    show ?thesis
      using 2(2) [OF Some refl] 2(3) [OF Some refl] Some w by (auto simp: Let_def split: context_state.splits)
  qed
qed simp

lemma flushBatch_grows: "grown s (fst (flushBatch c share s))"
proof -
  obtain s1 r where f: "flush_loop c share (PlanFiles (ss_inputs s) (plan_filters (hs_cfg c))) 0 s = (s1, r)" by force
  then have "grown s s1" using flush_loop_grows [of s c share _ 0] by (metis fst_conv)
  moreover have "grown s1 (tell c ev (wait c s1))" for ev using grown_wait grown_tell by (rule grown_trans)
  ultimately have "grown s s1" "grown s (tell c ev (wait c s1))" for ev by (auto intro: grown_trans)
  then show ?thesis by (cases r) (simp_all add: flushBatch_def f)
qed

lemma on_file_grows: "grown s (fst (on_file c share s f))"
proof -
  let ?s1 = "s\<lparr>ss_inputs := ss_inputs s @ [file_input c share f], ss_index := (ss_index s)(to_lower (rf_Path f) \<mapsto> f)\<rparr>"
  have "grown s ?s1" by simp
  then have "grown s (fst (flushBatch c share ?s1))" using flushBatch_grows by (rule grown_trans)
  then show ?thesis by (auto simp: on_file_def Let_def split: prod.splits bool.splits)
qed

lemma scan_share_grows: "grown s (fst (scan_share c share s))"
proof -
  let ?w = "WalkShareWithOptions (hs_server c) (pt_Share share) (walk_options (hs_cfg c)) (io_mount (hs_io c) (pt_Share share)) (on_file c share)
      (begin_share c share s)"
  have "grown s (begin_share c share s)" by (simp add: begin_share_def grown_def tell_def)
  then have w: "grown s (fst ?w)"
    by (rule walk_invariant [rotated]) (rule grown_trans [OF _ on_file_grows])
  have f: "grown s (fst (flushBatch c share (fst ?w)))" using w flushBatch_grows by (rule grown_trans)
  have t: "grown s u \<Longrightarrow> grown s (tell c ev u)" "grown s u \<Longrightarrow> grown s (wait c u)" for u ev
    using grown_trans grown_tell grown_wait by blast+
  show ?thesis using w f t
    by (auto simp: scan_share_def Let_def split: prod.splits option.splits bool.splits)
qed

lemma share_loop_grows: "grown s (fst (share_loop c shares s errs))"
proof (induction c shares s errs rule: share_loop.induct)
  case (2 c share shares s errs)
  obtain s2 r where r: "scan_share c share (wait c s) = (s2, r)" by force
  have w1: "grown s (wait c s)" and w2: "grown s s2"
    using grown_trans [OF grown_wait scan_share_grows [of "wait c s" c share]] r by simp_all
  show ?case
    using 2(1) [OF refl] 2(2,3) [OF refl _ r [symmetric]] r w2 grown_trans [OF w1] grown_trans [OF w2]
    by (cases r; cases "share_done_before c share (wait c s)") (auto simp: Let_def)
qed simp

lemma scanHost_grows: "\<exists>es. ss_events (fst (scanHost io cfg checkpoints host source dfsTargets events)) = events @ es"
proof -
  have "grown (empty_state events) (fst (scanHost io cfg checkpoints host source dfsTargets events))"
    using grown_trans [OF share_loop_grows grown_wait]
    by (auto simp: scanHost_def Let_def split_beta split: option.splits sum.splits)
  then show ?thesis by (simp add: grown_def empty_state_def)
qed


subsection \<open>Which hosts a run scans\<close>

lemma host_loop_scanned:
  "set (rn_scanned (fst (host_loop r targets n s))) \<subseteq> set (rn_scanned s) \<union> pt_Host ` set targets"
proof (induction r targets n s rule: host_loop.induct)
  case (2 r target targets n s)
  obtain events result where sc: "hr_scan r n (pt_Host target) (pt_Source target) (rn_events s) = (events, result)" by force
  show ?case
  proof (cases "hr_context r n = Alive \<and> \<not> host_done r s (pt_Host target)")
    case True
    then show ?thesis
      using 2(2-4) [OF _ _ sc [symmetric] refl] sc
      by (cases result) (auto simp: Let_def processed_def)
  next
    case False
    then show ?thesis
      using 2(1) by (cases "hr_context r n") (auto simp: processed_def)
  qed
qed simp

lemma host_inputs_hosts:
  "i \<in> set (host_inputs targets) \<Longrightarrow> trim_space (hi_Host i) \<noteq> [] \<and> (\<exists>t \<in> set targets. hi_Host i \<in> {tg_Hostname t, tg_IP t})"
  by (auto simp: host_inputs_def host_input_def split: if_splits)

lemma planned_hosts:
  assumes "p \<in> set (PlanHosts (host_inputs targets))"
  shows "pt_Host p \<noteq> [] \<and> trim_space (pt_Host p) = pt_Host p \<and>
    (\<exists>t \<in> set targets. pt_Host p \<in> {trim_space (tg_Hostname t), trim_space (tg_IP t)})"
proof -
  obtain i where "i \<in> set (host_inputs targets)" "pt_Host p = trim_space (hi_Host i)"
    using assms by (auto simp: PlanHosts_def sortPlanned_def plannedHost_def split_beta)
  then show ?thesis using host_inputs_hosts [of i targets] by auto
qed

lemma run_configured_scanned:
  assumes "h \<in> set (rn_scanned (fst (run_configured w cfg)))"
  shows "rw_rules w cfg = Inr 0 \<and> (\<exists>resolved. Resolve (rw_network w) (rw_arrival w) (cg_Scan cfg) = Inr resolved \<and>
    (\<exists>t \<in> set (pr_ReachableTargets resolved). h \<in> {trim_space (tg_Hostname t), trim_space (tg_IP t)}))"
proof -
  have st: "rn_scanned start_run = []" by (simp add: start_run_def)
  have sc: "x \<in> pt_Host ` set planned" if "x \<in> set (rn_scanned (fst (scan_hosts w cfg checkpoints resolved planned)))"
    for x planned checkpoints resolved
    using that host_loop_scanned [of _ planned 0 start_run]
    by (force simp: scan_hosts_def Let_def st split: option.splits if_splits)
  obtain resolved where r: "rw_rules w cfg = Inr 0" "Resolve (rw_network w) (rw_arrival w) (cg_Scan cfg) = Inr resolved"
      "h \<in> pt_Host ` set (PlanHosts (host_inputs (pr_ReachableTargets resolved)))"
    using assms sc st
    by (auto simp: run_configured_def Let_def split: sum.splits option.splits if_splits context_state.splits)
  then show ?thesis using planned_hosts by blast
qed

text \<open>
  C5: A host is scanned only after everything before the scan went well: the configuration was loaded and
  passed validation, the credentials passed the preflight, the rule set loaded without an issue, and the
  host is the name or the address of a target that discovery gave as reachable.
\<close>

theorem scan_follows_checks:
  assumes "h \<in> set (rn_scanned (fst (RunScan w configPath opts)))"
  shows "\<exists>loaded resolved. Load (rw_env w) (rw_yaml w) configPath = Inr loaded \<and>
    validateScanConfig (rw_duration w) (applyScanOverrides loaded opts) = None \<and>
    first_invalid (rw_ldap w) (scanPreflightValidators (applyScanOverrides loaded opts)) = None \<and>
    rw_rules w (applyScanOverrides loaded opts) = Inr 0 \<and>
    Resolve (rw_network w) (rw_arrival w) (cg_Scan (applyScanOverrides loaded opts)) = Inr resolved \<and>
    (\<exists>t \<in> set (pr_ReachableTargets resolved). h \<in> {trim_space (tg_Hostname t), trim_space (tg_IP t)})"
proof -
  have st: "rn_scanned start_run = []" by (simp add: start_run_def)
  obtain loaded where l: "Load (rw_env w) (rw_yaml w) configPath = Inr loaded"
    using assms st by (auto simp: RunScan_def split: sum.splits)
  let ?cfg = "applyScanOverrides loaded opts"
  have v: "validateScanConfig (rw_duration w) ?cfg = None"
    using assms l st by (auto simp: RunScan_def Let_def split: option.splits)
  have p: "runScanPreflight (rw_ldap w) ?cfg (\<not> cu_NoTUI (cg_Output ?cfg) \<and> rw_interactive w) (rw_slept w) = None"
    using assms l v st by (auto simp: RunScan_def Let_def split: option.splits)
  then have f: "first_invalid (rw_ldap w) (scanPreflightValidators ?cfg) = None"
    by (auto simp: runScanPreflight_def Let_def split: option.splits if_splits)
  have "h \<in> set (rn_scanned (fst (run_configured w ?cfg)))"
    using assms l v p by (simp add: RunScan_def Let_def)
  from run_configured_scanned [OF this] l v f show ?thesis by blast
qed

subsection \<open>Resuming\<close>

lemma HostKey_trimmed: "HostKey h = [] \<longleftrightarrow> trim_space h = []"
  by (simp add: HostKey_def normalizeKey_def)

definition grows :: "host_runs \<Rightarrow> bool" where
  "grows r \<longleftrightarrow> (\<forall>n host source events. \<exists>es. fst (hr_scan r n host source events) = events @ es)"

lemma host_scanner_grows: "hr_scan r = host_scanner io cfg checkpoints dfs \<Longrightarrow> grows r"
  using scanHost_grows unfolding grows_def host_scanner_def by (auto simp: split_beta)

lemma host_done_mono:
  "host_done r s h \<Longrightarrow> rn_events s' = rn_events s @ es \<Longrightarrow> host_done r s' h"
  using run_host_mono by (auto simp: host_done_def ShouldSkipHost_def split: option.splits if_splits)

lemma host_done_marked:
  assumes "hr_checkpoints r = Some m" "Enabled m" "trim_space h \<noteq> []" "rn_events s = es @ [EvHost h]"
  shows "host_done r s h"
proof -
  have e: "Enabled (run m es)" "Enabled (run m (rn_events s))" using assms(2) by simp_all
  have "mg_store (run m (rn_events s)) = MarkHostComplete (mg_store (run m es)) h"
    using e(1) by (simp add: assms(4) ManagerMarkHost_def)
  then have "IsHostComplete (mg_store (run m (rn_events s))) h"
    using assms(3) HostKey_trimmed by (simp add: hosts.complete_mark)
  then show ?thesis using assms(1) e(2) by (simp add: host_done_def ShouldSkipHost_def)
qed

lemma host_loop_keeps:
  "grows r \<Longrightarrow> (\<exists>es. rn_events (fst (host_loop r targets n s)) = rn_events s @ es) \<and>
   (\<exists>xs. rn_errs (fst (host_loop r targets n s)) = rn_errs s @ xs) \<and>
   (\<exists>hs. rn_timeouts (fst (host_loop r targets n s)) = rn_timeouts s @ hs)"
proof (induction r targets n s rule: host_loop.induct)
  case (2 r target targets n s)
  obtain events result where sc: "hr_scan r n (pt_Host target) (pt_Source target) (rn_events s) = (events, result)" by force
  obtain es where es: "events = rn_events s @ es" using 2(5) sc unfolding grows_def by (metis fst_conv)
  show ?case
  proof (cases "hr_context r n = Alive \<and> \<not> host_done r s (pt_Host target)")
    case True
    then show ?thesis
      using 2(2-4) [OF _ _ sc [symmetric] refl] 2(5) sc es
      by (cases result) (auto simp: Let_def processed_def)
  next
    case False
    then show ?thesis
      using 2(1) 2(5) by (cases "hr_context r n") (auto simp: processed_def)
  qed
qed simp

lemma host_loop_all_done:
  assumes m: "hr_checkpoints r = Some m" "Enabled m" and g: "grows r"
  shows "host_loop r targets n s = (s', Finished) \<Longrightarrow> rn_errs s' = [] \<Longrightarrow> rn_timeouts s' = [] \<Longrightarrow>
    \<forall>t \<in> set targets. trim_space (pt_Host t) \<noteq> [] \<Longrightarrow> \<forall>t \<in> set targets. host_done r s' (pt_Host t)"
proof (induction targets arbitrary: n s)
  case (Cons target targets)
  obtain events result where sc: "hr_scan r n (pt_Host target) (pt_Source target) (rn_events s) = (events, result)" by force
  have a: "hr_context r n = Alive"
    using Cons.prems(1) by (cases "hr_context r n") (auto split: if_splits)
  obtain s1 where s1: "host_loop r targets (n + 1) s1 = (s', Finished)" "host_done r s1 (pt_Host target)"
  proof (cases "host_done r s (pt_Host target)")
    case True
    have "host_done r (processed s) (pt_Host target)"
      using True by (rule host_done_mono [where es = "[]"]) (simp add: processed_def)
    then show ?thesis using that Cons.prems(1) True a by simp
  next
    case False
    have r: "result = None"
    proof (rule ccontr)
      assume "result \<noteq> None"
      then obtain err where err: "result = Some err" by blast
      let ?s1 = "s\<lparr>rn_events := events, rn_scanned := rn_scanned s @ [pt_Host target]\<rparr>"
      have "host_loop r targets (n + 1) (processed (?s1\<lparr>rn_timeouts := rn_timeouts ?s1 @ [pt_Host target]\<rparr>)) = (s', Finished) \<or>
          host_loop r targets (n + 1) (processed (?s1\<lparr>rn_errs := rn_errs ?s1 @ [err]\<rparr>)) = (s', Finished)"
        using Cons.prems(1) a False sc err by (simp add: Let_def split: if_splits)
      moreover have "rn_errs u = [] \<and> rn_timeouts u = []" if "host_loop r targets (n + 1) u = (s', Finished)" for u
        using host_loop_keeps [OF g, of targets "n + 1" u] that Cons.prems(2,3) by auto
      ultimately show False by (fastforce simp: processed_def)
    qed
    let ?s1 = "processed (s\<lparr>rn_scanned := rn_scanned s @ [pt_Host target], rn_events := events @ [EvHost (pt_Host target)]\<rparr>)"
    have "host_loop r targets (n + 1) ?s1 = (s', Finished)"
      using Cons.prems(1) a False sc r m(1) by (simp add: Let_def)
    moreover have "host_done r ?s1 (pt_Host target)"
      by (rule host_done_marked [OF m]) (use Cons.prems(4) in \<open>simp_all add: processed_def\<close>)
    ultimately show ?thesis using that by blast
  qed
  obtain es where "rn_events s' = rn_events s1 @ es" using host_loop_keeps [OF g, of targets "n + 1" s1] s1(1) by auto
  then have "host_done r s' (pt_Host target)" using s1(2) host_done_mono by blast
  then show ?case using Cons.IH [OF s1(1)] Cons.prems(2-4) by simp
qed simp

lemma host_loop_skips:
  assumes "\<And>n. hr_context r n = Alive"
  shows "\<forall>t \<in> set targets. host_done r s (pt_Host t) \<Longrightarrow>
    host_loop r targets n s = (s\<lparr>rn_processed := rn_processed s + length targets\<rparr>, Finished)"
proof (induction targets arbitrary: n s)
  case (Cons target targets)
  have "host_done r (processed s) h = host_done r s h" for h by (simp add: host_done_def processed_def cong: option.case_cong)
  then show ?case
    using Cons.IH [of "processed s" "n + 1"] Cons.prems assms by (simp add: processed_def)
qed simp



subsection \<open>The audit\<close>

interpretation audit_sorted: key_order audit_less
    "\<lambda>r. (to_lower (au_Host r), to_lower (au_IP r), to_lower (au_Source r), to_lower (au_Input r))"
  by unfold_locales (auto simp: audit_less_def Let_def)

text \<open>One record for each target, in the order of their hosts, and of the other columns where hosts agree.\<close>

lemma audit_complete:
  "length (buildScannedTargetRecords result planned) = length (pr_AllTargets result) \<and>
   sorted (map (\<lambda>r. to_lower (au_Host r)) (buildScannedTargetRecords result planned))"
proof -
  have "length (slice_sort audit_less rs) = length rs" for rs
    using arg_cong [OF audit_sorted.sort_keys [of rs], of length] by simp
  moreover have "sorted (map (\<lambda>r. to_lower (au_Host r)) (slice_sort audit_less rs))" for rs
    using audit_sorted.ordered [of rs] unfolding sorted_map by (rule sorted_wrt_mono_rel [rotated]) (auto simp: less_eq_prod_def)
  ultimately show ?thesis by (simp add: buildScannedTargetRecords_def Let_def)
qed

text \<open>The audit is written before the first host is scanned: what it calls scanned is what is planned.\<close>

lemma audit_marks_planned:
  assumes "t \<in> set (pr_ReachableTargets result)" and "trim_space (tg_Hostname t) \<noteq> [] \<or> trim_space (tg_IP t) \<noteq> []"
  shows "au_Scanned (audit_record (set (filter (\<lambda>h. h \<noteq> []) (map (\<lambda>item. normalizeTargetAuditValue (pt_Host item))
    (PlanHosts (host_inputs (pr_ReachableTargets result)))))) t)"
proof -
  let ?h = "audit_firstNonEmpty [tg_Hostname t, tg_IP t]" and ?plan = "PlanHosts (host_inputs (pr_ReachableTargets result))"
  let ?i = "\<lparr>hi_Host = (if trim_space (tg_Hostname t) \<noteq> [] then tg_Hostname t else tg_IP t), hi_Source = tg_Source t\<rparr>"
  have "?i \<in> set (host_input t)" "trim_space (hi_Host ?i) = ?h"
    using assms(2) by (simp_all add: host_input_def)
  then obtain i where i: "i \<in> set (host_input t)" "trim_space (hi_Host i) = ?h" by blast
  have h: "?h \<noteq> []" "trim_space ?h = ?h" using assms(2) by auto
  have "i \<in> set (host_inputs (pr_ReachableTargets result))" using i(1) assms(1) by (auto simp: host_inputs_def)
  then have "plannedHost i \<in> set ?plan" by (auto simp: PlanHosts_def sortPlanned_def)
  moreover have "pt_Host (plannedHost i) = ?h" using i(2) by (simp add: plannedHost_def split_beta)
  ultimately have "normalizeTargetAuditValue ?h \<in> (\<lambda>item. normalizeTargetAuditValue (pt_Host item)) ` set ?plan" by force
  moreover have "normalizeTargetAuditValue ?h \<noteq> []" using h by (simp add: normalizeTargetAuditValue_def)
  ultimately show ?thesis unfolding audit_record_def Let_def by simp
qed

subsection \<open>A run\<close>

definition run_demo_options :: ScanOptions where
  "run_demo_options = no_options\<lparr>op_Targets := [''fs01''], op_Username := ''u'', op_Password := ''p'', op_NoLDAP := True,
     op_SkipReachabilityCheck := True\<rparr>"

definition run_demo :: run_world where
  "run_demo = \<lparr>rw_env = demo_env, rw_yaml = demo_yaml, rw_duration = (\<lambda>d. None), rw_interactive = False, rw_ldap = (\<lambda>opts. None),
     rw_slept = Alive, rw_rules = (\<lambda>cfg. Inr 0), rw_fs = (\<lambda>p. Missing),
     rw_network = \<lparr>nw_parse_ip = (\<lambda>s. None), nw_read = (\<lambda>p. None), nw_ldap = Inr [], nw_dfs = Inr [],
       nw_lookup = (\<lambda>h. None), nw_dial445 = (\<lambda>a. False)\<rparr>,
     rw_arrival = (\<lambda>ts. ts), rw_discovered = Alive, rw_mkdir = (\<lambda>d. None), rw_save = (\<lambda>p t. None), rw_now = [],
     rw_output = None, rw_baseline = (\<lambda>p. None), rw_close = None, rw_context = (\<lambda>n. Alive), rw_user = (\<lambda>n. False),
     rw_host = (\<lambda>n. (demo_io (demo_flat [''a.config'']))\<lparr>io_shares := Inr [explicit_share ''data'']\<rparr>)\<rparr>"

lemma run_demo_scans: "rn_scanned (fst (RunScan run_demo [] run_demo_options)) = [''fs01'']"
  by code_simp

theorem scan_follows_checks_witness:
  "validateScanConfig (rw_duration run_demo) (applyScanOverrides (Default demo_env) run_demo_options) = None"
proof -
  have "rw_env run_demo = demo_env" by (simp add: run_demo_def)
  then have "Load (rw_env run_demo) (rw_yaml run_demo) [] = Inr (Default demo_env)" by (simp add: load_default)
  then show ?thesis
    using scan_follows_checks [of "''fs01''" run_demo "[]" run_demo_options] run_demo_scans by auto
qed

definition demo_target :: Target where
  "demo_target = \<lparr>tg_Input = ''fs01'', tg_Hostname = ''fs01'', tg_IP = [], tg_Reachable445 = True, tg_Source = ''cli''\<rparr>"


end
