(* ===== verification/SeedLayout.thy ===== *)
theory SeedLayout
  imports Smb Paths
begin

text \<open>
  The data of the lab seeder (\<open>internal/seed/types.go\<close>), its path handling (\<open>layout.go\<close>) and the helpers with which
  \<open>templates.go\<close> writes its table. What a template renders is an argument: a field of the specification
  gives the bytes of a file, as the function value in the code does.
\<close>

subsection \<open>Data\<close>

record templateVariant =
  tv_Filename :: string
  tv_Format :: string
  tv_ExpectedInnerPath :: string
  tv_IntendedAs :: string
  tv_ExpectedClass :: string
  tv_ExpectedTriageClass :: string
  tv_ExpectedConfidence :: string
  tv_ExpectedCorrelated :: bool
  tv_ExpectedSignalTypes :: "string list"
  tv_ExpectedTags :: "string list"
  tv_ExpectedRuleThemes :: "string list"
  tv_ExpectedSeverity :: string
  tv_ContentStyle :: string

record renderContext =
  rc_Index :: nat
  rc_Format :: string
  rc_Filename :: string
  rc_Token :: string
  rc_Category :: string
  rc_Directory :: string
  rc_Persona :: string
  rc_PersonaDisplay :: string
  rc_ServiceAccount :: string
  rc_Label :: string
  rc_IntendedAs :: string
  rc_ContentStyle :: string

record templateSpec =
  ts_Category :: string
  ts_Directories :: "string list"
  ts_Variants :: "templateVariant list"
  ts_Personas :: "string list"
  ts_ServiceAccounts :: "string list"
  ts_Labels :: "string list"
  ts_Render :: "renderContext \<Rightarrow> templateVariant \<Rightarrow> string"

record SeedFile =
  sd_Category :: string
  sd_Format :: string
  sd_RelativePath :: string
  sd_Filename :: string
  sd_ExpectedPath :: string
  sd_Content :: string
  sd_IntendedAs :: string
  sd_ExpectedClass :: string
  sd_ExpectedTriageClass :: string
  sd_ExpectedConfidence :: string
  sd_ExpectedCorrelated :: bool
  sd_ExpectedSignalTypes :: "string list"
  sd_ExpectedTags :: "string list"
  sd_ExpectedRuleThemes :: "string list"
  sd_ExpectedSeverity :: string

record SeedManifestEntry =
  se_Host :: string
  se_Share :: string
  se_Path :: string
  se_Category :: string
  se_Format :: string
  se_IntendedAs :: string
  se_ExpectedClass :: string
  se_ExpectedTriageClass :: string
  se_ExpectedConfidence :: string
  se_ExpectedCorrelated :: bool
  se_ExpectedSignalTypes :: "string list"
  se_ExpectedTags :: "string list"
  se_ExpectedRuleThemes :: "string list"
  se_ExpectedSeverity :: string
  se_Status :: string

subsection \<open>Paths (layout.go)\<close>

definition normalizeSeedPrefix :: "string \<Rightarrow> string" where
  "normalizeSeedPrefix prefix =
     (let p = trim_set (slashes (trim_space prefix)) ''/'' in if p = [] then ''SnablrLab'' else p)"

definition seed_part :: "string \<Rightarrow> string" where
  "seed_part part = trim_set (trim_space (slashes part)) ''/''"

definition joinSeedPath :: "string list \<Rightarrow> string" where
  "joinSeedPath parts =
     (let clean = filter (\<lambda>p. p \<noteq> []) (map seed_part parts)
      in if clean = [] then [] else path_clean (join ''/'' clean))"

text \<open>The verb \<open>%0nd\<close> on a number that is not negative.\<close>

definition padded :: "nat \<Rightarrow> nat \<Rightarrow> string" where
  "padded n k = (let s = string_of_nat k in replicate (n - length s) CHR ''0'' @ s)"

definition depth_segments :: "nat \<Rightarrow> string \<Rightarrow> string \<Rightarrow> string list" where
  "depth_segments index category persona =
     [''Tier-'' @ padded 2 (index mod 5 + 1),
      ''Batch-'' @ padded 2 ((index div 5) mod 6 + 1),
      ''Review-'' @ padded 2 ((index div 3) mod 4 + 1)]
     @ (if trim_space category \<noteq> [] then [to_upper (replace_char CHR ''-'' ''_'' category)] else [])
     @ (if trim_space persona \<noteq> [] then [to_upper (replace_char CHR ''-'' ''_'' persona)] else [])
     @ [''Archive'', ''Working'', ''Staged'']"

definition applyDepth :: "string \<Rightarrow> int \<Rightarrow> nat \<Rightarrow> string \<Rightarrow> string \<Rightarrow> string" where
  "applyDepth base depth index category persona =
     (if depth \<le> 0 then joinSeedPath [base]
      else
        let segments = depth_segments index category persona
        in joinSeedPath (base # map (\<lambda>i. segments ! (i mod length segments)) [0 ..< nat depth]))"

text \<open>\<open>strings.FieldsFunc\<close>: the maximal runs of bytes that are no separators.\<close>

fun fields_by :: "(char \<Rightarrow> bool) \<Rightarrow> string \<Rightarrow> string \<Rightarrow> string list" where
  "fields_by sep word [] = (if word = [] then [] else [rev word])"
| "fields_by sep word (c # cs) =
     (if sep c then (if word = [] then [] else [rev word]) @ fields_by sep [] cs
      else fields_by sep (c # word) cs)"

definition displayName :: "string \<Rightarrow> string" where
  "displayName name =
     (let v = trim_space name in
      if v = [] then []
      else join '' '' (map (\<lambda>part. to_upper (take 1 part) @ to_lower (drop 1 part))
             (fields_by (\<lambda>c. c \<in> set ''_- '') [] v)))"

datatype prefix_error = PrefixEmpty | PrefixTraversal

definition safeCleanPrefix :: "string \<Rightarrow> prefix_error + string" where
  "safeCleanPrefix prefix =
     (let p = normalizeSeedPrefix prefix in
      if p = [] \<or> p = ''.'' then Inl PrefixEmpty
      else if p = ''..'' \<or> has_prefix p ''../'' \<or> contains p ''/../'' then Inl PrefixTraversal
      else Inr p)"

subsection \<open>Helpers of the template table (templates.go)\<close>

definition inferFormat :: "string \<Rightarrow> string" where
  "inferFormat filename =
     (let l = to_lower (trim_space filename) in
      if has_suffix l ''.tar.gz'' then ''tar.gz''
      else if has_suffix l ''.tgz'' then ''tgz''
      else
        let parts = split_on CHR ''.'' filename
        in if length parts < 2 then ''txt'' else to_lower (last parts))"

definition plain_variant ::
  "string \<Rightarrow> string \<Rightarrow> string \<Rightarrow> string \<Rightarrow> string list \<Rightarrow> string list \<Rightarrow> string list \<Rightarrow> templateVariant" where
  "plain_variant intended filename style severity signals tags themes =
     \<lparr>tv_Filename = filename, tv_Format = inferFormat filename, tv_ExpectedInnerPath = [],
      tv_IntendedAs = intended, tv_ExpectedClass = [], tv_ExpectedTriageClass = [],
      tv_ExpectedConfidence = [], tv_ExpectedCorrelated = False, tv_ExpectedSignalTypes = signals,
      tv_ExpectedTags = tags, tv_ExpectedRuleThemes = themes, tv_ExpectedSeverity = severity,
      tv_ContentStyle = style\<rparr>"

definition likely :: "string \<Rightarrow> string \<Rightarrow> string \<Rightarrow> string list \<Rightarrow> string list \<Rightarrow> string list \<Rightarrow> templateVariant" where
  "likely = plain_variant ''likely-hit''"

definition possible :: "string \<Rightarrow> string \<Rightarrow> string \<Rightarrow> string list \<Rightarrow> string list \<Rightarrow> string list \<Rightarrow> templateVariant" where
  "possible = plain_variant ''possible-hit''"

definition noise :: "string \<Rightarrow> string \<Rightarrow> string \<Rightarrow> string list \<Rightarrow> string list \<Rightarrow> templateVariant" where
  "noise filename style severity tags themes =
     plain_variant ''filler/noise'' filename style severity [] tags themes"

definition triage :: "templateVariant \<Rightarrow> string \<Rightarrow> templateVariant" where
  "triage v c = v\<lparr>tv_ExpectedTriageClass := trim_space c\<rparr>"

definition classify :: "templateVariant \<Rightarrow> string \<Rightarrow> string \<Rightarrow> bool \<Rightarrow> templateVariant" where
  "classify v c confidence correlated =
     v\<lparr>tv_ExpectedClass := trim_space c, tv_ExpectedConfidence := trim_space confidence,
       tv_ExpectedCorrelated := correlated\<rparr>"

definition archiveInnerPath :: "templateVariant \<Rightarrow> string \<Rightarrow> templateVariant" where
  "archiveInnerPath v inner = v\<lparr>tv_ExpectedInnerPath := trim_space (slashes inner)\<rparr>"

definition seedClassConfigOnly :: string where "seedClassConfigOnly = ''config-only''"
definition seedClassWeakReview :: string where "seedClassWeakReview = ''weak-review''"
definition seedClassActionable :: string where "seedClassActionable = ''actionable''"
definition seedClassCorrelatedHighConfidence :: string where
  "seedClassCorrelatedHighConfidence = ''correlated-high-confidence''"
definition seedTriageActionable :: string where "seedTriageActionable = ''actionable''"
definition seedTriageConfigOnly :: string where "seedTriageConfigOnly = ''config-only''"
definition seedTriageWeakReview :: string where "seedTriageWeakReview = ''weak-review''"

definition defaultPersonas :: "string list" where
  "defaultPersonas = [''alice'', ''bob'', ''charlie'', ''david'']"

definition serviceAccounts :: "string list" where
  "serviceAccounts = [''svc_backup'', ''svc_sql'', ''svc_deploy'', ''snaffleuser'']"

definition enterpriseLabels :: "string list" where
  "enterpriseLabels =
     [''prod'', ''legacy'', ''finance'', ''hr'', ''payroll'', ''intranet'', ''ops'', ''customer'', ''archive'',
      ''deploy'']"

definition newSpec ::
  "string \<Rightarrow> string list \<Rightarrow> templateVariant list \<Rightarrow> (renderContext \<Rightarrow> templateVariant \<Rightarrow> string) \<Rightarrow> templateSpec" where
  "newSpec category dirs variants render_fn =
     \<lparr>ts_Category = category, ts_Directories = dirs, ts_Variants = variants, ts_Personas = defaultPersonas,
      ts_ServiceAccounts = serviceAccounts, ts_Labels = enterpriseLabels, ts_Render = render_fn\<rparr>"

subsection \<open>Joined paths as stacks of elements\<close>

definition seed_elements :: "string list \<Rightarrow> string list" where
  "seed_elements parts = concat (map (split_on CHR ''/'') (filter (\<lambda>p. p \<noteq> []) (map seed_part parts)))"

definition seed_stack :: "string list \<Rightarrow> string list" where
  "seed_stack parts = foldl (clean_step False) [] (seed_elements parts)"

lemma split_on_joined:
  "ps \<noteq> [] \<Longrightarrow> split_on CHR ''/'' (join ''/'' ps) = concat (map (split_on CHR ''/'') ps)"
  by (induction ps rule: induct_list012) (simp_all add: split_on_append_sep)

lemma seed_part_hd: "seed_part p \<noteq> [] \<Longrightarrow> hd (seed_part p) \<noteq> CHR ''/''"
  using trim_by_hd [of "\<lambda>c. c \<in> set ''/''"] by (simp add: seed_part_def trim_set_def)

lemma join_hd_first: "ps \<noteq> [] \<Longrightarrow> hd ps \<noteq> [] \<Longrightarrow> join sep ps \<noteq> [] \<and> hd (join sep ps) = hd (hd ps)"
  by (induction ps rule: induct_list012) (auto simp: hd_append)

lemma joinSeedPath_render:
  "joinSeedPath parts =
     (if \<forall>p \<in> set parts. seed_part p = [] then [] else render False (seed_stack parts))"
proof (cases "\<forall>p \<in> set parts. seed_part p = []")
  case True
  then show ?thesis by (auto simp: joinSeedPath_def filter_empty_conv)
next
  case False
  define ps where "ps = filter (\<lambda>p. p \<noteq> []) (map seed_part parts)"
  have ps: "ps \<noteq> []" using False by (auto simp: ps_def filter_empty_conv)
  have "hd ps \<in> set ps" using ps by simp
  then have h: "hd ps \<noteq> []" "hd (hd ps) \<noteq> CHR ''/''"
    using seed_part_hd by (auto simp: ps_def)
  then have "join ''/'' ps \<noteq> [] \<and> hd (join ''/'' ps) \<noteq> CHR ''/''"
    using join_hd_first [OF ps, of "''/''"] by simp
  then show ?thesis unfolding if_not_P [OF False] using ps
    by (simp add: joinSeedPath_def ps_def [symmetric] path_clean_render path_rooted_def path_stack_def
          seed_stack_def seed_elements_def split_on_joined)
qed

lemma seed_elements_no_slash: "e \<in> set (seed_elements parts) \<Longrightarrow> CHR ''/'' \<notin> set e"
  by (auto simp: seed_elements_def dest: split_on_no_sep)

lemma seed_stack_ok: "clean_stack False (seed_stack parts)"
  unfolding seed_stack_def by (rule clean_foldl_stack) (auto dest: seed_elements_no_slash)

text \<open>A part that is read as it is, and whose elements the cleaning keeps.\<close>

definition plain_part :: "string \<Rightarrow> bool" where
  "plain_part p \<longleftrightarrow>
     CHR 0x5C \<notin> set p \<and> \<not> is_space (hd p) \<and> \<not> is_space (last p)
     \<and> (\<forall>e \<in> set (split_on CHR ''/'' p). plain_element e)"

lemma plain_part_elements: "plain_part p \<Longrightarrow> e \<in> set (split_on CHR ''/'' p) \<Longrightarrow> plain_element e"
  by (simp add: plain_part_def)

lemma plain_part_not_Nil: "plain_part p \<Longrightarrow> p \<noteq> []"
  by (rule notI) (simp add: plain_part_def plain_element_def)

lemma plain_part_fixed:
  "plain_part p \<Longrightarrow> slashes p = p \<and> trim_space p = p \<and> trim_set p ''/'' = p"
proof -
  assume p: "plain_part p"
  have nil: "[] \<notin> set (split_on CHR ''/'' p)"
    using plain_part_elements [OF p] by (auto simp: plain_element_def)
  have "hd p \<noteq> CHR ''/''"
  proof
    assume "hd p = CHR ''/''"
    then obtain q where "p = CHR ''/'' # q" using plain_part_not_Nil [OF p] by (cases p) auto
    then show False using nil by simp
  qed
  moreover have "last p \<noteq> CHR ''/''"
  proof
    assume "last p = CHR ''/''"
    then obtain q where "p = q @ CHR ''/'' # []"
      using plain_part_not_Nil [OF p] by (metis append_butlast_last_id)
    then have "[] \<in> set (split_on CHR ''/'' p)" by (simp add: split_on_append_sep)
    then show False using nil by simp
  qed
  moreover have "slashes p = p" using p by (simp add: plain_part_def slashes_id)
  moreover have "trim_space p = p"
    unfolding trim_space_def by (rule trim_by_id) (use p in \<open>simp add: plain_part_def\<close>)
  ultimately show ?thesis by (simp add: trim_set_id)
qed

lemma seed_part_plain: "plain_part p \<Longrightarrow> seed_part p = p"
  by (simp add: seed_part_def plain_part_fixed)

lemma clean_stack_plain_elements: "\<forall>e \<in> set es. plain_element e \<Longrightarrow> clean_stack r es"
  by (induction es) simp_all

lemma seed_elements_plain:
  "\<forall>p \<in> set parts. plain_part p \<Longrightarrow>
   seed_elements parts = concat (map (split_on CHR ''/'') parts)"
proof -
  assume p: "\<forall>p \<in> set parts. plain_part p"
  then have "map seed_part parts = parts" by (simp add: seed_part_plain map_idI)
  moreover have "filter (\<lambda>p. p \<noteq> []) parts = parts" using p plain_part_not_Nil by (auto simp: filter_id_conv)
  ultimately show ?thesis by (simp add: seed_elements_def)
qed

lemma joinSeedPath_plain:
  assumes "parts \<noteq> []" and "\<forall>p \<in> set parts. plain_part p"
  shows "joinSeedPath parts = join ''/'' (concat (map (split_on CHR ''/'') parts))"
proof -
  let ?es = "concat (map (split_on CHR ''/'') parts)"
  have plain: "\<forall>e \<in> set ?es. plain_element e" using assms(2) by (auto simp: plain_part_def)
  have "seed_stack parts = rev ?es"
    unfolding seed_stack_def seed_elements_plain [OF assms(2)]
    by (rule clean_foldl_keep) (use clean_stack_plain_elements plain in auto)
  moreover have ne: "?es \<noteq> []" using assms(1) by (cases parts) auto
  moreover have "\<exists>p \<in> set parts. seed_part p \<noteq> []"
    using assms plain_part_not_Nil seed_part_plain by (cases parts) auto
  moreover have "join ''/'' ?es \<noteq> []"
    using join_hd_first [OF ne, of "''/''"] plain hd_in_set [OF ne] by (auto simp: plain_element_def)
  ultimately show ?thesis by (auto simp: joinSeedPath_render render_def Let_def)
qed

lemma split_joinSeedPath_plain:
  assumes "parts \<noteq> []" and "\<forall>p \<in> set parts. plain_part p"
  shows "split_on CHR ''/'' (joinSeedPath parts) = concat (map (split_on CHR ''/'') parts)"
proof -
  have "concat (map (split_on CHR ''/'') parts) \<noteq> []" using assms(1) by (cases parts) auto
  then show ?thesis
    unfolding joinSeedPath_plain [OF assms] by (rule split_on_join) (auto dest: split_on_no_sep)
qed

text \<open>The last part of a joined path, when it is one element, is the last element: the path tells it.\<close>

lemma joinSeedPath_last:
  assumes "seed_part c = c" and "plain_element c"
  shows "joinSeedPath [rel, c] = render False (c # seed_stack [rel])"
proof -
  have "c \<noteq> []" "c \<noteq> ''.''" "c \<noteq> ''..''" "CHR ''/'' \<notin> set c"
    using assms(2) by (simp_all add: plain_element_def)
  then have "seed_stack [rel, c] = c # seed_stack [rel]"
    using assms(1) by (simp add: seed_stack_def seed_elements_def split_on_no_char)
  then show ?thesis using \<open>c \<noteq> []\<close> assms(1) by (simp add: joinSeedPath_render)
qed

lemma joinSeedPath_last_inj:
  assumes "seed_part c = c" "plain_element c" "seed_part d = d" "plain_element d"
    and "joinSeedPath [rel, c] = joinSeedPath [rel, d]"
  shows "c = d"
proof -
  have "clean_stack False (c # seed_stack [rel])" "clean_stack False (d # seed_stack [rel])"
    using assms(2,4) seed_stack_ok by simp_all
  then show ?thesis
    using assms(5) by (simp add: joinSeedPath_last [OF assms(1,2)] joinSeedPath_last [OF assms(3,4)] render_inj)
qed


lemma join_of_splits: "ps \<noteq> [] \<Longrightarrow> join ''/'' (concat (map (split_on CHR ''/'') ps)) = join ''/'' ps"
proof (induction ps rule: induct_list012)
  case (3 a b ps)
  have "concat (map (split_on CHR ''/'') (b # ps)) \<noteq> []" by simp
  then show ?case using 3 by (simp add: join_append join_split_on del: concat_eq_Nil_conv)
qed (simp_all add: join_split_on)

lemma join_last_last:
  "ps \<noteq> [] \<Longrightarrow> last ps \<noteq> [] \<Longrightarrow> join sep ps \<noteq> [] \<and> last (join sep ps) = last (last ps)"
  by (induction ps rule: induct_list012) auto

lemma set_join: "set (join sep ps) \<subseteq> set sep \<union> \<Union> (set ` set ps)"
  by (induction ps rule: induct_list012) auto

text \<open>Joining plain parts gives a plain part, whose elements are those of the parts.\<close>

lemma plain_joinSeedPath:
  assumes "parts \<noteq> []" and "\<forall>p \<in> set parts. plain_part p"
  shows "plain_part (joinSeedPath parts)"
proof -
  have j: "joinSeedPath parts = join ''/'' parts"
    using joinSeedPath_plain [OF assms] join_of_splits [OF assms(1)] by simp
  have ne: "hd parts \<noteq> []" "last parts \<noteq> []" "hd parts \<in> set parts" "last parts \<in> set parts"
    using assms plain_part_not_Nil by auto
  have "hd (joinSeedPath parts) = hd (hd parts)" "last (joinSeedPath parts) = last (last parts)"
    unfolding j using join_hd_first [OF assms(1) ne(1)] join_last_last [OF assms(1) ne(2)] by auto
  moreover have "CHR 0x5C \<notin> set (joinSeedPath parts)"
    unfolding j using set_join [of "''/''" parts] assms(2) by (auto simp: plain_part_def)
  moreover have "\<forall>e \<in> set (split_on CHR ''/'' (joinSeedPath parts)). plain_element e"
    unfolding split_joinSeedPath_plain [OF assms] using assms(2) plain_part_elements by auto
  ultimately show ?thesis using assms(2) ne(3,4) by (simp add: plain_part_def)
qed

lemma plain_single: "plain_part p \<longleftrightarrow> CHR 0x5C \<notin> set p \<and> \<not> is_space (hd p) \<and> \<not> is_space (last p) \<and> plain_element p"
  if "CHR ''/'' \<notin> set p"
  using that by (simp add: plain_part_def split_on_no_char)

end
