(* ===== verification/SeedTemplates.thy ===== *)
theory SeedTemplates
  imports SeedLayout
begin

text \<open>
  The table of templates of the lab seeder (\<open>internal/seed/templates.go\<close>), one definition for each specification. What
  the five rendering functions write is an argument.
\<close>

record renderers =
  rv_standard :: "renderContext \<Rightarrow> templateVariant \<Rightarrow> string"
  rv_archive :: "renderContext \<Rightarrow> templateVariant \<Rightarrow> string"
  rv_tar :: "renderContext \<Rightarrow> templateVariant \<Rightarrow> string"
  rv_office :: "renderContext \<Rightarrow> templateVariant \<Rightarrow> string"
  rv_wim :: "renderContext \<Rightarrow> templateVariant \<Rightarrow> string"

definition dbTemplateVariants :: "templateVariant list" where
  "dbTemplateVariants = [
     classify (triage (likely ''appsettings.json'' ''db-appsettings-json'' ''high'' [''content'',
        ''filename'', ''extension''] [''configuration'', ''database'', ''credentials'']
        [''database-connection-strings'', ''hardcoded-secret-indicators'']) seedTriageActionable)
        seedClassCorrelatedHighConfidence ''high'' True,
     classify (triage (likely ''web.config'' ''db-web-config'' ''high'' [''content'', ''filename'',
        ''extension''] [''configuration'', ''database'', ''credentials''] [''database-connection-strings'',
        ''hardcoded-secret-indicators'']) seedTriageActionable) seedClassCorrelatedHighConfidence ''high''
        True,
     classify (triage (likely ''.env'' ''db-env'' ''high'' [''content'', ''filename'', ''extension'']
        [''configuration'', ''database'', ''credentials''] [''database-connection-strings'',
        ''hardcoded-secret-indicators'']) seedTriageActionable) seedClassCorrelatedHighConfidence ''high''
        True,
     classify (triage (likely ''finance-prod.dsn'' ''db-dsn'' ''high'' [''content'', ''filename'',
        ''extension''] [''configuration'', ''database'', ''credentials'']
        [''database-connection-strings'']) seedTriageActionable) seedClassActionable ''high'' False,
     classify (triage (likely ''odbc.ini'' ''db-odbc-ini'' ''high'' [''content'', ''filename'',
        ''extension''] [''configuration'', ''database'', ''credentials'']
        [''database-connection-strings'']) seedTriageActionable) seedClassCorrelatedHighConfidence ''high''
        True,
     classify (triage (likely ''tnsnames.ora'' ''db-tnsnames'' ''high'' [''content'', ''filename'',
        ''extension''] [''configuration'', ''database''] [''database-connection-strings''])
        seedTriageActionable) seedClassActionable ''high'' False,
     classify (triage (likely ''db-deploy.ps1'' ''db-script-ps1'' ''high'' [''content'', ''filename'',
        ''extension''] [''scripts'', ''database'', ''credentials''] [''script-credentials'',
        ''database-connection-strings'']) seedTriageActionable) seedClassCorrelatedHighConfidence ''high''
        True,
     classify (triage (likely ''docker-compose.yml'' ''db-docker-compose'' ''high'' [''content'',
        ''filename'', ''extension''] [''configuration'', ''database'', ''credentials'']
        [''database-connection-strings'', ''hardcoded-secret-indicators'']) seedTriageActionable)
        seedClassCorrelatedHighConfidence ''high'' True,
     classify (triage (likely ''db-prod.backup.bak'' ''db-backup-marker'' ''high'' [''filename'',
        ''extension''] [''backups'', ''database''] [''backup-export-naming'']) seedTriageActionable)
        seedClassActionable ''high'' False,
     classify (triage (likely ''billing-archive.dump'' ''db-backup-marker'' ''high'' [''filename'',
        ''extension''] [''backups'', ''database''] [''backup-export-naming'']) seedTriageActionable)
        seedClassActionable ''high'' False,
     classify (triage (likely ''oracle-finance-export.dmp'' ''db-backup-marker'' ''high'' [''filename'',
        ''extension''] [''backups'', ''database''] [''backup-export-naming'']) seedTriageActionable)
        seedClassActionable ''high'' False,
     classify (triage (likely ''customers-prod.sqlite'' ''sqlite-credential-db'' ''high'' [''content'',
        ''validated''] [''database'', ''sqlite'', ''credentials''] [''sqlite-inspection''])
        seedTriageActionable) seedClassActionable ''high'' False,
     classify (triage (likely ''finance-legacy.mdb'' ''db-local-artifact'' ''medium'' [''filename'',
        ''extension''] [''database'', ''artifacts''] [''database-artifact-review'']) seedTriageActionable)
        seedClassActionable ''medium'' False,
     classify (triage (likely ''schema-export.sql'' ''db-sql-dump'' ''high'' [''content'', ''filename'',
        ''extension''] [''database'', ''credentials''] [''database-connection-strings''])
        seedTriageActionable) seedClassCorrelatedHighConfidence ''high'' True,
     classify (triage (likely ''database.yml'' ''db-yaml-config-only'' ''medium'' [''filename'',
        ''extension''] [''configuration'', ''database''] [''config-file-review'']) seedTriageConfigOnly)
        seedClassConfigOnly ''low'' False,
     classify (triage (likely ''application.properties'' ''db-properties-config-only'' ''medium''
        [''filename'', ''extension''] [''configuration'', ''database''] [''config-file-review''])
        seedTriageConfigOnly) seedClassConfigOnly ''low'' False,
     classify (triage (likely ''config.php'' ''db-config-php-config-only'' ''medium'' [''filename'',
        ''extension''] [''configuration'', ''database''] [''config-file-review'']) seedTriageConfigOnly)
        seedClassConfigOnly ''low'' False,
     classify (triage (possible ''db-admin-notes.txt'' ''db-admin-notes'' ''medium'' [''content'',
        ''filename''] [''database'', ''notes''] [''database-connection-strings'']) seedTriageWeakReview)
        seedClassWeakReview ''medium'' False,
     classify (triage (possible ''deploy-db.py'' ''db-script-python-placeholder'' ''medium'' [''content'',
        ''filename'', ''extension''] [''scripts'', ''database''] [''script-credentials''])
        seedTriageWeakReview) seedClassWeakReview ''medium'' False,
     classify (triage (likely ''k8s-db-secret.yaml'' ''db-k8s-secret-placeholder'' ''medium''
        [''filename'', ''extension''] [''configuration'', ''database''] [''config-file-review''])
        seedTriageConfigOnly) seedClassConfigOnly ''low'' False,
     classify (triage (noise ''database-readme.md'' ''db-readme-noise'' ''low'' [''noise'']
        [''noise-review'']) seedTriageConfigOnly) seedClassConfigOnly ''low'' False]"

definition archiveTemplateVariants :: "templateVariant list" where
  "archiveTemplateVariants = [
     archiveInnerPath (classify (triage (likely ''deploy-package.zip'' ''zip-db-env'' ''high''
        [''content'', ''filename'', ''extension''] [''archives'', ''configuration'', ''database'',
        ''credentials''] [''archive-review'', ''database-connection-strings'',
        ''hardcoded-secret-indicators'']) seedTriageActionable) seedClassCorrelatedHighConfidence ''high''
        True) ''.env'',
     archiveInnerPath (classify (triage (likely ''legacy-configs.zip'' ''zip-web-config'' ''high''
        [''content'', ''filename'', ''extension''] [''archives'', ''configuration'', ''credentials'']
        [''archive-review'', ''hardcoded-secret-indicators'']) seedTriageActionable) seedClassActionable
        ''high'' False) ''configs/web.config'',
     archiveInnerPath (classify (triage (possible ''deployment-recovery.zip'' ''zip-unattended'' ''high''
        [''content'', ''filename'', ''extension''] [''archives'', ''deployment'', ''credentials'']
        [''archive-review'', ''unattended-install'']) seedTriageActionable) seedClassActionable ''high''
        False) ''answers/unattended.xml'',
     archiveInnerPath (classify (triage (possible ''old-config-bundle.zip'' ''zip-config-only'' ''medium''
        [''filename'', ''extension''] [''archives'', ''configuration''] [''archive-review'',
        ''config-file-review'']) seedTriageConfigOnly) seedClassConfigOnly ''low'' False)
        ''configs/database.yml'',
     archiveInnerPath (classify (triage (likely ''ssh-recovery.zip'' ''zip-private-key-bundle'' ''high''
        [''content'', ''filename'', ''extension'', ''correlation''] [''archives'', ''crypto'', ''keys'',
        ''remote-access''] [''archive-review'', ''private-key-artifact-review'',
        ''private-key-header-validation'']) seedTriageActionable) seedClassCorrelatedHighConfidence
        ''high'' True) ''keys/id_rsa'',
     archiveInnerPath (classify (triage (likely ''profile-backup.zip'' ''zip-wincred-profile'' ''high''
        [''filename'', ''path'', ''correlation''] [''archives'', ''windows'', ''dpapi'', ''credentials'']
        [''archive-review'', ''windows-credential-store-review'']) seedTriageActionable)
        seedClassCorrelatedHighConfidence ''high'' True)
        ''Users/Alice/AppData/Roaming/Microsoft/Credentials/ABCD1234'',
     noise ''binary-media-bundle.zip'' ''zip-binary-only'' ''low'' [''archives'', ''noise'']
        [''archive-review''],
     noise ''nested-export-bundle.zip'' ''zip-nested-archive'' ''low'' [''archives'', ''noise'']
        [''archive-review''],
     noise ''oversized-config-export.zip'' ''zip-oversized'' ''low'' [''archives'', ''noise'']
        [''archive-review'']]"

definition officeTemplateVariants :: "templateVariant list" where
  "officeTemplateVariants = [
     archiveInnerPath (classify (triage (likely ''credentials.docx'' ''office-docx-credentials'' ''high''
        [''content'', ''filename'', ''extension''] [''documents'', ''office'', ''credentials'']
        [''office-document-review'', ''hardcoded-secret-indicators'']) seedTriageActionable)
        seedClassActionable ''high'' False) ''word/document.xml'',
     archiveInnerPath (classify (triage (likely ''db-access.xlsx'' ''office-xlsx-credentials'' ''high''
        [''content'', ''filename'', ''extension''] [''documents'', ''office'', ''database'',
        ''credentials''] [''office-document-review'', ''database-connection-strings''])
        seedTriageActionable) seedClassActionable ''high'' False) ''xl/sharedStrings.xml'',
     archiveInnerPath (classify (triage (likely ''vpn-rollout.pptx'' ''office-pptx-credentials'' ''high''
        [''content'', ''filename'', ''extension''] [''documents'', ''office'', ''remote-access'']
        [''office-document-review'', ''api-token-exposure'']) seedTriageActionable) seedClassActionable
        ''high'' False) ''ppt/slides/slide1.xml'',
     noise ''quarterly-update.docx'' ''office-docx-benign'' ''low'' [''documents'', ''office'', ''noise'']
        [''office-document-review''],
     noise ''inventory.xlsx'' ''office-xlsx-benign'' ''low'' [''documents'', ''office'', ''noise'']
        [''office-document-review''],
     noise ''townhall-notes.pptx'' ''office-pptx-benign'' ''low'' [''documents'', ''office'', ''noise'']
        [''office-document-review'']]"

definition tarTemplateVariants :: "templateVariant list" where
  "tarTemplateVariants = [
     archiveInnerPath (classify (triage (likely ''linux-backup.tar'' ''tar-shadow-backup'' ''high''
        [''content'', ''filename'', ''extension''] [''archives'', ''linux'', ''credentials'']
        [''archive-review'', ''secret-store-artifact-review'']) seedTriageActionable) seedClassActionable
        ''high'' False) ''etc/shadow.bak'',
     archiveInnerPath (classify (triage (likely ''deploy-configs.tar.gz'' ''tar-env-configs'' ''high''
        [''content'', ''filename'', ''extension''] [''archives'', ''configuration'', ''database'',
        ''credentials''] [''archive-review'', ''database-connection-strings'']) seedTriageActionable)
        seedClassCorrelatedHighConfidence ''high'' True) ''app/.env'',
     archiveInnerPath (classify (triage (likely ''ops-recovery.tgz'' ''tar-private-key-bundle'' ''high''
        [''content'', ''filename'', ''extension'', ''correlation''] [''archives'', ''crypto'', ''keys'',
        ''remote-access''] [''archive-review'', ''private-key-header-validation'']) seedTriageActionable)
        seedClassCorrelatedHighConfidence ''high'' True) ''keys/id_rsa'',
     classify (triage (noise ''binary-drop.tar'' ''tar-binary-only'' ''low'' [''archives'', ''noise'']
        [''archive-review'']) seedTriageConfigOnly) seedClassConfigOnly ''low'' False,
     classify (triage (noise ''nested-backup.tar.gz'' ''tar-nested-archive'' ''low'' [''archives'',
        ''noise''] [''archive-review'']) seedTriageConfigOnly) seedClassConfigOnly ''low'' False,
     classify (triage (noise ''oversized-export.tgz'' ''tar-oversized'' ''low'' [''archives'', ''noise'']
        [''archive-review'']) seedTriageConfigOnly) seedClassConfigOnly ''low'' False]"

definition wimTemplateVariants :: "templateVariant list" where
  "wimTemplateVariants = [
     archiveInnerPath (classify (triage (likely ''domain-backup.wim'' ''wim-ntds-system'' ''high''
        [''filename'', ''correlation''] [''wim'', ''active-directory'', ''secret-store'']
        [''wim-artifact-review'', ''secret-store-artifact-review'']) seedTriageActionable)
        seedClassCorrelatedHighConfidence ''high'' True) ''Windows/NTDS/ntds.dit'',
     archiveInnerPath (classify (triage (likely ''repair-media.wim'' ''wim-hives'' ''high'' [''filename'']
        [''wim'', ''windows'', ''secret-store''] [''wim-artifact-review'',
        ''secret-store-artifact-review'']) seedTriageActionable) seedClassActionable ''high'' False)
        ''Windows/System32/config/SAM'',
     archiveInnerPath (classify (triage (likely ''deploy-image.wim'' ''wim-unattend'' ''high''
        [''content'', ''validated''] [''wim'', ''deployment'', ''credentials''] [''wim-artifact-review'',
        ''unattended-install'']) seedTriageActionable) seedClassActionable ''high'' False)
        ''Windows/Panther/unattend.xml'',
     archiveInnerPath (classify (triage (likely ''mdt-capture.wim'' ''wim-mdt'' ''high'' [''content'',
        ''validated''] [''wim'', ''deployment'', ''mdt''] [''wim-artifact-review'',
        ''deployment-config-review'']) seedTriageActionable) seedClassActionable ''high'' False)
        ''Deploy/Control/bootstrap.ini'',
     classify (triage (noise ''reference-image.wim'' ''wim-benign'' ''low'' [''wim'', ''noise'']
        [''wim-artifact-review'']) seedTriageConfigOnly) seedClassConfigOnly ''low'' False]"

definition spec_configs :: "renderers \<Rightarrow> templateSpec" where
  "spec_configs r = newSpec ''configs'' [''IT/Admin'', ''Web/Configs'', ''Archive/Legacy/App1/Config'',
        ''Archive/Legacy/App2/Config'', ''Old''] [
     likely ''web.config'' ''xml-settings'' ''high'' [''content'', ''filename'', ''extension'']
        [''configuration'', ''credentials''] [''web-config-review'', ''hardcoded-secret-indicators''],
     likely ''appsettings.json'' ''appsettings-json'' ''high'' [''content'', ''filename'', ''extension'']
        [''configuration'', ''credentials''] [''config-file-review'', ''hardcoded-secret-indicators''],
     possible ''db-backup.conf'' ''config-kv'' ''medium'' [''filename'', ''extension''] [''configuration'']
        [''config-file-review''],
     possible ''sql-connection.properties'' ''config-properties'' ''medium'' [''content'', ''filename'']
        [''configuration'', ''credentials''] [''database-connection-strings''],
     noise ''scripts-readme.md'' ''readme-noise'' ''low'' [''low-noise''] [''noise-review''],
     noise ''prod-config-old.yml'' ''config-yaml-benign'' ''low'' [''configuration'']
        [''config-file-review'']] (rv_standard r)"

definition spec_deploy :: "renderers \<Rightarrow> templateSpec" where
  "spec_deploy r = newSpec ''deploy'' [''Deploy'', ''IT/Deploy'', ''Archive/Legacy/App2/Config'', ''Old''] [
     likely ''deploy.env'' ''deploy-env'' ''high'' [''content'', ''filename'', ''extension'']
        [''deployment'', ''credentials''] [''deployment-config-review'', ''hardcoded-secret-indicators''],
     likely ''unattended.xml'' ''unattend-xml'' ''high'' [''content'', ''filename'', ''extension'']
        [''deployment'', ''credentials''] [''unattended-install'', ''deployment-config-review''],
     possible ''install-answer.ini'' ''config-kv'' ''medium'' [''filename'', ''extension'']
        [''deployment''] [''unattended-install''],
     possible ''deploy-pipeline.json'' ''deploy-json'' ''medium'' [''content'', ''filename'']
        [''deployment''] [''deployment-config-review''],
     noise ''deployment-notes.txt'' ''notes-benign'' ''low'' [''notes''] [''noise-review'']] (rv_standard
        r)"

definition spec_vpn :: "renderers \<Rightarrow> templateSpec" where
  "spec_vpn r = newSpec ''vpn'' [''IT/Admin'', ''VPN'', ''Users/Bob/Documents'',
        ''Users/Charlie/Downloads''] [
     likely ''vpn-config.txt'' ''notes-creds'' ''high'' [''content'', ''filename''] [''vpn'',
        ''credentials''] [''vpn-config-review'', ''hardcoded-secret-indicators''],
     likely ''vpn-client.conf'' ''config-kv'' ''high'' [''content'', ''filename'', ''extension''] [''vpn'',
        ''configuration''] [''vpn-config-review''],
     possible ''remote-access.cfg'' ''config-kv'' ''medium'' [''filename'', ''extension''] [''vpn'']
        [''vpn-config-review''],
     noise ''vpn-readme.md'' ''readme-noise'' ''low'' [''noise''] [''noise-review'']] (rv_standard r)"

definition spec_private_keys :: "renderers \<Rightarrow> templateSpec" where
  "spec_private_keys r = newSpec ''private-keys'' [''Users/Alice/.ssh'', ''IT/Admin/Keys'',
        ''VPN/Profiles'', ''Archive/Legacy/Auth''] [
     classify (triage (likely ''id_rsa'' ''openssh-private-key'' ''high'' [''content'', ''filename'']
        [''crypto'', ''keys'', ''remote-access''] [''private-key-artifact-review'',
        ''private-key-header-validation'']) seedTriageActionable) seedClassActionable ''high'' False,
     classify (triage (likely ''id_ed25519'' ''openssh-private-key'' ''high'' [''content'', ''filename'']
        [''crypto'', ''keys'', ''remote-access''] [''private-key-artifact-review'',
        ''private-key-header-validation'']) seedTriageActionable) seedClassActionable ''high'' False,
     classify (triage (likely ''identity'' ''rsa-private-key'' ''high'' [''content'', ''filename'']
        [''crypto'', ''keys'', ''remote-access''] [''private-key-artifact-review'',
        ''private-key-header-validation'']) seedTriageActionable) seedClassActionable ''high'' False,
     classify (triage (likely ''client-admin.ppk'' ''ppk-artifact'' ''high'' [''filename'', ''extension'']
        [''remote-access'', ''vpn'', ''client-auth''] [''client-auth-artifact-review''])
        seedTriageActionable) seedClassActionable ''high'' False,
     classify (triage (likely ''branch-admin.ovpn'' ''ovpn-config'' ''high'' [''filename'', ''extension'']
        [''remote-access'', ''vpn'', ''client-auth''] [''client-auth-artifact-review''])
        seedTriageActionable) seedClassActionable ''high'' False,
     classify (triage (possible ''authorized_keys'' ''authorized-keys'' ''medium'' [''filename'']
        [''remote-access'', ''ssh'', ''context''] [''ssh-support-review'']) seedTriageWeakReview)
        seedClassWeakReview ''medium'' False,
     classify (triage (possible ''known_hosts'' ''known-hosts'' ''medium'' [''filename'']
        [''remote-access'', ''ssh'', ''context''] [''ssh-support-review'']) seedTriageWeakReview)
        seedClassWeakReview ''medium'' False,
     noise ''ssh-notes.txt'' ''notes-benign'' ''low'' [''noise''] [''noise-review'']] (rv_standard r)"

definition spec_private_key_correlation :: "renderers \<Rightarrow> templateSpec" where
  "spec_private_key_correlation r = newSpec ''private-key-correlation'' [''Recovery/Keys''] [
     classify (triage (likely ''id_rsa'' ''openssh-private-key'' ''high'' [''content'', ''filename'',
        ''correlation'', ''path''] [''crypto'', ''keys'', ''remote-access'']
        [''private-key-artifact-review'', ''private-key-header-validation'']) seedTriageActionable)
        seedClassCorrelatedHighConfidence ''high'' True,
     classify (triage (likely ''client-admin.ovpn'' ''ovpn-config'' ''high'' [''filename'', ''extension'']
        [''remote-access'', ''vpn'', ''client-auth''] [''client-auth-artifact-review''])
        seedTriageActionable) seedClassActionable ''high'' False,
     classify (triage (possible ''authorized_keys'' ''authorized-keys'' ''medium'' [''filename'']
        [''remote-access'', ''ssh'', ''context''] [''ssh-support-review'']) seedTriageWeakReview)
        seedClassWeakReview ''medium'' False,
     noise ''readme.txt'' ''readme-noise'' ''low'' [''noise''] [''noise-review'']] (rv_standard r)"

definition spec_certificate_bundles :: "renderers \<Rightarrow> templateSpec" where
  "spec_certificate_bundles r = newSpec ''certificate-bundles'' [''VPN/Profiles'', ''IT/Admin/Keys'',
        ''Archive/Legacy/Auth''] [
     classify (triage (likely ''corp-admin.pfx'' ''pkcs12-artifact'' ''high'' [''extension'', ''path'']
        [''crypto'', ''remote-access'', ''certificates'', ''client-auth'']
        [''client-auth-artifact-review'', ''certificate-bundle-review'']) seedTriageActionable)
        seedClassActionable ''medium'' False,
     classify (triage (likely ''branch-admin.p12'' ''pkcs12-artifact'' ''high'' [''extension'', ''path'']
        [''crypto'', ''remote-access'', ''certificates'', ''client-auth'']
        [''client-auth-artifact-review'', ''certificate-bundle-review'']) seedTriageActionable)
        seedClassActionable ''medium'' False,
     classify (triage (possible ''certificate-passwords.txt'' ''notes-cert-password'' ''high''
        [''content'', ''filename''] [''credentials'', ''notes'', ''client-auth'']
        [''hardcoded-secret-indicators'', ''certificate-bundle-review'']) seedTriageActionable)
        seedClassActionable ''high'' False,
     noise ''readme.txt'' ''readme-noise'' ''low'' [''noise''] [''noise-review'']] (rv_standard r)"

definition spec_certificate_correlation :: "renderers \<Rightarrow> templateSpec" where
  "spec_certificate_correlation r = newSpec ''certificate-correlation'' [''Recovery/Certificates''] [
     classify (triage (likely ''corp-admin.pfx'' ''pkcs12-artifact'' ''high'' [''extension'', ''path'',
        ''correlation''] [''crypto'', ''remote-access'', ''certificates'', ''client-auth'']
        [''client-auth-artifact-review'', ''certificate-bundle-review'']) seedTriageActionable)
        seedClassCorrelatedHighConfidence ''high'' True,
     classify (triage (likely ''certificate-passwords.txt'' ''notes-cert-password'' ''high'' [''content'',
        ''filename''] [''credentials'', ''notes'', ''client-auth''] [''hardcoded-secret-indicators'',
        ''certificate-bundle-review'']) seedTriageActionable) seedClassActionable ''high'' False,
     noise ''readme.txt'' ''readme-noise'' ''low'' [''noise''] [''noise-review'']] (rv_standard r)"

definition spec_windows_credential_stores :: "renderers \<Rightarrow> templateSpec" where
  "spec_windows_credential_stores r = newSpec ''windows-credential-stores''
        [''Users/Alice/AppData/Roaming/Microsoft/Credentials'',
        ''Users/Alice/AppData/Local/Microsoft/Vault/4BF4C442'',
        ''Users/Alice/AppData/Roaming/Microsoft/Protect/S-1-5-21-111-222-333-1001'',
        ''Archive/ProfileCopies/Bob/AppData/Local/Microsoft/Vault/7AC4A290'',
        ''Backups/UserMigrations/Charlie/AppData/Roaming/Microsoft/Credentials'',
        ''Backups/UserMigrations/Charlie/AppData/Roaming/Microsoft/Protect/S-1-5-21-444-555-666-1003''] [
     classify (triage (likely ''A1B2C3D4'' ''win-credstore-marker'' ''high'' [''filename'', ''path'']
        [''windows'', ''dpapi'', ''credentials''] [''windows-credential-store-review''])
        seedTriageActionable) seedClassActionable ''high'' False,
     classify (triage (likely ''Policy.vpol'' ''win-credstore-marker'' ''high'' [''filename'', ''path'']
        [''windows'', ''dpapi'', ''vault''] [''windows-credential-store-review'']) seedTriageActionable)
        seedClassActionable ''high'' False,
     classify (triage (likely ''Preferred'' ''win-credstore-marker'' ''high'' [''filename'', ''path'']
        [''windows'', ''dpapi'', ''protect''] [''windows-credential-store-review'']) seedTriageActionable)
        seedClassActionable ''high'' False,
     noise ''readme.txt'' ''readme-noise'' ''low'' [''noise''] [''noise-review'']] (rv_standard r)"

definition spec_windows_credential_correlation :: "renderers \<Rightarrow> templateSpec" where
  "spec_windows_credential_correlation r = newSpec ''windows-credential-correlation''
        [''Users/David/AppData/Roaming/Microsoft/Credentials'',
        ''Users/David/AppData/Roaming/Microsoft/Protect/S-1-5-21-777-888-999-1004'',
        ''Users/David/AppData/Local/Microsoft/Vault/9F00AB12''] [
     classify (triage (likely ''C0FFEEC0'' ''win-credstore-marker'' ''high'' [''filename'', ''path'',
        ''correlation''] [''windows'', ''dpapi'', ''credentials''] [''windows-credential-store-review''])
        seedTriageActionable) seedClassCorrelatedHighConfidence ''high'' True,
     classify (triage (likely ''masterkey'' ''win-credstore-marker'' ''high'' [''filename'', ''path'']
        [''windows'', ''dpapi'', ''protect''] [''windows-credential-store-review'']) seedTriageActionable)
        seedClassActionable ''high'' False,
     classify (triage (likely ''Policy.vpol'' ''win-credstore-marker'' ''high'' [''filename'', ''path'']
        [''windows'', ''dpapi'', ''vault''] [''windows-credential-store-review'']) seedTriageActionable)
        seedClassActionable ''high'' False,
     noise ''notes.txt'' ''notes-benign'' ''low'' [''noise''] [''noise-review'']] (rv_standard r)"

definition spec_browser_credential_stores :: "renderers \<Rightarrow> templateSpec" where
  "spec_browser_credential_stores r = newSpec ''browser-credential-stores''
        [''Users/Alice/AppData/Roaming/Mozilla/Firefox/Profiles/abcd.default-release'',
        ''Users/Bob/AppData/Local/Google/Chrome/User Data/Default'',
        ''Archive/ProfileCopies/Charlie/AppData/Local/Microsoft/Edge/User Data/Profile 1'',
        ''Archive/ProfileCopies/Charlie/AppData/Roaming/Mozilla/Firefox/Profiles/efgh.default-release''] [
     classify (triage (likely ''logins.json'' ''browser-login-json'' ''medium'' [''filename'', ''path'']
        [''browser'', ''firefox'', ''credentials''] [''browser-credential-store-review''])
        seedTriageWeakReview) seedClassWeakReview ''medium'' False,
     classify (triage (likely ''key4.db'' ''browser-key-store'' ''medium'' [''filename'', ''path'']
        [''browser'', ''firefox'', ''credentials''] [''browser-credential-store-review''])
        seedTriageWeakReview) seedClassWeakReview ''medium'' False,
     classify (triage (likely ''Login Data'' ''browser-login-db'' ''medium'' [''filename'', ''path'']
        [''browser'', ''chromium'', ''credentials''] [''browser-credential-store-review''])
        seedTriageWeakReview) seedClassWeakReview ''medium'' False,
     classify (triage (likely ''Cookies'' ''browser-cookie-db'' ''low'' [''filename'', ''path'']
        [''browser'', ''chromium'', ''sessions''] [''browser-credential-store-review''])
        seedTriageWeakReview) seedClassWeakReview ''medium'' False,
     noise ''Login Data.txt'' ''notes-benign'' ''low'' [''noise''] [''noise-review''],
     noise ''logins.json.bak'' ''notes-benign'' ''low'' [''noise''] [''noise-review'']] (rv_standard r)"

definition spec_browser_credential_correlation :: "renderers \<Rightarrow> templateSpec" where
  "spec_browser_credential_correlation r = newSpec ''browser-credential-correlation''
        [''Users/David/AppData/Roaming/Mozilla/Firefox/Profiles/ijkl.default-release'',
        ''Users/David/AppData/Local/Google/Chrome/User Data/Default''] [
     classify (triage (likely ''logins.json'' ''browser-login-json'' ''medium'' [''filename'', ''path'',
        ''correlation''] [''browser'', ''firefox'', ''credentials''] [''browser-credential-store-review''])
        seedTriageActionable) seedClassCorrelatedHighConfidence ''high'' True,
     classify (triage (likely ''key4.db'' ''browser-key-store'' ''medium'' [''filename'', ''path'']
        [''browser'', ''firefox'', ''credentials''] [''browser-credential-store-review''])
        seedTriageWeakReview) seedClassWeakReview ''medium'' False,
     classify (triage (likely ''Login Data'' ''browser-login-db'' ''medium'' [''filename'', ''path'',
        ''correlation''] [''browser'', ''chromium'', ''credentials'']
        [''browser-credential-store-review'']) seedTriageActionable) seedClassCorrelatedHighConfidence
        ''high'' True,
     classify (triage (likely ''Cookies'' ''browser-cookie-db'' ''low'' [''filename'', ''path'']
        [''browser'', ''chromium'', ''sessions''] [''browser-credential-store-review''])
        seedTriageWeakReview) seedClassWeakReview ''medium'' False] (rv_standard r)"

definition spec_keepass :: "renderers \<Rightarrow> templateSpec" where
  "spec_keepass r = newSpec ''keepass'' [''Users/Alice/Desktop'', ''Users/Bob/Documents'',
        ''Users/Charlie/Downloads'', ''IT/Admin''] [
     likely ''keepass-export.csv'' ''keepass-csv'' ''high'' [''content'', ''filename'']
        [''password-manager'', ''credentials''] [''keepass-filename-review'',
        ''password-manager-artifact-review''],
     possible ''vault-notes-old.txt'' ''notes-creds'' ''medium'' [''filename'', ''path'']
        [''password-manager''] [''keepass-filename-review''],
     noise ''meeting-notes.md'' ''meeting-notes'' ''low'' [''notes''] [''noise-review'']] (rv_standard r)"

definition spec_finance :: "renderers \<Rightarrow> templateSpec" where
  "spec_finance r = newSpec ''finance'' [''Finance'', ''Finance/Exports'', ''Archive'', ''Old''] [
     likely ''finance-share-notes.txt'' ''notes-creds'' ''high'' [''content'', ''filename''] [''finance'',
        ''credentials''] [''hardcoded-secret-indicators'', ''business-sensitive-review''],
     possible ''customer_export_q1.csv'' ''csv-export'' ''medium'' [''filename'', ''path''] [''finance'',
        ''business-data''] [''export-filename-review'', ''business-sensitive-review''],
     possible ''payroll-export-2025.csv'' ''csv-export'' ''medium'' [''filename'', ''path''] [''finance'',
        ''business-data''] [''export-filename-review'', ''payroll-filename-review''],
     noise ''team-contacts.csv'' ''team-contacts'' ''low'' [''noise''] [''noise-review''],
     noise ''project-plan.md'' ''meeting-notes'' ''low'' [''noise''] [''noise-review'']] (rv_standard r)"

definition spec_sql :: "renderers \<Rightarrow> templateSpec" where
  "spec_sql r = newSpec ''sql'' [''SQL'', ''SQL/Backups'', ''IT/Admin'', ''Archive/Legacy/App1/Config''] [
     likely ''sql-connection.properties'' ''config-properties'' ''high'' [''content'', ''filename'',
        ''extension''] [''configuration'', ''credentials''] [''database-connection-strings'',
        ''hardcoded-secret-indicators''],
     likely ''db-backup.conf'' ''config-kv'' ''high'' [''content'', ''filename''] [''sql'',
        ''credentials''] [''database-connection-strings''],
     possible ''sql-backup-readme.txt'' ''notes-service'' ''medium'' [''filename''] [''sql'']
        [''backup-export-naming''],
     noise ''inventory.csv'' ''inventory-csv'' ''low'' [''noise''] [''noise-review'']] (rv_standard r)"

definition spec_database :: "renderers \<Rightarrow> templateSpec" where
  "spec_database r = newSpec ''database'' [''SQL'', ''SQL/Backups'', ''Web/Configs'', ''Deploy'',
        ''IT/Scripts'', ''Archive/Legacy/App1/Config'', ''Backups/Daily''] dbTemplateVariants (rv_standard
        r)"

definition spec_sqlite_databases :: "renderers \<Rightarrow> templateSpec" where
  "spec_sqlite_databases r = newSpec ''sqlite-databases'' [''Apps/FinancePortal'', ''Apps/LegacyService'',
        ''Users/Alice/AppData/Local'', ''Temp/Cache''] [
     archiveInnerPath (classify (triage (likely ''customers-prod.sqlite'' ''sqlite-credential-db'' ''high''
        [''content'', ''validated''] [''database'', ''sqlite'', ''credentials''] [''sqlite-inspection''])
        seedTriageActionable) seedClassActionable ''high'' False) ''::users.password'',
     archiveInnerPath (classify (triage (likely ''session-store.db'' ''sqlite-token-db'' ''high''
        [''content'', ''validated''] [''database'', ''sqlite'', ''credentials''] [''sqlite-inspection''])
        seedTriageActionable) seedClassActionable ''high'' False) ''::sessions.token'',
     classify (triage (noise ''telemetry-cache.db'' ''sqlite-benign-db'' ''low'' [''database'', ''sqlite'',
        ''noise''] [''sqlite-inspection'']) seedTriageConfigOnly) seedClassConfigOnly ''low'' False]
        (rv_standard r)"

definition spec_sqlite_correlation :: "renderers \<Rightarrow> templateSpec" where
  "spec_sqlite_correlation r = newSpec ''sqlite-correlation'' [''Apps/PayrollPortal''] [
     archiveInnerPath (classify (triage (likely ''payroll-cache.sqlite3'' ''sqlite-correlation-db''
        ''high'' [''content'', ''validated'', ''correlation''] [''database'', ''sqlite'', ''credentials'']
        [''sqlite-inspection'']) seedTriageActionable) seedClassCorrelatedHighConfidence ''high'' True)
        ''::accounts.password'',
     classify (triage (likely ''.env'' ''db-env'' ''high'' [''content'', ''filename'', ''extension'']
        [''configuration'', ''database'', ''credentials''] [''database-connection-strings'',
        ''hardcoded-secret-indicators'']) seedTriageActionable) seedClassActionable ''high'' False,
     noise ''readme.txt'' ''readme-noise'' ''low'' [''noise''] [''noise-review'']] (rv_standard r)"

definition spec_zip_archives :: "renderers \<Rightarrow> templateSpec" where
  "spec_zip_archives r = newSpec ''zip-archives'' [''Deploy'', ''Archive/Legacy/App1/Config'',
        ''Backups/Monthly'', ''IT/Admin'', ''Finance/Exports'', ''Old''] archiveTemplateVariants
        (rv_archive r)"

definition spec_tar_archives :: "renderers \<Rightarrow> templateSpec" where
  "spec_tar_archives r = newSpec ''tar-archives'' [''Backups/Linux'', ''Archive/Configs'',
        ''Deploy/Exports'', ''Users/Alice/Downloads''] tarTemplateVariants (rv_tar r)"

definition spec_office_documents :: "renderers \<Rightarrow> templateSpec" where
  "spec_office_documents r = newSpec ''office-documents'' [''Docs'', ''Finance'', ''Presentations'',
        ''Archive/Old'', ''Projects/Migration''] officeTemplateVariants (rv_office r)"

definition spec_wim_images :: "renderers \<Rightarrow> templateSpec" where
  "spec_wim_images r = newSpec ''wim-images'' [''Images'', ''Deploy/Media'', ''Archive/SystemImages'',
        ''Backups/InstallMedia''] wimTemplateVariants (rv_wim r)"

definition spec_secret_stores :: "renderers \<Rightarrow> templateSpec" where
  "spec_secret_stores r = newSpec ''secret-stores'' [''IT/Admin'', ''Archive/Legacy'', ''Backups/Daily'',
        ''Old'', ''Windows/System32/config'', ''Windows/System32/config/RegBack''] [
     classify (triage (likely ''NTDS.DIT'' ''secret-store-marker'' ''high'' [''filename'']
        [''credentials'', ''secret-store''] [''secret-store-artifact-review'']) seedTriageActionable)
        seedClassActionable ''high'' False,
     classify (triage (likely ''NTDS.DIT.bak'' ''secret-store-marker'' ''high'' [''filename'']
        [''credentials'', ''secret-store''] [''secret-store-artifact-review'']) seedTriageActionable)
        seedClassActionable ''high'' False,
     classify (triage (likely ''shadow'' ''secret-store-marker'' ''high'' [''filename''] [''credentials'',
        ''secret-store''] [''secret-store-artifact-review'']) seedTriageActionable) seedClassActionable
        ''high'' False,
     classify (triage (likely ''SYSTEM'' ''secret-store-marker'' ''high'' [''filename''] [''credentials'',
        ''secret-store'', ''windows''] [''secret-store-artifact-review'']) seedTriageActionable)
        seedClassActionable ''high'' False,
     classify (triage (likely ''SECURITY'' ''secret-store-marker'' ''high'' [''filename'']
        [''credentials'', ''secret-store'', ''windows''] [''secret-store-artifact-review''])
        seedTriageActionable) seedClassActionable ''high'' False,
     classify (triage (likely ''SYSTEM.bak'' ''secret-store-marker'' ''high'' [''filename'']
        [''credentials'', ''secret-store'', ''windows''] [''secret-store-artifact-review''])
        seedTriageActionable) seedClassActionable ''high'' False,
     classify (triage (likely ''SECURITY.old'' ''secret-store-marker'' ''high'' [''filename'']
        [''credentials'', ''secret-store'', ''windows''] [''secret-store-artifact-review''])
        seedTriageActionable) seedClassActionable ''high'' False,
     noise ''shadow-notes.txt'' ''notes-benign'' ''low'' [''noise''] [''noise-review''],
     noise ''system.txt'' ''notes-benign'' ''low'' [''noise''] [''noise-review''],
     noise ''system.bak'' ''notes-benign'' ''low'' [''noise''] [''noise-review'']] (rv_standard r)"

definition spec_ad_correlation :: "renderers \<Rightarrow> templateSpec" where
  "spec_ad_correlation r = newSpec ''ad-correlation'' [''Recovery/AD''] [
     classify (triage (likely ''NTDS.DIT'' ''secret-store-marker'' ''high'' [''filename'', ''correlation'',
        ''path''] [''credentials'', ''secret-store'', ''active-directory'']
        [''secret-store-artifact-review'']) seedTriageActionable) seedClassCorrelatedHighConfidence
        ''high'' True,
     classify (triage (likely ''SYSTEM'' ''secret-store-marker'' ''high'' [''filename''] [''credentials'',
        ''secret-store'', ''windows''] [''secret-store-artifact-review'']) seedTriageActionable)
        seedClassActionable ''high'' False,
     noise ''readme.txt'' ''readme-noise'' ''low'' [''noise''] [''noise-review'']] (rv_standard r)"

definition spec_backup_exposure :: "renderers \<Rightarrow> templateSpec" where
  "spec_backup_exposure r = newSpec ''backup-exposure''
        [''Backups/SystemState/WindowsImageBackup/DC01/Backup 2025-01-01/C/Windows/System32/config'',
        ''Recovery/System Volume Information/restore-point-17/Windows/System32/config'',
        ''Archive/SystemCopies/Windows/System32/config/RegBack'', ''Archive/WindowsImageBackup-Notes''] [
     classify (triage (likely ''SAM'' ''secret-store-marker'' ''high'' [''filename'', ''path'']
        [''backup'', ''windows'', ''secret-store''] [''backup-exposure-review'',
        ''secret-store-artifact-review'']) seedTriageActionable) seedClassActionable ''high'' False,
     classify (triage (likely ''SYSTEM'' ''secret-store-marker'' ''high'' [''filename'', ''path'']
        [''backup'', ''windows'', ''secret-store''] [''backup-exposure-review'',
        ''secret-store-artifact-review'']) seedTriageActionable) seedClassActionable ''high'' False,
     classify (triage (likely ''SECURITY.old'' ''secret-store-marker'' ''high'' [''filename'', ''path'']
        [''backup'', ''windows'', ''secret-store''] [''backup-exposure-review'',
        ''secret-store-artifact-review'']) seedTriageActionable) seedClassActionable ''high'' False,
     noise ''readme.txt'' ''readme-noise'' ''low'' [''noise''] [''noise-review'']] (rv_standard r)"

definition spec_backup_exposure_correlation :: "renderers \<Rightarrow> templateSpec" where
  "spec_backup_exposure_correlation r = newSpec ''backup-exposure-correlation''
        [''Backups/SystemState/WindowsImageBackup/DC02/Backup 2025-02-14/C/Windows/System32/config''] [
     classify (triage (likely ''NTDS.DIT.bak'' ''secret-store-marker'' ''high'' [''filename'', ''path'',
        ''correlation''] [''backup'', ''windows'', ''secret-store'', ''active-directory'']
        [''backup-exposure-review'', ''secret-store-artifact-review'']) seedTriageActionable)
        seedClassCorrelatedHighConfidence ''high'' True,
     classify (triage (likely ''SYSTEM.bak'' ''secret-store-marker'' ''high'' [''filename'', ''path'']
        [''backup'', ''windows'', ''secret-store''] [''backup-exposure-review'',
        ''secret-store-artifact-review'']) seedTriageActionable) seedClassActionable ''high'' False,
     classify (triage (likely ''SECURITY.bak'' ''secret-store-marker'' ''high'' [''filename'', ''path'']
        [''backup'', ''windows'', ''secret-store''] [''backup-exposure-review'',
        ''secret-store-artifact-review'']) seedTriageActionable) seedClassActionable ''high'' False,
     noise ''notes.txt'' ''notes-benign'' ''low'' [''noise''] [''noise-review'']] (rv_standard r)"

definition spec_cloud :: "renderers \<Rightarrow> templateSpec" where
  "spec_cloud r = newSpec ''cloud'' [''IT/Admin'', ''Deploy'', ''Web/Configs'', ''Archive''] [
     likely ''azure-config.yaml'' ''cloud-yaml'' ''high'' [''content'', ''filename'', ''extension'']
        [''cloud'', ''configuration''] [''cloud-config-exposure'', ''hardcoded-secret-indicators''],
     likely ''aws-migration-notes.txt'' ''notes-cloud'' ''high'' [''content'', ''filename''] [''cloud'',
        ''credentials''] [''cloud-config-exposure'', ''api-token-exposure''],
     possible ''aws-config.json'' ''cloud-json'' ''medium'' [''filename'', ''extension''] [''cloud'']
        [''cloud-config-exposure''],
     noise ''cloud-readme.md'' ''readme-noise'' ''low'' [''noise''] [''noise-review'']] (rv_standard r)"

definition spec_aws_artifacts :: "renderers \<Rightarrow> templateSpec" where
  "spec_aws_artifacts r = newSpec ''aws-artifacts'' [''Users/Alice/.aws'', ''Users/Bob/.aws'',
        ''Archive/ProfileCopies/Charlie/.aws'', ''Backups/UserMigrations/David/.aws''] [
     classify (triage (likely ''credentials'' ''aws-credentials-real'' ''high'' [''content'',
        ''validated'', ''filename'', ''path''] [''cloud'', ''aws'', ''credentials'']
        [''aws-credential-artifact-review'']) seedTriageActionable) seedClassActionable ''high'' False,
     classify (triage (likely ''config'' ''aws-config-benign'' ''medium'' [''filename'', ''path'']
        [''cloud'', ''aws'', ''configuration''] [''aws-config-artifact-review'']) seedTriageWeakReview)
        seedClassWeakReview ''medium'' False,
     classify (triage (possible ''credentials.bak'' ''aws-credentials-real'' ''high'' [''content'',
        ''validated'', ''filename'', ''path''] [''cloud'', ''aws'', ''credentials'']
        [''aws-credential-artifact-review'']) seedTriageActionable) seedClassActionable ''high'' False,
     classify (triage (possible ''config.bak'' ''aws-config-role'' ''medium'' [''filename'', ''path'']
        [''cloud'', ''aws'', ''configuration''] [''aws-config-artifact-review'']) seedTriageWeakReview)
        seedClassWeakReview ''medium'' False,
     noise ''aws-notes.txt'' ''aws-notes-benign'' ''low'' [''cloud'', ''noise''] [''noise-review'']]
        (rv_standard r)"

definition spec_aws_correlation :: "renderers \<Rightarrow> templateSpec" where
  "spec_aws_correlation r = newSpec ''aws-correlation'' [''Users/Erin/.aws''] [
     classify (triage (likely ''credentials'' ''aws-credentials-real'' ''high'' [''content'',
        ''validated'', ''filename'', ''path'', ''correlation''] [''cloud'', ''aws'', ''credentials'']
        [''aws-credential-artifact-review'']) seedTriageActionable) seedClassCorrelatedHighConfidence
        ''high'' True,
     classify (triage (likely ''config'' ''aws-config-role'' ''medium'' [''filename'', ''path'']
        [''cloud'', ''aws'', ''configuration''] [''aws-config-artifact-review'']) seedTriageWeakReview)
        seedClassWeakReview ''medium'' False,
     noise ''migration-notes.txt'' ''aws-notes-benign'' ''low'' [''cloud'', ''noise''] [''noise-review'']]
        (rv_standard r)"

definition spec_legacy :: "renderers \<Rightarrow> templateSpec" where
  "spec_legacy r = newSpec ''legacy'' [''Archive/Legacy/App1/Config'', ''Archive/Legacy/App2/Config'',
        ''Old'', ''Archive''] [
     likely ''legacy-app.conf'' ''legacy-conf'' ''high'' [''content'', ''filename'', ''extension'']
        [''legacy'', ''configuration''] [''legacy-config-review'', ''hardcoded-secret-indicators''],
     possible ''prod-config-old.yml'' ''config-yaml-secrets'' ''medium'' [''filename'', ''extension'']
        [''legacy'', ''configuration''] [''legacy-config-review''],
     possible ''archive-notes.txt'' ''notes-service'' ''medium'' [''filename'', ''path''] [''legacy'',
        ''archives''] [''archive-review''],
     noise ''changelog.txt'' ''readme-noise'' ''low'' [''noise''] [''noise-review'']] (rv_standard r)"

definition spec_user_notes :: "renderers \<Rightarrow> templateSpec" where
  "spec_user_notes r = newSpec ''user-notes'' [''Users/Alice/Desktop'', ''Users/Bob/Documents'',
        ''Users/Charlie/Downloads'', ''Users/David/Desktop''] [
     likely ''passwords.txt'' ''notes-creds'' ''high'' [''content'', ''filename''] [''credentials'',
        ''notes''] [''hardcoded-secret-indicators'', ''sensitive-filename-review''],
     likely ''creds-old.txt'' ''notes-creds'' ''high'' [''content'', ''filename''] [''credentials'',
        ''notes''] [''hardcoded-secret-indicators'', ''sensitive-filename-review''],
     possible ''notes-old-creds.txt'' ''notes-creds'' ''medium'' [''filename'', ''path''] [''credentials'',
        ''notes''] [''sensitive-filename-review''],
     possible ''service-account-notes.txt'' ''notes-service'' ''medium'' [''content'', ''filename'']
        [''service-accounts'', ''notes''] [''hardcoded-secret-indicators''],
     noise ''readme.txt'' ''readme-noise'' ''low'' [''noise''] [''noise-review'']] (rv_standard r)"

definition spec_scripts :: "renderers \<Rightarrow> templateSpec" where
  "spec_scripts r = newSpec ''scripts'' [''IT/Scripts'', ''IT/Admin'', ''Deploy'', ''Backups/Daily''] [
     likely ''backup-script.ps1'' ''script-ps1'' ''high'' [''content'', ''filename'', ''extension'']
        [''scripts'', ''credentials''] [''script-credentials'', ''admin-script-review''],
     likely ''deploy-users.sh'' ''script-shell'' ''high'' [''content'', ''filename'', ''extension'']
        [''scripts'', ''credentials''] [''script-credentials''],
     possible ''admin-reset.cmd'' ''script-batch'' ''medium'' [''filename'', ''extension''] [''scripts'']
        [''admin-script-review''],
     noise ''scripts-readme.md'' ''readme-noise'' ''low'' [''noise''] [''noise-review'']] (rv_standard r)"

definition spec_temp :: "renderers \<Rightarrow> templateSpec" where
  "spec_temp r = newSpec ''temp'' [''Old'', ''Users/Charlie/Downloads'', ''Users/David/Desktop'',
        ''Archive''] [
     likely ''scratch-notes.txt'' ''notes-creds'' ''high'' [''content''] [''logs'', ''credentials'']
        [''log-review'', ''hardcoded-secret-indicators''],
     possible ''debug-export.txt'' ''notes-cloud'' ''medium'' [''filename'', ''path''] [''temp'']
        [''export-filename-review''],
     noise ''app-log.log'' ''log-noise'' ''low'' [''noise''] [''noise-review''],
     noise ''deployment-notes.txt'' ''notes-benign'' ''low'' [''noise''] [''noise-review'']] (rv_standard
        r)"

definition spec_backups :: "renderers \<Rightarrow> templateSpec" where
  "spec_backups r = newSpec ''backups'' [''Backups/Daily'', ''Backups/Monthly'', ''SQL/Backups'',
        ''Archive''] [
     likely ''backup-notes.txt'' ''backup-notes'' ''high'' [''content'', ''filename''] [''backups'',
        ''credentials''] [''backup-export-naming'', ''hardcoded-secret-indicators''],
     possible ''db-backup.conf'' ''config-kv'' ''medium'' [''filename'', ''path''] [''backups'']
        [''backup-export-naming''],
     noise ''backup-index.md'' ''readme-noise'' ''low'' [''noise''] [''noise-review'']] (rv_standard r)"

definition spec_service_accounts :: "renderers \<Rightarrow> templateSpec" where
  "spec_service_accounts r = newSpec ''service-accounts'' [''IT/Admin'', ''Deploy'', ''SQL'',
        ''Web/Configs''] [
     likely ''service-account-notes.txt'' ''notes-service'' ''high'' [''content'', ''filename'']
        [''service-accounts'', ''credentials''] [''hardcoded-secret-indicators'', ''admin-script-review''],
     likely ''svc-deploy.env'' ''deploy-env'' ''high'' [''content'', ''filename'', ''extension'']
        [''service-accounts'', ''credentials''] [''deployment-config-review'',
        ''hardcoded-secret-indicators''],
     possible ''account-mapping.txt'' ''notes-service'' ''medium'' [''filename'', ''path'']
        [''service-accounts''] [''admin-script-review''],
     noise ''team-service-list.md'' ''readme-noise'' ''low'' [''noise''] [''noise-review'']] (rv_standard
        r)"

definition spec_noise :: "renderers \<Rightarrow> templateSpec" where
  "spec_noise r = newSpec ''noise'' [''IT'', ''Finance/Exports'', ''Users/Bob/Documents'', ''Temp'',
        ''Web/Configs''] [
     noise ''meeting-notes.md'' ''meeting-notes'' ''low'' [''noise''] [''noise-review''],
     noise ''readme.txt'' ''readme-noise'' ''low'' [''noise''] [''noise-review''],
     noise ''inventory.csv'' ''inventory-csv'' ''low'' [''noise''] [''noise-review''],
     noise ''changelog.txt'' ''readme-noise'' ''low'' [''noise''] [''noise-review''],
     noise ''team-contacts.csv'' ''team-contacts'' ''low'' [''noise''] [''noise-review''],
     noise ''project-plan.md'' ''meeting-notes'' ''low'' [''noise''] [''noise-review''],
     noise ''app-log.log'' ''log-noise'' ''low'' [''noise''] [''noise-review''],
     noise ''deployment-notes.txt'' ''notes-benign'' ''low'' [''noise''] [''noise-review'']] (rv_standard
        r)"

definition defaultTemplates :: "renderers \<Rightarrow> templateSpec list" where
  "defaultTemplates r = [spec_configs r, spec_deploy r, spec_vpn r, spec_private_keys r,
        spec_private_key_correlation r, spec_certificate_bundles r, spec_certificate_correlation r,
        spec_windows_credential_stores r, spec_windows_credential_correlation r,
        spec_browser_credential_stores r, spec_browser_credential_correlation r, spec_keepass r,
        spec_finance r, spec_sql r, spec_database r, spec_sqlite_databases r, spec_sqlite_correlation r,
        spec_zip_archives r, spec_tar_archives r, spec_office_documents r, spec_wim_images r,
        spec_secret_stores r, spec_ad_correlation r, spec_backup_exposure r,
        spec_backup_exposure_correlation r, spec_cloud r, spec_aws_artifacts r, spec_aws_correlation r,
        spec_legacy r, spec_user_notes r, spec_scripts r, spec_temp r, spec_backups r,
        spec_service_accounts r, spec_noise r]"

end
