(* ===== verification/SeedGenerate.thy ===== *)
theory SeedGenerate
  imports SeedTemplates
begin

text \<open>
  The generator of the lab seeder (\<open>internal/seed/generator.go\<close>). The random numbers are an argument: \<open>draw k n\<close> is the
  answer of the \<open>k\<close>-th call of \<open>Intn\<close>, with the bound \<open>n\<close>; so is whether the image tool is installed. The
  search for a free file name has no bound in the code; \<open>None\<close> is a call that does not return.
\<close>

subsection \<open>Options\<close>

record GenerateOptions =
  go_CountPerCategory :: int
  go_MaxFiles :: int
  go_Depth :: int
  go_SeedPrefix :: string
  go_LikelyHitRatio :: int
  go_FilenameOnlyRatio :: int
  go_HighSeverityRatio :: int
  go_MediumSeverityRatio :: int

definition percent :: "int \<Rightarrow> int" where
  "percent n = (if n < 0 then 0 else if n > 100 then 100 else n)"

definition generate_options :: "GenerateOptions \<Rightarrow> GenerateOptions" where
  "generate_options o0 =
     (let unset = (go_LikelyHitRatio o0 = 0 \<and> go_FilenameOnlyRatio o0 = 0 \<and> go_HighSeverityRatio o0 = 0
                   \<and> go_MediumSeverityRatio o0 = 0)
      in \<lparr>go_CountPerCategory = (if go_CountPerCategory o0 \<le> 0 then 6 else go_CountPerCategory o0),
          go_MaxFiles = (if go_MaxFiles o0 \<le> 0 then 480 else go_MaxFiles o0),
          go_Depth = (if go_Depth o0 < 0 then 0 else go_Depth o0),
          go_SeedPrefix = normalizeSeedPrefix (go_SeedPrefix o0),
          go_LikelyHitRatio = percent (if unset then 65 else go_LikelyHitRatio o0),
          go_FilenameOnlyRatio = percent (go_FilenameOnlyRatio o0),
          go_HighSeverityRatio = percent (if unset then 35 else go_HighSeverityRatio o0),
          go_MediumSeverityRatio = percent (if unset then 45 else go_MediumSeverityRatio o0)\<rparr>)"

subsection \<open>Choosing a variant\<close>

definition desiredIntent :: "GenerateOptions \<Rightarrow> int \<Rightarrow> string" where
  "desiredIntent opts bucket =
     (let lk = go_LikelyHitRatio opts; ps = (if lk + 20 > 100 then max 0 (100 - lk) else 20) in
      if bucket < lk then ''likely-hit'' else if bucket < lk + ps then ''possible-hit'' else ''filler/noise'')"

definition desiredSignalMode :: "GenerateOptions \<Rightarrow> int \<Rightarrow> string" where
  "desiredSignalMode opts bucket =
     (if bucket < go_FilenameOnlyRatio opts then ''filename-only'' else ''content-hit'')"

definition desiredSeverity :: "GenerateOptions \<Rightarrow> int \<Rightarrow> string" where
  "desiredSeverity opts bucket =
     (if bucket < go_HighSeverityRatio opts then ''high''
      else if bucket < go_HighSeverityRatio opts + go_MediumSeverityRatio opts then ''medium'' else ''low'')"

definition variantMatchesSignalMode :: "templateVariant \<Rightarrow> string \<Rightarrow> bool" where
  "variantMatchesSignalMode v mode =
     (let has_content = (\<exists>s \<in> set (tv_ExpectedSignalTypes v). equal_fold s ''content'') in
      if mode = ''filename-only'' then \<not> has_content else if mode = ''content-hit'' then has_content else True)"

definition variant_less :: "templateVariant \<Rightarrow> templateVariant \<Rightarrow> bool" where
  "variant_less a b =
     (if tv_Filename a = tv_Filename b then tv_Format a < tv_Format b else tv_Filename a < tv_Filename b)"

definition matchVariant ::
  "templateVariant list \<Rightarrow> string \<Rightarrow> string \<Rightarrow> string \<Rightarrow> nat \<Rightarrow> templateVariant option" where
  "matchVariant variants intent mode severity index =
     (let filtered = slice_sort variant_less
            (filter (\<lambda>v. (intent = [] \<or> tv_IntendedAs v = intent)
                       \<and> (severity = [] \<or> tv_ExpectedSeverity v = severity)
                       \<and> (mode = [] \<or> variantMatchesSignalMode v mode)) variants)
      in if filtered = [] then None else Some (filtered ! (index mod length filtered)))"

text \<open>The variants of a specification are not empty where this is called.\<close>

definition pickVariant ::
  "templateVariant list \<Rightarrow> GenerateOptions \<Rightarrow> int \<Rightarrow> int \<Rightarrow> int \<Rightarrow> nat \<Rightarrow> templateVariant" where
  "pickVariant variants opts b1 b2 b3 index =
     (let intent = desiredIntent opts b1; mode = desiredSignalMode opts b2; severity = desiredSeverity opts b3 in
      case matchVariant variants intent mode severity index of Some v \<Rightarrow> v
      | None \<Rightarrow> (case matchVariant variants intent [] severity index of Some v \<Rightarrow> v
      | None \<Rightarrow> (case matchVariant variants intent mode [] index of Some v \<Rightarrow> v
      | None \<Rightarrow> (case matchVariant variants intent [] [] index of Some v \<Rightarrow> v
      | None \<Rightarrow> variants ! (index mod length variants)))))"

definition chooseValue :: "string list \<Rightarrow> nat \<Rightarrow> string" where
  "chooseValue xs index = (if xs = [] then [] else xs ! (index mod length xs))"

subsection \<open>Names\<close>

definition splitFilename :: "string \<Rightarrow> string \<times> string" where
  "splitFilename filename =
     (case last_index CHR ''.'' filename of
        Some dot \<Rightarrow> if dot > 0 then (take dot filename, drop dot filename) else (filename, [])
      | None \<Rightarrow> (filename, []))"

definition suffixed :: "string \<Rightarrow> nat \<Rightarrow> string" where
  "suffixed filename k =
     (let (base, ext) = splitFilename filename in base @ ''-'' @ padded 2 k @ ext)"

partial_function (option) free_name :: "string list \<Rightarrow> string \<Rightarrow> string \<Rightarrow> nat \<Rightarrow> string option" where
  "free_name seen relative filename suffix =
     (if joinSeedPath [relative, suffixed filename suffix] \<in> set seen
      then free_name seen relative filename (suffix + 1)
      else Some (suffixed filename suffix))"

declare free_name.simps [code]

definition uniqueSeedFilename :: "string \<Rightarrow> string \<Rightarrow> string list \<Rightarrow> (string \<times> string list) option" where
  "uniqueSeedFilename relative filename seen =
     (if joinSeedPath [relative, filename] \<notin> set seen
      then Some (filename, joinSeedPath [relative, filename] # seen)
      else case free_name seen relative filename 2 of
             None \<Rightarrow> None
           | Some c \<Rightarrow> Some (c, joinSeedPath [relative, c] # seen))"

definition expectedSeedPath :: "string \<Rightarrow> string \<Rightarrow> string \<Rightarrow> string" where
  "expectedSeedPath relative filename inner0 =
     (let base = joinSeedPath [relative, filename]; inner = trim_space (slashes inner0) in
      if inner = [] then []
      else if has_prefix inner ''!'' \<or> has_prefix inner ''::'' then base @ inner
      else
        let inside = trim_set (trim_prefix inner ''./'') ''/''
        in if inside = [] then base else base @ ''!'' @ inside)"

definition FullPath :: "SeedFile \<Rightarrow> string" where
  "FullPath file = joinSeedPath [sd_RelativePath file, sd_Filename file]"

definition formatLabel :: "SeedFile \<Rightarrow> string" where
  "formatLabel file = (let f = trim_space (sd_Format file) in if f = [] then ''txt'' else f)"

subsection \<open>Generate\<close>

record generator =
  gn_opts :: GenerateOptions
  gn_draw :: "nat \<Rightarrow> nat \<Rightarrow> nat"
  gn_wim :: bool

record generated =
  gd_out :: "SeedFile list"
  gd_seen :: "string list"
  gd_calls :: nat

definition chosen_variant :: "generator \<Rightarrow> templateSpec \<Rightarrow> nat \<Rightarrow> generated \<Rightarrow> templateVariant \<times> nat" where
  "chosen_variant g spec i st =
     (let k = gd_calls st + 1 in
      if i < length (ts_Variants spec) then (ts_Variants spec ! i, k)
      else (pickVariant (ts_Variants spec) (gn_opts g) (int (gn_draw g k 100)) (int (gn_draw g (k + 1) 100))
              (int (gn_draw g (k + 2) 100)) (length (gd_out st)), k + 3))"

definition render_context ::
  "templateSpec \<Rightarrow> nat \<Rightarrow> string \<Rightarrow> string \<Rightarrow> templateVariant \<Rightarrow> renderContext" where
  "render_context spec i token dir v =
     \<lparr>rc_Index = i, rc_Format = tv_Format v, rc_Filename = tv_Filename v, rc_Token = token,
      rc_Category = ts_Category spec, rc_Directory = dir, rc_Persona = chooseValue (ts_Personas spec) i,
      rc_PersonaDisplay = displayName (chooseValue (ts_Personas spec) i),
      rc_ServiceAccount = chooseValue (ts_ServiceAccounts spec) i,
      rc_Label = chooseValue (ts_Labels spec) i, rc_IntendedAs = tv_IntendedAs v,
      rc_ContentStyle = tv_ContentStyle v\<rparr>"

definition seed_file :: "templateSpec \<Rightarrow> templateVariant \<Rightarrow> string \<Rightarrow> string \<Rightarrow> string \<Rightarrow> SeedFile" where
  "seed_file spec v relative filename content =
     \<lparr>sd_Category = ts_Category spec, sd_Format = tv_Format v, sd_RelativePath = relative, sd_Filename = filename,
      sd_ExpectedPath = expectedSeedPath relative filename (tv_ExpectedInnerPath v), sd_Content = content,
      sd_IntendedAs = tv_IntendedAs v, sd_ExpectedClass = tv_ExpectedClass v,
      sd_ExpectedTriageClass = tv_ExpectedTriageClass v, sd_ExpectedConfidence = tv_ExpectedConfidence v,
      sd_ExpectedCorrelated = tv_ExpectedCorrelated v, sd_ExpectedSignalTypes = tv_ExpectedSignalTypes v,
      sd_ExpectedTags = tv_ExpectedTags v, sd_ExpectedRuleThemes = tv_ExpectedRuleThemes v,
      sd_ExpectedSeverity = tv_ExpectedSeverity v\<rparr>"

text \<open>The directory of the \<open>i\<close>-th file; a specification without directories makes the code panic.\<close>

definition seed_dir :: "GenerateOptions \<Rightarrow> templateSpec \<Rightarrow> nat \<Rightarrow> string" where
  "seed_dir opts spec i =
     applyDepth (ts_Directories spec ! (i mod length (ts_Directories spec))) (go_Depth opts) i
       (ts_Category spec) (chooseValue (ts_Personas spec) i)"

definition generate_one :: "generator \<Rightarrow> templateSpec \<Rightarrow> nat \<Rightarrow> generated \<Rightarrow> generated option" where
  "generate_one g spec i st =
     (if ts_Directories spec = [] then None
      else
        let token = padded 3 (i + 1) @ ''_'' @ padded 4 (gn_draw g (gd_calls st) 10000);
            dir = seed_dir (gn_opts g) spec i;
            (v, calls) = chosen_variant g spec i st;
            content = ts_Render spec (render_context spec i token dir v) v;
            relative = joinSeedPath [go_SeedPrefix (gn_opts g), dir]
        in case uniqueSeedFilename relative (tv_Filename v) (gd_seen st) of
             None \<Rightarrow> None
           | Some (filename, seen) \<Rightarrow>
               Some \<lparr>gd_out = gd_out st @ [seed_file spec v relative filename content],
                     gd_seen = seen, gd_calls = calls\<rparr>)"

text \<open>The loop of one category; the flag tells that the limit was met and everything ends.\<close>

fun category_loop :: "generator \<Rightarrow> templateSpec \<Rightarrow> nat list \<Rightarrow> generated \<Rightarrow> (generated \<times> bool) option" where
  "category_loop g spec [] st = Some (st, False)"
| "category_loop g spec (i # rest) st =
     (if int (length (gd_out st)) \<ge> go_MaxFiles (gn_opts g) then Some (st, True)
      else case generate_one g spec i st of
             None \<Rightarrow> None
           | Some st' \<Rightarrow> category_loop g spec rest st')"

definition skipped_spec :: "generator \<Rightarrow> templateSpec \<Rightarrow> bool" where
  "skipped_spec g spec \<longleftrightarrow> (ts_Category spec = ''wim-images'' \<and> \<not> gn_wim g) \<or> ts_Variants spec = []"

fun specs_loop :: "generator \<Rightarrow> templateSpec list \<Rightarrow> generated \<Rightarrow> generated option" where
  "specs_loop g [] st = Some st"
| "specs_loop g (spec # specs) st =
     (if skipped_spec g spec then specs_loop g specs st
      else case category_loop g spec [0 ..< nat (go_CountPerCategory (gn_opts g))] st of
             None \<Rightarrow> None
           | Some (st', True) \<Rightarrow> Some st'
           | Some (st', False) \<Rightarrow> specs_loop g specs st')"

definition Generate ::
  "renderers \<Rightarrow> (nat \<Rightarrow> nat \<Rightarrow> nat) \<Rightarrow> bool \<Rightarrow> GenerateOptions \<Rightarrow> SeedFile list option" where
  "Generate r draw wim opts =
     map_option gd_out
       (specs_loop \<lparr>gn_opts = generate_options opts, gn_draw = draw, gn_wim = wim\<rparr>
          (slice_sort (\<lambda>a b. ts_Category a < ts_Category b) (defaultTemplates r))
          \<lparr>gd_out = [], gd_seen = [], gd_calls = 0\<rparr>)"

subsection \<open>The search for a free name ends\<close>

text \<open>A file name as the templates have them.\<close>

definition seed_name :: "string \<Rightarrow> bool" where
  "seed_name f \<longleftrightarrow>
     f \<noteq> [] \<and> CHR ''/'' \<notin> set f \<and> CHR 0x5C \<notin> set f \<and> \<not> is_space (hd f) \<and> \<not> is_space (last f)"

lemma seed_part_name: "seed_name f \<Longrightarrow> seed_part f = f"
proof -
  assume f: "seed_name f"
  then have "hd f \<in> set f" "last f \<in> set f" by (simp_all add: seed_name_def)
  moreover have "CHR ''/'' \<notin> set f" using f by (simp add: seed_name_def)
  ultimately have h: "hd f \<noteq> CHR ''/''" "last f \<noteq> CHR ''/''" by metis+
  have "slashes f = f" using f by (simp add: seed_name_def slashes_id)
  moreover have "trim_space f = f"
    unfolding trim_space_def by (rule trim_by_id) (use f in \<open>simp add: seed_name_def\<close>)
  moreover have "trim_set f ''/'' = f" by (rule trim_set_id) (use h in auto)
  ultimately show ?thesis by (simp add: seed_part_def)
qed

lemma splitFilename_append:
  "splitFilename f = (base, ext) \<Longrightarrow> base @ ext = f \<and> (f \<noteq> [] \<longrightarrow> base \<noteq> [])"
  by (auto simp: splitFilename_def last_index_def split: option.splits if_splits)

lemma suffixed_eq: "\<exists>base ext. suffixed f k = base @ ''-'' @ padded 2 k @ ext \<and> base @ ext = f \<and>
    (f \<noteq> [] \<longrightarrow> base \<noteq> []) \<and> splitFilename f = (base, ext)"
  using splitFilename_append by (cases "splitFilename f") (auto simp: suffixed_def)

text \<open>Digits give back their number, with or without zeros in front.\<close>

definition digits_value :: "string \<Rightarrow> nat" where
  "digits_value = foldl (\<lambda>v c. 10 * v + (of_char c - 48)) 0"

lemma digits_value_number: "digits_value (string_of_nat n) = n"
proof (induction n rule: string_of_nat.induct)
  case (1 n)
  show ?case
  proof (cases "n < 10")
    case True
    then show ?thesis
      by (subst string_of_nat.simps) (simp add: digits_value_def digit_char_def)
  next
    case False
    then show ?thesis using 1
      by (subst string_of_nat.simps) (simp add: digits_value_def digit_char_def)
  qed
qed

lemma digits_value_zeros: "digits_value (replicate m CHR ''0'' @ s) = digits_value s"
  by (induction m) (simp_all add: digits_value_def)

lemma padded_inj: "padded m a = padded m b \<Longrightarrow> a = b"
  by (metis digits_value_number digits_value_zeros padded_def)

lemma string_of_nat_digits: "c \<in> set (string_of_nat n) \<Longrightarrow> \<exists>d < 10. c = digit_char d"
proof (induction n rule: string_of_nat.induct)
  case (1 n)
  have "c \<in> set (string_of_nat n) \<longleftrightarrow>
      (if n < 10 then c = digit_char n else c \<in> set (string_of_nat (n div 10)) \<or> c = digit_char (n mod 10))"
    by (subst string_of_nat.simps) auto
  moreover have "n mod 10 < 10" by simp
  ultimately show ?case using 1 by (metis (full_types))
qed

lemma digit_char_zero: "digit_char 0 = CHR ''0''"
  by (rule of_char_eq_iff [where 'a = nat, THEN iffD1]) (simp add: digit_char_def)

lemma padded_digits:
  assumes "c \<in> set (padded m n)"
  shows "\<exists>d < 10. c = digit_char d"
proof -
  have "c = digit_char 0 \<or> c \<in> set (string_of_nat n)"
    using assms by (auto simp: padded_def Let_def digit_char_zero)
  then show ?thesis using string_of_nat_digits by fastforce
qed

lemma digit_char_plain:
  assumes "d < 10"
  shows "digit_char d \<noteq> CHR ''/''" "digit_char d \<noteq> CHR 0x5C" "\<not> is_space (digit_char d)"
proof -
  have d: "(of_char (digit_char d) :: nat) = 48 + d" using assms by (simp add: digit_char_def)
  show "digit_char d \<noteq> CHR ''/''" "digit_char d \<noteq> CHR 0x5C"
    using d assms by auto
  show "\<not> is_space (digit_char d)" using d assms by (simp add: is_space_def)
qed

lemma padded_not_Nil [simp]: "padded m n \<noteq> []"
  by (simp add: padded_def Let_def) (subst string_of_nat.simps, simp)

lemma suffixed_name:
  assumes "seed_name f"
  shows "seed_name (suffixed f k)" "plain_element (suffixed f k)"
proof -
  obtain base ext where s: "suffixed f k = base @ ''-'' @ padded 2 k @ ext" and f: "base @ ext = f"
    and base: "base \<noteq> []"
    using suffixed_eq [of f k] assms by (auto simp: seed_name_def)
  have digits: "c \<noteq> CHR ''/'' \<and> c \<noteq> CHR 0x5C \<and> \<not> is_space c" if "c \<in> set (padded 2 k)" for c
    using padded_digits [OF that] digit_char_plain by auto
  have "last (padded 2 k) \<in> set (padded 2 k)" by simp
  note last_digit = digits [OF this]
  have "hd (base @ ''-'' @ padded 2 k @ ext) = hd f" using base f by auto
  moreover have "last (base @ ''-'' @ padded 2 k @ ext) = (if ext = [] then last (padded 2 k) else last f)"
    using f by auto
  ultimately show "seed_name (suffixed f k)"
    using assms last_digit digits f unfolding s by (auto simp: seed_name_def)
  then show "plain_element (suffixed f k)"
    using base unfolding s by (auto simp: seed_name_def plain_element_def Cons_eq_append_conv append_eq_Cons_conv)
qed

lemma suffixed_inj: "suffixed f a = suffixed f b \<Longrightarrow> a = b"
  using suffixed_eq [of f a] suffixed_eq [of f b] padded_inj [of 2 a b] by auto

lemma free_name_step:
  assumes "joinSeedPath [rel, suffixed f k] \<notin> set seen"
  shows "n \<le> k \<Longrightarrow> \<exists>c. free_name seen rel f n = Some c \<and> joinSeedPath [rel, c] \<notin> set seen
    \<and> (\<exists>j. c = suffixed f j)"
proof (induction "k - n" arbitrary: n)
  case 0
  then show ?case using assms by (subst free_name.simps) auto
next
  case (Suc m)
  then show ?case by (subst free_name.simps) (cases "joinSeedPath [rel, suffixed f n] \<in> set seen", auto)
qed

lemma free_name_found:
  assumes "seed_name f"
  shows "\<exists>c. free_name seen rel f n = Some c \<and> joinSeedPath [rel, c] \<notin> set seen \<and> seed_name c \<and> plain_element c"
proof -
  let ?p = "\<lambda>k. joinSeedPath [rel, suffixed f k]"
  have "inj ?p"
    by (rule injI, rule suffixed_inj [of f], rule joinSeedPath_last_inj)
       (use suffixed_name [OF assms] seed_part_name in auto)
  then have "infinite (?p ` {n..})" by (simp add: finite_image_iff inj_on_subset infinite_Ici)
  then obtain x where x: "x \<in> ?p ` {n..}" "x \<notin> set seen" by (meson finite_set finite_subset subsetI)
  then obtain k where "k \<ge> n" "?p k \<notin> set seen" by auto
  then show ?thesis using free_name_step [of rel f k seen n] suffixed_name [OF assms] by auto
qed

lemma uniqueSeedFilename_found:
  assumes "seed_name f" and "plain_element f"
  shows "\<exists>c. uniqueSeedFilename rel f seen = Some (c, joinSeedPath [rel, c] # seen) \<and>
     joinSeedPath [rel, c] \<notin> set seen \<and> seed_name c \<and> plain_element c"
  using free_name_found [OF assms(1), of seen rel 2] assms
  by (cases "joinSeedPath [rel, f] \<in> set seen") (auto simp: uniqueSeedFilename_def)

subsection \<open>What is generated\<close>

text \<open>What the theorem needs of the table.\<close>

definition seed_word :: "string \<Rightarrow> bool" where
  "seed_word w \<longleftrightarrow>
     w \<noteq> [] \<and> (\<forall>c \<in> set w. \<not> is_space c \<and> c \<noteq> CHR ''/'' \<and> c \<noteq> CHR 0x5C \<and> c \<noteq> CHR ''.'')"

definition spec_ok :: "templateSpec \<Rightarrow> bool" where
  "spec_ok spec \<longleftrightarrow>
     ts_Directories spec \<noteq> [] \<and> (\<forall>d \<in> set (ts_Directories spec). plain_part d)
     \<and> (\<forall>v \<in> set (ts_Variants spec). seed_name (tv_Filename v) \<and> plain_element (tv_Filename v))
     \<and> seed_word (ts_Category spec) \<and> ts_Personas spec \<noteq> []
     \<and> (\<forall>p \<in> set (ts_Personas spec). seed_word p)"

definition file_ok :: "generator \<Rightarrow> SeedFile \<Rightarrow> bool" where
  "file_ok g f \<longleftrightarrow>
     plain_part (go_SeedPrefix (gn_opts g)) \<longrightarrow>
     (\<exists>rest. rest \<noteq> [] \<and> (\<forall>e \<in> set rest. plain_element e) \<and>
        split_on CHR ''/'' (FullPath f) = split_on CHR ''/'' (go_SeedPrefix (gn_opts g)) @ rest) \<and>
     plain_part (FullPath f)"

definition gen_inv :: "generated \<Rightarrow> bool" where
  "gen_inv st \<longleftrightarrow> gd_seen st = rev (map FullPath (gd_out st)) \<and> distinct (gd_seen st)"

lemma plain_name: "seed_name f \<Longrightarrow> plain_element f \<Longrightarrow> plain_part f"
  by (simp add: plain_single seed_name_def)

lemma plain_numbered: "plain_part (CHR ''T'' # ''ier-'' @ padded 2 n)"
  "plain_part (CHR ''B'' # ''atch-'' @ padded 2 n)" "plain_part (CHR ''R'' # ''eview-'' @ padded 2 n)"
proof -
  have digits: "c \<noteq> CHR ''/'' \<and> c \<noteq> CHR 0x5C \<and> \<not> is_space c" if "c \<in> set (padded 2 n)" for c
    using padded_digits [OF that] digit_char_plain by auto
  have "last (padded 2 n) \<in> set (padded 2 n)" by simp
  note last_digit = digits [OF this]
  have sp: "\<not> is_space CHR ''T''" "\<not> is_space CHR ''B''" "\<not> is_space CHR ''R''" by code_simp+
  show "plain_part (CHR ''T'' # ''ier-'' @ padded 2 n)" "plain_part (CHR ''B'' # ''atch-'' @ padded 2 n)"
    "plain_part (CHR ''R'' # ''eview-'' @ padded 2 n)"
    using digits last_digit sp by (subst plain_single; auto simp: plain_element_def)+
qed

lemma plain_fixed: "plain_part ''Archive''" "plain_part ''Working''" "plain_part ''Staged''"
  by code_simp+

lemma upper_char_other:
  assumes "\<not> is_letter d"
  shows "upper_char c = d \<longleftrightarrow> c = d"
proof
  assume "upper_char c = d"
  then have "lower_char c = lower_char d" by (metis lower_upper_char)
  also have "lower_char d = d" using lower_char_other [OF assms, of d] by simp
  finally show "c = d" using lower_char_other [OF assms] by simp
next
  assume "c = d"
  with assms show "upper_char c = d" by (auto simp: upper_char_def is_letter_def Let_def)
qed

lemma separators_no_letters: "\<not> is_letter CHR ''/''" "\<not> is_letter CHR 0x5C" "\<not> is_letter CHR ''.''"
  by (simp_all add: is_letter_def)

lemma plain_upper:
  assumes "seed_word w"
  shows "plain_part (to_upper (replace_char CHR ''-'' ''_'' w))"
proof -
  let ?u = "to_upper (replace_char CHR ''-'' ''_'' w)"
  let ?ok = "\<lambda>c. \<not> is_space c \<and> c \<noteq> CHR ''/'' \<and> c \<noteq> CHR 0x5C \<and> c \<noteq> CHR ''.''"
  have up: "?ok (upper_char c)" if "?ok c" for c
    using that by (simp add: upper_char_other separators_no_letters)
  have "?ok CHR ''_''" by (simp add: is_space_def)
  moreover have "\<forall>c \<in> set w. ?ok c" using assms by (simp add: seed_word_def)
  ultimately have "\<forall>c \<in> set (replace_char CHR ''-'' ''_'' w). ?ok c" by (simp add: replace_char_def)
  then have all: "\<forall>c \<in> set ?u. ?ok c" using up by (simp add: to_upper_def)
  have "?u \<noteq> []" using assms by (cases w) (simp_all add: seed_word_def to_upper_def replace_char_def)
  then have "hd ?u \<in> set ?u" "last ?u \<in> set ?u" by simp_all
  then have ends: "?ok (hd ?u)" "?ok (last ?u)" using all by blast+
  then have "plain_element ?u" using all \<open>?u \<noteq> []\<close>
    unfolding plain_element_def by (metis list.sel(1))
  then show ?thesis using all ends by (subst plain_single) blast+
qed

lemma chooseValue_in: "xs \<noteq> [] \<Longrightarrow> chooseValue xs i \<in> set xs"
  by (simp add: chooseValue_def)

lemma plain_seed_dir:
  assumes "spec_ok spec"
  shows "plain_part (seed_dir opts spec i)"
proof -
  let ?d = "ts_Directories spec ! (i mod length (ts_Directories spec))"
  let ?segs = "depth_segments i (ts_Category spec) (chooseValue (ts_Personas spec) i)"
  have d: "plain_part ?d" using assms by (auto simp: spec_ok_def)
  have segs: "\<forall>s \<in> set ?segs. plain_part s" "?segs \<noteq> []"
    using assms chooseValue_in [of "ts_Personas spec" i] plain_numbered plain_fixed plain_upper
    by (auto simp: depth_segments_def spec_ok_def)
  have "?segs ! (j mod length ?segs) \<in> set ?segs" for j using segs(2) by simp
  then show ?thesis using d segs(1)
    by (auto simp: seed_dir_def applyDepth_def Let_def intro!: plain_joinSeedPath)
qed

lemma sorted_nth_in:
  assumes "slice_sort lt xs \<noteq> []"
  shows "slice_sort lt xs ! (k mod length (slice_sort lt xs)) \<in> set xs"
proof -
  have "slice_sort lt xs ! (k mod length (slice_sort lt xs)) \<in> set (slice_sort lt xs)"
    by (rule nth_mem) (use assms in simp)
  then show ?thesis by (simp only: set_slice_sort)
qed

lemma matchVariant_in: "matchVariant vs a b c k = Some v \<Longrightarrow> v \<in> set vs"
  unfolding matchVariant_def Let_def
  by (split if_split_asm) (use sorted_nth_in in \<open>fastforce simp del: slice_sort_Nil_iff length_slice_sort\<close>)+

lemma pickVariant_in: "vs \<noteq> [] \<Longrightarrow> pickVariant vs opts a b c k \<in> set vs"
  by (auto simp: pickVariant_def Let_def dest: matchVariant_in split: option.split)

lemma chosen_variant_in: "ts_Variants spec \<noteq> [] \<Longrightarrow> fst (chosen_variant g spec i st) \<in> set (ts_Variants spec)"
  by (simp add: chosen_variant_def Let_def pickVariant_in)


lemma generate_one_ok:
  assumes "spec_ok spec" and "ts_Variants spec \<noteq> []" and "gen_inv st"
  shows "\<exists>st' f. generate_one g spec i st = Some st' \<and> gd_out st' = gd_out st @ [f] \<and> gen_inv st' \<and>
     sd_Category f = ts_Category spec \<and> file_ok g f"
proof -
  let ?dir = "seed_dir (gn_opts g) spec i"
  let ?rel = "joinSeedPath [go_SeedPrefix (gn_opts g), ?dir]"
  obtain v calls where v: "chosen_variant g spec i st = (v, calls)" by (cases "chosen_variant g spec i st")
  have name: "seed_name (tv_Filename v)" "plain_element (tv_Filename v)"
    using chosen_variant_in [OF assms(2), of g i st] v assms(1) by (auto simp: spec_ok_def)
  obtain c where c: "uniqueSeedFilename ?rel (tv_Filename v) (gd_seen st) =
      Some (c, joinSeedPath [?rel, c] # gd_seen st)"
    "joinSeedPath [?rel, c] \<notin> set (gd_seen st)" "seed_name c" "plain_element c"
    using uniqueSeedFilename_found [OF name] by blast
  define content where "content = ts_Render spec (render_context spec i
      (padded 3 (i + 1) @ ''_'' @ padded 4 (gn_draw g (gd_calls st) 10000)) ?dir v) v"
  define f where "f = seed_file spec v ?rel c content"
  have one: "generate_one g spec i st =
      Some \<lparr>gd_out = gd_out st @ [f], gd_seen = joinSeedPath [?rel, c] # gd_seen st, gd_calls = calls\<rparr>"
    using assms(1) v c(1) by (simp add: generate_one_def Let_def spec_ok_def f_def content_def)
  have full: "FullPath f = joinSeedPath [?rel, c]" by (simp add: FullPath_def f_def seed_file_def)
  have dir: "plain_part ?dir" by (rule plain_seed_dir [OF assms(1)])
  have cp: "plain_part c" using c(3,4) by (rule plain_name)
  have "file_ok g f"
  proof (unfold file_ok_def, intro impI conjI)
    assume p: "plain_part (go_SeedPrefix (gn_opts g))"
    then have rel: "plain_part ?rel" using dir by (intro plain_joinSeedPath) auto
    show "plain_part (FullPath f)" unfolding full using rel cp by (intro plain_joinSeedPath) auto
    have "split_on CHR ''/'' (FullPath f) =
        split_on CHR ''/'' (go_SeedPrefix (gn_opts g)) @ split_on CHR ''/'' ?dir @ split_on CHR ''/'' c"
      unfolding full using p dir rel cp by (simp add: split_joinSeedPath_plain)
    then show "\<exists>rest. rest \<noteq> [] \<and> (\<forall>e \<in> set rest. plain_element e) \<and>
        split_on CHR ''/'' (FullPath f) = split_on CHR ''/'' (go_SeedPrefix (gn_opts g)) @ rest"
      using plain_part_elements [OF dir] plain_part_elements [OF cp]
      by (intro exI [of _ "split_on CHR ''/'' ?dir @ split_on CHR ''/'' c"]) auto
  qed
  then show ?thesis using one full assms(3) c(2)
    by (auto simp: gen_inv_def f_def seed_file_def FullPath_def)
qed

lemma category_loop_ok:
  assumes "spec_ok spec" and "ts_Variants spec \<noteq> []"
  shows "gen_inv st \<Longrightarrow> int (length (gd_out st)) \<le> go_MaxFiles (gn_opts g) \<Longrightarrow>
    \<exists>st' new. category_loop g spec ks st =
        Some (st', length (gd_out st) + length ks > nat (go_MaxFiles (gn_opts g))) \<and>
      gd_out st' = gd_out st @ new \<and> gen_inv st' \<and>
      length new = min (nat (go_MaxFiles (gn_opts g)) - length (gd_out st)) (length ks) \<and>
      (\<forall>f \<in> set new. sd_Category f = ts_Category spec \<and> file_ok g f)"
proof (induction ks arbitrary: st)
  case (Cons k ks)
  show ?case
  proof (cases "int (length (gd_out st)) \<ge> go_MaxFiles (gn_opts g)")
    case True
    then show ?thesis using Cons.prems by auto
  next
    case False
    obtain st' f where one: "generate_one g spec k st = Some st'" "gd_out st' = gd_out st @ [f]" "gen_inv st'"
      "sd_Category f = ts_Category spec" "file_ok g f"
      using generate_one_ok [OF assms Cons.prems(1)] by blast
    have "int (length (gd_out st')) \<le> go_MaxFiles (gn_opts g)" using False one(2) by simp
    with Cons.IH [OF one(3)] obtain st'' new where rest:
      "category_loop g spec ks st' =
        Some (st'', length (gd_out st') + length ks > nat (go_MaxFiles (gn_opts g)))"
      "gd_out st'' = gd_out st' @ new" "gen_inv st''"
      "length new = min (nat (go_MaxFiles (gn_opts g)) - length (gd_out st')) (length ks)"
      "\<forall>f \<in> set new. sd_Category f = ts_Category spec \<and> file_ok g f" by blast
    have "nat (go_MaxFiles (gn_opts g)) - length (gd_out st) =
        Suc (nat (go_MaxFiles (gn_opts g)) - Suc (length (gd_out st)))"
      using False by linarith
    then show ?thesis
      using False one rest by (intro exI [of _ st''] exI [of _ "f # new"]) auto
  qed
qed simp

lemma min_room: "(a::nat) + n \<le> m \<Longrightarrow> n + min (m - (a + n)) k = min (m - a) (n + k)"
  by (simp add: min_def) linarith

lemma specs_loop_ok:
  assumes "\<forall>spec \<in> set specs. spec_ok spec" and "gen_inv st"
    and "int (length (gd_out st)) \<le> go_MaxFiles (gn_opts g)"
  shows "\<exists>st' new. specs_loop g specs st = Some st' \<and> gd_out st' = gd_out st @ new \<and> gen_inv st' \<and>
      length new = min (nat (go_MaxFiles (gn_opts g)) - length (gd_out st))
        (nat (go_CountPerCategory (gn_opts g)) * length (filter (\<lambda>s. \<not> skipped_spec g s) specs)) \<and>
      (\<forall>f \<in> set new. file_ok g f) \<and>
      (\<forall>c. length (filter (\<lambda>f. sd_Category f = c) new) \<le>
         nat (go_CountPerCategory (gn_opts g)) * length (filter (\<lambda>s. ts_Category s = c) specs))"
  using assms
proof (induction specs arbitrary: st)
  case (Cons spec specs)
  let ?M = "nat (go_MaxFiles (gn_opts g))" and ?n = "nat (go_CountPerCategory (gn_opts g))"
  show ?case
  proof (cases "skipped_spec g spec")
    case True
    with Cons.IH [OF _ Cons.prems(2,3)] Cons.prems(1) obtain st' new where
      "specs_loop g specs st = Some st'" "gd_out st' = gd_out st @ new" "gen_inv st'"
      "length new = min (?M - length (gd_out st)) (?n * length (filter (\<lambda>s. \<not> skipped_spec g s) specs))"
      "\<forall>f \<in> set new. file_ok g f"
      "\<forall>c. length (filter (\<lambda>f. sd_Category f = c) new) \<le> ?n * length (filter (\<lambda>s. ts_Category s = c) specs)"
      by auto
    with True show ?thesis by (intro exI [of _ st'] exI [of _ new]) (auto intro: le_trans)
  next
    case False
    then have v: "ts_Variants spec \<noteq> []" by (simp add: skipped_spec_def)
    obtain st1 new1 where one: "category_loop g spec [0 ..< ?n] st =
        Some (st1, length (gd_out st) + length [0 ..< ?n] > ?M)"
      "gd_out st1 = gd_out st @ new1" "gen_inv st1" "length new1 = min (?M - length (gd_out st)) ?n"
      "\<forall>f \<in> set new1. sd_Category f = ts_Category spec \<and> file_ok g f"
      using category_loop_ok [OF _ v Cons.prems(2,3), of "[0 ..< ?n]"] Cons.prems(1) by auto
    have cat: "length (filter (\<lambda>f. sd_Category f = c) new1) \<le> (if ts_Category spec = c then ?n else 0)" for c
    proof (cases "ts_Category spec = c")
      case True
      then show ?thesis using one(4) length_filter_le [of _ new1] by (auto intro: le_trans)
    next
      case False
      then show ?thesis using one(5) by (auto simp: filter_empty_conv)
    qed
    have room: "length (gd_out st) \<le> ?M" using Cons.prems(3) by linarith
    show ?thesis
    proof (cases "length (gd_out st) + ?n > ?M")
      case True
      have "length new1 = min (?M - length (gd_out st))
          (?n * length (filter (\<lambda>s. \<not> skipped_spec g s) (spec # specs)))"
        using True False room one(4) by auto
      moreover have "length (filter (\<lambda>f. sd_Category f = c) new1) \<le>
          ?n * length (filter (\<lambda>s. ts_Category s = c) (spec # specs))" for c
        using cat [of c] by (auto split: if_splits)
      moreover have "min (?M - length (gd_out st)) ?n = ?M - length (gd_out st)" using True by simp
      ultimately show ?thesis using True False one
        by (intro exI [of _ st1] exI [of _ new1]) auto
    next
      case no_stop: False
      have n1: "length new1 = ?n" using no_stop room one(4) by auto
      have "int (length (gd_out st1)) \<le> go_MaxFiles (gn_opts g)"
        using no_stop room one(2) n1 Cons.prems(3) by auto
      with Cons.IH [OF _ one(3)] Cons.prems(1) obtain st2 new2 where two:
        "specs_loop g specs st1 = Some st2" "gd_out st2 = gd_out st1 @ new2" "gen_inv st2"
        "length new2 = min (?M - length (gd_out st1)) (?n * length (filter (\<lambda>s. \<not> skipped_spec g s) specs))"
        "\<forall>f \<in> set new2. file_ok g f"
        "\<forall>c. length (filter (\<lambda>f. sd_Category f = c) new2) \<le> ?n * length (filter (\<lambda>s. ts_Category s = c) specs)"
        by auto
      let ?k = "?n * length (filter (\<lambda>s. \<not> skipped_spec g s) specs)"
      have "length (new1 @ new2) = ?n + min (?M - (length (gd_out st) + ?n)) ?k"
        using n1 two(4) one(2) by simp
      also have "\<dots> = min (?M - length (gd_out st)) (?n + ?k)"
        by (rule min_room) (use no_stop in linarith)
      also have "?n + ?k = ?n * length (filter (\<lambda>s. \<not> skipped_spec g s) (spec # specs))"
        using False by simp
      finally have "length (new1 @ new2) = min (?M - length (gd_out st))
          (?n * length (filter (\<lambda>s. \<not> skipped_spec g s) (spec # specs)))" .
      note count = this
      have per: "length (filter (\<lambda>f. sd_Category f = c) (new1 @ new2)) \<le>
          ?n * length (filter (\<lambda>s. ts_Category s = c) (spec # specs))" for c
        using cat [of c] two(6) [rule_format, of c] by (cases "ts_Category spec = c") simp_all
      have "specs_loop g (spec # specs) st = Some st2" using False no_stop one(1) two(1) by simp
      moreover have "gd_out st2 = gd_out st @ new1 @ new2" using one(2) two(2) by simp
      moreover have "\<forall>f \<in> set (new1 @ new2). file_ok g f" using one(5) two(5) by auto
      ultimately show ?thesis using two(3) count per by blast
    qed
  qed
qed simp

subsection \<open>The table\<close>

lemmas template_defs =
  defaultTemplates_def dbTemplateVariants_def archiveTemplateVariants_def officeTemplateVariants_def
  tarTemplateVariants_def wimTemplateVariants_def
  spec_configs_def spec_deploy_def spec_vpn_def spec_private_keys_def spec_private_key_correlation_def
  spec_certificate_bundles_def spec_certificate_correlation_def spec_windows_credential_stores_def
  spec_windows_credential_correlation_def spec_browser_credential_stores_def
  spec_browser_credential_correlation_def spec_keepass_def spec_finance_def spec_sql_def spec_database_def
  spec_sqlite_databases_def spec_sqlite_correlation_def spec_zip_archives_def spec_tar_archives_def
  spec_office_documents_def spec_wim_images_def spec_secret_stores_def spec_ad_correlation_def
  spec_backup_exposure_def spec_backup_exposure_correlation_def spec_cloud_def spec_aws_artifacts_def
  spec_aws_correlation_def spec_legacy_def spec_user_notes_def spec_scripts_def spec_temp_def
  spec_backups_def spec_service_accounts_def spec_noise_def

lemma variant_names [simp]:
  "tv_Filename (classify v a b c) = tv_Filename v" "tv_Filename (triage v a) = tv_Filename v"
  "tv_Filename (archiveInnerPath v a) = tv_Filename v" "tv_Filename (likely f s e ss ts hs) = f"
  "tv_Filename (possible f s e ss ts hs) = f" "tv_Filename (noise f s e ts hs) = f"
  by (simp_all add: classify_def triage_def archiveInnerPath_def likely_def possible_def noise_def plain_variant_def)

lemma spec_fields [simp]:
  "ts_Category (newSpec c ds vs f) = c" "ts_Directories (newSpec c ds vs f) = ds"
  "ts_Variants (newSpec c ds vs f) = vs" "ts_Personas (newSpec c ds vs f) = defaultPersonas"
  by (simp_all add: newSpec_def)

lemma personas_ok: "defaultPersonas \<noteq> [] \<and> (\<forall>p \<in> set defaultPersonas. seed_word p)"
  by (simp add: defaultPersonas_def seed_word_def is_space_def)

lemma spec_ok_new:
  "spec_ok (newSpec c ds vs f) \<longleftrightarrow>
     ds \<noteq> [] \<and> list_all plain_part ds \<and> seed_word c \<and>
     list_all (\<lambda>f. seed_name f \<and> plain_element f) (map tv_Filename vs)"
  using personas_ok by (auto simp: spec_ok_def list_all_iff)

lemma templates_ok: "list_all spec_ok (defaultTemplates r)"
  unfolding template_defs list.pred_inject(1,2) spec_ok_new list.map variant_names
  by (intro conjI TrueI; code_simp)

lemma newSpec_cong: "c = c' \<Longrightarrow> newSpec c ds vs f = newSpec c' ds vs f"
  by simp

lemma template_categories: "distinct (map ts_Category (defaultTemplates r))"
  unfolding template_defs by (simp cong: newSpec_cong)

lemma skipped_new: "skipped_spec g (newSpec c ds (v # vs) f) \<longleftrightarrow> c = ''wim-images'' \<and> \<not> gn_wim g"
  by (simp add: skipped_spec_def)

lemma unskipped:
  "length (filter (\<lambda>s. \<not> skipped_spec g s) (defaultTemplates r)) = (if gn_wim g then 35 else 34)"
  unfolding template_defs by (simp add: skipped_new cong: newSpec_cong)

lemma length_filter_sorted: "length (filter P (slice_sort lt xs)) = length (filter P xs)"
  by (metis mset_filter mset_slice_sort size_mset)

lemma one_of_distinct: "distinct (map f xs) \<Longrightarrow> length (filter (\<lambda>x. f x = c) xs) \<le> 1"
  by (induction xs) (auto simp: filter_empty_conv, metis image_eqI)

lemma Generate_run:
  fixes opts :: GenerateOptions
  defines "o1 \<equiv> generate_options opts"
  shows "\<exists>files. Generate r draw wim opts = Some files \<and> distinct (map FullPath files) \<and>
     length files = min (nat (go_MaxFiles o1)) (nat (go_CountPerCategory o1) * (if wim then 35 else 34)) \<and>
     (\<forall>c. length (filter (\<lambda>f. sd_Category f = c) files) \<le> nat (go_CountPerCategory o1)) \<and>
     (\<forall>f \<in> set files. file_ok \<lparr>gn_opts = o1, gn_draw = draw, gn_wim = wim\<rparr> f)"
proof -
  let ?g = "\<lparr>gn_opts = o1, gn_draw = draw, gn_wim = wim\<rparr>"
  let ?specs = "slice_sort (\<lambda>a b. ts_Category a < ts_Category b) (defaultTemplates r)"
  let ?st = "\<lparr>gd_out = [], gd_seen = [], gd_calls = 0\<rparr>"
  let ?n = "nat (go_CountPerCategory o1)"
  have "\<forall>spec \<in> set ?specs. spec_ok spec" using templates_ok [of r] by (simp add: list_all_iff)
  moreover have "gen_inv ?st" by (simp add: gen_inv_def)
  moreover have "int (length (gd_out ?st)) \<le> go_MaxFiles (gn_opts ?g)"
    by (simp add: o1_def generate_options_def Let_def)
  ultimately obtain st' new where run: "specs_loop ?g ?specs ?st = Some st'" "gd_out st' = new" "gen_inv st'"
    "length new = min (nat (go_MaxFiles (gn_opts ?g))) (?n * length (filter (\<lambda>s. \<not> skipped_spec ?g s) ?specs))"
    "\<forall>f \<in> set new. file_ok ?g f"
    "\<forall>c. length (filter (\<lambda>f. sd_Category f = c) new) \<le> ?n * length (filter (\<lambda>s. ts_Category s = c) ?specs)"
    using specs_loop_ok [of ?specs ?st ?g] by auto
  have single: "length (filter (\<lambda>s. ts_Category s = c) ?specs) \<le> 1" for c
    using one_of_distinct [OF template_categories] by (simp add: length_filter_sorted)
  show ?thesis
  proof (intro exI [of _ new] conjI allI)
    show "Generate r draw wim opts = Some new" using run(1,2) by (simp add: Generate_def o1_def)
    show "distinct (map FullPath new)" using run(2,3) by (metis distinct_rev gen_inv_def)
    show "length new = min (nat (go_MaxFiles o1)) (?n * (if wim then 35 else 34))"
      using run(4) by (simp add: length_filter_sorted unskipped)
    show "length (filter (\<lambda>f. sd_Category f = c) new) \<le> ?n" for c
      using le_trans [OF run(6) [rule_format, of c] mult_le_mono2 [OF single]] by simp
    show "\<forall>f \<in> set new. file_ok ?g f" by (rule run(5))
  qed
qed

lemma options_prefix [simp]: "go_SeedPrefix (generate_options opts) = normalizeSeedPrefix (go_SeedPrefix opts)"
  by (simp add: generate_options_def Let_def)

text \<open>
  C14: The generator always returns, whatever the random numbers: it gives as many files as the limits allow, the
  search for a free name included no two with the same path, no more of one category than asked for, and, when
  the prefix is a plain relative path, every file below the prefix, never above it through a double dot.
\<close>

theorem Generate_exact:
  "\<exists>files. Generate r draw wim opts = Some files \<and> distinct (map FullPath files) \<and>
     length files = min (nat (go_MaxFiles (generate_options opts)))
       (nat (go_CountPerCategory (generate_options opts)) * (if wim then 35 else 34)) \<and>
     (\<forall>c. length (filter (\<lambda>f. sd_Category f = c) files) \<le> nat (go_CountPerCategory (generate_options opts))) \<and>
     (plain_part (normalizeSeedPrefix (go_SeedPrefix opts)) \<longrightarrow>
       (\<forall>f \<in> set files. \<exists>rest. rest \<noteq> [] \<and> (\<forall>e \<in> set rest. plain_element e) \<and>
          split_on CHR ''/'' (FullPath f) = split_on CHR ''/'' (normalizeSeedPrefix (go_SeedPrefix opts)) @ rest))"
proof -
  obtain files where files: "Generate r draw wim opts = Some files" "distinct (map FullPath files)"
    "length files = min (nat (go_MaxFiles (generate_options opts)))
       (nat (go_CountPerCategory (generate_options opts)) * (if wim then 35 else 34))"
    "\<forall>c. length (filter (\<lambda>f. sd_Category f = c) files) \<le> nat (go_CountPerCategory (generate_options opts))"
    and ok: "\<forall>f \<in> set files. file_ok \<lparr>gn_opts = generate_options opts, gn_draw = draw, gn_wim = wim\<rparr> f"
    using Generate_run [of r draw wim opts] by blast
  from ok have "plain_part (normalizeSeedPrefix (go_SeedPrefix opts)) \<longrightarrow>
       (\<forall>f \<in> set files. \<exists>rest. rest \<noteq> [] \<and> (\<forall>e \<in> set rest. plain_element e) \<and>
          split_on CHR ''/'' (FullPath f) = split_on CHR ''/'' (normalizeSeedPrefix (go_SeedPrefix opts)) @ rest)"
    by (simp add: file_ok_def)
  then show ?thesis using files by blast
qed

text \<open>Contents for a concrete run: each file holds its own name.\<close>

definition demo_renderers :: renderers where
  "demo_renderers = \<lparr>rv_standard = (\<lambda>_ v. tv_Filename v), rv_archive = (\<lambda>_ v. tv_Filename v), rv_tar = (\<lambda>_ v. tv_Filename v),
     rv_office = (\<lambda>_ v. tv_Filename v), rv_wim = (\<lambda>_ v. tv_Filename v)\<rparr>"

lemma Generate_exact_witness:
  "\<exists>files. Generate demo_renderers (\<lambda>_ _. 0) False \<lparr>go_CountPerCategory = 2, go_MaxFiles = 0, go_Depth = 1,
       go_SeedPrefix = ''Lab'', go_LikelyHitRatio = 0, go_FilenameOnlyRatio = 0, go_HighSeverityRatio = 0,
       go_MediumSeverityRatio = 0\<rparr> = Some files \<and> length files = 68 \<and>
     (\<forall>f \<in> set files. hd (split_on CHR ''/'' (FullPath f)) = ''Lab'')"
proof -
  let ?o = "\<lparr>go_CountPerCategory = 2, go_MaxFiles = 0, go_Depth = 1,
       go_SeedPrefix = ''Lab'', go_LikelyHitRatio = 0, go_FilenameOnlyRatio = 0, go_HighSeverityRatio = 0,
       go_MediumSeverityRatio = 0\<rparr>"
  have "normalizeSeedPrefix ''Lab'' = ''Lab'' \<and> plain_part ''Lab'' \<and> split_on CHR ''/'' ''Lab'' = [''Lab'']"
    by code_simp
  then show ?thesis using Generate_exact [of demo_renderers "\<lambda>_ _. 0" False ?o]
    by (force simp: generate_options_def Let_def)
qed

text \<open>
  A share does not tell names apart by their case, but the search does: both names below are in the table, and
  the second file is written over the first.
\<close>

lemma names_collide_on_share:
  "uniqueSeedFilename ''Lab/Old'' ''system.bak'' [''Lab/Old/SYSTEM.bak''] =
     Some (''system.bak'', [''Lab/Old/system.bak'', ''Lab/Old/SYSTEM.bak'']) \<and>
   equal_fold ''Lab/Old/system.bak'' ''Lab/Old/SYSTEM.bak'' \<and>
   {''system.bak'', ''SYSTEM.bak''} \<subseteq> tv_Filename ` set (ts_Variants (spec_secret_stores r))"
  by (intro conjI) (code_simp, code_simp, simp add: spec_secret_stores_def)

end
