(* ===== verification/SeedWrite.thy ===== *)
theory SeedWrite
  imports SeedGenerate
begin

text \<open>
  The writer of the lab seeder (\<open>internal/seed/writer.go\<close>, \<open>manifest.go\<close>) with the writing operations of the SMB
  client (\<open>internal/smb/write.go\<close>): where the files go, what is removed before, and the manifest of what was done. What
  the servers answer is an argument and may depend on what was done before; log lines and the counters of the
  summary are left out.
\<close>

subsection \<open>The operations of the client\<close>

datatype seed_event =
    EvRemove string string string
  | EvMkdir string string string
  | EvWrite string string string string

datatype remote_error = NotExist | RemoteError string

datatype seed_point = AtHost nat | AtClean nat | AtFile nat

record seed_io =
  si_Done :: "seed_point \<Rightarrow> bool"
  si_Connect :: "seed_event list \<Rightarrow> string \<Rightarrow> string option"
  si_ListShares :: "string \<Rightarrow> string + ShareInfo list"
  si_Mount :: "seed_event list \<Rightarrow> string \<Rightarrow> string \<Rightarrow> string option"
  si_Read :: "seed_event list \<Rightarrow> string \<Rightarrow> string \<Rightarrow> string \<Rightarrow> remote_error + string"
  si_Mkdir :: "seed_event list \<Rightarrow> string \<Rightarrow> string \<Rightarrow> string \<Rightarrow> string option"
  si_Write :: "seed_event list \<Rightarrow> string \<Rightarrow> string \<Rightarrow> string \<Rightarrow> string option"
  si_Remove :: "seed_event list \<Rightarrow> string \<Rightarrow> string \<Rightarrow> string \<Rightarrow> remote_error option"
  si_Manifest :: "string \<Rightarrow> string option"

definition sanitizeWritableRemotePath :: "string \<Rightarrow> string + string" where
  "sanitizeWritableRemotePath path =
     (let p = normalizeRemotePath path in
      if p = [] then Inl ''remote path cannot be empty''
      else if \<exists>seg \<in> set (split_on CHR ''/'' p). seg \<in> {[], ''.'', ''..''}
      then Inl ''remote path contains an invalid segment''
      else
        let cleaned = path_clean p
        in if cleaned = ''.'' \<or> cleaned = [] then Inl ''remote path is invalid'' else Inr cleaned)"

definition remote_WriteFile ::
  "seed_io \<Rightarrow> string \<Rightarrow> string \<Rightarrow> string \<Rightarrow> string \<Rightarrow> seed_event list \<Rightarrow> seed_event list \<times> string option" where
  "remote_WriteFile io host share path data es =
     (case si_Mount io es host share of
        Some e \<Rightarrow> (es, Some e)
      | None \<Rightarrow>
          (case sanitizeWritableRemotePath path of
             Inl e \<Rightarrow> (es, Some e)
           | Inr p \<Rightarrow>
               let dir = path_dir p;
                   (es1, err) = (if dir \<noteq> ''.'' \<and> dir \<noteq> []
                                 then (es @ [EvMkdir host share dir], si_Mkdir io es host share dir) else (es, None))
               in case err of
                    Some e \<Rightarrow> (es1, Some e)
                  | None \<Rightarrow> (es1 @ [EvWrite host share p data], si_Write io es1 host share p)))"

definition remote_RemoveAll ::
  "seed_io \<Rightarrow> string \<Rightarrow> string \<Rightarrow> string \<Rightarrow> seed_event list \<Rightarrow> seed_event list \<times> string option" where
  "remote_RemoveAll io host share path es =
     (case si_Mount io es host share of
        Some e \<Rightarrow> (es, Some e)
      | None \<Rightarrow>
          (case sanitizeWritableRemotePath path of
             Inl e \<Rightarrow> (es, Some e)
           | Inr p \<Rightarrow>
               (es @ [EvRemove host share p],
                case si_Remove io es host share p of
                  None \<Rightarrow> None | Some NotExist \<Rightarrow> None | Some (RemoteError e) \<Rightarrow> Some e)))"

definition FileContentEquals ::
  "seed_io \<Rightarrow> string \<Rightarrow> string \<Rightarrow> string \<Rightarrow> string \<Rightarrow> seed_event list \<Rightarrow> string + bool" where
  "FileContentEquals io host share path expected es =
     (case si_Read io es host share path of
        Inr current \<Rightarrow> Inr (current = expected)
      | Inl NotExist \<Rightarrow> Inr False
      | Inl (RemoteError e) \<Rightarrow>
          if contains (to_lower e) ''not exist'' \<or> contains (to_lower e) ''cannot find'' then Inr False else Inl e)"

subsection \<open>The destinations\<close>

record WriteOptions =
  wo_Targets :: "string list"
  wo_Shares :: "string list"
  wo_IncludeAdminShares :: bool
  wo_SeedPrefix :: string
  wo_DryRun :: bool
  wo_CleanPrefix :: bool
  wo_ManifestOut :: string
  wo_SharesPerTarget :: int
  wo_Generate :: GenerateOptions

definition normalizeShareName :: "string \<Rightarrow> string" where
  "normalizeShareName name = to_lower (trim_space name)"

definition normalizeHostKey :: "string \<Rightarrow> string" where
  "normalizeHostKey host = to_lower (trim_space host)"

definition buildShareAllowSet :: "string list \<Rightarrow> string list" where
  "buildShareAllowSet shares = filter (\<lambda>s. s \<noteq> []) (map normalizeShareName shares)"

definition shouldIncludeSeedShare :: "ShareInfo \<Rightarrow> string list \<Rightarrow> bool \<Rightarrow> bool" where
  "shouldIncludeSeedShare share allow include_admin =
     (let name = normalizeShareName (sh_Name share) in
      if name = [] then False
      else if allow \<noteq> [] then name \<in> set allow
      else \<not> (\<not> include_admin \<and> IsAdministrativeShare (sh_Name share)))"

record destinations_state =
  dst_found :: "(string \<times> string) list"
  dst_seen :: "string list"
  dst_hosts :: "string list"

definition target_key :: "string \<Rightarrow> string \<Rightarrow> string" where
  "target_key host share = to_lower (trim_space (host @ ''::'' @ share))"

fun target_shares ::
  "WriteOptions \<Rightarrow> string \<Rightarrow> ShareInfo list \<Rightarrow> destinations_state \<Rightarrow> destinations_state" where
  "target_shares opts host [] st = st"
| "target_shares opts host (share # shares) st =
     (if wo_SharesPerTarget opts > 0
         \<and> int (count_list (dst_hosts st) (normalizeHostKey host)) \<ge> wo_SharesPerTarget opts
      then st
      else if \<not> shouldIncludeSeedShare share (buildShareAllowSet (wo_Shares opts)) (wo_IncludeAdminShares opts)
      then target_shares opts host shares st
      else if target_key host (sh_Name share) = [] \<or> target_key host (sh_Name share) \<in> set (dst_seen st)
      then target_shares opts host shares st
      else target_shares opts host shares
        \<lparr>dst_found = dst_found st @ [(host, sh_Name share)],
         dst_seen = target_key host (sh_Name share) # dst_seen st,
         dst_hosts = normalizeHostKey host # dst_hosts st\<rparr>)"

fun target_hosts ::
  "seed_io \<Rightarrow> WriteOptions \<Rightarrow> nat \<Rightarrow> string list \<Rightarrow> destinations_state \<Rightarrow> destinations_state option" where
  "target_hosts io opts i [] st = Some st"
| "target_hosts io opts i (host # hosts) st =
     (if si_Done io (AtHost i) then None
      else if si_Connect io [] host \<noteq> None then target_hosts io opts (i + 1) hosts st
      else case si_ListShares io host of
             Inl e \<Rightarrow> target_hosts io opts (i + 1) hosts st
           | Inr shares \<Rightarrow>
               target_hosts io opts (i + 1) hosts
                 (target_shares opts host (slice_sort (\<lambda>a b. sh_Name a < sh_Name b) shares) st))"

definition target_less :: "string \<times> string \<Rightarrow> string \<times> string \<Rightarrow> bool" where
  "target_less a b = (if fst a = fst b then snd a < snd b else fst a < fst b)"

definition discoverDestinations :: "seed_io \<Rightarrow> WriteOptions \<Rightarrow> (string \<times> string) list option" where
  "discoverDestinations io opts =
     map_option (\<lambda>st. slice_sort target_less (dst_found st))
       (target_hosts io opts 0 (wo_Targets opts) \<lparr>dst_found = [], dst_seen = [], dst_hosts = []\<rparr>)"

subsection \<open>Cleaning and writing\<close>

datatype seed_error =
    BadPrefix prefix_error
  | Cancelled
  | NoShares
  | ConnectFailed string string
  | CleanupFailed string string
  | CompareFailed string string
  | WriteFailed string string
  | ManifestFailed string

record seed_state =
  ss_Entries :: "SeedManifestEntry list"
  ss_Events :: "seed_event list"
  ss_Clients :: "string list"

text \<open>The pool keeps a client for each host key; only the first use connects.\<close>

definition clientFor :: "seed_io \<Rightarrow> string \<Rightarrow> seed_state \<Rightarrow> seed_state \<times> string option" where
  "clientFor io host st =
     (if normalizeHostKey host \<in> set (ss_Clients st) then (st, None)
      else case si_Connect io (ss_Events st) host of
             Some e \<Rightarrow> (st, Some e)
           | None \<Rightarrow> (st\<lparr>ss_Clients := normalizeHostKey host # ss_Clients st\<rparr>, None))"

fun clean_loop ::
  "seed_io \<Rightarrow> WriteOptions \<Rightarrow> string \<Rightarrow> nat \<Rightarrow> (string \<times> string) list \<Rightarrow> seed_state \<Rightarrow> seed_state \<times> seed_error option" where
  "clean_loop io opts prefix i [] st = (st, None)"
| "clean_loop io opts prefix i ((host, share) # targets) st =
     (if si_Done io (AtClean i) then (st, Some Cancelled)
      else if wo_DryRun opts then clean_loop io opts prefix (i + 1) targets st
      else case clientFor io host st of
             (st1, Some e) \<Rightarrow> (st1, Some (ConnectFailed host e))
           | (st1, None) \<Rightarrow>
               (case remote_RemoveAll io host share prefix (ss_Events st1) of
                  (es, Some e) \<Rightarrow> (st1\<lparr>ss_Events := es\<rparr>, Some (CleanupFailed host e))
                | (es, None) \<Rightarrow> clean_loop io opts prefix (i + 1) targets (st1\<lparr>ss_Events := es\<rparr>)))"

definition cleanSeedPrefix ::
  "seed_io \<Rightarrow> WriteOptions \<Rightarrow> string \<Rightarrow> (string \<times> string) list \<Rightarrow> seed_state \<Rightarrow> seed_state \<times> seed_error option" where
  "cleanSeedPrefix io opts prefix targets st =
     (case safeCleanPrefix prefix of
        Inl e \<Rightarrow> (st, Some (BadPrefix e))
      | Inr p \<Rightarrow> clean_loop io opts p 0 targets st)"

definition manifest_entry :: "string \<times> string \<Rightarrow> SeedFile \<Rightarrow> string \<Rightarrow> SeedManifestEntry" where
  "manifest_entry target f status =
     \<lparr>se_Host = fst target, se_Share = snd target,
      se_Path = (if trim_space (sd_ExpectedPath f) \<noteq> [] then sd_ExpectedPath f else FullPath f),
      se_Category = sd_Category f, se_Format = formatLabel f, se_IntendedAs = sd_IntendedAs f,
      se_ExpectedClass = sd_ExpectedClass f, se_ExpectedTriageClass = sd_ExpectedTriageClass f,
      se_ExpectedConfidence = sd_ExpectedConfidence f, se_ExpectedCorrelated = sd_ExpectedCorrelated f,
      se_ExpectedSignalTypes = sd_ExpectedSignalTypes f, se_ExpectedTags = sd_ExpectedTags f,
      se_ExpectedRuleThemes = sd_ExpectedRuleThemes f, se_ExpectedSeverity = sd_ExpectedSeverity f,
      se_Status = status\<rparr>"

definition add_entry :: "SeedManifestEntry \<Rightarrow> seed_state \<Rightarrow> seed_state" where
  "add_entry entry st = st\<lparr>ss_Entries := ss_Entries st @ [entry]\<rparr>"

definition seed_one ::
  "seed_io \<Rightarrow> WriteOptions \<Rightarrow> string \<times> string \<Rightarrow> SeedFile \<Rightarrow> seed_state \<Rightarrow> seed_state \<times> seed_error option" where
  "seed_one io opts target f st =
     (if wo_DryRun opts then (add_entry (manifest_entry target f ''dry-run'') st, None)
      else case clientFor io (fst target) st of
             (st1, Some e) \<Rightarrow> (st1, Some (ConnectFailed (fst target) e))
           | (st1, None) \<Rightarrow>
               (case FileContentEquals io (fst target) (snd target) (FullPath f) (sd_Content f) (ss_Events st1) of
                  Inl e \<Rightarrow> (st1, Some (CompareFailed (FullPath f) e))
                | Inr True \<Rightarrow> (add_entry (manifest_entry target f ''unchanged'') st1, None)
                | Inr False \<Rightarrow>
                    (case remote_WriteFile io (fst target) (snd target) (FullPath f) (sd_Content f)
                            (ss_Events st1) of
                       (es, Some e) \<Rightarrow> (st1\<lparr>ss_Events := es\<rparr>, Some (WriteFailed (FullPath f) e))
                     | (es, None) \<Rightarrow>
                         (add_entry (manifest_entry target f ''written'') (st1\<lparr>ss_Events := es\<rparr>), None))))"

fun seed_loop ::
  "seed_io \<Rightarrow> WriteOptions \<Rightarrow> (string \<times> string) list \<Rightarrow> nat \<Rightarrow> SeedFile list \<Rightarrow> seed_state \<Rightarrow>
   seed_state \<times> seed_error option" where
  "seed_loop io opts targets i [] st = (st, None)"
| "seed_loop io opts targets i (f # files) st =
     (if si_Done io (AtFile i) then (st, Some Cancelled)
      else case seed_one io opts (targets ! (i mod length targets)) f st of
             (st1, Some e) \<Rightarrow> (st1, Some e)
           | (st1, None) \<Rightarrow> seed_loop io opts targets (i + 1) files st1)"

record seed_result =
  sr_Entries :: "SeedManifestEntry list"
  sr_Events :: "seed_event list"
  sr_Error :: "seed_error option"
  sr_Saved :: bool

definition failed_seed :: "seed_state \<Rightarrow> seed_error \<Rightarrow> seed_result" where
  "failed_seed st e =
     \<lparr>sr_Entries = ss_Entries st, sr_Events = ss_Events st, sr_Error = Some e, sr_Saved = False\<rparr>"

text \<open>\<open>Manifest.Write\<close>: without a path nothing is written.\<close>

definition finish_seed :: "seed_io \<Rightarrow> WriteOptions \<Rightarrow> seed_state \<Rightarrow> seed_result" where
  "finish_seed io opts st =
     (if wo_ManifestOut opts = []
      then \<lparr>sr_Entries = ss_Entries st, sr_Events = ss_Events st, sr_Error = None, sr_Saved = False\<rparr>
      else case si_Manifest io (wo_ManifestOut opts) of
             Some e \<Rightarrow> failed_seed st (ManifestFailed e)
           | None \<Rightarrow> \<lparr>sr_Entries = ss_Entries st, sr_Events = ss_Events st, sr_Error = None, sr_Saved = True\<rparr>)"

definition seed_files ::
  "seed_io \<Rightarrow> WriteOptions \<Rightarrow> string \<Rightarrow> (string \<times> string) list \<Rightarrow> SeedFile list \<Rightarrow> seed_result" where
  "seed_files io opts prefix targets files =
     (let st0 = \<lparr>ss_Entries = [], ss_Events = [], ss_Clients = []\<rparr>;
          (st1, err) = (if wo_CleanPrefix opts then cleanSeedPrefix io opts prefix targets st0 else (st0, None))
      in case err of
           Some e \<Rightarrow> failed_seed st1 e
         | None \<Rightarrow>
             (case seed_loop io opts targets 0 files st1 of
                (st2, Some e) \<Rightarrow> failed_seed st2 e
              | (st2, None) \<Rightarrow> finish_seed io opts st2))"

definition Seed ::
  "renderers \<Rightarrow> (nat \<Rightarrow> nat \<Rightarrow> nat) \<Rightarrow> bool \<Rightarrow> seed_io \<Rightarrow> WriteOptions \<Rightarrow> seed_result option" where
  "Seed r draw wim io opts =
     (let nothing = \<lparr>ss_Entries = [], ss_Events = [], ss_Clients = []\<rparr> in
      case safeCleanPrefix (wo_SeedPrefix opts) of
        Inl e \<Rightarrow> Some (failed_seed nothing (BadPrefix e))
      | Inr prefix \<Rightarrow>
          (case Generate r draw wim ((wo_Generate opts)\<lparr>go_SeedPrefix := prefix\<rparr>) of
             None \<Rightarrow> None
           | Some files \<Rightarrow>
               (case discoverDestinations io opts of
                  None \<Rightarrow> Some (failed_seed nothing Cancelled)
                | Some targets \<Rightarrow>
                    Some (if targets = [] then failed_seed nothing NoShares
                          else seed_files io opts prefix targets files))))"

subsection \<open>Where files are written and removed\<close>

fun event_path :: "seed_event \<Rightarrow> string" where
  "event_path (EvRemove host share path) = path"
| "event_path (EvMkdir host share path) = path"
| "event_path (EvWrite host share path data) = path"

text \<open>A path of plain elements, and, below a plain prefix, one that begins with its elements.\<close>

definition path_below :: "string \<Rightarrow> string \<Rightarrow> bool" where
  "path_below prefix path \<longleftrightarrow>
     (\<forall>e \<in> set (split_on CHR ''/'' path). plain_element e) \<and>
     (plain_part prefix \<longrightarrow> (\<exists>rest. split_on CHR ''/'' path = split_on CHR ''/'' prefix @ rest))"

lemma sanitize_plain:
  assumes "sanitizeWritableRemotePath path = Inr p"
  shows "p = normalizeRemotePath path" "\<forall>e \<in> set (split_on CHR ''/'' p). plain_element e"
proof -
  let ?n = "normalizeRemotePath path"
  have plain: "\<forall>e \<in> set (split_on CHR ''/'' ?n). plain_element e"
    using assms by (auto simp: sanitizeWritableRemotePath_def Let_def plain_element_def
        dest: split_on_no_sep split: if_splits)
  have "path_clean ?n = ?n"
  proof -
    have "?n \<noteq> []" using assms by (auto simp: sanitizeWritableRemotePath_def Let_def)
    moreover have "\<not> path_rooted ?n"
    proof
      assume "path_rooted ?n"
      then obtain q where "?n = CHR ''/'' # q" by (cases ?n) (auto simp: path_rooted_def)
      then show False using plain by (simp add: plain_element_def)
    qed
    moreover have "foldl (clean_step False) [] (split_on CHR ''/'' ?n) = rev (split_on CHR ''/'' ?n)"
      by (rule clean_foldl_keep) (use plain clean_stack_plain in simp)
    ultimately show ?thesis
      by (simp add: path_clean_render path_stack_def render_def Let_def join_split_on)
  qed
  with assms show "p = ?n" by (auto simp: sanitizeWritableRemotePath_def Let_def split: if_splits)
  with plain show "\<forall>e \<in> set (split_on CHR ''/'' p). plain_element e" by simp
qed

lemma normalize_plain: "plain_part p \<Longrightarrow> normalizeRemotePath p = p"
proof -
  assume p: "plain_part p"
  have "\<not> has_prefix p ''./''"
  proof
    assume "has_prefix p ''./''"
    then obtain q where "p = ''.'' @ CHR ''/'' # q" by (auto simp: has_prefix_iff)
    then show False using plain_part_elements [OF p, of "''.''"]
      by (simp add: plain_element_def split_on_append_sep)
  qed
  then show ?thesis using plain_part_fixed [OF p] by (simp add: normalizeRemotePath_def trim_prefix_def)
qed

lemma path_below_dir:
  assumes "path_below prefix path" and "path_dir path \<noteq> ''.''"
    and "plain_part prefix \<Longrightarrow> \<exists>rest. rest \<noteq> [] \<and> split_on CHR ''/'' path = split_on CHR ''/'' prefix @ rest"
  shows "path_below prefix (path_dir path)"
proof -
  let ?es = "split_on CHR ''/'' path"
  have path: "path = join ''/'' (butlast ?es @ [last ?es])" by (simp add: join_split_on)
  have plain: "\<forall>e \<in> set (butlast ?es @ [last ?es]). plain_element e"
    using assms(1) by (simp add: path_below_def)
  have ne: "butlast ?es \<noteq> []"
  proof
    assume "butlast ?es = []"
    then have "CHR ''/'' \<notin> set path"
      using path plain split_on_no_sep [of "last ?es" "CHR ''/''" path] by (metis append_Nil join.simps(2) last_in_set split_on_not_Nil)
    then show False using path_dir_single assms(2) by simp
  qed
  have dir: "path_dir path = join ''/'' (butlast ?es)"
    using path_dir_plain [OF ne plain] path by simp
  have split: "split_on CHR ''/'' (path_dir path) = butlast ?es"
    unfolding dir by (rule split_on_join) (use ne split_on_no_sep in_set_butlastD in fast)+
  show ?thesis unfolding path_below_def split
  proof (intro conjI impI)
    show "\<forall>e \<in> set (butlast ?es). plain_element e"
      using assms(1) by (auto simp: path_below_def dest: in_set_butlastD)
    assume "plain_part prefix"
    with assms(3) obtain rest where "rest \<noteq> []" "?es = split_on CHR ''/'' prefix @ rest" by blast
    then show "\<exists>rest. butlast ?es = split_on CHR ''/'' prefix @ rest"
      by (auto simp: butlast_append)
  qed
qed

lemma normalizeSeedPrefix_plain: "plain_part p \<Longrightarrow> normalizeSeedPrefix p = p"
  using plain_part_fixed [of p] plain_part_not_Nil [of p] by (simp add: normalizeSeedPrefix_def)

lemma safeCleanPrefix_Inr: "safeCleanPrefix s = Inr p \<Longrightarrow> p = normalizeSeedPrefix s"
  by (auto simp: safeCleanPrefix_def Let_def split: if_splits)

definition events_below :: "string \<Rightarrow> seed_event list \<Rightarrow> bool" where
  "events_below prefix es \<longleftrightarrow> (\<forall>ev \<in> set es. path_below prefix (event_path ev))"

lemma events_below_simps [simp]:
  "events_below prefix []"
  "events_below prefix (ev # es) \<longleftrightarrow> path_below prefix (event_path ev) \<and> events_below prefix es"
  "events_below prefix (es @ fs) \<longleftrightarrow> events_below prefix es \<and> events_below prefix fs"
  by (auto simp: events_below_def)

text \<open>What is needed of the path of a file.\<close>

definition file_path_ok :: "string \<Rightarrow> string \<Rightarrow> bool" where
  "file_path_ok prefix path \<longleftrightarrow>
     (plain_part prefix \<longrightarrow>
       plain_part path \<and>
       (\<exists>rest. rest \<noteq> [] \<and> split_on CHR ''/'' path = split_on CHR ''/'' prefix @ rest))"

lemma write_below:
  assumes "events_below prefix es" and "file_path_ok prefix path"
  shows "events_below prefix (fst (remote_WriteFile io host share path data es))"
proof (cases "si_Mount io es host share")
  case None
  show ?thesis
  proof (cases "sanitizeWritableRemotePath path")
    case (Inr p)
    note p = sanitize_plain [OF Inr]
    have rest: "\<exists>rest. rest \<noteq> [] \<and> split_on CHR ''/'' p = split_on CHR ''/'' prefix @ rest"
      if "plain_part prefix"
      using assms(2) that normalize_plain p(1) by (auto simp: file_path_ok_def)
    then have below: "path_below prefix p" using p(2) unfolding path_below_def by blast
    moreover have "path_below prefix (path_dir p)" if "path_dir p \<noteq> ''.''"
      by (rule path_below_dir [OF below that rest])
    ultimately show ?thesis using None Inr assms(1)
      by (simp add: remote_WriteFile_def Let_def split: option.split)
  qed (use None assms(1) in \<open>simp add: remote_WriteFile_def\<close>)
qed (use assms(1) in \<open>simp add: remote_WriteFile_def\<close>)

lemma remove_below:
  assumes "events_below prefix es" and "plain_part prefix \<longrightarrow> path = prefix"
  shows "events_below prefix (fst (remote_RemoveAll io host share path es))"
proof (cases "si_Mount io es host share")
  case None
  show ?thesis
  proof (cases "sanitizeWritableRemotePath path")
    case (Inr p)
    note p = sanitize_plain [OF Inr]
    have "path_below prefix p"
      using p assms(2) normalize_plain by (auto simp: path_below_def)
    then show ?thesis using None Inr assms(1) by (simp add: remote_RemoveAll_def)
  qed (use None assms(1) in \<open>simp add: remote_RemoveAll_def\<close>)
qed (use assms(1) in \<open>simp add: remote_RemoveAll_def\<close>)

lemma clientFor_events [simp]: "ss_Events (fst (clientFor io host st)) = ss_Events st"
  "ss_Entries (fst (clientFor io host st)) = ss_Entries st"
  by (simp_all add: clientFor_def split: option.split)

lemma clean_loop_below:
  "events_below prefix (ss_Events st) \<Longrightarrow> plain_part prefix \<longrightarrow> path = prefix \<Longrightarrow>
   events_below prefix (ss_Events (fst (clean_loop io opts path i targets st)))"
proof (induction io opts path i targets st rule: clean_loop.induct)
  case (2 io opts path i host share targets st)
  obtain st1 c where c: "clientFor io host st = (st1, c)" by (cases "clientFor io host st")
  have st1: "ss_Events st1 = ss_Events st" using clientFor_events(1) [of io host st] c by simp
  obtain es e where r: "remote_RemoveAll io host share path (ss_Events st1) = (es, e)"
    by (cases "remote_RemoveAll io host share path (ss_Events st1)")
  have "events_below prefix es"
    using remove_below [of prefix "ss_Events st1" path io host share] 2(3,4) st1 r by simp
  then show ?case using 2 c r st1 by (auto split: option.split)
qed simp

lemma seed_one_below:
  assumes "events_below prefix (ss_Events st)" and "file_path_ok prefix (FullPath f)"
  shows "events_below prefix (ss_Events (fst (seed_one io opts target f st)))"
proof -
  obtain st1 c where c: "clientFor io (fst target) st = (st1, c)" by (cases "clientFor io (fst target) st")
  have st1: "ss_Events st1 = ss_Events st" using clientFor_events(1) [of io "fst target" st] c by simp
  obtain es e where r: "remote_WriteFile io (fst target) (snd target) (FullPath f) (sd_Content f)
      (ss_Events st1) = (es, e)" by fastforce
  have "events_below prefix es" using write_below [OF _ assms(2)] assms(1) st1 r by (metis fst_conv)
  then show ?thesis using assms(1) c r st1
    by (auto simp: seed_one_def add_entry_def split: option.split sum.split bool.split)
qed

lemma seed_loop_below:
  "events_below prefix (ss_Events st) \<Longrightarrow> \<forall>f \<in> set files. file_path_ok prefix (FullPath f) \<Longrightarrow>
   events_below prefix (ss_Events (fst (seed_loop io opts targets i files st)))"
proof (induction files arbitrary: i st)
  case (Cons f files)
  obtain st1 e where one: "seed_one io opts (targets ! (i mod length targets)) f st = (st1, e)" by fastforce
  have "events_below prefix (ss_Events st1)"
    using seed_one_below [of prefix st f io opts "targets ! (i mod length targets)"] Cons.prems one by simp
  then show ?case using Cons one by (auto split: option.split)
qed simp

lemma seed_files_below:
  assumes "plain_part prefix \<longrightarrow> safeCleanPrefix path = Inr prefix"
    and "\<forall>f \<in> set files. file_path_ok prefix (FullPath f)"
  shows "events_below prefix (sr_Events (seed_files io opts path targets files))"
proof -
  let ?st0 = "\<lparr>ss_Entries = [], ss_Events = [], ss_Clients = []\<rparr>"
  obtain st1 err where clean: "(if wo_CleanPrefix opts then cleanSeedPrefix io opts path targets ?st0
      else (?st0, None)) = (st1, err)" by fastforce
  have "events_below prefix (ss_Events (fst (cleanSeedPrefix io opts path targets ?st0)))"
    using assms(1) by (auto simp: cleanSeedPrefix_def clean_loop_below split: sum.split)
  then have st1: "events_below prefix (ss_Events st1)" using clean by (auto split: if_splits)
  obtain st2 e where loop: "seed_loop io opts targets 0 files st1 = (st2, e)" by fastforce
  have "events_below prefix (ss_Events st2)" using seed_loop_below [OF st1 assms(2)] loop by (metis fst_conv)
  then show ?thesis using clean loop st1
    by (auto simp: seed_files_def Let_def failed_seed_def finish_seed_def split: option.split)
qed

text \<open>
  C12: Seeding a lab touches nothing outside its prefix. Every path that is created, written or removed on any
  share, whatever the servers answer and however the run ends, is relative and without a dot or double dot among
  its elements; and when the prefix is a plain relative path, it is the prefix or lies below it.
\<close>

theorem seed_stays_below_prefix:
  assumes "Seed r draw wim io opts = Some res" and "ev \<in> set (sr_Events res)"
  shows "(\<forall>e \<in> set (split_on CHR ''/'' (event_path ev)). plain_element e) \<and>
     (plain_part (normalizeSeedPrefix (wo_SeedPrefix opts)) \<longrightarrow>
       (\<exists>rest. split_on CHR ''/'' (event_path ev) =
          split_on CHR ''/'' (normalizeSeedPrefix (wo_SeedPrefix opts)) @ rest))"
proof -
  let ?p = "normalizeSeedPrefix (wo_SeedPrefix opts)"
  let ?o = "(wo_Generate opts)\<lparr>go_SeedPrefix := ?p\<rparr>"
  have safe: "safeCleanPrefix (wo_SeedPrefix opts) = Inr ?p"
    using assms safeCleanPrefix_Inr
    by (cases "safeCleanPrefix (wo_SeedPrefix opts)") (auto simp: Seed_def failed_seed_def)
  obtain files where files: "Generate r draw wim ?o = Some files"
    "\<forall>f \<in> set files. file_ok \<lparr>gn_opts = generate_options ?o, gn_draw = draw, gn_wim = wim\<rparr> f"
    using Generate_run [of r draw wim ?o] by auto
  have "file_path_ok ?p (FullPath f)" if "f \<in> set files" for f
    using files(2) that normalizeSeedPrefix_plain [of ?p] by (auto simp: file_ok_def file_path_ok_def)
  moreover have "plain_part ?p \<longrightarrow> safeCleanPrefix ?p = Inr ?p"
    using safe normalizeSeedPrefix_plain [of ?p] by (auto simp: safeCleanPrefix_def Let_def split: if_splits)
  ultimately have "events_below ?p (sr_Events (seed_files io opts ?p targets files))" for targets
    by (intro seed_files_below) auto
  then have "events_below ?p (sr_Events res)"
    using assms(1) safe files(1)
    by (auto simp: Seed_def Let_def failed_seed_def split: option.splits if_splits)
  then show ?thesis using assms(2) by (auto simp: events_below_def path_below_def)
qed

definition demo_seed_io :: seed_io where
  "demo_seed_io =
     \<lparr>si_Done = (\<lambda>p. p = AtFile 0), si_Connect = (\<lambda>es h. None),
      si_ListShares = (\<lambda>h. Inr [\<lparr>sh_Name = ''lab'', sh_Description = [], sh_Type = []\<rparr>]),
      si_Mount = (\<lambda>es h s. None), si_Read = (\<lambda>es h s p. Inl NotExist), si_Mkdir = (\<lambda>es h s p. None),
      si_Write = (\<lambda>es h s p. None), si_Remove = (\<lambda>es h s p. None), si_Manifest = (\<lambda>p. None)\<rparr>"

definition demo_seed_options :: "bool \<Rightarrow> WriteOptions" where
  "demo_seed_options dry =
     \<lparr>wo_Targets = [''srv''], wo_Shares = [], wo_IncludeAdminShares = False, wo_SeedPrefix = ''Lab'',
      wo_DryRun = dry, wo_CleanPrefix = True, wo_ManifestOut = ''m.json'', wo_SharesPerTarget = 0,
      wo_Generate = \<lparr>go_CountPerCategory = 2, go_MaxFiles = 0, go_Depth = 0, go_SeedPrefix = [],
        go_LikelyHitRatio = 0, go_FilenameOnlyRatio = 0, go_HighSeverityRatio = 0, go_MediumSeverityRatio = 0\<rparr>\<rparr>"

lemma demo_seed_facts:
  "discoverDestinations demo_seed_io (demo_seed_options dry) = Some [(''srv'', ''lab'')]"
  "safeCleanPrefix ''Lab'' = Inr ''Lab''" "normalizeSeedPrefix ''Lab'' = ''Lab''" "plain_part ''Lab''"
  "split_on CHR ''/'' ''Lab'' = [''Lab'']"
  "clean_loop demo_seed_io (demo_seed_options False) ''Lab'' 0 [(''srv'', ''lab'')]
     \<lparr>ss_Entries = [], ss_Events = [], ss_Clients = []\<rparr> =
     (\<lparr>ss_Entries = [], ss_Events = [EvRemove ''srv'' ''lab'' ''Lab''], ss_Clients = [''srv'']\<rparr>, None)"
  by code_simp+

lemma seed_stays_below_prefix_witness:
  "\<exists>res. Seed demo_renderers (\<lambda>_ _. 0) False demo_seed_io (demo_seed_options False) = Some res \<and>
     EvRemove ''srv'' ''lab'' ''Lab'' \<in> set (sr_Events res) \<and> (\<exists>rest. [''Lab''] = [''Lab''] @ rest)"
proof -
  let ?o = "(wo_Generate (demo_seed_options False))\<lparr>go_SeedPrefix := ''Lab''\<rparr>"
  have o: "wo_SeedPrefix (demo_seed_options b) = ''Lab''" "wo_CleanPrefix (demo_seed_options b)"
    "wo_DryRun (demo_seed_options b) = b" for b
    by (simp_all add: demo_seed_options_def)
  obtain files where files: "Generate demo_renderers (\<lambda>_ _. 0) False ?o = Some files" using Generate_run [of demo_renderers "\<lambda>_ _. 0" False ?o] by auto
  have done0: "si_Done demo_seed_io (AtFile 0)" by (simp add: demo_seed_io_def)
  define res where "res = seed_files demo_seed_io (demo_seed_options False) ''Lab'' [(''srv'', ''lab'')] files"
  have run: "Seed demo_renderers (\<lambda>_ _. 0) False demo_seed_io (demo_seed_options False) = Some res"
    using files o demo_seed_facts by (simp add: Seed_def res_def)
  have ev: "EvRemove ''srv'' ''lab'' ''Lab'' \<in> set (sr_Events res)"
    using o demo_seed_facts done0
    by (cases files) (auto simp: res_def seed_files_def cleanSeedPrefix_def failed_seed_def finish_seed_def split: option.split)
  from seed_stays_below_prefix [OF run ev] have "\<exists>rest. [''Lab''] = [''Lab''] @ rest"
    using o demo_seed_facts by simp
  with run ev show ?thesis by blast
qed

text \<open>
  A prefix that ends in a double dot is accepted: the check looks for the double dot only in the front and in the
  middle. Every file is then joined to the path of the prefix's parent and written outside of it.
\<close>

lemma parent_prefix_escapes:
  "safeCleanPrefix ''lab/..'' = Inr ''lab/..''"
  "joinSeedPath [joinSeedPath [''lab/..'', ''IT/Admin''], ''web.config''] = ''IT/Admin/web.config''"
  "sanitizeWritableRemotePath ''IT/Admin/web.config'' = Inr ''IT/Admin/web.config''"
  by code_simp+

subsection \<open>The manifest\<close>

definition written_files :: "seed_event list \<Rightarrow> (string \<times> string \<times> string \<times> string) list" where
  "written_files es = concat (map (\<lambda>ev. case ev of EvWrite h s p d \<Rightarrow> [(h, s, p, d)] | _ \<Rightarrow> []) es)"

lemma written_files_simps [simp]:
  "written_files [] = []" "written_files (es @ fs) = written_files es @ written_files fs"
  "written_files (EvMkdir h s p # es) = written_files es" "written_files (EvRemove h s p # es) = written_files es"
  "written_files (EvWrite h s p d # es) = (h, s, p, d) # written_files es"
  by (simp_all add: written_files_def)

text \<open>What one file adds: its entry with a status, and the write when the status says so.\<close>

definition file_write :: "string \<times> string \<Rightarrow> SeedFile \<Rightarrow> string \<Rightarrow> (string \<times> string \<times> string \<times> string) list" where
  "file_write target f status =
     (if status = ''written''
      then [(fst target, snd target, normalizeRemotePath (FullPath f), sd_Content f)] else [])"

definition run_statuses :: "bool \<Rightarrow> string set" where
  "run_statuses dry = (if dry then {''dry-run''} else {''unchanged'', ''written''})"

lemma write_done:
  assumes "remote_WriteFile io host share path data es = (es', None)"
  shows "written_files es' = written_files es @ [(host, share, normalizeRemotePath path, data)]"
proof -
  have m: "si_Mount io es host share = None"
    using assms by (cases "si_Mount io es host share") (auto simp: remote_WriteFile_def)
  then obtain p where p: "sanitizeWritableRemotePath path = Inr p"
    using assms by (cases "sanitizeWritableRemotePath path") (auto simp: remote_WriteFile_def)
  then have "p = normalizeRemotePath path" by (rule sanitize_plain)
  then show ?thesis using assms m p
    by (auto simp: remote_WriteFile_def Let_def split: option.splits if_splits)
qed

lemma remove_done: "written_files (fst (remote_RemoveAll io host share path es)) = written_files es"
  by (simp add: remote_RemoveAll_def split: option.split sum.split)

lemma clean_loop_done:
  "written_files (ss_Events (fst (clean_loop io opts path i targets st))) = written_files (ss_Events st) \<and>
   ss_Entries (fst (clean_loop io opts path i targets st)) = ss_Entries st \<and>
   (wo_DryRun opts \<longrightarrow> ss_Events (fst (clean_loop io opts path i targets st)) = ss_Events st)"
proof (induction io opts path i targets st rule: clean_loop.induct)
  case (2 io opts path i host share targets st)
  obtain st1 c where c: "clientFor io host st = (st1, c)" by (cases "clientFor io host st")
  have st1: "ss_Events st1 = ss_Events st" "ss_Entries st1 = ss_Entries st"
    using clientFor_events [of io host st] c by simp_all
  obtain es e where r: "remote_RemoveAll io host share path (ss_Events st1) = (es, e)"
    by (cases "remote_RemoveAll io host share path (ss_Events st1)")
  have "written_files es = written_files (ss_Events st)"
    using remove_done [of io host share path "ss_Events st1"] r st1 by simp
  then show ?case using 2 c r st1 by (auto split: option.split)
qed simp

lemma seed_one_done:
  assumes "seed_one io opts target f st = (st', None)"
  shows "\<exists>status \<in> run_statuses (wo_DryRun opts).
     ss_Entries st' = ss_Entries st @ [manifest_entry target f status] \<and>
     written_files (ss_Events st') = written_files (ss_Events st) @ file_write target f status \<and>
     (wo_DryRun opts \<longrightarrow> ss_Events st' = ss_Events st)"
proof (cases "wo_DryRun opts")
  case True
  then show ?thesis using assms
    by (auto simp: seed_one_def add_entry_def run_statuses_def file_write_def)
next
  case False
  obtain st1 where c: "clientFor io (fst target) st = (st1, None)"
    using assms False by (cases "clientFor io (fst target) st") (auto simp: seed_one_def split: option.splits)
  have st1: "ss_Events st1 = ss_Events st" "ss_Entries st1 = ss_Entries st"
    using clientFor_events [of io "fst target" st] c by simp_all
  obtain same where q: "FileContentEquals io (fst target) (snd target) (FullPath f) (sd_Content f)
      (ss_Events st1) = Inr same"
    using assms False c by (auto simp: seed_one_def split: sum.splits)
  show ?thesis
  proof (cases same)
    case True
    then show ?thesis using assms False c q st1
      by (auto simp: seed_one_def add_entry_def run_statuses_def file_write_def)
  next
    case w: False
    obtain es where r: "remote_WriteFile io (fst target) (snd target) (FullPath f) (sd_Content f)
        (ss_Events st1) = (es, None)"
      using assms False c q w by (auto simp: seed_one_def split: option.splits prod.splits)
    show ?thesis using assms False c q w r st1 write_done [OF r]
      by (auto simp: seed_one_def add_entry_def run_statuses_def file_write_def)
  qed
qed

lemma seed_loop_done:
  "seed_loop io opts targets i files st = (st', None) \<Longrightarrow>
   \<exists>statuses. length statuses = length files \<and> set statuses \<subseteq> run_statuses (wo_DryRun opts) \<and>
     ss_Entries st' = ss_Entries st @
       map (\<lambda>k. manifest_entry (targets ! ((i + k) mod length targets)) (files ! k) (statuses ! k)) [0 ..< length files] \<and>
     written_files (ss_Events st') = written_files (ss_Events st) @
       concat (map (\<lambda>k. file_write (targets ! ((i + k) mod length targets)) (files ! k) (statuses ! k))
         [0 ..< length files]) \<and>
     (wo_DryRun opts \<longrightarrow> ss_Events st' = ss_Events st)"
proof (induction files arbitrary: i st)
  case (Cons f files)
  let ?t = "targets ! (i mod length targets)"
  obtain st1 where one: "seed_one io opts ?t f st = (st1, None)"
    and rest: "seed_loop io opts targets (i + 1) files st1 = (st', None)"
    using Cons.prems by (cases "seed_one io opts ?t f st") (auto split: if_splits option.splits)
  obtain status where status: "status \<in> run_statuses (wo_DryRun opts)"
    "ss_Entries st1 = ss_Entries st @ [manifest_entry ?t f status]"
    "written_files (ss_Events st1) = written_files (ss_Events st) @ file_write ?t f status"
    "wo_DryRun opts \<longrightarrow> ss_Events st1 = ss_Events st"
    using seed_one_done [OF one] by blast
  obtain statuses where more: "length statuses = length files" "set statuses \<subseteq> run_statuses (wo_DryRun opts)"
    "ss_Entries st' = ss_Entries st1 @
       map (\<lambda>k. manifest_entry (targets ! ((i + 1 + k) mod length targets)) (files ! k) (statuses ! k)) [0 ..< length files]"
    "written_files (ss_Events st') = written_files (ss_Events st1) @
       concat (map (\<lambda>k. file_write (targets ! ((i + 1 + k) mod length targets)) (files ! k) (statuses ! k))
         [0 ..< length files])"
    "wo_DryRun opts \<longrightarrow> ss_Events st' = ss_Events st1"
    using Cons.IH [OF rest] by blast
  have cons: "map g [0 ..< length (f # files)] = g 0 # map (\<lambda>k. g (Suc k)) [0 ..< length files]" for g :: "nat \<Rightarrow> 'x"
    by (simp add: upt_conv_Cons map_Suc_upt [symmetric] comp_def del: upt_Suc)
  show ?case
    by (rule exI [of _ "status # statuses"], unfold cons) (use status more in simp)
qed simp

text \<open>
  C13: After a run without an error the manifest tells what was done: it has one entry for every generated file in
  order, the files dealt out to the destinations in turn; the files it calls written are the writes that were made,
  in that order and nothing else was written; a dry run changes nothing; and the manifest is saved if and only
  if a path for it was given.
\<close>

theorem seed_manifest_exact:
  assumes "Seed r draw wim io opts = Some res" and "sr_Error res = None"
  shows "\<exists>files targets statuses.
     Generate r draw wim ((wo_Generate opts)\<lparr>go_SeedPrefix := normalizeSeedPrefix (wo_SeedPrefix opts)\<rparr>) = Some files \<and>
     discoverDestinations io opts = Some targets \<and> targets \<noteq> [] \<and> length statuses = length files \<and>
     set statuses \<subseteq> (if wo_DryRun opts then {''dry-run''} else {''unchanged'', ''written''}) \<and>
     sr_Entries res = map (\<lambda>k. manifest_entry (targets ! (k mod length targets)) (files ! k) (statuses ! k))
       [0 ..< length files] \<and>
     written_files (sr_Events res) = concat (map (\<lambda>k. if statuses ! k = ''written''
         then [(fst (targets ! (k mod length targets)), snd (targets ! (k mod length targets)),
                normalizeRemotePath (FullPath (files ! k)), sd_Content (files ! k))] else [])
       [0 ..< length files]) \<and>
     (wo_DryRun opts \<longrightarrow> sr_Events res = []) \<and>
     (sr_Saved res \<longleftrightarrow> wo_ManifestOut opts \<noteq> [])"
proof -
  let ?p = "normalizeSeedPrefix (wo_SeedPrefix opts)"
  let ?st0 = "\<lparr>ss_Entries = [], ss_Events = [], ss_Clients = []\<rparr>"
  have safe: "safeCleanPrefix (wo_SeedPrefix opts) = Inr ?p"
    using assms safeCleanPrefix_Inr
    by (cases "safeCleanPrefix (wo_SeedPrefix opts)") (auto simp: Seed_def failed_seed_def)
  obtain files targets where gen: "Generate r draw wim ((wo_Generate opts)\<lparr>go_SeedPrefix := ?p\<rparr>) = Some files"
    "discoverDestinations io opts = Some targets" "targets \<noteq> []" "res = seed_files io opts ?p targets files"
    using assms safe by (auto simp: Seed_def Let_def failed_seed_def split: option.splits if_splits)
  obtain st1 err where clean: "(if wo_CleanPrefix opts then cleanSeedPrefix io opts ?p targets ?st0
      else (?st0, None)) = (st1, err)" by fastforce
  have err: "err = None" using assms(2) gen(4) clean
    by (cases err) (auto simp: seed_files_def failed_seed_def)
  have "written_files (ss_Events (fst (cleanSeedPrefix io opts ?p targets ?st0))) = [] \<and>
      ss_Entries (fst (cleanSeedPrefix io opts ?p targets ?st0)) = [] \<and>
      (wo_DryRun opts \<longrightarrow> ss_Events (fst (cleanSeedPrefix io opts ?p targets ?st0)) = [])"
    by (simp add: cleanSeedPrefix_def clean_loop_done split: sum.split)
  then have st1: "written_files (ss_Events st1) = []" "ss_Entries st1 = []"
    "wo_DryRun opts \<longrightarrow> ss_Events st1 = []"
    using clean by (auto split: if_splits)
  obtain st2 where loop: "seed_loop io opts targets 0 files st1 = (st2, None)"
    "res = finish_seed io opts st2"
    using assms(2) gen(4) clean err
    by (cases "seed_loop io opts targets 0 files st1")
       (auto simp: seed_files_def failed_seed_def split: option.splits)
  have fin: "sr_Entries res = ss_Entries st2" "sr_Events res = ss_Events st2"
    "sr_Saved res \<longleftrightarrow> wo_ManifestOut opts \<noteq> []"
    using assms(2) unfolding loop(2)
    by (auto simp: finish_seed_def failed_seed_def split: option.splits if_splits)
  from seed_loop_done [OF loop(1)] obtain statuses where
    "length statuses = length files" "set statuses \<subseteq> run_statuses (wo_DryRun opts)"
    "ss_Entries st2 = map (\<lambda>k. manifest_entry (targets ! (k mod length targets)) (files ! k) (statuses ! k))
       [0 ..< length files]"
    "written_files (ss_Events st2) = concat (map (\<lambda>k. file_write (targets ! (k mod length targets))
       (files ! k) (statuses ! k)) [0 ..< length files])"
    "wo_DryRun opts \<longrightarrow> ss_Events st2 = []"
    using st1 by auto
  then show ?thesis using gen(1-3) fin
    by (intro exI [of _ files] exI [of _ targets] exI [of _ statuses])
       (simp add: run_statuses_def file_write_def)
qed

lemma dry_loop_ends:
  "wo_DryRun opts \<Longrightarrow> \<forall>p. \<not> si_Done io p \<Longrightarrow> snd (seed_loop io opts targets i files st) = None"
  by (induction files arbitrary: i st) (simp_all add: seed_one_def)

definition demo_dry_io :: seed_io where
  "demo_dry_io = demo_seed_io\<lparr>si_Done := (\<lambda>p. False)\<rparr>"

lemma demo_dry_facts:
  "discoverDestinations demo_dry_io (demo_seed_options True) = Some [(''srv'', ''lab'')]"
  "clean_loop demo_dry_io (demo_seed_options True) ''Lab'' 0 [(''srv'', ''lab'')]
     \<lparr>ss_Entries = [], ss_Events = [], ss_Clients = []\<rparr> =
     (\<lparr>ss_Entries = [], ss_Events = [], ss_Clients = []\<rparr>, None)"
  by code_simp+

lemma seed_manifest_exact_witness:
  "\<exists>res. Seed demo_renderers (\<lambda>_ _. 0) False demo_dry_io (demo_seed_options True) = Some res \<and> sr_Error res = None \<and>
     length (sr_Entries res) = 68 \<and> sr_Events res = [] \<and> sr_Saved res"
proof -
  let ?opts = "demo_seed_options True"
  let ?o = "(wo_Generate ?opts)\<lparr>go_SeedPrefix := ''Lab''\<rparr>"
  let ?st0 = "\<lparr>ss_Entries = [], ss_Events = [], ss_Clients = []\<rparr>"
  have o: "wo_SeedPrefix ?opts = ''Lab''" "wo_CleanPrefix ?opts" "wo_DryRun ?opts" "wo_ManifestOut ?opts = ''m.json''"
    by (simp_all add: demo_seed_options_def)
  have "go_MaxFiles (generate_options ?o) = 480" "go_CountPerCategory (generate_options ?o) = 2"
    by (simp_all add: generate_options_def Let_def demo_seed_options_def)
  then obtain files where files: "Generate demo_renderers (\<lambda>_ _. 0) False ?o = Some files" "length files = 68"
    using Generate_run [of demo_renderers "\<lambda>_ _. 0" False ?o] by auto
  obtain st2 where loop: "seed_loop demo_dry_io ?opts [(''srv'', ''lab'')] 0 files ?st0 = (st2, None)"
    using dry_loop_ends [of ?opts demo_dry_io "[(''srv'', ''lab'')]" 0 files ?st0] o
    by (cases "seed_loop demo_dry_io ?opts [(''srv'', ''lab'')] 0 files ?st0") (auto simp: demo_dry_io_def)
  define res where "res = finish_seed demo_dry_io ?opts st2"
  have run: "Seed demo_renderers (\<lambda>_ _. 0) False demo_dry_io ?opts = Some res"
    using files(1) o loop demo_seed_facts demo_dry_facts
    by (simp add: Seed_def seed_files_def cleanSeedPrefix_def res_def)
  moreover have ok: "sr_Error res = None"
    by (simp add: res_def finish_seed_def o demo_dry_io_def demo_seed_io_def)
  moreover from seed_manifest_exact [OF run ok] have
    "length (sr_Entries res) = 68 \<and> sr_Events res = [] \<and> sr_Saved res"
    using files o demo_seed_facts by auto
  ultimately show ?thesis by blast
qed

text \<open>Files may have been written when the run ends with an error, but no manifest of them is saved.\<close>

lemma failed_seed_saves_nothing:
  assumes "Seed r draw wim io opts = Some res" and "sr_Error res \<noteq> None"
  shows "\<not> sr_Saved res"
proof -
  have "sr_Saved (seed_files io opts p targets files) \<Longrightarrow> sr_Error (seed_files io opts p targets files) = None"
    for p targets files
    by (auto simp: seed_files_def Let_def failed_seed_def finish_seed_def split: option.splits prod.splits if_splits)
  then show ?thesis using assms
    by (auto simp: Seed_def Let_def failed_seed_def split: option.splits sum.splits if_splits)
qed

end
