(* ===== verification/SeedVerify.thy ===== *)
theory SeedVerify
  imports SeedWrite Findings
begin

text \<open>
  The verification of a scan against the manifest of the seeder (\<open>internal/seed/verify.go\<close>): which seeded files were
  found, what was found besides, and the counts by category, by signal and by expected class. The orders in which
  Go visits the maps are an argument; the JSON files are the documents they encode, and printing is left out.
\<close>

subsection \<open>Keys and ranks\<close>

definition normalizeVerifyValue :: "string \<Rightarrow> string" where
  "normalizeVerifyValue s = to_lower (trim_space s)"

definition normalizeVerifyPath :: "string \<Rightarrow> string" where
  "normalizeVerifyPath s =
     (let v = trim_prefix (trim_prefix (trim_space (slashes s)) ''./'') ''/''
      in if v = [] then [] else to_lower (path_clean v))"

definition verify_key :: "string \<Rightarrow> string \<Rightarrow> string \<Rightarrow> string" where
  "verify_key host0 share0 path0 =
     (let host = normalizeVerifyValue host0; share = normalizeVerifyValue share0; path = normalizeVerifyPath path0
      in if host = [] \<or> share = [] \<or> path = [] then [] else host @ ''::'' @ share @ ''::'' @ path)"

definition manifestKey :: "SeedManifestEntry \<Rightarrow> string" where
  "manifestKey e = verify_key (se_Host e) (se_Share e) (se_Path e)"

definition findingKey :: "Finding \<Rightarrow> string" where
  "findingKey f = verify_key (f_Host f) (f_Share f) (f_FilePath f)"

definition normalizedCategory :: "string \<Rightarrow> string" where
  "normalizedCategory s = (let v = trim_space s in if v = [] then ''uncategorized'' else v)"

definition normalizeSignalType :: "string \<Rightarrow> string" where
  "normalizeSignalType s = to_lower (trim_space s)"

definition normalizeExpectedClass :: "string \<Rightarrow> string" where
  "normalizeExpectedClass s = to_lower (trim_space s)"

definition isExpectedVerificationEntry :: "SeedManifestEntry \<Rightarrow> bool" where
  "isExpectedVerificationEntry e \<longleftrightarrow>
     (let v = trim_space (to_lower (se_IntendedAs e)) in v = [] \<or> v \<noteq> ''filler/noise'')"

definition seed_severityRank :: "string \<Rightarrow> nat" where
  "seed_severityRank s =
     (let v = to_lower (trim_space s) in
      if v = ''high'' then 3 else if v = ''medium'' then 2 else if v = ''low'' then 1 else 0)"

definition seed_confidenceRank :: "string \<Rightarrow> nat" where
  "seed_confidenceRank s =
     (let v = to_lower (trim_space s) in
      if v = ''high'' then 3 else if v = ''medium'' then 2 else if v = ''low'' then 1 else 0)"

subsection \<open>Signals of a finding\<close>

definition uniqueNormalizedValues :: "string list \<Rightarrow> string list" where
  "uniqueNormalizedValues vs =
     slice_sort (<) (foldl (\<lambda>out v. let n = normalizeSignalType v in
        if n = [] \<or> n \<in> set out then out else out @ [n]) [] vs)"

definition allVerificationSignalTypes :: "Finding \<Rightarrow> string list" where
  "allVerificationSignalTypes f =
     uniqueNormalizedValues (filter (\<lambda>s. s \<noteq> []) (map normalizeSignalType
       ([f_SignalType f] @ f_MatchedSignalTypes f @ map ss_SignalType (f_SupportingSignals f))))"

definition primaryVerificationSignalType :: "Finding \<Rightarrow> string" where
  "primaryVerificationSignalType f =
     (case allVerificationSignalTypes f of
        s # _ \<Rightarrow> s
      | [] \<Rightarrow>
          if trim_space (f_SignalType f) \<noteq> [] then f_SignalType f
          else case f_MatchedSignalTypes f of m # _ \<Rightarrow> m | [] \<Rightarrow> [])"

record VerificationFindingSummary =
  vs_RuleID :: string
  vs_RuleName :: string
  vs_Severity :: string
  vs_Confidence :: string
  vs_Category :: string
  vs_SignalType :: string
  vs_TriageClass :: string
  vs_Actionable :: bool
  vs_Correlated :: bool
  vs_Tags :: "string list"

definition finding_summary :: "Finding \<Rightarrow> VerificationFindingSummary" where
  "finding_summary f =
     \<lparr>vs_RuleID = f_RuleID f, vs_RuleName = f_RuleName f, vs_Severity = f_Severity f,
      vs_Confidence = f_Confidence f, vs_Category = f_Category f,
      vs_SignalType = primaryVerificationSignalType f, vs_TriageClass = f_TriageClass f,
      vs_Actionable = f_Actionable f, vs_Correlated = f_Correlated f, vs_Tags = f_Tags f\<rparr>"

subsection \<open>What was expected of a class\<close>

definition observedFindingScore :: "Finding \<Rightarrow> nat" where
  "observedFindingScore f =
     (if f_Correlated f then 200 else 0) + (if f_Actionable f then 100 else 0)
     + (let t = to_lower (trim_space (f_TriageClass f)) in
        if t = seedTriageActionable then 80 else if t = seedTriageWeakReview then 40
        else if t = seedTriageConfigOnly then 10 else 0)
     + seed_confidenceRank (f_Confidence f) * 10 + seed_severityRank (f_Severity f) + length (f_MatchedRuleIDs f)"

text \<open>The first finding with the highest score; the list is not empty where this is called.\<close>

fun best_observed :: "Finding \<Rightarrow> Finding list \<Rightarrow> Finding" where
  "best_observed best [] = best"
| "best_observed best (f # fs) =
     best_observed (if observedFindingScore f > observedFindingScore best then f else best) fs"

record observedFinding =
  ob_TriageClass :: string
  ob_Confidence :: string
  ob_Actionable :: bool
  ob_Correlated :: bool
  ob_Findings :: "VerificationFindingSummary list"

definition observed_less :: "VerificationFindingSummary \<Rightarrow> VerificationFindingSummary \<Rightarrow> bool" where
  "observed_less a b =
     (if vs_Correlated a \<noteq> vs_Correlated b then vs_Correlated a
      else if seed_confidenceRank (vs_Confidence a) \<noteq> seed_confidenceRank (vs_Confidence b)
      then seed_confidenceRank (vs_Confidence a) > seed_confidenceRank (vs_Confidence b)
      else if seed_severityRank (vs_Severity a) \<noteq> seed_severityRank (vs_Severity b)
      then seed_severityRank (vs_Severity a) > seed_severityRank (vs_Severity b)
      else vs_RuleID a < vs_RuleID b)"

definition summarizeObservedFindings :: "Finding list \<Rightarrow> observedFinding" where
  "summarizeObservedFindings fs =
     (let best = best_observed (hd fs) (tl fs)
      in \<lparr>ob_TriageClass = trim_space (f_TriageClass best), ob_Confidence = trim_space (f_Confidence best),
          ob_Actionable = f_Actionable best, ob_Correlated = f_Correlated best,
          ob_Findings = slice_sort observed_less (map finding_summary fs)\<rparr>)"

definition matchesExpectedPromotion :: "observedFinding \<Rightarrow> SeedManifestEntry \<Rightarrow> bool \<Rightarrow> bool" where
  "matchesExpectedPromotion ob e require_correlated =
     (let least = seed_confidenceRank (se_ExpectedConfidence e);
          least = (if least = 0 then seed_confidenceRank ''medium'' else least)
      in if \<not> ob_Actionable ob \<and> \<not> equal_fold (ob_TriageClass ob) seedTriageActionable then False
         else if seed_confidenceRank (ob_Confidence ob) < least then False
         else if require_correlated \<or> se_ExpectedCorrelated e then ob_Correlated ob else True)"

definition isLowValueObserved :: "observedFinding \<Rightarrow> bool" where
  "isLowValueObserved ob \<longleftrightarrow>
     to_lower (trim_space (ob_TriageClass ob)) \<in> {seedTriageConfigOnly, seedTriageWeakReview}
     \<or> (\<not> ob_Actionable ob \<and> \<not> ob_Correlated ob
        \<and> seed_confidenceRank (ob_Confidence ob) \<le> seed_confidenceRank ''medium'')"

datatype class_status = NoStatus | StSuppressed | StDowngraded | StPromoted | StMismatched

record ClassVerificationItem =
  cv_Entry :: SeedManifestEntry
  cv_Status :: class_status
  cv_Reason :: string
  cv_ObservedTriageClass :: string
  cv_ObservedConfidence :: string
  cv_ObservedActionable :: bool
  cv_ObservedCorrelated :: bool
  cv_Findings :: "VerificationFindingSummary list"

definition class_verdict :: "observedFinding \<Rightarrow> SeedManifestEntry \<Rightarrow> string \<Rightarrow> class_status \<times> string" where
  "class_verdict ob e c =
     (if c = seedClassConfigOnly then
        (if isLowValueObserved ob then (StDowngraded, ''generic configuration stayed low-visibility'')
         else (StMismatched, ''config-only artifact was promoted more strongly than expected''))
      else if c = seedClassWeakReview then
        (if isLowValueObserved ob then (StDowngraded, ''weak review candidate remained low-visibility'')
         else (StMismatched, ''weak review candidate was promoted too aggressively''))
      else if c = seedClassActionable then
        (if matchesExpectedPromotion ob e False then (StPromoted, ''actionable artifact surfaced clearly'')
         else (StMismatched, ''actionable artifact did not surface strongly enough''))
      else if c = seedClassCorrelatedHighConfidence then
        (if matchesExpectedPromotion ob e True
         then (StPromoted, ''correlated multi-signal artifact surfaced as intended'')
         else (StMismatched, ''correlated high-confidence artifact did not surface strongly enough''))
      else (StMismatched, ''unsupported expected class''))"

definition evaluateExpectedClass :: "SeedManifestEntry \<Rightarrow> Finding list \<Rightarrow> ClassVerificationItem" where
  "evaluateExpectedClass e fs =
     (let c = normalizeExpectedClass (se_ExpectedClass e);
          bare = (\<lambda>s why. \<lparr>cv_Entry = e, cv_Status = s, cv_Reason = why, cv_ObservedTriageClass = [],
            cv_ObservedConfidence = [], cv_ObservedActionable = False, cv_ObservedCorrelated = False,
            cv_Findings = []\<rparr>)
      in if c = [] then bare NoStatus []
         else if fs = [] then
           (if c = seedClassConfigOnly
            then bare StSuppressed ''no finding surfaced for a config-only seeded artifact''
            else bare StMismatched ''no finding surfaced for this seeded artifact'')
         else
           let ob = summarizeObservedFindings fs; (s, why) = class_verdict ob e c
           in \<lparr>cv_Entry = e, cv_Status = s, cv_Reason = why, cv_ObservedTriageClass = ob_TriageClass ob,
               cv_ObservedConfidence = ob_Confidence ob, cv_ObservedActionable = ob_Actionable ob,
               cv_ObservedCorrelated = ob_Correlated ob, cv_Findings = ob_Findings ob\<rparr>)"

subsection \<open>Counts\<close>

text \<open>The coverage by category and the coverage by signal type have the same shape.\<close>

record CoverageSummary =
  cs_Name :: string
  cs_Expected :: nat
  cs_Found :: nat
  cs_Missed :: nat

type_synonym coverage = "string \<rightharpoonup> CoverageSummary"

definition add_expected :: "string \<Rightarrow> coverage \<Rightarrow> coverage" where
  "add_expected k m =
     (let s = (case m k of None \<Rightarrow> \<lparr>cs_Name = k, cs_Expected = 0, cs_Found = 0, cs_Missed = 0\<rparr> | Some s \<Rightarrow> s)
      in m(k \<mapsto> s\<lparr>cs_Expected := cs_Expected s + 1\<rparr>))"

text \<open>The pointers read here were stored when the manifest was counted (lemma \<open>counted_defined\<close> below).\<close>

definition add_found :: "string \<Rightarrow> coverage \<Rightarrow> coverage" where
  "add_found k m = m(k := map_option (\<lambda>s. s\<lparr>cs_Found := cs_Found s + 1\<rparr>) (m k))"

definition add_missed :: "string \<Rightarrow> coverage \<Rightarrow> coverage" where
  "add_missed k m = m(k := map_option (\<lambda>s. s\<lparr>cs_Missed := cs_Missed s + 1\<rparr>) (m k))"

record ExpectedClassSummary =
  ec_ExpectedClass :: string
  ec_Planted :: nat
  ec_Detected :: nat
  ec_Missed :: nat
  ec_Matched :: nat
  ec_Suppressed :: nat
  ec_Downgraded :: nat
  ec_Promoted :: nat
  ec_Mismatched :: nat

definition add_planted :: "string \<Rightarrow> (string \<rightharpoonup> ExpectedClassSummary) \<Rightarrow> (string \<rightharpoonup> ExpectedClassSummary)" where
  "add_planted k m =
     (let s = (case m k of
            None \<Rightarrow> \<lparr>ec_ExpectedClass = k, ec_Planted = 0, ec_Detected = 0, ec_Missed = 0, ec_Matched = 0,
                     ec_Suppressed = 0, ec_Downgraded = 0, ec_Promoted = 0, ec_Mismatched = 0\<rparr>
          | Some s \<Rightarrow> s)
      in m(k \<mapsto> s\<lparr>ec_Planted := ec_Planted s + 1\<rparr>))"

definition count_class :: "bool \<Rightarrow> class_status \<Rightarrow> ExpectedClassSummary \<Rightarrow> ExpectedClassSummary" where
  "count_class detected status s0 =
     (let s = (if detected then s0\<lparr>ec_Detected := ec_Detected s0 + 1\<rparr> else s0\<lparr>ec_Missed := ec_Missed s0 + 1\<rparr>)
      in case status of
           NoStatus \<Rightarrow> s
         | StSuppressed \<Rightarrow> s\<lparr>ec_Matched := ec_Matched s + 1, ec_Suppressed := ec_Suppressed s + 1\<rparr>
         | StDowngraded \<Rightarrow> s\<lparr>ec_Matched := ec_Matched s + 1, ec_Downgraded := ec_Downgraded s + 1\<rparr>
         | StPromoted \<Rightarrow> s\<lparr>ec_Matched := ec_Matched s + 1, ec_Promoted := ec_Promoted s + 1\<rparr>
         | StMismatched \<Rightarrow> s\<lparr>ec_Mismatched := ec_Mismatched s + 1\<rparr>)"

definition entry_signals :: "SeedManifestEntry \<Rightarrow> string list" where
  "entry_signals e = filter (\<lambda>s. s \<noteq> []) (map normalizeSignalType (se_ExpectedSignalTypes e))"

subsection \<open>The two passes\<close>

record planting =
  pl_ByKey :: "string \<rightharpoonup> SeedManifestEntry"
  pl_Coverage :: coverage
  pl_Signals :: coverage
  pl_Classes :: "string \<rightharpoonup> ExpectedClassSummary"
  pl_Filler :: nat

definition plant :: "planting \<Rightarrow> SeedManifestEntry \<Rightarrow> planting" where
  "plant p e =
     (let key = manifestKey e; c = normalizeExpectedClass (se_ExpectedClass e) in
      if key = [] then p
      else if \<not> isExpectedVerificationEntry e
      then p\<lparr>pl_ByKey := (pl_ByKey p)(key \<mapsto> e), pl_Filler := pl_Filler p + 1\<rparr>
      else p\<lparr>pl_ByKey := (pl_ByKey p)(key \<mapsto> e),
             pl_Coverage := add_expected (normalizedCategory (se_Category e)) (pl_Coverage p),
             pl_Signals := fold add_expected (entry_signals e) (pl_Signals p),
             pl_Classes := (if c \<noteq> [] then add_planted c (pl_Classes p) else pl_Classes p)\<rparr>)"

definition group_finding :: "(string \<rightharpoonup> Finding list) \<Rightarrow> Finding \<Rightarrow> (string \<rightharpoonup> Finding list)" where
  "group_finding m f =
     (let key = findingKey f in
      if key = [] then m else m(key \<mapsto> (case m key of None \<Rightarrow> [] | Some fs \<Rightarrow> fs) @ [f]))"

record VerifiedSeedItem =
  vi_Entry :: SeedManifestEntry
  vi_Findings :: "VerificationFindingSummary list"

record verified =
  vf_Found :: "VerifiedSeedItem list"
  vf_Missed :: "SeedManifestEntry list"
  vf_FillerMatched :: nat
  vf_FillerMissed :: nat
  vf_Coverage :: coverage
  vf_Signals :: coverage
  vf_Classes :: "string \<rightharpoonup> ExpectedClassSummary"
  vf_SuppressedConfigOnly :: "ClassVerificationItem list"
  vf_PromotedActionable :: "ClassVerificationItem list"
  vf_PromotedCorrelated :: "ClassVerificationItem list"
  vf_ClassMismatches :: "ClassVerificationItem list"

definition severity_text_less :: "VerificationFindingSummary \<Rightarrow> VerificationFindingSummary \<Rightarrow> bool" where
  "severity_text_less a b =
     (if vs_Severity a = vs_Severity b then vs_RuleID a < vs_RuleID b else vs_Severity a > vs_Severity b)"

definition verify_class :: "SeedManifestEntry \<Rightarrow> Finding list \<Rightarrow> verified \<Rightarrow> verified" where
  "verify_class e matches v =
     (let c = normalizeExpectedClass (se_ExpectedClass e); item = evaluateExpectedClass e matches in
      if c = [] then v
      else case vf_Classes v c of
        None \<Rightarrow> v
      | Some s \<Rightarrow>
          v\<lparr>vf_Classes := (vf_Classes v)(c \<mapsto> count_class (matches \<noteq> []) (cv_Status item) s),
            vf_SuppressedConfigOnly := vf_SuppressedConfigOnly v @
              (if cv_Status item \<in> {StSuppressed, StDowngraded} \<and> c = seedClassConfigOnly then [item] else []),
            vf_PromotedActionable := vf_PromotedActionable v @
              (if cv_Status item = StPromoted \<and> c = seedClassActionable then [item] else []),
            vf_PromotedCorrelated := vf_PromotedCorrelated v @
              (if cv_Status item = StPromoted \<and> c = seedClassCorrelatedHighConfidence then [item] else []),
            vf_ClassMismatches := vf_ClassMismatches v @
              (if cv_Status item = StMismatched then [item] else [])\<rparr>)"

definition verify_entry :: "SeedManifestEntry \<Rightarrow> Finding list \<Rightarrow> verified \<Rightarrow> verified" where
  "verify_entry e matches v0 =
     (if \<not> isExpectedVerificationEntry e then
        (if matches \<noteq> [] then v0\<lparr>vf_FillerMatched := vf_FillerMatched v0 + 1\<rparr>
         else v0\<lparr>vf_FillerMissed := vf_FillerMissed v0 + 1\<rparr>)
      else
        let v = verify_class e matches v0; cat = normalizedCategory (se_Category e) in
        if matches = [] then
          v\<lparr>vf_Missed := vf_Missed v @ [e], vf_Coverage := add_missed cat (vf_Coverage v),
            vf_Signals := fold add_missed (entry_signals e) (vf_Signals v)\<rparr>
        else
          let found = \<Union> (set ` allVerificationSignalTypes ` set matches) in
          v\<lparr>vf_Found := vf_Found v @
              [\<lparr>vi_Entry = e, vi_Findings = slice_sort severity_text_less (map finding_summary matches)\<rparr>],
            vf_Coverage := add_found cat (vf_Coverage v),
            vf_Signals := fold (\<lambda>s. if s \<in> found then add_found s else add_missed s) (entry_signals e)
              (vf_Signals v)\<rparr>)"

record verify_orders =
  vo_Manifest :: "string list"
  vo_Findings :: "string list"
  vo_Coverage :: "string list"
  vo_Signals :: "string list"
  vo_Classes :: "string list"

record VerificationReport =
  vr_ExpectedItems :: nat
  vr_FoundItems :: nat
  vr_MissedItems :: nat
  vr_FillerItems :: nat
  vr_FillerMatchedItems :: nat
  vr_FillerMissedItems :: nat
  vr_UnexpectedFindings :: nat
  vr_Found :: "VerifiedSeedItem list"
  vr_Missed :: "SeedManifestEntry list"
  vr_Unexpected :: "Finding list"
  vr_Coverage :: "CoverageSummary list"
  vr_SignalCoverage :: "CoverageSummary list"
  vr_ClassCoverage :: "ExpectedClassSummary list"
  vr_SuppressedConfigOnly :: "ClassVerificationItem list"
  vr_PromotedActionable :: "ClassVerificationItem list"
  vr_PromotedCorrelated :: "ClassVerificationItem list"
  vr_ClassMismatches :: "ClassVerificationItem list"

definition entry_less :: "SeedManifestEntry \<Rightarrow> SeedManifestEntry \<Rightarrow> bool" where
  "entry_less a b =
     (if se_Category a = se_Category b then
        if se_Host a = se_Host b then
          if se_Share a = se_Share b then se_Path a < se_Path b else se_Share a < se_Share b
        else se_Host a < se_Host b
      else se_Category a < se_Category b)"

definition sortClassVerificationItems :: "ClassVerificationItem list \<Rightarrow> ClassVerificationItem list" where
  "sortClassVerificationItems = slice_sort (\<lambda>a b. entry_less (cv_Entry a) (cv_Entry b))"

definition planted :: "SeedManifestEntry list \<Rightarrow> planting" where
  "planted entries =
     foldl plant \<lparr>pl_ByKey = Map.empty, pl_Coverage = Map.empty, pl_Signals = Map.empty,
       pl_Classes = Map.empty, pl_Filler = 0\<rparr> entries"

definition findings_by_key :: "Finding list \<Rightarrow> (string \<rightharpoonup> Finding list)" where
  "findings_by_key fs = foldl group_finding Map.empty fs"

definition matches_of :: "(string \<rightharpoonup> Finding list) \<Rightarrow> string \<Rightarrow> Finding list" where
  "matches_of m key = (case m key of None \<Rightarrow> [] | Some fs \<Rightarrow> fs)"

definition verify_pass :: "verify_orders \<Rightarrow> Finding list \<Rightarrow> SeedManifestEntry list \<Rightarrow> verified" where
  "verify_pass ord findings entries =
     (let p = planted entries; m = findings_by_key findings
      in foldl (\<lambda>v key. verify_entry (the (pl_ByKey p key)) (matches_of m key) v)
           \<lparr>vf_Found = [], vf_Missed = [], vf_FillerMatched = 0, vf_FillerMissed = 0,
            vf_Coverage = pl_Coverage p, vf_Signals = pl_Signals p, vf_Classes = pl_Classes p,
            vf_SuppressedConfigOnly = [], vf_PromotedActionable = [], vf_PromotedCorrelated = [],
            vf_ClassMismatches = []\<rparr>
           (vo_Manifest ord))"

definition verifyFindings :: "verify_orders \<Rightarrow> Finding list \<Rightarrow> SeedManifestEntry list \<Rightarrow> VerificationReport" where
  "verifyFindings ord findings entries =
     (let p = planted entries; m = findings_by_key findings; v = verify_pass ord findings entries;
          unexpected = concat (map (matches_of m) (filter (\<lambda>k. pl_ByKey p k = None) (vo_Findings ord)))
      in \<lparr>vr_ExpectedItems = length (vf_Found v) + length (vf_Missed v),
          vr_FoundItems = length (vf_Found v), vr_MissedItems = length (vf_Missed v),
          vr_FillerItems = pl_Filler p, vr_FillerMatchedItems = vf_FillerMatched v,
          vr_FillerMissedItems = vf_FillerMissed v, vr_UnexpectedFindings = length unexpected,
          vr_Found = slice_sort (\<lambda>a b. entry_less (vi_Entry a) (vi_Entry b)) (vf_Found v),
          vr_Missed = slice_sort entry_less (vf_Missed v),
          vr_Unexpected = slice_sort (\<lambda>a b. findingKey a < findingKey b) unexpected,
          vr_Coverage = slice_sort (\<lambda>a b. cs_Name a < cs_Name b)
            (map (\<lambda>k. the (vf_Coverage v k)) (vo_Coverage ord)),
          vr_SignalCoverage = slice_sort (\<lambda>a b. cs_Name a < cs_Name b)
            (map (\<lambda>k. the (vf_Signals v k)) (vo_Signals ord)),
          vr_ClassCoverage = slice_sort (\<lambda>a b. ec_ExpectedClass a < ec_ExpectedClass b)
            (map (\<lambda>k. the (vf_Classes v k)) (vo_Classes ord)),
          vr_SuppressedConfigOnly = sortClassVerificationItems (vf_SuppressedConfigOnly v),
          vr_PromotedActionable = sortClassVerificationItems (vf_PromotedActionable v),
          vr_PromotedCorrelated = sortClassVerificationItems (vf_PromotedCorrelated v),
          vr_ClassMismatches = sortClassVerificationItems (vf_ClassMismatches v)\<rparr>)"

text \<open>The orders Go may take: each lists the keys of its map.\<close>

definition orders_ok :: "verify_orders \<Rightarrow> Finding list \<Rightarrow> SeedManifestEntry list \<Rightarrow> bool" where
  "orders_ok ord findings entries \<longleftrightarrow>
     map_order (vo_Manifest ord) (pl_ByKey (planted entries)) \<and>
     map_order (vo_Findings ord) (findings_by_key findings) \<and>
     map_order (vo_Coverage ord) (pl_Coverage (planted entries)) \<and>
     map_order (vo_Signals ord) (pl_Signals (planted entries)) \<and>
     map_order (vo_Classes ord) (pl_Classes (planted entries))"

subsection \<open>What the passes count\<close>

text \<open>The entries that stay: of those with the same key the last one.\<close>

fun surviving :: "SeedManifestEntry list \<Rightarrow> SeedManifestEntry list" where
  "surviving [] = []"
| "surviving (e # es) =
     (if manifestKey e = [] \<or> manifestKey e \<in> manifestKey ` set es then surviving es else e # surviving es)"

lemma surviving_subset: "set (surviving es) \<subseteq> {e \<in> set es. manifestKey e \<noteq> []}"
  by (induction es) auto

lemma surviving_keys: "manifestKey ` set (surviving es) = manifestKey ` set es - {[]}"
  by (induction es) auto

lemma surviving_distinct: "distinct (map manifestKey (surviving es))"
  by (induction es) (simp_all add: surviving_keys)

lemma surviving_id:
  "distinct (map manifestKey (filter (\<lambda>e. manifestKey e \<noteq> []) es)) \<Longrightarrow>
   surviving es = filter (\<lambda>e. manifestKey e \<noteq> []) es"
  by (induction es) auto

definition keyed_entries :: "SeedManifestEntry list \<Rightarrow> (string \<times> SeedManifestEntry) list" where
  "keyed_entries es = map (\<lambda>e. (manifestKey e, e)) (surviving es)"

lemma plant_by_key:
  "pl_ByKey (plant p e) = (if manifestKey e = [] then pl_ByKey p else (pl_ByKey p)(manifestKey e \<mapsto> e))"
  by (simp add: plant_def Let_def)

lemma planted_by_key_gen:
  "pl_ByKey (foldl plant p es) = pl_ByKey p ++ map_of (keyed_entries es)"
proof (induction es arbitrary: p)
  case (Cons e es)
  have old: "m(manifestKey e \<mapsto> e) ++ map_of (keyed_entries es) = m ++ map_of (keyed_entries es)"
    if "manifestKey e \<in> manifestKey ` set es" "manifestKey e \<noteq> []" for m
  proof -
    have "manifestKey e \<in> dom (map_of (keyed_entries es))"
      using that surviving_keys [of es] by (simp add: keyed_entries_def dom_map_of_conv_image_fst image_image)
    then show ?thesis by (auto simp: map_add_def fun_eq_iff split: option.split)
  qed
  have new: "m(manifestKey e \<mapsto> e) ++ map_of (keyed_entries es) =
      m ++ (map_of (keyed_entries es))(manifestKey e \<mapsto> e)"
    if "manifestKey e \<notin> manifestKey ` set es" for m
  proof -
    have "manifestKey e \<notin> dom (map_of (keyed_entries es))"
      using that surviving_keys [of es] by (auto simp: keyed_entries_def dom_map_of_conv_image_fst image_image)
    then show ?thesis by (auto simp: map_add_def fun_eq_iff split: option.split)
  qed
  show ?case using Cons.IH [of "plant p e"] old new
    by (simp add: plant_by_key) (simp add: keyed_entries_def)
qed (simp add: keyed_entries_def)

lemma planted_by_key: "pl_ByKey (planted es) = map_of (keyed_entries es)"
  by (simp add: planted_def planted_by_key_gen)

text \<open>Visiting a map in any order visits the values once each.\<close>

lemma map_order_values:
  assumes "map_order ks (map_of xs)" and "distinct (map fst xs)"
  shows "mset (map (\<lambda>k. (k, the (map_of xs k))) ks) = mset xs"
proof -
  have "mset ks = mset (map fst xs)"
    by (rule set_eq_iff_mset_eq_distinct [THEN iffD1])
       (use assms in \<open>simp_all add: map_order_def dom_map_of_conv_image_fst\<close>)
  then have "mset (map (\<lambda>k. (k, the (map_of xs k))) ks) = mset (map (\<lambda>k. (k, the (map_of xs k))) (map fst xs))"
    by (simp only: mset_map)
  also have "map (\<lambda>k. (k, the (map_of xs k))) (map fst xs) = xs"
    using assms(2) by (auto intro!: map_idI)
  finally show ?thesis .
qed

lemma findings_by_key_matches:
  "k \<noteq> [] \<Longrightarrow> matches_of (foldl group_finding m fs) k = matches_of m k @ filter (\<lambda>f. findingKey f = k) fs"
  by (induction fs arbitrary: m) (auto simp: group_finding_def matches_of_def Let_def split: option.split)

lemma matches_of_findings:
  "k \<noteq> [] \<Longrightarrow> matches_of (findings_by_key fs) k = filter (\<lambda>f. findingKey f = k) fs"
  using findings_by_key_matches [of k Map.empty fs] by (simp add: findings_by_key_def matches_of_def)

lemma dom_findings_by_key_gen:
  "dom (foldl group_finding m fs) = dom m \<union> (findingKey ` set fs - {[]})"
  by (induction fs arbitrary: m) (auto simp: group_finding_def Let_def)

lemma dom_findings_by_key: "dom (findings_by_key fs) = findingKey ` set fs - {[]}"
  by (simp add: findings_by_key_def dom_findings_by_key_gen)

text \<open>The state after one entry.\<close>

definition entry_matches :: "Finding list \<Rightarrow> SeedManifestEntry \<Rightarrow> Finding list" where
  "entry_matches fs e = filter (\<lambda>f. findingKey f = manifestKey e) fs"

lemma verify_class_fields [simp]:
  "vf_Found (verify_class e ms v) = vf_Found v" "vf_Missed (verify_class e ms v) = vf_Missed v"
  "vf_FillerMatched (verify_class e ms v) = vf_FillerMatched v"
  "vf_FillerMissed (verify_class e ms v) = vf_FillerMissed v"
  "vf_Coverage (verify_class e ms v) = vf_Coverage v" "vf_Signals (verify_class e ms v) = vf_Signals v"
  by (simp_all add: verify_class_def Let_def split: option.split)

definition found_item :: "Finding list \<Rightarrow> SeedManifestEntry \<Rightarrow> VerifiedSeedItem" where
  "found_item ms e =
     \<lparr>vi_Entry = e, vi_Findings = slice_sort severity_text_less (map finding_summary ms)\<rparr>"

lemma verify_entry_fields:
  "vf_Found (verify_entry e ms v) =
     vf_Found v @ (if isExpectedVerificationEntry e \<and> ms \<noteq> [] then [found_item ms e] else [])"
  "vf_Missed (verify_entry e ms v) =
     vf_Missed v @ (if isExpectedVerificationEntry e \<and> ms = [] then [e] else [])"
  "vf_FillerMatched (verify_entry e ms v) =
     vf_FillerMatched v + (if \<not> isExpectedVerificationEntry e \<and> ms \<noteq> [] then 1 else 0)"
  "vf_FillerMissed (verify_entry e ms v) =
     vf_FillerMissed v + (if \<not> isExpectedVerificationEntry e \<and> ms = [] then 1 else 0)"
  by (simp_all add: verify_entry_def Let_def found_item_def)

definition pass :: "Finding list \<Rightarrow> SeedManifestEntry list \<Rightarrow> verified \<Rightarrow> verified" where
  "pass fs es v = foldl (\<lambda>v e. verify_entry e (entry_matches fs e) v) v es"

lemma pass_simps [simp]:
  "pass fs [] v = v" "pass fs (e # es) v = pass fs es (verify_entry e (entry_matches fs e) v)"
  by (simp_all add: pass_def)

lemma pass_lists:
  "vf_Found (pass fs es v) = vf_Found v @ map (\<lambda>e. found_item (entry_matches fs e) e)
     (filter (\<lambda>e. isExpectedVerificationEntry e \<and> entry_matches fs e \<noteq> []) es)"
  "vf_Missed (pass fs es v) = vf_Missed v @
     filter (\<lambda>e. isExpectedVerificationEntry e \<and> entry_matches fs e = []) es"
  "vf_FillerMatched (pass fs es v) = vf_FillerMatched v +
     length (filter (\<lambda>e. \<not> isExpectedVerificationEntry e \<and> entry_matches fs e \<noteq> []) es)"
  "vf_FillerMissed (pass fs es v) = vf_FillerMissed v +
     length (filter (\<lambda>e. \<not> isExpectedVerificationEntry e \<and> entry_matches fs e = []) es)"
  by (induction es arbitrary: v) (simp_all add: verify_entry_fields)

text \<open>The pass over the map visits the surviving entries in some order.\<close>

lemma verify_pass_order:
  assumes "map_order (vo_Manifest ord) (pl_ByKey (planted entries))"
  shows "\<exists>es. mset es = mset (surviving entries) \<and>
     verify_pass ord fs entries = pass fs es
       \<lparr>vf_Found = [], vf_Missed = [], vf_FillerMatched = 0, vf_FillerMissed = 0,
        vf_Coverage = pl_Coverage (planted entries), vf_Signals = pl_Signals (planted entries),
        vf_Classes = pl_Classes (planted entries), vf_SuppressedConfigOnly = [], vf_PromotedActionable = [],
        vf_PromotedCorrelated = [], vf_ClassMismatches = []\<rparr>"
proof -
  let ?m = "pl_ByKey (planted entries)"
  let ?es = "map (\<lambda>k. the (?m k)) (vo_Manifest ord)"
  have m: "?m = map_of (keyed_entries entries)" by (rule planted_by_key)
  have distinct: "distinct (map fst (keyed_entries entries))"
    using surviving_distinct by (simp add: keyed_entries_def comp_def)
  have pairs: "mset (map (\<lambda>k. (k, the (?m k))) (vo_Manifest ord)) = mset (keyed_entries entries)"
    unfolding m by (rule map_order_values) (use assms m distinct in simp_all)
  then have "mset (map snd (map (\<lambda>k. (k, the (?m k))) (vo_Manifest ord))) = mset (map snd (keyed_entries entries))"
    by (simp only: mset_map)
  then have es: "mset ?es = mset (surviving entries)" by (simp add: keyed_entries_def comp_def)
  have key: "manifestKey (the (?m k)) = k \<and> k \<noteq> []" if "k \<in> set (vo_Manifest ord)" for k
  proof -
    have "(k, the (?m k)) \<in> set (keyed_entries entries)"
      using that mset_eq_setD [OF pairs] by (auto simp: image_iff)
    then show ?thesis using surviving_subset by (auto simp: keyed_entries_def)
  qed
  have "foldl (\<lambda>v key. verify_entry (the (?m key)) (matches_of (findings_by_key fs) key) v) v ks =
      pass fs (map (\<lambda>k. the (?m k)) ks) v" if "set ks \<subseteq> set (vo_Manifest ord)" for ks v
    using that by (induction ks arbitrary: v) (auto simp: entry_matches_def matches_of_findings key)
  then show ?thesis using es unfolding verify_pass_def Let_def by blast
qed

lemma grouped_by_key:
  assumes "distinct ks"
  shows "mset (concat (map (\<lambda>k. filter (\<lambda>x. key x = k) xs) (filter P ks))) =
     mset (filter (\<lambda>x. key x \<in> set ks \<and> P (key x)) xs)"
  using assms
proof (induction ks)
  case (Cons k ks)
  have "mset (filter (\<lambda>x. key x \<in> set (k # ks) \<and> P (key x)) xs) =
      mset (filter (\<lambda>x. P k \<and> key x = k) xs) + mset (filter (\<lambda>x. key x \<in> set ks \<and> P (key x)) xs)"
    using Cons.prems by (induction xs) auto
  then show ?case using Cons by (cases "P k") auto
qed simp


subsection \<open>Coverage\<close>

definition tally :: "(string \<Rightarrow> bool) \<Rightarrow> string list \<Rightarrow> coverage \<Rightarrow> coverage" where
  "tally P ks m = fold (\<lambda>k. if P k then add_found k else add_missed k) ks m"

lemma tally_at:
  "tally P ks m k = map_option (\<lambda>s. s\<lparr>cs_Found := cs_Found s + (if P k then count_list ks k else 0),
     cs_Missed := cs_Missed s + (if P k then 0 else count_list ks k)\<rparr>) (m k)"
proof (induction ks arbitrary: m)
  case Nil
  then show ?case by (simp add: tally_def option.map_ident_strong)
next
  case (Cons a ks)
  have "tally P (a # ks) m k = tally P ks (if P a then add_found a m else add_missed a m) k"
    by (simp add: tally_def)
  then show ?case by (cases "m k") (auto simp: Cons.IH add_found_def add_missed_def)
qed

lemma add_expected_at:
  "add_expected k m j = (if j = k
     then Some (case m j of None \<Rightarrow> \<lparr>cs_Name = k, cs_Expected = 1, cs_Found = 0, cs_Missed = 0\<rparr>
                | Some s \<Rightarrow> s\<lparr>cs_Expected := cs_Expected s + 1\<rparr>) else m j)"
  by (simp add: add_expected_def Let_def split: option.split)

text \<open>The counts after the manifest was read: only expectations, under their own names.\<close>

definition only_expected :: "(string \<Rightarrow> nat) \<Rightarrow> coverage \<Rightarrow> bool" where
  "only_expected n m \<longleftrightarrow>
     (\<forall>k. m k = (if n k = 0 then None
        else Some \<lparr>cs_Name = k, cs_Expected = n k, cs_Found = 0, cs_Missed = 0\<rparr>))"

lemma only_expected_add: "only_expected n m \<Longrightarrow> only_expected (\<lambda>k. n k + count_list ks k) (fold add_expected ks m)"
proof (induction ks arbitrary: n m)
  case (Cons a ks)
  have "only_expected (\<lambda>k. n k + (if k = a then 1 else 0)) (add_expected a m)"
    using Cons.prems by (auto simp: only_expected_def add_expected_at)
  from Cons.IH [OF this] show ?case
    by (simp add: only_expected_def)
qed simp

text \<open>
  Both kinds of coverage at once: \<open>ks\<close> are the names an entry counts under, \<open>hit\<close> tells which of them are
  found.
\<close>

definition name_total :: "(SeedManifestEntry \<Rightarrow> string list) \<Rightarrow> SeedManifestEntry list \<Rightarrow> string \<Rightarrow> nat" where
  "name_total ks es k =
     sum_list (map (\<lambda>e. count_list (ks e) k) (filter isExpectedVerificationEntry es))"

definition signal_hit :: "Finding list \<Rightarrow> string \<Rightarrow> bool" where
  "signal_hit ms s \<longleftrightarrow> ms \<noteq> [] \<and> s \<in> \<Union> (set ` allVerificationSignalTypes ` set ms)"

lemma verify_entry_coverage:
  "vf_Coverage (verify_entry e ms v) =
     (if isExpectedVerificationEntry e
      then tally (\<lambda>_. ms \<noteq> []) [normalizedCategory (se_Category e)] (vf_Coverage v) else vf_Coverage v)"
  "vf_Signals (verify_entry e ms v) =
     (if isExpectedVerificationEntry e then tally (signal_hit ms) (entry_signals e) (vf_Signals v) else vf_Signals v)"
  by (auto simp: verify_entry_def Let_def tally_def signal_hit_def fun_eq_iff intro!: fold_cong)

lemma tallied_sum:
  assumes "\<And>e ms v. cov (verify_entry e ms v) =
      (if isExpectedVerificationEntry e then tally (hit ms) (ks e) (cov v) else cov v)"
    and "cov v k = Some s"
  shows "\<exists>s'. cov (pass fs es v) k = Some s' \<and> cs_Name s' = cs_Name s \<and> cs_Expected s' = cs_Expected s \<and>
     cs_Found s' + cs_Missed s' = cs_Found s + cs_Missed s + name_total ks es k"
  using assms(2)
proof (induction es arbitrary: v s)
  case (Cons e es)
  let ?v = "verify_entry e (entry_matches fs e) v"
  obtain s1 where s1: "cov ?v k = Some s1" "cs_Name s1 = cs_Name s" "cs_Expected s1 = cs_Expected s"
    "cs_Found s1 + cs_Missed s1 = cs_Found s + cs_Missed s +
       (if isExpectedVerificationEntry e then count_list (ks e) k else 0)"
    using Cons.prems by (cases "isExpectedVerificationEntry e") (simp_all add: assms(1) tally_at)
  from Cons.IH [OF s1(1)] show ?case using s1 by (auto simp: name_total_def)
qed (simp add: name_total_def)

lemma tallied_none:
  assumes "\<And>e ms v. cov (verify_entry e ms v) =
      (if isExpectedVerificationEntry e then tally (hit ms) (ks e) (cov v) else cov v)"
    and "cov v k = None"
  shows "cov (pass fs es v) k = None"
  using assms(2) by (induction es arbitrary: v) (auto simp: assms(1) tally_at)

lemma planted_coverage:
  "only_expected (name_total (\<lambda>e. [normalizedCategory (se_Category e)]) (filter (\<lambda>e. manifestKey e \<noteq> []) es))
     (pl_Coverage (planted es)) \<and>
   only_expected (name_total entry_signals (filter (\<lambda>e. manifestKey e \<noteq> []) es)) (pl_Signals (planted es))"
proof -
  have gen: "only_expected (\<lambda>k. n k + name_total (\<lambda>e. [normalizedCategory (se_Category e)])
        (filter (\<lambda>e. manifestKey e \<noteq> []) es) k) (pl_Coverage (foldl plant p es)) \<and>
      only_expected (\<lambda>k. n' k + name_total entry_signals (filter (\<lambda>e. manifestKey e \<noteq> []) es) k)
        (pl_Signals (foldl plant p es))"
    if "only_expected n (pl_Coverage p)" "only_expected n' (pl_Signals p)" for n n' p
    using that
  proof (induction es arbitrary: n n' p)
    case (Cons e es)
    show ?case
    proof (cases "manifestKey e \<noteq> [] \<and> isExpectedVerificationEntry e")
      case True
      let ?c = "normalizedCategory (se_Category e)"
      have "pl_Coverage (plant p e) = fold add_expected [?c] (pl_Coverage p)"
        "pl_Signals (plant p e) = fold add_expected (entry_signals e) (pl_Signals p)"
        using True by (simp_all add: plant_def Let_def)
      then have "only_expected (\<lambda>k. n k + count_list [?c] k) (pl_Coverage (plant p e))"
        "only_expected (\<lambda>k. n' k + count_list (entry_signals e) k) (pl_Signals (plant p e))"
        using only_expected_add Cons.prems by metis+
      from Cons.IH [OF this] True show ?thesis by (simp add: name_total_def add.assoc)
    next
      case False
      then have "pl_Coverage (plant p e) = pl_Coverage p" "pl_Signals (plant p e) = pl_Signals p"
        by (auto simp: plant_def Let_def)
      with Cons.IH [of n "plant p e" n'] Cons.prems False show ?thesis by (auto simp: name_total_def)
    qed
  qed (simp add: name_total_def)
  have "only_expected (\<lambda>k. 0) Map.empty" by (simp add: only_expected_def)
  from gen [of "\<lambda>k. 0" _ "\<lambda>k. 0"] this show ?thesis unfolding planted_def by simp
qed

text \<open>The totals over the surviving entries, which are all of them when the keys differ.\<close>

lemma name_total_mset: "mset es = mset es' \<Longrightarrow> name_total ks es k = name_total ks es' k"
proof -
  assume "mset es = mset es'"
  then have "mset (map (\<lambda>e. count_list (ks e) k) (filter isExpectedVerificationEntry es)) =
      mset (map (\<lambda>e. count_list (ks e) k) (filter isExpectedVerificationEntry es'))"
    by (simp add: mset_filter)
  then show ?thesis unfolding name_total_def by (metis sum_mset_sum_list)
qed

lemma coverage_balance:
  assumes step: "\<And>e ms v. cov (verify_entry e ms v) =
      (if isExpectedVerificationEntry e then tally (hit ms) (ks e) (cov v) else cov v)"
    and start: "only_expected (name_total ks (surviving entries)) (cov v)"
    and es: "mset es = mset (surviving entries)" and k: "k \<in> dom (cov v)"
  shows "\<exists>s. cov (pass fs es v) k = Some s \<and> cs_Expected s = cs_Found s + cs_Missed s"
proof -
  let ?n = "name_total ks (surviving entries) k"
  have "cov v k = (if ?n = 0 then None
      else Some \<lparr>cs_Name = k, cs_Expected = ?n, cs_Found = 0, cs_Missed = 0\<rparr>)"
    using start unfolding only_expected_def by blast
  with k obtain s where s: "cov v k = Some s" "cs_Expected s = ?n" "cs_Found s = 0" "cs_Missed s = 0"
    by (cases "?n = 0") auto
  from tallied_sum [of cov, OF step s(1), of fs es] show ?thesis
    using s(2-) name_total_mset [OF es, of ks k] by auto
qed

definition class_total :: "ExpectedClassSummary \<Rightarrow> nat" where
  "class_total s = ec_Detected s + ec_Missed s"

text \<open>A class summary is balanced: every judged entry has one verdict.\<close>

definition class_balanced :: "ExpectedClassSummary \<Rightarrow> bool" where
  "class_balanced s \<longleftrightarrow>
     ec_Matched s + ec_Mismatched s = class_total s \<and>
     ec_Matched s = ec_Suppressed s + ec_Downgraded s + ec_Promoted s"

lemma verdict_status: "fst (class_verdict ob e c) \<noteq> NoStatus"
  by (simp add: class_verdict_def)

lemma class_status_known:
  "normalizeExpectedClass (se_ExpectedClass e) \<noteq> [] \<Longrightarrow> cv_Status (evaluateExpectedClass e ms) \<noteq> NoStatus"
  using verdict_status [of "summarizeObservedFindings ms" e "normalizeExpectedClass (se_ExpectedClass e)"]
  by (simp add: evaluateExpectedClass_def Let_def case_prod_beta)

lemma count_class_balanced:
  "class_balanced s \<Longrightarrow> status \<noteq> NoStatus \<Longrightarrow>
   class_balanced (count_class d status s) \<and> class_total (count_class d status s) = class_total s + 1 \<and>
   ec_Planted (count_class d status s) = ec_Planted s"
  by (cases status) (auto simp: count_class_def class_balanced_def class_total_def Let_def)

definition entry_class :: "SeedManifestEntry \<Rightarrow> string list" where
  "entry_class e =
     (let c = normalizeExpectedClass (se_ExpectedClass e) in if c = [] then [] else [c])"

lemma verify_class_classes:
  "vf_Classes (verify_class e ms v) =
     (let c = normalizeExpectedClass (se_ExpectedClass e) in
      if c = [] then vf_Classes v
      else (vf_Classes v)(c :=
        map_option (count_class (ms \<noteq> []) (cv_Status (evaluateExpectedClass e ms))) (vf_Classes v c)))"
  by (cases "vf_Classes v (normalizeExpectedClass (se_ExpectedClass e))")
     (simp_all add: verify_class_def Let_def fun_upd_idem)

lemma verify_entry_class_step:
  "vf_Classes (verify_entry e ms v) =
     (if isExpectedVerificationEntry e then vf_Classes (verify_class e ms v) else vf_Classes v)"
  by (simp add: verify_entry_def Let_def)

lemmas verify_entry_classes = verify_entry_class_step verify_class_classes Let_def

lemma classes_balanced:
  assumes "vf_Classes v k = Some s" and "class_balanced s"
  shows "\<exists>s'. vf_Classes (pass fs es v) k = Some s' \<and> class_balanced s' \<and> ec_Planted s' = ec_Planted s \<and>
     class_total s' = class_total s + name_total entry_class es k"
  using assms
proof (induction es arbitrary: v s)
  case (Cons e es)
  let ?ms = "entry_matches fs e" and ?c = "normalizeExpectedClass (se_ExpectedClass e)"
  have "\<exists>s1. vf_Classes (verify_entry e ?ms v) k = Some s1 \<and> class_balanced s1 \<and> ec_Planted s1 = ec_Planted s \<and>
      class_total s1 = class_total s +
        (if isExpectedVerificationEntry e then count_list (entry_class e) k else 0)"
    using Cons.prems count_class_balanced [OF Cons.prems(2) class_status_known [of e ?ms], of "?ms \<noteq> []"]
    by (cases "isExpectedVerificationEntry e \<and> ?c \<noteq> []"; cases "k = ?c")
       (auto simp: verify_entry_classes entry_class_def Let_def)
  then obtain s1 where s1: "vf_Classes (verify_entry e ?ms v) k = Some s1" "class_balanced s1"
    "ec_Planted s1 = ec_Planted s" "class_total s1 = class_total s +
        (if isExpectedVerificationEntry e then count_list (entry_class e) k else 0)" by blast
  from Cons.IH [OF s1(1,2)] show ?case using s1(3,4) by (auto simp: name_total_def)
qed (simp add: name_total_def)

lemma planted_classes:
  "pl_Classes (planted es) k = Some s \<Longrightarrow>
   class_balanced s \<and> class_total s = 0 \<and>
   ec_Planted s = name_total entry_class (filter (\<lambda>e. manifestKey e \<noteq> []) es) k"
proof -
  have gen: "pl_Classes (foldl plant p es) k = (let n = name_total entry_class (filter (\<lambda>e. manifestKey e \<noteq> []) es) k in
      if n = 0 then pl_Classes p k
      else Some (case pl_Classes p k of
          None \<Rightarrow> \<lparr>ec_ExpectedClass = k, ec_Planted = n, ec_Detected = 0, ec_Missed = 0, ec_Matched = 0,
             ec_Suppressed = 0, ec_Downgraded = 0, ec_Promoted = 0, ec_Mismatched = 0\<rparr>
        | Some s \<Rightarrow> s\<lparr>ec_Planted := ec_Planted s + n\<rparr>))" for p
  proof (induction es arbitrary: p)
    case (Cons e es)
    let ?c = "normalizeExpectedClass (se_ExpectedClass e)"
    have "pl_Classes (plant p e) k =
        (if manifestKey e \<noteq> [] \<and> isExpectedVerificationEntry e \<and> ?c \<noteq> [] \<and> k = ?c
         then add_planted ?c (pl_Classes p) k else pl_Classes p k)"
      by (auto simp: plant_def Let_def add_planted_def)
    then show ?case
      by (auto simp: Cons.IH Let_def name_total_def entry_class_def add_planted_def split: option.split)
  qed (simp add: name_total_def Let_def)
  assume "pl_Classes (planted es) k = Some s"
  then show ?thesis unfolding planted_def gen
    by (auto simp: Let_def class_balanced_def class_total_def split: if_splits)
qed

text \<open>
  C16: The coverage adds up, in whatever order the maps are visited. When no two entries of the manifest have the same
  host, share and path, what is expected of a category, of a signal type or of a class is what was found of
  it and what was missed, and each file planted for a class has exactly one verdict.
\<close>

theorem coverage_adds_up:
  assumes "orders_ok ord findings entries"
    and "distinct (map manifestKey (filter (\<lambda>e. manifestKey e \<noteq> []) entries))"
  shows "(\<forall>s \<in> set (vr_Coverage (verifyFindings ord findings entries)) \<union>
        set (vr_SignalCoverage (verifyFindings ord findings entries)).
      cs_Expected s = cs_Found s + cs_Missed s) \<and>
    (\<forall>s \<in> set (vr_ClassCoverage (verifyFindings ord findings entries)).
      ec_Planted s = ec_Detected s + ec_Missed s \<and> ec_Planted s = ec_Matched s + ec_Mismatched s \<and>
      ec_Matched s = ec_Suppressed s + ec_Downgraded s + ec_Promoted s)"
proof -
  let ?S = "surviving entries"
  have S: "?S = filter (\<lambda>e. manifestKey e \<noteq> []) entries" by (rule surviving_id [OF assms(2)])
  obtain es v where es: "mset es = mset ?S" and v: "verify_pass ord findings entries = pass findings es v"
    and start: "vf_Coverage v = pl_Coverage (planted entries)" "vf_Signals v = pl_Signals (planted entries)"
      "vf_Classes v = pl_Classes (planted entries)"
    using verify_pass_order [of ord entries findings] assms(1) by (auto simp: orders_ok_def)
  have dom: "set (vo_Coverage ord) = dom (vf_Coverage v)" "set (vo_Signals ord) = dom (vf_Signals v)"
    "set (vo_Classes ord) = dom (vf_Classes v)"
    using assms(1) start by (auto simp: orders_ok_def map_order_def)
  have cov: "cs_Expected (the (vf_Coverage (pass findings es v) k)) =
      cs_Found (the (vf_Coverage (pass findings es v) k)) + cs_Missed (the (vf_Coverage (pass findings es v) k))"
    if "k \<in> set (vo_Coverage ord)" for k
    using coverage_balance [of vf_Coverage, OF verify_entry_coverage(1), of entries v es k findings]
      planted_coverage [of entries] that S start dom es by auto
  have sig: "cs_Expected (the (vf_Signals (pass findings es v) k)) =
      cs_Found (the (vf_Signals (pass findings es v) k)) + cs_Missed (the (vf_Signals (pass findings es v) k))"
    if "k \<in> set (vo_Signals ord)" for k
    using coverage_balance [of vf_Signals, OF verify_entry_coverage(2), of entries v es k findings]
      planted_coverage [of entries] that S start dom es by auto
  have cls: "\<exists>s. vf_Classes (pass findings es v) k = Some s \<and> class_balanced s \<and> ec_Planted s = class_total s"
    if k: "k \<in> set (vo_Classes ord)" for k
  proof -
    obtain s where s: "vf_Classes v k = Some s" using k dom by auto
    have p: "class_balanced s" "class_total s = 0" "ec_Planted s = name_total entry_class ?S k"
      using planted_classes [of entries k s] s start S by auto
    from classes_balanced [OF s p(1), of findings es] show ?thesis
      using p name_total_mset [OF es, of entry_class k] by auto
  qed
  show ?thesis
    using cov sig cls
    by (fastforce simp: verifyFindings_def Let_def v class_balanced_def class_total_def)
qed
subsection \<open>Examples\<close>

definition demo_seed_entry :: "string \<Rightarrow> string \<Rightarrow> SeedManifestEntry" where
  "demo_seed_entry path intended =
     \<lparr>se_Host = ''srv'', se_Share = ''lab'', se_Path = path, se_Category = ''configs'', se_Format = ''txt'',
      se_IntendedAs = intended, se_ExpectedClass = ''actionable'', se_ExpectedTriageClass = [],
      se_ExpectedConfidence = ''high'', se_ExpectedCorrelated = False, se_ExpectedSignalTypes = [''content''],
      se_ExpectedTags = [], se_ExpectedRuleThemes = [], se_ExpectedSeverity = ''high'', se_Status = ''written''\<rparr>"

definition demo_seed_finding :: "string \<Rightarrow> string \<Rightarrow> Finding" where
  "demo_seed_finding path severity =
     zero_finding\<lparr>f_Severity := severity, f_Confidence := ''high'', f_Actionable := True, f_FilePath := path,
       f_Share := ''lab'', f_Host := ''srv'', f_SignalType := ''content''\<rparr>"

definition demo_entries :: "SeedManifestEntry list" where
  "demo_entries = [demo_seed_entry ''Lab/a.txt'' ''likely-hit'', demo_seed_entry ''Lab/b.txt'' ''filler/noise'']"

definition demo_findings :: "Finding list" where
  "demo_findings = [demo_seed_finding ''lab/A.txt'' ''high'', demo_seed_finding ''c.txt'' ''low'']"

definition demo_orders :: verify_orders where
  "demo_orders =
     \<lparr>vo_Manifest = [''srv::lab::lab/b.txt'', ''srv::lab::lab/a.txt''],
      vo_Findings = [''srv::lab::c.txt'', ''srv::lab::lab/a.txt''], vo_Coverage = [''configs''],
      vo_Signals = [''content''], vo_Classes = [''actionable'']\<rparr>"

lemma demo_verify_keys:
  "map manifestKey demo_entries = [''srv::lab::lab/a.txt'', ''srv::lab::lab/b.txt'']"
  "map findingKey demo_findings = [''srv::lab::lab/a.txt'', ''srv::lab::c.txt'']"
  "map isExpectedVerificationEntry demo_entries = [True, False]"
  "map (\<lambda>e. normalizeExpectedClass (se_ExpectedClass e)) demo_entries = [''actionable'', ''actionable'']"
  "map (\<lambda>e. normalizedCategory (se_Category e)) demo_entries = [''configs'', ''configs'']"
  "map entry_signals demo_entries = [[''content''], [''content'']]"
  by code_simp+

lemma demo_orders_ok: "orders_ok demo_orders demo_findings demo_entries"
proof -
  have "dom (pl_ByKey (planted demo_entries)) = {''srv::lab::lab/a.txt'', ''srv::lab::lab/b.txt''}"
    using demo_verify_keys(1) by (auto simp: planted_def plant_by_key demo_entries_def)
  moreover have "dom (pl_Coverage (planted demo_entries)) = {''configs''}"
    "dom (pl_Signals (planted demo_entries)) = {''content''}"
    "dom (pl_Classes (planted demo_entries)) = {''actionable''}"
    using demo_verify_keys by (auto simp: planted_def plant_def Let_def demo_entries_def add_expected_def add_planted_def)
  moreover have "dom (findings_by_key demo_findings) = {''srv::lab::lab/a.txt'', ''srv::lab::c.txt''}"
    unfolding dom_findings_by_key using demo_verify_keys(2) by (auto simp: demo_findings_def)
  ultimately show ?thesis by (auto simp: orders_ok_def map_order_def demo_orders_def)
qed


lemma coverage_adds_up_witness:
  "\<exists>c. vr_Coverage (verifyFindings demo_orders demo_findings demo_entries) = [c] \<and>
     cs_Name c = ''configs'' \<and> cs_Expected c = 1 \<and> cs_Expected c = cs_Found c + cs_Missed c"
proof -
  let ?v = "verifyFindings demo_orders demo_findings demo_entries"
  let ?c = "\<lparr>cs_Name = ''configs'', cs_Expected = 1, cs_Found = 1, cs_Missed = 0\<rparr>"
  have v: "vr_Coverage ?v = [?c]" by code_simp
  have "distinct (map manifestKey (filter (\<lambda>e. manifestKey e \<noteq> []) demo_entries))"
    using demo_verify_keys(1) by (auto simp: demo_entries_def)
  from coverage_adds_up [OF demo_orders_ok this] have "\<forall>s \<in> set (vr_Coverage ?v). cs_Expected s = cs_Found s + cs_Missed s"
    by blast
  then have "cs_Expected ?c = cs_Found ?c + cs_Missed ?c" unfolding v by simp
  with v show ?thesis by (intro exI [of _ ?c]) simp
qed

text \<open>
  Two entries whose paths differ in their case only are one for the comparison, but both are expected: the
  category then expects more than it finds and misses.
\<close>

lemma duplicate_entries_overcounted:
  "vr_Coverage (verifyFindings (demo_orders\<lparr>vo_Manifest := [''srv::lab::lab/a.txt'']\<rparr>) demo_findings
     [demo_seed_entry ''Lab/a.txt'' [], demo_seed_entry ''Lab/A.txt'' []]) =
     [\<lparr>cs_Name = ''configs'', cs_Expected = 2, cs_Found = 1, cs_Missed = 0\<rparr>]"
  "vr_ExpectedItems (verifyFindings (demo_orders\<lparr>vo_Manifest := [''srv::lab::lab/a.txt'']\<rparr>) demo_findings
     [demo_seed_entry ''Lab/a.txt'' [], demo_seed_entry ''Lab/A.txt'' []]) = 1"
  by code_simp+

text \<open>The severity critical ranks below low here, and the findings of an item are ordered by the severity's text.\<close>

lemma critical_ranks_lowest: "seed_severityRank ''critical'' < seed_severityRank ''low''"
  by code_simp

lemma severities_ordered_as_text:
  "map vs_Severity (slice_sort severity_text_less
     (map finding_summary [demo_seed_finding ''a'' ''critical'', demo_seed_finding ''a'' ''high'',
        demo_seed_finding ''a'' ''medium'', demo_seed_finding ''a'' ''low''])) =
   [''medium'', ''low'', ''high'', ''critical'']"
  by code_simp

end
