(* ===== verification/ReportText.thy ===== *)
theory ReportText
  imports Findings GoPath
begin

text \<open>
  What the parts of a report share (\<open>internal/output\<close>): ranks, paths, sets of strings, and the reading of
  assignments, connection strings and accounts out of the evidence of a finding (\<open>creds.go\<close>). A Go map of strings is a
  partial function; a missing key reads as the empty string. \<open>url.Parse\<close> is an argument that gives the parts the code asks for.
\<close>

subsection \<open>Ranks, paths, sets of strings\<close>

definition out_firstNonEmpty :: "string list \<Rightarrow> string" where
  "out_firstNonEmpty vs = (case find (\<lambda>v. trim_space v \<noteq> []) vs of Some v \<Rightarrow> v | None \<Rightarrow> [])"

definition out_severityRank :: "string \<Rightarrow> nat" where
  "out_severityRank s =
     (let v = to_lower s in
      if v = ''critical'' then 4 else if v = ''high'' then 3 else if v = ''medium'' then 2 else if v = ''low'' then 1 else 0)"

definition primarySignal :: "Finding \<Rightarrow> string" where
  "primarySignal f =
     (if trim_space (f_SignalType f) \<noteq> [] then trim_space (f_SignalType f)
      else case f_MatchedSignalTypes f of s # _ \<Rightarrow> trim_space s | [] \<Rightarrow> [])"

definition out_valueOrDash :: "string \<Rightarrow> string" where
  "out_valueOrDash v = (let t = trim_space v in if t = [] then ''-'' else t)"

definition uncPath :: "Finding \<Rightarrow> string" where
  "uncPath f =
     (let path = replace_char CHR ''/'' [CHR 0x5C] (f_FilePath f)
      in if f_Host f = [] \<and> f_Share f = [] then path
         else
           let p = (if path \<noteq> [] \<and> \<not> has_prefix path [CHR 0x5C] then CHR 0x5C # path else path)
           in [CHR 0x5C, CHR 0x5C] @ out_valueOrDash (f_Host f) @ [CHR 0x5C] @ out_valueOrDash (f_Share f) @ p)"

definition cloneFindings :: "Finding list \<Rightarrow> Finding list" where
  "cloneFindings fs = map (\<lambda>f. f\<lparr>f_Tags := f_Tags f\<rparr>) fs"

text \<open>\<open>seen\<close> holds the keys already met.\<close>

fun unique_loop :: "(string \<Rightarrow> string) \<Rightarrow> string set \<Rightarrow> string list \<Rightarrow> string list" where
  "unique_loop key seen [] = []"
| "unique_loop key seen (v # vs) =
     (let value = trim_space v in
      if value = [] \<or> key value \<in> seen then unique_loop key seen vs
      else value # unique_loop key (insert (key value) seen) vs)"

definition uniqueStrings :: "string list \<Rightarrow> string list" where
  "uniqueStrings vs = sort (unique_loop to_lower {} vs)"

definition uniqueSorted :: "string list \<Rightarrow> string list" where
  "uniqueSorted vs = sort (unique_loop (\<lambda>v. v) {} vs)"

definition joinNonEmpty :: "string list \<Rightarrow> string" where
  "joinNonEmpty vs = join [CHR 0x0A] (filter (\<lambda>v. v \<noteq> []) (map trim_space vs))"

text \<open>\<open>strings.Fields\<close>: the maximal runs of characters that are not white space.\<close>

function fields_of :: "string \<Rightarrow> string list" where
  "fields_of s =
     (let r = dropWhile is_space s
      in if r = [] then [] else takeWhile (\<lambda>c. \<not> is_space c) r # fields_of (dropWhile (\<lambda>c. \<not> is_space c) r))"
  by pat_completeness auto
termination
proof (relation "measure length", goal_cases)
  case (2 s r)
  then have h: "\<not> is_space (hd r)" "r \<noteq> []" by (simp_all add: hd_dropWhile)
  then have "length (dropWhile (\<lambda>c. \<not> is_space c) r) < length r"
    by (cases r) (auto simp: le_imp_less_Suc length_dropWhile_le)
  also have "length r \<le> length s" using 2 by (simp add: length_dropWhile_le)
  finally show ?case by simp
qed simp

declare fields_of.simps [simp del]

definition normalizeEvidenceIdentity :: "string \<Rightarrow> string" where
  "normalizeEvidenceIdentity value = join '' '' (fields_of (trim_space value))"

subsection \<open>Assignments\<close>

type_synonym assignments = "string \<rightharpoonup> string"

definition vget :: "assignments \<Rightarrow> string \<Rightarrow> string" where
  "vget m k = (case m k of Some v \<Rightarrow> v | None \<Rightarrow> [])"

definition normalizeAssignmentKey :: "string \<Rightarrow> string" where
  "normalizeAssignmentKey value =
     replace_char CHR ''-'' ''_'' (replace_char CHR '' '' ''_'' (to_lower (trim_space value)))"

definition quotes :: string where "quotes = [CHR 0x22, CHR 0x27]"

text \<open>The body of the loop over the separators: only the first separator found inside the text counts.\<close>

definition assign_part :: "assignments \<Rightarrow> string \<Rightarrow> assignments" where
  "assign_part m part =
     (case List.find (\<lambda>sep. case index_of part [sep] of Some idx \<Rightarrow> idx > 0 | None \<Rightarrow> False) ''=:'' of
        None \<Rightarrow> m
      | Some sep \<Rightarrow>
          let idx = the (index_of part [sep]);
              key = normalizeAssignmentKey (take idx part);
              value = trim_space (trim_set (drop (idx + 1) part) quotes)
          in if key \<noteq> [] \<and> value \<noteq> [] then m(key \<mapsto> value) else m)"

definition assign_parts :: "string list \<Rightarrow> assignments" where
  "assign_parts parts = foldl assign_part Map.empty (filter (\<lambda>p. p \<noteq> []) (map trim_space parts))"

definition parseAssignmentValues :: "string \<Rightarrow> assignments" where
  "parseAssignmentValues text0 =
     assign_parts (split_on CHR 0x0A (replace_all [CHR 0x0D, CHR 0x0A] [CHR 0x0A] text0))"

definition secret_keys :: "string list" where
  "secret_keys = [''password'', ''passord'', ''pwd'', ''db_password'', ''secret'', ''client_secret'', ''shared_secret'',
     ''api_key'', ''apikey'', ''token'', ''access_token'']"

definition bestSecretValue :: "assignments \<Rightarrow> string \<times> string" where
  "bestSecretValue m =
     (case find (\<lambda>k. trim_space (vget m k) \<noteq> []) secret_keys of
        Some k \<Rightarrow> (k, trim_space (vget m k)) | None \<Rightarrow> ([], []))"

definition normalizePotentialAccount :: "string \<Rightarrow> string" where
  "normalizePotentialAccount value0 =
     (let value = trim_space value0 in
      if value = [] then []
      else case find (has_prefix (to_lower value)) [''user ='', ''username ='', ''account ='', ''login =''] of
             Some prefix \<Rightarrow> trim_space (drop (length prefix) value) | None \<Rightarrow> [])"

definition looksPlaceholderCredential :: "string \<Rightarrow> bool" where
  "looksPlaceholderCredential value =
     (let lower = to_lower (trim_space value) in
      lower \<noteq> [] \<and>
      list_ex (contains lower)
        [''changeme'', ''default'', ''demo'', ''dummy'', ''example'', ''fake'', ''placeholder'', ''sample'', ''test''])"

definition awsProfileName :: "Finding \<Rightarrow> string" where
  "awsProfileName f =
     (case find (\<lambda>tag. has_prefix (trim_space tag) ''aws:profile:'') (f_Tags f) of
        Some tag \<Rightarrow> trim_prefix (trim_space tag) ''aws:profile:''
      | None \<Rightarrow>
          let values0 = parseAssignmentValues (joinNonEmpty [f_Context f, f_MatchedText f])
          in out_firstNonEmpty [vget values0 ''profile'', vget values0 ''role_arn''])"

subsection \<open>Connection strings\<close>

record databaseCredential =
  dc_host :: string
  dc_database :: string
  dc_user :: string
  dc_password :: string
  dc_raw :: string

definition no_credential :: databaseCredential where
  "no_credential = \<lparr>dc_host = [], dc_database = [], dc_user = [], dc_password = [], dc_raw = []\<rparr>"

record url_parts =
  ur_Scheme :: string
  ur_Host :: string
  ur_Hostname :: string
  ur_Path :: string
  ur_User :: "(string \<times> string option) option"

definition parseDatabaseURL :: "(string \<Rightarrow> url_parts option) \<Rightarrow> string \<Rightarrow> databaseCredential option" where
  "parseDatabaseURL url raw =
     (let value = trim_space raw;
          v = (if has_prefix (to_lower value) ''jdbc:'' then drop 5 value else value)
      in case url v of
           None \<Rightarrow> None
         | Some parsed \<Rightarrow>
             if ur_Scheme parsed = [] \<or> ur_Host parsed = [] then None
             else (case ur_User parsed of
                 None \<Rightarrow> None
               | Some (username, None) \<Rightarrow> None
               | Some (username, Some password) \<Rightarrow>
                   if trim_space password = [] then None
                   else Some \<lparr>dc_host = ur_Hostname parsed, dc_database = trim_set (trim_space (ur_Path parsed)) ''/'',
                              dc_user = username, dc_password = password, dc_raw = []\<rparr>))"

definition parseDatabaseSemicolonKV :: "string \<Rightarrow> databaseCredential" where
  "parseDatabaseSemicolonKV raw =
     (let m = assign_parts (split_on CHR '';'' raw)
      in \<lparr>dc_host = out_firstNonEmpty [vget m ''server'', vget m ''host'', vget m ''datasource'', vget m ''data_source''],
          dc_database = out_firstNonEmpty [vget m ''database'', vget m ''dbname'', vget m ''initialcatalog'',
            vget m ''initial_catalog'', vget m ''service_name'', vget m ''servicename''],
          dc_user = out_firstNonEmpty [vget m ''user_id'', vget m ''userid'', vget m ''uid'', vget m ''user'', vget m ''username''],
          dc_password = out_firstNonEmpty [vget m ''password'', vget m ''pwd''],
          dc_raw = []\<rparr>)"

definition parseDatabaseCredential :: "(string \<Rightarrow> url_parts option) \<Rightarrow> string \<Rightarrow> databaseCredential" where
  "parseDatabaseCredential url raw0 =
     (let raw = trim_space raw0 in
      if raw = [] then no_credential
      else case parseDatabaseURL url raw of
             Some parsed \<Rightarrow> parsed\<lparr>dc_raw := raw\<rparr>
           | None \<Rightarrow> (parseDatabaseSemicolonKV raw)\<lparr>dc_raw := raw\<rparr>)"


subsection \<open>Maps filled in a loop and visited in any order\<close>

text \<open>
  The keys a loop inserts are listed once each. Go visits them in some order: a rearrangement of that list, an argument of
  the model. \<open>group_by\<close> is the map of the groups: the loop appends each element to the group of its key, if it has one.
\<close>

type_synonym 'k rearrangement = "'k list \<Rightarrow> 'k list"

definition rearranges :: "'k rearrangement \<Rightarrow> bool" where
  "rearranges p \<longleftrightarrow> (\<forall>ks. mset (p ks) = mset ks)"

definition keys_of :: "('a \<Rightarrow> 'k option) \<Rightarrow> 'a list \<Rightarrow> 'k list" where
  "keys_of key xs = remdups (List.map_filter key xs)"

definition add_to_group :: "('a \<Rightarrow> 'k option) \<Rightarrow> ('k \<rightharpoonup> 'a list) \<Rightarrow> 'a \<Rightarrow> ('k \<rightharpoonup> 'a list)" where
  "add_to_group key m x =
     (case key x of None \<Rightarrow> m | Some k \<Rightarrow> m(k \<mapsto> (case m k of None \<Rightarrow> [] | Some g \<Rightarrow> g) @ [x]))"

definition group_by :: "('a \<Rightarrow> 'k option) \<Rightarrow> 'a list \<Rightarrow> ('k \<rightharpoonup> 'a list)" where
  "group_by key xs = foldl (add_to_group key) Map.empty xs"

definition members :: "('a \<Rightarrow> 'k option) \<Rightarrow> 'a list \<Rightarrow> 'k \<Rightarrow> 'a list" where
  "members key xs k = filter (\<lambda>x. key x = Some k) xs"

lemma group_by_members: "group_by key xs k = (if members key xs k = [] then None else Some (members key xs k))"
  by (induction xs rule: rev_induct)
     (auto simp: group_by_def members_def add_to_group_def split: option.splits)

lemma set_keys_of: "set (keys_of key xs) = {k. \<exists>x \<in> set xs. key x = Some k}"
  by (force simp: keys_of_def map_filter_def image_iff)

lemma distinct_keys_of [simp]: "distinct (keys_of key xs)"
  by (simp add: keys_of_def)

lemma members_nonempty: "k \<in> set (keys_of key xs) \<Longrightarrow> members key xs k \<noteq> []"
  by (auto simp: set_keys_of members_def filter_empty_conv)

lemma the_group_by: "k \<in> set (keys_of key xs) \<Longrightarrow> the (group_by key xs k) = members key xs k"
  by (simp add: group_by_members members_nonempty)

lemma rearranges_set: "rearranges p \<Longrightarrow> set (p ks) = set ks"
  unfolding rearranges_def by (metis mset_eq_setD)

lemma rearranges_distinct: "rearranges p \<Longrightarrow> distinct (p ks) = distinct ks"
  unfolding rearranges_def by (metis mset_eq_imp_distinct_iff)

lemma rearranges_id [simp]: "rearranges (\<lambda>ks. ks)"
  by (simp add: rearranges_def)

lemma rearranges_rev [simp]: "rearranges rev"
  by (simp add: rearranges_def)

end
