(* ===== verification/ReportFindings.thy ===== *)
theory ReportFindings
  imports ReportText
begin

text \<open>
  The findings of a report: merging findings with the same evidence (\<open>dedupeReportFindings\<close> of
  \<open>internal/output/correlation_ad.go\<close>) and the groups of findings that show the same material at several places
  (\<open>report_duplicates.go\<close>).
\<close>

subsection \<open>Merging equal findings\<close>

definition norm_text :: "string \<Rightarrow> string" where
  "norm_text s = to_lower (trim_space s)"

definition reportFindingDedupKey :: "Finding \<Rightarrow> string" where
  "reportFindingDedupKey f =
     (let evidence = norm_text (out_firstNonEmpty [f_MatchedTextRedacted f, f_MatchedText f, f_Match f, f_Snippet f])
      in join ''|'' [norm_text (f_RuleID f), norm_text (f_Category f), norm_text (f_Host f), norm_text (f_Share f), norm_text (f_FilePath f),
           norm_text (f_ArchivePath f), norm_text (f_ArchiveMemberPath f), norm_text (f_DatabaseTable f), norm_text (f_DatabaseColumn f),
           itoa (f_LineNumber f), evidence])"

definition betterReportFinding :: "Finding \<Rightarrow> Finding \<Rightarrow> Finding" where
  "betterReportFinding left right =
     (if f_Actionable right \<and> \<not> f_Actionable left then right
      else if f_Correlated right \<and> \<not> f_Correlated left then right
      else if f_ConfidenceScore right > f_ConfidenceScore left then right
      else if out_severityRank (f_Severity right) > out_severityRank (f_Severity left) then right
      else if length (trim_space (f_Context right)) > length (trim_space (f_Context left)) then right
      else left)"

definition dedup_step :: "(string \<rightharpoonup> Finding) \<Rightarrow> Finding \<Rightarrow> (string \<rightharpoonup> Finding)" where
  "dedup_step m f =
     (let key = reportFindingDedupKey f in
      case m key of Some existing \<Rightarrow> m(key \<mapsto> betterReportFinding existing f) | None \<Rightarrow> m(key \<mapsto> f))"

definition dedup_keys :: "Finding list \<Rightarrow> string list" where
  "dedup_keys = keys_of (\<lambda>f. Some (reportFindingDedupKey f))"

definition dedupeReportFindings :: "string rearrangement \<Rightarrow> Finding list \<Rightarrow> Finding list" where
  "dedupeReportFindings order fs =
     (if length fs < 2 then fs
      else let deduped = foldl dedup_step Map.empty fs in map (\<lambda>k. the (deduped k)) (order (dedup_keys fs)))"

subsection \<open>The order of a report\<close>

definition report_less :: "Finding \<Rightarrow> Finding \<Rightarrow> bool" where
  "report_less a b =
     (let left = out_severityRank (f_Severity a); right = out_severityRank (f_Severity b) in
      if left = right then
        (if f_Host a = f_Host b then
           (if f_Share a = f_Share b then f_FilePath a < f_FilePath b else f_Share a < f_Share b)
         else f_Host a < f_Host b)
      else left > right)"

definition report_key :: "Finding \<Rightarrow> int \<times> string \<times> string \<times> string" where
  "report_key f = (- int (out_severityRank (f_Severity f)), f_Host f, f_Share f, f_FilePath f)"

interpretation report_order: key_order report_less report_key
  by unfold_locales (auto simp: report_less_def report_key_def Let_def)

subsection \<open>The same material at several places\<close>

record reportFindingGroup =
  rg_Canonical :: Finding
  rg_Duplicates :: "Finding list"

definition bar :: "string list \<Rightarrow> string" where
  "bar parts = join ''|'' parts"

definition aws_material :: "Finding \<Rightarrow> string option" where
  "aws_material f =
     (let m = parseAssignmentValues (joinNonEmpty [f_MatchedText f, f_Context f]);
          accessKey = trim_space (out_firstNonEmpty [vget m ''aws_access_key_id'', vget m ''access_key'', vget m ''accesskey'']);
          secretKey = trim_space (out_firstNonEmpty [vget m ''aws_secret_access_key'', vget m ''secret_key'', vget m ''secretaccesskey'']);
          sessionToken = trim_space (out_firstNonEmpty [vget m ''aws_session_token'', vget m ''session_token'']);
          profile = trim_space (awsProfileName f)
      in if accessKey \<noteq> [] \<or> secretKey \<noteq> [] then Some (bar [''aws'', accessKey, secretKey, sessionToken, profile]) else None)"

definition db_material :: "(string \<Rightarrow> url_parts option) \<Rightarrow> Finding \<Rightarrow> string option" where
  "db_material url f =
     (let parsed = parseDatabaseCredential url
            (out_firstNonEmpty [trim_space (f_MatchedText f), trim_space (f_Context f), trim_space (f_Match f)])
      in if dc_host parsed \<noteq> [] \<or> dc_database parsed \<noteq> [] \<or> dc_user parsed \<noteq> [] \<or> dc_password parsed \<noteq> [] \<or> dc_raw parsed \<noteq> []
         then Some (bar [''db'', dc_host parsed, dc_database parsed, dc_user parsed, dc_password parsed,
                normalizeEvidenceIdentity (dc_raw parsed)])
         else None)"

definition key_material :: "Finding \<Rightarrow> string option" where
  "key_material f =
     (let v = normalizeEvidenceIdentity (out_firstNonEmpty [f_Context f, f_Snippet f, f_MatchedText f, f_Match f])
      in if v \<noteq> [] then Some (''key|'' @ v) else None)"

definition other_material :: "Finding \<Rightarrow> string" where
  "other_material f =
     (let m = parseAssignmentValues (joinNonEmpty [f_MatchedText f, f_Context f, f_Match f]) in
      case bestSecretValue m of (secretLabel, secretValue) \<Rightarrow>
        if secretValue \<noteq> [] then
          let account = out_firstNonEmpty [vget m ''user'', vget m ''username'', vget m ''uid'', vget m ''userid'',
                normalizePotentialAccount (f_PotentialAccount f)];
              ctx = out_firstNonEmpty [vget m ''host'', vget m ''server'', vget m ''database'', vget m ''dbname'',
                f_DatabaseTable f, f_DatabaseColumn f]
          in bar [''secret'', secretLabel, secretValue, account, ctx]
        else
          let v = normalizeEvidenceIdentity (out_firstNonEmpty [f_MatchedText f, f_Match f, f_Context f, f_Snippet f])
          in if v \<noteq> [] then ''raw|'' @ v else [])"

definition reportFindingMaterialIdentity :: "(string \<Rightarrow> url_parts option) \<Rightarrow> Finding \<Rightarrow> string" where
  "reportFindingMaterialIdentity url f =
     (let ruleID = norm_text (f_RuleID f);
          special = (if ruleID = ''awsinspect.content.credentials_bundle'' then aws_material f
            else if ruleID = ''dbinspect.access.connection_string'' \<or> ruleID = ''dbinspect.access.dsn'' then db_material url f
            else if ruleID = ''keyinspect.content.private_key_header'' then key_material f
            else None)
      in case special of Some v \<Rightarrow> v | None \<Rightarrow> other_material f)"

definition reportDuplicateGroupKey :: "(string \<Rightarrow> url_parts option) \<Rightarrow> Finding \<Rightarrow> string" where
  "reportDuplicateGroupKey url f =
     (let ruleID = norm_text (f_RuleID f) in
      if has_prefix ruleID ''correlation.'' \<or> equal_fold (trim_space (primarySignal f)) ''correlation''
      then ''correlated|'' @ reportFindingDedupKey f
      else
        let material = trim_space (reportFindingMaterialIdentity url f) in
        if material = [] then ''exact|'' @ reportFindingDedupKey f
        else bar [ruleID, norm_text (f_Category f), norm_text (primarySignal f), material])"

definition reportPathPreference :: "Finding \<Rightarrow> int" where
  "reportPathPreference f =
     (if trim_space (f_ArchivePath f) = [] \<and> \<not> contains (f_FilePath f) ''!'' then 2 else 0)
     + (if trim_space (f_DatabaseFilePath f) = [] then 1 else 0)"

definition reportFindingPreferred :: "Finding \<Rightarrow> Finding \<Rightarrow> bool" where
  "reportFindingPreferred candidate cur =
     (if f_Actionable candidate \<noteq> f_Actionable cur then f_Actionable candidate
      else if f_Correlated candidate \<noteq> f_Correlated cur then f_Correlated candidate
      else if f_ConfidenceScore candidate \<noteq> f_ConfidenceScore cur then f_ConfidenceScore candidate > f_ConfidenceScore cur
      else if out_severityRank (f_Severity candidate) \<noteq> out_severityRank (f_Severity cur)
      then out_severityRank (f_Severity candidate) > out_severityRank (f_Severity cur)
      else if length (trim_space (f_Context candidate)) \<noteq> length (trim_space (f_Context cur))
      then length (trim_space (f_Context candidate)) > length (trim_space (f_Context cur))
      else if reportPathPreference candidate \<noteq> reportPathPreference cur
      then reportPathPreference candidate > reportPathPreference cur
      else length (uncPath candidate) < length (uncPath cur))"

text \<open>The code takes the first element; the groups of the caller are not empty.\<close>

fun selectCanonicalReportFinding :: "Finding list \<Rightarrow> Finding option" where
  "selectCanonicalReportFinding [] = None"
| "selectCanonicalReportFinding (f # fs) =
     Some (foldl (\<lambda>best candidate. if reportFindingPreferred candidate best then candidate else best) f fs)"

definition reportLocationKey :: "Finding \<Rightarrow> string" where
  "reportLocationKey f =
     bar [norm_text (f_Host f), norm_text (f_Share f), norm_text (f_FilePath f), norm_text (f_ArchivePath f), norm_text (f_ArchiveMemberPath f),
       norm_text (f_DatabaseFilePath f), norm_text (f_DatabaseTable f), norm_text (f_DatabaseColumn f)]"

fun location_loop :: "string set \<Rightarrow> Finding list \<Rightarrow> Finding list" where
  "location_loop seen [] = []"
| "location_loop seen (f # fs) =
     (let key = reportLocationKey f in
      if key \<in> seen then location_loop seen fs else f # location_loop (insert key seen) fs)"

definition collectDuplicateLocations :: "Finding list \<Rightarrow> Finding \<Rightarrow> Finding list" where
  "collectDuplicateLocations fs canonical =
     slice_sort (\<lambda>a b. uncPath a < uncPath b) (location_loop {reportLocationKey canonical} fs)"

definition report_group :: "Finding list \<Rightarrow> reportFindingGroup option" where
  "report_group grouped =
     (case selectCanonicalReportFinding grouped of
        None \<Rightarrow> None
      | Some canonical \<Rightarrow>
          Some \<lparr>rg_Canonical = canonical, rg_Duplicates = collectDuplicateLocations grouped canonical\<rparr>)"

text \<open>\<open>None\<close> stands for the failure of the index into an empty group.\<close>

definition groupDuplicateReportFindings ::
  "(string \<Rightarrow> url_parts option) \<Rightarrow> string rearrangement \<Rightarrow> Finding list \<Rightarrow> reportFindingGroup list option" where
  "groupDuplicateReportFindings url order fs =
     (if length fs = 0 then Some []
      else
        let key = (\<lambda>f. Some (reportDuplicateGroupKey url f)); buckets = group_by key fs in
        map_option (slice_sort (\<lambda>a b. report_less (rg_Canonical a) (rg_Canonical b)))
          (those (map (\<lambda>k. report_group (the (buckets k))) (order (keys_of key fs)))))"

definition duplicateScopeText :: "Finding \<Rightarrow> Finding list \<Rightarrow> string" where
  "duplicateScopeText canonical duplicates =
     trim_space (join '' '' (concat (map (\<lambda>f. [trim_space (f_Host f), trim_space (f_Share f)]) (canonical # duplicates))))"

definition duplicateSearchText :: "string \<Rightarrow> Finding list \<Rightarrow> string" where
  "duplicateSearchText base duplicates =
     (if length duplicates = 0 then trim_space base
      else trim_space (join '' '' (trim_space base # concat (map (\<lambda>f. [uncPath f, trim_space (f_FilePath f),
             trim_space (f_ArchivePath f), trim_space (f_ArchiveMemberPath f)]) duplicates))))"

subsection \<open>Merging keeps one finding of each key\<close>

lemma better_cases: "betterReportFinding l r = l \<or> betterReportFinding l r = r"
  by (simp add: betterReportFinding_def)

lemma foldl_better_in: "foldl betterReportFinding f fs \<in> set (f # fs)"
proof (induction fs arbitrary: f)
  case (Cons g fs)
  from Cons [of "betterReportFinding f g"] show ?case using better_cases [of f g] by auto
qed simp

definition merged :: "Finding list \<Rightarrow> Finding" where
  "merged g = foldl betterReportFinding (hd g) (tl g)"

abbreviation same_evidence :: "Finding list \<Rightarrow> string \<Rightarrow> Finding list" where
  "same_evidence \<equiv> members (\<lambda>f. Some (reportFindingDedupKey f))"

lemma deduped_merged:
  "foldl dedup_step Map.empty fs k = (if same_evidence fs k = [] then None else Some (merged (same_evidence fs k)))"
  by (induction fs rule: rev_induct) (auto simp: members_def dedup_step_def merged_def Let_def split: option.splits)

lemma merged_in: "g \<noteq> [] \<Longrightarrow> merged g \<in> set g"
  using foldl_better_in [of "hd g" "tl g"] by (cases g) (auto simp: merged_def)

lemma merged_of_key:
  "k \<in> set (dedup_keys fs) \<Longrightarrow> merged (same_evidence fs k) \<in> set fs \<and> reportFindingDedupKey (merged (same_evidence fs k)) = k"
  using merged_in [of "same_evidence fs k"] members_nonempty [of k "\<lambda>f. Some (reportFindingDedupKey f)" fs]
  by (auto simp: dedup_keys_def members_def)

lemma dedup_long:
  assumes "rearranges order" and "\<not> length fs < 2"
  shows "dedupeReportFindings order fs = map (\<lambda>k. merged (same_evidence fs k)) (order (dedup_keys fs))"
  using assms members_nonempty [of _ "\<lambda>f. Some (reportFindingDedupKey f)" fs]
  by (auto simp: dedupeReportFindings_def deduped_merged rearranges_set dedup_keys_def Let_def)

lemma dedup_sound: "rearranges order \<Longrightarrow> set (dedupeReportFindings order fs) \<subseteq> set fs"
  using merged_of_key [of _ fs]
  by (cases "length fs < 2") (auto simp: dedup_long rearranges_set, simp add: dedupeReportFindings_def)

lemma dedup_keys_once:
  assumes "rearranges order"
  shows "mset (map reportFindingDedupKey (dedupeReportFindings order fs)) = mset (dedup_keys fs)"
proof (cases "length fs < 2")
  case True
  then show ?thesis
    by (cases fs) (auto simp: dedupeReportFindings_def dedup_keys_def keys_of_def map_filter_def length_Suc_conv)
next
  case False
  have "map reportFindingDedupKey (dedupeReportFindings order fs) = order (dedup_keys fs)"
    using False merged_of_key by (auto simp: dedup_long assms rearranges_set comp_def intro!: map_idI)
  then show ?thesis using assms by (simp add: rearranges_def)
qed

lemma set_dedup_keys: "set (dedup_keys fs) = reportFindingDedupKey ` set fs"
  by (auto simp: dedup_keys_def set_keys_of)

lemma dedup_distinct: "rearranges order \<Longrightarrow> distinct (map reportFindingDedupKey (dedupeReportFindings order fs))"
  using mset_eq_imp_distinct_iff [OF dedup_keys_once] by (simp add: dedup_keys_def)

lemma dedup_complete:
  "rearranges order \<Longrightarrow> reportFindingDedupKey ` set (dedupeReportFindings order fs) = reportFindingDedupKey ` set fs"
  using mset_eq_setD [OF dedup_keys_once [of order fs]] by (simp add: set_dedup_keys)

subsection \<open>The preference of a group\<close>

definition preference_key :: "Finding \<Rightarrow> bool \<times> bool \<times> int \<times> int \<times> int \<times> int \<times> nat" where
  "preference_key f =
     (\<not> f_Actionable f, \<not> f_Correlated f, - f_ConfidenceScore f, - int (out_severityRank (f_Severity f)),
      - int (length (trim_space (f_Context f))), - reportPathPreference f, length (uncPath f))"

interpretation preferred: key_order reportFindingPreferred preference_key
  by unfold_locales (auto simp: reportFindingPreferred_def preference_key_def)

context key_order
begin

text \<open>Taking each smaller element in turn ends with a smallest one, since the comparison orders by a key.\<close>

lemma foldl_least:
  "foldl (\<lambda>b c. if lt c b then c else b) x xs \<in> set (x # xs) \<and>
   (\<forall>y \<in> set (x # xs). \<not> lt y (foldl (\<lambda>b c. if lt c b then c else b) x xs))"
proof (induction xs rule: rev_induct)
  case (snoc y xs)
  then show ?case by (auto simp: less_key not_less dest: less_le_trans)
qed (simp add: less_key)

end

subsection \<open>Groups account for every place\<close>

lemma canonical_best:
  assumes "g \<noteq> []"
  obtains c where "selectCanonicalReportFinding g = Some c" "c \<in> set g" "\<forall>f \<in> set g. \<not> reportFindingPreferred f c"
  using assms preferred.foldl_least by (cases g) auto

lemma location_loop_exact:
  "set (location_loop seen fs) \<subseteq> set fs \<and> distinct (map reportLocationKey (location_loop seen fs)) \<and>
   reportLocationKey ` set (location_loop seen fs) = reportLocationKey ` set fs - seen"
  by (induction fs arbitrary: seen) (auto simp: Let_def)

lemma duplicates_exact:
  assumes "c \<in> set g"
  shows "set (collectDuplicateLocations g c) \<subseteq> set g"
    and "distinct (map reportLocationKey (c # collectDuplicateLocations g c))"
    and "reportLocationKey ` set (c # collectDuplicateLocations g c) = reportLocationKey ` set g"
proof -
  let ?l = "location_loop {reportLocationKey c} g"
  note l = location_loop_exact [of "{reportLocationKey c}" g]
  show "set (collectDuplicateLocations g c) \<subseteq> set g" using l by (simp add: collectDuplicateLocations_def)
  have "distinct (map reportLocationKey (collectDuplicateLocations g c))"
    using l mset_eq_imp_distinct_iff [of "map reportLocationKey (collectDuplicateLocations g c)" "map reportLocationKey ?l"]
    by (simp add: collectDuplicateLocations_def)
  then show "distinct (map reportLocationKey (c # collectDuplicateLocations g c))"
    using l by (auto simp: collectDuplicateLocations_def)
  show "reportLocationKey ` set (c # collectDuplicateLocations g c) = reportLocationKey ` set g"
    using l assms by (auto simp: collectDuplicateLocations_def)
qed

interpretation group_order: key_order "\<lambda>a b. report_less (rg_Canonical a) (rg_Canonical b)" "\<lambda>g. report_key (rg_Canonical g)"
  by unfold_locales (rule report_order.less_key)

text \<open>What a group of the findings with one key is.\<close>

definition group_ok :: "(string \<Rightarrow> url_parts option) \<Rightarrow> Finding list \<Rightarrow> reportFindingGroup \<Rightarrow> bool" where
  "group_ok url fs g \<longleftrightarrow>
     (let c = rg_Canonical g; same = filter (\<lambda>f. reportDuplicateGroupKey url f = reportDuplicateGroupKey url c) fs in
      c \<in> set fs \<and> (\<forall>f \<in> set same. \<not> reportFindingPreferred f c) \<and>
      set (rg_Duplicates g) \<subseteq> set same \<and>
      distinct (map reportLocationKey (c # rg_Duplicates g)) \<and>
      reportLocationKey ` set (c # rg_Duplicates g) = reportLocationKey ` set same)"

abbreviation same_material :: "(string \<Rightarrow> url_parts option) \<Rightarrow> Finding list \<Rightarrow> string \<Rightarrow> Finding list" where
  "same_material url \<equiv> members (\<lambda>f. Some (reportDuplicateGroupKey url f))"

lemma report_group_ok:
  assumes "k \<in> set (keys_of (\<lambda>f. Some (reportDuplicateGroupKey url f)) fs)"
  obtains g where "report_group (same_material url fs k) = Some g" "group_ok url fs g"
    "reportDuplicateGroupKey url (rg_Canonical g) = k"
proof -
  let ?s = "same_material url fs k"
  obtain c where c: "selectCanonicalReportFinding ?s = Some c" "c \<in> set ?s" "\<forall>f \<in> set ?s. \<not> reportFindingPreferred f c"
    using canonical_best [OF members_nonempty [OF assms]] .
  let ?g = "\<lparr>rg_Canonical = c, rg_Duplicates = collectDuplicateLocations ?s c\<rparr>"
  have k: "reportDuplicateGroupKey url c = k" "c \<in> set fs" using c(2) by (simp_all add: members_def)
  have same: "filter (\<lambda>f. reportDuplicateGroupKey url f = reportDuplicateGroupKey url c) fs = ?s"
    using k by (simp add: members_def)
  have "group_ok url fs ?g"
    unfolding group_ok_def Let_def reportFindingGroup.simps same
    using k(2) c(3) duplicates_exact [OF c(2)] by blast
  with that [of ?g] c(1) k show thesis by (simp add: report_group_def)
qed

lemma those_map:
  assumes "\<And>x. x \<in> set xs \<Longrightarrow> h x = Some (g x)"
  shows "those (map h xs) = Some (map g xs)"
  using assms by (induction xs) auto

text \<open>
  C22: The groups of a report, whatever the order in which Go visits its map. Grouping does not fail. There is one group
  for each kind of material met, so no finding is dropped: the material of each finding has a group. Within a group the
  canonical finding is one of the findings with this material, and none of them is preferred to it; the canonical
  finding and the duplicates list each place where the material was found exactly once. The groups come by falling
  severity.
\<close>

theorem groups_exact:
  assumes "rearranges order"
  shows "\<exists>groups. groupDuplicateReportFindings url order fs = Some groups \<and>
    distinct (map (\<lambda>g. reportDuplicateGroupKey url (rg_Canonical g)) groups) \<and>
    (\<lambda>g. reportDuplicateGroupKey url (rg_Canonical g)) ` set groups = reportDuplicateGroupKey url ` set fs \<and>
    (\<forall>g \<in> set groups. group_ok url fs g) \<and>
    sorted (map (\<lambda>g. report_key (rg_Canonical g)) groups)"
proof -
  let ?key = "\<lambda>f. Some (reportDuplicateGroupKey url f)" and ?gk = "\<lambda>g. reportDuplicateGroupKey url (rg_Canonical g)"
  let ?ks = "order (keys_of ?key fs)"
  obtain mk where mk: "\<And>k. k \<in> set (keys_of ?key fs) \<Longrightarrow>
      report_group (same_material url fs k) = Some (mk k) \<and> group_ok url fs (mk k) \<and> ?gk (mk k) = k"
  proof -
    have "\<forall>k \<in> set (keys_of ?key fs). \<exists>g. report_group (same_material url fs k) = Some g \<and> group_ok url fs g \<and> ?gk g = k"
      by (intro ballI) (rule report_group_ok, assumption, blast)
    from bchoice [OF this] that show thesis by blast
  qed
  let ?gs = "slice_sort (\<lambda>a b. report_less (rg_Canonical a) (rg_Canonical b)) (map mk ?ks)"
  have ks: "set ?ks = set (keys_of ?key fs)" using assms by (rule rearranges_set)
  have dist: "distinct ?ks" using rearranges_distinct [OF assms] by simp
  have m: "those (map (\<lambda>k. report_group (the (group_by ?key fs k))) ?ks) = Some (map mk ?ks)"
  proof (rule those_map)
    fix k assume "k \<in> set ?ks"
    then have k: "k \<in> set (keys_of ?key fs)" using ks by simp
    show "report_group (the (group_by ?key fs k)) = Some (mk k)"
      unfolding the_group_by [OF k] using mk [OF k] by (rule conjunct1)
  qed
  have r: "groupDuplicateReportFindings url order fs = Some ?gs"
  proof (cases "length fs = 0")
    case True
    have "mset (order []) = mset ([] :: string list)" using assms unfolding rearranges_def by blast
    with True show ?thesis by (simp add: groupDuplicateReportFindings_def keys_of_def map_filter_def)
  next
    case False
    then show ?thesis unfolding groupDuplicateReportFindings_def Let_def m by simp
  qed
  have km: "map ?gk (map mk ?ks) = ?ks"
    unfolding map_map using ks mk by (intro map_idI) (simp only: comp_apply)
  have mm: "mset (map ?gk ?gs) = mset ?ks" unfolding mset_map mset_slice_sort
    using arg_cong [OF km, of mset] unfolding mset_map .
  show ?thesis
  proof (intro exI conjI)
    show "groupDuplicateReportFindings url order fs = Some ?gs" by (rule r)
    show "distinct (map ?gk ?gs)" using mset_eq_imp_distinct_iff [OF mm] dist by simp
    have "?gk ` set ?gs = set ?ks" using mset_eq_setD [OF mm] by simp
    then show "?gk ` set ?gs = reportDuplicateGroupKey url ` set fs" by (auto simp: ks set_keys_of)
    show "\<forall>g \<in> set ?gs. group_ok url fs g"
      unfolding set_slice_sort set_map ks using mk by blast
    show "sorted (map (\<lambda>g. report_key (rg_Canonical g)) ?gs)" by (rule group_order.ordered)
  qed
qed

subsection \<open>Concrete reports\<close>

definition note_at :: "string \<Rightarrow> Finding" where
  "note_at host = zero_finding\<lparr>f_RuleID := ''content.password_assignment_indicators'', f_Category := ''credentials'',
     f_Severity := ''high'', f_Host := host, f_Share := ''data'', f_FilePath := ''notes/site.txt'', f_SignalType := ''content'',
     f_MatchedText := ''password=Vinter24'', f_Actionable := True\<rparr>"

lemma note_material:
  "reportDuplicateGroupKey (\<lambda>u. None) (note_at ''alpha'') =
     ''content.password_assignment_indicators|credentials|content|secret|password|Vinter24||''"
  "reportDuplicateGroupKey (\<lambda>u. None) (note_at ''beta'') =
     ''content.password_assignment_indicators|credentials|content|secret|password|Vinter24||''"
  by code_simp+

theorem groups_exact_witness:
  "\<exists>groups. groupDuplicateReportFindings (\<lambda>u. None) rev [note_at ''alpha'', note_at ''beta''] = Some groups \<and>
     (\<lambda>g. reportDuplicateGroupKey (\<lambda>u. None) (rg_Canonical g)) ` set groups =
       {''content.password_assignment_indicators|credentials|content|secret|password|Vinter24||''} \<and>
     (\<forall>g \<in> set groups. group_ok (\<lambda>u. None) [note_at ''alpha'', note_at ''beta''] g)"
  using groups_exact [OF rearranges_rev, of "\<lambda>u. None" "[note_at ''alpha'', note_at ''beta'']"]
  unfolding list.set image_insert image_empty note_material by auto

text \<open>
  Which of two findings with the same evidence survives the merge depends on which is met first: a finding with the smaller
  score replaces the better one by its severity, and the other way round by its score.
\<close>

lemma merge_depends_on_order:
  "\<exists>a b. f_ConfidenceScore a < f_ConfidenceScore b \<and> betterReportFinding a b = b \<and> betterReportFinding b a = a \<and> a \<noteq> b"
  by (intro exI [of _ "zero_finding\<lparr>f_Severity := ''high'', f_ConfidenceScore := 40\<rparr>"]
       exI [of _ "zero_finding\<lparr>f_Severity := ''low'', f_ConfidenceScore := 80\<rparr>"] conjI; code_simp)

lemma quoted_value_keeps_quote:
  "vget (parseAssignmentValues (''password = '' @ [CHR 0x22] @ ''Vinter24'' @ [CHR 0x22])) ''password'' = [CHR 0x22] @ ''Vinter24''"
  by code_simp

end
