(* ===== verification/ReportCorrelation.thy ===== *)
theory ReportCorrelation
  imports ReportFindings Inspectors Smb
begin

text \<open>
  The correlated findings of a report: artifacts that belong together when they lie in the same place
  (\<open>internal/output/correlation_ad.go\<close>, \<open>correlation_aws.go\<close>, \<open>correlation_access.go\<close>, \<open>correlation_browser.go\<close>,
  \<open>correlation_wincred.go\<close>, \<open>correlation_backup.go\<close>, \<open>correlation_sqlite.go\<close>) and
  \<open>augmentFindingsForReporting\<close>, which adds them to the findings of a scan. The orders in which Go visits the maps are
  arguments. \<open>None\<close> is the failure of an index into an empty slice.
\<close>

subsection \<open>The best finding of several\<close>

definition anchor_step :: "Finding \<Rightarrow> Finding \<Rightarrow> Finding" where
  "anchor_step best f =
     (if f_ConfidenceScore f > f_ConfidenceScore best then f
      else if out_severityRank (f_Severity f) > out_severityRank (f_Severity best) then f
      else if f_FilePath f < f_FilePath best then f
      else best)"

fun selectBestCorrelationAnchor :: "Finding list \<Rightarrow> Finding option" where
  "selectBestCorrelationAnchor [] = None"
| "selectBestCorrelationAnchor (f # fs) = Some (foldl anchor_step f fs)"

definition correlationFindingKey :: "Finding \<Rightarrow> string" where
  "correlationFindingKey f =
     norm_text (f_Host f) @ ''::'' @ norm_text (f_Share f) @ ''::'' @ norm_text (f_FilePath f) @ ''::'' @ norm_text (f_RuleID f)"

subsection \<open>What the correlated findings have in common\<close>

type_synonym place = "string \<times> string \<times> string"

definition artifact_signal :: "string \<Rightarrow> Finding \<Rightarrow> string \<Rightarrow> int \<Rightarrow> string \<Rightarrow> SupportingSignal" where
  "artifact_signal signalType f match weight reason =
     \<lparr>ss_SignalType = signalType, ss_RuleID = f_RuleID f, ss_RuleName = f_RuleName f, ss_Match = match,
      ss_Confidence = f_Confidence f, ss_Weight = weight, ss_Reason = reason\<rparr>"

definition path_signal :: "int \<Rightarrow> string \<Rightarrow> SupportingSignal" where
  "path_signal weight reason =
     \<lparr>ss_SignalType = ''path'', ss_RuleID = [], ss_RuleName = [], ss_Match = [], ss_Confidence = [],
      ss_Weight = weight, ss_Reason = reason\<rparr>"

definition correlation_signal :: "string \<Rightarrow> string \<Rightarrow> string \<Rightarrow> int \<Rightarrow> string \<Rightarrow> SupportingSignal" where
  "correlation_signal ruleID ruleName match weight reason =
     \<lparr>ss_SignalType = ''correlation'', ss_RuleID = ruleID, ss_RuleName = ruleName, ss_Match = match,
      ss_Confidence = ''high'', ss_Weight = weight, ss_Reason = reason\<rparr>"

definition score_breakdown :: "int \<Rightarrow> int \<Rightarrow> int \<Rightarrow> string \<Rightarrow> string \<Rightarrow> int \<Rightarrow> int \<Rightarrow> ConfidenceBreakdown" where
  "score_breakdown score content heuristic label reason correlation path =
     no_breakdown\<lparr>cb_BaseScore := score, cb_FinalScore := score, cb_ContentSignalStrength := content,
       cb_HeuristicSignalContribution := heuristic, cb_ValueQualityScore := 0, cb_ValueQualityLabel := label,
       cb_ValueQualityReason := reason, cb_CorrelationContribution := correlation, cb_PathContextContribution := path\<rparr>"

text \<open>The fields that each constructor fills in from its two findings in the same way.\<close>

definition paired :: "Finding \<Rightarrow> Finding \<Rightarrow> Finding" where
  "paired a b = zero_finding\<lparr>
     f_Confidence := ''high'', f_RuleConfidence := ''high'', f_TriageClass := ''actionable'', f_Actionable := True,
     f_Correlated := True, f_Priority := max (f_Priority a) (f_Priority b),
     f_PriorityReason := out_firstNonEmpty [f_PriorityReason a, f_PriorityReason b],
     f_SharePriority := max (f_SharePriority a) (f_SharePriority b),
     f_SharePriorityReason := out_firstNonEmpty [f_SharePriorityReason a, f_SharePriorityReason b],
     f_FilePath := f_FilePath a, f_Share := f_Share a, f_ShareDescription := f_ShareDescription a,
     f_ShareType := f_ShareType a, f_Host := f_Host a, f_Source := out_firstNonEmpty [f_Source a, f_Source b],
     f_DFSNamespacePath := out_firstNonEmpty [f_DFSNamespacePath a, f_DFSNamespacePath b],
     f_DFSLinkPath := out_firstNonEmpty [f_DFSLinkPath a, f_DFSLinkPath b], f_SignalType := ''correlation'',
     f_FromSYSVOL := (f_FromSYSVOL a \<or> f_FromSYSVOL b), f_FromNETLOGON := (f_FromNETLOGON a \<or> f_FromNETLOGON b)\<rparr>"

definition with_archive :: "Finding \<Rightarrow> Finding \<Rightarrow> Finding \<Rightarrow> Finding" where
  "with_archive a b f = f\<lparr>
     f_ArchivePath := out_firstNonEmpty [f_ArchivePath a, f_ArchivePath b],
     f_ArchiveMemberPath := out_firstNonEmpty [f_ArchiveMemberPath a, f_ArchiveMemberPath b],
     f_ArchiveLocalInspect := (f_ArchiveLocalInspect a \<or> f_ArchiveLocalInspect b)\<rparr>"

definition shown :: "string \<Rightarrow> string \<Rightarrow> string \<Rightarrow> Finding \<Rightarrow> Finding" where
  "shown match snippet ctx f = f\<lparr>f_Match := match, f_MatchedText := ctx, f_MatchedTextRedacted := ctx, f_Snippet := snippet,
     f_Context := ctx, f_ContextRedacted := ctx\<rparr>"

definition lines2 :: "string \<Rightarrow> string \<Rightarrow> string \<Rightarrow> string" where
  "lines2 title a b = title @ [CHR 0x0A] @ a @ [CHR 0x0A] @ b"

text \<open>
  The findings are put into buckets by their place; each bucket gives at most one finding. \<open>pair_of\<close> is the
  common case: both kinds must be there.
\<close>

definition build :: "'k rearrangement \<Rightarrow> (Finding \<Rightarrow> 'k option) \<Rightarrow> (Finding list \<Rightarrow> Finding list option) \<Rightarrow>
    Finding list \<Rightarrow> Finding list option" where
  "build order key bucket fs =
     map_option concat (those (map (\<lambda>k. bucket (the (group_by key fs k))) (order (keys_of key fs))))"

definition of_family :: "(Finding \<Rightarrow> string) \<Rightarrow> string \<Rightarrow> Finding list \<Rightarrow> Finding list" where
  "of_family fam name g = filter (\<lambda>f. fam f = name) g"

definition pair_of :: "(Finding \<Rightarrow> Finding \<Rightarrow> Finding) \<Rightarrow> Finding list \<Rightarrow> Finding list \<Rightarrow> Finding list option" where
  "pair_of mk left right =
     (if left = [] \<or> right = [] then Some []
      else case (selectBestCorrelationAnchor left, selectBestCorrelationAnchor right) of
             (Some a, Some b) \<Rightarrow> Some [mk a b] | _ \<Rightarrow> None)"

definition directory_place :: "(Finding \<Rightarrow> string) \<Rightarrow> (Finding \<Rightarrow> string) \<Rightarrow> Finding \<Rightarrow> place option" where
  "directory_place fam dir f =
     (if fam f = [] then None
      else
        let host = norm_text (f_Host f); share = norm_text (f_Share f); d = norm_text (dir f)
        in if host = [] \<or> share = [] \<or> d = [] then None else Some (host, share, d))"

definition profile_place :: "(Finding \<Rightarrow> string) \<Rightarrow> (string \<Rightarrow> string) \<Rightarrow> Finding \<Rightarrow> place option" where
  "profile_place fam profileOf f =
     (if fam f = [] then None
      else
        let profile = profileOf (f_FilePath f)
        in if profile = [] then None else Some (norm_text (f_Host f), norm_text (f_Share f), profile))"

subsection \<open>Active Directory: NTDS and SYSTEM\<close>

definition adCorrelationRuleID :: string where "adCorrelationRuleID = ''correlation.ad.ntds_system''"

definition correlationDirectoryContext :: "Finding \<Rightarrow> string" where
  "correlationDirectoryContext f =
     (if trim_space (f_ArchivePath f) \<noteq> [] then norm_text (to_slash (f_ArchivePath f))
      else norm_text (to_slash (path_dir (f_FilePath f))))"

definition adArtifactFamily :: "Finding \<Rightarrow> string" where
  "adArtifactFamily f =
     (let base = norm_text (path_base (f_FilePath f)) in
      if base \<in> set [''ntds.dit'', ''ntds.dit.bak'', ''ntds.dit.old''] then ''ntds''
      else if base \<in> set [''system'', ''system.bak'', ''system.old''] then ''system'' else [])"

definition newADCorrelatedFinding :: "Finding \<Rightarrow> Finding \<Rightarrow> Finding" where
  "newADCorrelatedFinding ntds system =
     (let ctx = lines2 ''Paired artifact context:'' (f_FilePath ntds) (f_FilePath system) in
      shown ''NTDS.DIT + SYSTEM'' ''NTDS.DIT + SYSTEM in shared directory context'' ctx
      (paired ntds system)\<lparr>
        f_RuleID := adCorrelationRuleID, f_RuleName := ''AD Compromise Path: NTDS + SYSTEM'', f_Severity := ''critical'',
        f_ConfidenceScore := 82,
        f_ConfidenceReasons := uniqueStrings
          [''NTDS.DIT and SYSTEM artifacts were found together in the same directory context'',
           ''paired AD database and SYSTEM hive artifacts enable offline credential extraction review''],
        f_Category := ''active-directory'',
        f_ConfidenceBreakdown := score_breakdown 82 0 36 ''low''
          ''confidence comes from exact artifact identity and cross-file compromise-path correlation'' 34 12,
        f_MatchReason := ''cross-file correlation identified NTDS.DIT and SYSTEM together in the same directory context, indicating a likely AD credential extraction path.'',
        f_RuleExplanation := ''This finding is promoted only when exact NTDS.DIT and SYSTEM artifacts co-occur in the same host/share/directory context.'',
        f_RuleRemediation := ''Restrict access immediately, remove unnecessary copies, and rotate affected credentials because paired AD database and SYSTEM hive artifacts can enable offline extraction workflows.'',
        f_MatchedRuleIDs := uniqueStrings (f_MatchedRuleIDs ntds @ f_MatchedRuleIDs system @ [adCorrelationRuleID]),
        f_MatchedSignalTypes := [''correlation'', ''filename'', ''path''],
        f_SupportingSignals :=
          [artifact_signal ''filename'' ntds (path_base (f_FilePath ntds)) 18 ''exact AD database artifact was identified'',
           artifact_signal ''filename'' system (path_base (f_FilePath system)) 18 ''exact SYSTEM hive artifact was identified'',
           path_signal 12 ''both artifacts were found in the same host/share/directory context'',
           correlation_signal adCorrelationRuleID ''AD Compromise Path: NTDS + SYSTEM'' ''NTDS.DIT + SYSTEM'' 34
             ''paired AD database and SYSTEM hive artifacts strongly indicate offline credential extraction exposure''],
        f_Tags := sort (uniqueStrings (f_Tags ntds @ f_Tags system) @
          [''correlation:ad-compromise-path'', ''artifact:ntds'', ''artifact:system''])\<rparr>)"

definition ad_place :: "Finding \<Rightarrow> place option" where
  "ad_place = directory_place adArtifactFamily correlationDirectoryContext"

definition buildADCorrelatedFindings :: "place rearrangement \<Rightarrow> Finding list \<Rightarrow> Finding list option" where
  "buildADCorrelatedFindings order fs =
     build order ad_place
       (\<lambda>g. pair_of newADCorrelatedFinding (of_family adArtifactFamily ''ntds'' g) (of_family adArtifactFamily ''system'' g)) fs"

subsection \<open>AWS profiles\<close>

definition awsProfileCorrelationRuleID :: string where
  "awsProfileCorrelationRuleID = ''correlation.cloud.aws_profile_bundle''"

definition awsArtifactFamily :: "Finding \<Rightarrow> string" where
  "awsArtifactFamily f =
     (let id = norm_text (f_RuleID f) in
      if id \<in> set [''awsinspect.path.credentials'', ''awsinspect.content.credentials_bundle''] then ''credentials''
      else if id = ''awsinspect.path.config'' then ''config'' else [])"

definition newAWSCorrelatedFinding :: "Finding \<Rightarrow> Finding \<Rightarrow> Finding" where
  "newAWSCorrelatedFinding credentials config =
     (let ctx = lines2 ''Paired AWS profile artifacts:'' (f_FilePath credentials) (f_FilePath config);
          score = (if equal_fold (trim_space (f_RuleID credentials)) ''awsinspect.content.credentials_bundle'' then 84 else 78)
      in
      shown ''.aws/credentials + .aws/config'' ''AWS shared credentials and config in same profile context'' ctx
      (with_archive credentials config (paired credentials config))\<lparr>
        f_RuleID := awsProfileCorrelationRuleID, f_RuleName := ''AWS Credential Profile Bundle'', f_Severity := ''high'',
        f_ConfidenceScore := score,
        f_ConfidenceReasons := uniqueStrings
          [''AWS shared credentials and AWS shared config were found together under the same normalized profile context'',
           ''paired AWS profile artifacts increase the chance that reusable CLI or API access is exposed''],
        f_Category := ''cloud'',
        f_ConfidenceBreakdown := score_breakdown score 0 34 ''medium''
          ''confidence comes from exact AWS artifact identity and same-profile correlation'' 28 12,
        f_MatchReason := ''cross-file correlation identified AWS credentials and AWS config together in the same normalized profile context.'',
        f_RuleExplanation := ''This finding is promoted only when exact AWS shared credentials and shared config artifacts co-occur in the same normalized .aws profile path.'',
        f_RuleRemediation := ''Restrict access, remove copied AWS profile material from shared storage, and rotate exposed AWS credentials if the profile contains live keys.'',
        f_MatchedRuleIDs := uniqueStrings (f_MatchedRuleIDs credentials @ f_MatchedRuleIDs config @ [awsProfileCorrelationRuleID]),
        f_MatchedSignalTypes := [''correlation'', ''validated'', ''path''],
        f_SupportingSignals :=
          [artifact_signal (f_SignalType credentials) credentials (f_Match credentials) 20
             ''AWS shared credentials artifact or validated credential bundle was identified'',
           artifact_signal (f_SignalType config) config (f_Match config) 14
             ''AWS shared config artifact was identified under the same profile context'',
           path_signal 12 ''AWS credentials and config were found under the same normalized .aws profile path'',
           correlation_signal awsProfileCorrelationRuleID ''AWS Credential Profile Bundle'' ''.aws/credentials + .aws/config'' 28
             ''paired AWS shared profile artifacts strongly indicate likely reusable CLI or API access material''],
        f_Tags := uniqueStrings (uniqueStrings (f_Tags credentials @ f_Tags config) @
          [''correlation:aws-profile-bundle'', ''artifact:aws-credentials'', ''artifact:aws-config''])\<rparr>)"

definition aws_place :: "Finding \<Rightarrow> place option" where
  "aws_place = profile_place awsArtifactFamily AWSProfileContext"

definition buildAWSCorrelatedFindings :: "place rearrangement \<Rightarrow> Finding list \<Rightarrow> Finding list option" where
  "buildAWSCorrelatedFindings order fs =
     build order aws_place
       (\<lambda>g. pair_of newAWSCorrelatedFinding (of_family awsArtifactFamily ''credentials'' g) (of_family awsArtifactFamily ''config'' g)) fs"

subsection \<open>Private keys and certificates\<close>

definition privateKeyCorrelationRuleID :: string where
  "privateKeyCorrelationRuleID = ''correlation.remote_access.private_key_bundle''"

definition certificateBundleCorrelationRuleID :: string where
  "certificateBundleCorrelationRuleID = ''correlation.remote_access.certificate_bundle''"

text \<open>The expression \<open>(?i)^tier-\d+$\<close>.\<close>

definition tier_dir :: "string \<Rightarrow> bool" where
  "tier_dir base \<longleftrightarrow>
     (let l = to_lower base; digits = drop 5 l
      in has_prefix l ''tier-'' \<and> digits \<noteq> [] \<and> list_all (\<lambda>c. c \<in> set ''0123456789'') digits)"

definition collapseSyntheticTierDir :: "string \<Rightarrow> string" where
  "collapseSyntheticTierDir value0 =
     (let value = trim_space (to_slash value0) in
      if value = [] \<or> value = ''.'' then value
      else if tier_dir (trim_space (path_base value)) then
        (let parent = trim_space (to_slash (path_dir value))
         in if parent \<noteq> [] \<and> parent \<noteq> ''.'' then parent else value)
      else value)"

definition remoteAccessDirectoryContext :: "Finding \<Rightarrow> string" where
  "remoteAccessDirectoryContext f =
     (if trim_space (f_ArchivePath f) \<noteq> [] then
        (let memberDir = trim_space (to_slash (path_dir (f_ArchiveMemberPath f)))
         in if memberDir \<noteq> ''.'' \<and> memberDir \<noteq> []
            then trim_space (to_slash (f_ArchivePath f)) @ ''!'' @ collapseSyntheticTierDir memberDir
            else trim_space (to_slash (f_ArchivePath f)))
      else collapseSyntheticTierDir (trim_space (to_slash (path_dir (f_FilePath f)))))"

definition privateKeyArtifactFamily :: "Finding \<Rightarrow> string" where
  "privateKeyArtifactFamily f =
     (let base = norm_text (path_base (f_FilePath f)); ext = norm_text (path_ext base); id = norm_text (f_RuleID f) in
      if base \<in> set [''id_rsa'', ''id_ed25519'', ''id_ecdsa'', ''id_dsa'', ''identity''] then ''private-key''
      else if base = ''authorized_keys'' \<or> base = ''known_hosts'' then ''ssh-support''
      else if base = ''.ovpn'' \<or> base = ''.ppk'' then ''client-auth''
      else if ext = ''.ovpn'' \<or> ext = ''.ppk'' then ''client-auth''
      else if id = ''keyinspect.content.private_key_header'' \<or> id = ''filename.private_key_artifacts'' then ''private-key''
      else if id = ''filename.ssh_supporting_artifacts'' then ''ssh-support''
      else if id = ''extension.client_auth_artifacts'' then ''client-auth''
      else [])"

definition certificateBundleFamily :: "Finding \<Rightarrow> string" where
  "certificateBundleFamily f =
     (let ext = norm_text (path_ext (norm_text (path_base (f_FilePath f)))); id = norm_text (f_RuleID f) in
      if (ext = ''.pfx'' \<or> ext = ''.p12'') \<and> equal_fold (trim_space (f_RuleID f)) ''extension.key_and_certificate_extensions''
      then ''certificate''
      else if id \<in> set [''content.password_assignment_indicators'', ''content.password_note_value_indicators'',
                ''content.note_style_credential_pair_indicators''] then ''password-evidence''
      else [])"

definition newPrivateKeyCorrelatedFinding :: "string \<Rightarrow> Finding \<Rightarrow> Finding \<Rightarrow> Finding" where
  "newPrivateKeyCorrelatedFinding supportKind privateKey support =
     (let client = (supportKind = ''client-auth'');
          supportLabel = (if client then ''Client-auth artifact context'' else ''SSH supporting context'');
          supportReason = (if client then ''nearby client-auth artifacts increase the likelihood that the exposed private key is part of a reusable access bundle''
            else ''nearby SSH support artifacts increase the likelihood that the exposed private key is operationally useful'');
          matchText = (if client then ''private key + client-auth artifact'' else ''private key + SSH support'');
          score = (if client then 84 else 76);
          pathContribution = (if client then 12 else 10);
          correlationContribution = (if client then 34 else 28);
          tags = [''correlation:remote-access-bundle'', ''artifact:private-key'',
            if client then ''artifact:client-auth'' else ''artifact:ssh-support''];
          ctx = lines2 ''Paired artifact context:'' (f_FilePath privateKey) (f_FilePath support)
      in
      shown matchText matchText ctx
      (with_archive privateKey support (paired privateKey support))\<lparr>
        f_RuleID := privateKeyCorrelationRuleID, f_RuleName := ''Private Key Exposure Path'',
        f_Severity := (if client then ''critical'' else ''high''), f_ConfidenceScore := score,
        f_ConfidenceReasons := uniqueStrings
          [''private key material and related access artifacts were found together in the same directory context'', supportReason],
        f_Category := ''remote-access'',
        f_ConfidenceBreakdown := score_breakdown score 0 36 ''medium''
          ''confidence comes from exact artifact identity, validated private key structure, and nearby client-auth or SSH context''
          correlationContribution pathContribution,
        f_MatchReason := ''cross-file correlation identified exposed private key material alongside nearby client-auth or SSH support artifacts.'',
        f_RuleExplanation := ''This finding is promoted only when an exposed private key artifact appears with nearby client-auth or SSH support files in the same directory context.'',
        f_RuleRemediation := ''Restrict access immediately, remove unnecessary key material and related client-auth artifacts from shared storage, and rotate or replace exposed keys and access profiles.'',
        f_MatchedRuleIDs := uniqueStrings (f_MatchedRuleIDs privateKey @ f_MatchedRuleIDs support @ [privateKeyCorrelationRuleID]),
        f_MatchedSignalTypes := [''correlation'', ''filename'', ''path''],
        f_SupportingSignals :=
          [artifact_signal (f_SignalType privateKey) privateKey (path_base (f_FilePath privateKey)) 22
             ''exact private key artifact or validated private key header was identified'',
           artifact_signal (f_SignalType support) support (path_base (f_FilePath support)) 14 supportLabel,
           path_signal pathContribution ''private key and related artifact were found in the same host/share/directory context'',
           correlation_signal privateKeyCorrelationRuleID ''Private Key Exposure Path'' matchText correlationContribution supportReason],
        f_Tags := uniqueStrings (f_Tags privateKey @ f_Tags support @ tags)\<rparr>)"

definition newCertificateCorrelatedFinding :: "Finding \<Rightarrow> Finding \<Rightarrow> Finding" where
  "newCertificateCorrelatedFinding certificate passwordEvidence =
     (let ctx = lines2 ''Paired artifact context:'' (f_FilePath certificate) (f_FilePath passwordEvidence) in
      shown ''PKCS#12 bundle + password evidence'' ''PKCS#12 bundle + password evidence'' ctx
      (with_archive certificate passwordEvidence (paired certificate passwordEvidence))\<lparr>
        f_RuleID := certificateBundleCorrelationRuleID, f_RuleName := ''Certificate Access Bundle'', f_Severity := ''critical'',
        f_ConfidenceScore := 82,
        f_ConfidenceReasons := uniqueStrings
          [''PKCS#12 certificate material and nearby password evidence were found together in the same directory context'',
           ''paired certificate bundle and password note increase the chance that reusable client-auth material is exposed''],
        f_Category := ''remote-access'',
        f_ConfidenceBreakdown := score_breakdown 82 18 20 ''medium''
          ''confidence comes from exact PKCS#12 artifact identity plus nearby password evidence'' 32 12,
        f_MatchReason := ''cross-file correlation identified PKCS#12 certificate material alongside nearby password evidence.'',
        f_RuleExplanation := ''This finding is promoted only when a `.pfx` or `.p12` artifact appears with nearby password-oriented evidence in the same directory context.'',
        f_RuleRemediation := ''Restrict access immediately, remove unnecessary PKCS#12 bundles and nearby password notes from shared storage, and rotate or replace exposed client certificates and passwords.'',
        f_MatchedRuleIDs := uniqueStrings (f_MatchedRuleIDs certificate @ f_MatchedRuleIDs passwordEvidence @ [certificateBundleCorrelationRuleID]),
        f_MatchedSignalTypes := [''correlation'', ''content'', ''extension'', ''path''],
        f_SupportingSignals :=
          [artifact_signal (f_SignalType certificate) certificate (path_base (f_FilePath certificate)) 20
             ''exact PKCS#12 certificate bundle artifact was identified'',
           artifact_signal (f_SignalType passwordEvidence) passwordEvidence (f_Match passwordEvidence) 18
             ''nearby password or credential note provides likely import password context for the certificate bundle'',
           path_signal 12 ''certificate bundle and password evidence were found in the same host/share/directory context'',
           correlation_signal certificateBundleCorrelationRuleID ''Certificate Access Bundle'' ''PKCS#12 bundle + password evidence'' 32
             ''paired PKCS#12 material and password evidence strongly suggest reusable client-auth access material''],
        f_Tags := uniqueStrings (f_Tags certificate @ f_Tags passwordEvidence) @
          [''correlation:certificate-access-bundle'', ''artifact:pkcs12'', ''artifact:password-evidence'', ''artifact:client-auth'']\<rparr>)"

definition key_place :: "Finding \<Rightarrow> place option" where
  "key_place = directory_place privateKeyArtifactFamily remoteAccessDirectoryContext"

definition private_key_bucket :: "Finding list \<Rightarrow> Finding list option" where
  "private_key_bucket g =
     (let keys = of_family privateKeyArtifactFamily ''private-key'' g;
          client = of_family privateKeyArtifactFamily ''client-auth'' g;
          ssh = of_family privateKeyArtifactFamily ''ssh-support'' g
      in if client \<noteq> [] then pair_of (newPrivateKeyCorrelatedFinding ''client-auth'') keys client
         else pair_of (newPrivateKeyCorrelatedFinding ''ssh-support'') keys ssh)"

definition buildPrivateKeyCorrelatedFindings :: "place rearrangement \<Rightarrow> Finding list \<Rightarrow> Finding list option" where
  "buildPrivateKeyCorrelatedFindings order fs = build order key_place private_key_bucket fs"

definition certificate_place :: "Finding \<Rightarrow> place option" where
  "certificate_place = directory_place certificateBundleFamily remoteAccessDirectoryContext"

definition buildCertificateCorrelatedFindings :: "place rearrangement \<Rightarrow> Finding list \<Rightarrow> Finding list option" where
  "buildCertificateCorrelatedFindings order fs =
     build order certificate_place
       (\<lambda>g. pair_of newCertificateCorrelatedFinding (of_family certificateBundleFamily ''certificate'' g)
              (of_family certificateBundleFamily ''password-evidence'' g)) fs"

subsection \<open>Browser profiles and Windows credential stores\<close>

definition browserCredCorrelationRuleID :: string where
  "browserCredCorrelationRuleID = ''correlation.browser.profile_credential_store''"

definition browserCredentialStoreFamily :: "Finding \<Rightarrow> string" where
  "browserCredentialStoreFamily f =
     (let id = norm_text (f_RuleID f) in
      if id = ''browsercredinspect.firefox.logins'' then ''firefox-logins''
      else if id = ''browsercredinspect.firefox.key4'' then ''firefox-key4''
      else if id = ''browsercredinspect.chromium.login_data'' then ''chromium-login-data''
      else if id = ''browsercredinspect.chromium.cookies'' then ''chromium-cookies''
      else [])"

definition newBrowserCredentialStoreCorrelatedFinding :: "string \<Rightarrow> string \<Rightarrow> int \<Rightarrow> Finding \<Rightarrow> Finding \<Rightarrow> Finding" where
  "newBrowserCredentialStoreCorrelatedFinding match severity score primary support =
     (let ctx = lines2 ''Paired browser profile context:'' (f_FilePath primary) (f_FilePath support) in
      shown match match ctx
      (with_archive primary support (paired primary support))\<lparr>
        f_RuleID := browserCredCorrelationRuleID, f_RuleName := ''Browser Credential Store Exposure Path'',
        f_Severity := severity, f_ConfidenceScore := score,
        f_ConfidenceReasons := uniqueStrings
          [''multiple exact browser credential-store artifacts were found under the same browser profile context'',
           ''paired browser profile artifacts increase the chance that offline credential or session extraction is possible from the exposed profile data''],
        f_Category := ''browser-credentials'',
        f_ConfidenceBreakdown := score_breakdown score 0 36 ''medium''
          ''confidence comes from exact browser credential-store artifact identity and profile-level correlation rather than extracted secrets'' 34 12,
        f_MatchReason := ''cross-file correlation identified multiple exact browser credential-store artifacts in the same normalized browser profile context.'',
        f_RuleExplanation := ''This finding is promoted only when exact paired browser credential-store artifacts co-occur within the same normalized browser profile.'',
        f_RuleRemediation := ''Restrict access to browser profile data, remove unnecessary copied profiles from shared storage, and review whether exposed browser credential-store artifacts could support offline credential or session extraction.'',
        f_MatchedRuleIDs := uniqueStrings (f_MatchedRuleIDs primary @ f_MatchedRuleIDs support @ [browserCredCorrelationRuleID]),
        f_MatchedSignalTypes := [''correlation'', ''path'', ''validated''],
        f_SupportingSignals :=
          [artifact_signal (f_SignalType primary) primary (f_Match primary) 18 ''exact browser credential-store artifact was identified'',
           artifact_signal (f_SignalType support) support (f_Match support) 18
             ''a second exact browser profile credential-store artifact was identified'',
           path_signal 12 ''paired browser credential-store artifacts were found under the same normalized browser profile context'',
           correlation_signal browserCredCorrelationRuleID ''Browser Credential Store Exposure Path'' match 34
             ''paired browser profile artifacts strongly increase the chance of usable offline credential or session extraction exposure''],
        f_Tags := uniqueStrings (f_Tags primary @ f_Tags support @
          [''correlation:browser-credential-store'', ''artifact:browser-credstore''])\<rparr>)"

definition browser_place :: "Finding \<Rightarrow> place option" where
  "browser_place = profile_place browserCredentialStoreFamily BrowserProfileContext"

definition browser_bucket :: "Finding list \<Rightarrow> Finding list option" where
  "browser_bucket g =
     (let logins = of_family browserCredentialStoreFamily ''firefox-logins'' g;
          key4 = of_family browserCredentialStoreFamily ''firefox-key4'' g;
          loginData = of_family browserCredentialStoreFamily ''chromium-login-data'' g;
          cookies = of_family browserCredentialStoreFamily ''chromium-cookies'' g
      in if logins \<noteq> [] \<and> key4 \<noteq> []
         then pair_of (newBrowserCredentialStoreCorrelatedFinding ''Firefox logins.json + key4.db'' ''critical'' 84) logins key4
         else pair_of (newBrowserCredentialStoreCorrelatedFinding ''Chromium Login Data + Cookies'' ''high'' 78) loginData cookies)"

definition buildBrowserCredentialStoreCorrelatedFindings :: "place rearrangement \<Rightarrow> Finding list \<Rightarrow> Finding list option" where
  "buildBrowserCredentialStoreCorrelatedFindings order fs = build order browser_place browser_bucket fs"

definition windowsCredCorrelationRuleID :: string where
  "windowsCredCorrelationRuleID = ''correlation.windows.dpapi_credential_store''"

definition windowsCredentialStoreFamily :: "Finding \<Rightarrow> string" where
  "windowsCredentialStoreFamily f =
     (let id = norm_text (f_RuleID f) in
      if id = ''wincredinspect.path.credentials'' then ''credentials''
      else if id = ''wincredinspect.path.vault'' then ''vault''
      else if id = ''wincredinspect.path.protect'' then ''protect''
      else [])"

definition newWindowsCredentialStoreCorrelatedFinding :: "string \<Rightarrow> Finding \<Rightarrow> Finding \<Rightarrow> Finding" where
  "newWindowsCredentialStoreCorrelatedFinding match protect support =
     (let ctx = lines2 ''Paired profile context:'' (f_FilePath protect) (f_FilePath support);
          score = (if equal_fold (trim_space match) ''Protect + Credentials + Vault'' then 88 else 84)
      in
      shown match match ctx
      (with_archive protect support (paired protect support))\<lparr>
        f_RuleID := windowsCredCorrelationRuleID, f_RuleName := ''Windows DPAPI Credential Store Exposure Path'',
        f_Severity := ''critical'', f_ConfidenceScore := score,
        f_ConfidenceReasons := uniqueStrings
          [''multiple Windows credential-store path families were found under the same profile context'',
           ''DPAPI Protect material co-occurred with Windows Credentials or Vault paths in the same profile context''],
        f_Category := ''windows-credentials'',
        f_ConfidenceBreakdown := score_breakdown score 0 36 ''medium''
          ''confidence comes from exact Windows credential-store path identity and profile-level DPAPI correlation'' 34 12,
        f_MatchReason := ''cross-file correlation identified DPAPI Protect material together with Windows Credentials or Vault paths in the same profile context.'',
        f_RuleExplanation := ''This finding is promoted only when exact Windows credential-store path families co-occur within the same normalized user or profile context.'',
        f_RuleRemediation := ''Restrict access immediately, remove unnecessary profile credential-store copies from shared storage, and review whether the exposed DPAPI-related material could enable credential recovery workflows.'',
        f_MatchedRuleIDs := uniqueStrings (f_MatchedRuleIDs protect @ f_MatchedRuleIDs support @ [windowsCredCorrelationRuleID]),
        f_MatchedSignalTypes := [''correlation'', ''path'', ''validated''],
        f_SupportingSignals :=
          [artifact_signal (f_SignalType protect) protect (f_Match protect) 18 ''Windows DPAPI Protect path was identified'',
           artifact_signal (f_SignalType support) support (f_Match support) 18 ''Windows Credentials or Vault path was identified'',
           path_signal 12 ''related DPAPI credential-store paths were found under the same normalized profile context'',
           correlation_signal windowsCredCorrelationRuleID ''Windows DPAPI Credential Store Exposure Path'' match 34
             ''paired DPAPI Protect and Windows credential-store paths strongly indicate reusable credential-store exposure''],
        f_Tags := uniqueStrings (f_Tags protect @ f_Tags support @
          [''correlation:windows-credential-store'', ''artifact:windows-credstore'', ''dpapi''])\<rparr>)"

definition windows_place :: "Finding \<Rightarrow> place option" where
  "windows_place = profile_place windowsCredentialStoreFamily WinCredProfileContext"

definition windows_bucket :: "Finding list \<Rightarrow> Finding list option" where
  "windows_bucket g =
     (let credentials = of_family windowsCredentialStoreFamily ''credentials'' g;
          vault = of_family windowsCredentialStoreFamily ''vault'' g;
          protect = of_family windowsCredentialStoreFamily ''protect'' g
      in if credentials \<noteq> [] \<and> vault \<noteq> []
         then pair_of (newWindowsCredentialStoreCorrelatedFinding ''Protect + Credentials + Vault'') protect (credentials @ vault)
         else if credentials \<noteq> [] then pair_of (newWindowsCredentialStoreCorrelatedFinding ''Protect + Credentials'') protect credentials
         else pair_of (newWindowsCredentialStoreCorrelatedFinding ''Protect + Vault'') protect vault)"

definition buildWindowsCredentialStoreCorrelatedFindings :: "place rearrangement \<Rightarrow> Finding list \<Rightarrow> Finding list option" where
  "buildWindowsCredentialStoreCorrelatedFindings order fs = build order windows_place windows_bucket fs"

subsection \<open>Backups of the system state\<close>

definition backupCorrelationRuleID :: string where
  "backupCorrelationRuleID = ''correlation.backup.system_state_exposure''"

definition backupPathFamily :: "Finding \<Rightarrow> string" where
  "backupPathFamily f =
     (let id = norm_text (f_RuleID f) in
      if id = ''backupinspect.path.windowsimagebackup'' then ''windowsimagebackup''
      else if id = ''backupinspect.path.system_volume_information'' then ''system-volume-information''
      else if id = ''backupinspect.path.regback'' then ''regback''
      else if id = ''backupinspect.path.windows_repair'' then ''windows-repair''
      else [])"

definition backupSecretArtifactFamily :: "Finding \<Rightarrow> string" where
  "backupSecretArtifactFamily f =
     (let id = norm_text (f_RuleID f); base = norm_text (path_base (f_FilePath f)) in
      if id \<in> set [''backupinspect.path.windowsimagebackup'', ''backupinspect.path.system_volume_information'',
           ''backupinspect.path.regback'', ''backupinspect.path.windows_repair''] then []
      else if base \<in> set [''ntds.dit'', ''ntds.dit.bak'', ''ntds.dit.old''] then ''ntds''
      else if base \<in> set [''sam'', ''sam.bak'', ''sam.old''] then ''sam''
      else if base \<in> set [''system'', ''system.bak'', ''system.old''] then ''system''
      else if base \<in> set [''security'', ''security.bak'', ''security.old''] then ''security''
      else [])"

text \<open>The two maps of a bucket, from a family to its findings.\<close>

definition family_key :: "(Finding \<Rightarrow> string) \<Rightarrow> Finding \<Rightarrow> string option" where
  "family_key fam f = (if fam f = [] then None else Some (fam f))"

type_synonym families = "string \<rightharpoonup> Finding list"

definition family_list :: "families \<Rightarrow> string \<Rightarrow> Finding list" where
  "family_list m name = (case m name of None \<Rightarrow> [] | Some g \<Rightarrow> g)"

definition selectBestBackupPrimary :: "families \<Rightarrow> Finding option" where
  "selectBestBackupPrimary artifacts =
     Option.bind
       (those (map (\<lambda>name. selectBestCorrelationAnchor (family_list artifacts name))
          (filter (\<lambda>name. family_list artifacts name \<noteq> []) [''ntds'', ''system'', ''sam'', ''security''])))
       selectBestCorrelationAnchor"

text \<open>\<open>names\<close> is the order in which the map is visited.\<close>

definition selectBestBackupSupport :: "string list \<Rightarrow> families \<Rightarrow> Finding \<Rightarrow> Finding option" where
  "selectBestBackupSupport names artifacts primary =
     selectBestCorrelationAnchor
       (filter (\<lambda>f. \<not> (f_FilePath f = f_FilePath primary \<and> f_RuleID f = f_RuleID primary))
          (concat (map (family_list artifacts) names)))"

definition selectBestBackupPathSupport :: "string list \<Rightarrow> families \<Rightarrow> Finding option" where
  "selectBestBackupPathSupport names pathFamilies =
     (let candidates = concat (map (family_list pathFamilies) names)
      in if length candidates = 0 then Some zero_finding else selectBestCorrelationAnchor candidates)"

definition path_family_title :: "string \<Rightarrow> string" where
  "path_family_title name =
     (if name = ''windowsimagebackup'' then ''WindowsImageBackup''
      else if name = ''system-volume-information'' then ''System Volume Information''
      else if name = ''regback'' then ''RegBack'' else ''Windows repair'')"

definition describeBackupArtifactSet :: "families \<Rightarrow> families \<Rightarrow> string" where
  "describeBackupArtifactSet artifacts pathFamilies =
     (let parts = map to_upper (filter (\<lambda>name. family_list artifacts name \<noteq> []) [''ntds'', ''sam'', ''system'', ''security'']);
          path = (case find (\<lambda>name. family_list pathFamilies name \<noteq> [])
                    [''windowsimagebackup'', ''system-volume-information'', ''regback'', ''windows-repair''] of
                    None \<Rightarrow> [] | Some name \<Rightarrow> [path_family_title name])
      in join '' + '' (parts @ path))"

definition newBackupCorrelatedFinding :: "Finding \<Rightarrow> Finding \<Rightarrow> Finding \<Rightarrow> string \<Rightarrow> Finding" where
  "newBackupCorrelatedFinding primary support pathSupport match =
     (let has_path = (f_RuleID pathSupport \<noteq> []);
          contextLines = [f_FilePath primary, f_FilePath support] @
            (if f_FilePath pathSupport \<noteq> [] \<and> f_FilePath pathSupport \<noteq> f_FilePath primary
                \<and> f_FilePath pathSupport \<noteq> f_FilePath support then [f_FilePath pathSupport] else []);
          ctx = ''Paired backup context:'' @ [CHR 0x0A] @ join [CHR 0x0A] contextLines;
          score = (if has_path then 86 else 82)
      in
      shown match match ctx
      (paired primary support)\<lparr>
        f_RuleID := backupCorrelationRuleID, f_RuleName := ''System-State Backup Exposure Path'', f_Severity := ''critical'',
        f_ConfidenceScore := score,
        f_ConfidenceReasons := uniqueStrings
          [''multiple high-value system-state artifacts were found together in the same backup or copied system context'',
           ''paired hive or directory-service artifacts in backup storage can support offline credential extraction workflows''],
        f_Category := ''backup-exposure'',
        f_ConfidenceBreakdown := score_breakdown score 0 36 ''medium''
          ''confidence comes from exact artifact identity and grouped backup-context exposure rather than extracted values'' 34 12,
        f_Source := out_firstNonEmpty [f_Source primary, f_Source support, f_Source pathSupport],
        f_ArchivePath := out_firstNonEmpty [f_ArchivePath primary, f_ArchivePath support, f_ArchivePath pathSupport],
        f_ArchiveMemberPath := out_firstNonEmpty [f_ArchiveMemberPath primary, f_ArchiveMemberPath support, f_ArchiveMemberPath pathSupport],
        f_ArchiveLocalInspect := (f_ArchiveLocalInspect primary \<or> f_ArchiveLocalInspect support \<or> f_ArchiveLocalInspect pathSupport),
        f_DFSNamespacePath := out_firstNonEmpty [f_DFSNamespacePath primary, f_DFSNamespacePath support, f_DFSNamespacePath pathSupport],
        f_DFSLinkPath := out_firstNonEmpty [f_DFSLinkPath primary, f_DFSLinkPath support, f_DFSLinkPath pathSupport],
        f_MatchReason := ''cross-file correlation identified multiple high-value system-state artifacts in the same backup or copied system context.'',
        f_RuleExplanation := ''This finding is promoted only when multiple exact secret-store artifacts co-occur under the same Windows backup, restore, or copied system-state path family.'',
        f_RuleRemediation := ''Restrict access immediately, remove unnecessary system-state backups from shared storage, and rotate affected credentials because grouped hive or directory-service artifacts can enable offline extraction workflows.'',
        f_FromSYSVOL := (f_FromSYSVOL primary \<or> f_FromSYSVOL support \<or> f_FromSYSVOL pathSupport),
        f_FromNETLOGON := (f_FromNETLOGON primary \<or> f_FromNETLOGON support \<or> f_FromNETLOGON pathSupport),
        f_MatchedRuleIDs := uniqueStrings (f_MatchedRuleIDs primary @ f_MatchedRuleIDs support @
          (if has_path then f_MatchedRuleIDs pathSupport else []) @ [backupCorrelationRuleID]),
        f_MatchedSignalTypes := [''correlation'', ''path'', ''filename''],
        f_SupportingSignals :=
          [artifact_signal (f_SignalType primary) primary (path_base (f_FilePath primary)) 18
             ''exact secret-store artifact was identified inside a backup or copied system-state context'',
           artifact_signal (f_SignalType support) support (path_base (f_FilePath support)) 18
             ''a second credential-relevant system artifact was found in the same backup context'',
           path_signal 12 ''artifacts were found under the same exact backup or copied system-state family'',
           correlation_signal backupCorrelationRuleID ''System-State Backup Exposure Path'' match 34
             ''multiple high-value system-state artifacts co-occurred in the same backup context''] @
          (if has_path then [artifact_signal (f_SignalType pathSupport) pathSupport (f_Match pathSupport) 10
             ''the surrounding path is an exact Windows backup or restore storage family''] else []),
        f_Tags := sort (uniqueStrings (f_Tags primary @ f_Tags support @
          [''correlation:system-backup-exposure'', ''artifact:backup-family'', ''artifact:secret-store-backup'']))\<rparr>)"

definition backup_place :: "Finding \<Rightarrow> place option" where
  "backup_place f =
     (let ctx = BackupContext (f_FilePath f)
      in if ctx = [] then None else Some (norm_text (f_Host f), norm_text (f_Share f), ctx))"

definition backup_bucket :: "string rearrangement \<Rightarrow> string rearrangement \<Rightarrow> Finding list \<Rightarrow> Finding list option" where
  "backup_bucket artifactOrder pathOrder g =
     (let artifacts = group_by (family_key backupSecretArtifactFamily) g;
          pathFamilies = group_by (family_key backupPathFamily) g;
          names = keys_of (family_key backupSecretArtifactFamily) g;
          pathNames = keys_of (family_key backupPathFamily) g
      in if length names < 2 then Some []
         else
           Option.bind (selectBestBackupPrimary artifacts) (\<lambda>primary.
           Option.bind (selectBestBackupSupport (artifactOrder names) artifacts primary) (\<lambda>support.
           Option.bind (selectBestBackupPathSupport (pathOrder pathNames) pathFamilies) (\<lambda>pathSupport.
             Some [newBackupCorrelatedFinding primary support pathSupport (describeBackupArtifactSet artifacts pathFamilies)]))))"

definition buildBackupCorrelatedFindings ::
  "place rearrangement \<Rightarrow> string rearrangement \<Rightarrow> string rearrangement \<Rightarrow> Finding list \<Rightarrow> Finding list option" where
  "buildBackupCorrelatedFindings order artifactOrder pathOrder fs = build order backup_place (backup_bucket artifactOrder pathOrder) fs"

subsection \<open>SQLite files\<close>

definition sqliteCorrelationRuleID :: string where
  "sqliteCorrelationRuleID = ''correlation.database.sqlite_exposure''"

definition sqliteCorrelationFamily :: "Finding \<Rightarrow> string" where
  "sqliteCorrelationFamily f =
     (if trim_space (f_DatabaseFilePath f) \<noteq> [] \<and> trim_space (f_DatabaseTable f) \<noteq> [] \<and> trim_space (f_DatabaseColumn f) \<noteq> []
      then ''sqlite''
      else
        let base = norm_text (path_base (f_FilePath f)); ext = norm_text (path_ext base); category = norm_text (f_Category f) in
        if base \<in> set [''.env'', ''web.config'', ''appsettings.json'', ''database.yml'', ''application.properties'',
             ''config.php'', ''docker-compose.yml''] then ''support''
        else if ext \<in> set [''.dsn'', ''.udl'', ''.bak'', ''.dump'', ''.dmp''] then ''support''
        else if category = ''database-access'' \<or> category = ''database-infrastructure'' then ''support''
        else [])"

definition sqliteBasePath :: "Finding \<Rightarrow> string" where
  "sqliteBasePath f =
     (let path = (if trim_space (f_DatabaseFilePath f) = [] then trim_space (f_FilePath f) else trim_space (f_DatabaseFilePath f))
      in case index_of path ''::'' of Some idx \<Rightarrow> take idx path | None \<Rightarrow> path)"

definition newSQLiteCorrelatedFinding :: "Finding \<Rightarrow> Finding \<Rightarrow> Finding" where
  "newSQLiteCorrelatedFinding primary support =
     (let ctx = lines2 ''Paired artifact context:'' (sqliteBasePath primary) (f_FilePath support);
          b = f_ConfidenceBreakdown primary
      in
      shown ''sqlite secret + nearby config/backup context'' ''sqlite secret + nearby config/backup context'' ctx
      (with_archive primary support (paired primary support))\<lparr>
        f_RuleID := sqliteCorrelationRuleID, f_RuleName := ''SQLite Exposure Path'', f_Severity := ''high'',
        f_ConfidenceScore := 80,
        f_ConfidenceReasons := uniqueStrings
          [''bounded SQLite row evidence was found near database or application configuration context'',
           ''nearby config or backup evidence increases the likelihood that the SQLite secret is operationally useful''],
        f_Category := ''database-access'',
        f_ConfidenceBreakdown := (score_breakdown 80 18 14
            (out_firstNonEmpty [cb_ValueQualityLabel b, ''medium''])
            (out_firstNonEmpty [cb_ValueQualityReason b, ''bounded SQLite inspection found a plausible secret or validated connection detail'']) 30 10)
          \<lparr>cb_ValueQualityScore := cb_ValueQualityScore b\<rparr>,
        f_DatabaseFilePath := f_DatabaseFilePath primary, f_DatabaseTable := f_DatabaseTable primary,
        f_DatabaseColumn := f_DatabaseColumn primary, f_DatabaseRowContext := f_DatabaseRowContext primary,
        f_MatchReason := ''cross-file correlation identified bounded SQLite credential evidence alongside nearby database or application configuration context.'',
        f_RuleExplanation := ''This finding is promoted only when a SQLite row hit is reinforced by nearby database, application, or backup context in the same directory.'',
        f_RuleRemediation := ''Remove embedded secrets from local SQLite stores, rotate exposed values, and review nearby application or backup material that makes the exposure operationally useful.'',
        f_MatchedRuleIDs := uniqueStrings (f_MatchedRuleIDs primary @ f_MatchedRuleIDs support @ [sqliteCorrelationRuleID]),
        f_MatchedSignalTypes := [''correlation'', ''validated'', ''path''],
        f_SupportingSignals :=
          [artifact_signal (f_SignalType primary) primary (f_Match primary) 22
             ''bounded SQLite inspection identified a validated connection detail or strong secret-like value'',
           artifact_signal (f_SignalType support) support (f_Match support) 12
             ''nearby application, database, or backup context reinforces the SQLite finding'',
           correlation_signal sqliteCorrelationRuleID ''SQLite Exposure Path'' ''sqlite secret + nearby config/backup context'' 30
             ''paired SQLite and nearby config evidence suggest a usable access path rather than an isolated local artifact''],
        f_Tags := uniqueStrings (f_Tags primary @ [''correlation:sqlite-exposure-path'', ''artifact:sqlite''])\<rparr>)"

definition sqlite_place :: "Finding \<Rightarrow> place option" where
  "sqlite_place = directory_place sqliteCorrelationFamily (\<lambda>f. to_slash (path_dir (sqliteBasePath f)))"

definition buildSQLiteCorrelatedFindings :: "place rearrangement \<Rightarrow> Finding list \<Rightarrow> Finding list option" where
  "buildSQLiteCorrelatedFindings order fs =
     build order sqlite_place
       (\<lambda>g. pair_of newSQLiteCorrelatedFinding (of_family sqliteCorrelationFamily ''sqlite'' g)
              (of_family sqliteCorrelationFamily ''support'' g)) fs"

subsection \<open>The findings of the report\<close>

text \<open>The orders in which the maps of one call are visited.\<close>

record report_orders =
  ro_first :: "string rearrangement"
  ro_places :: "string \<Rightarrow> place rearrangement"
  ro_artifacts :: "string rearrangement"
  ro_paths :: "string rearrangement"
  ro_last :: "string rearrangement"

definition synthetic_findings :: "report_orders \<Rightarrow> Finding list \<Rightarrow> Finding list option" where
  "synthetic_findings ro out =
     map_option concat (those
       [buildADCorrelatedFindings (ro_places ro ''ad'') out,
        buildAWSCorrelatedFindings (ro_places ro ''aws'') out,
        buildPrivateKeyCorrelatedFindings (ro_places ro ''key'') out,
        buildCertificateCorrelatedFindings (ro_places ro ''certificate'') out,
        buildBrowserCredentialStoreCorrelatedFindings (ro_places ro ''browser'') out,
        buildWindowsCredentialStoreCorrelatedFindings (ro_places ro ''windows'') out,
        buildBackupCorrelatedFindings (ro_places ro ''backup'') (ro_artifacts ro) (ro_paths ro) out,
        buildSQLiteCorrelatedFindings (ro_places ro ''sqlite'') out])"

fun new_loop :: "string set \<Rightarrow> Finding list \<Rightarrow> Finding list" where
  "new_loop existing [] = []"
| "new_loop existing (f # fs) =
     (let key = correlationFindingKey f in
      if key \<in> existing then new_loop existing fs else f # new_loop (insert key existing) fs)"

definition augmentFindingsForReporting :: "report_orders \<Rightarrow> Finding list \<Rightarrow> Finding list option" where
  "augmentFindingsForReporting ro fs =
     (if length fs = 0 then Some []
      else
        let out = dedupeReportFindings (ro_first ro) (cloneFindings fs) in
        case synthetic_findings ro out of
          None \<Rightarrow> None
        | Some synthetic \<Rightarrow>
            let all = out @ new_loop (set (map correlationFindingKey out)) synthetic
            in Some (slice_sort report_less (dedupeReportFindings (ro_last ro) all)))"

subsection \<open>Every bucket is reported, none fails\<close>

lemma anchor_step_cases: "anchor_step b f = b \<or> anchor_step b f = f"
  by (simp add: anchor_step_def)

lemma foldl_anchor_in: "foldl anchor_step f fs \<in> set (f # fs)"
proof (induction fs arbitrary: f)
  case (Cons g fs)
  from Cons [of "anchor_step f g"] show ?case using anchor_step_cases [of f g] by auto
qed simp

lemma anchor_in: "selectBestCorrelationAnchor g = Some a \<Longrightarrow> a \<in> set g"
  using foldl_anchor_in by (cases g) auto

lemma anchor_None: "selectBestCorrelationAnchor g = None \<longleftrightarrow> g = []"
  by (cases g) auto

definition best :: "Finding list \<Rightarrow> Finding" where
  "best g = the (selectBestCorrelationAnchor g)"

lemma anchor_best: "g \<noteq> [] \<Longrightarrow> selectBestCorrelationAnchor g = Some (best g)"
  by (cases g) (simp_all add: best_def)

lemma best_in: "g \<noteq> [] \<Longrightarrow> best g \<in> set g"
  using anchor_in [OF anchor_best] .

lemma pair_of_total: "pair_of mk l r = Some (if l = [] \<or> r = [] then [] else [mk (best l) (best r)])"
  by (simp add: pair_of_def anchor_best)

lemma build_total:
  assumes "rearranges order" and "\<And>k. k \<in> set (keys_of key fs) \<Longrightarrow> bucket (members key fs k) = Some (h k)"
  shows "build order key bucket fs = Some (concat (map h (order (keys_of key fs))))"
proof -
  have "those (map (\<lambda>k. bucket (the (group_by key fs k))) (order (keys_of key fs))) = Some (map h (order (keys_of key fs)))"
    by (rule those_map) (simp add: the_group_by assms rearranges_set)
  then show ?thesis by (simp add: build_def)
qed

text \<open>The findings of one kind at one place.\<close>

definition at_place :: "(Finding \<Rightarrow> 'k option) \<Rightarrow> (Finding \<Rightarrow> string) \<Rightarrow> string \<Rightarrow> Finding list \<Rightarrow> 'k \<Rightarrow> Finding list" where
  "at_place key fam name fs k = filter (\<lambda>f. key f = Some k \<and> fam f = name) fs"

lemma of_family_members: "of_family fam name (members key fs k) = at_place key fam name fs k"
  by (simp add: of_family_def members_def at_place_def conj_commute)

text \<open>What a builder reports that asks for two kinds of findings.\<close>

definition pairs_of :: "(Finding \<Rightarrow> place option) \<Rightarrow> (Finding \<Rightarrow> string) \<Rightarrow> string \<Rightarrow> string \<Rightarrow>
    (Finding \<Rightarrow> Finding \<Rightarrow> Finding) \<Rightarrow> Finding list \<Rightarrow> Finding multiset" where
  "pairs_of key fam l r mk fs =
     mset (map (\<lambda>k. mk (best (at_place key fam l fs k)) (best (at_place key fam r fs k)))
       (filter (\<lambda>k. at_place key fam l fs k \<noteq> [] \<and> at_place key fam r fs k \<noteq> []) (keys_of key fs)))"

lemma concat_if: "concat (map (\<lambda>k. if P k then [] else [h k]) ks) = map h (filter (\<lambda>k. \<not> P k) ks)"
  by (induction ks) auto

lemma rearranged_map_filter:
  "rearranges order \<Longrightarrow> mset (map h (filter P (order ks))) = mset (map h (filter P ks))"
  by (simp add: rearranges_def)

lemma build_pairs:
  assumes "rearranges order"
  shows "\<exists>out. build order key (\<lambda>g. pair_of mk (of_family fam l g) (of_family fam r g)) fs = Some out \<and>
    mset out = pairs_of key fam l r mk fs"
proof -
  let ?L = "at_place key fam l fs" and ?R = "at_place key fam r fs"
  let ?h = "\<lambda>k. if ?L k = [] \<or> ?R k = [] then [] else [mk (best (?L k)) (best (?R k))]"
  have "build order key (\<lambda>g. pair_of mk (of_family fam l g) (of_family fam r g)) fs = Some (concat (map ?h (order (keys_of key fs))))"
    by (rule build_total) (simp_all add: assms pair_of_total of_family_members)
  then show ?thesis
    using rearranged_map_filter [OF assms] by (auto simp: concat_if pairs_of_def)
qed


lemma buckets_total: "private_key_bucket g \<noteq> None" "browser_bucket g \<noteq> None" "windows_bucket g \<noteq> None"
  by (simp_all add: private_key_bucket_def browser_bucket_def windows_bucket_def pair_of_total Let_def)

lemma build_not_None:
  assumes "rearranges order" and "\<And>g. g \<noteq> [] \<Longrightarrow> bucket g \<noteq> None"
  shows "\<exists>out. build order key bucket fs = Some out \<and>
    (\<forall>f \<in> set out. \<exists>k \<in> set (keys_of key fs). f \<in> set (the (bucket (members key fs k))))"
proof -
  let ?h = "\<lambda>k. the (bucket (members key fs k))"
  have "build order key bucket fs = Some (concat (map ?h (order (keys_of key fs))))"
  proof (rule build_total [OF assms(1)])
    fix k assume "k \<in> set (keys_of key fs)"
    then have "bucket (members key fs k) \<noteq> None" by (intro assms(2) members_nonempty)
    then show "bucket (members key fs k) = Some (?h k)" by auto
  qed
  then show ?thesis using rearranges_set [OF assms(1)] by auto
qed

subsection \<open>A bucket of backups has a second artifact\<close>

abbreviation artifacts_of :: "Finding list \<Rightarrow> families" where
  "artifacts_of \<equiv> group_by (family_key backupSecretArtifactFamily)"

definition artifact_names :: "Finding list \<Rightarrow> string list" where
  "artifact_names = keys_of (family_key backupSecretArtifactFamily)"

lemma family_list_group:
  assumes "n \<noteq> []"
  shows "family_list (group_by (family_key fam) g) n = of_family fam n g"
proof -
  have "family_key fam f = Some n \<longleftrightarrow> fam f = n" for f using assms by (auto simp: family_key_def)
  then show ?thesis by (simp add: family_list_def group_by_members members_def of_family_def)
qed

lemma backup_family_cases:
  "backupSecretArtifactFamily f \<noteq> [] \<Longrightarrow> backupSecretArtifactFamily f \<in> set [''ntds'', ''system'', ''sam'', ''security'']"
  unfolding backupSecretArtifactFamily_def Let_def by (auto split: if_splits)

lemma backup_family_same_file:
  "f_FilePath f = f_FilePath h \<Longrightarrow> f_RuleID f = f_RuleID h \<Longrightarrow> backupSecretArtifactFamily f = backupSecretArtifactFamily h"
  by (simp add: backupSecretArtifactFamily_def)

lemma artifact_names_iff:
  "n \<in> set (artifact_names g) \<longleftrightarrow> n \<noteq> [] \<and> of_family backupSecretArtifactFamily n g \<noteq> []"
  by (auto simp: artifact_names_def set_keys_of family_key_def of_family_def filter_empty_conv)

lemma those_anchor:
  "(\<And>x. x \<in> set xs \<Longrightarrow> h x \<noteq> []) \<Longrightarrow> those (map (\<lambda>x. selectBestCorrelationAnchor (h x)) xs) = Some (map (\<lambda>x. best (h x)) xs)"
  by (rule those_map) (simp add: anchor_best)

lemma list_nonempty: "x \<in> set xs \<Longrightarrow> xs \<noteq> []"
  by auto

lemma backup_primary:
  assumes "artifact_names g \<noteq> []"
  shows "\<exists>p. selectBestBackupPrimary (artifacts_of g) = Some p \<and> p \<in> set g \<and> backupSecretArtifactFamily p \<noteq> []"
proof -
  let ?fam = "backupSecretArtifactFamily" and ?l = "\<lambda>n. family_list (artifacts_of g) n"
  define hives where "hives = [''ntds'', ''system'', ''sam'', ''security'']"
  let ?ns = "filter (\<lambda>n. ?l n \<noteq> []) hives"
  obtain n where "n \<in> set (artifact_names g)" using assms by (cases "artifact_names g") auto
  then have n: "n \<noteq> []" "of_family ?fam n g \<noteq> []" by (simp_all add: artifact_names_iff)
  then obtain f where "f \<in> set g" "?fam f = n" by (auto simp: of_family_def filter_empty_conv)
  then have "n \<in> set hives" using backup_family_cases [of f] n(1) unfolding hives_def by blast
  moreover have "?l n \<noteq> []" using n by (simp add: family_list_group)
  ultimately have "n \<in> set ?ns" unfolding set_filter by blast
  then have ne: "?ns \<noteq> []" by (rule list_nonempty)
  let ?c = "map (\<lambda>n. best (?l n)) ?ns"
  have "those (map (\<lambda>n. selectBestCorrelationAnchor (?l n)) ?ns) = Some ?c" by (rule those_anchor) simp
  then have p: "selectBestBackupPrimary (artifacts_of g) = Some (best ?c)"
    using ne by (simp add: selectBestBackupPrimary_def hives_def [symmetric] anchor_best)
  have "best ?c \<in> set ?c" using ne by (intro best_in) simp
  then obtain m where m: "m \<in> set ?ns" "best ?c = best (?l m)" by auto
  have "[] \<notin> set hives" by (simp add: hives_def)
  with m(1) have nn: "m \<noteq> []" "?l m \<noteq> []" by auto
  then have "best (?l m) \<in> set (of_family ?fam m g)" using best_in [OF nn(2)] by (simp add: family_list_group)
  then have "best ?c \<in> set g \<and> ?fam (best ?c) \<noteq> []" using m(2) nn(1) by (simp add: of_family_def)
  with p show ?thesis by blast
qed

lemma backup_support:
  assumes "rearranges order" and "length (artifact_names g) \<ge> 2" and "p \<in> set g"
  shows "\<exists>s. selectBestBackupSupport (order (artifact_names g)) (artifacts_of g) p = Some s \<and> s \<in> set g \<and>
    backupSecretArtifactFamily s \<noteq> [] \<and> \<not> (f_FilePath s = f_FilePath p \<and> f_RuleID s = f_RuleID p)"
proof -
  let ?fam = "backupSecretArtifactFamily"
  let ?all = "concat (map (family_list (artifacts_of g)) (order (artifact_names g)))"
  let ?c = "filter (\<lambda>f. \<not> (f_FilePath f = f_FilePath p \<and> f_RuleID f = f_RuleID p)) ?all"
  have "\<not> set (artifact_names g) \<subseteq> {?fam p}"
  proof
    assume "set (artifact_names g) \<subseteq> {?fam p}"
    then have "card (set (artifact_names g)) \<le> 1" using card_mono [of "{?fam p}"] by fastforce
    moreover have "card (set (artifact_names g)) = length (artifact_names g)"
      by (rule distinct_card) (simp add: artifact_names_def)
    ultimately show False using assms(2) by simp
  qed
  then obtain n where n: "n \<in> set (artifact_names g)" "n \<noteq> ?fam p" by blast
  then obtain f where f: "f \<in> set g" "?fam f = n" "n \<noteq> []"
    by (auto simp: artifact_names_iff of_family_def filter_empty_conv)
  have all: "set ?all = {f \<in> set g. ?fam f \<noteq> []}"
    using rearranges_set [OF assms(1)]
    by (auto simp: artifact_names_iff family_list_group of_family_def filter_empty_conv)
  have "f \<in> set ?c" using f n(2) backup_family_same_file [of f p] all by auto
  then have ne: "?c \<noteq> []" by (rule list_nonempty)
  have "best ?c \<in> set ?c" using ne by (rule best_in)
  then have "best ?c \<in> set g \<and> ?fam (best ?c) \<noteq> [] \<and> \<not> (f_FilePath (best ?c) = f_FilePath p \<and> f_RuleID (best ?c) = f_RuleID p)"
    using all by auto
  then show ?thesis using anchor_best [OF ne] by (simp add: selectBestBackupSupport_def)
qed

lemma backup_path_support: "selectBestBackupPathSupport names m \<noteq> None"
  using anchor_best [of "concat (map (family_list m) names)"]
  by (cases "concat (map (family_list m) names) = []") (simp_all add: selectBestBackupPathSupport_def Let_def)

lemma backup_bucket_exact:
  assumes "rearranges ao" and "rearranges po"
  shows "\<exists>out. backup_bucket ao po g = Some out \<and> length out = (if length (artifact_names g) < 2 then 0 else 1) \<and>
    (\<forall>f \<in> set out. \<exists>p \<in> set g. \<exists>s \<in> set g. \<exists>w.
       backupSecretArtifactFamily p \<noteq> [] \<and> backupSecretArtifactFamily s \<noteq> [] \<and>
       \<not> (f_FilePath s = f_FilePath p \<and> f_RuleID s = f_RuleID p) \<and>
       f = newBackupCorrelatedFinding p s w (describeBackupArtifactSet (artifacts_of g) (group_by (family_key backupPathFamily) g)))"
proof (cases "length (artifact_names g) < 2")
  case True
  then show ?thesis by (auto simp: backup_bucket_def artifact_names_def)
next
  case False
  let ?pf = "group_by (family_key backupPathFamily) g" and ?pn = "po (keys_of (family_key backupPathFamily) g)"
  have "artifact_names g \<noteq> []" using False by auto
  from backup_primary [OF this] obtain p where p: "selectBestBackupPrimary (artifacts_of g) = Some p" "p \<in> set g"
    "backupSecretArtifactFamily p \<noteq> []" by blast
  from backup_support [OF assms(1) _ p(2)] False obtain s where
    s: "selectBestBackupSupport (ao (artifact_names g)) (artifacts_of g) p = Some s" "s \<in> set g"
      "backupSecretArtifactFamily s \<noteq> []" "\<not> (f_FilePath s = f_FilePath p \<and> f_RuleID s = f_RuleID p)" by fastforce
  obtain w where w: "selectBestBackupPathSupport ?pn ?pf = Some w" using backup_path_support by blast
  have "backup_bucket ao po g = Some [newBackupCorrelatedFinding p s w (describeBackupArtifactSet (artifacts_of g) ?pf)]"
    using False p(1) s(1) w by (simp add: backup_bucket_def artifact_names_def)
  then show ?thesis using False p(2,3) s(2-4) by fastforce
qed


subsection \<open>The report keeps every finding\<close>

definition orders_fair :: "report_orders \<Rightarrow> bool" where
  "orders_fair ro \<longleftrightarrow> rearranges (ro_first ro) \<and> (\<forall>n. rearranges (ro_places ro n)) \<and> rearranges (ro_artifacts ro) \<and>
     rearranges (ro_paths ro) \<and> rearranges (ro_last ro)"

definition correlation_rules :: "string set" where
  "correlation_rules = {adCorrelationRuleID, awsProfileCorrelationRuleID, privateKeyCorrelationRuleID,
     certificateBundleCorrelationRuleID, browserCredCorrelationRuleID, windowsCredCorrelationRuleID,
     backupCorrelationRuleID, sqliteCorrelationRuleID}"

text \<open>What each correlated finding of the report is.\<close>

definition is_correlated :: "Finding \<Rightarrow> bool" where
  "is_correlated f \<longleftrightarrow> f_RuleID f \<in> correlation_rules \<and> f_Correlated f \<and> f_Actionable f \<and> f_TriageClass f = ''actionable'' \<and>
     f_Severity f \<in> {''high'', ''critical''} \<and> 76 \<le> f_ConfidenceScore f \<and> f_ConfidenceScore f \<le> 88 \<and>
     cb_FinalScore (f_ConfidenceBreakdown f) = f_ConfidenceScore f"

lemmas paired_defs = shown_def with_archive_def paired_def zero_finding_def score_breakdown_def no_breakdown_def
  is_correlated_def correlation_rules_def Let_def

lemma is_correlated_pairs:
  "is_correlated (newADCorrelatedFinding a b)" "is_correlated (newAWSCorrelatedFinding a b)"
  "is_correlated (newPrivateKeyCorrelatedFinding kind a b)" "is_correlated (newCertificateCorrelatedFinding a b)"
  "is_correlated (newWindowsCredentialStoreCorrelatedFinding m a b)" "is_correlated (newSQLiteCorrelatedFinding a b)"
  "is_correlated (newBackupCorrelatedFinding a b w m)"
  "sev \<in> {''high'', ''critical''} \<Longrightarrow> 76 \<le> score \<Longrightarrow> score \<le> 88 \<Longrightarrow>
     is_correlated (newBrowserCredentialStoreCorrelatedFinding m sev score a b)"
  by (simp_all add: newADCorrelatedFinding_def newAWSCorrelatedFinding_def newPrivateKeyCorrelatedFinding_def
      newCertificateCorrelatedFinding_def newWindowsCredentialStoreCorrelatedFinding_def newSQLiteCorrelatedFinding_def
      newBackupCorrelatedFinding_def newBrowserCredentialStoreCorrelatedFinding_def paired_defs)

definition reports_correlated :: "Finding list option \<Rightarrow> bool" where
  "reports_correlated r \<longleftrightarrow> (\<exists>out. r = Some out \<and> (\<forall>f \<in> set out. is_correlated f))"

lemma pair_of_correlated: "(\<And>a b. is_correlated (mk a b)) \<Longrightarrow> reports_correlated (pair_of mk l r)"
  by (simp add: reports_correlated_def pair_of_total)

lemma build_correlated:
  assumes "rearranges order" and "\<And>g. reports_correlated (bucket g)"
  shows "reports_correlated (build order key bucket fs)"
proof -
  have b: "bucket g \<noteq> None" "\<forall>f \<in> set (the (bucket g)). is_correlated f" for g
    using assms(2) [of g] by (auto simp: reports_correlated_def)
  from build_not_None [OF assms(1), of bucket key fs] b(1) obtain out where
    "build order key bucket fs = Some out"
    "\<forall>f \<in> set out. \<exists>k \<in> set (keys_of key fs). f \<in> set (the (bucket (members key fs k)))" by blast
  with b(2) show ?thesis unfolding reports_correlated_def by blast
qed

lemma buckets_correlated:
  "reports_correlated (private_key_bucket g)" "reports_correlated (browser_bucket g)" "reports_correlated (windows_bucket g)"
  unfolding private_key_bucket_def browser_bucket_def windows_bucket_def Let_def
  by (simp_all add: pair_of_correlated is_correlated_pairs)

lemma backup_bucket_correlated:
  assumes "rearranges ao" and "rearranges po"
  shows "reports_correlated (backup_bucket ao po g)"
proof -
  from backup_bucket_exact [OF assms, of g] obtain out where
    "backup_bucket ao po g = Some out" and o: "\<forall>f \<in> set out. \<exists>p \<in> set g. \<exists>s \<in> set g. \<exists>w.
       backupSecretArtifactFamily p \<noteq> [] \<and> backupSecretArtifactFamily s \<noteq> [] \<and>
       \<not> (f_FilePath s = f_FilePath p \<and> f_RuleID s = f_RuleID p) \<and>
       f = newBackupCorrelatedFinding p s w (describeBackupArtifactSet (artifacts_of g) (group_by (family_key backupPathFamily) g))"
    by blast
  moreover have "is_correlated f" if "f \<in> set out" for f
  proof -
    from o that obtain p s w where
      "f = newBackupCorrelatedFinding p s w (describeBackupArtifactSet (artifacts_of g) (group_by (family_key backupPathFamily) g))"
      by blast
    then show ?thesis by (simp only: is_correlated_pairs)
  qed
  ultimately show ?thesis unfolding reports_correlated_def by blast
qed

lemma those_correlated:
  "(\<And>r. r \<in> set rs \<Longrightarrow> reports_correlated r) \<Longrightarrow> reports_correlated (map_option concat (those rs))"
proof (induction rs)
  case (Cons r rs)
  then obtain a b where "r = Some a" "\<forall>f \<in> set a. is_correlated f"
    "those rs = Some b" "\<forall>f \<in> set (concat b). is_correlated f"
    unfolding reports_correlated_def by fastforce
  then show ?case by (auto simp: reports_correlated_def)
qed (simp add: reports_correlated_def)

lemma synthetic_correlated:
  assumes "orders_fair ro"
  shows "reports_correlated (synthetic_findings ro out)"
  unfolding synthetic_findings_def
proof (rule those_correlated)
  have r: "rearranges (ro_places ro n)" "rearranges (ro_artifacts ro)" "rearranges (ro_paths ro)" for n
    using assms by (simp_all add: orders_fair_def)
  fix r assume "r \<in> set [buildADCorrelatedFindings (ro_places ro ''ad'') out,
        buildAWSCorrelatedFindings (ro_places ro ''aws'') out,
        buildPrivateKeyCorrelatedFindings (ro_places ro ''key'') out,
        buildCertificateCorrelatedFindings (ro_places ro ''certificate'') out,
        buildBrowserCredentialStoreCorrelatedFindings (ro_places ro ''browser'') out,
        buildWindowsCredentialStoreCorrelatedFindings (ro_places ro ''windows'') out,
        buildBackupCorrelatedFindings (ro_places ro ''backup'') (ro_artifacts ro) (ro_paths ro) out,
        buildSQLiteCorrelatedFindings (ro_places ro ''sqlite'') out]"
  then show "reports_correlated r"
    unfolding buildADCorrelatedFindings_def buildAWSCorrelatedFindings_def buildPrivateKeyCorrelatedFindings_def
      buildCertificateCorrelatedFindings_def buildBrowserCredentialStoreCorrelatedFindings_def
      buildWindowsCredentialStoreCorrelatedFindings_def buildBackupCorrelatedFindings_def buildSQLiteCorrelatedFindings_def
      list.set insert_iff empty_iff
    by (elim disjE) (simp_all only: build_correlated r pair_of_correlated is_correlated_pairs buckets_correlated backup_bucket_correlated)
qed

lemma new_loop_exact:
  "set (new_loop ex fs) \<subseteq> set fs \<and> correlationFindingKey ` set fs \<subseteq> ex \<union> correlationFindingKey ` set (new_loop ex fs)"
proof (induction fs arbitrary: ex)
  case (Cons f fs)
  from Cons [of ex] Cons [of "insert (correlationFindingKey f) ex"] show ?case by (auto simp: Let_def)
qed simp

lemma cloneFindings_id [simp]: "cloneFindings fs = fs"
  by (simp add: cloneFindings_def)

text \<open>
  C21: The findings of a report, whatever the orders in which Go visits its maps. Building the report does not fail. The
  evidence of each finding of the scan is in the report, and no evidence is in it twice. The report has no other
  findings than those of the scan and correlated ones, which are actionable, of severity high or critical, with a
  score from 76 to 88 that the breakdown agrees with. Each correlated finding that was built is in the report, or another
  one for the same rule and file. The findings come by falling severity, then by host, share and path.
\<close>

theorem report_accounts:
  assumes "orders_fair ro"
  shows "\<exists>out. augmentFindingsForReporting ro fs = Some out \<and>
    distinct (map reportFindingDedupKey out) \<and>
    reportFindingDedupKey ` set fs \<subseteq> reportFindingDedupKey ` set out \<and>
    (\<forall>f \<in> set out. f \<in> set fs \<or> is_correlated f) \<and>
    (fs \<noteq> [] \<longrightarrow> (\<exists>synthetic. synthetic_findings ro (dedupeReportFindings (ro_first ro) fs) = Some synthetic \<and>
       (\<forall>s \<in> set synthetic. \<exists>g \<in> set fs \<union> set synthetic.
          correlationFindingKey g = correlationFindingKey s \<and> reportFindingDedupKey g \<in> reportFindingDedupKey ` set out))) \<and>
    sorted (map report_key out)"
proof (cases "fs = []")
  case True
  then show ?thesis by (simp add: augmentFindingsForReporting_def)
next
  case False
  have r: "rearranges (ro_first ro)" "rearranges (ro_last ro)" using assms by (simp_all add: orders_fair_def)
  let ?first = "dedupeReportFindings (ro_first ro) fs"
  obtain syn where syn: "synthetic_findings ro ?first = Some syn" "\<forall>f \<in> set syn. is_correlated f"
    using synthetic_correlated [OF assms] unfolding reports_correlated_def by blast
  let ?new = "new_loop (set (map correlationFindingKey ?first)) syn"
  let ?out = "slice_sort report_less (dedupeReportFindings (ro_last ro) (?first @ ?new))"
  note new = new_loop_exact [of "set (map correlationFindingKey ?first)" syn]
  have keys: "reportFindingDedupKey ` set ?out = reportFindingDedupKey ` set fs \<union> reportFindingDedupKey ` set ?new"
    by (simp add: dedup_complete r image_Un)
  show ?thesis
  proof (intro exI conjI impI ballI)
    show "augmentFindingsForReporting ro fs = Some ?out"
      using False syn(1) by (simp add: augmentFindingsForReporting_def Let_def)
    have "mset (map reportFindingDedupKey ?out) = mset (map reportFindingDedupKey (dedupeReportFindings (ro_last ro) (?first @ ?new)))"
      by simp
    from mset_eq_imp_distinct_iff [OF this] show "distinct (map reportFindingDedupKey ?out)"
      using dedup_distinct [OF r(2)] by simp
    show "reportFindingDedupKey ` set fs \<subseteq> reportFindingDedupKey ` set ?out" unfolding keys by simp
    show "f \<in> set fs \<or> is_correlated f" if "f \<in> set ?out" for f
      using that dedup_sound [OF r(2), of "?first @ ?new"] dedup_sound [OF r(1), of fs] new syn(2) by auto
    show "synthetic_findings ro ?first = Some syn" by (rule syn(1))
    show "\<exists>g \<in> set fs \<union> set syn. correlationFindingKey g = correlationFindingKey s \<and>
        reportFindingDedupKey g \<in> reportFindingDedupKey ` set ?out" if s: "s \<in> set syn" for s
    proof -
      from s new have "correlationFindingKey s \<in> correlationFindingKey ` (set ?first \<union> set ?new)" by auto
      then obtain g where g: "correlationFindingKey g = correlationFindingKey s" "g \<in> set ?first \<union> set ?new" by force
      moreover have "g \<in> set fs \<union> set syn" using g(2) dedup_sound [OF r(1), of fs] new by auto
      moreover have "reportFindingDedupKey g \<in> reportFindingDedupKey ` set ?out"
        unfolding keys using g(2) dedup_sound [OF r(1), of fs] by auto
      ultimately show ?thesis by blast
    qed
    show "sorted (map report_key ?out)" by (rule report_order.ordered)
  qed
qed


subsection \<open>Concrete reports\<close>

definition hive_finding :: "string \<Rightarrow> string \<Rightarrow> string \<Rightarrow> int \<Rightarrow> Finding" where
  "hive_finding rule host path score = zero_finding\<lparr>f_RuleID := rule, f_Severity := ''high'', f_Host := host, f_Share := ''data'',
     f_FilePath := path, f_ConfidenceScore := score, f_MatchedText := path\<rparr>"

definition demo_hives :: "Finding list" where
  "demo_hives = [hive_finding ''r1'' ''dc'' ''X/Windows/Repair/ntds.dit'' 60, hive_finding ''r2'' ''dc'' ''X/Windows/Repair/SYSTEM'' 50,
     hive_finding ''r3'' ''other'' ''X/Windows/Repair/SAM'' 50]"

definition demo_orders_of_report :: report_orders where
  "demo_orders_of_report = \<lparr>ro_first = rev, ro_places = (\<lambda>n ks. ks), ro_artifacts = rev, ro_paths = rev, ro_last = (\<lambda>ks. ks)\<rparr>"



lemma report_accounts_witness:
  "\<exists>out. augmentFindingsForReporting demo_orders_of_report demo_hives = Some out \<and>
     distinct (map reportFindingDedupKey out) \<and> reportFindingDedupKey ` set demo_hives \<subseteq> reportFindingDedupKey ` set out"
proof -
  have "orders_fair demo_orders_of_report" by (simp add: orders_fair_def demo_orders_of_report_def)
  from report_accounts [OF this, of demo_hives] show ?thesis by blast
qed

text \<open>
  The anchor of a pair is not the best finding: a finding replaces a better one when its path is smaller, and which one is
  taken depends on the order of the findings.
\<close>

lemma anchor_takes_weaker:
  "selectBestCorrelationAnchor [hive_finding ''r1'' ''dc'' ''b/ntds.dit'' 90, hive_finding ''r2'' ''dc'' ''a/ntds.dit'' 10] =
     Some (hive_finding ''r2'' ''dc'' ''a/ntds.dit'' 10) \<and>
   selectBestCorrelationAnchor [hive_finding ''r2'' ''dc'' ''a/ntds.dit'' 10, hive_finding ''r1'' ''dc'' ''b/ntds.dit'' 90] =
     Some (hive_finding ''r1'' ''dc'' ''b/ntds.dit'' 90)"
  by (simp add: anchor_step_def hive_finding_def)

text \<open>The second artifact of a backup finding can be the file of the first, found by another rule.\<close>

lemma backup_support_same_file:
  "map_option (map (\<lambda>f. split_on CHR 0x0A (f_Context f)))
     (buildBackupCorrelatedFindings (\<lambda>ks. ks) (\<lambda>ks. ks) (\<lambda>ks. ks)
       [hive_finding ''r1'' ''dc'' ''X/Windows/Repair/SYSTEM'' 50, hive_finding ''r2'' ''dc'' ''X/Windows/Repair/NTDS.DIT'' 90,
        hive_finding ''r3'' ''dc'' ''X/Windows/Repair/NTDS.DIT'' 80]) =
   Some [[''Paired backup context:'', ''X/Windows/Repair/NTDS.DIT'', ''X/Windows/Repair/NTDS.DIT'']]"
  by code_simp

text \<open>The contributions of the breakdown and the weights of the signals do not add up to the score of an AWS pair.\<close>

lemma aws_weights_disagree:
  "sum_list (map ss_Weight (f_SupportingSignals (newAWSCorrelatedFinding a b))) = 74"
  "f_ConfidenceScore (newAWSCorrelatedFinding a b) \<in> {78, 84}"
  by (simp_all add: newAWSCorrelatedFinding_def shown_def with_archive_def paired_def Let_def artifact_signal_def
      path_signal_def correlation_signal_def)

end
