(* ===== verification/AccessPaths.thy ===== *)
theory AccessPaths
  imports ReportCorrelation
begin

text \<open>
  The access paths of a report (\<open>internal/output/access_paths.go\<close>): each correlated finding is classified, scored and
  ranked.
\<close>

subsection \<open>Classification\<close>

record accessPathSummary =
  ap_Rank :: nat
  ap_RuleID :: string
  ap_Type :: string
  ap_BaseType :: string
  ap_Label :: string
  ap_WhyItMatters :: string
  ap_AccessHint :: string
  ap_Severity :: string
  ap_Confidence :: string
  ap_Category :: string
  ap_Host :: string
  ap_Share :: string
  ap_PrimaryPath :: string
  ap_ExploitabilityScore :: int
  ap_PriorityTier :: string
  ap_Completeness :: string
  ap_ArchiveDerived :: bool
  ap_RelatedArtifacts :: "string list"

record accessPathClass =
  pc_Type :: string
  pc_BaseType :: string
  pc_Label :: string
  pc_Why :: string
  pc_AccessHint :: string
  pc_Completeness :: string
  pc_Score :: int

definition path_class :: "string \<Rightarrow> string \<Rightarrow> string \<Rightarrow> string \<Rightarrow> string \<Rightarrow> int \<Rightarrow> accessPathClass" where
  "path_class type label why hint completeness score =
     \<lparr>pc_Type = type, pc_BaseType = [], pc_Label = label, pc_Why = why, pc_AccessHint = hint,
      pc_Completeness = completeness, pc_Score = score\<rparr>"

definition countArtifactFamilies :: "string \<Rightarrow> nat" where
  "countArtifactFamilies match = length (filter (contains match) [''ntds'', ''system'', ''sam'', ''security''])"

definition accessPathClassification :: "string \<Rightarrow> Finding \<Rightarrow> accessPathClass" where
  "accessPathClassification ruleID f =
     (let match = norm_text (f_Match f); ctx = norm_text (f_Context f) in
      if ruleID = adCorrelationRuleID then
        path_class ''ad-compromise-path'' ''AD compromise path''
          ''NTDS and SYSTEM together strongly indicate offline domain credential extraction exposure.''
          ''offline extraction of domain credential material'' ''complete'' 95
      else if ruleID = awsProfileCorrelationRuleID then
        path_class ''cloud-credential-path'' ''AWS credential profile''
          ''AWS shared credentials paired with shared config indicate likely reusable CLI or API access material.''
          ''direct AWS CLI or API access using exposed shared-profile credentials'' ''paired'' 88
      else if ruleID = windowsCredCorrelationRuleID then
        (let complete = contains match ''credentials'' \<and> contains match ''vault'' \<and> contains match ''protect''
         in path_class ''windows-credential-store-exposure'' ''Windows credential-store exposure''
              ''DPAPI Protect material with Windows credential-store artifacts can enable offline credential recovery workflows.''
              ''offline recovery of saved Windows credentials or web secrets''
              (if complete then ''complete'' else ''paired'') (if complete then 88 else 84))
      else if ruleID = privateKeyCorrelationRuleID then
        (if contains match ''client-auth'' then
           path_class ''vpn-client-auth-access-path'' ''VPN/client-auth access path''
             ''Private key material plus nearby client-auth artifacts suggests a reusable remote-access bundle.''
             ''direct VPN or client-auth access with bundled key material'' ''complete'' 86
         else
           path_class ''ssh-access-path'' ''SSH access path''
             ''Private key material plus nearby SSH support artifacts suggests a likely reusable SSH access path.''
             ''direct SSH access with exposed private key material'' ''paired'' 78)
      else if ruleID = certificateBundleCorrelationRuleID then
        path_class ''certificate-client-auth-path'' ''Certificate/client-auth bundle''
          ''PKCS#12 certificate material plus nearby password evidence suggests a reusable client-auth bundle.''
          ''direct certificate-based VPN, client-auth, or application access using an importable PKCS#12 bundle'' ''paired'' 88
      else if ruleID = browserCredCorrelationRuleID then
        path_class ''browser-credential-store-exposure'' ''Browser credential-store exposure''
          ''Exact paired browser profile artifacts suggest offline credential or session extraction may be possible from the exposed profile.''
          ''offline extraction of saved browser credentials or session material'' ''paired''
          (if contains match ''firefox'' then 76 else 72)
      else if ruleID = sqliteCorrelationRuleID then
        (if list_ex (contains ctx) [''.env'', ''appsettings.json'', ''web.config'', ''docker-compose.yml''] then
           path_class ''application-credential-path'' ''Application credential path''
             ''SQLite credential evidence reinforced by nearby application config suggests a usable application access path.''
             ''application login or service access using reinforced local credential material'' ''paired'' 80
         else
           path_class ''database-access-path'' ''Database access path''
             ''SQLite credential evidence reinforced by nearby database or backup context suggests a usable database access path.''
             ''database or service access from recovered local credential material'' ''paired'' 78)
      else if ruleID = backupCorrelationRuleID then
        (let complete = contains match ''ntds'' \<and> contains match ''system'';
             multi = countArtifactFamilies match \<ge> 3
         in path_class ''backup-exposure-path'' ''System-state backup exposure''
              ''Grouped system-state backup artifacts suggest offline credential extraction or system-state recovery exposure.''
              ''offline extraction from copied hives or AD backup material''
              (if complete then ''complete'' else if multi then ''multi-artifact'' else ''paired'')
              (if complete then 92 else if multi then 90 else 88))
      else path_class [] [] [] [] [] 0)"

definition completenessBonus :: "string \<Rightarrow> int" where
  "completenessBonus completeness =
     (let c = norm_text completeness in
      if c = ''complete'' then 4 else if c = ''multi-artifact'' then 6 else if c = ''paired'' then 2 else 0)"

definition archiveBonus :: "Finding \<Rightarrow> int" where
  "archiveBonus f = (if trim_space (f_ArchivePath f) = [] then 0 else 2)"

definition exploitabilityTier :: "int \<Rightarrow> string" where
  "exploitabilityTier score = (if score \<ge> 90 then ''high'' else if score \<ge> 75 then ''medium'' else ''low'')"

definition extractRelatedArtifacts :: "Finding \<Rightarrow> string list" where
  "extractRelatedArtifacts f =
     (let out = filter (\<lambda>line. \<not> (line = [] \<or> contains (to_lower line) ''paired '' \<or> contains (to_lower line) ''context:''))
            (map trim_space (split_on CHR 0x0A (trim_space (f_Context f))));
          out2 = (if out = [] \<and> trim_space (f_FilePath f) \<noteq> [] then [f_FilePath f] else out)
      in uniqueStrings out2)"

definition classifyAccessPath :: "Finding \<Rightarrow> accessPathSummary option" where
  "classifyAccessPath f =
     (let base = accessPathClassification (norm_text (f_RuleID f)) f in
      if pc_Type base = [] then None
      else
        let score0 = pc_Score base + completenessBonus (pc_Completeness base) + archiveBonus f;
            score = (if score0 > 100 then 100 else score0);
            summary = \<lparr>ap_Rank = 0, ap_RuleID = trim_space (f_RuleID f), ap_Type = pc_Type base, ap_BaseType = pc_BaseType base,
              ap_Label = pc_Label base, ap_WhyItMatters = pc_Why base, ap_AccessHint = pc_AccessHint base,
              ap_Severity = trim_space (f_Severity f), ap_Confidence = trim_space (f_Confidence f),
              ap_Category = trim_space (f_Category f), ap_Host = trim_space (f_Host f), ap_Share = trim_space (f_Share f),
              ap_PrimaryPath = trim_space (f_FilePath f), ap_ExploitabilityScore = score,
              ap_PriorityTier = exploitabilityTier score, ap_Completeness = pc_Completeness base,
              ap_ArchiveDerived = (trim_space (f_ArchivePath f) \<noteq> []), ap_RelatedArtifacts = extractRelatedArtifacts f\<rparr>
        in Some (if ap_ArchiveDerived summary then
             summary\<lparr>ap_BaseType := ap_Type summary, ap_Type := ''archive-derived-credential-cluster'',
               ap_Label := ''Archive-derived credential cluster'',
               ap_AccessHint := (if ap_AccessHint summary = []
                 then ''contained within an inspected archive and may enable offline credential or access-material recovery''
                 else ap_AccessHint summary)\<rparr>
           else summary))"

subsection \<open>Ranking\<close>

definition path_less :: "accessPathSummary \<Rightarrow> accessPathSummary \<Rightarrow> bool" where
  "path_less a b =
     (if ap_ExploitabilityScore a \<noteq> ap_ExploitabilityScore b then ap_ExploitabilityScore a > ap_ExploitabilityScore b
      else if out_severityRank (ap_Severity a) \<noteq> out_severityRank (ap_Severity b)
      then out_severityRank (ap_Severity a) > out_severityRank (ap_Severity b)
      else if length (ap_RelatedArtifacts a) \<noteq> length (ap_RelatedArtifacts b)
      then length (ap_RelatedArtifacts a) > length (ap_RelatedArtifacts b)
      else if ap_Host a \<noteq> ap_Host b then ap_Host a < ap_Host b
      else if ap_Share a \<noteq> ap_Share b then ap_Share a < ap_Share b
      else if ap_PrimaryPath a \<noteq> ap_PrimaryPath b then ap_PrimaryPath a < ap_PrimaryPath b
      else ap_RuleID a < ap_RuleID b)"

definition path_key :: "accessPathSummary \<Rightarrow> int \<times> int \<times> int \<times> string \<times> string \<times> string \<times> string" where
  "path_key a = (- ap_ExploitabilityScore a, - int (out_severityRank (ap_Severity a)), - int (length (ap_RelatedArtifacts a)),
     ap_Host a, ap_Share a, ap_PrimaryPath a, ap_RuleID a)"

interpretation path_order: key_order path_less path_key
  by unfold_locales (auto simp: path_less_def path_key_def)

definition rank_all :: "accessPathSummary list \<Rightarrow> accessPathSummary list" where
  "rank_all ss = map (\<lambda>(i, s). s\<lparr>ap_Rank := i + 1\<rparr>) (enumerate 0 ss)"

definition buildAccessPathSummaries :: "Finding list \<Rightarrow> accessPathSummary list" where
  "buildAccessPathSummaries fs =
     rank_all (slice_sort path_less (List.map_filter classifyAccessPath (filter f_Correlated fs)))"

definition topAccessPaths :: "accessPathSummary list \<Rightarrow> int \<Rightarrow> accessPathSummary list" where
  "topAccessPaths items limit = (if limit \<le> 0 \<or> int (length items) \<le> limit then items else take (nat limit) items)"

definition accessPathSummaryLabel :: "accessPathSummary \<Rightarrow> string" where
  "accessPathSummaryLabel s = out_firstNonEmpty [ap_Label s, replace_char CHR ''-'' '' '' (ap_Type s)]"

definition accessPathPrimaryArtifact :: "accessPathSummary \<Rightarrow> string" where
  "accessPathPrimaryArtifact s = path_base (trim_space (ap_PrimaryPath s))"

subsection \<open>Each correlated finding of the report has its path\<close>

lemma norm_rules [simp]:
  "norm_text adCorrelationRuleID = adCorrelationRuleID" "norm_text awsProfileCorrelationRuleID = awsProfileCorrelationRuleID"
  "norm_text privateKeyCorrelationRuleID = privateKeyCorrelationRuleID"
  "norm_text certificateBundleCorrelationRuleID = certificateBundleCorrelationRuleID"
  "norm_text browserCredCorrelationRuleID = browserCredCorrelationRuleID"
  "norm_text windowsCredCorrelationRuleID = windowsCredCorrelationRuleID"
  "norm_text backupCorrelationRuleID = backupCorrelationRuleID" "norm_text sqliteCorrelationRuleID = sqliteCorrelationRuleID"
  by code_simp+

lemma norm_rule: "r \<in> correlation_rules \<Longrightarrow> norm_text r = r"
  by (auto simp: correlation_rules_def)

lemma classified_iff: "pc_Type (accessPathClassification r f) = [] \<longleftrightarrow> r \<notin> correlation_rules"
  by (simp add: accessPathClassification_def path_class_def correlation_rules_def Let_def)

lemmas rule_id_defs = adCorrelationRuleID_def awsProfileCorrelationRuleID_def privateKeyCorrelationRuleID_def
  certificateBundleCorrelationRuleID_def browserCredCorrelationRuleID_def windowsCredCorrelationRuleID_def
  backupCorrelationRuleID_def sqliteCorrelationRuleID_def

lemma class_score: "r \<in> correlation_rules \<Longrightarrow> 72 \<le> pc_Score (accessPathClassification r f)"
  unfolding correlation_rules_def
  by (elim insertE emptyE) (simp_all add: accessPathClassification_def path_class_def Let_def rule_id_defs)

lemma bonus_bounds: "completenessBonus c \<in> {0, 2, 4, 6}" "archiveBonus f \<in> {0, 2}"
  by (auto simp: completenessBonus_def archiveBonus_def Let_def)

lemma classify_iff: "classifyAccessPath f = None \<longleftrightarrow> norm_text (f_RuleID f) \<notin> correlation_rules"
  by (simp add: classifyAccessPath_def classified_iff Let_def)

definition path_ok :: "accessPathSummary \<Rightarrow> bool" where
  "path_ok s \<longleftrightarrow> 72 \<le> ap_ExploitabilityScore s \<and> ap_ExploitabilityScore s \<le> 100 \<and>
     ap_PriorityTier s = exploitabilityTier (ap_ExploitabilityScore s) \<and>
     (ap_ArchiveDerived s \<longrightarrow> ap_Type s = ''archive-derived-credential-cluster'' \<and> ap_BaseType s \<noteq> []) \<and>
     (\<not> ap_ArchiveDerived s \<longrightarrow> ap_Type s \<noteq> [] \<and> ap_BaseType s = [])"

lemma class_base: "pc_BaseType (accessPathClassification r f) = []"
  by (simp add: accessPathClassification_def path_class_def Let_def)

lemma classify_ok: "classifyAccessPath f = Some s \<Longrightarrow> path_ok s"
proof -
  assume s: "classifyAccessPath f = Some s"
  let ?c = "accessPathClassification (norm_text (f_RuleID f)) f"
  have ty: "pc_Type ?c \<noteq> []" using s by (auto simp: classifyAccessPath_def Let_def split: if_splits)
  then have "72 \<le> pc_Score ?c" using class_score classified_iff by blast
  moreover have "0 \<le> completenessBonus (pc_Completeness ?c)" "0 \<le> archiveBonus f"
    using bonus_bounds(1) [of "pc_Completeness ?c"] bonus_bounds(2) [of f] by auto
  ultimately show ?thesis
    using s ty class_base by (auto simp: classifyAccessPath_def path_ok_def Let_def split: if_splits)
qed

lemma rank_all_props:
  "map ap_Rank (rank_all ss) = [1..<length ss + 1]" "map (\<lambda>s. s\<lparr>ap_Rank := 0\<rparr>) (rank_all ss) = map (\<lambda>s. s\<lparr>ap_Rank := 0\<rparr>) ss"
  "map path_key (rank_all ss) = map path_key ss"
proof -
  show "map ap_Rank (rank_all ss) = [1..<length ss + 1]"
    by (rule nth_equalityI) (simp_all add: rank_all_def nth_enumerate_eq del: upt_Suc)
  show "map (\<lambda>s. s\<lparr>ap_Rank := 0\<rparr>) (rank_all ss) = map (\<lambda>s. s\<lparr>ap_Rank := 0\<rparr>) ss"
    "map path_key (rank_all ss) = map path_key ss"
    by (rule nth_equalityI; simp add: rank_all_def nth_enumerate_eq path_key_def)+
qed

lemma rank_all_mem: "s \<in> set (rank_all ss) \<Longrightarrow> \<exists>t \<in> set ss. \<exists>i. s = t\<lparr>ap_Rank := i\<rparr>"
  by (auto simp: rank_all_def enumerate_eq_zip dest!: set_zip_rightD)

lemma classify_rank: "classifyAccessPath f = Some s \<Longrightarrow> s\<lparr>ap_Rank := 0\<rparr> = s"
  by (auto simp: classifyAccessPath_def Let_def split: if_splits)

text \<open>
  C25: The access paths of a report. Each correlated finding with one of the eight correlation rules gives exactly one path,
  and there are no others. The ranks are the numbers from one on, in an order in which the scores fall; equal
  scores are ordered by severity, by the number of artifacts and then by place and rule. A score lies between 72 and 100
  and the tier is the one of the score.
\<close>

theorem access_paths_exact:
  "mset (map (\<lambda>s. s\<lparr>ap_Rank := 0\<rparr>) (buildAccessPathSummaries fs)) =
     mset (map (\<lambda>f. the (classifyAccessPath f))
       (filter (\<lambda>f. f_Correlated f \<and> norm_text (f_RuleID f) \<in> correlation_rules) fs)) \<and>
   map ap_Rank (buildAccessPathSummaries fs) = [1..<length (buildAccessPathSummaries fs) + 1] \<and>
   sorted (map path_key (buildAccessPathSummaries fs)) \<and>
   list_all path_ok (buildAccessPathSummaries fs)"
proof -
  let ?c = "List.map_filter classifyAccessPath (filter f_Correlated fs)"
  let ?s = "slice_sort path_less ?c"
  have c: "?c = map (\<lambda>f. the (classifyAccessPath f)) (filter (\<lambda>f. f_Correlated f \<and> norm_text (f_RuleID f) \<in> correlation_rules) fs)"
    by (induction fs) (auto simp: map_filter_def classify_iff [symmetric])
  have ok: "\<exists>f. classifyAccessPath f = Some s" if "s \<in> set ?s" for s
    using that by (auto simp: map_filter_def)
  have "map (\<lambda>s. s\<lparr>ap_Rank := 0\<rparr>) ?s = ?s"
    by (rule map_idI) (use ok classify_rank in blast)
  then have m: "mset (map (\<lambda>s. s\<lparr>ap_Rank := 0\<rparr>) (buildAccessPathSummaries fs)) = mset ?c"
    unfolding buildAccessPathSummaries_def rank_all_props(2) by simp
  have len: "length (buildAccessPathSummaries fs) = length ?s" by (simp add: buildAccessPathSummaries_def rank_all_def)
  have "path_ok s" if "s \<in> set (rank_all ?s)" for s
  proof -
    from rank_all_mem [OF that] obtain i t where "t \<in> set ?s" "s = t\<lparr>ap_Rank := i\<rparr>" by blast
    with ok [of t] classify_ok show ?thesis by (auto simp: path_ok_def)
  qed
  then show ?thesis
    using m c path_order.ordered [of ?c] rank_all_props(1,3) [of ?s] len
    by (simp add: buildAccessPathSummaries_def list_all_iff del: upt_Suc)
qed

text \<open>
  The directory System Volume Information counts as a SYSTEM hive: a backup with the directory database and the SAM hive
  only is reported as complete.
\<close>

lemma volume_directory_counts_as_hive:
  "pc_Completeness (accessPathClassification backupCorrelationRuleID
     (zero_finding\<lparr>f_Match := ''NTDS + SAM + System Volume Information''\<rparr>)) = ''complete''"
  by code_simp

text \<open>A backup path with several artifacts that is not complete can score above a complete one.\<close>

lemma incomplete_scores_alike:
  "map_option ap_ExploitabilityScore (classifyAccessPath
     (zero_finding\<lparr>f_RuleID := backupCorrelationRuleID, f_Match := ''SAM + SYSTEM + SECURITY''\<rparr>)) =
   map_option ap_ExploitabilityScore (classifyAccessPath
     (zero_finding\<lparr>f_RuleID := backupCorrelationRuleID, f_Match := ''NTDS + SYSTEM''\<rparr>))"
  by code_simp

end
