(* ===== verification/Creds.thy ===== *)
theory Creds
  imports ReportCorrelation
begin

text \<open>
  The export of credentials (\<open>internal/output/creds.go\<close>, \<open>visibility.go\<close>): which findings are exported, the entries
  made of them and the file that is written. The writer is its list of findings; writing to the file and
  closing it are given by their errors.
\<close>

subsection \<open>Which findings are exported\<close>

definition isSupportingOnlyLiveRule :: "string \<Rightarrow> bool" where
  "isSupportingOnlyLiveRule ruleID \<longleftrightarrow>
     ruleID \<in> set [''filename.ssh_supporting_artifacts'', ''extension.database_and_backup_extensions'']"

definition isPrimaryLiveFinding :: "Finding \<Rightarrow> bool" where
  "isPrimaryLiveFinding f = (if \<not> f_Actionable f then False else if isSupportingOnlyLiveRule (f_RuleID f) then False else True)"

datatype liveFindingVisibility = liveVisibilityPrimary | liveVisibilitySupporting

definition classifyLiveFindingVisibility :: "Finding \<Rightarrow> liveFindingVisibility" where
  "classifyLiveFindingVisibility f = (if isPrimaryLiveFinding f then liveVisibilityPrimary else liveVisibilitySupporting)"

definition filterPrimaryLiveFindings :: "Finding list \<Rightarrow> Finding list" where
  "filterPrimaryLiveFindings fs = filter (\<lambda>f. classifyLiveFindingVisibility f = liveVisibilityPrimary) fs"

definition confidenceRankForExport :: "string \<Rightarrow> nat" where
  "confidenceRankForExport value =
     (let v = norm_text value in if v = ''high'' then 3 else if v = ''medium'' then 2 else if v = ''low'' then 1 else 0)"

definition hasExportableConfidence :: "Finding \<Rightarrow> bool" where
  "hasExportableConfidence f = (if confidenceRankForExport (f_Confidence f) \<ge> 3 then True else f_ConfidenceScore f \<ge> 60)"

definition generic_rules :: "string list" where
  "generic_rules = [''content.password_assignment_indicators'', ''content.password_note_value_indicators'',
     ''content.note_style_credential_pair_indicators'', ''content.secret_assignment_indicators'',
     ''content.unattended_deployment_password_fields'']"

definition exportable_rules :: "string list" where
  "exportable_rules = [''awsinspect.content.credentials_bundle'', ''dbinspect.access.connection_string'',
     ''dbinspect.access.dsn'', ''keyinspect.content.private_key_header''] @ generic_rules"

definition isExportableCredentialFinding :: "Finding \<Rightarrow> bool" where
  "isExportableCredentialFinding f =
     (if \<not> isPrimaryLiveFinding f then False
      else if equal_fold (trim_space (f_TriageClass f)) ''weak-review'' \<or> equal_fold (trim_space (f_TriageClass f)) ''config-only''
      then False
      else if \<not> hasExportableConfidence f then False
      else norm_text (f_RuleID f) \<in> set exportable_rules)"

subsection \<open>Entries\<close>

record credentialEntry =
  ce_Group :: string
  ce_SortKey :: string
  ce_DedupKey :: string
  ce_Paths :: "string list"
  ce_Fields :: "(string \<times> string) list"

definition entry_of :: "string \<Rightarrow> string \<Rightarrow> Finding \<Rightarrow> (string \<times> string) list \<Rightarrow> credentialEntry" where
  "entry_of grp dedup f fs =
     \<lparr>ce_Group = grp, ce_SortKey = uncPath f, ce_DedupKey = dedup, ce_Paths = [uncPath f], ce_Fields = fs\<rparr>"

definition optional_field :: "string \<Rightarrow> string \<Rightarrow> (string \<times> string) list" where
  "optional_field label value = (if value \<noteq> [] then [(label, value)] else [])"

definition colons :: "string list \<Rightarrow> string" where
  "colons parts = join ''::'' parts"

definition awsCredentialEntry :: "Finding \<Rightarrow> credentialEntry option" where
  "awsCredentialEntry f =
     (let m = parseAssignmentValues (joinNonEmpty [f_MatchedText f, f_Context f]);
          accessKey = out_firstNonEmpty [vget m ''aws_access_key_id'', vget m ''aws_access_key''];
          secretKey = vget m ''aws_secret_access_key'';
          sessionToken = vget m ''aws_session_token''
      in if accessKey = [] \<or> secretKey = [] then None
         else if looksPlaceholderCredential accessKey \<or> looksPlaceholderCredential secretKey \<or> looksPlaceholderCredential sessionToken
         then None
         else Some (entry_of ''AWS Credentials'' (colons [''aws'', accessKey, secretKey, sessionToken]) f
           ([(''AccessKey'', accessKey), (''SecretKey'', secretKey)] @ optional_field ''SessionToken'' sessionToken @
            optional_field ''Profile'' (awsProfileName f))))"

definition databaseCredentialEntry :: "(string \<Rightarrow> url_parts option) \<Rightarrow> Finding \<Rightarrow> credentialEntry option" where
  "databaseCredentialEntry url f =
     (let raw = out_firstNonEmpty [trim_space (f_MatchedText f), trim_space (f_Context f)] in
      if raw = [] then None
      else
        let info = parseDatabaseCredential url raw in
        if dc_password info = [] \<or> looksPlaceholderCredential (dc_password info) then None
        else Some (entry_of ''Database Credentials''
          (colons [''db'', dc_host info, dc_database info, dc_user info, dc_password info, dc_raw info]) f
          (optional_field ''Host'' (dc_host info) @ optional_field ''Database'' (dc_database info) @
           optional_field ''User'' (dc_user info) @ [(''Password'', dc_password info)] @
           optional_field ''Connection'' (dc_raw info))))"

definition privateKeyEntry :: "Finding \<Rightarrow> credentialEntry option" where
  "privateKeyEntry f =
     (let keyType = (if trim_space (f_Match f) = [] then trim_space (f_MatchedText f) else trim_space (f_Match f)) in
      if keyType = [] then None
      else Some (entry_of ''SSH Private Keys''
        (''ssh-key::'' @ trim_space (out_firstNonEmpty [f_Context f, f_MatchedText f, f_FilePath f])) f
        [(''Type'', keyType)]))"

text \<open>\<open>strings.Title\<close> of an ASCII text without punctuation: each word begins with a capital.\<close>

fun title_words :: "bool \<Rightarrow> string \<Rightarrow> string" where
  "title_words start [] = []"
| "title_words start (c # cs) = (if start then upper_char c else c) # title_words (c = CHR '' '') cs"

definition exportFieldLabel :: "string \<Rightarrow> string" where
  "exportFieldLabel key =
     (if key \<in> set [''password'', ''passord'', ''pwd'', ''db_password''] then ''Password''
      else if key \<in> set [''client_secret'', ''shared_secret'', ''secret''] then ''Secret''
      else if key \<in> set [''api_key'', ''apikey''] then ''APIKey''
      else if key \<in> set [''token'', ''access_token''] then ''Token''
      else title_words True (replace_char CHR ''_'' '' '' key))"

definition generic_group :: "string \<Rightarrow> string" where
  "generic_group secretLabel =
     (if contains secretLabel ''token'' then ''API Tokens''
      else if contains secretLabel ''secret'' \<or> contains secretLabel ''api_key'' \<or> contains secretLabel ''client_key''
      then ''Application Secrets''
      else ''Application / Deployment Credentials'')"

definition genericCredentialEntry :: "Finding \<Rightarrow> credentialEntry option" where
  "genericCredentialEntry f =
     (let m = parseAssignmentValues (joinNonEmpty [f_Context f, f_MatchedText f]) in
      case bestSecretValue m of (secretLabel, secretValue) \<Rightarrow>
        if secretValue = [] \<or> looksPlaceholderCredential secretValue then None
        else
          let grp = generic_group secretLabel;
              account = normalizePotentialAccount (f_PotentialAccount f);
              user = out_firstNonEmpty [vget m ''user'', vget m ''username'', vget m ''userid'', vget m ''user_id'', account];
              bundle = out_firstNonEmpty [vget m ''bundle'', vget m ''certificate'', vget m ''cert'', vget m ''pfx'', vget m ''p12''];
              domain = out_firstNonEmpty [vget m ''domain'', vget m ''domene''];
              host = out_firstNonEmpty [vget m ''host'', vget m ''server'', vget m ''remote'']
          in Some (entry_of grp
               (colons [''generic'', grp, secretLabel, secretValue, out_firstNonEmpty [vget m ''user'', account]]) f
               (optional_field ''User'' user @ optional_field ''Bundle'' bundle @ optional_field ''Domain'' domain @
                optional_field ''Host'' host @ [(exportFieldLabel secretLabel, secretValue)])))"

definition credentialEntryFromFinding :: "(string \<Rightarrow> url_parts option) \<Rightarrow> Finding \<Rightarrow> credentialEntry option" where
  "credentialEntryFromFinding url f =
     (let id = norm_text (f_RuleID f) in
      if \<not> isExportableCredentialFinding f then None
      else if id = ''awsinspect.content.credentials_bundle'' then awsCredentialEntry f
      else if id = ''dbinspect.access.connection_string'' \<or> id = ''dbinspect.access.dsn'' then databaseCredentialEntry url f
      else if id = ''keyinspect.content.private_key_header'' then privateKeyEntry f
      else if id \<in> set generic_rules then genericCredentialEntry f
      else None)"

definition entry_step :: "(string \<Rightarrow> url_parts option) \<Rightarrow> (string \<rightharpoonup> credentialEntry) \<Rightarrow> Finding \<Rightarrow> (string \<rightharpoonup> credentialEntry)" where
  "entry_step url m f =
     (case credentialEntryFromFinding url f of
        None \<Rightarrow> m
      | Some entry \<Rightarrow>
          (case m (ce_DedupKey entry) of
             None \<Rightarrow> m(ce_DedupKey entry \<mapsto> entry\<lparr>ce_Paths := uniqueSorted (ce_Paths entry)\<rparr>)
           | Some existing \<Rightarrow>
               m(ce_DedupKey entry \<mapsto> existing\<lparr>ce_Paths := uniqueSorted (ce_Paths existing @ ce_Paths entry)\<rparr>)))"

definition entry_key :: "(string \<Rightarrow> url_parts option) \<Rightarrow> Finding \<Rightarrow> string option" where
  "entry_key url f = map_option ce_DedupKey (credentialEntryFromFinding url f)"

definition buildCredentialEntries ::
  "(string \<Rightarrow> url_parts option) \<Rightarrow> string rearrangement \<Rightarrow> Finding list \<Rightarrow> credentialEntry list" where
  "buildCredentialEntries url order fs =
     (let deduped = foldl (entry_step url) Map.empty fs
      in map (\<lambda>k. the (deduped k)) (order (keys_of (entry_key url) fs)))"

subsection \<open>The file\<close>

definition export_groups :: "string list" where
  "export_groups = [''AWS Credentials'', ''Database Credentials'', ''Application / Deployment Credentials'',
     ''Application Secrets'', ''API Tokens'', ''SSH Private Keys'']"

definition group_index :: "string \<Rightarrow> nat option" where
  "group_index g = (if g \<in> set export_groups then Some (length (takeWhile (\<lambda>x. x \<noteq> g) export_groups)) else None)"

definition credential_less :: "credentialEntry \<Rightarrow> credentialEntry \<Rightarrow> bool" where
  "credential_less a b =
     (case (group_index (ce_Group a), group_index (ce_Group b)) of
        (Some i, Some j) \<Rightarrow> if i \<noteq> j then i < j
          else if ce_Group a \<noteq> ce_Group b then ce_Group a < ce_Group b else ce_SortKey a < ce_SortKey b
      | (Some i, None) \<Rightarrow> True
      | (None, Some j) \<Rightarrow> False
      | (None, None) \<Rightarrow> if ce_Group a \<noteq> ce_Group b then ce_Group a < ce_Group b else ce_SortKey a < ce_SortKey b)"

definition nl :: string where "nl = [CHR 0x0A]"

definition entry_text :: "credentialEntry \<Rightarrow> string" where
  "entry_text e =
     (case ce_Paths e of
        [p] \<Rightarrow> ''Path: '' @ p @ nl
      | ps \<Rightarrow> ''Paths:'' @ nl @ concat (map (\<lambda>p. ''- '' @ p @ nl) ps)) @
     concat (map (\<lambda>(label, value). label @ '': '' @ value @ nl) (ce_Fields e)) @ nl"

text \<open>The state of the loop: the text so far and the current group.\<close>

definition text_step :: "string \<times> string \<Rightarrow> credentialEntry \<Rightarrow> string \<times> string" where
  "text_step st e =
     (case st of (builder, currentGroup) \<Rightarrow>
        if ce_Group e \<noteq> currentGroup
        then ((if builder \<noteq> [] then builder @ nl else builder) @ ''==== '' @ ce_Group e @ '' ===='' @ nl @ entry_text e, ce_Group e)
        else (builder @ entry_text e, currentGroup))"

definition trim_right_newlines :: "string \<Rightarrow> string" where
  "trim_right_newlines s = rev (dropWhile (\<lambda>c. c = CHR 0x0A) (rev s))"

definition creds_text :: "credentialEntry list \<Rightarrow> string" where
  "creds_text entries =
     (if length entries = 0 then ''# No high-confidence credentials were exported.'' @ nl
      else trim_right_newlines (fst (foldl text_step ([], []) (slice_sort credential_less entries))) @ nl)"

text \<open>
  \<open>Close\<close>: the text that is written and the error. \<open>None\<close> for the whole stands for a failure of an index while the report
  is built.
\<close>

record creds_io =
  ci_write :: "string \<Rightarrow> string option"
  ci_close :: "string option option"

definition creds_Close ::
  "(string \<Rightarrow> url_parts option) \<Rightarrow> report_orders \<Rightarrow> string rearrangement \<Rightarrow> creds_io \<Rightarrow> Finding list \<Rightarrow>
    (string \<times> string option) option" where
  "creds_Close url ro order io findings =
     map_option (\<lambda>fs.
       let t = creds_text (buildCredentialEntries url order fs) in
       (t, case ci_write io t of Some err \<Rightarrow> Some err | None \<Rightarrow> (case ci_close io of None \<Rightarrow> None | Some r \<Rightarrow> r)))
       (augmentFindingsForReporting ro findings)"

subsection \<open>Every exportable credential is exported\<close>

lemma unique_loop_exact:
  "set (unique_loop (\<lambda>v. v) seen vs) = trim_space ` set vs - {[]} - seen \<and> distinct (unique_loop (\<lambda>v. v) seen vs)"
  by (induction vs arbitrary: seen) (auto simp: Let_def)

lemma sorted_values_eq: "uniqueSorted vs = sorted_list_of_set (trim_space ` set vs - {[]})"
proof (rule sorted_distinct_set_unique)
  show "set (uniqueSorted vs) = set (sorted_list_of_set (trim_space ` set vs - {[]}))"
    using unique_loop_exact [of "{}" vs] by (simp add: uniqueSorted_def)
qed (use unique_loop_exact [of "{}" vs] in \<open>simp_all add: uniqueSorted_def\<close>)

lemma uniqueSorted_append: "uniqueSorted (uniqueSorted xs @ ys) = uniqueSorted (xs @ ys)"
proof -
  have twice: "trim_space ` (trim_space ` A - {[]}) - {[]} = trim_space ` A - {[]}" for A
  proof (intro set_eqI iffI)
    fix x assume "x \<in> trim_space ` A - {[]}"
    moreover from this have "trim_space x = x" by auto
    ultimately show "x \<in> trim_space ` (trim_space ` A - {[]}) - {[]}" by (metis Diff_iff image_eqI)
  qed auto
  have "trim_space ` set (uniqueSorted xs @ ys) - {[]} =
      (trim_space ` (trim_space ` set xs - {[]}) - {[]}) \<union> (trim_space ` set ys - {[]})"
    by (simp add: sorted_values_eq image_Un Un_Diff)
  then have "trim_space ` set (uniqueSorted xs @ ys) - {[]} = trim_space ` set (xs @ ys) - {[]}"
    unfolding twice by (simp add: image_Un Un_Diff)
  then show ?thesis unfolding sorted_values_eq [of "uniqueSorted xs @ ys"] sorted_values_eq [of "xs @ ys"] by (rule arg_cong)
qed

definition entries_with :: "(string \<Rightarrow> url_parts option) \<Rightarrow> Finding list \<Rightarrow> string \<Rightarrow> credentialEntry list" where
  "entries_with url fs k = filter (\<lambda>e. ce_DedupKey e = k) (List.map_filter (credentialEntryFromFinding url) fs)"

definition merged_entry :: "credentialEntry list \<Rightarrow> credentialEntry" where
  "merged_entry es = (hd es)\<lparr>ce_Paths := uniqueSorted (concat (map ce_Paths es))\<rparr>"

lemma entries_snoc:
  "entries_with url (fs @ [f]) k =
     entries_with url fs k @ (case credentialEntryFromFinding url f of
       Some e \<Rightarrow> if ce_DedupKey e = k then [e] else [] | None \<Rightarrow> [])"
  by (simp add: entries_with_def map_filter_def split: option.split)

lemma merged_entry_snoc:
  "es \<noteq> [] \<Longrightarrow> merged_entry (es @ [e]) =
     (merged_entry es)\<lparr>ce_Paths := uniqueSorted (ce_Paths (merged_entry es) @ ce_Paths e)\<rparr>"
  by (simp add: merged_entry_def uniqueSorted_append)

lemma deduped_entries:
  "foldl (entry_step url) Map.empty fs k =
     (if entries_with url fs k = [] then None else Some (merged_entry (entries_with url fs k)))"
proof (induction fs rule: rev_induct)
  case (snoc f fs)
  show ?case
  proof (cases "credentialEntryFromFinding url f")
    case None
    with snoc show ?thesis by (simp add: entry_step_def entries_snoc)
  next
    case (Some e)
    show ?thesis
    proof (cases "ce_DedupKey e = k")
      case True
      with Some snoc show ?thesis
        by (simp add: entry_step_def entries_snoc merged_entry_snoc) (simp add: merged_entry_def)
    next
      case False
      with Some snoc show ?thesis by (simp add: entry_step_def entries_snoc split: option.split)
    qed
  qed
qed (simp add: entries_with_def map_filter_def)

lemma entry_keys: "set (keys_of (entry_key url) fs) = {k. entries_with url fs k \<noteq> []}"
  by (force simp: set_keys_of entry_key_def entries_with_def map_filter_def filter_empty_conv image_iff)

lemma mem_entries_with:
  "e \<in> set (entries_with url fs k) \<longleftrightarrow> ce_DedupKey e = k \<and> (\<exists>f \<in> set fs. credentialEntryFromFinding url f = Some e)"
  by (force simp: entries_with_def map_filter_def image_iff)

definition secret_labels :: "string set" where
  "secret_labels = {''AccessKey'', ''SecretKey'', ''SessionToken'', ''Password'', ''Secret'', ''APIKey'', ''Token''}"

definition entry_safe :: "credentialEntry \<Rightarrow> bool" where
  "entry_safe e \<longleftrightarrow> ce_Fields e \<noteq> [] \<and>
     (\<forall>(label, value) \<in> set (ce_Fields e). value \<noteq> [] \<and> (label \<in> secret_labels \<longrightarrow> \<not> looksPlaceholderCredential value))"

lemma optional_field_safe: "(l, v) \<in> set (optional_field label value) \<Longrightarrow> l = label \<and> v = value \<and> v \<noteq> []"
  by (simp add: optional_field_def split: if_splits)

lemma safe_fields:
  "entry_safe (entry_of g d f fs) \<longleftrightarrow> fs \<noteq> [] \<and>
     (\<forall>(label, value) \<in> set fs. value \<noteq> [] \<and> (label \<in> secret_labels \<longrightarrow> \<not> looksPlaceholderCredential value))"
  by (simp add: entry_safe_def entry_of_def)

lemma best_secret_label: "bestSecretValue m = (l, v) \<Longrightarrow> v \<noteq> [] \<Longrightarrow> l \<in> set secret_keys"
  by (auto simp: bestSecretValue_def find_Some_iff split: option.splits)

lemma aws_safe: "awsCredentialEntry f = Some e \<Longrightarrow> entry_safe e"
  by (auto simp: awsCredentialEntry_def Let_def safe_fields secret_labels_def split: if_splits dest!: optional_field_safe)

lemma db_safe: "databaseCredentialEntry url f = Some e \<Longrightarrow> entry_safe e"
  by (auto simp: databaseCredentialEntry_def Let_def safe_fields secret_labels_def split: if_splits dest!: optional_field_safe)

lemma key_safe: "privateKeyEntry f = Some e \<Longrightarrow> entry_safe e"
  by (auto simp: privateKeyEntry_def Let_def safe_fields secret_labels_def split: if_splits)

lemma generic_safe: "genericCredentialEntry f = Some e \<Longrightarrow> entry_safe e"
  by (auto simp: genericCredentialEntry_def Let_def safe_fields secret_labels_def split: if_splits prod.splits
      dest!: optional_field_safe)

lemma entry_safe_all: "credentialEntryFromFinding url f = Some e \<Longrightarrow> entry_safe e"
  by (auto simp: credentialEntryFromFinding_def Let_def split: if_splits intro: aws_safe db_safe key_safe generic_safe)

lemma entry_exportable: "credentialEntryFromFinding url f = Some e \<Longrightarrow> isExportableCredentialFinding f \<and> ce_Paths e = [uncPath f]"
  by (auto simp: credentialEntryFromFinding_def awsCredentialEntry_def databaseCredentialEntry_def privateKeyEntry_def
      genericCredentialEntry_def entry_of_def Let_def split: if_splits prod.splits)

text \<open>
  C26: The exported credentials, whatever the order in which Go visits the map of entries. Two entries never have the
  same key. Each entry is made of an actionable finding with an exportable rule and enough confidence, and lists, sorted and
  once each, the paths of all findings with the same credential; so no place of an exportable credential is lost. No field
  is empty, and no secret in the file is one that looks like a placeholder.
\<close>

theorem export_accounts:
  assumes "rearranges order"
  shows "distinct (map ce_DedupKey (buildCredentialEntries url order fs)) \<and>
    (\<forall>e \<in> set (buildCredentialEntries url order fs). entry_safe e \<and>
       (\<exists>f \<in> set fs. \<exists>e0. isExportableCredentialFinding f \<and> credentialEntryFromFinding url f = Some e0 \<and>
          e = e0\<lparr>ce_Paths := sorted_list_of_set (trim_space ` uncPath `
            {f \<in> set fs. entry_key url f = Some (ce_DedupKey e0)} - {[]})\<rparr>)) \<and>
    (\<forall>f \<in> set fs. \<forall>e0. credentialEntryFromFinding url f = Some e0 \<and> trim_space (uncPath f) \<noteq> [] \<longrightarrow>
       (\<exists>e \<in> set (buildCredentialEntries url order fs). ce_DedupKey e = ce_DedupKey e0 \<and> trim_space (uncPath f) \<in> set (ce_Paths e)))"
proof -
  let ?ks = "order (keys_of (entry_key url) fs)" and ?es = "buildCredentialEntries url order fs"
  let ?e = "\<lambda>k. merged_entry (entries_with url fs k)"
  have ks: "set ?ks = {k. entries_with url fs k \<noteq> []}" using rearranges_set [OF assms] by (simp add: entry_keys)
  have es: "?es = map ?e ?ks" using ks by (simp add: buildCredentialEntries_def deduped_entries)
  have hd: "hd (entries_with url fs k) \<in> set (entries_with url fs k)" if "k \<in> set ?ks" for k using that ks by simp
  have key: "ce_DedupKey (?e k) = k" if "k \<in> set ?ks" for k
    using hd [OF that] by (simp add: merged_entry_def mem_entries_with)
  have paths: "ce_Paths (?e k) = sorted_list_of_set (trim_space ` uncPath ` {f \<in> set fs. entry_key url f = Some k} - {[]})" for k
  proof -
    have "set (concat (map ce_Paths (entries_with url fs k))) = uncPath ` {f \<in> set fs. entry_key url f = Some k}"
      using entry_exportable by (force simp: mem_entries_with entry_key_def)
    moreover have "ce_Paths (?e k) = uniqueSorted (concat (map ce_Paths (entries_with url fs k)))"
      by (simp add: merged_entry_def)
    ultimately show ?thesis unfolding sorted_values_eq by (simp only:)
  qed
  have "map ce_DedupKey ?es = ?ks" unfolding es map_map using key by (intro map_idI) (simp only: comp_apply)
  then have one: "distinct (map ce_DedupKey ?es)" using rearranges_distinct [OF assms] by simp
  have two: "entry_safe e \<and> (\<exists>f \<in> set fs. \<exists>e0. isExportableCredentialFinding f \<and> credentialEntryFromFinding url f = Some e0 \<and>
      e = e0\<lparr>ce_Paths := sorted_list_of_set (trim_space ` uncPath ` {f \<in> set fs. entry_key url f = Some (ce_DedupKey e0)} - {[]})\<rparr>)"
    if "e \<in> set ?es" for e
  proof -
    from that obtain k where k: "k \<in> set ?ks" "e = ?e k" unfolding es by auto
    from hd [OF k(1)] obtain f where f: "f \<in> set fs" "credentialEntryFromFinding url f = Some (hd (entries_with url fs k))"
      "ce_DedupKey (hd (entries_with url fs k)) = k" by (auto simp: mem_entries_with)
    let ?first = "hd (entries_with url fs k)"
    have "e = ?first\<lparr>ce_Paths := ce_Paths (?e k)\<rparr>" unfolding k(2) by (simp add: merged_entry_def)
    moreover have "entry_safe e" using entry_safe_all [OF f(2)] by (simp add: k(2) merged_entry_def entry_safe_def)
    ultimately show ?thesis using f entry_exportable [OF f(2)] unfolding paths
      by (intro conjI bexI [of _ f] exI [of _ ?first]) simp_all
  qed
  have three: "\<exists>e \<in> set ?es. ce_DedupKey e = ce_DedupKey e0 \<and> trim_space (uncPath f) \<in> set (ce_Paths e)"
    if f: "f \<in> set fs" "credentialEntryFromFinding url f = Some e0" "trim_space (uncPath f) \<noteq> []" for f e0
  proof -
    let ?k = "ce_DedupKey e0"
    have k: "?k \<in> set ?ks" unfolding ks using f(1,2) mem_entries_with [of e0 url fs ?k] by auto
    then have "?e ?k \<in> set ?es" unfolding es by simp
    moreover have "trim_space (uncPath f) \<in> set (ce_Paths (?e ?k))"
      unfolding paths using f by (auto simp: entry_key_def)
    ultimately show ?thesis using key [OF k] by blast
  qed
  show ?thesis using one two three by blast
qed

subsection \<open>Concrete exports\<close>

definition note_finding :: "string \<Rightarrow> string \<Rightarrow> Finding" where
  "note_finding host text0 = zero_finding\<lparr>f_RuleID := ''content.password_assignment_indicators'', f_Confidence := ''high'',
     f_Actionable := True, f_Host := host, f_Share := ''data'', f_FilePath := ''notes.txt'', f_MatchedText := text0\<rparr>"

lemma export_accounts_witness:
  "\<exists>e \<in> set (buildCredentialEntries (\<lambda>u. None) rev [note_finding ''alpha'' ''password=Vinter24'']).
     (''Password'', ''Vinter24'') \<in> set (ce_Fields e) \<and> \<not> looksPlaceholderCredential ''Vinter24''"
proof -
  let ?f = "note_finding ''alpha'' ''password=Vinter24''"
  have e0: "\<exists>e0. credentialEntryFromFinding (\<lambda>u. None) ?f = Some e0 \<and> ce_Fields e0 = [(''Password'', ''Vinter24'')] \<and>
      trim_space (uncPath ?f) \<noteq> []"
    by (intro exI [of _ "the (credentialEntryFromFinding (\<lambda>u. None) ?f)"] conjI; code_simp)
  note all = export_accounts [OF rearranges_rev, of "\<lambda>u. None" "[?f]"]
  from e0 all obtain e where e: "e \<in> set (buildCredentialEntries (\<lambda>u. None) rev [?f])" by fastforce
  with all have safe: "entry_safe e" and "\<exists>e1. credentialEntryFromFinding (\<lambda>u. None) ?f = Some e1 \<and> ce_Fields e = ce_Fields e1"
    by fastforce+
  with e0 have "ce_Fields e = [(''Password'', ''Vinter24'')]" by auto
  with e safe show ?thesis by (intro bexI [of _ e]) (auto simp: entry_safe_def secret_labels_def)
qed

text \<open>
  The key of a generic credential has the user of the line \<open>user\<close> only, not the one of \<open>username\<close>: of two users with the
  same password the second is not exported.
\<close>

lemma second_user_lost:
  "map ce_Fields (buildCredentialEntries (\<lambda>u. None) (\<lambda>ks. ks)
     [note_finding ''alpha'' (''username=anna'' @ nl @ ''password=Vinter24''),
      note_finding ''beta'' (''username=ola'' @ nl @ ''password=Vinter24'')]) =
   [[(''User'', ''anna''), (''Password'', ''Vinter24'')]]"
  by code_simp

text \<open>A value in quotes after a space is exported with its opening quote.\<close>

lemma quoted_password_exported_with_quote:
  "map ce_Fields (buildCredentialEntries (\<lambda>u. None) (\<lambda>ks. ks)
     [note_finding ''alpha'' (''password = '' @ [CHR 0x22] @ ''Vinter24'' @ [CHR 0x22])]) =
   [[(''Password'', [CHR 0x22] @ ''Vinter24'')]]"
  by code_simp

text \<open>A strong password that happens to contain one of the words is taken for a placeholder.\<close>

lemma latest_is_placeholder: "looksPlaceholderCredential ''Zx9-latest-Qv7''"
  by code_simp

end
