(* ===== verification/ReportSummary.thy ===== *)
theory ReportSummary
  imports Creds Baseline SeedVerify "HOL-Library.AList"
begin

text \<open>
  The figures of a report (\<open>internal/output\<close>): the collector of the scan's counters and the summaries by category
  (\<open>writer.go\<close>), the summaries by severity and host and the filters (\<open>html.go\<close>), the inventory of backup files
  (\<open>artifact_inventory.go\<close>) and the two validation sections (\<open>validation.go\<close>, \<open>validation_mode.go\<close>). Each locked method of a
  collector is one step on its state.
\<close>

subsection \<open>Tables filled in a loop\<close>

text \<open>A map whose values are updated by each element that has a key.\<close>

definition tally_step :: "('a \<Rightarrow> 'k option) \<Rightarrow> ('k \<Rightarrow> 's) \<Rightarrow> ('s \<Rightarrow> 'a \<Rightarrow> 's) \<Rightarrow> ('k \<rightharpoonup> 's) \<Rightarrow> 'a \<Rightarrow> ('k \<rightharpoonup> 's)" where
  "tally_step key new add m x =
     (case key x of None \<Rightarrow> m | Some k \<Rightarrow> m(k \<mapsto> add (case m k of None \<Rightarrow> new k | Some s \<Rightarrow> s) x))"

definition tally :: "('a \<Rightarrow> 'k option) \<Rightarrow> ('k \<Rightarrow> 's) \<Rightarrow> ('s \<Rightarrow> 'a \<Rightarrow> 's) \<Rightarrow> 'a list \<Rightarrow> ('k \<rightharpoonup> 's)" where
  "tally key new add xs = foldl (tally_step key new add) Map.empty xs"

definition rows :: "'k rearrangement \<Rightarrow> ('a \<Rightarrow> 'k option) \<Rightarrow> ('k \<Rightarrow> 's) \<Rightarrow> ('s \<Rightarrow> 'a \<Rightarrow> 's) \<Rightarrow> 'a list \<Rightarrow> 's list" where
  "rows order key new add xs = map (\<lambda>k. the (tally key new add xs k)) (order (keys_of key xs))"

lemma tally_apply:
  "tally key new add xs k = (if members key xs k = [] then None else Some (foldl add (new k) (members key xs k)))"
  by (induction xs rule: rev_induct) (auto simp: tally_def members_def tally_step_def split: option.splits)

lemma rows_exact:
  assumes "rearranges order"
  shows "rows order key new add xs = map (\<lambda>k. foldl add (new k) (members key xs k)) (order (keys_of key xs))"
  unfolding rows_def
  by (rule map_cong [OF refl]) (simp add: tally_apply rearranges_set [OF assms] members_nonempty)

lemma rearranged_sum:
  fixes g :: "'k \<Rightarrow> nat"
  assumes "rearranges order"
  shows "sum_list (map g (order ks)) = sum_list (map g ks)"
proof -
  have "mset (map g (order ks)) = mset (map g ks)" using assms by (simp add: rearranges_def)
  then show ?thesis by (metis sum_mset_sum_list)
qed

lemma members_total:
  "sum_list (map (\<lambda>k. length (members key xs k)) (keys_of key xs)) = length (filter (\<lambda>x. key x \<noteq> None) xs)"
proof -
  let ?ys = "filter (\<lambda>x. key x \<noteq> None) xs"
  have m: "length (members key xs k) = length (filter (\<lambda>x. key x = Some k) ?ys)" for k
    by (simp add: members_def) (metis (mono_tags, lifting) option.distinct(1))
  have "sum_list (map (\<lambda>k. length (members key xs k)) (keys_of key xs)) =
      (\<Sum>k \<in> set (keys_of key xs). length (filter (\<lambda>x. the (key x) = k) ?ys))"
    unfolding m by (subst sum_list_distinct_conv_sum_set) (auto intro!: sum.cong arg_cong [of _ _ length] filter_cong)
  also have "\<dots> = length ?ys" by (rule sum_by_key) (simp, auto simp: set_keys_of)
  finally show ?thesis .
qed

subsection \<open>The counters of the scan\<close>

record summaryCollector =
  sc_startedAt :: gotime
  sc_endedAt :: gotime
  sc_hosts :: "string set"
  sc_shares :: "string set"
  sc_filesScanned :: int
  sc_skippedFiles :: int
  sc_readErrors :: int
  sc_matchesFound :: int

record summarySnapshot =
  sn_StartedAt :: gotime
  sn_EndedAt :: gotime
  sn_HostsScanned :: int
  sn_SharesScanned :: int
  sn_FilesScanned :: int
  sn_MatchesFound :: int
  sn_SkippedFiles :: int
  sn_ReadErrors :: int

definition newSummaryCollector :: "gotime \<Rightarrow> summaryCollector" where
  "newSummaryCollector now = \<lparr>sc_startedAt = now, sc_endedAt = 0, sc_hosts = {}, sc_shares = {}, sc_filesScanned = 0,
     sc_skippedFiles = 0, sc_readErrors = 0, sc_matchesFound = 0\<rparr>"

datatype summary_event =
    SeeHost string | SeeShare string string | SeeFile | SeeSkip | SeeReadError | SeeFinding

fun summary_step :: "summaryCollector \<Rightarrow> summary_event \<Rightarrow> summaryCollector" where
  "summary_step s (SeeHost host) = (if trim_space host \<noteq> [] then s\<lparr>sc_hosts := insert host (sc_hosts s)\<rparr> else s)"
| "summary_step s (SeeShare host share) =
     (if trim_space host = [] \<and> trim_space share = [] then s
      else s\<lparr>sc_shares := insert (host @ ''::'' @ share) (sc_shares s)\<rparr>)"
| "summary_step s SeeFile = s\<lparr>sc_filesScanned := sc_filesScanned s + 1\<rparr>"
| "summary_step s SeeSkip = s\<lparr>sc_skippedFiles := sc_skippedFiles s + 1\<rparr>"
| "summary_step s SeeReadError = s\<lparr>sc_readErrors := sc_readErrors s + 1\<rparr>"
| "summary_step s SeeFinding = s\<lparr>sc_matchesFound := sc_matchesFound s + 1\<rparr>"

definition LiveSnapshot :: "summaryCollector \<Rightarrow> summarySnapshot" where
  "LiveSnapshot s =
     \<lparr>sn_StartedAt = sc_startedAt s, sn_EndedAt = sc_endedAt s, sn_HostsScanned = int (card (sc_hosts s)),
      sn_SharesScanned = int (card (sc_shares s)), sn_FilesScanned = sc_filesScanned s, sn_MatchesFound = sc_matchesFound s,
      sn_SkippedFiles = sc_skippedFiles s, sn_ReadErrors = sc_readErrors s\<rparr>"

definition SummarySnapshot :: "gotime \<Rightarrow> summaryCollector \<Rightarrow> summarySnapshot \<times> summaryCollector" where
  "SummarySnapshot now s =
     (let t = (if is_zero_time (sc_endedAt s) then s\<lparr>sc_endedAt := now\<rparr> else s) in (LiveSnapshot t, t))"

definition adjustedSummarySnapshot :: "summarySnapshot \<Rightarrow> Finding list \<Rightarrow> Finding list \<Rightarrow> summarySnapshot" where
  "adjustedSummarySnapshot s raw augmented =
     (let delta = int (length augmented) - int (length raw)
      in if delta > 0 then s\<lparr>sn_MatchesFound := sn_MatchesFound s + delta\<rparr> else s)"

subsection \<open>Categories, severities, hosts\<close>

record categorySummary =
  cg_Category :: string
  cg_Findings :: nat
  cg_Critical :: nat
  cg_High :: nat
  cg_Medium :: nat
  cg_Low :: nat
  cg_HighestSeverity :: string
  cg_RemediationGuidance :: string

definition report_category :: "Finding \<Rightarrow> string" where
  "report_category f = (if trim_space (f_Category f) = [] then ''uncategorized'' else trim_space (f_Category f))"

definition new_category :: "string \<Rightarrow> categorySummary" where
  "new_category category = \<lparr>cg_Category = category, cg_Findings = 0, cg_Critical = 0, cg_High = 0, cg_Medium = 0, cg_Low = 0,
     cg_HighestSeverity = [], cg_RemediationGuidance = remediationGuidanceForCategory category\<rparr>"

definition highest :: "string \<Rightarrow> string \<Rightarrow> string" where
  "highest old new = (if out_severityRank new > out_severityRank old then new else old)"

definition add_category :: "categorySummary \<Rightarrow> Finding \<Rightarrow> categorySummary" where
  "add_category s f =
     (let s1 = s\<lparr>cg_Findings := cg_Findings s + 1\<rparr>; v = to_lower (f_Severity f);
          s2 = (if v = ''critical'' then s1\<lparr>cg_Critical := cg_Critical s1 + 1\<rparr>
                else if v = ''high'' then s1\<lparr>cg_High := cg_High s1 + 1\<rparr>
                else if v = ''medium'' then s1\<lparr>cg_Medium := cg_Medium s1 + 1\<rparr>
                else if v = ''low'' then s1\<lparr>cg_Low := cg_Low s1 + 1\<rparr> else s1)
      in s2\<lparr>cg_HighestSeverity := highest (cg_HighestSeverity s2) (f_Severity f)\<rparr>)"

definition or_unknown :: "string \<Rightarrow> string" where
  "or_unknown v = (if trim_space v = [] then ''unknown'' else v)"

definition category_less :: "categorySummary \<Rightarrow> categorySummary \<Rightarrow> bool" where
  "category_less a b =
     (let left = out_severityRank (cg_HighestSeverity a); right = out_severityRank (cg_HighestSeverity b) in
      if left = right then
        (if cg_Findings a = cg_Findings b then cg_Category a < cg_Category b else cg_Findings a > cg_Findings b)
      else left > right)"

definition buildCategorySummaries :: "string rearrangement \<Rightarrow> Finding list \<Rightarrow> categorySummary list" where
  "buildCategorySummaries order fs =
     (if length fs = 0 then []
      else slice_sort category_less
        (map (\<lambda>s. s\<lparr>cg_HighestSeverity := or_unknown (cg_HighestSeverity s)\<rparr>)
          (rows order (\<lambda>f. Some (report_category f)) new_category add_category fs)))"

definition severity_names :: "string list" where
  "severity_names = [''critical'', ''high'', ''medium'', ''low'', ''unknown'']"

definition severity_name :: "Finding \<Rightarrow> string" where
  "severity_name f = (let key = norm_text (f_Severity f) in if key \<in> set severity_names then key else ''unknown'')"

text \<open>The counters start at zero for the five names; each finding adds one to its name or to \<open>unknown\<close>.\<close>

definition buildSeveritySummaries :: "Finding list \<Rightarrow> (string \<times> nat) list" where
  "buildSeveritySummaries fs =
     (let counts = foldl (\<lambda>m f. m(severity_name f := m (severity_name f) + 1)) (\<lambda>_. 0 :: nat) fs
      in map (\<lambda>name. (name, counts name)) severity_names)"

record hostSummary =
  ho_Host :: string
  ho_Findings :: nat
  ho_ShareSet :: "string set"
  ho_CategorySet :: "string set"
  ho_HighestSeverity :: string
  ho_FromLDAP :: bool
  ho_FromDFS :: bool
  ho_FromSYSVOL :: bool
  ho_FromNETLOGON :: bool

definition report_host :: "Finding \<Rightarrow> string" where
  "report_host f = (if trim_space (f_Host f) = [] then ''unknown-host'' else trim_space (f_Host f))"

definition new_host :: "string \<Rightarrow> hostSummary" where
  "new_host host = \<lparr>ho_Host = host, ho_Findings = 0, ho_ShareSet = {}, ho_CategorySet = {}, ho_HighestSeverity = [],
     ho_FromLDAP = False, ho_FromDFS = False, ho_FromSYSVOL = False, ho_FromNETLOGON = False\<rparr>"

definition add_host :: "hostSummary \<Rightarrow> Finding \<Rightarrow> hostSummary" where
  "add_host s f =
     s\<lparr>ho_Findings := ho_Findings s + 1,
       ho_HighestSeverity := highest (ho_HighestSeverity s) (f_Severity f),
       ho_ShareSet := (if trim_space (f_Share f) \<noteq> [] then insert (f_Share f) (ho_ShareSet s) else ho_ShareSet s),
       ho_CategorySet := (if trim_space (f_Category f) \<noteq> [] then insert (trim_space (f_Category f)) (ho_CategorySet s)
         else ho_CategorySet s),
       ho_FromLDAP := (ho_FromLDAP s \<or> equal_fold (trim_space (f_Source f)) ''ldap''),
       ho_FromDFS := (ho_FromDFS s \<or> equal_fold (trim_space (f_Source f)) ''dfs''),
       ho_FromSYSVOL := (ho_FromSYSVOL s \<or> f_FromSYSVOL f),
       ho_FromNETLOGON := (ho_FromNETLOGON s \<or> f_FromNETLOGON f)\<rparr>"

definition ho_Shares :: "hostSummary \<Rightarrow> nat" where "ho_Shares s = card (ho_ShareSet s)"
definition ho_Categories :: "hostSummary \<Rightarrow> nat" where "ho_Categories s = card (ho_CategorySet s)"

definition host_less :: "hostSummary \<Rightarrow> hostSummary \<Rightarrow> bool" where
  "host_less a b =
     (let left = out_severityRank (ho_HighestSeverity a); right = out_severityRank (ho_HighestSeverity b) in
      if left = right then
        (if ho_Findings a = ho_Findings b then ho_Host a < ho_Host b else ho_Findings a > ho_Findings b)
      else left > right)"

definition buildHostSummaries :: "string rearrangement \<Rightarrow> Finding list \<Rightarrow> hostSummary list" where
  "buildHostSummaries order fs =
     (if length fs = 0 then []
      else
        let out = slice_sort host_less
          (map (\<lambda>s. s\<lparr>ho_HighestSeverity := or_unknown (ho_HighestSeverity s)\<rparr>)
            (rows order (\<lambda>f. Some (report_host f)) new_host add_host fs))
        in if length out > 12 then take 12 out else out)"

subsection \<open>Filters\<close>

record reportFilterOptions =
  fo_Categories :: "string list"
  fo_Sources :: "string list"
  fo_Signals :: "string list"
  fo_Scopes :: "string list"

definition normalizedSourceLabel :: "string \<Rightarrow> string" where
  "normalizedSourceLabel value = (let v = trim_space value in if v = [] then ''unknown'' else to_lower v)"

definition sortedMapKeys :: "string rearrangement \<Rightarrow> string list \<Rightarrow> string list" where
  "sortedMapKeys order ks =
     slice_sort (\<lambda>a b. to_lower a < to_lower b) (filter (\<lambda>v. trim_space v \<noteq> []) (order (remdups ks)))"

definition buildFilterOptions :: "string rearrangement \<Rightarrow> Finding list \<Rightarrow> reportFilterOptions" where
  "buildFilterOptions order fs =
     \<lparr>fo_Categories = sortedMapKeys order (filter (\<lambda>v. v \<noteq> []) (map (\<lambda>f. trim_space (f_Category f)) fs)),
      fo_Sources = sortedMapKeys order (map (\<lambda>f. normalizedSourceLabel (f_Source f)) fs),
      fo_Signals = sortedMapKeys order (map to_lower (filter (\<lambda>v. v \<noteq> []) (map (\<lambda>f. trim_space (primarySignal f)) fs))),
      fo_Scopes = sortedMapKeys order (filter (\<lambda>v. v \<noteq> []) (concat (map (\<lambda>f. [trim_space (f_Host f), trim_space (f_Share f)]) fs)))\<rparr>"

subsection \<open>The inventory of backup files\<close>

definition backupArtifactExtensions :: "string list" where
  "backupArtifactExtensions = [''.bak'', ''.wim'', ''.mtf'']"

record backupArtifactRecord =
  ba_Host :: string
  ba_Share :: string
  ba_ShareType :: string
  ba_Source :: string
  ba_FilePath :: string
  ba_UNCPath :: string
  ba_Extension :: string
  ba_Size :: int

record backupArtifactInventory =
  bi_Total :: nat
  bi_ByType :: "(string \<times> nat) list"
  bi_Items :: "backupArtifactRecord list"

record backupArtifactCollector =
  bc_enabled :: bool
  bc_items :: "(string \<times> backupArtifactRecord) list"

definition newBackupArtifactCollector :: backupArtifactCollector where
  "newBackupArtifactCollector = \<lparr>bc_enabled = False, bc_items = []\<rparr>"

definition backupArtifactKey :: "FileMetadata \<Rightarrow> string" where
  "backupArtifactKey meta =
     to_lower (trim_space (m_Host meta) @ ''|'' @ trim_space (m_Share meta) @ ''|'' @ trim_space (m_FilePath meta))"

definition backupArtifactUNCPath :: "FileMetadata \<Rightarrow> string" where
  "backupArtifactUNCPath meta =
     (let path = trim_space (replace_char CHR ''/'' [CHR 0x5C] (m_FilePath meta));
          host = trim_space (m_Host meta); share = trim_space (m_Share meta)
      in if host = [] \<or> share = [] then path
         else [CHR 0x5C, CHR 0x5C] @ host @ [CHR 0x5C] @ share @
           (if path \<noteq> [] \<and> \<not> has_prefix path [CHR 0x5C] then CHR 0x5C # path else path))"

definition InventorySetEnabled :: "bool \<Rightarrow> backupArtifactCollector \<Rightarrow> backupArtifactCollector" where
  "InventorySetEnabled enabled c = c\<lparr>bc_enabled := enabled\<rparr>"

text \<open>The map of records is kept as an association list with one entry for each key.\<close>

definition InventoryRecordFile :: "FileMetadata \<Rightarrow> backupArtifactCollector \<Rightarrow> backupArtifactCollector" where
  "InventoryRecordFile meta0 c =
     (let meta = Normalized meta0; ext = norm_text (m_Extension meta) in
      if \<not> bc_enabled c then c
      else if ext \<notin> set backupArtifactExtensions then c
      else c\<lparr>bc_items := AList.update (backupArtifactKey meta)
        \<lparr>ba_Host = trim_space (m_Host meta), ba_Share = trim_space (m_Share meta), ba_ShareType = trim_space (m_ShareType meta),
         ba_Source = trim_space (m_Source meta), ba_FilePath = m_FilePath meta, ba_UNCPath = backupArtifactUNCPath meta,
         ba_Extension = ext, ba_Size = m_Size meta\<rparr> (bc_items c)\<rparr>)"

definition record_less :: "backupArtifactRecord \<Rightarrow> backupArtifactRecord \<Rightarrow> bool" where
  "record_less a b =
     (if ba_Host a \<noteq> ba_Host b then to_lower (ba_Host a) < to_lower (ba_Host b)
      else if ba_Share a \<noteq> ba_Share b then to_lower (ba_Share a) < to_lower (ba_Share b)
      else to_lower (ba_FilePath a) < to_lower (ba_FilePath b))"

definition count_less :: "string \<times> nat \<Rightarrow> string \<times> nat \<Rightarrow> bool" where
  "count_less a b = (if snd a = snd b then fst a < fst b else snd a > snd b)"

definition count_rows :: "string rearrangement \<Rightarrow> ('a \<Rightarrow> string option) \<Rightarrow> 'a list \<Rightarrow> (string \<times> nat) list" where
  "count_rows order key xs = slice_sort count_less (rows order key (\<lambda>k. (k, 0)) (\<lambda>(k, n) x. (k, n + 1)) xs)"

definition InventorySnapshot ::
  "(string \<times> backupArtifactRecord) rearrangement \<Rightarrow> string rearrangement \<Rightarrow> backupArtifactCollector \<Rightarrow> backupArtifactInventory option" where
  "InventorySnapshot itemOrder typeOrder c =
     (if \<not> bc_enabled c then None
      else
        let items = map snd (itemOrder (bc_items c))
        in Some \<lparr>bi_Total = length items, bi_ByType = count_rows typeOrder (\<lambda>r. Some (ba_Extension r)) items,
             bi_Items = slice_sort record_less items\<rparr>)"

subsection \<open>The validation mode\<close>

record validationModeCollector =
  vm_enabled :: bool
  vm_suppressedFindings :: nat
  vm_visibleFindings :: nat
  vm_downgradedFindings :: nat
  vm_falsePositiveCandidates :: nat
  vm_highConfidenceFindings :: nat

record validationModeSummary =
  vt_TotalFindings :: nat
  vt_SuppressedFindings :: nat
  vt_VisibleFindings :: nat
  vt_DowngradedFindings :: nat
  vt_FalsePositiveCandidates :: nat
  vt_HighConfidenceFindings :: nat
  vt_HighConfidenceRatio :: rat
  vt_SkippedFiles :: int

definition newValidationModeCollector :: validationModeCollector where
  "newValidationModeCollector = \<lparr>vm_enabled = False, vm_suppressedFindings = 0, vm_visibleFindings = 0,
     vm_downgradedFindings = 0, vm_falsePositiveCandidates = 0, vm_highConfidenceFindings = 0\<rparr>"

definition isFalsePositiveCandidate :: "Finding \<Rightarrow> bool" where
  "isFalsePositiveCandidate f =
     (if \<not> f_Actionable f then True
      else if f_TriageClass f = ''config-only'' \<or> f_TriageClass f = ''weak-review'' then True
      else f_Confidence f = ''low'')"

datatype validation_event = EnableValidation bool | SeeSuppressed SuppressedFinding | SeeVisible Finding | SeeDowngraded Finding

fun validation_step :: "validationModeCollector \<Rightarrow> validation_event \<Rightarrow> validationModeCollector" where
  "validation_step v (EnableValidation b) = v\<lparr>vm_enabled := b\<rparr>"
| "validation_step v (SeeSuppressed s) =
     (if vm_enabled v then v\<lparr>vm_suppressedFindings := vm_suppressedFindings v + 1\<rparr> else v)"
| "validation_step v (SeeVisible f) =
     (if \<not> vm_enabled v then v
      else v\<lparr>vm_visibleFindings := vm_visibleFindings v + 1,
        vm_highConfidenceFindings := (if f_Confidence f = ''high'' then vm_highConfidenceFindings v + 1 else vm_highConfidenceFindings v),
        vm_falsePositiveCandidates := (if isFalsePositiveCandidate f then vm_falsePositiveCandidates v + 1 else vm_falsePositiveCandidates v)\<rparr>)"
| "validation_step v (SeeDowngraded f) =
     (if vm_enabled v then v\<lparr>vm_downgradedFindings := vm_downgradedFindings v + 1\<rparr> else v)"

text \<open>The ratio is the exact quotient; the code computes it in floating point.\<close>

definition ValidationModeSummary :: "summarySnapshot \<Rightarrow> validationModeCollector \<Rightarrow> validationModeSummary option" where
  "ValidationModeSummary snapshot v =
     (if \<not> vm_enabled v then None
      else Some \<lparr>vt_TotalFindings = vm_visibleFindings v + vm_suppressedFindings v,
        vt_SuppressedFindings = vm_suppressedFindings v, vt_VisibleFindings = vm_visibleFindings v,
        vt_DowngradedFindings = vm_downgradedFindings v, vt_FalsePositiveCandidates = vm_falsePositiveCandidates v,
        vt_HighConfidenceFindings = vm_highConfidenceFindings v,
        vt_HighConfidenceRatio = (if vm_visibleFindings v > 0
          then of_nat (vm_highConfidenceFindings v) / of_nat (vm_visibleFindings v) else 0),
        vt_SkippedFiles = sn_SkippedFiles snapshot\<rparr>)"

subsection \<open>The validation against a manifest\<close>

record validationItem =
  vi_ExpectedClass :: string
  vi_Label :: string
  vi_Category :: string
  vi_Host :: string
  vi_Share :: string
  vi_Path :: string
  vi_ObservedTriageClass :: string
  vi_ObservedConfidence :: string
  vi_ObservedCorrelated :: bool
  vi_Reason :: string

record validationSummary =
  va_ExpectedItems :: nat
  va_FoundItems :: nat
  va_MissedItems :: nat
  va_UnexpectedFindings :: nat
  va_SuppressedConfigOnly :: nat
  va_PromotedActionable :: nat
  va_PromotedCorrelated :: nat
  va_ClassCoverage :: "(string \<times> ExpectedClassSummary) list"
  va_MissedExpected :: "validationItem list"
  va_OverPromoted :: "validationItem list"

definition expectedClassLabel :: "string \<Rightarrow> string" where
  "expectedClassLabel value =
     (let v = norm_text value in
      if v = ''config-only'' then ''informational'' else if v = ''weak-review'' then ''weak''
      else if v = ''actionable'' then ''actionable'' else if v = ''correlated-high-confidence'' then ''correlated / high-confidence''
      else out_valueOrDash value)"

definition isOverPromotedMismatch :: "ClassVerificationItem \<Rightarrow> bool" where
  "isOverPromotedMismatch item =
     (let expected = norm_text (se_ExpectedClass (cv_Entry item)); observed = norm_text (cv_ObservedTriageClass item) in
      if expected = [] \<or> observed = [] then False
      else if expected = ''config-only'' \<or> expected = ''weak-review''
      then observed = ''actionable'' \<or> equal_fold (cv_ObservedConfidence item) ''high'' \<or> cv_ObservedCorrelated item
      else False)"

definition missed_item :: "SeedManifestEntry \<Rightarrow> validationItem" where
  "missed_item e =
     \<lparr>vi_ExpectedClass = se_ExpectedClass e, vi_Label = expectedClassLabel (se_ExpectedClass e), vi_Category = se_Category e,
      vi_Host = se_Host e, vi_Share = se_Share e, vi_Path = se_Path e, vi_ObservedTriageClass = [], vi_ObservedConfidence = [],
      vi_ObservedCorrelated = False, vi_Reason = ''seeded artifact did not surface in the scan results''\<rparr>"

definition promoted_item :: "ClassVerificationItem \<Rightarrow> validationItem" where
  "promoted_item i =
     (let e = cv_Entry i in
      \<lparr>vi_ExpectedClass = se_ExpectedClass e, vi_Label = expectedClassLabel (se_ExpectedClass e), vi_Category = se_Category e,
       vi_Host = se_Host e, vi_Share = se_Share e, vi_Path = se_Path e, vi_ObservedTriageClass = cv_ObservedTriageClass i,
       vi_ObservedConfidence = cv_ObservedConfidence i, vi_ObservedCorrelated = cv_ObservedCorrelated i, vi_Reason = cv_Reason i\<rparr>)"

text \<open>\<open>load\<close> reads the manifest: its entries, or the error of reading it.\<close>

definition buildValidationSummary ::
  "verify_orders \<Rightarrow> (string \<Rightarrow> string + SeedManifestEntry list) \<Rightarrow> string \<Rightarrow> Finding list \<Rightarrow> string + validationSummary option" where
  "buildValidationSummary ord load manifestPath fs =
     (if trim_space manifestPath = [] then Inr None
      else case load manifestPath of
             Inl err \<Rightarrow> Inl err
           | Inr entries \<Rightarrow>
               let report = verifyFindings ord fs entries in
               Inr (Some \<lparr>va_ExpectedItems = vr_ExpectedItems report, va_FoundItems = vr_FoundItems report,
                 va_MissedItems = vr_MissedItems report, va_UnexpectedFindings = vr_UnexpectedFindings report,
                 va_SuppressedConfigOnly = length (vr_SuppressedConfigOnly report),
                 va_PromotedActionable = length (vr_PromotedActionable report),
                 va_PromotedCorrelated = length (vr_PromotedCorrelated report),
                 va_ClassCoverage = map (\<lambda>c. (expectedClassLabel (ec_ExpectedClass c), c)) (vr_ClassCoverage report),
                 va_MissedExpected = map missed_item (vr_Missed report),
                 va_OverPromoted = map promoted_item (filter isOverPromotedMismatch (vr_ClassMismatches report))\<rparr>))"


subsection \<open>The figures add up\<close>

definition with_severity :: "string \<Rightarrow> Finding list \<Rightarrow> nat" where
  "with_severity name fs = length (filter (\<lambda>f. to_lower (f_Severity f) = name) fs)"

definition top_rank :: "Finding list \<Rightarrow> nat" where
  "top_rank fs = foldl max 0 (map (\<lambda>f. out_severityRank (f_Severity f)) fs)"

lemma highest_rank: "out_severityRank (highest a b) = max (out_severityRank a) (out_severityRank b)"
  by (simp add: highest_def)

lemma unknown_rank: "out_severityRank (or_unknown v) = out_severityRank v"
proof (cases "trim_space v = []")
  case True
  have "to_lower v \<noteq> ''critical'' \<and> to_lower v \<noteq> ''high'' \<and> to_lower v \<noteq> ''medium'' \<and> to_lower v \<noteq> ''low''"
  proof (intro conjI notI)
    have t: "trim_space (to_lower v) = []" using True trim_space_lower [of v] by simp
    show False if "to_lower v = ''critical''" using t unfolding that by code_simp
    show False if "to_lower v = ''high''" using t unfolding that by code_simp
    show False if "to_lower v = ''medium''" using t unfolding that by code_simp
    show False if "to_lower v = ''low''" using t unfolding that by code_simp
  qed
  moreover have "out_severityRank ''unknown'' = 0" by code_simp
  ultimately show ?thesis using True by (simp add: or_unknown_def out_severityRank_def Let_def)
qed (simp add: or_unknown_def)

lemma category_row:
  "cg_Category (foldl add_category (new_category c) fs) = c"
  "cg_Findings (foldl add_category (new_category c) fs) = length fs"
  "cg_Critical (foldl add_category (new_category c) fs) = with_severity ''critical'' fs"
  "cg_High (foldl add_category (new_category c) fs) = with_severity ''high'' fs"
  "cg_Medium (foldl add_category (new_category c) fs) = with_severity ''medium'' fs"
  "cg_Low (foldl add_category (new_category c) fs) = with_severity ''low'' fs"
  "out_severityRank (cg_HighestSeverity (foldl add_category (new_category c) fs)) = top_rank fs"
proof -
  have zero: "out_severityRank [] = 0" by code_simp
  show "cg_Category (foldl add_category (new_category c) fs) = c"
    "cg_Findings (foldl add_category (new_category c) fs) = length fs"
    "cg_Critical (foldl add_category (new_category c) fs) = with_severity ''critical'' fs"
    "cg_High (foldl add_category (new_category c) fs) = with_severity ''high'' fs"
    "cg_Medium (foldl add_category (new_category c) fs) = with_severity ''medium'' fs"
    "cg_Low (foldl add_category (new_category c) fs) = with_severity ''low'' fs"
    "out_severityRank (cg_HighestSeverity (foldl add_category (new_category c) fs)) = top_rank fs"
    by (induction fs rule: rev_induct;
        simp add: new_category_def add_category_def with_severity_def top_rank_def Let_def highest_rank zero)+
qed

definition category_key :: "categorySummary \<Rightarrow> int \<times> int \<times> string" where
  "category_key s = (- int (out_severityRank (cg_HighestSeverity s)), - int (cg_Findings s), cg_Category s)"

interpretation category_order: key_order category_less category_key
  by unfold_locales (auto simp: category_less_def category_key_def Let_def)

definition of_category :: "string \<Rightarrow> Finding list \<Rightarrow> Finding list" where
  "of_category c fs = filter (\<lambda>f. report_category f = c) fs"

definition category_ok :: "Finding list \<Rightarrow> categorySummary \<Rightarrow> bool" where
  "category_ok fs s \<longleftrightarrow>
     (let g = of_category (cg_Category s) fs in
      g \<noteq> [] \<and> cg_Findings s = length g \<and> cg_Critical s = with_severity ''critical'' g \<and> cg_High s = with_severity ''high'' g \<and>
      cg_Medium s = with_severity ''medium'' g \<and> cg_Low s = with_severity ''low'' g \<and>
      out_severityRank (cg_HighestSeverity s) = top_rank g \<and> trim_space (cg_HighestSeverity s) \<noteq> [])"

lemma severity_counts:
  "foldl (\<lambda>m f. m(severity_name f := m (severity_name f) + 1)) (\<lambda>_. 0 :: nat) fs =
     (\<lambda>n. length (filter (\<lambda>f. severity_name f = n) fs))"
  by (induction fs rule: rev_induct) (auto simp: fun_eq_iff)

lemma severity_sum: "sum_list (map snd (buildSeveritySummaries fs)) = length fs"
proof -
  have "set severity_names = {''critical'', ''high'', ''medium'', ''low'', ''unknown''}" by (simp add: severity_names_def)
  then have "severity_name f \<in> set severity_names" for f by (simp add: severity_name_def Let_def)
  then have "severity_name ` set fs \<subseteq> set severity_names" by blast
  from sum_by_key [OF _ this] have "(\<Sum>n\<in>set severity_names. length (filter (\<lambda>f. severity_name f = n) fs)) = length fs" by simp
  moreover have "distinct severity_names" by code_simp
  ultimately show ?thesis
    unfolding buildSeveritySummaries_def severity_counts Let_def
    by (simp add: comp_def sum_list_distinct_conv_sum_set)
qed

text \<open>
  C27: The summaries of a report by category and by severity, whatever the order in which Go visits its map. There is
  one row for each category of the findings; its numbers of findings, in all and of each severity, are those of the findings
  of the category, and its highest severity is that of one of the most severe of them. The rows come by falling
  severity, then by falling number. The rows together count each finding once, and so do the counts by severity.
\<close>

theorem summaries_exact:
  assumes "rearranges order"
  shows "cg_Category ` set (buildCategorySummaries order fs) = report_category ` set fs \<and>
    distinct (map cg_Category (buildCategorySummaries order fs)) \<and>
    list_all (category_ok fs) (buildCategorySummaries order fs) \<and>
    sorted (map category_key (buildCategorySummaries order fs)) \<and>
    sum_list (map cg_Findings (buildCategorySummaries order fs)) = length fs \<and>
    sum_list (map snd (buildSeveritySummaries fs)) = length fs"
proof (cases "fs = []")
  case True
  then show ?thesis using severity_sum [of "[]"] by (simp add: buildCategorySummaries_def)
next
  case False
  let ?key = "\<lambda>f. Some (report_category f)"
  let ?ks = "order (keys_of ?key fs)"
  let ?row = "\<lambda>c. foldl add_category (new_category c) (members ?key fs c)"
  let ?fin = "\<lambda>s. s\<lparr>cg_HighestSeverity := or_unknown (cg_HighestSeverity s)\<rparr>"
  let ?out = "buildCategorySummaries order fs" and ?rows = "map (\<lambda>c. ?fin (?row c)) ?ks"
  have out: "?out = slice_sort category_less ?rows"
    using False by (simp add: buildCategorySummaries_def rows_exact [OF assms] comp_def)
  have mem: "members ?key fs c = of_category c fs" for c by (simp add: members_def of_category_def)
  have cat: "cg_Category (?row c) = c" "cg_Findings (?row c) = length (members ?key fs c)" for c
    by (rule category_row)+
  have km: "map cg_Category ?rows = ?ks" by (simp add: comp_def cat)
  have mc: "mset (map cg_Category ?out) = mset ?ks" unfolding out mset_map mset_slice_sort
    using arg_cong [OF km, of mset] unfolding mset_map .
  have ks: "set ?ks = report_category ` set fs" by (auto simp: rearranges_set [OF assms] set_keys_of)
  have ok: "category_ok fs (?fin (?row c))" if "c \<in> set ?ks" for c
  proof -
    have ne: "of_category c fs \<noteq> []" using that unfolding ks of_category_def filter_empty_conv by blast
    have "trim_space (or_unknown v) \<noteq> []" for v
    proof -
      have "trim_space ''unknown'' \<noteq> []" by code_simp
      then show ?thesis by (simp add: or_unknown_def)
    qed
    with ne show ?thesis
      unfolding mem category_ok_def Let_def by (simp add: category_row unknown_rank)
  qed
  have "sum_list (map cg_Findings ?out) = sum_list (map cg_Findings ?rows)" unfolding out by (rule sum_list_slice_sort)
  also have "\<dots> = sum_list (map (\<lambda>c. length (members ?key fs c)) ?ks)" by (simp add: comp_def cat)
  also have "\<dots> = length fs" using members_total [of ?key fs] by (simp add: rearranged_sum [OF assms])
  finally have total: "sum_list (map cg_Findings ?out) = length fs" .
  have "cg_Category ` set ?out = set ?ks" using mset_eq_setD [OF mc] by simp
  moreover have "distinct (map cg_Category ?out)"
    using mset_eq_imp_distinct_iff [OF mc] rearranges_distinct [OF assms] by simp
  moreover have "list_all (category_ok fs) ?out" unfolding out using ok by (auto simp: list_all_iff)
  moreover have "sorted (map category_key ?out)" unfolding out by (rule category_order.ordered)
  ultimately show ?thesis using total severity_sum ks by simp
qed

lemma summaries_exact_witness:
  "cg_Category ` set (buildCategorySummaries rev [zero_finding\<lparr>f_Category := ''credentials''\<rparr>, zero_finding]) =
     {''credentials'', ''uncategorized''}"
proof -
  have "report_category (zero_finding\<lparr>f_Category := ''credentials''\<rparr>) = ''credentials''" "report_category zero_finding = ''uncategorized''"
    by code_simp+
  then show ?thesis
    using summaries_exact [OF rearranges_rev, of "[zero_finding\<lparr>f_Category := ''credentials''\<rparr>, zero_finding]"] by simp
qed


subsection \<open>The inventory and the validation mode\<close>

lemma count_row: "foldl (\<lambda>(k, n) x. (k, Suc n)) (k, n) xs = (k, n + length xs)"
  by (induction xs arbitrary: n) auto

lemma count_rows_sum:
  assumes "rearranges order"
  shows "sum_list (map snd (count_rows order key xs)) = length (filter (\<lambda>x. key x \<noteq> None) xs)"
proof -
  have "sum_list (map snd (count_rows order key xs)) = sum_list (map (\<lambda>k. length (members key xs k)) (order (keys_of key xs)))"
    unfolding count_rows_def sum_list_slice_sort rows_exact [OF assms] by (simp add: count_row comp_def)
  then show ?thesis by (simp only: rearranged_sum [OF assms] members_total)
qed

definition inventory_of :: "FileMetadata list \<Rightarrow> backupArtifactCollector" where
  "inventory_of metas = foldl (\<lambda>c m. InventoryRecordFile m c) (InventorySetEnabled True newBackupArtifactCollector) metas"

definition is_backup_file :: "FileMetadata \<Rightarrow> bool" where
  "is_backup_file meta \<longleftrightarrow> norm_text (m_Extension (Normalized meta)) \<in> set backupArtifactExtensions"

lemma inventory_items:
  "bc_enabled (inventory_of metas) \<and> distinct (map fst (bc_items (inventory_of metas))) \<and>
   fst ` set (bc_items (inventory_of metas)) = backupArtifactKey ` Normalized ` {m \<in> set metas. is_backup_file m}"
proof (induction metas rule: rev_induct)
  case (snoc m metas)
  let ?c = "inventory_of metas"
  have step: "inventory_of (metas @ [m]) = InventoryRecordFile m ?c" by (simp add: inventory_of_def)
  show ?case
  proof (cases "is_backup_file m")
    case True
    then obtain r where r: "InventoryRecordFile m ?c = ?c\<lparr>bc_items := AList.update (backupArtifactKey (Normalized m)) r (bc_items ?c)\<rparr>"
      using snoc by (auto simp: InventoryRecordFile_def is_backup_file_def Let_def)
    show ?thesis using snoc True unfolding step r by (auto simp: distinct_update dom_update)
  next
    case False
    then have "InventoryRecordFile m ?c = ?c" by (simp add: InventoryRecordFile_def is_backup_file_def Let_def)
    with snoc False show ?thesis unfolding step by auto
  qed
qed (simp add: inventory_of_def InventorySetEnabled_def newBackupArtifactCollector_def)

text \<open>The inventory has one record for each backup file, and the numbers by type add up to them.\<close>

lemma inventory_exact:
  assumes "rearranges io" and "rearranges ty"
  shows "\<exists>inv. InventorySnapshot io ty (inventory_of metas) = Some inv \<and>
    bi_Total inv = card (backupArtifactKey ` Normalized ` {m \<in> set metas. is_backup_file m}) \<and>
    sum_list (map snd (bi_ByType inv)) = bi_Total inv \<and> length (bi_Items inv) = bi_Total inv"
proof -
  let ?c = "inventory_of metas" and ?items = "map snd (io (bc_items (inventory_of metas)))"
  note i = inventory_items [of metas]
  have "mset (io (bc_items ?c)) = mset (bc_items ?c)" using assms(1) by (simp add: rearranges_def)
  then have len: "length ?items = length (bc_items ?c)" using mset_eq_length by fastforce
  also have "\<dots> = card (fst ` set (bc_items ?c))" using i distinct_card [of "map fst (bc_items ?c)"] by simp
  finally have "length ?items = card (backupArtifactKey ` Normalized ` {m \<in> set metas. is_backup_file m})" using i by simp
  then show ?thesis using i count_rows_sum [OF assms(2), of "\<lambda>r. Some (ba_Extension r)" ?items]
    by (simp add: InventorySnapshot_def Let_def)
qed

lemma validation_step_counts:
  "vm_highConfidenceFindings v \<le> vm_visibleFindings v \<and> vm_falsePositiveCandidates v \<le> vm_visibleFindings v \<Longrightarrow>
   vm_highConfidenceFindings (validation_step v e) \<le> vm_visibleFindings (validation_step v e) \<and>
   vm_falsePositiveCandidates (validation_step v e) \<le> vm_visibleFindings (validation_step v e)"
  by (cases e) auto

lemma validation_counts:
  "let v = foldl validation_step newValidationModeCollector events
   in vm_highConfidenceFindings v \<le> vm_visibleFindings v \<and> vm_falsePositiveCandidates v \<le> vm_visibleFindings v"
proof (induction events rule: rev_induct)
  case (snoc e events)
  then show ?case using validation_step_counts [of "foldl validation_step newValidationModeCollector events" e] by (simp add: Let_def)
qed (simp add: newValidationModeCollector_def)

text \<open>When equal findings are merged and nothing is added, the number of matches stays that of the findings before the merge.\<close>

lemma merged_matches_still_counted:
  "length (dedupeReportFindings (\<lambda>ks. ks) [zero_finding, zero_finding]) = 1 \<and>
   sn_MatchesFound (adjustedSummarySnapshot
     (LiveSnapshot (foldl summary_step (newSummaryCollector 1) [SeeFinding, SeeFinding])) [zero_finding, zero_finding] [zero_finding]) = 2"
  by code_simp

end
