(* ===== verification/Spec2Isabelle.thy ===== *)
theory Spec2Isabelle
  imports Planner StateManager RuleManager Baseline Suppression Engine Pool ScanRun SeedVerify AccessPaths ReportSummary
begin

text \<open>
  A verification development for Snablr, a Go program that scans the SMB shares of a domain for secrets and
  reports what it finds. The paths below are relative to the repository.

  \<^bold>\<open>How the program works.\<close> A run (\<open>RunScan\<close> in \<open>internal/app/scan.go\<close>) loads the configuration, finds the rule
  directories, validates the options and the credentials, collects hosts (from the command line, from a file, from LDAP and
  from DFS) and plans their order. For each host it lists the shares, filters and plans them, and walks each one. The
  files met by the walk are planned in batches; a batch becomes jobs of a worker pool. A worker decides whether the
  file's content is needed, loads it over SMB, and evaluates the file: rules on the name, on the extension and on the decoded
  text, and inspectors for databases, SQLite files, archives, WIM images, keys, browser and Windows credential stores.
  Matches are validated against placeholders and weak values, become findings, are correlated per file and triaged. A
  collector writes the findings through the suppression writer to the sinks. A checkpoint of the files, shares and hosts
  that are done lets a later run resume. A report can be read back as the baseline of a comparison.

  \<^bold>\<open>Theories and sources.\<close>
  \<^item> \<open>Prelude\<close>, \<open>GoStrings\<close>, \<open>GoPath\<close>, \<open>Regex\<close>: what the program uses of Go's \<open>sort\<close>, \<open>strings\<close>, \<open>strconv\<close>, \<open>path/filepath\<close> and
    \<open>regexp\<close>, with the collections of lemmas the component proofs share.
  \<^item> \<open>Planner\<close>: \<open>internal/planner\<close>. Scores, filters and the ordered plans of hosts, shares and files.
  \<^item> \<open>StateStore\<close>, \<open>StateManager\<close>: \<open>internal/state\<close>. The checkpoint file with its atomic save, and the manager
    whose methods are steps on a state.
  \<^item> \<open>Rules\<close>, \<open>RuleManager\<close>: \<open>internal/rules\<close> without the rule tester. Validation, loading, reloading, buckets, matching.
  \<^item> \<open>ValueQuality\<close>, \<open>ContentText\<close>, \<open>Findings\<close>, \<open>FileScan\<close>, \<open>Correlation\<close>, \<open>Engine\<close>, \<open>Workers\<close>, \<open>Pool\<close>: \<open>internal/scanner\<close>.
    The values found, the text around them, findings and triage, the three scanners, correlation, the
    engine that puts them together, one job of a worker, and the pool as a step relation.
  \<^item> \<open>TextDecode\<close>: \<open>internal/textdecode\<close>. Detection and decoding of UTF-8, UTF-16 and single-byte text.
  \<^item> \<open>Archive\<close>, \<open>Inspectors\<close>, \<open>DbInspect\<close>, \<open>Sqlite\<close>, \<open>Wim\<close>, \<open>Artifacts\<close>: the inspection packages \<open>archiveinspect\<close>,
    \<open>awsinspect\<close>, \<open>backupinspect\<close>, \<open>browsercredinspect\<close>, \<open>wincredinspect\<close>, \<open>keyinspect\<close>, \<open>dbinspect\<close>, \<open>sqliteinspect\<close>, \<open>wiminspect\<close>, and the
    scanner's findings from their matches.
  \<^item> \<open>Suppression\<close>, \<open>Diff\<close>, \<open>Baseline\<close>: \<open>internal/suppression\<close> with the writer in front of the sinks, \<open>internal/diff\<close>, and
    the JSON form of a finding with the loader that reads it back (\<open>internal/output/json.go\<close>, \<open>internal/diff/loader.go\<close>).
  \<^item> \<open>Paths\<close>, \<open>Config\<close>, \<open>Runtime\<close>: \<open>internal/config\<close> and the parts of \<open>internal/app\<close> that turn options and a file into
    the configuration of a run.
  \<^item> \<open>Discovery\<close>, \<open>Ldap\<close>, \<open>Smb\<close>: \<open>internal/discovery\<close> and \<open>internal/smb\<close>. Targets and their deduplication, domain
    controllers, the transport and the fall-back of the LDAP connection, shares, the walk and the bounded read.
  \<^item> \<open>HostScan\<close>, \<open>ScanRun\<close>: \<open>internal/app/scan.go\<close>, \<open>preflight.go\<close>, \<open>scanned_targets.go\<close>. The scan of a host, and the run.
  \<^item> \<open>SeedLayout\<close>, \<open>SeedTemplates\<close>, \<open>SeedGenerate\<close>, \<open>SeedWrite\<close>, \<open>SeedVerify\<close>: \<open>internal/seed\<close> and \<open>internal/smb/write.go\<close>. The paths of
    the lab, the table of templates, the generator, the writer with its manifest, and the comparison of a manifest
    with the findings of a scan.
  \<^item> \<open>ReportText\<close>, \<open>ReportFindings\<close>, \<open>ReportCorrelation\<close>, \<open>AccessPaths\<close>, \<open>Creds\<close>, \<open>ReportSummary\<close>: what \<open>internal/output\<close>
    computes before it writes: merging and grouping of findings, findings correlated across files, access paths, the
    exported credentials, the summaries, the inventory of backups and the validation sections.

  \<^bold>\<open>What is shown.\<close> Each numbered text before a theorem states a property. The main groups:
  \<^item> No file is lost on the way: the walk meets every admitted file, with its stack it is the recursive
    traversal, the batches send each file once, the pool neither loses nor repeats a job, it always ends, and a job is
    completed once whatever panics. Nothing that is not admitted is walked.
  \<^item> No finding is lost or invented: content matches are accounted for, correlation partitions the findings,
    suppression accounts for each finding written, comparison of two scans is exact for every order of
    the maps.
  \<^item> Decisions are what they should be: buckets, skip rules, suppression of weak matches, triage caps, score bounds
    and breakdowns, and the equivalence of the two decisions about content. Where they are not, the deviation
    is proved on the model and listed as a finding: counterexamples are lemmas beside the property.
  \<^item> Bounds: members of archives and images, SQLite samples, bytes read. An archive member's path is relative and stays
    inside the archive.
  \<^item> Persistence: the checkpoint round trip and the atomic save, the read-back of a report, the resumed run.
  \<^item> Configuration and network: a loaded configuration is well formed, a connection is never taken back from LDAPS to
    LDAP, the discovery accounts for its candidates.
  \<^item> Reports: merging loses no finding and invents none, each group of duplicates shows every location, a pair of artifacts is
    reported where both lie in one place and only there, each correlated finding becomes one ranked access path, each
    exportable credential is exported with its paths, the figures add up.

  \<^bold>\<open>What is an argument.\<close> Code outside the repository is never defined here: the regular expression engine where a
  user writes the expression (the program's own expressions are terms of theory \<open>Regex\<close>), the YAML, ZIP, TAR, WIM and SQLite
  readers, the charmaps and the Unicode tables, the URL and IP parsers, the protocols SMB, LDAP, Kerberos and DNS, the file
  system and the environment. They are arguments of the definitions that use them, mostly fields of a record; a theorem with a
  hypothesis about one has a witness with a concrete function. The order in which Go visits a map and the moments at
  which concurrent results arrive are arguments too, so what is proved holds for each of them.

  \<^bold>\<open>Conventions.\<close> A Go string is a list of bytes. Case mapping and white space are those of ASCII. An error is the left side of
  a sum, or an option where the code returns nothing else. A nil pointer, slice or manager is \<open>None\<close> where the code can tell it. A Go \<open>int\<close>
  is an integer where a bound lemma or the size of the data keeps it in range, and a 64-bit number where it may wrap
  (durations of the configuration, sizes in archives, the reading limit). \<open>sort.Slice\<close> is the insertion sort the library runs
  on short slices; properties are stated on keys, which do not depend on it.

  \<^bold>\<open>Termination and bounds.\<close> There is no fuel in the model of the scan: the loops recur on their data or on a
  measure. The walk over a share is bounded by the depth limit of the code (64 where none is configured) and recurs on the multiset of
  pending directories by depth; the search through the ancestors of a directory recurs on the length of the path;
  \<open>FindAll\<close> recurs on the rest of the text; the pool's step relation has a measure that decreases with
  each step, so every run ends. The search of the seed generator for a free file name is a partial function whose value
  is shown to exist: the names in use are finitely many.

  \<^bold>\<open>Not modelled.\<close>
  \<^item> The renderers (HTML templates, Markdown, CSV, console, terminal interface, progress bars) and the log lines: they write the
    text of what the report theories compute.
  \<^item> What the templates of \<open>internal/seed\<close> render (the bytes of synthetic files and images): an argument of the generator.
  \<^item> \<open>cmd\<close>: flag parsing and printing. The commands for comparing, testing rules and discovery only call modelled functions and print.
  \<^item> The SMB connection, its dialer and deadlines, the GSSAPI files and the vendored libraries: calls of
    third-party code.
  \<^item> Go's scheduler below the level of the pool's steps, memory sharing between goroutines, and the mutexes: each locked
    method is one step.
\<close>

end
